(* ===== verification/Adb_Prelude.thy ===== *)
theory Adb_Prelude
  imports Main "HOL-Library.Word" "HOL-Library.Monad_Syntax"
begin

text \<open>
  Shared vocabulary of the development.

  \<^item> A byte of the program (a C++ \<open>char\<close>) is an Isabelle \<^typ>\<open>char\<close>, so that protocol text
    and binary payloads have one type and string literals can be written down.
  \<^item> A \<open>size_t\<close> is a \<^typ>\<open>nat\<close>; the only operation on it that can leave the machine range in
    the modelled code is subtraction, which is \<open>size_sub\<close> (wrapping at 64 bits).
  \<^item> \<^typ>\<open>'a option\<close> is the type of a computation that may be ended by a failing \<open>CHECK\<close>
    or by an access outside an object; both are \<^const>\<open>None\<close>.  Errors that the code
    \<^emph>\<open>returns\<close> are values of the result type, never \<^const>\<open>None\<close>.
  \<^item> The wire integers of adb are little endian: \<open>le32\<close> and \<open>le64\<close> with their readers.
\<close>

type_synonym byte = char
type_synonym bytes = "char list"
type_synonym u32 = "32 word"
type_synonym u64 = "64 word"

named_theorems adb_simps \<open>definitions that component proofs unfold together\<close>

section \<open>Aborting computations\<close>

definition CHECK :: "bool \<Rightarrow> unit option" where
  "CHECK b = (if b then Some () else None)"

definition at :: "'a list \<Rightarrow> nat \<Rightarrow> 'a option" where
  "at xs i = (if i < length xs then Some (xs ! i) else None)"

lemma CHECK_Some [simp]: "CHECK b = Some u \<longleftrightarrow> b"
  by (cases u) (simp add: CHECK_def)

lemma CHECK_True [simp]: "b \<Longrightarrow> CHECK b = Some ()"
  by (simp add: CHECK_def)

lemma CHECK_False [simp]: "CHECK False = None"
  by (simp add: CHECK_def)

lemma at_Some [simp]: "at xs i = Some x \<longleftrightarrow> i < length xs \<and> x = xs ! i"
  by (auto simp: at_def)

lemma at_in [simp]: "i < length xs \<Longrightarrow> at xs i = Some (xs ! i)"
  by (simp add: at_def)

section \<open>size_t subtraction\<close>

definition size_sub :: "nat \<Rightarrow> nat \<Rightarrow> nat" where
  "size_sub a b = (if b \<le> a then a - b else a + 2 ^ 64 - b)"

lemma size_sub_le [simp]: "b \<le> a \<Longrightarrow> size_sub a b = a - b"
  by (simp add: size_sub_def)

lemma size_sub_word:
  assumes "a < 2 ^ 64" "b < 2 ^ 64"
  shows "size_sub a b = unat (of_nat a - of_nat b :: 64 word)"
proof (cases "b \<le> a")
  case True
  then have eq: "(of_nat a - of_nat b :: 64 word) = of_nat (a - b)"
    by (simp add: of_nat_diff)
  show ?thesis
    unfolding eq using True assms by (simp add: unat_of_nat del: of_nat_diff)
next
  case False
  have eq: "(of_nat a - of_nat b :: 64 word) = of_nat (a + 2 ^ 64 - b)"
    using assms by (simp add: of_nat_diff)
  show ?thesis
    unfolding eq using False assms by (simp add: unat_of_nat size_sub_def del: of_nat_diff)
qed

section \<open>Copying between arrays\<close>

text \<open>
  \<open>memcpy dst d src s n\<close> is the array \<open>dst\<close> after \<open>memcpy(dst + d, src + s, n)\<close>, and
  \<^const>\<open>None\<close> when the copy reads or writes outside the two arrays.
\<close>

definition memcpy :: "'a list \<Rightarrow> nat \<Rightarrow> 'a list \<Rightarrow> nat \<Rightarrow> nat \<Rightarrow> 'a list option" where
  "memcpy dst d src s n =
     (if d + n \<le> length dst \<and> s + n \<le> length src
      then Some (take d dst @ take n (drop s src) @ drop (d + n) dst) else None)"

lemma memcpy_length: "memcpy dst d src s n = Some r \<Longrightarrow> length r = length dst"
  by (auto simp: memcpy_def split: if_splits)

lemma memcpy_ok [simp]:
  "d + n \<le> length dst \<Longrightarrow> s + n \<le> length src \<Longrightarrow>
   memcpy dst d src s n = Some (take d dst @ take n (drop s src) @ drop (d + n) dst)"
  by (simp add: memcpy_def)

section \<open>Lists\<close>

lemma take_list_update_append:
  "i < length xs \<Longrightarrow> xs[i := y] = take i xs @ y # drop (Suc i) xs"
  by (simp add: upd_conv_take_nth_drop)

lemma append_take_drop_append [simp]: "take n xs @ drop n xs @ ys = xs @ ys"
  by (simp add: append_assoc [symmetric] del: append_assoc)

lemma drop_drop_le: "n \<le> m \<Longrightarrow> drop m xs = drop (m - n) (drop n xs)"
  by simp

lemma sum_list_drop_Suc:
  "i < length xs \<Longrightarrow> sum_list (map f (drop i xs)) = f (xs ! i) + sum_list (map f (drop (Suc i) xs))"
  for f :: "'a \<Rightarrow> nat"
  by (simp add: Cons_nth_drop_Suc [symmetric])

lemma length_concat_sum: "length (concat (map f xs)) = sum_list (map (\<lambda>x. length (f x)) xs)"
  by (simp add: length_concat comp_def)

section \<open>Little-endian integers\<close>

fun le_bytes :: "nat \<Rightarrow> nat \<Rightarrow> bytes" where
  "le_bytes 0 n = []"
| "le_bytes (Suc k) n = char_of (n mod 256) # le_bytes k (n div 256)"

fun le_value :: "bytes \<Rightarrow> nat" where
  "le_value [] = 0"
| "le_value (c # cs) = of_char c + 256 * le_value cs"

lemma length_le_bytes [simp]: "length (le_bytes k n) = k"
  by (induction k arbitrary: n) auto

lemma of_char_less [simp]: "of_char c < (256 :: nat)"
  using nat_of_char_less_256 [of c] by simp

lemma le_value_bytes: "le_value (le_bytes k n) = n mod 256 ^ k"
proof (induction k arbitrary: n)
  case 0
  then show ?case by simp
next
  case (Suc k)
  have "n mod 256 ^ Suc k = n mod 256 + 256 * (n div 256 mod 256 ^ k)"
    by (simp add: mod_mult2_eq)
  with Suc show ?case by simp
qed

lemma le_bytes_value: "le_bytes (length bs) (le_value bs) = bs"
proof (induction bs)
  case Nil
  then show ?case by simp
next
  case (Cons c cs)
  have "(of_char c + 256 * le_value cs) mod 256 = (of_char c :: nat)"
    and "(of_char c + 256 * le_value cs) div 256 = le_value cs"
    by simp_all
  with Cons show ?case by simp
qed

lemma le_value_less: "le_value bs < 256 ^ length bs"
  by (metis le_bytes_value le_value_bytes mod_less_divisor zero_less_numeral zero_less_power)

definition le32 :: "u32 \<Rightarrow> bytes" where
  "le32 w = le_bytes 4 (unat w)"

definition get_le32 :: "bytes \<Rightarrow> u32" where
  "get_le32 bs = of_nat (le_value (take 4 bs))"

definition le64 :: "u64 \<Rightarrow> bytes" where
  "le64 w = le_bytes 8 (unat w)"

definition get_le64 :: "bytes \<Rightarrow> u64" where
  "get_le64 bs = of_nat (le_value (take 8 bs))"

lemma length_le32 [simp]: "length (le32 w) = 4"
  by (simp add: le32_def)

lemma length_le64 [simp]: "length (le64 w) = 8"
  by (simp add: le64_def)

lemma get_le32_le32 [simp]: "get_le32 (le32 w @ bs) = w"
proof -
  have "unat w < 256 ^ 4"
    using unsigned_less [of w] by simp
  then show ?thesis
    by (simp add: get_le32_def le32_def le_value_bytes)
qed

lemma get_le64_le64 [simp]: "get_le64 (le64 w @ bs) = w"
proof -
  have "unat w < 256 ^ 8"
    using unsigned_less [of w] by simp
  then show ?thesis
    by (simp add: get_le64_def le64_def le_value_bytes)
qed

lemma le32_get_le32: "length bs = 4 \<Longrightarrow> le32 (get_le32 bs) = bs"
proof -
  assume len: "length bs = 4"
  have "unat (of_nat (le_value bs) :: u32) = le_value bs"
    using le_value_less [of bs] len by (simp add: unat_of_nat)
  with len le_bytes_value [of bs] show ?thesis
    by (simp add: le32_def get_le32_def)
qed

section \<open>Runs and their specification\<close>

text \<open>
  A run of commands over a state, where \<open>None\<close> is an abort, and the simulation that the components
  prove of it: as long as the specification allows each command, the run returns, keeps the
  invariant, and its abstraction is the fold of the specification.
\<close>

fun run_steps :: "('c \<Rightarrow> 's \<Rightarrow> 's option) \<Rightarrow> 'c list \<Rightarrow> 's \<Rightarrow> 's option" where
  "run_steps step [] s = Some s"
| "run_steps step (c # cs) s = do { s1 \<leftarrow> step c s; run_steps step cs s1 }"

fun all_allowed :: "('c \<Rightarrow> 'a \<Rightarrow> bool) \<Rightarrow> ('c \<Rightarrow> 'a \<Rightarrow> 'a) \<Rightarrow> 'c list \<Rightarrow> 'a \<Rightarrow> bool" where
  "all_allowed allowed spec [] a = True"
| "all_allowed allowed spec (c # cs) a = (allowed c a \<and> all_allowed allowed spec cs (spec c a))"

lemma run_steps_append:
  "run_steps step (cs @ ds) s = do { s1 \<leftarrow> run_steps step cs s; run_steps step ds s1 }"
  by (induction cs arbitrary: s) (auto split: bind_splits)

locale simulation =
  fixes step :: "'c \<Rightarrow> 's \<Rightarrow> 's option" and inv :: "'s \<Rightarrow> bool" and abs :: "'s \<Rightarrow> 'a"
    and allowed :: "'c \<Rightarrow> 'a \<Rightarrow> bool" and spec :: "'c \<Rightarrow> 'a \<Rightarrow> 'a"
  assumes step_simulates:
    "inv s \<Longrightarrow> allowed c (abs s) \<Longrightarrow> \<exists>s'. step c s = Some s' \<and> inv s' \<and> abs s' = spec c (abs s)"
begin

lemma run_simulates:
  assumes "inv s" and "all_allowed allowed spec cs (abs s)"
  shows "\<exists>s'. run_steps step cs s = Some s' \<and> inv s' \<and> abs s' = fold spec cs (abs s)"
  using assms
proof (induction cs arbitrary: s)
  case (Cons c cs)
  then obtain s1 where s1: "step c s = Some s1" "inv s1" "abs s1 = spec c (abs s)"
    using step_simulates by fastforce
  have "all_allowed allowed spec cs (abs s1)" using Cons.prems(2) s1(3) by simp
  from Cons.IH [OF s1(2) this] s1 show ?case by simp
qed simp

end

end
