(* ===== verification/Adb_Block.thy ===== *)
theory Adb_Block
  imports Adb_Prelude
begin

text \<open>
  The buffer type \<open>Block\<close> of \<open>types.h\<close>: a heap array with a capacity, a size and a cursor.
  \<open>blk_data\<close> is the owned array (\<^const>\<open>None\<close> is the null pointer), whose length is the number
  of allocated bytes.  The contents of \<open>new char[size]\<close> are not initialised: every operation
  that allocates takes them as the argument \<open>junk\<close>.
  \<open>block_bytes\<close> is what a reader of the block sees, the first \<open>blk_size\<close> bytes.
\<close>

record 'a block =
  blk_data :: "'a list option"
  blk_capacity :: nat
  blk_size :: nat
  blk_position :: nat

definition block_new :: "'a block" where
  "block_new = \<lparr>blk_data = None, blk_capacity = 0, blk_size = 0, blk_position = 0\<rparr>"

definition block_allocate :: "(nat \<Rightarrow> 'a) \<Rightarrow> nat \<Rightarrow> 'a block \<Rightarrow> 'a block option" where
  "block_allocate junk n b = do {
     CHECK (blk_data b = None);
     CHECK (blk_capacity b = 0);
     CHECK (blk_size b = 0);
     Some (if n \<noteq> 0
           then b\<lparr>blk_data := Some (map junk [0..<n]), blk_capacity := n, blk_size := n\<rparr>
           else b)
   }"

definition block_of_size :: "(nat \<Rightarrow> 'a) \<Rightarrow> nat \<Rightarrow> 'a block option" where
  "block_of_size junk n = block_allocate junk n block_new"

text \<open>\<open>std::copy(begin, end, data_.get())\<close> into a block allocated with exactly that size.\<close>

definition block_store :: "'a list \<Rightarrow> 'a block \<Rightarrow> 'a block option" where
  "block_store xs b =
     (case blk_data b of
        None \<Rightarrow> (if xs = [] then Some b else None)
      | Some d \<Rightarrow> do { d' \<leftarrow> memcpy d 0 xs 0 (length xs); Some (b\<lparr>blk_data := Some d'\<rparr>) })"

definition block_of_range :: "(nat \<Rightarrow> 'a) \<Rightarrow> 'a list \<Rightarrow> 'a block option" where
  "block_of_range junk xs = do { b \<leftarrow> block_of_size junk (length xs); block_store xs b }"

definition block_clear :: "'a block \<Rightarrow> 'a block" where
  "block_clear b = b\<lparr>blk_data := None, blk_capacity := 0, blk_size := 0, blk_position := 0\<rparr>"

text \<open>The move constructor: the new block and what is left of the source.\<close>

definition block_move :: "'a block \<Rightarrow> 'a block \<times> 'a block" where
  "block_move m =
     (\<lparr>blk_data = blk_data m, blk_capacity = blk_capacity m, blk_size = blk_size m, blk_position = blk_position m\<rparr>,
      \<lparr>blk_data = None, blk_capacity = 0, blk_size = 0, blk_position = 0\<rparr>)"

text \<open>
  The move assignment.  Its last statement exchanges \<open>move.size_\<close> for the second time, where
  the constructor exchanges \<open>move.position_\<close>: the cursor is dropped and the source keeps its own.
\<close>

definition block_move_assign :: "'a block \<Rightarrow> 'a block \<Rightarrow> 'a block \<times> 'a block" where
  "block_move_assign this m =
     (let this0 = block_clear this;
          this1 = this0\<lparr>blk_data := blk_data m\<rparr>; m1 = m\<lparr>blk_data := None\<rparr>;
          this2 = this1\<lparr>blk_capacity := blk_capacity m1\<rparr>; m2 = m1\<lparr>blk_capacity := 0\<rparr>;
          this3 = this2\<lparr>blk_size := blk_size m2\<rparr>; m3 = m2\<lparr>blk_size := 0\<rparr>;
          this4 = this3\<lparr>blk_position := blk_size m3\<rparr>; m4 = m3\<lparr>blk_size := 0\<rparr>
      in (this4, m4))"

definition block_resize :: "(nat \<Rightarrow> 'a) \<Rightarrow> nat \<Rightarrow> 'a block \<Rightarrow> 'a block option" where
  "block_resize junk n b =
     (if blk_data b = None then block_allocate junk n b
      else do { CHECK (blk_capacity b \<ge> n); Some (b\<lparr>blk_size := n\<rparr>) })"

definition block_assign :: "(nat \<Rightarrow> 'a) \<Rightarrow> 'a list \<Rightarrow> 'a block \<Rightarrow> 'a block option" where
  "block_assign junk xs b = do {
     b1 \<leftarrow> block_allocate junk (length xs) (block_clear b);
     block_store xs b1
   }"

definition block_remaining :: "'a block \<Rightarrow> nat" where
  "block_remaining b = size_sub (blk_size b) (blk_position b)"

definition block_is_full :: "'a block \<Rightarrow> bool" where
  "block_is_full b = (block_remaining b = 0)"

text \<open>
  \<open>fillFrom\<close> copies as much as fits from the cursor of \<open>from\<close> to the cursor of this block and
  advances both cursors.  The result holds the two blocks and the number of bytes copied.
\<close>

definition block_fillFrom :: "'a block \<Rightarrow> 'a block \<Rightarrow> ('a block \<times> 'a block \<times> nat) option" where
  "block_fillFrom b from =
     (let n = min (block_remaining b) (block_remaining from) in
      if n = 0 then Some (b, from, 0)
      else do {
        d \<leftarrow> blk_data b;
        s \<leftarrow> blk_data from;
        d' \<leftarrow> memcpy d (blk_position b) s (blk_position from) n;
        Some (b\<lparr>blk_data := Some d', blk_position := blk_position b + n\<rparr>,
              from\<lparr>blk_position := blk_position from + n\<rparr>, n)
      })"

definition block_rewind :: "'a block \<Rightarrow> 'a block" where
  "block_rewind b = b\<lparr>blk_position := 0\<rparr>"

definition block_bytes :: "'a block \<Rightarrow> 'a list" where
  "block_bytes b = (case blk_data b of None \<Rightarrow> [] | Some d \<Rightarrow> take (blk_size b) d)"

definition block_empty :: "'a block \<Rightarrow> bool" where
  "block_empty b = (blk_size b = 0)"

definition block_eq :: "'a block \<Rightarrow> 'a block \<Rightarrow> bool" where
  "block_eq a b = (blk_size a = blk_size b \<and> block_bytes a = block_bytes b)"

text \<open>
  \<open>memmove(data, data + k, size - k)\<close> followed by \<open>resize(size - k)\<close>: the idiom by which
  \<open>IOVector\<close> removes the consumed head of a block in place.
\<close>

definition block_shift :: "nat \<Rightarrow> 'a block \<Rightarrow> 'a block option" where
  "block_shift k b = do {
     d \<leftarrow> blk_data b;
     d' \<leftarrow> memcpy d 0 d k (size_sub (blk_size b) k);
     block_resize (\<lambda>_. d ! 0) (size_sub (blk_size b) k) (b\<lparr>blk_data := Some d'\<rparr>)
   }"

section \<open>Well-formedness\<close>

definition block_wf :: "'a block \<Rightarrow> bool" where
  "block_wf b \<longleftrightarrow>
     (case blk_data b of
        None \<Rightarrow> blk_capacity b = 0 \<and> blk_size b = 0
      | Some d \<Rightarrow> length d = blk_capacity b \<and> 0 < blk_capacity b \<and> blk_size b \<le> blk_capacity b)"

text \<open>The cursor is inside the block: the precondition of the copying operations.\<close>

definition block_ok :: "'a block \<Rightarrow> bool" where
  "block_ok b \<longleftrightarrow> block_wf b \<and> blk_position b \<le> blk_size b"

definition block_unread :: "'a block \<Rightarrow> 'a list" where
  "block_unread b = drop (blk_position b) (block_bytes b)"

lemma block_wf_new [simp]: "block_wf block_new"
  by (simp add: block_wf_def block_new_def)

lemma block_wf_data: "block_wf b \<Longrightarrow> 0 < blk_size b \<Longrightarrow> \<exists>d. blk_data b = Some d \<and> length d = blk_capacity b"
  by (auto simp: block_wf_def split: option.splits)

lemma length_block_bytes [simp]: "block_wf b \<Longrightarrow> length (block_bytes b) = blk_size b"
  by (auto simp: block_wf_def block_bytes_def split: option.splits)

lemma block_bytes_new [simp]: "block_bytes block_new = []"
  by (simp add: block_bytes_def block_new_def)

lemma block_allocate_new:
  "block_allocate junk n block_new =
     Some (if n = 0 then block_new
           else \<lparr>blk_data = Some (map junk [0..<n]), blk_capacity = n, blk_size = n, blk_position = 0\<rparr>)"
  by (simp add: block_allocate_def block_new_def)

lemma block_of_range_Some:
  "block_of_range junk xs =
     Some (if xs = [] then block_new
           else \<lparr>blk_data = Some xs, blk_capacity = length xs, blk_size = length xs, blk_position = 0\<rparr>)"
proof (cases "xs = []")
  case True
  then show ?thesis
    by (simp add: block_of_range_def block_of_size_def block_allocate_new block_store_def)
      (simp add: block_new_def)
next
  case False
  then show ?thesis
    by (simp add: block_of_range_def block_of_size_def block_allocate_new block_store_def)
qed

lemma block_of_range_wf:
  assumes "block_of_range junk xs = Some b"
  shows "block_wf b" and "block_bytes b = xs" and "blk_position b = 0" and "blk_size b = length xs"
  using assms
  by (auto simp: block_of_range_Some block_wf_def block_bytes_def block_new_def split: if_splits)

lemma block_clear_eq [simp]: "block_clear b = block_new" for b :: "'a block"
  by (simp add: block_clear_def block_new_def)

lemma block_assign_eq: "block_assign junk xs b = block_of_range junk xs"
  by (simp add: block_assign_def block_of_range_def block_of_size_def)

lemma block_move_eq: "block_move m = (m, block_new)" for m :: "'a block"
  by (simp add: block_move_def block_new_def)

lemma block_move_assign_eq:
  "block_move_assign this m = (m\<lparr>blk_position := 0\<rparr>, m\<lparr>blk_data := None, blk_capacity := 0, blk_size := 0\<rparr>)"
  for m :: "'a block"
  by (simp add: block_move_assign_def block_new_def Let_def)

lemma block_wf_position [simp]: "block_wf (b\<lparr>blk_position := p\<rparr>) = block_wf b"
  by (simp add: block_wf_def split: option.split)

lemma block_bytes_position [simp]: "block_bytes (b\<lparr>blk_position := p\<rparr>) = block_bytes b"
  by (simp add: block_bytes_def split: option.split)

lemma block_resize_shrink:
  assumes "block_wf b" and "0 < n" and "n \<le> blk_size b"
  obtains b' where "block_resize junk n b = Some b'" and "block_wf b'"
    and "block_bytes b' = take n (block_bytes b)" and "blk_size b' = n"
proof -
  from assms obtain d where d: "blk_data b = Some d" and len: "length d = blk_capacity b"
    using block_wf_data by fastforce
  then have "block_resize junk n b = Some (b\<lparr>blk_size := n\<rparr>)"
    using assms by (auto simp: block_resize_def block_wf_def)
  moreover have "block_wf (b\<lparr>blk_size := n\<rparr>)"
    using assms d by (auto simp: block_wf_def)
  moreover have "block_bytes (b\<lparr>blk_size := n\<rparr>) = take n (block_bytes b)"
    using assms d by (simp add: block_bytes_def min_def)
  ultimately show ?thesis using that by simp
qed

lemma block_shift_ok:
  assumes wf: "block_wf b" and k: "k < blk_size b"
  obtains b' where "block_shift k b = Some b'" and "block_wf b'"
    and "block_bytes b' = drop k (block_bytes b)" and "blk_size b' = blk_size b - k"
    and "blk_capacity b' = blk_capacity b"
proof -
  from assms obtain d where d: "blk_data b = Some d" and len: "length d = blk_capacity b"
    using block_wf_data by fastforce
  define d' where "d' = take (blk_size b - k) (drop k d) @ drop (blk_size b - k) d"
  have bnd: "blk_size b \<le> blk_capacity b" "0 < blk_capacity b"
    using wf d by (auto simp: block_wf_def)
  have len': "length d' = blk_capacity b"
    using bnd len k by (simp add: d'_def)
  have "block_shift k b = Some (b\<lparr>blk_data := Some d', blk_size := blk_size b - k\<rparr>)"
    using bnd len k d by (simp add: block_shift_def block_resize_def d'_def)
  moreover have "block_wf (b\<lparr>blk_data := Some d', blk_size := blk_size b - k\<rparr>)"
    using bnd len' by (simp add: block_wf_def)
  moreover have "block_bytes (b\<lparr>blk_data := Some d', blk_size := blk_size b - k\<rparr>) = drop k (block_bytes b)"
    using bnd len k d by (simp add: block_bytes_def d'_def drop_take)
  ultimately show ?thesis using that by simp
qed

lemma length_block_unread [simp]: "block_wf b \<Longrightarrow> length (block_unread b) = blk_size b - blk_position b"
  by (simp add: block_unread_def)

lemma block_remaining_ok [simp]: "block_ok b \<Longrightarrow> block_remaining b = blk_size b - blk_position b"
  by (simp add: block_remaining_def block_ok_def)

text \<open>
  \<open>fillFrom\<close> moves the longest prefix of the source's unread bytes that fits: the bytes before the
  destination's cursor grow by it, and the source's unread bytes shrink by it.
\<close>

lemma block_fillFrom_ok:
  assumes b: "block_ok b" and f: "block_ok from"
  defines "n \<equiv> min (blk_size b - blk_position b) (blk_size from - blk_position from)"
  obtains b' from' where "block_fillFrom b from = Some (b', from', n)"
    and "block_ok b'" and "block_ok from'"
    and "take (blk_position b') (block_bytes b') = take (blk_position b) (block_bytes b) @ take n (block_unread from)"
    and "blk_position b' = blk_position b + n" and "blk_size b' = blk_size b"
    and "blk_position from' = blk_position from + n" and "block_unread from' = drop n (block_unread from)"
    and "blk_size from' = blk_size from" and "blk_data from' = blk_data from" and "(blk_data b' = None) = (blk_data b = None)"
    and "from' = from\<lparr>blk_position := blk_position from + n\<rparr>"
proof (cases "n = 0")
  case True
  then have eq: "block_fillFrom b from = Some (b, from, n)"
    using b f by (simp add: block_fillFrom_def n_def)
  show ?thesis
    by (rule that [OF eq b f]) (use True in simp_all)
next
  case False
  then have pos: "0 < blk_size b" "0 < blk_size from"
    by (auto simp: n_def)
  obtain d where d: "blk_data b = Some d" and ld: "length d = blk_capacity b" and bd: "blk_size b \<le> length d"
    using b pos unfolding block_ok_def block_wf_def by (auto split: option.splits)
  obtain s where s: "blk_data from = Some s" and ls: "length s = blk_capacity from" and bs: "blk_size from \<le> length s"
    using f pos unfolding block_ok_def block_wf_def by (auto split: option.splits)
  have n1: "blk_position b + n \<le> blk_size b" "blk_position from + n \<le> blk_size from"
    using b f by (auto simp: n_def block_ok_def)
  define d' where "d' = take (blk_position b) d @ take n (drop (blk_position from) s) @ drop (blk_position b + n) d"
  define b' where "b' = b\<lparr>blk_data := Some d', blk_position := blk_position b + n\<rparr>"
  have len': "length d' = length d"
    using n1 bd bs by (simp add: d'_def)
  have eq: "block_fillFrom b from = Some (b', from\<lparr>blk_position := blk_position from + n\<rparr>, n)"
    using b f d s n1 bd bs False
    by (simp add: block_fillFrom_def b'_def d'_def n_def [symmetric] Let_def)
  have ok: "block_ok b'" "block_ok (from\<lparr>blk_position := blk_position from + n\<rparr>)"
    using b f n1 len' d ld by (auto simp: b'_def block_ok_def block_wf_def split: option.splits)
  have "take (blk_position b') (block_bytes b') = take (blk_position b + n) d'"
    using n1 by (simp add: b'_def block_bytes_def min_def)
  also have "\<dots> = take (blk_position b) (block_bytes b) @ take n (block_unread from)"
    using n1 bd bs d s by (simp add: d'_def block_bytes_def block_unread_def min_def take_drop)
  finally have copied: "take (blk_position b') (block_bytes b') =
      take (blk_position b) (block_bytes b) @ take n (block_unread from)" .
  show ?thesis
    by (rule that [OF eq ok copied])
      (use n1 d in \<open>simp_all add: b'_def block_unread_def add.commute\<close>)
qed

lemma block_fillFrom_full:
  assumes "block_ok b" and "blk_position b = blk_size b" and "block_ok from"
  shows "block_fillFrom b from = Some (b, from, 0)"
  using assms by (simp add: block_fillFrom_def)

text \<open>A block that was resized to the length of the given bytes and filled with them.\<close>

definition filled_block :: "bytes \<Rightarrow> byte block" where
  "filled_block xs = \<lparr>blk_data = (if xs = [] then None else Some xs), blk_capacity = length xs, blk_size = length xs, blk_position = 0\<rparr>"

lemma filled_block_ok [simp]: "block_ok (filled_block xs)" "block_unread (filled_block xs) = xs" "block_bytes (filled_block xs) = xs"
  by (simp_all add: filled_block_def block_ok_def block_wf_def block_unread_def block_bytes_def)

end
