(* ===== verification/Adb_IOVector.thy ===== *)
theory Adb_IOVector
  imports Adb_Block
begin

text \<open>
  The chain of blocks \<open>IOVector\<close> of \<open>types.h\<close> and \<open>types.cpp\<close>: the queue in which a socket keeps
  the bytes it has not written yet.  A vector keeps its blocks in \<open>chain\<close>; the blocks before
  \<open>start_index\<close> are already consumed, and so are the first \<open>begin_offset\<close> bytes of the block at
  \<open>start_index\<close>.  The functions below follow the methods of the class; a read of the chain outside
  its bounds and a failing \<open>CHECK\<close> are \<^const>\<open>None\<close>.

  \<open>iov_bytes\<close> abstracts a vector to the list of its bytes.  Each operation is shown to act on
  that list as the corresponding list function does, and to keep the invariant \<open>iov_wf\<close>.
\<close>

record 'a iovector =
  chain_length :: nat
  begin_offset :: nat
  start_index :: nat
  chain :: "'a block list"

definition iov_new :: "'a iovector" where
  "iov_new = \<lparr>chain_length = 0, begin_offset = 0, start_index = 0, chain = []\<rparr>"

definition iov_size :: "'a iovector \<Rightarrow> nat" where
  "iov_size v = size_sub (chain_length v) (begin_offset v)"

definition iov_empty :: "'a iovector \<Rightarrow> bool" where
  "iov_empty v = (iov_size v = 0)"

text \<open>\<open>append\<close>: the vector, and what is left of the moved block.\<close>

definition iov_append :: "'a block \<Rightarrow> 'a iovector \<Rightarrow> 'a iovector \<times> 'a block" where
  "iov_append b v =
     (if blk_size b = 0 then (v, b)
      else let (b', rest) = block_move b
           in (v\<lparr>chain_length := chain_length v + blk_size b, chain := chain v @ [b']\<rparr>, rest))"

definition iov_of_block :: "'a block \<Rightarrow> 'a iovector" where
  "iov_of_block b = fst (iov_append b iov_new)"

text \<open>\<open>front_data\<close> (\<^const>\<open>None\<close> inside is the null pointer) and \<open>front_size\<close>.\<close>

definition iov_front_data :: "'a iovector \<Rightarrow> 'a list option option" where
  "iov_front_data v =
     (if chain v = [] then Some None
      else do { b \<leftarrow> at (chain v) (start_index v); Some (map_option (drop (begin_offset v)) (blk_data b)) })"

definition iov_front_size :: "'a iovector \<Rightarrow> nat option" where
  "iov_front_size v =
     (if chain v = [] then Some 0
      else do { b \<leftarrow> at (chain v) (start_index v); Some (size_sub (blk_size b) (begin_offset v)) })"

definition iov_clear :: "'a iovector \<Rightarrow> 'a iovector \<times> 'a block" where
  "iov_clear v =
     (let res = (if chain v \<noteq> [] then fst (block_move_assign block_new (last (chain v))) else block_new)
      in (v\<lparr>chain_length := 0, begin_offset := 0, start_index := 0, chain := []\<rparr>, res))"

definition iov_move_assign :: "'a iovector \<Rightarrow> 'a iovector \<Rightarrow> 'a iovector \<times> 'a iovector" where
  "iov_move_assign this m =
     (this\<lparr>chain := chain m, chain_length := chain_length m, begin_offset := begin_offset m,
           start_index := start_index m\<rparr>,
      fst (iov_clear (m\<lparr>chain := []\<rparr>)))"

definition iov_trim_chain_front :: "'a iovector \<Rightarrow> 'a iovector" where
  "iov_trim_chain_front v =
     (if start_index v \<noteq> 0 then v\<lparr>chain := drop (start_index v) (chain v), start_index := 0\<rparr> else v)"

definition iov_pop_front_block :: "'a iovector \<Rightarrow> 'a iovector option" where
  "iov_pop_front_block v = do {
     b \<leftarrow> at (chain v) (start_index v);
     let v1 = v\<lparr>chain_length := size_sub (chain_length v) (blk_size b), begin_offset := 0,
                chain := (chain v)[start_index v := block_clear b],
                start_index := start_index v + 1\<rparr>;
     Some (if start_index v1 > max 4 (length (chain v1) div 2) then iov_trim_chain_front v1 else v1)
   }"

text \<open>
  The loop of \<open>drop_front\<close>.  Its counter \<open>dropped\<close> is declared by \<open>auto dropped = 0u\<close>, so it is an
  \<open>unsigned int\<close> and wraps at 32 bits although \<open>len\<close> is a \<open>size_t\<close>.
\<close>

function iov_drop_loop :: "nat \<Rightarrow> nat \<Rightarrow> 'a iovector \<Rightarrow> 'a iovector option" where
  "iov_drop_loop len dropped v =
     (if dropped < len then
        (case at (chain v) (start_index v) of
           None \<Rightarrow> None
         | Some b \<Rightarrow>
             (let next = size_sub (blk_size b) (begin_offset v) in
              if dropped + next \<le> len then
                (case iov_pop_front_block v of
                   None \<Rightarrow> None
                 | Some v' \<Rightarrow> iov_drop_loop len ((dropped + next) mod 2 ^ 32) v')
              else Some (v\<lparr>begin_offset := begin_offset v + (len - dropped)\<rparr>)))
      else Some v)"
  by pat_completeness auto
termination
  by (relation "measure (\<lambda>(len, dropped, v). length (chain v) - start_index v)")
    (auto simp: iov_pop_front_block_def iov_trim_chain_front_def Let_def split: if_splits)

definition iov_drop_front :: "nat \<Rightarrow> 'a iovector \<Rightarrow> 'a iovector option" where
  "iov_drop_front len v =
     (if len = 0 then Some v
      else if len = iov_size v then Some (fst (iov_clear v))
      else do { CHECK (len < iov_size v); iov_drop_loop len 0 v })"

text \<open>The first loop of \<open>take_front\<close>, over the blocks that move as a whole.\<close>

function iov_take_loop ::
    "'a iovector \<Rightarrow> 'a iovector \<Rightarrow> nat \<Rightarrow> ('a iovector \<times> 'a iovector \<times> nat) option" where
  "iov_take_loop v res len =
     (case at (chain v) (start_index v) of
        None \<Rightarrow> None
      | Some b \<Rightarrow>
          if size_sub (blk_size b) (begin_offset v) \<le> len then
            (let v1 = v\<lparr>chain_length := size_sub (chain_length v) (blk_size b)\<rparr>;
                 len1 = size_sub len (size_sub (blk_size b) (begin_offset v));
                 (v2, res2) =
                   (if blk_size b > begin_offset v then
                      (let (r, rest) = iov_append b res;
                           v' = v1\<lparr>chain := (chain v1)[start_index v := rest]\<rparr>
                       in if begin_offset v \<noteq> 0
                          then (v'\<lparr>begin_offset := 0\<rparr>, r\<lparr>begin_offset := begin_offset v\<rparr>)
                          else (v', r))
                    else (v1\<lparr>begin_offset := 0\<rparr>, res))
             in iov_take_loop (v2\<lparr>start_index := start_index v2 + 1\<rparr>) res2 len1)
          else Some (v, res, len))"
  by pat_completeness auto
termination
  by (relation "measure (\<lambda>(v, res, len). length (chain v) - start_index v)")
    (auto simp: Let_def split: if_splits prod.splits)

text \<open>
  The second part: the block that has to be split is copied out (a short head) or moved out and
  its tail copied back (a long head).
\<close>

definition iov_take_split ::
    "(nat \<Rightarrow> 'a) \<Rightarrow> 'a iovector \<Rightarrow> 'a iovector \<Rightarrow> nat \<Rightarrow> ('a iovector \<times> 'a iovector) option" where
  "iov_take_split junk v res len = do {
     b \<leftarrow> at (chain v) (start_index v);
     if begin_offset v \<noteq> 0 \<or> len < blk_size b div 2 then do {
       nb \<leftarrow> block_of_range junk (take len (drop (begin_offset v) (block_bytes b)));
       Some (v\<lparr>begin_offset := begin_offset v + len\<rparr>, fst (iov_append nb res))
     } else do {
       CHECK (begin_offset v = 0);
       nb \<leftarrow> block_of_range junk (drop len (block_bytes b));
       let cl = size_sub (chain_length v) (blk_size b);
       b1 \<leftarrow> block_resize junk len b;
       let (res', b2) = iov_append b1 res;
       let cl' = cl + blk_size nb;
       let (b3, _) = block_move_assign b2 nb;
       Some (v\<lparr>chain_length := cl', chain := (chain v)[start_index v := b3]\<rparr>, res')
     }
   }"

text \<open>\<open>take_front\<close>: what remains in this vector, and the vector of the first \<open>len\<close> bytes.\<close>

definition iov_take_front ::
    "(nat \<Rightarrow> 'a) \<Rightarrow> nat \<Rightarrow> 'a iovector \<Rightarrow> ('a iovector \<times> 'a iovector) option" where
  "iov_take_front junk len v =
     (if len = 0 then Some (v, iov_new)
      else if len = iov_size v then (let (res, v') = iov_move_assign iov_new v in Some (v', res))
      else do {
        CHECK (iov_size v \<ge> len);
        (v1, res, len1) \<leftarrow> iov_take_loop v iov_new len;
        if len1 > 0 then iov_take_split junk v1 res len1 else Some (v1, res)
      })"

definition iov_trim_front :: "'a iovector \<Rightarrow> 'a iovector option" where
  "iov_trim_front v =
     (if (begin_offset v = 0 \<and> start_index v = 0) \<or> chain v = [] then Some v
      else do {
        b \<leftarrow> at (chain v) (start_index v);
        v1 \<leftarrow> (if begin_offset v = blk_size b then Some (v\<lparr>start_index := start_index v + 1\<rparr>)
               else do { b' \<leftarrow> block_shift (begin_offset v) b;
                         Some (v\<lparr>chain := (chain v)[start_index v := b']\<rparr>) });
        Some (iov_trim_chain_front
                (v1\<lparr>chain_length := size_sub (chain_length v1) (begin_offset v1), begin_offset := 0\<rparr>))
      })"

text \<open>
  \<open>iterate_blocks\<close>: the slices its callback is called with, in order.  \<open>iovecs\<close> collects exactly
  these.
\<close>

definition iov_iterate_blocks :: "'a iovector \<Rightarrow> 'a list list option" where
  "iov_iterate_blocks v =
     (if iov_size v = 0 then Some []
      else (case drop (start_index v) (chain v) of
              [] \<Rightarrow> Some []
            | b # bs \<Rightarrow> do {
                CHECK (blk_size b \<ge> begin_offset v);
                Some (drop (begin_offset v) (block_bytes b) # map block_bytes bs) }))"

definition iov_iovecs :: "'a iovector \<Rightarrow> 'a list list option" where
  "iov_iovecs v = iov_iterate_blocks v"

fun copy_slices :: "'a list \<Rightarrow> nat \<Rightarrow> 'a list list \<Rightarrow> 'a list option" where
  "copy_slices d off [] = Some d"
| "copy_slices d off (s # ss) = do { d' \<leftarrow> memcpy d off s 0 (length s); copy_slices d' (off + length s) ss }"

definition iov_coalesce :: "(nat \<Rightarrow> 'a) \<Rightarrow> 'a iovector \<Rightarrow> 'a block option" where
  "iov_coalesce junk v =
     (if iov_size v = 0 then Some block_new
      else do {
        r \<leftarrow> block_resize junk (iov_size v) block_new;
        d \<leftarrow> blk_data r;
        ss \<leftarrow> iov_iterate_blocks v;
        d' \<leftarrow> copy_slices d 0 ss;
        Some (r\<lparr>blk_data := Some d'\<rparr>)
      })"

definition iov_coalesced :: "(nat \<Rightarrow> 'a) \<Rightarrow> ('a list \<Rightarrow> 'b) \<Rightarrow> 'a iovector \<Rightarrow> 'b option" where
  "iov_coalesced junk f v =
     (if length (chain v) = start_index v + 1 then do {
        b \<leftarrow> at (chain v) (start_index v);
        Some (f (take (iov_size v) (drop (begin_offset v) (block_bytes b))))
      } else do { b \<leftarrow> iov_coalesce junk v; Some (f (block_bytes b)) })"

text \<open>
  The destructive \<open>coalesce\<close>: the coalesced block and the vector it leaves behind.  It hands out an
  existing block where it can.
\<close>

definition iov_coalesce_move :: "(nat \<Rightarrow> 'a) \<Rightarrow> 'a iovector \<Rightarrow> ('a block \<times> 'a iovector) option" where
  "iov_coalesce_move junk v =
     (if iov_size v = 0 then Some (block_new, v)
      else do {
        b \<leftarrow> at (chain v) (start_index v);
        if begin_offset v = blk_size b \<and> length (chain v) = start_index v + 2 then
          Some (fst (block_move (last (chain v))),
                v\<lparr>chain_length := size_sub (chain_length v) (blk_size (last (chain v))),
                  chain := butlast (chain v)\<rparr>)
        else if length (chain v) = start_index v + 1 then do {
          let res = fst (block_move (last (chain v)));
          let v1 = v\<lparr>chain_length := size_sub (chain_length v) (blk_size (last (chain v))),
                     chain := butlast (chain v)\<rparr>;
          if begin_offset v \<noteq> 0
          then do { res' \<leftarrow> block_shift (begin_offset v) res; Some (res', v1\<lparr>begin_offset := 0\<rparr>) }
          else Some (res, v1)
        } else if blk_capacity b \<ge> iov_size v then do {
          let (res, rest) = block_move b;
          d \<leftarrow> blk_data res;
          d1 \<leftarrow> (if begin_offset v \<noteq> 0
                 then memcpy d 0 d (begin_offset v) (size_sub (blk_size res) (begin_offset v)) else Some d);
          let n1 = size_sub (blk_size res) (begin_offset v);
          let ss = map block_bytes (drop (start_index v + 1) (chain v));
          d2 \<leftarrow> copy_slices d1 n1 ss;
          res' \<leftarrow> block_resize junk (n1 + length (concat ss)) (res\<lparr>blk_data := Some d2\<rparr>);
          Some (res', v\<lparr>chain_length := size_sub (chain_length v) (blk_size b), begin_offset := 0,
                        chain := (chain v)[start_index v := rest], start_index := start_index v + 1\<rparr>)
        } else do { r \<leftarrow> iov_coalesce junk v; Some (r, v) }
      })"

section \<open>Invariant and abstraction\<close>

definition iov_live :: "'a iovector \<Rightarrow> 'a block list" where
  "iov_live v = drop (start_index v) (chain v)"

definition iov_wf :: "'a iovector \<Rightarrow> bool" where
  "iov_wf v \<longleftrightarrow>
     start_index v \<le> length (chain v) \<and>
     (\<forall>b \<in> set (iov_live v). block_wf b \<and> 0 < blk_size b) \<and>
     chain_length v = sum_list (map blk_size (iov_live v)) \<and>
     (case iov_live v of [] \<Rightarrow> begin_offset v = 0 | b # _ \<Rightarrow> begin_offset v < blk_size b)"

definition iov_bytes :: "'a iovector \<Rightarrow> 'a list" where
  "iov_bytes v = drop (begin_offset v) (concat (map block_bytes (iov_live v)))"


lemma iov_liveE:
  assumes "iov_wf v" and "iov_live v = b # bs"
  shows "start_index v < length (chain v)" and "chain v ! start_index v = b"
    and "drop (Suc (start_index v)) (chain v) = bs"
    and "block_wf b" and "begin_offset v < blk_size b"
    and "chain_length v = blk_size b + sum_list (map blk_size bs)"
    and "\<forall>x \<in> set bs. block_wf x \<and> 0 < blk_size x"
proof -
  show lt: "start_index v < length (chain v)"
    using assms(2) by (metis drop_all iov_live_def list.distinct(1) not_le)
  have "iov_live v = chain v ! start_index v # drop (Suc (start_index v)) (chain v)"
    using lt by (simp add: iov_live_def Cons_nth_drop_Suc)
  then show "chain v ! start_index v = b" "drop (Suc (start_index v)) (chain v) = bs"
    using assms(2) by simp_all
  show "block_wf b" "begin_offset v < blk_size b" "chain_length v = blk_size b + sum_list (map blk_size bs)"
    "\<forall>x \<in> set bs. block_wf x \<and> 0 < blk_size x"
    using assms by (auto simp: iov_wf_def)
qed

lemma iov_live_Nil: "iov_live v = [] \<Longrightarrow> iov_wf v \<Longrightarrow> chain_length v = 0 \<and> begin_offset v = 0"
  by (simp add: iov_wf_def)

lemma sum_list_wf_bytes:
  "\<forall>b \<in> set bs. block_wf b \<Longrightarrow> length (concat (map block_bytes bs)) = sum_list (map blk_size bs)"
  by (induction bs) auto

lemma iov_bytes_Cons:
  assumes "iov_wf v" and "iov_live v = b # bs"
  shows "iov_bytes v = drop (begin_offset v) (block_bytes b) @ concat (map block_bytes bs)"
proof -
  have "begin_offset v < length (block_bytes b)"
    using iov_liveE [OF assms] by simp
  then show ?thesis
    by (simp add: iov_bytes_def assms(2))
qed

lemma iov_size_bytes: "iov_wf v \<Longrightarrow> iov_size v = length (iov_bytes v)"
proof (cases "iov_live v")
  case Nil
  assume "iov_wf v"
  with Nil show ?thesis
    by (simp add: iov_size_def iov_bytes_def iov_live_Nil)
next
  case (Cons b bs)
  assume wf: "iov_wf v"
  note l = iov_liveE [OF wf Cons]
  have "length (iov_bytes v) = (blk_size b - begin_offset v) + sum_list (map blk_size bs)"
    using l by (simp add: iov_bytes_Cons [OF wf Cons] sum_list_wf_bytes)
  with l show ?thesis
    by (simp add: iov_size_def)
qed

lemma iov_wf_new [simp]: "iov_wf iov_new" and iov_bytes_new [simp]: "iov_bytes iov_new = []"
  by (simp_all add: iov_wf_def iov_bytes_def iov_new_def iov_live_def)

lemma iov_live_empty_iff: "iov_wf v \<Longrightarrow> iov_bytes v = [] \<longleftrightarrow> iov_live v = []"
proof (cases "iov_live v")
  case Nil
  then show ?thesis by (simp add: iov_bytes_def)
next
  case (Cons b bs)
  assume wf: "iov_wf v"
  have "begin_offset v < length (block_bytes b)"
    using iov_liveE [OF wf Cons] by simp
  then show ?thesis
    by (simp add: iov_bytes_Cons [OF wf Cons] Cons)
qed

lemma iov_wfI:
  assumes "start_index v \<le> length (chain v)" and "iov_live v = bs"
    and "\<forall>b \<in> set bs. block_wf b \<and> 0 < blk_size b"
    and "chain_length v = sum_list (map blk_size bs)"
    and "bs = [] \<Longrightarrow> begin_offset v = 0" and "bs \<noteq> [] \<Longrightarrow> begin_offset v < blk_size (hd bs)"
  shows "iov_wf v"
  using assms by (auto simp: iov_wf_def split: list.split)

subsection \<open>Appending\<close>

lemma iov_append_eq:
  "iov_append b v =
     (if blk_size b = 0 then (v, b)
      else (v\<lparr>chain_length := chain_length v + blk_size b, chain := chain v @ [b]\<rparr>, block_new))"
  for b :: "'a block"
  by (simp add: iov_append_def block_move_eq)

lemma iov_append_wf:
  assumes wf: "iov_wf v" and b: "block_wf b"
  shows "iov_wf (fst (iov_append b v))" and "iov_bytes (fst (iov_append b v)) = iov_bytes v @ block_bytes b"
proof -
  have "iov_wf (fst (iov_append b v)) \<and> iov_bytes (fst (iov_append b v)) = iov_bytes v @ block_bytes b"
  proof (cases "blk_size b = 0")
    case True
    with length_block_bytes [OF b] have "block_bytes b = []"
      by (simp del: length_block_bytes)
    with True wf show ?thesis by (simp add: iov_append_eq)
  next
    case False
    define v' where "v' = v\<lparr>chain_length := chain_length v + blk_size b, chain := chain v @ [b]\<rparr>"
    have live: "iov_live v' = iov_live v @ [b]"
      using wf by (simp add: v'_def iov_live_def iov_wf_def)
    have "iov_wf v'"
      using wf b False
      by (intro iov_wfI [OF _ live]) (auto simp: v'_def iov_wf_def hd_append split: list.splits)
    moreover have "iov_bytes v' = iov_bytes v @ block_bytes b"
    proof (cases "iov_live v")
      case Nil
      then show ?thesis using wf by (simp add: iov_bytes_def live) (simp add: v'_def iov_live_Nil)
    next
      case (Cons c cs)
      then show ?thesis
        using iov_bytes_Cons [OF \<open>iov_wf v'\<close>, of c "cs @ [b]"] live iov_bytes_Cons [OF wf Cons]
        by (simp add: v'_def)
    qed
    ultimately show ?thesis using False by (simp add: iov_append_eq v'_def)
  qed
  then show "iov_wf (fst (iov_append b v))" and "iov_bytes (fst (iov_append b v)) = iov_bytes v @ block_bytes b"
    by simp_all
qed

lemma iov_clear_eq: "fst (iov_clear v) = iov_new" for v :: "'a iovector"
  by (simp add: iov_clear_def iov_new_def)

lemma iov_move_assign_eq: "iov_move_assign this m = (m, iov_new)" for this m :: "'a iovector"
  by (simp add: iov_move_assign_def iov_clear_eq)

subsection \<open>Dropping a prefix\<close>

lemma iov_trim_chain_front_live [simp]:
  "iov_live (iov_trim_chain_front v) = iov_live v"
  "begin_offset (iov_trim_chain_front v) = begin_offset v"
  "chain_length (iov_trim_chain_front v) = chain_length v"
  by (simp_all add: iov_trim_chain_front_def iov_live_def)

lemma iov_trim_chain_front_start:
  "start_index v \<le> length (chain v) \<Longrightarrow>
   start_index (iov_trim_chain_front v) \<le> length (chain (iov_trim_chain_front v))"
  by (simp add: iov_trim_chain_front_def)

lemma iov_pop_front_block_ok:
  assumes wf: "iov_wf v" and live: "iov_live v = b # bs"
  obtains v' where "iov_pop_front_block v = Some v'" and "iov_wf v'" and "iov_live v' = bs"
    and "begin_offset v' = 0"
proof -
  note l = iov_liveE [OF wf live]
  define v1 where "v1 = v\<lparr>chain_length := size_sub (chain_length v) (blk_size b), begin_offset := 0,
    chain := (chain v)[start_index v := block_clear b], start_index := start_index v + 1\<rparr>"
  define v' where "v' = (if start_index v1 > max 4 (length (chain v1) div 2)
    then iov_trim_chain_front v1 else v1)"
  have live1: "iov_live v1 = bs"
    using l by (simp add: v1_def iov_live_def)
  have wf1: "iov_wf v1"
    using l by (intro iov_wfI [OF _ live1]) (auto simp: v1_def hd_conv_nth)
  have "iov_pop_front_block v = Some v'"
    using l by (simp add: iov_pop_front_block_def v1_def v'_def Let_def)
  moreover have off1: "begin_offset v1 = 0"
    by (simp add: v1_def)
  then have "iov_wf v'" "iov_live v' = bs" "begin_offset v' = 0"
    using wf1 live1 iov_trim_chain_front_start [of v1] by (simp_all add: v'_def iov_wf_def split: list.split)
  ultimately show ?thesis by (rule that)
qed

declare iov_drop_loop.simps [simp del] iov_take_loop.simps [simp del]

lemma iov_drop_loop_ok:
  assumes "iov_wf v" and "dropped \<le> len" and "len - dropped < length (iov_bytes v)" and "len < 2 ^ 32"
  shows "\<exists>v'. iov_drop_loop len dropped v = Some v' \<and> iov_wf v' \<and>
              iov_bytes v' = drop (len - dropped) (iov_bytes v)"
  using assms
proof (induction len dropped v rule: iov_drop_loop.induct)
  case (1 len dropped v)
  note wf = "1.prems"(1)
  show ?case
  proof (cases "dropped < len")
    case False
    with "1.prems" show ?thesis by (simp add: iov_drop_loop.simps)
  next
    case True
    have "iov_live v \<noteq> []"
      using "1.prems"(1,3) iov_live_empty_iff by fastforce
    then obtain b bs where live: "iov_live v = b # bs" by (cases "iov_live v") auto
    note l = iov_liveE [OF wf live]
    have bytes: "iov_bytes v = drop (begin_offset v) (block_bytes b) @ concat (map block_bytes bs)"
      by (rule iov_bytes_Cons [OF wf live])
    let ?n = "blk_size b - begin_offset v"
    show ?thesis
    proof (cases "dropped + ?n \<le> len")
      case True
      obtain v' where pop: "iov_pop_front_block v = Some v'" and wf': "iov_wf v'"
        and live': "iov_live v' = bs" and off': "begin_offset v' = 0"
        by (rule iov_pop_front_block_ok [OF wf live])
      have bytes': "iov_bytes v' = drop ?n (iov_bytes v)"
        unfolding bytes using l by (simp add: iov_bytes_def live' off')
      have md: "(dropped + ?n) mod 2 ^ 32 = dropped + ?n"
        using True "1.prems"(4) by simp
      have IH: "\<exists>w. iov_drop_loop len (dropped + ?n) v' = Some w \<and> iov_wf w \<and>
          iov_bytes w = drop (len - (dropped + ?n)) (iov_bytes v')"
        using "1.IH" [of b ?n v'] True \<open>dropped < len\<close> l pop wf' md "1.prems" bytes' by simp
      then show ?thesis
        using True \<open>dropped < len\<close> l pop md bytes'
        by (subst iov_drop_loop.simps) (auto simp: add.commute)
    next
      case False
      define v' where "v' = v\<lparr>begin_offset := begin_offset v + (len - dropped)\<rparr>"
      have live': "iov_live v' = b # bs"
        using live by (simp add: v'_def iov_live_def)
      have wf': "iov_wf v'"
        using wf l False live by (intro iov_wfI [OF _ live']) (auto simp: v'_def iov_wf_def)
      have off': "begin_offset v' = begin_offset v + (len - dropped)"
        by (simp add: v'_def)
      have "iov_bytes v' = drop (len - dropped) (iov_bytes v)"
        unfolding iov_bytes_def live live' drop_drop off' by (simp only: add.commute)
      moreover have "iov_drop_loop len dropped v = Some v'"
        using False \<open>dropped < len\<close> l by (subst iov_drop_loop.simps) (simp add: v'_def)
      ultimately show ?thesis using wf' by simp
    qed
  qed
qed

lemma iov_drop_front_ok:
  assumes "iov_wf v" and "len \<le> length (iov_bytes v)" and "len < 2 ^ 32"
  shows "\<exists>v'. iov_drop_front len v = Some v' \<and> iov_wf v' \<and> iov_bytes v' = drop len (iov_bytes v)"
proof -
  consider "len = 0" | "len \<noteq> 0" "len = iov_size v" | "len \<noteq> 0" "len < iov_size v"
    using assms(2) iov_size_bytes [OF assms(1)] by linarith
  then show ?thesis
  proof cases
    case 1
    with assms(1) show ?thesis by (simp add: iov_drop_front_def)
  next
    case 2
    with iov_size_bytes [OF assms(1)] show ?thesis
      by (simp add: iov_drop_front_def iov_clear_eq)
  next
    case 3
    with iov_drop_loop_ok [of v 0 len] assms iov_size_bytes [OF assms(1)] show ?thesis
      by (simp add: iov_drop_front_def)
  qed
qed


subsection \<open>Splitting off a prefix\<close>

lemma iov_append_offset:
  assumes b: "block_wf b" and off: "off < blk_size b"
  defines "r \<equiv> (fst (iov_append b iov_new))\<lparr>begin_offset := off\<rparr>"
  shows "iov_wf r" and "iov_bytes r = drop off (block_bytes b)"
proof -
  have live: "iov_live r = [b]"
    using off by (simp add: r_def iov_append_eq iov_live_def iov_new_def)
  show "iov_wf r"
    using b off by (intro iov_wfI [OF _ live]) (auto simp: r_def iov_append_eq iov_new_def)
  have "begin_offset r = off"
    by (simp add: r_def)
  then show "iov_bytes r = drop off (block_bytes b)"
    by (simp add: iov_bytes_def live)
qed

lemma iov_advance:
  fixes x :: "'a block" and v :: "'a iovector"
  assumes wf: "iov_wf v" and live: "iov_live v = b # bs"
  defines "w \<equiv> v\<lparr>chain_length := size_sub (chain_length v) (blk_size b), begin_offset := 0,
    chain := (chain v)[start_index v := x], start_index := start_index v + 1\<rparr>"
  shows "iov_wf w" and "iov_live w = bs" and "begin_offset w = 0"
    and "iov_bytes w = drop (blk_size b - begin_offset v) (iov_bytes v)"
proof -
  note l = iov_liveE [OF wf live]
  show live': "iov_live w = bs"
    using l by (simp add: w_def iov_live_def)
  show off: "begin_offset w = 0"
    by (simp add: w_def)
  show "iov_wf w"
    using l by (intro iov_wfI [OF _ live']) (auto simp: w_def)
  show "iov_bytes w = drop (blk_size b - begin_offset v) (iov_bytes v)"
    unfolding iov_bytes_Cons [OF wf live] using l by (simp add: iov_bytes_def live' off)
qed

lemma iov_take_step:
  assumes wf: "iov_wf v" and wr: "iov_wf res" and live: "iov_live v = b # bs"
    and fresh: "begin_offset v \<noteq> 0 \<Longrightarrow> res = iov_new"
    and le: "blk_size b - begin_offset v \<le> len"
  obtains w r where "iov_take_loop v res len = iov_take_loop w r (len - (blk_size b - begin_offset v))"
    and "iov_wf w" and "iov_wf r" and "begin_offset w = 0"
    and "iov_bytes r = iov_bytes res @ take (blk_size b - begin_offset v) (iov_bytes v)"
    and "iov_bytes w = drop (blk_size b - begin_offset v) (iov_bytes v)"
    and "length (chain w) - start_index w < length (chain v) - start_index v"
proof -
  note l = iov_liveE [OF wf live]
  define w where "w = v\<lparr>chain_length := size_sub (chain_length v) (blk_size b), begin_offset := 0,
    chain := (chain v)[start_index v := block_new], start_index := start_index v + 1\<rparr>"
  define r where "r = (if 0 < begin_offset v then (fst (iov_append b res))\<lparr>begin_offset := begin_offset v\<rparr>
    else fst (iov_append b res))"
  note w = iov_advance [OF wf live, of block_new, folded w_def]
  have bytes: "take (blk_size b - begin_offset v) (iov_bytes v) = drop (begin_offset v) (block_bytes b)"
    unfolding iov_bytes_Cons [OF wf live] using l by simp
  have r: "iov_wf r" "iov_bytes r = iov_bytes res @ drop (begin_offset v) (block_bytes b)"
    using iov_append_offset [OF l(4,5)] iov_append_wf [OF wr l(4)] fresh
    by (auto simp: r_def)
  have "iov_take_loop v res len = iov_take_loop w r (len - (blk_size b - begin_offset v))"
    using l le
    by (subst iov_take_loop.simps) (cases v, simp add: w_def r_def iov_append_eq Let_def)
  then show ?thesis
    by (rule that) (use w r bytes l(1) in \<open>simp_all add: w_def\<close>)
qed

lemma iov_take_loop_ok:
  assumes "iov_wf v" and "iov_wf res" and "len < length (iov_bytes v)"
    and "begin_offset v \<noteq> 0 \<Longrightarrow> res = iov_new"
  shows "\<exists>v' res' len' b bs. iov_take_loop v res len = Some (v', res', len') \<and>
     iov_wf v' \<and> iov_wf res' \<and> len' \<le> len \<and>
     iov_bytes res' = iov_bytes res @ take (len - len') (iov_bytes v) \<and>
     iov_bytes v' = drop (len - len') (iov_bytes v) \<and>
     iov_live v' = b # bs \<and> len' < blk_size b - begin_offset v'"
  using assms
proof (induction "length (chain v) - start_index v" arbitrary: v res len rule: less_induct)
  case less
  have "iov_live v \<noteq> []"
    using less.prems(1,3) iov_live_empty_iff by fastforce
  then obtain b bs where live: "iov_live v = b # bs" by (cases "iov_live v") auto
  note l = iov_liveE [OF less.prems(1) live]
  let ?n = "blk_size b - begin_offset v"
  show ?case
  proof (cases "?n \<le> len")
    case True
    obtain w r where eq: "iov_take_loop v res len = iov_take_loop w r (len - ?n)"
      and w: "iov_wf w" "iov_wf r" "begin_offset w = 0"
        "iov_bytes r = iov_bytes res @ take ?n (iov_bytes v)" "iov_bytes w = drop ?n (iov_bytes v)"
        "length (chain w) - start_index w < length (chain v) - start_index v"
      by (rule iov_take_step [OF less.prems(1,2) live less.prems(4) True])
    have "len - ?n < length (iov_bytes w)"
      using less.prems(3) True w(5) by simp
    from less.hyps [OF w(6,1,2) this] w(3) obtain v' res' len' c cs
      where IH: "iov_take_loop w r (len - ?n) = Some (v', res', len')" "iov_wf v'" "iov_wf res'"
        "len' \<le> len - ?n" "iov_bytes res' = iov_bytes r @ take (len - ?n - len') (iov_bytes w)"
        "iov_bytes v' = drop (len - ?n - len') (iov_bytes w)" "iov_live v' = c # cs"
        "len' < blk_size c - begin_offset v'"
      by auto
    have sum: "len - len' = ?n + (len - ?n - len')"
      using IH(4) True by simp
    have "iov_bytes res' = iov_bytes res @ take (len - len') (iov_bytes v)"
      unfolding sum take_add IH(5) w(4,5) by simp
    moreover have "iov_bytes v' = drop (len - len') (iov_bytes v)"
      unfolding sum IH(6) w(5) drop_drop by (simp only: add.commute)
    ultimately show ?thesis
      using eq IH True by (intro exI [of _ v'] exI [of _ res'] exI [of _ len'] exI [of _ c] exI [of _ cs]) simp
  next
    case False
    then have "iov_take_loop v res len = Some (v, res, len)"
      using l by (subst iov_take_loop.simps) simp
    with False less.prems(1,2) live show ?thesis by auto
  qed
qed

lemma iov_take_split_ok:
  assumes wf: "iov_wf v" and wr: "iov_wf res" and live: "iov_live v = b # bs"
    and len: "0 < len" "len < blk_size b - begin_offset v"
  shows "\<exists>v' res'. iov_take_split junk v res len = Some (v', res') \<and> iov_wf v' \<and> iov_wf res' \<and>
     iov_bytes res' = iov_bytes res @ take len (iov_bytes v) \<and> iov_bytes v' = drop len (iov_bytes v)"
proof -
  note l = iov_liveE [OF wf live]
  have head: "take len (iov_bytes v) = take len (drop (begin_offset v) (block_bytes b))"
    unfolding iov_bytes_Cons [OF wf live] using l len by simp
  show ?thesis
  proof (cases "begin_offset v \<noteq> 0 \<or> len < blk_size b div 2")
    case True
    let ?xs = "take len (drop (begin_offset v) (block_bytes b))"
    obtain nb where nb: "block_of_range junk ?xs = Some nb"
      by (simp add: block_of_range_Some)
    define v' where "v' = v\<lparr>begin_offset := begin_offset v + len\<rparr>"
    have live': "iov_live v' = b # bs" and off': "begin_offset v' = begin_offset v + len"
      using live by (simp_all add: v'_def iov_live_def)
    have "iov_wf v'"
      using wf l len live by (intro iov_wfI [OF _ live']) (auto simp: v'_def iov_wf_def)
    moreover have "iov_bytes v' = drop len (iov_bytes v)"
      unfolding iov_bytes_def live live' off' drop_drop by (simp only: add.commute)
    moreover note iov_append_wf [OF wr block_of_range_wf(1) [OF nb]]
    moreover have "iov_take_split junk v res len = Some (v', fst (iov_append nb res))"
      using True l nb by (simp add: iov_take_split_def v'_def)
    ultimately show ?thesis
      using block_of_range_wf(2) [OF nb] head by simp
  next
    case False
    then have off: "begin_offset v = 0" by simp
    let ?xs = "drop len (block_bytes b)"
    obtain nb where nb: "block_of_range junk ?xs = Some nb"
      by (simp add: block_of_range_Some)
    note nbw = block_of_range_wf [OF nb]
    obtain b1 where b1: "block_resize junk len b = Some b1" "block_wf b1"
      "block_bytes b1 = take len (block_bytes b)" "blk_size b1 = len"
      using block_resize_shrink [OF l(4) len(1)] len(2) by (metis diff_le_self less_imp_le order_trans)
    have nbs: "blk_size nb = blk_size b - len"
      using nbw l by simp
    define v' where "v' = v\<lparr>chain_length := size_sub (chain_length v) (blk_size b) + blk_size nb,
      chain := (chain v)[start_index v := nb\<lparr>blk_position := 0\<rparr>]\<rparr>"
    have live': "iov_live v' = nb\<lparr>blk_position := 0\<rparr> # bs" and off': "begin_offset v' = 0"
      using l off by (simp_all add: v'_def iov_live_def Cons_nth_drop_Suc [symmetric])
    have "iov_wf v'"
      using l nbw nbs len
      by (intro iov_wfI [OF _ live']) (auto simp: v'_def off)
    moreover have "iov_bytes v' = drop len (iov_bytes v)"
      unfolding iov_bytes_Cons [OF wf live] using nbw l len off
      by (simp add: iov_bytes_def live' off')
    moreover note iov_append_wf [OF wr b1(2)]
    moreover have "iov_take_split junk v res len = Some (v', fst (iov_append b1 res))"
      using False l nb b1(1) off
      by (simp add: iov_take_split_def v'_def block_move_assign_eq split_beta)
    ultimately show ?thesis
      using b1(3) head off by simp
  qed
qed

lemma iov_take_front_ok:
  assumes wf: "iov_wf v" and le: "len \<le> length (iov_bytes v)"
  shows "\<exists>v' res. iov_take_front junk len v = Some (v', res) \<and> iov_wf v' \<and> iov_wf res \<and>
     iov_bytes res = take len (iov_bytes v) \<and> iov_bytes v' = drop len (iov_bytes v)"
proof -
  note sz = iov_size_bytes [OF wf]
  consider "len = 0" | "len \<noteq> 0" "len = iov_size v" | "len \<noteq> 0" "len < iov_size v"
    using le sz by linarith
  then show ?thesis
  proof cases
    case 1
    with wf show ?thesis by (simp add: iov_take_front_def)
  next
    case 2
    with wf sz show ?thesis
      by (simp add: iov_take_front_def iov_move_assign_eq)
  next
    case 3
    then have lt: "len < length (iov_bytes v)" using sz by simp
    obtain w r k b bs where L: "iov_take_loop v iov_new len = Some (w, r, k)" "iov_wf w" "iov_wf r" "k \<le> len"
      "iov_bytes r = take (len - k) (iov_bytes v)" "iov_bytes w = drop (len - k) (iov_bytes v)"
      "iov_live w = b # bs" "k < blk_size b - begin_offset w"
      using iov_take_loop_ok [OF wf iov_wf_new lt] by auto
    have unfold: "iov_take_front junk len v =
        (if k > 0 then iov_take_split junk w r k else Some (w, r))"
      using 3 L(1) by (simp add: iov_take_front_def)
    show ?thesis
    proof (cases "k = 0")
      case True
      with L unfold show ?thesis by simp
    next
      case False
      then have "0 < k" by simp
      from iov_take_split_ok [OF L(2,3,7) this L(8), of junk] obtain w' r' where
        "iov_take_split junk w r k = Some (w', r')" "iov_wf w'" "iov_wf r'"
        "iov_bytes r' = iov_bytes r @ take k (iov_bytes w)" "iov_bytes w' = drop k (iov_bytes w)"
        by blast
      moreover have "iov_bytes r @ take k (iov_bytes w) = take len (iov_bytes v)"
        using L(4) take_add [of "len - k" k "iov_bytes v"] by (simp add: L(5,6))
      moreover have "drop k (iov_bytes w) = drop len (iov_bytes v)"
        using L(4) by (simp add: L(6))
      ultimately show ?thesis
        using unfold \<open>0 < k\<close> by simp
    qed
  qed
qed


subsection \<open>Flattening\<close>

lemma copy_slices_ok:
  "off + length (concat ss) \<le> length d \<Longrightarrow>
   copy_slices d off ss = Some (take off d @ concat ss @ drop (off + length (concat ss)) d)"
proof (induction ss arbitrary: d off)
  case Nil
  then show ?case by simp
next
  case (Cons s ss)
  then show ?case
    by (simp add: ac_simps)
qed

lemma iov_iterate_blocks_ok:
  assumes wf: "iov_wf v"
  obtains ss where "iov_iterate_blocks v = Some ss" and "concat ss = iov_bytes v"
    and "\<forall>s \<in> set ss. s \<noteq> []"
proof (cases "iov_live v")
  case Nil
  then have "iov_bytes v = []" by (simp add: iov_bytes_def)
  then show ?thesis
    using that [of "[]"] iov_size_bytes [OF wf] by (simp add: iov_iterate_blocks_def)
next
  case (Cons b bs)
  note l = iov_liveE [OF wf Cons]
  have ne: "iov_size v \<noteq> 0"
    using iov_live_empty_iff [OF wf] Cons iov_size_bytes [OF wf] by simp
  have nonempty: "block_bytes x \<noteq> []" if "x \<in> set bs" for x
    using l(7) that length_block_bytes [of x] by fastforce
  have "iov_iterate_blocks v = Some (drop (begin_offset v) (block_bytes b) # map block_bytes bs)"
    using ne Cons l by (simp add: iov_iterate_blocks_def iov_live_def [symmetric])
  then show ?thesis
    by (rule that) (use l nonempty iov_bytes_Cons [OF wf Cons] in auto)
qed

lemma iov_coalesce_ok:
  assumes wf: "iov_wf v"
  obtains b where "iov_coalesce junk v = Some b" and "block_wf b" and "block_bytes b = iov_bytes v"
    and "blk_position b = 0"
proof (cases "iov_size v = 0")
  case True
  then show ?thesis
    using that [of block_new] iov_size_bytes [OF wf]
    by (simp add: iov_coalesce_def) (simp add: block_new_def)
next
  case False
  obtain ss where ss: "iov_iterate_blocks v = Some ss" "concat ss = iov_bytes v"
    by (rule iov_iterate_blocks_ok [OF wf])
  define n where "n = iov_size v"
  have n: "n = length (iov_bytes v)" "0 < n"
    using iov_size_bytes [OF wf] False by (simp_all add: n_def)
  define b where "b = \<lparr>blk_data = Some (iov_bytes v), blk_capacity = n, blk_size = n, blk_position = 0\<rparr>"
  have "block_resize junk n block_new =
      Some \<lparr>blk_data = Some (map junk [0..<n]), blk_capacity = n, blk_size = n, blk_position = 0\<rparr>"
    using n(2) by (simp add: block_resize_def block_allocate_new) (simp add: block_new_def)
  moreover have "copy_slices (map junk [0..<n]) 0 ss = Some (iov_bytes v)"
    using copy_slices_ok [of 0 ss "map junk [0..<n]"] ss(2) n(1) by simp
  ultimately have "iov_coalesce junk v = Some b"
    using False ss(1) by (simp add: iov_coalesce_def n_def [symmetric] b_def)
  then show ?thesis
    by (rule that) (use n in \<open>simp_all add: b_def block_wf_def block_bytes_def\<close>)
qed

lemma iov_coalesced_ok:
  assumes wf: "iov_wf v"
  shows "iov_coalesced junk f v = Some (f (iov_bytes v))"
proof (cases "length (chain v) = start_index v + 1")
  case True
  then obtain b where live: "iov_live v = [b]" and b: "chain v ! start_index v = b"
    by (simp add: iov_live_def Cons_nth_drop_Suc [symmetric])
  have "iov_bytes v = drop (begin_offset v) (block_bytes b)"
    using iov_bytes_Cons [OF wf live] by simp
  moreover from this have "iov_size v = length (drop (begin_offset v) (block_bytes b))"
    using iov_size_bytes [OF wf] by simp
  ultimately show ?thesis
    using True b by (simp add: iov_coalesced_def)
next
  case False
  obtain b where "iov_coalesce junk v = Some b" "block_bytes b = iov_bytes v"
    by (rule iov_coalesce_ok [OF wf])
  with False show ?thesis by (simp add: iov_coalesced_def)
qed

lemma iov_trim_front_ok:
  assumes wf: "iov_wf v" and live: "iov_live v = b # bs"
  shows "\<exists>v'. iov_trim_front v = Some v' \<and> iov_wf v' \<and> iov_bytes v' = iov_bytes v \<and>
     begin_offset v' = 0 \<and> start_index v' = 0"
proof (cases "begin_offset v = 0 \<and> start_index v = 0")
  case True
  with wf show ?thesis by (simp add: iov_trim_front_def)
next
  case False
  note l = iov_liveE [OF wf live]
  obtain b' where b': "block_shift (begin_offset v) b = Some b'" "block_wf b'"
    "block_bytes b' = drop (begin_offset v) (block_bytes b)" "blk_size b' = blk_size b - begin_offset v"
    by (rule block_shift_ok [OF l(4,5)])
  define v1 where "v1 = v\<lparr>chain := (chain v)[start_index v := b'],
    chain_length := size_sub (chain_length v) (begin_offset v), begin_offset := 0\<rparr>"
  have live1: "iov_live v1 = b' # bs" and off1: "begin_offset v1 = 0"
    using l by (simp_all add: v1_def iov_live_def Cons_nth_drop_Suc [symmetric])
  have wf1: "iov_wf v1"
    using l b' by (intro iov_wfI [OF _ live1]) (auto simp: v1_def)
  have "iov_wf (iov_trim_chain_front v1)"
    using wf1 live1 iov_trim_chain_front_start [of v1] by (simp add: iov_wf_def)
  moreover have "iov_bytes (iov_trim_chain_front v1) = iov_bytes v"
    unfolding iov_bytes_Cons [OF wf live] by (simp add: iov_bytes_def live1 off1 b'(3))
  moreover have "iov_trim_front v = Some (iov_trim_chain_front v1)"
    using False l b' by (auto simp: iov_trim_front_def v1_def)
  moreover have "start_index (iov_trim_chain_front v1) = 0"
    by (simp add: iov_trim_chain_front_def)
  ultimately show ?thesis using off1 by simp
qed

text \<open>
  The destructive flattening returns the same bytes as the copying one whichever branch it takes,
  and leaves a well-formed vector.
\<close>

lemma iov_coalesce_reuse_ok:
  assumes wf: "iov_wf v" and live: "iov_live v = b # bs" and bs: "bs \<noteq> []"
    and cap: "blk_capacity b \<ge> iov_size v"
  obtains r v' where "iov_coalesce_move junk v = Some (r, v')" and "block_wf r"
    and "block_bytes r = iov_bytes v" and "iov_wf v'"
proof -
  note l = iov_liveE [OF wf live]
  have ne: "iov_size v \<noteq> 0"
    using iov_live_empty_iff [OF wf] live iov_size_bytes [OF wf] by simp
  have len: "length (chain v) \<noteq> start_index v + 1"
    using l(1,3) bs by (metis Suc_eq_plus1 drop_all order_refl)
  obtain d where d: "blk_data b = Some d" "length d = blk_capacity b" "blk_size b \<le> blk_capacity b"
    using l(4,5) by (auto simp: block_wf_def split: option.splits)
  define off n1 ss where "off = begin_offset v" and "n1 = blk_size b - off" and "ss = map block_bytes bs"
  have off: "off < blk_size b" using l(5) by (simp add: off_def)
  define d1 where "d1 = take n1 (drop off d) @ drop n1 d"
  have d1: "(if begin_offset v \<noteq> 0 then memcpy d 0 d (begin_offset v) (size_sub (blk_size b) (begin_offset v))
      else Some d) = Some d1" "length d1 = blk_capacity b"
    using d off by (auto simp: d1_def n1_def off_def)
  have total: "n1 + length (concat ss) = iov_size v" "n1 + length (concat ss) = length (iov_bytes v)"
    using iov_size_bytes [OF wf] iov_bytes_Cons [OF wf live] l(4)
    by (simp_all add: n1_def ss_def off_def)
  define d2 where "d2 = take n1 d1 @ concat ss @ drop (n1 + length (concat ss)) d1"
  have d2: "copy_slices d1 n1 ss = Some d2" "length d2 = blk_capacity b"
    using copy_slices_ok [of n1 ss d1] total cap d1(2) by (simp_all add: d2_def)
  define r where "r = b\<lparr>blk_data := Some d2, blk_size := n1 + length (concat ss)\<rparr>"
  have rsz: "block_resize junk (n1 + length (concat ss)) (b\<lparr>blk_data := Some d2\<rparr>) = Some r"
    using total cap by (simp add: block_resize_def r_def)
  note w = iov_advance [OF wf live, of block_new]
  have tail: "drop (Suc (start_index v)) (chain v) = bs" by (rule l(3))
  have "iov_coalesce_move junk v = Some (r, v\<lparr>chain_length := size_sub (chain_length v) (blk_size b),
      begin_offset := 0, chain := (chain v)[start_index v := block_new], start_index := start_index v + 1\<rparr>)"
    using ne len cap l(1,2,5) d(1) d1(1) d2(1) rsz tail off
    by (simp add: iov_coalesce_move_def block_move_eq ss_def [symmetric] n1_def [symmetric]
        off_def [symmetric] Let_def)
  moreover have "block_wf r"
    using d2(2) total cap off by (simp add: r_def block_wf_def n1_def)
  moreover have "block_bytes r = iov_bytes v"
  proof -
    have "take n1 d1 = drop off (block_bytes b)"
      using d off by (simp add: d1_def n1_def block_bytes_def drop_take)
    then show ?thesis
      using total d2(2) cap d1(2) off d(3)
      by (simp add: r_def block_bytes_def d2_def iov_bytes_Cons [OF wf live] ss_def off_def)
  qed
  ultimately show ?thesis using w(1) by (rule that)
qed


lemma iov_coalesce_last_ok:
  assumes wf: "iov_wf v" and live: "iov_live v = [b]"
  obtains r v' where "iov_coalesce_move junk v = Some (r, v')" and "block_wf r"
    and "block_bytes r = iov_bytes v" and "iov_wf v'"
proof -
  note l = iov_liveE [OF wf live]
  have ne: "iov_size v \<noteq> 0"
    using iov_live_empty_iff [OF wf] live iov_size_bytes [OF wf] by simp
  have len: "length (chain v) = start_index v + 1"
    using arg_cong [OF live, of length] l(1) by (simp add: iov_live_def)
  have lst: "last (chain v) = b"
    using l(1,2) len by (subst last_conv_nth) auto
  define v' where "v' = v\<lparr>chain_length := size_sub (chain_length v) (blk_size b),
    chain := butlast (chain v), begin_offset := 0\<rparr>"
  have live': "iov_live v' = []"
    using len by (simp add: v'_def iov_live_def)
  have wf': "iov_wf v'"
    using l len by (intro iov_wfI [OF _ live']) (auto simp: v'_def)
  have bytes: "iov_bytes v = drop (begin_offset v) (block_bytes b)"
    using iov_bytes_Cons [OF wf live] by simp
  show ?thesis
  proof (cases "begin_offset v = 0")
    case True
    then have "iov_coalesce_move junk v = Some (b, v')"
      using ne len lst l by (cases v) (simp add: iov_coalesce_move_def block_move_eq v'_def)
    then show ?thesis
      by (rule that) (use True l bytes wf' in simp_all)
  next
    case False
    obtain b' where b': "block_shift (begin_offset v) b = Some b'" "block_wf b'"
      "block_bytes b' = drop (begin_offset v) (block_bytes b)"
      by (rule block_shift_ok [OF l(4,5)])
    then have "iov_coalesce_move junk v = Some (b', v')"
      using ne len lst l False by (simp add: iov_coalesce_move_def block_move_eq v'_def)
    then show ?thesis
      by (rule that) (use b' bytes wf' in simp_all)
  qed
qed

lemma iov_coalesce_move_ok:
  assumes wf: "iov_wf v"
  obtains r v' where "iov_coalesce_move junk v = Some (r, v')" and "block_wf r"
    and "block_bytes r = iov_bytes v" and "iov_wf v'"
proof (cases "iov_live v")
  case Nil
  then have "iov_bytes v = []" by (simp add: iov_bytes_def)
  with iov_size_bytes [OF wf] have "iov_coalesce_move junk v = Some (block_new, v)"
    by (simp add: iov_coalesce_move_def)
  then show ?thesis by (rule that) (use wf \<open>iov_bytes v = []\<close> in simp_all)
next
  case (Cons b bs)
  note l = iov_liveE [OF wf Cons]
  consider "bs = []" | "bs \<noteq> []" "blk_capacity b \<ge> iov_size v" | "bs \<noteq> []" "blk_capacity b < iov_size v"
    by fastforce
  then show ?thesis
  proof cases
    case 1
    then show ?thesis using iov_coalesce_last_ok [OF wf] Cons that by metis
  next
    case 2
    then show ?thesis using iov_coalesce_reuse_ok [OF wf Cons] that by metis
  next
    case 3
    have ne: "iov_size v \<noteq> 0" using 3(2) by simp
    have len: "length (chain v) \<noteq> start_index v + 1"
      using l(1,3) 3(1) by (metis Suc_eq_plus1 drop_all order_refl)
    obtain c where c: "iov_coalesce junk v = Some c" "block_wf c" "block_bytes c = iov_bytes v"
      by (rule iov_coalesce_ok [OF wf])
    then have "iov_coalesce_move junk v = Some (c, v)"
      using 3 ne len l by (simp add: iov_coalesce_move_def)
    then show ?thesis by (rule that) (use c wf in simp_all)
  qed
qed

section \<open>The queue interface\<close>

text \<open>
  What a socket relies on when it keeps its unwritten bytes in a vector: a byte queue to which
  blocks are appended at the back and from which the bytes that a \<open>writev\<close> accepted are dropped
  at the front.  \<open>lim\<close> bounds the number of bytes of one drop.
\<close>

locale byte_queue =
  fixes contents :: "'q \<Rightarrow> 'a list"
    and inv :: "'q \<Rightarrow> bool"
    and emp :: 'q
    and append_item :: "'i \<Rightarrow> 'q \<Rightarrow> 'q"
    and item_bytes :: "'i \<Rightarrow> 'a list"
    and item_ok :: "'i \<Rightarrow> bool"
    and drop_bytes :: "nat \<Rightarrow> 'q \<Rightarrow> 'q option"
    and lim :: nat
  assumes inv_emp: "inv emp" and contents_emp: "contents emp = []"
    and append_ok: "inv q \<Longrightarrow> item_ok i \<Longrightarrow>
      inv (append_item i q) \<and> contents (append_item i q) = contents q @ item_bytes i"
    and drop_ok: "inv q \<Longrightarrow> n \<le> length (contents q) \<Longrightarrow> n < lim \<Longrightarrow>
      \<exists>q'. drop_bytes n q = Some q' \<and> inv q' \<and> contents q' = drop n (contents q)"
begin

text \<open>
  A history of the queue: the writer appends an item, or the file descriptor accepts some bytes of
  the front.  \<open>sent\<close> collects what was accepted.
\<close>

fun run_queue :: "('i + nat) list \<Rightarrow> 'q \<Rightarrow> 'a list \<Rightarrow> ('q \<times> 'a list) option" where
  "run_queue [] q sent = Some (q, sent)"
| "run_queue (Inl i # es) q sent = run_queue es (append_item i q) sent"
| "run_queue (Inr n # es) q sent =
     (case drop_bytes n q of None \<Rightarrow> None | Some q' \<Rightarrow> run_queue es q' (sent @ take n (contents q)))"

fun history_ok :: "('i + nat) list \<Rightarrow> nat \<Rightarrow> bool" where
  "history_ok [] k = True"
| "history_ok (Inl i # es) k = (item_ok i \<and> history_ok es (k + length (item_bytes i)))"
| "history_ok (Inr n # es) k = (n \<le> k \<and> n < lim \<and> history_ok es (k - n))"

fun appended :: "('i + nat) list \<Rightarrow> 'a list" where
  "appended [] = []"
| "appended (Inl i # es) = item_bytes i @ appended es"
| "appended (Inr n # es) = appended es"

text \<open>Nothing is lost, duplicated or reordered between the writers and the descriptor.\<close>

lemma run_queue_conserves:
  assumes "inv q" and "history_ok es (length (contents q))"
  shows "\<exists>q' sent'. run_queue es q sent = Some (q', sent') \<and> inv q' \<and>
     sent' @ contents q' = sent @ contents q @ appended es"
  using assms
proof (induction es arbitrary: q sent)
  case Nil
  then show ?case by simp
next
  case (Cons e es)
  show ?case
  proof (cases e)
    case (Inl i)
    have a: "inv (append_item i q)" "contents (append_item i q) = contents q @ item_bytes i"
      using append_ok [of q i] Cons.prems Inl by simp_all
    with Cons.IH [OF a(1)] Cons.prems Inl show ?thesis by simp
  next
    case (Inr n)
    with Cons.prems obtain q' where d: "drop_bytes n q = Some q'" "inv q'" "contents q' = drop n (contents q)"
      using drop_ok [of q n] by auto
    obtain w s where "run_queue es q' (sent @ take n (contents q)) = Some (w, s)" "inv w"
      "s @ contents w = (sent @ take n (contents q)) @ contents q' @ appended es"
      using Cons.IH [OF d(2), of "sent @ take n (contents q)"] Cons.prems Inr d(3) by auto
    with d(1,3) Inr show ?thesis by simp
  qed
qed

end

interpretation packet_queue: byte_queue iov_bytes iov_wf iov_new "\<lambda>b v. fst (iov_append b v)"
  block_bytes block_wf iov_drop_front "2 ^ 32"
  using iov_append_wf iov_drop_front_ok by unfold_locales auto

section \<open>Properties\<close>

text \<open>
  C10: on every well-formed vector and every length within it (below the 32-bit range of the
  counter of \<open>drop_front\<close>), \<open>take_front\<close> and \<open>drop_front\<close> succeed and split the byte sequence at
  that length: the taken vector holds the prefix, both remaining vectors hold the suffix, and all
  three are well-formed.  The contents of freshly allocated memory do not matter.
\<close>

theorem iov_split_refines:
  assumes "iov_wf v" and "len \<le> iov_size v" and "len < 2 ^ 32"
  shows "\<exists>v' res w. iov_take_front junk len v = Some (v', res) \<and> iov_drop_front len v = Some w \<and>
     iov_wf v' \<and> iov_wf res \<and> iov_wf w \<and>
     iov_bytes res = take len (iov_bytes v) \<and> iov_bytes v' = drop len (iov_bytes v) \<and>
     iov_bytes w = drop len (iov_bytes v)"
  using iov_take_front_ok [of v len junk] iov_drop_front_ok [of v len] assms iov_size_bytes [of v]
  by fastforce

definition ex_iov :: "byte iovector" where
  "ex_iov = \<lparr>chain_length = 7, begin_offset = 1, start_index = 1,
     chain = [block_new, filled_block ''abc'', filled_block ''defg'']\<rparr>"

theorem iov_split_refines_witness:
  "iov_wf ex_iov \<and> 4 \<le> iov_size ex_iov \<and>
   (\<exists>v' res w. iov_take_front (\<lambda>_. CHR ''x'') 4 ex_iov = Some (v', res) \<and> iov_drop_front 4 ex_iov = Some w \<and>
     iov_bytes res = ''bcde'' \<and> iov_bytes v' = ''fg'' \<and> iov_bytes w = ''fg'')"
proof -
  have wf: "iov_wf ex_iov"
    by (simp add: ex_iov_def iov_wf_def iov_live_def filled_block_def block_wf_def)
  have le: "4 \<le> iov_size ex_iov"
    by (simp add: ex_iov_def iov_size_def)
  have "iov_bytes ex_iov = ''bcdefg''"
    by (simp add: ex_iov_def iov_bytes_def iov_live_def filled_block_def block_bytes_def)
  then show ?thesis
    using wf le iov_split_refines [OF wf le, of "\<lambda>_. CHR ''x''"] by auto
qed



text \<open>
  The counter of \<open>drop_front\<close> wraps at 32 bits: a vector of one block of \<open>2 ^ 32\<close> bytes and one of
  three, asked to drop \<open>2 ^ 32 + 1\<close> bytes, drops the first block, starts counting again from zero,
  runs past the end of the chain and reads a block that is not there.
\<close>

lemma iov_drop_loop_wraps:
  assumes v: "v = \<lparr>chain_length = 2 ^ 32 + 3, begin_offset = 0, start_index = 0,
      chain = [big, filled_block ''abc'']\<rparr>"
    and big: "blk_size big = 2 ^ 32"
  shows "iov_drop_front (2 ^ 32 + 1) v = None"
proof -
  have "iov_drop_loop (2 ^ 32 + 1) 3 (v\<lparr>chain_length := 0, start_index := Suc (Suc 0),
      chain := [block_new, block_new]\<rparr>) = None"
    by (subst iov_drop_loop.simps) (simp add: at_def)
  then have "iov_drop_loop (2 ^ 32 + 1) 0 (v\<lparr>chain_length := 3, start_index := 1,
      chain := [block_new, filled_block ''abc'']\<rparr>) = None"
    using v by (subst iov_drop_loop.simps) (simp add: iov_pop_front_block_def filled_block_def)
  then have "iov_drop_loop (2 ^ 32 + 1) 0 v = None"
    using v big by (subst iov_drop_loop.simps) (simp add: iov_pop_front_block_def)
  then show ?thesis
    using v by (simp add: iov_drop_front_def iov_size_def)
qed

text \<open>
  Move assignment loses the cursor of the source and leaves it behind in the moved-from block, whose
  \<open>remaining()\<close> then wraps around.
\<close>

lemma block_move_assign_cursor:
  assumes "block_move_assign this m = (b, m')" and "blk_position m = Suc p" and "p < 2 ^ 63"
  shows "blk_position b = 0" and "blk_position m' = Suc p" and "block_remaining m' = 2 ^ 64 - Suc p"
  using assms by (auto simp: block_move_assign_eq block_remaining_def size_sub_def)

end
