(* ===== verification/Adb_Io.thy ===== *)
theory Adb_Io
  imports Adb_Prelude
begin

text \<open>
  Blocking I/O helpers of \<open>adb_io.cpp\<close>.  The operating system's side of a file descriptor is a
  script: an \<open>istream\<close> lists what successive \<open>adb_read\<close> calls will find (some bytes, or an
  error; the end of the list is the end of the file), an \<open>ostream\<close> lists how many bytes
  successive \<open>adb_write\<close> calls will accept (or the error they report) and logs what was accepted;
  an exhausted script accepts everything.  A short read leaves the rest of the bytes in the script.

  The main result is the round trip of protocol strings, and the exact range in which it holds.
\<close>

datatype errno = E0 | EAGAIN | EPIPE | EMSGSIZE | EINVAL | EOTHER nat

datatype in_event = Got bytes | RFault errno
datatype out_event = Accept nat | WFault errno

type_synonym istream = "in_event list"

record ostream =
  os_script :: "out_event list"
  os_log :: bytes

definition MAX_PAYLOAD :: nat where
  "MAX_PAYLOAD = 1024 * 1024"

definition MAX_PAYLOAD_V1 :: nat where
  "MAX_PAYLOAD_V1 = 4 * 1024"

section \<open>System calls\<close>

text \<open>\<open>adb_read(fd, p, len)\<close>: \<open>Inr\<close> of the bytes read (none at end of file), or \<open>Inl errno\<close>.\<close>

fun adb_read :: "nat \<Rightarrow> istream \<Rightarrow> (errno + bytes) \<times> istream" where
  "adb_read len [] = (Inr [], [])"
| "adb_read len (RFault e # es) = (Inl e, es)"
| "adb_read len (Got c # es) =
     (if length c \<le> len then (Inr c, es) else (Inr (take len c), Got (drop len c) # es))"

text \<open>\<open>adb_write(fd, p, len)\<close>: \<open>Inr\<close> of the number of bytes accepted, or \<open>Inl errno\<close>.\<close>

fun adb_write :: "bytes \<Rightarrow> ostream \<Rightarrow> (errno + nat) \<times> ostream" where
  "adb_write bs os =
     (case os_script os of
        [] \<Rightarrow> (Inr (length bs), os\<lparr>os_log := os_log os @ bs\<rparr>)
      | WFault e # es \<Rightarrow> (Inl e, os\<lparr>os_script := es\<rparr>)
      | Accept k # es \<Rightarrow> (Inr (min k (length bs)), os\<lparr>os_script := es, os_log := os_log os @ take k bs\<rparr>))"

section \<open>Exact reads and writes\<close>

text \<open>
  \<open>ReadFdExactly\<close>: the bytes read on success; on failure the errno, which is cleared when the
  peer disconnected.
\<close>

function ReadFdExactly :: "nat \<Rightarrow> istream \<Rightarrow> (errno + bytes) \<times> istream" where
  "ReadFdExactly len es =
     (if len > 0 then
        (case adb_read len es of
           (Inl e, es') \<Rightarrow> (Inl e, es')
         | (Inr r, es') \<Rightarrow>
             if length r > 0 then
               (case ReadFdExactly (len - length r) es' of
                  (Inl e, es'') \<Rightarrow> (Inl e, es'')
                | (Inr bs, es'') \<Rightarrow> (Inr (r @ bs), es''))
             else (Inl E0, es'))
      else (Inr [], es))"
  by pat_completeness auto
termination
  by (relation "measure fst") auto

declare ReadFdExactly.simps [simp del]

text \<open>\<open>WriteFdExactly\<close>: \<open>None\<close> when everything was written, else the errno; \<open>EAGAIN\<close> retries.\<close>

function WriteFdExactly :: "bytes \<Rightarrow> ostream \<Rightarrow> errno option \<times> ostream" where
  "WriteFdExactly bs os =
     (if length bs > 0 then
        (case adb_write bs os of
           (Inl e, os') \<Rightarrow>
             if e = EAGAIN then WriteFdExactly bs os'
             else if e = EPIPE then (Some E0, os')
             else (Some e, os')
         | (Inr r, os') \<Rightarrow> WriteFdExactly (drop r bs) os')
      else (None, os))"
  by pat_completeness auto
termination
  by (relation "measures [\<lambda>(bs, os). length (os_script os), \<lambda>(bs, os). length bs]")
    (auto split: list.splits out_event.splits)

declare WriteFdExactly.simps [simp del]

definition SendOkay :: "ostream \<Rightarrow> errno option \<times> ostream" where
  "SendOkay os = WriteFdExactly ''OKAY'' os"

section \<open>Hexadecimal length prefixes\<close>

definition hex_digit :: "nat \<Rightarrow> char" where
  "hex_digit d = ''0123456789abcdef'' ! d"

fun hex_digits :: "nat \<Rightarrow> string" where
  "hex_digits n = (if n < 16 then [hex_digit n] else hex_digits (n div 16) @ [hex_digit (n mod 16)])"

declare hex_digits.simps [simp del]

text \<open>\<open>StringPrintf("%04x", n)\<close>: at least four digits.\<close>

definition format_04x :: "nat \<Rightarrow> string" where
  "format_04x n = (let ds = hex_digits n in replicate (4 - length ds) (CHR ''0'') @ ds)"

definition hex_value :: "char \<Rightarrow> nat option" where
  "hex_value c =
     (let n = of_char c :: nat in
      if 48 \<le> n \<and> n \<le> 57 then Some (n - 48)
      else if 97 \<le> n \<and> n \<le> 102 then Some (n - 87)
      else if 65 \<le> n \<and> n \<le> 70 then Some (n - 55)
      else None)"

definition is_space :: "char \<Rightarrow> bool" where
  "is_space c = (c = CHR '' '' \<or> (9 \<le> (of_char c :: nat) \<and> (of_char c :: nat) \<le> 13))"

fun hex_prefix_value :: "nat \<Rightarrow> string \<Rightarrow> nat" where
  "hex_prefix_value acc [] = acc"
| "hex_prefix_value acc (c # cs) =
     (case hex_value c of None \<Rightarrow> acc | Some d \<Rightarrow> hex_prefix_value (16 * acc + d) cs)"

text \<open>
  \<open>strtoul(s, nullptr, 16)\<close>: white space, an optional sign, an optional \<open>0x\<close>, then digits.  A minus
  sign negates in \<open>unsigned long\<close>; a value out of range saturates.
\<close>

definition strtoul16 :: "string \<Rightarrow> nat" where
  "strtoul16 s =
     (let s1 = dropWhile is_space s;
          neg = (s1 \<noteq> [] \<and> hd s1 = CHR ''-'');
          s2 = (if s1 \<noteq> [] \<and> (hd s1 = CHR ''-'' \<or> hd s1 = CHR ''+'') then tl s1 else s1);
          s3 = (if length s2 > 2 \<and> s2 ! 0 = CHR ''0'' \<and> (s2 ! 1 = CHR ''x'' \<or> s2 ! 1 = CHR ''X'') \<and>
                   hex_value (s2 ! 2) \<noteq> None then drop 2 s2 else s2);
          v = hex_prefix_value 0 s3
      in if v \<ge> 2 ^ 64 then 2 ^ 64 - 1
         else if neg \<and> v \<noteq> 0 then 2 ^ 64 - v else v)"

definition SendProtocolString :: "string \<Rightarrow> ostream \<Rightarrow> errno option \<times> ostream" where
  "SendProtocolString s os =
     (if length s mod 2 ^ 32 > MAX_PAYLOAD - 4 then (Some EMSGSIZE, os)
      else WriteFdExactly (format_04x (length s mod 2 ^ 32) @ s) os)"

definition SendFail :: "string \<Rightarrow> ostream \<Rightarrow> errno option \<times> ostream" where
  "SendFail reason os =
     (case WriteFdExactly ''FAIL'' os of
        (None, os') \<Rightarrow> SendProtocolString reason os'
      | (Some e, os') \<Rightarrow> (Some e, os'))"

datatype protocol_error = NoLength errno | NoMessage errno

text \<open>
  \<open>ReadProtocolString\<close>: the string, or which of the two reads failed.  A length that no string can
  have makes \<open>resize\<close> throw, which ends the program (\<^const>\<open>None\<close>).
\<close>

definition ReadProtocolString :: "istream \<Rightarrow> ((protocol_error + string) \<times> istream) option" where
  "ReadProtocolString es =
     (case ReadFdExactly 4 es of
        (Inl e, es') \<Rightarrow> Some (Inl (NoLength e), es')
      | (Inr buf, es') \<Rightarrow>
          (let len = strtoul16 (takeWhile (\<lambda>c. c \<noteq> CHR 0x00) buf) in
           if len \<ge> 2 ^ 63 then None
           else (case ReadFdExactly len es' of
                   (Inl e, es'') \<Rightarrow> Some (Inl (NoMessage e), es'')
                 | (Inr s, es'') \<Rightarrow> Some (Inr s, es''))))"

text \<open>
  \<open>ReadOrderlyShutdown\<close>: whether the peer shut down in an orderly way; an unexpected byte shuts the
  socket down (the second component).  It must not be called on a non-blocking descriptor.
\<close>

definition ReadOrderlyShutdown :: "istream \<Rightarrow> (bool \<times> bool \<times> errno) option" where
  "ReadOrderlyShutdown es =
     (case fst (adb_read 16 es) of
        Inl e \<Rightarrow> do { CHECK (e \<noteq> EAGAIN); Some (False, False, e) }
      | Inr r \<Rightarrow> if r = [] then Some (True, False, E0) else Some (False, True, EINVAL))"

section \<open>Lemmas\<close>

fun stream_bytes :: "istream \<Rightarrow> bytes" where
  "stream_bytes [] = []"
| "stream_bytes (Got c # es) = c @ stream_bytes es"
| "stream_bytes (RFault e # es) = []"

fun chunks_ok :: "istream \<Rightarrow> bool" where
  "chunks_ok [] = True"
| "chunks_ok (Got c # es) = (c \<noteq> [] \<and> chunks_ok es)"
| "chunks_ok (RFault e # es) = chunks_ok es"

text \<open>
  A stream of non-empty chunks that holds enough bytes before its first fault yields exactly the
  next \<open>len\<close> bytes, however it is cut into chunks.
\<close>

lemma ReadFdExactly_ok:
  assumes "chunks_ok es" and "len \<le> length (stream_bytes es)"
  shows "\<exists>es'. ReadFdExactly len es = (Inr (take len (stream_bytes es)), es') \<and> chunks_ok es' \<and>
     stream_bytes es' = drop len (stream_bytes es)"
  using assms
proof (induction len es rule: ReadFdExactly.induct)
  case (1 len es)
  show ?case
  proof (cases "len = 0")
    case True
    with "1.prems" show ?thesis by (simp add: ReadFdExactly.simps)
  next
    case False
    with "1.prems" obtain c cs where es: "es = Got c # cs" and c: "c \<noteq> []" "chunks_ok cs"
      by (cases es rule: stream_bytes.cases) auto
    show ?thesis
    proof (cases "length c \<le> len")
      case True
      then have rd: "adb_read len es = (Inr c, cs)" by (simp add: es)
      obtain es' where "ReadFdExactly (len - length c) cs = (Inr (take (len - length c) (stream_bytes cs)), es')"
        "chunks_ok es'" "stream_bytes es' = drop (len - length c) (stream_bytes cs)"
        using "1.IH" [of "Inr c" cs c] False rd [symmetric] c "1.prems" es by fastforce
      then show ?thesis
        using False rd c True by (subst ReadFdExactly.simps) (simp add: es)
    next
      case False
      then show ?thesis
        using \<open>len \<noteq> 0\<close> es c by (subst ReadFdExactly.simps) (simp add: ReadFdExactly.simps [of 0])
    qed
  qed
qed

lemma ReadFdExactly_length: "ReadFdExactly len es = (Inr bs, es') \<Longrightarrow> length bs = len"
proof (induction len es arbitrary: bs es' rule: ReadFdExactly.induct)
  case (1 len es)
  show ?case
  proof (cases "len = 0")
    case True
    with "1.prems" show ?thesis by (simp add: ReadFdExactly.simps)
  next
    case False
    obtain r es1 where rd: "adb_read len es = (Inr r, es1)" and r: "r \<noteq> []"
      using "1.prems" False by (subst (asm) ReadFdExactly.simps) (auto split: prod.splits sum.splits if_splits)
    obtain bs1 where rec: "ReadFdExactly (len - length r) es1 = (Inr bs1, es')" and bs: "bs = r @ bs1"
      using "1.prems" False rd r
      by (subst (asm) ReadFdExactly.simps) (auto split: prod.splits sum.splits)
    have "length r \<le> len"
      using rd by (cases es rule: stream_bytes.cases) (auto split: if_splits)
    with "1.IH" [of "Inr r" es1 r] False rd r rec bs show ?thesis by auto
  qed
qed

text \<open>When the write succeeds, exactly the given bytes were added to the log.\<close>

lemma WriteFdExactly_log:
  "WriteFdExactly bs os = (None, os') \<Longrightarrow> os_log os' = os_log os @ bs"
proof (induction bs os arbitrary: os' rule: WriteFdExactly.induct)
  case (1 bs os)
  show ?case
  proof (cases "bs = []")
    case True
    with "1.prems" show ?thesis by (simp add: WriteFdExactly.simps)
  next
    case False
    note step = "1.prems" [unfolded WriteFdExactly.simps [of bs os]]
    show ?thesis
    proof (cases "adb_write bs os")
      case (Pair r os1)
      show ?thesis
      proof (cases r)
        case (Inl e)
        then have "e = EAGAIN" and "WriteFdExactly bs os1 = (None, os')"
          using step False Pair by (auto split: if_splits)
        then have "os_log os' = os_log os1 @ bs"
          using "1.IH"(1) [of r os1 e] Inl Pair False by simp
        moreover have "os_log os1 = os_log os"
          using Pair Inl by (auto split: list.splits out_event.splits)
        ultimately show ?thesis by simp
      next
        case (Inr n)
        then have "WriteFdExactly (drop n bs) os1 = (None, os')"
          using step False Pair by auto
        then have "os_log os' = os_log os1 @ drop n bs"
          using "1.IH"(2) [of r os1 n] Inr Pair False by simp
        moreover have "os_log os1 = os_log os @ take n bs"
          using Pair Inr by (auto split: list.splits out_event.splits simp: min_def)
        ultimately show ?thesis by simp
      qed
    qed
  qed
qed


text \<open>Any sequence of short writes and \<open>EAGAIN\<close> is worked through: the write succeeds.\<close>

lemma WriteFdExactly_succeeds:
  assumes "\<forall>ev \<in> set (os_script os). ev = WFault EAGAIN \<or> (\<exists>k. ev = Accept k)"
  shows "\<exists>os'. WriteFdExactly bs os = (None, os') \<and> set (os_script os') \<subseteq> set (os_script os)"
  using assms
proof (induction bs os rule: WriteFdExactly.induct)
  case (1 bs os)
  show ?case
  proof (cases "bs = []")
    case True
    then show ?thesis by (simp add: WriteFdExactly.simps)
  next
    case False
    obtain r os1 where w: "adb_write bs os = (r, os1)" by force
    have sub: "set (os_script os1) \<subseteq> set (os_script os)"
      using w by (auto split: list.splits out_event.splits)
    show ?thesis
    proof (cases r)
      case (Inl e)
      then have "e = EAGAIN"
        using w "1.prems" by (auto split: list.splits out_event.splits)
      with "1.IH"(1) [of r os1 e] Inl w False sub "1.prems" show ?thesis
        by (subst WriteFdExactly.simps) fastforce
    next
      case (Inr n)
      with "1.IH"(2) [of r os1 n] w False sub "1.prems" show ?thesis
        by (subst WriteFdExactly.simps) fastforce
    qed
  qed
qed

subsection \<open>Hexadecimal digits\<close>

lemma hex_digit_code: "d < 16 \<Longrightarrow> of_char (hex_digit d) = (if d < 10 then 48 + d else 87 + d)"
proof -
  have "\<forall>d \<in> set [0..<16]. (of_char (hex_digit d) :: nat) = (if d < 10 then 48 + d else 87 + d)"
    by code_simp
  then show "d < 16 \<Longrightarrow> ?thesis" by simp
qed

lemma hex_value_digit [simp]: "d < 16 \<Longrightarrow> hex_value (hex_digit d) = Some d"
  by (auto simp: hex_value_def hex_digit_code)

lemma hex_digit_zero: "CHR ''0'' = hex_digit 0"
  by (rule of_char_eqI [where 'a = nat]) (simp add: hex_digit_code)

definition hex_string :: "string \<Rightarrow> bool" where
  "hex_string s \<longleftrightarrow> (\<forall>c \<in> set s. \<exists>d < 16. c = hex_digit d)"

lemma hex_string_digits: "hex_string (hex_digits n)"
proof (induction n rule: hex_digits.induct)
  case (1 n)
  then show ?case
    by (subst hex_digits.simps) (auto simp: hex_string_def intro: exI [of _ "n mod 16"])
qed

lemma hex_string_format: "hex_string (format_04x n)"
  using hex_string_digits [of n]
  by (auto simp: format_04x_def hex_string_def Let_def hex_digit_zero intro: exI [of _ 0])

lemma hex_digits_length: "0 < k \<Longrightarrow> length (hex_digits n) \<le> k \<longleftrightarrow> n < 16 ^ k"
proof (induction n arbitrary: k rule: hex_digits.induct)
  case (1 n)
  show ?case
  proof (cases "n < 16")
    case True
    with "1.prems" show ?thesis
      by (subst hex_digits.simps) (auto intro: less_le_trans [OF True] simp: self_le_power)
  next
    case False
    show ?thesis
    proof (cases "k = 1")
      case True
      have "hex_digits (n div 16) \<noteq> []"
        by (subst hex_digits.simps) simp
      with True False show ?thesis
        by (subst hex_digits.simps) auto
    next
      case k: False
      then obtain j where j: "k = Suc j" "0 < j"
        using "1.prems" by (cases k) auto
      have "length (hex_digits n) \<le> k \<longleftrightarrow> length (hex_digits (n div 16)) \<le> j"
        using False j by (subst hex_digits.simps) auto
      also have "\<dots> \<longleftrightarrow> n div 16 < 16 ^ j"
        using "1.IH" [OF False j(2)] .
      also have "\<dots> \<longleftrightarrow> n < 16 ^ k"
        by (simp add: j(1) div_less_iff_less_mult mult.commute)
      finally show ?thesis .
    qed
  qed
qed

lemma hex_prefix_value_append:
  "hex_string xs \<Longrightarrow> hex_prefix_value acc (xs @ ys) = hex_prefix_value (hex_prefix_value acc xs) ys"
  by (induction xs arbitrary: acc) (auto simp: hex_string_def)

lemma hex_prefix_value_digits: "hex_prefix_value 0 (hex_digits n) = n"
proof (induction n rule: hex_digits.induct)
  case (1 n)
  show ?case
  proof (cases "n < 16")
    case True
    then show ?thesis by (subst hex_digits.simps) simp
  next
    case False
    then have "hex_prefix_value 0 (hex_digits n) =
        hex_prefix_value (hex_prefix_value 0 (hex_digits (n div 16))) [hex_digit (n mod 16)]"
      by (subst hex_digits.simps) (simp add: hex_prefix_value_append hex_string_digits)
    with "1.IH" [OF False] show ?thesis by simp
  qed
qed

lemma hex_prefix_value_zeros: "hex_prefix_value 0 (replicate k (CHR ''0'') @ ys) = hex_prefix_value 0 ys"
  by (induction k) (auto simp: hex_value_def)

lemma hex_digit_plain:
  assumes "d < 16"
  shows "\<not> is_space (hex_digit d)" and "hex_digit d \<notin> {CHR ''-'', CHR ''+'', CHR ''x'', CHR ''X''}"
    and "hex_digit d \<noteq> CHR 0x00"
  using hex_digit_code [OF assms] assms by (auto simp: is_space_def split: if_splits)

lemma strtoul16_hex:
  assumes "hex_string s" and "hex_prefix_value 0 s < 2 ^ 64"
  shows "strtoul16 s = hex_prefix_value 0 s"
proof -
  have plain: "\<not> is_space c \<and> c \<notin> {CHR ''-'', CHR ''+'', CHR ''x'', CHR ''X''}" if "c \<in> set s" for c
    using assms(1) that hex_digit_plain unfolding hex_string_def by metis
  have "dropWhile is_space s = s"
    using plain by (cases s) auto
  moreover have "s \<noteq> [] \<Longrightarrow> hd s \<noteq> CHR ''-'' \<and> hd s \<noteq> CHR ''+''"
    using plain hd_in_set by fastforce
  moreover have "2 < length s \<Longrightarrow> s ! 1 \<noteq> CHR ''x'' \<and> s ! 1 \<noteq> CHR ''X''"
    using plain [of "s ! 1"] by auto
  ultimately show ?thesis
    using assms(2) by (auto simp: strtoul16_def Let_def)
qed

lemma format_04x_length: "n < 65536 \<Longrightarrow> length (format_04x n) = 4"
  using hex_digits_length [of 4 n] by (simp add: format_04x_def Let_def)

lemma format_04x_length_big: "65536 \<le> n \<Longrightarrow> 4 < length (format_04x n)"
  using hex_digits_length [of 4 n] by (auto simp: format_04x_def Let_def)

lemma strtoul16_format_04x: "n < 2 ^ 64 \<Longrightarrow> strtoul16 (format_04x n) = n"
  using strtoul16_hex [OF hex_string_format, of n]
  by (simp add: format_04x_def Let_def hex_prefix_value_zeros hex_prefix_value_digits)

lemma format_04x_no_nul: "takeWhile (\<lambda>c. c \<noteq> CHR 0x00) (format_04x n) = format_04x n"
proof -
  have "\<forall>c \<in> set (format_04x n). c \<noteq> CHR 0x00"
    using hex_string_format [of n] hex_digit_plain(3) unfolding hex_string_def by metis
  then show ?thesis by (simp add: takeWhile_eq_all_conv)
qed


definition benign :: "ostream \<Rightarrow> bool" where
  "benign os \<longleftrightarrow> (\<forall>ev \<in> set (os_script os). ev = WFault EAGAIN \<or> (\<exists>k. ev = Accept k))"

lemma SendProtocolString_ok:
  assumes "length s \<le> MAX_PAYLOAD - 4" and "benign os"
  shows "\<exists>os'. SendProtocolString s os = (None, os') \<and> benign os' \<and>
     os_log os' = os_log os @ format_04x (length s) @ s"
proof -
  have n: "length s mod 2 ^ 32 = length s" "\<not> length s mod 2 ^ 32 > MAX_PAYLOAD - 4"
    using assms(1) by (simp_all add: MAX_PAYLOAD_def)
  obtain os' where w: "WriteFdExactly (format_04x (length s) @ s) os = (None, os')"
    "set (os_script os') \<subseteq> set (os_script os)"
    using WriteFdExactly_succeeds assms(2) unfolding benign_def by meson
  then show ?thesis
    using n assms(2) WriteFdExactly_log [OF w(1)] by (auto simp: SendProtocolString_def benign_def)
qed

lemma ReadProtocolString_frame:
  assumes ok: "chunks_ok es" and bytes: "stream_bytes es = hd4 @ rest" and four: "length hd4 = 4"
    and nul: "takeWhile (\<lambda>c. c \<noteq> CHR 0x00) hd4 = hd4"
    and len: "strtoul16 hd4 = len" and enough: "len \<le> length rest" and small: "len < 2 ^ 63"
  shows "\<exists>es'. ReadProtocolString es = Some (Inr (take len rest), es') \<and> chunks_ok es' \<and>
     stream_bytes es' = drop len rest"
proof -
  obtain es1 where r1: "ReadFdExactly 4 es = (Inr hd4, es1)" "chunks_ok es1" "stream_bytes es1 = rest"
    using ReadFdExactly_ok [OF ok, of 4] bytes four by auto
  obtain es2 where "ReadFdExactly len es1 = (Inr (take len rest), es2)" "chunks_ok es2"
    "stream_bytes es2 = drop len rest"
    using ReadFdExactly_ok [OF r1(2), of len] r1(3) enough by auto
  then show ?thesis
    using r1(1) len small by (simp add: ReadProtocolString_def Let_def nul)
qed

section \<open>Properties\<close>

text \<open>
  C33: a protocol string of at most 65535 bytes that is sent over a descriptor which accepts bytes in
  any portions, and is then read from a descriptor which delivers them in any portions, arrives
  unchanged, and the reader stops exactly at its end.
\<close>

theorem protocol_string_roundtrip:
  assumes "length s < 65536" and "benign os"
  shows "\<exists>os' frame. SendProtocolString s os = (None, os') \<and> os_log os' = os_log os @ frame \<and>
     (\<forall>es rest. chunks_ok es \<and> stream_bytes es = frame @ rest \<longrightarrow>
        (\<exists>es'. ReadProtocolString es = Some (Inr s, es') \<and> stream_bytes es' = rest))"
proof -
  obtain os' where send: "SendProtocolString s os = (None, os')"
    "os_log os' = os_log os @ format_04x (length s) @ s"
    using SendProtocolString_ok [of s os] assms by (auto simp: MAX_PAYLOAD_def)
  have "\<exists>es'. ReadProtocolString es = Some (Inr s, es') \<and> stream_bytes es' = rest"
    if "chunks_ok es" "stream_bytes es = (format_04x (length s) @ s) @ rest" for es rest
    using ReadProtocolString_frame [of es "format_04x (length s)" "s @ rest" "length s"] that assms(1)
    by (auto simp: format_04x_length format_04x_no_nul strtoul16_format_04x)
  with send show ?thesis by blast
qed

theorem protocol_string_roundtrip_witness:
  "length ''host:version'' < 65536 \<and> benign \<lparr>os_script = [Accept 3, WFault EAGAIN], os_log = []\<rparr> \<and>
   (\<exists>es'. ReadProtocolString [Got ''000'', Got ''chost:'', Got ''versionOKAY''] = Some (Inr ''host:version'', es') \<and>
      stream_bytes es' = ''OKAY'')"
proof -
  let ?os = "\<lparr>os_script = [Accept 3, WFault EAGAIN], os_log = []\<rparr>"
  have len: "length ''host:version'' < 65536" and os: "benign ?os"
    by (simp_all add: benign_def)
  obtain os' frame where "SendProtocolString ''host:version'' ?os = (None, os')" "os_log os' = frame"
    and rd: "\<forall>es rest. chunks_ok es \<and> stream_bytes es = frame @ rest \<longrightarrow>
        (\<exists>es'. ReadProtocolString es = Some (Inr ''host:version'', es') \<and> stream_bytes es' = rest)"
    using protocol_string_roundtrip [OF len os] by auto
  moreover have "format_04x (length ''host:version'') = ''000c''"
    by (simp add: format_04x_def hex_digits.simps hex_digit_def numeral_3_eq_3)
  then have "os_log (snd (SendProtocolString ''host:version'' ?os)) = ''000chost:version''"
    using SendProtocolString_ok [of "''host:version''" ?os] os by (auto simp: MAX_PAYLOAD_def)
  ultimately have "frame = ''000chost:version''" by simp
  with rd [rule_format, of "[Got ''000'', Got ''chost:'', Got ''versionOKAY'']" "''OKAY''"] len os
  show ?thesis by simp
qed

text \<open>
  The limit of \<open>SendProtocolString\<close> is \<open>MAX_PAYLOAD - 4\<close>, but its length field has four digits only:
  a longer string is accepted and sent with five digits, and the receiver reads a string of a
  different length that starts with the fifth digit.
\<close>

lemma protocol_string_too_long:
  assumes "65536 \<le> length s" and "length s \<le> MAX_PAYLOAD - 4" and "benign os"
  shows "\<exists>os' frame. SendProtocolString s os = (None, os') \<and> os_log os' = os_log os @ frame \<and>
     (\<forall>es rest. chunks_ok es \<and> stream_bytes es = frame @ rest \<longrightarrow>
        (\<exists>s' es'. ReadProtocolString es = Some (Inr s', es') \<and> length s' = length s div 16 \<and> s' \<noteq> s))"
proof -
  define n where "n = length s"
  obtain os' where send: "SendProtocolString s os = (None, os')" "os_log os' = os_log os @ format_04x n @ s"
    using SendProtocolString_ok [OF assms(2,3)] by (auto simp: n_def)
  have n: "\<not> n < 16" "n div 16 < 65536" "4 < length (hex_digits n)" "length (hex_digits n) \<le> 5"
    "4096 \<le> n div 16"
    using assms(1,2) hex_digits_length [of 4 n] hex_digits_length [of 5 n]
    by (auto simp: n_def MAX_PAYLOAD_def)
  have hd: "hex_digits n = hex_digits (n div 16) @ [hex_digit (n mod 16)]"
    using n(1) by (subst hex_digits.simps) simp
  then have len4: "length (hex_digits (n div 16)) = 4"
    using n(3,4) by simp
  then have h4: "format_04x (n div 16) = hex_digits (n div 16)"
    by (simp add: format_04x_def Let_def)
  have f: "format_04x n = hex_digits (n div 16) @ [hex_digit (n mod 16)]"
    using n(3) by (simp add: format_04x_def Let_def hd)
  have "\<exists>s' es'. ReadProtocolString es = Some (Inr s', es') \<and> length s' = n div 16 \<and> s' \<noteq> s"
    if frame: "chunks_ok es" "stream_bytes es = (format_04x n @ s) @ rest" for es rest
  proof -
    let ?tail = "hex_digit (n mod 16) # s @ rest"
    have nul: "takeWhile (\<lambda>c. c \<noteq> CHR 0x00) (hex_digits (n div 16)) = hex_digits (n div 16)"
      using format_04x_no_nul [of "n div 16"] by (simp only: h4)
    have val: "strtoul16 (hex_digits (n div 16)) = n div 16"
      using strtoul16_format_04x [of "n div 16"] n(2) by (simp only: h4) simp
    have "n div 16 \<le> length s"
      by (simp add: n_def)
    then obtain es' where rd: "ReadProtocolString es = Some (Inr (take (n div 16) ?tail), es')"
      using ReadProtocolString_frame [OF frame(1) _ len4 nul val, of ?tail] frame(2) f n(2) by auto
    have "length (take (n div 16) ?tail) = n div 16" "n div 16 < length s"
      using n(5) \<open>n div 16 \<le> length s\<close> by (simp_all add: n_def)
    with rd show ?thesis by fastforce
  qed
  with send show ?thesis unfolding n_def by blast
qed

text \<open>A length field with a sign is accepted, and a negative one ends the reader.\<close>

lemma ReadProtocolString_negative: "ReadProtocolString [Got ''-001'', Got bs] = None"
proof -
  have "ReadFdExactly 4 [Got ''-001'', Got bs] = (Inr ''-001'', [Got bs])"
    by (subst ReadFdExactly.simps) (simp add: ReadFdExactly.simps [of 0])
  moreover have "strtoul16 ''-001'' = 2 ^ 64 - 1"
    by (simp add: strtoul16_def is_space_def hex_value_def)
  ultimately show ?thesis
    by (simp add: ReadProtocolString_def)
qed

end
