(* ===== verification/Adb_Packet.thy ===== *)
theory Adb_Packet
  imports Adb_Block Adb_Io
begin

text \<open>
  The messages of the adb protocol: \<open>amessage\<close> and \<open>apacket\<close> of \<open>types.h\<close>, the command words and
  version constants of \<open>adb.h\<close>, the checksum of \<open>adb.cpp\<close>, the header check and the stamping of
  outgoing packets of \<open>transport.cpp\<close>, and the blocking connection \<open>FdConnection\<close>, which writes and
  reads packets on a stream descriptor.
\<close>

unbundle bit_operations_syntax

record amessage =
  m_command :: u32
  m_arg0 :: u32
  m_arg1 :: u32
  m_data_length :: u32
  m_data_check :: u32
  m_magic :: u32

record apacket =
  p_msg :: amessage
  p_payload :: "byte block"

definition A_SYNC :: u32 where "A_SYNC = 0x434e5953"
definition A_CNXN :: u32 where "A_CNXN = 0x4e584e43"
definition A_OPEN :: u32 where "A_OPEN = 0x4e45504f"
definition A_OKAY :: u32 where "A_OKAY = 0x59414b4f"
definition A_CLSE :: u32 where "A_CLSE = 0x45534c43"
definition A_WRTE :: u32 where "A_WRTE = 0x45545257"
definition A_AUTH :: u32 where "A_AUTH = 0x48545541"
definition A_STLS :: u32 where "A_STLS = 0x534C5453"

lemmas adb_commands = A_SYNC_def A_CNXN_def A_OPEN_def A_OKAY_def A_CLSE_def A_WRTE_def A_AUTH_def A_STLS_def

definition A_VERSION_MIN :: int where "A_VERSION_MIN = 0x01000000"
definition A_VERSION_SKIP_CHECKSUM :: int where "A_VERSION_SKIP_CHECKSUM = 0x01000001"
definition A_VERSION :: int where "A_VERSION = 0x01000001"

fun dec_digits :: "nat \<Rightarrow> string" where
  "dec_digits n =
     (if n < 10 then [''0123456789'' ! n] else dec_digits (n div 10) @ [''0123456789'' ! (n mod 10)])"

declare dec_digits.simps [simp del]

definition command_to_string :: "u32 \<Rightarrow> string" where
  "command_to_string cmd =
     (if cmd = A_SYNC then ''A_SYNC''
      else if cmd = A_CNXN then ''A_CNXN''
      else if cmd = A_OPEN then ''A_OPEN''
      else if cmd = A_OKAY then ''A_OKAY''
      else if cmd = A_CLSE then ''A_CLSE''
      else if cmd = A_WRTE then ''A_WRTE''
      else if cmd = A_AUTH then ''A_AUTH''
      else if cmd = A_STLS then ''A_STLS''
      else ''UNKNOWN ('' @ dec_digits (unat cmd) @ '')'')"

definition zero_message :: amessage where
  "zero_message = \<lparr>m_command = 0, m_arg0 = 0, m_arg1 = 0, m_data_length = 0, m_data_check = 0, m_magic = 0\<rparr>"

definition get_apacket :: apacket where
  "get_apacket = \<lparr>p_msg = zero_message, p_payload = block_new\<rparr>"

text \<open>The sum of the payload bytes, modulo \<open>2 ^ 32\<close>; reading past the payload array is undefined.\<close>

definition calculate_apacket_checksum :: "apacket \<Rightarrow> u32 option" where
  "calculate_apacket_checksum p =
     (let n = unat (m_data_length (p_msg p));
          d = (case blk_data (p_payload p) of None \<Rightarrow> [] | Some d \<Rightarrow> d)
      in if n \<le> length d then Some (fold (\<lambda>c sum. sum + of_nat (of_char c)) (take n d) 0) else None)"

text \<open>\<open>send_packet\<close> up to the call of \<open>Write\<close>: the packet that is handed to the connection.\<close>

definition stamp_packet :: "int \<Rightarrow> apacket \<Rightarrow> apacket option" where
  "stamp_packet protocol_version p =
     (let m1 = (p_msg p)\<lparr>m_magic := m_command (p_msg p) XOR 0xffffffff\<rparr>;
          p1 = p\<lparr>p_msg := m1\<rparr>
      in if protocol_version \<ge> A_VERSION_SKIP_CHECKSUM
         then Some (p1\<lparr>p_msg := m1\<lparr>m_data_check := 0\<rparr>\<rparr>)
         else do { c \<leftarrow> calculate_apacket_checksum p1; Some (p1\<lparr>p_msg := m1\<lparr>m_data_check := c\<rparr>\<rparr>) })"

definition check_header :: "nat \<Rightarrow> apacket \<Rightarrow> bool" where
  "check_header max_payload p =
     (if m_magic (p_msg p) \<noteq> m_command (p_msg p) XOR 0xffffffff then False
      else if unat (m_data_length (p_msg p)) > max_payload then False
      else True)"

section \<open>The wire format\<close>

text \<open>The object representation of an \<open>amessage\<close> on a little-endian machine, and its reading.\<close>

definition amessage_bytes :: "amessage \<Rightarrow> bytes" where
  "amessage_bytes m = le32 (m_command m) @ le32 (m_arg0 m) @ le32 (m_arg1 m) @
     le32 (m_data_length m) @ le32 (m_data_check m) @ le32 (m_magic m)"

definition amessage_of :: "bytes \<Rightarrow> amessage" where
  "amessage_of bs =
     \<lparr>m_command = get_le32 bs, m_arg0 = get_le32 (drop 4 bs), m_arg1 = get_le32 (drop 8 bs),
      m_data_length = get_le32 (drop 12 bs), m_data_check = get_le32 (drop 16 bs),
      m_magic = get_le32 (drop 20 bs)\<rparr>"

definition amessage_size :: nat where
  "amessage_size = 24"

lemma length_amessage_bytes [simp]: "length (amessage_bytes m) = 24"
  by (simp add: amessage_bytes_def)

lemma amessage_of_bytes [simp]: "amessage_of (amessage_bytes m @ bs) = m"
  by (simp add: amessage_of_def amessage_bytes_def)

lemma get_le32_take: "4 \<le> n \<Longrightarrow> get_le32 (take n bs) = get_le32 bs"
  by (simp add: get_le32_def min_def)

lemma amessage_of_take [simp]: "amessage_of (take 24 bs) = amessage_of bs"
  by (simp add: amessage_of_def drop_take get_le32_take)

section \<open>FdConnection\<close>

text \<open>
  \<open>DispatchRead\<close> and \<open>DispatchWrite\<close>: with a TLS session its \<open>ReadFully\<close>/\<open>WriteFully\<close> (parameters,
  from BoringSSL), which are not called for zero bytes; otherwise the descriptor.
\<close>

type_synonym tls_read = "nat \<Rightarrow> istream \<Rightarrow> (errno + bytes) \<times> istream"
type_synonym tls_write = "bytes \<Rightarrow> ostream \<Rightarrow> errno option \<times> ostream"

definition DispatchRead :: "tls_read option \<Rightarrow> nat \<Rightarrow> istream \<Rightarrow> (errno + bytes) \<times> istream" where
  "DispatchRead tls len es =
     (case tls of
        Some ReadFully \<Rightarrow> if len = 0 then (Inr [], es) else ReadFully len es
      | None \<Rightarrow> ReadFdExactly len es)"

definition DispatchWrite :: "tls_write option \<Rightarrow> bytes \<Rightarrow> ostream \<Rightarrow> errno option \<times> ostream" where
  "DispatchWrite tls bs os =
     (case tls of
        Some WriteFully \<Rightarrow> if length bs = 0 then (None, os) else WriteFully bs os
      | None \<Rightarrow> WriteFdExactly bs os)"

text \<open>\<open>FdConnection::Write\<close>: whether it succeeded.\<close>

definition FdConnection_Write :: "tls_write option \<Rightarrow> apacket \<Rightarrow> ostream \<Rightarrow> (bool \<times> ostream) option" where
  "FdConnection_Write tls p os =
     (case DispatchWrite tls (amessage_bytes (p_msg p)) os of
        (Some e, os1) \<Rightarrow> Some (False, os1)
      | (None, os1) \<Rightarrow>
          if m_data_length (p_msg p) \<noteq> 0 then do {
            d \<leftarrow> blk_data (p_payload p);
            CHECK (unat (m_data_length (p_msg p)) \<le> length d);
            (case DispatchWrite tls (take (unat (m_data_length (p_msg p))) d) os1 of
               (Some e, os2) \<Rightarrow> Some (False, os2)
             | (None, os2) \<Rightarrow> Some (True, os2))
          } else Some (True, os1))"

text \<open>\<open>FdConnection::Read\<close> into a fresh packet: the packet, or \<^const>\<open>None\<close> when it returns false.\<close>

definition FdConnection_Read ::
    "(nat \<Rightarrow> byte) \<Rightarrow> tls_read option \<Rightarrow> istream \<Rightarrow> (apacket option \<times> istream) option" where
  "FdConnection_Read junk tls es =
     (case DispatchRead tls amessage_size es of
        (Inl e, es1) \<Rightarrow> Some (None, es1)
      | (Inr hb, es1) \<Rightarrow>
          (let m = amessage_of hb in
           if unat (m_data_length m) > MAX_PAYLOAD then Some (None, es1)
           else do {
             pl \<leftarrow> block_resize junk (unat (m_data_length m)) block_new;
             (case DispatchRead tls (blk_size pl) es1 of
                (Inl e, es2) \<Rightarrow> Some (None, es2)
              | (Inr bs, es2) \<Rightarrow> do { pl' \<leftarrow> block_store bs pl;
                                     Some (Some \<lparr>p_msg = m, p_payload = pl'\<rparr>, es2) })
           }))"

section \<open>Well-formed packets\<close>

text \<open>A packet as the protocol handlers build it: the length field agrees with the payload.\<close>

definition packet_wf :: "apacket \<Rightarrow> bool" where
  "packet_wf p \<longleftrightarrow> block_wf (p_payload p) \<and> unat (m_data_length (p_msg p)) = blk_size (p_payload p) \<and>
     blk_size (p_payload p) \<le> MAX_PAYLOAD"

text \<open>What the receiver can observe of a packet.\<close>

definition packet_view :: "apacket \<Rightarrow> amessage \<times> bytes" where
  "packet_view p = (p_msg p, block_bytes (p_payload p))"

definition packet_bytes :: "amessage \<times> bytes \<Rightarrow> bytes" where
  "packet_bytes mp = amessage_bytes (fst mp) @ snd mp"

lemma packet_wf_view: "packet_wf p \<Longrightarrow> packet_view p = (m, bs) \<Longrightarrow> unat (m_data_length m) = length bs"
  by (auto simp: packet_wf_def packet_view_def)

lemma FdConnection_Write_ok:
  assumes wf: "packet_wf p" and os: "benign os"
  shows "\<exists>os'. FdConnection_Write None p os = Some (True, os') \<and> benign os' \<and>
     os_log os' = os_log os @ packet_bytes (packet_view p)"
proof -
  obtain os1 where w1: "WriteFdExactly (amessage_bytes (p_msg p)) os = (None, os1)" and b1: "benign os1"
    using WriteFdExactly_succeeds [of os] os unfolding benign_def by (meson subsetD)
  have l1: "os_log os1 = os_log os @ amessage_bytes (p_msg p)"
    by (rule WriteFdExactly_log [OF w1])
  show ?thesis
  proof (cases "m_data_length (p_msg p) = 0")
    case True
    then have "block_bytes (p_payload p) = []"
      using wf length_block_bytes [of "p_payload p"] by (simp add: packet_wf_def del: length_block_bytes)
    with True w1 b1 l1 show ?thesis
      by (simp add: FdConnection_Write_def DispatchWrite_def packet_bytes_def packet_view_def)
  next
    case False
    then have "0 < unat (m_data_length (p_msg p))"
      by (simp add: unat_gt_0)
    then have "0 < blk_size (p_payload p)"
      using wf by (simp add: packet_wf_def)
    then obtain d where d: "blk_data (p_payload p) = Some d" "blk_size (p_payload p) \<le> length d"
      using wf unfolding packet_wf_def block_wf_def by (auto split: option.splits)
    define bs where "bs = take (blk_size (p_payload p)) d"
    have bs: "block_bytes (p_payload p) = bs"
      using d by (simp add: block_bytes_def bs_def)
    obtain os2 where w2: "WriteFdExactly bs os1 = (None, os2)" and b2: "benign os2"
      using WriteFdExactly_succeeds [of os1] b1 unfolding benign_def by (meson subsetD)
    have "os_log os2 = os_log os1 @ bs"
      by (rule WriteFdExactly_log [OF w2])
    then show ?thesis
      using False w1 w2 b2 l1 d wf bs
      by (simp add: FdConnection_Write_def DispatchWrite_def packet_bytes_def packet_view_def
          packet_wf_def bs_def [symmetric])
  qed
qed

lemma block_store_resized:
  assumes "block_resize junk n block_new = Some pl" and "length bs = n"
  shows "\<exists>b. block_store bs pl = Some b \<and> block_wf b \<and> block_bytes b = bs \<and> blk_size b = n \<and>
     blk_position b = 0"
proof -
  have "block_of_range junk bs = block_store bs pl"
    using assms by (simp add: block_of_range_def block_of_size_def block_resize_def block_new_def
        split: if_splits)
  moreover obtain b where "block_of_range junk bs = Some b"
    by (simp add: block_of_range_Some)
  ultimately show ?thesis
    using block_of_range_wf [of junk bs b] assms(2) by (intro exI [of _ b]) simp
qed

lemma block_resize_new: "\<exists>pl. block_resize junk n block_new = Some pl \<and> blk_size pl = n"
  by (simp add: block_resize_def block_allocate_new) (simp add: block_new_def)

text \<open>
  Reading from a stream that starts with the bytes of a packet returns that packet, and leaves the
  rest of the stream.
\<close>

lemma FdConnection_Read_ok:
  assumes es: "chunks_ok es" "stream_bytes es = packet_bytes (m, bs) @ rest"
    and len: "unat (m_data_length m) = length bs" "length bs \<le> MAX_PAYLOAD"
  shows "\<exists>q es'. FdConnection_Read junk None es = Some (Some q, es') \<and> packet_view q = (m, bs) \<and>
     packet_wf q \<and> chunks_ok es' \<and> stream_bytes es' = rest"
proof -
  obtain es1 where r1: "ReadFdExactly 24 es = (Inr (amessage_bytes m), es1)" "chunks_ok es1"
    "stream_bytes es1 = bs @ rest"
    using ReadFdExactly_ok [OF es(1), of 24] es(2) by (auto simp: packet_bytes_def)
  obtain pl where pl: "block_resize junk (length bs) block_new = Some pl" "blk_size pl = length bs"
    using block_resize_new by blast
  obtain es2 where r2: "ReadFdExactly (length bs) es1 = (Inr bs, es2)" "chunks_ok es2" "stream_bytes es2 = rest"
    using ReadFdExactly_ok [OF r1(2), of "length bs"] r1(3) by auto
  obtain b where b: "block_store bs pl = Some b" "block_wf b" "block_bytes b = bs" "blk_size b = length bs"
    using block_store_resized [OF pl(1)] by auto
  have m: "amessage_of (amessage_bytes m) = m"
    using amessage_of_bytes [of m "[]"] by simp
  have "FdConnection_Read junk None es = Some (Some \<lparr>p_msg = m, p_payload = b\<rparr>, es2)"
    using r1(1) pl r2(1) b(1) len m
    by (simp add: FdConnection_Read_def DispatchRead_def amessage_size_def Let_def)
  then show ?thesis
    using b r2 len by (auto simp: packet_view_def packet_wf_def)
qed

end
