(* ===== verification/Adb_Packet_Reader.thy ===== *)
theory Adb_Packet_Reader
  imports Adb_Packet
begin

text \<open>
  \<open>APacketReader\<close> (\<open>apacket_reader.h\<close>, \<open>apacket_reader.cpp\<close>): reassembles packets from blocks that
  the USB layer may have cut or merged on any boundary.  \<open>add_bytes\<close> recurses on the rest of the
  block; the recursion is a \<open>partial_function\<close>, so that a call that would not return is \<^const>\<open>None\<close>,
  like an access outside a block.

  The specification is the greedy decoder \<open>decode_stream\<close> on the byte sequence.  \<open>add_bytes\<close> is shown
  to return, and to compute the decoder on the bytes kept so far followed by the new block, whatever
  the block boundaries are.
\<close>

unbundle bit_operations_syntax

datatype add_result = OK | ERROR

record reader =
  rd_header :: "byte block"
  rd_packet :: "apacket option"
  rd_packets :: "apacket list"

definition prepare_for_next_packet :: "reader \<Rightarrow> reader" where
  "prepare_for_next_packet r = r\<lparr>rd_header := block_rewind (rd_header r), rd_packet := None\<rparr>"

definition APacketReader :: "(nat \<Rightarrow> byte) \<Rightarrow> reader option" where
  "APacketReader junk = do {
     h \<leftarrow> block_of_size junk amessage_size;
     Some (prepare_for_next_packet \<lparr>rd_header = h, rd_packet = None, rd_packets = []\<rparr>)
   }"

definition add_packet :: "apacket \<Rightarrow> reader \<Rightarrow> reader" where
  "add_packet p r = prepare_for_next_packet (r\<lparr>rd_packets := rd_packets r @ [p]\<rparr>)"

text \<open>\<open>reinterpret_cast<amessage*>(header_.data())\<close>.\<close>

definition header_message :: "byte block \<Rightarrow> amessage option" where
  "header_message h = do { d \<leftarrow> blk_data h; CHECK (amessage_size \<le> length d); Some (amessage_of d) }"

text \<open>
  The packet under construction for a payload whose first bytes are in \<open>block\<close>: \<open>Inl\<close> when the block
  itself becomes the payload, \<open>Inr\<close> when the payload is to be filled from the block.
\<close>

definition payload_target ::
    "(nat \<Rightarrow> byte) \<Rightarrow> apacket option \<Rightarrow> amessage \<Rightarrow> byte block \<Rightarrow> (apacket + apacket) option" where
  "payload_target junk pk m block =
     (case pk of
        Some p \<Rightarrow> Some (Inr p)
      | None \<Rightarrow>
          if blk_position block = 0 \<and> block_remaining block = unat (m_data_length m) then
            Some (Inl \<lparr>p_msg = m, p_payload = fst (block_move_assign block_new block)\<rparr>)
          else do {
            pl \<leftarrow> block_resize junk (unat (m_data_length m)) block_new;
            Some (Inr \<lparr>p_msg = m, p_payload = pl\<rparr>)
          })"

partial_function (option) add_bytes ::
    "(nat \<Rightarrow> byte) \<Rightarrow> reader \<Rightarrow> byte block \<Rightarrow> (add_result \<times> reader) option" where
  "add_bytes junk r block =
     (if block_remaining block = 0 then Some (OK, r)
      else do {
        (h, block1, _) \<leftarrow> block_fillFrom (rd_header r) block;
        let r1 = r\<lparr>rd_header := h\<rparr>;
        if \<not> block_is_full h then Some (OK, r1)
        else do {
          m \<leftarrow> header_message h;
          if unat (m_data_length m) > MAX_PAYLOAD then Some (ERROR, prepare_for_next_packet r1)
          else if m_data_length m = 0 then do {
            pl \<leftarrow> block_of_size junk 0;
            add_bytes junk (add_packet \<lparr>p_msg = m, p_payload = pl\<rparr> r1) block1
          }
          else if block_remaining block1 = 0 then Some (OK, r1)
          else do {
            target \<leftarrow> payload_target junk (rd_packet r1) m block1;
            (case target of
               Inl p \<Rightarrow> Some (OK, add_packet p r1)
             | Inr p \<Rightarrow> do {
                 (pl, block2, _) \<leftarrow> block_fillFrom (p_payload p) block1;
                 let r2 = (if block_is_full pl
                           then add_packet (p\<lparr>p_payload := block_rewind pl\<rparr>) r1
                           else r1\<lparr>rd_packet := Some (p\<lparr>p_payload := pl\<rparr>)\<rparr>);
                 if block_remaining block2 > 0 then add_bytes junk r2 block2 else Some (OK, r2)
               })
          }
        }
      })"

definition get_packets :: "reader \<Rightarrow> apacket list \<times> reader" where
  "get_packets r = (rd_packets r, r\<lparr>rd_packets := []\<rparr>)"

section \<open>Specification\<close>

text \<open>
  The packets at the front of a byte sequence, and the bytes after them that do not make a packet
  yet; \<^const>\<open>None\<close> when a header announces a payload that is too long.
\<close>

function decode_stream :: "bytes \<Rightarrow> (amessage \<times> bytes) list \<times> bytes option" where
  "decode_stream bs =
     (if length bs < 24 then ([], Some bs)
      else let m = amessage_of bs; n = unat (m_data_length m)
           in if n > MAX_PAYLOAD then ([], None)
              else if length bs < 24 + n then ([], Some bs)
              else (case decode_stream (drop (24 + n) bs) of
                      (ps, rest) \<Rightarrow> ((m, take n (drop 24 bs)) # ps, rest)))"
  by pat_completeness auto
termination
  by (relation "measure length") auto

declare decode_stream.simps [simp del]

lemma decode_stream_short: "length bs < 24 \<Longrightarrow> decode_stream bs = ([], Some bs)"
  by (simp add: decode_stream.simps)

lemma decode_stream_packet:
  assumes "unat (m_data_length m) = length d" and "length d \<le> MAX_PAYLOAD"
  shows "decode_stream (packet_bytes (m, d) @ bs) =
     (case decode_stream bs of (ps, rest) \<Rightarrow> ((m, d) # ps, rest))"
  using assms by (subst decode_stream.simps) (simp add: packet_bytes_def Let_def)

lemma amessage_of_append: "24 \<le> length xs \<Longrightarrow> amessage_of (xs @ ys) = amessage_of xs"
  using amessage_of_take [of "xs @ ys"] amessage_of_take [of xs] by simp

lemma decode_stream_append:
  assumes "decode_stream xs = (ps, Some rest)"
  shows "decode_stream (xs @ ys) = (case decode_stream (rest @ ys) of (qs, r) \<Rightarrow> (ps @ qs, r))"
  using assms
proof (induction xs arbitrary: ps rule: decode_stream.induct)
  case (1 bs)
  let ?m = "amessage_of bs" and ?n = "unat (m_data_length (amessage_of bs))"
  consider "length bs < 24" | "24 \<le> length bs" "?n \<le> MAX_PAYLOAD" "length bs < 24 + ?n"
    | "24 \<le> length bs" "?n \<le> MAX_PAYLOAD" "24 + ?n \<le> length bs"
    using "1.prems" by (subst (asm) decode_stream.simps) (force simp: Let_def split: if_splits)
  then show ?case
  proof cases
    case 1
    with "1.prems" show ?thesis by (simp add: decode_stream_short)
  next
    case 2
    with "1.prems" show ?thesis
      by (subst (asm) decode_stream.simps) (auto simp: Let_def split: prod.splits)
  next
    case 3
    obtain qs where rec: "decode_stream (drop (24 + ?n) bs) = (qs, Some rest)"
      and ps: "ps = (?m, take ?n (drop 24 bs)) # qs"
      using "1.prems" 3 by (subst (asm) decode_stream.simps) (auto simp: Let_def split: prod.splits)
    have IH: "decode_stream (drop (24 + ?n) bs @ ys) =
        (case decode_stream (rest @ ys) of (q, r) \<Rightarrow> (qs @ q, r))"
      using "1.IH" [OF _ refl refl _ _ rec] 3 by simp
    have "decode_stream (bs @ ys) =
        (case decode_stream (drop (24 + ?n) bs @ ys) of (q, r) \<Rightarrow> ((?m, take ?n (drop 24 bs)) # q, r))"
      using 3 by (subst decode_stream.simps) (simp add: amessage_of_append Let_def)
    with IH ps show ?thesis by (auto split: prod.splits)
  qed
qed

section \<open>The reader's invariant\<close>

definition reader_pending :: "reader \<Rightarrow> bytes" where
  "reader_pending r = take (blk_position (rd_header r)) (block_bytes (rd_header r)) @
     (case rd_packet r of None \<Rightarrow> [] | Some p \<Rightarrow> take (blk_position (p_payload p)) (block_bytes (p_payload p)))"

definition reader_inv :: "reader \<Rightarrow> bool" where
  "reader_inv r \<longleftrightarrow>
     block_ok (rd_header r) \<and> blk_size (rd_header r) = 24 \<and>
     (blk_position (rd_header r) = 24 \<longrightarrow>
        (let n = unat (m_data_length (amessage_of (block_bytes (rd_header r)))) in 0 < n \<and> n \<le> MAX_PAYLOAD)) \<and>
     (case rd_packet r of
        None \<Rightarrow> True
      | Some p \<Rightarrow> blk_position (rd_header r) = 24 \<and> p_msg p = amessage_of (block_bytes (rd_header r)) \<and>
          block_ok (p_payload p) \<and> blk_size (p_payload p) = unat (m_data_length (p_msg p)) \<and>
          blk_position (p_payload p) < blk_size (p_payload p))"

definition reader_output :: "reader \<Rightarrow> (amessage \<times> bytes) list" where
  "reader_output r = map packet_view (rd_packets r)"

text \<open>What one call of \<open>add_bytes\<close> has to do, for a decoder result.\<close>

definition reader_step_spec ::
    "reader \<Rightarrow> (amessage \<times> bytes) list \<times> bytes option \<Rightarrow> add_result \<times> reader \<Rightarrow> bool" where
  "reader_step_spec r dec res \<longleftrightarrow>
     reader_inv (snd res) \<and> reader_output (snd res) = reader_output r @ fst dec \<and>
     (case snd dec of
        None \<Rightarrow> fst res = ERROR \<and> reader_pending (snd res) = []
      | Some rest \<Rightarrow> fst res = OK \<and> reader_pending (snd res) = rest)"

lemma reader_inv_prepare:
  assumes "block_ok (rd_header r)" and "blk_size (rd_header r) = 24"
  shows "reader_inv (prepare_for_next_packet r)" and "reader_pending (prepare_for_next_packet r) = []"
    and "reader_output (prepare_for_next_packet r) = reader_output r"
  using assms
  by (simp_all add: prepare_for_next_packet_def reader_inv_def reader_pending_def reader_output_def
      block_rewind_def block_ok_def)

lemma add_packet_facts:
  assumes "block_ok (rd_header r)" and "blk_size (rd_header r) = 24"
  shows "reader_inv (add_packet p r)" and "reader_pending (add_packet p r) = []"
    and "reader_output (add_packet p r) = reader_output r @ [packet_view p]"
  using reader_inv_prepare [of "r\<lparr>rd_packets := rd_packets r @ [p]\<rparr>"] assms
  by (simp_all add: add_packet_def reader_output_def)

lemma APacketReader_inv:
  "\<exists>r. APacketReader junk = Some r \<and> reader_inv r \<and> reader_pending r = [] \<and> rd_packets r = []"
proof -
  define h where "h = \<lparr>blk_data = Some (map junk [0..<24]), blk_capacity = 24, blk_size = 24, blk_position = 0\<rparr>"
  define r where "r = prepare_for_next_packet \<lparr>rd_header = h, rd_packet = None, rd_packets = []\<rparr>"
  have "block_ok h" "blk_size h = 24"
    by (simp_all add: h_def block_ok_def block_wf_def)
  then have "reader_inv r" "reader_pending r = []"
    using reader_inv_prepare [of "\<lparr>rd_header = h, rd_packet = None, rd_packets = []\<rparr>"] by (simp_all add: r_def)
  moreover have "APacketReader junk = Some r"
    by (simp add: APacketReader_def block_of_size_def block_allocate_new amessage_size_def r_def h_def)
  moreover have "rd_packets r = []"
    by (simp add: r_def prepare_for_next_packet_def)
  ultimately show ?thesis by blast
qed

lemma header_message_full:
  assumes "block_ok h" and "blk_size h = 24"
  shows "header_message h = Some (amessage_of (block_bytes h))"
proof -
  from assms obtain d where d: "blk_data h = Some d" "24 \<le> length d"
    unfolding block_ok_def block_wf_def by (auto split: option.splits)
  moreover have "amessage_of (take 24 d) = amessage_of d" by simp
  ultimately show ?thesis
    using assms by (simp add: header_message_def amessage_size_def block_bytes_def)
qed


section \<open>Refinement\<close>

lemma decode_stream_step:
  assumes "length hb = 24" and "unat (m_data_length (amessage_of hb)) = length d" and "length d \<le> MAX_PAYLOAD"
  shows "decode_stream (hb @ d @ rest) = (case decode_stream rest of (ps, r) \<Rightarrow> ((amessage_of hb, d) # ps, r))"
  using assms by (subst decode_stream.simps) (simp add: Let_def amessage_of_append)

lemma decode_stream_too_long:
  assumes "length hb = 24" and "unat (m_data_length (amessage_of hb)) > MAX_PAYLOAD"
  shows "decode_stream (hb @ rest) = ([], None)"
  using assms by (subst decode_stream.simps) (simp add: Let_def amessage_of_append)

lemma decode_stream_incomplete:
  assumes "length hb = 24" and "unat (m_data_length (amessage_of hb)) \<le> MAX_PAYLOAD"
    and "length d < unat (m_data_length (amessage_of hb))"
  shows "decode_stream (hb @ d) = ([], Some (hb @ d))"
  using assms by (subst decode_stream.simps) (simp add: Let_def amessage_of_append)

lemma block_full_bytes: "block_ok b \<Longrightarrow> blk_position b = blk_size b \<Longrightarrow> take (blk_position b) (block_bytes b) = block_bytes b"
  by (simp add: block_ok_def)

text \<open>The bytes a reader keeps never contain a complete packet.\<close>

lemma reader_pending_incomplete:
  assumes inv: "reader_inv r"
  shows "decode_stream (reader_pending r) = ([], Some (reader_pending r))"
proof (cases "blk_position (rd_header r) = 24")
  case False
  then have none: "rd_packet r = None" and lt: "blk_position (rd_header r) < 24"
    using inv by (auto simp: reader_inv_def block_ok_def split: option.splits)
  then have "length (reader_pending r) < 24"
    by (simp add: reader_pending_def)
  then show ?thesis by (rule decode_stream_short)
next
  case True
  let ?hb = "block_bytes (rd_header r)"
  let ?pp = "case rd_packet r of None \<Rightarrow> [] | Some p \<Rightarrow> take (blk_position (p_payload p)) (block_bytes (p_payload p))"
  have hb: "length ?hb = 24"
    using inv by (simp add: reader_inv_def block_ok_def)
  have pend: "reader_pending r = ?hb @ ?pp"
    using True hb by (simp add: reader_pending_def)
  have "length ?pp < unat (m_data_length (amessage_of ?hb))"
    using inv True by (auto simp: reader_inv_def Let_def split: option.splits)
  then show ?thesis
    unfolding pend using inv True hb
    by (intro decode_stream_incomplete) (auto simp: reader_inv_def Let_def)
qed

lemma reader_step_idle:
  assumes "reader_inv r'" and "reader_output r' = reader_output r" and "reader_pending r' = bs"
  shows "reader_step_spec r (decode_stream bs) (OK, r')"
  using assms reader_pending_incomplete [OF assms(1)] by (simp add: reader_step_spec_def)

lemma reader_step_chain:
  assumes step: "reader_step_spec r2 (decode_stream bs) res"
    and out: "reader_output r2 = reader_output r @ [mp]"
    and dec: "decode_stream bs0 = (case decode_stream bs of (ps, rest) \<Rightarrow> (mp # ps, rest))"
  shows "reader_step_spec r (decode_stream bs0) res"
  using assms by (simp add: reader_step_spec_def split: prod.splits)

lemma reader_step_last:
  assumes h: "block_ok (rd_header r1)" "blk_size (rd_header r1) = 24"
    and out: "reader_output r1 = reader_output r"
    and dec: "decode_stream bs0 = (case decode_stream [] of (ps, rest) \<Rightarrow> (packet_view p # ps, rest))"
  shows "reader_step_spec r (decode_stream bs0) (OK, add_packet p r1)"
  using add_packet_facts [OF h, of p] out dec
  by (simp add: reader_step_spec_def decode_stream_short)

lemma block_ok_unread_nil: "block_ok b \<Longrightarrow> block_remaining b = 0 \<longleftrightarrow> block_unread b = []"
  by (simp add: block_ok_def block_unread_def)

lemma block_resize_new_ok:
  assumes "0 < n"
  obtains pl where "block_resize junk n block_new = Some pl" and "block_ok pl" and "blk_size pl = n"
    and "blk_position pl = 0"
proof -
  define pl where "pl = \<lparr>blk_data = Some (map junk [0..<n]), blk_capacity = n, blk_size = n, blk_position = 0\<rparr>"
  have "block_resize junk n block_new = Some pl"
    using assms by (simp add: block_resize_def block_allocate_new pl_def) (simp add: block_new_def)
  then show ?thesis
    by (rule that) (use assms in \<open>simp_all add: pl_def block_ok_def block_wf_def\<close>)
qed

lemma block_fill_unread:
  assumes b: "block_ok b" and f: "block_ok from"
  obtains b' from' where
      "block_fillFrom b from = Some (b', from', min (blk_size b - blk_position b) (length (block_unread from)))"
    and "block_ok b'" and "block_ok from'"
    and "take (blk_position b') (block_bytes b') = take (blk_position b) (block_bytes b) @
      take (min (blk_size b - blk_position b) (length (block_unread from))) (block_unread from)"
    and "blk_position b' = blk_position b + min (blk_size b - blk_position b) (length (block_unread from))"
    and "blk_size b' = blk_size b"
    and "block_unread from' = drop (min (blk_size b - blk_position b) (length (block_unread from))) (block_unread from)"
proof -
  have len: "blk_size from - blk_position from = length (block_unread from)"
    using f by (simp add: block_ok_def)
  show ?thesis
    by (rule block_fillFrom_ok [OF b f], unfold len) (rule that)
qed

text \<open>
  The body of \<open>add_bytes\<close> once the header is full and payload bytes are at hand: from a reader \<open>r1\<close>
  with full header \<open>h\<close>, whose payload so far is \<open>pp\<close>.
\<close>

definition add_payload ::
    "(nat \<Rightarrow> byte) \<Rightarrow> reader \<Rightarrow> amessage \<Rightarrow> byte block \<Rightarrow> (add_result \<times> reader) option" where
  "add_payload junk r1 m block1 = do {
     target \<leftarrow> payload_target junk (rd_packet r1) m block1;
     (case target of
        Inl p \<Rightarrow> Some (OK, add_packet p r1)
      | Inr p \<Rightarrow> do {
          (pl, block2, _) \<leftarrow> block_fillFrom (p_payload p) block1;
          let r2 = (if block_is_full pl
                    then add_packet (p\<lparr>p_payload := block_rewind pl\<rparr>) r1
                    else r1\<lparr>rd_packet := Some (p\<lparr>p_payload := pl\<rparr>)\<rparr>);
          if block_remaining block2 > 0 then add_bytes junk r2 block2 else Some (OK, r2)
        })
   }"

lemma add_payload_fill:
  assumes inv: "reader_inv (r1\<lparr>rd_packet := Some p\<rparr>)"
    and b1: "block_ok b1" "block_unread b1 \<noteq> []"
    and tgt: "payload_target junk (rd_packet r1) m b1 = Some (Inr p)"
    and IH: "\<And>r2 b2. reader_inv r2 \<Longrightarrow> block_ok b2 \<Longrightarrow> length (block_unread b2) < length (block_unread b1) \<Longrightarrow>
      \<exists>res. add_bytes junk r2 b2 = Some res \<and>
        reader_step_spec r2 (decode_stream (reader_pending r2 @ block_unread b2)) res"
  shows "\<exists>res. add_payload junk r1 m b1 = Some res \<and>
    reader_step_spec r1 (decode_stream (reader_pending (r1\<lparr>rd_packet := Some p\<rparr>) @ block_unread b1)) res"
proof -
  define hb k n where "hb = block_bytes (rd_header r1)" and "k = blk_position (p_payload p)"
    and "n = blk_size (p_payload p)"
  define pp u1 where "pp = take k (block_bytes (p_payload p))" and "u1 = block_unread b1"
  have h: "block_ok (rd_header r1)" "blk_size (rd_header r1) = 24" "blk_position (rd_header r1) = 24"
    and p: "p_msg p = amessage_of hb" "block_ok (p_payload p)" "n = unat (m_data_length (p_msg p))" "k < n"
    and max: "n \<le> MAX_PAYLOAD"
    using inv by (auto simp: reader_inv_def hb_def n_def k_def Let_def)
  have hb: "length hb = 24" using h by (simp add: hb_def block_ok_def)
  have pplen: "length pp = k" using p(2,4) by (simp add: pp_def n_def block_ok_def)
  have pend: "reader_pending (r1\<lparr>rd_packet := Some p\<rparr>) = hb @ pp"
    using h hb by (simp add: reader_pending_def hb_def pp_def k_def)
  obtain pl b2 where f: "block_fillFrom (p_payload p) b1 = Some (pl, b2, min (n - k) (length u1))"
    "block_ok pl" "block_ok b2" "take (blk_position pl) (block_bytes pl) = pp @ take (min (n - k) (length u1)) u1"
    "blk_position pl = k + min (n - k) (length u1)" "blk_size pl = n"
    "block_unread b2 = drop (min (n - k) (length u1)) u1"
    unfolding k_def n_def u1_def pp_def by (rule block_fill_unread [OF p(2) b1(1)])
  have cnt: "0 < min (n - k) (length u1)" using p(4) b1(2) by (simp add: u1_def)
  show ?thesis
  proof (cases "n - k \<le> length u1")
    case True
    have full: "block_is_full pl" using f(2,5,6) True p(4) by (simp add: block_is_full_def)
    define q where "q = p\<lparr>p_payload := block_rewind pl\<rparr>"
    have view: "packet_view q = (amessage_of hb, pp @ take (n - k) u1)"
      using f(4,5,6) True p(1,4) f(2) by (simp add: q_def packet_view_def block_rewind_def block_ok_def)
    have "decode_stream ((hb @ pp) @ u1) =
        (case decode_stream (drop (n - k) u1) of (ps, r) \<Rightarrow> (packet_view q # ps, r))"
      using decode_stream_step [OF hb, of "pp @ take (n - k) u1" "drop (n - k) u1"] pplen p max True
      by (simp add: view)
    note dec = this
    have r2: "reader_inv (add_packet q r1)" "reader_pending (add_packet q r1) = []"
      "reader_output (add_packet q r1) = reader_output r1 @ [packet_view q]"
      using add_packet_facts [OF h(1,2)] by simp_all
    have u2: "block_unread b2 = drop (n - k) u1" using f(7) True by simp
    have body: "add_payload junk r1 m b1 =
        (if block_remaining b2 > 0 then add_bytes junk (add_packet q r1) b2 else Some (OK, add_packet q r1))"
      using tgt f(1) full by (simp add: add_payload_def q_def)
    show ?thesis
    proof (cases "block_remaining b2 = 0")
      case True
      then have "drop (n - k) u1 = []" using block_ok_unread_nil [OF f(3)] u2 by simp
      with body True dec show ?thesis
        using reader_step_last [OF h(1,2) refl, of "(hb @ pp) @ u1" q] by (simp add: pend u1_def)
    next
      case False
      have less: "length (drop (n - k) u1) < length (block_unread b1)"
        using cnt True by (simp add: u1_def [symmetric])
      obtain res where res: "add_bytes junk (add_packet q r1) b2 = Some res"
        "reader_step_spec (add_packet q r1) (decode_stream (drop (n - k) u1)) res"
        using IH [OF r2(1) f(3)] u2 r2(2) less by auto
      then show ?thesis
        using body False reader_step_chain [OF res(2) r2(3) dec] by (simp add: pend u1_def)
    qed
  next
    case False
    define q where "q = p\<lparr>p_payload := pl\<rparr>"
    have notfull: "\<not> block_is_full pl" using f(2,5,6) False by (simp add: block_is_full_def)
    have u2: "block_remaining b2 = 0" using f(7) False block_ok_unread_nil [OF f(3)] by simp
    have body: "add_payload junk r1 m b1 = Some (OK, r1\<lparr>rd_packet := Some q\<rparr>)"
      using tgt f(1) notfull u2 by (simp add: add_payload_def q_def)
    have "reader_inv (r1\<lparr>rd_packet := Some q\<rparr>)"
      using inv f(2,5,6) False p(3) by (simp add: reader_inv_def q_def n_def Let_def)
    moreover have "reader_pending (r1\<lparr>rd_packet := Some q\<rparr>) = (hb @ pp) @ u1"
      using h hb f(4) False by (simp add: reader_pending_def hb_def q_def)
    ultimately show ?thesis
      using body reader_step_idle [of "r1\<lparr>rd_packet := Some q\<rparr>" r1 "(hb @ pp) @ u1"]
      by (simp add: pend u1_def reader_output_def)
  qed
qed


lemma payload_target_ok:
  assumes inv: "reader_inv r1" and pos: "blk_position (rd_header r1) = 24"
    and m: "m = amessage_of (block_bytes (rd_header r1))" and b1: "block_ok b1"
  obtains (moved) d where "payload_target junk (rd_packet r1) m b1 = Some (Inl \<lparr>p_msg = m, p_payload = d\<rparr>)"
      and "rd_packet r1 = None" and "block_bytes d = block_unread b1"
      and "length (block_unread b1) = unat (m_data_length m)"
  | (fill) p where "payload_target junk (rd_packet r1) m b1 = Some (Inr p)"
      and "reader_inv (r1\<lparr>rd_packet := Some p\<rparr>)"
      and "reader_pending (r1\<lparr>rd_packet := Some p\<rparr>) = reader_pending r1"
proof (cases "rd_packet r1")
  case (Some p)
  then have same: "r1\<lparr>rd_packet := Some p\<rparr> = r1" by (cases r1) simp
  show ?thesis
    by (rule that(2) [of p]) (use inv Some in \<open>simp_all add: payload_target_def same\<close>)
next
  case None
  have n: "0 < unat (m_data_length m)" using inv pos m by (simp add: reader_inv_def Let_def)
  show ?thesis
  proof (cases "blk_position b1 = 0 \<and> block_remaining b1 = unat (m_data_length m)")
    case True
    then have unread: "block_unread b1 = block_bytes b1" by (simp add: block_unread_def)
    have len: "length (block_unread b1) = unat (m_data_length m)"
      using True block_remaining_ok [OF b1] b1 by (auto simp: block_ok_def unread)
    show ?thesis
      by (rule that(1) [of "b1\<lparr>blk_position := 0\<rparr>"])
        (use True None unread len in \<open>simp_all add: payload_target_def block_move_assign_eq\<close>)
  next
    case False
    obtain pl where pl: "block_resize junk (unat (m_data_length m)) block_new = Some pl" "block_ok pl"
      "blk_size pl = unat (m_data_length m)" "blk_position pl = 0"
      using block_resize_new_ok [OF n] by blast
    show ?thesis
      by (rule that(2) [of "\<lparr>p_msg = m, p_payload = pl\<rparr>"])
        (use pl inv pos m n None False in \<open>auto simp: payload_target_def reader_inv_def reader_pending_def Let_def\<close>)
  qed
qed


lemma add_payload_ok:
  assumes inv: "reader_inv r1" and pos: "blk_position (rd_header r1) = 24"
    and b1: "block_ok b1" "block_unread b1 \<noteq> []"
    and IH: "\<And>r2 b2. reader_inv r2 \<Longrightarrow> block_ok b2 \<Longrightarrow> length (block_unread b2) < length (block_unread b1) \<Longrightarrow>
      \<exists>res. add_bytes junk r2 b2 = Some res \<and>
        reader_step_spec r2 (decode_stream (reader_pending r2 @ block_unread b2)) res"
  shows "\<exists>res. add_payload junk r1 (amessage_of (block_bytes (rd_header r1))) b1 = Some res \<and>
    reader_step_spec r1 (decode_stream (reader_pending r1 @ block_unread b1)) res"
  using inv pos refl b1(1)
proof (cases rule: payload_target_ok [where junk = junk])
  case (moved d)
  let ?hb = "block_bytes (rd_header r1)"
  have h: "block_ok (rd_header r1)" "blk_size (rd_header r1) = 24" and hb: "length ?hb = 24"
    and max: "unat (m_data_length (amessage_of ?hb)) \<le> MAX_PAYLOAD"
    using inv pos by (simp_all add: reader_inv_def block_ok_def Let_def)
  have pend: "reader_pending r1 = ?hb" using moved(2) pos hb by (simp add: reader_pending_def)
  have "decode_stream (?hb @ block_unread b1) = (case decode_stream [] of (ps, rest) \<Rightarrow>
      (packet_view \<lparr>p_msg = amessage_of ?hb, p_payload = d\<rparr> # ps, rest))"
    using decode_stream_step [OF hb moved(4) [symmetric], of "[]"] moved(3,4) max
    by (simp add: packet_view_def)
  then show ?thesis
    using moved(1) reader_step_last [OF h refl] by (simp add: add_payload_def pend)
next
  case (fill p)
  show ?thesis using add_payload_fill [OF fill(2) b1 fill(1) IH] fill(3) by simp
qed


text \<open>The body of \<open>add_bytes\<close> once the header is full, and the loop in terms of it.\<close>

definition after_header ::
    "(nat \<Rightarrow> byte) \<Rightarrow> reader \<Rightarrow> byte block \<Rightarrow> (add_result \<times> reader) option" where
  "after_header junk r1 b1 = do {
     m \<leftarrow> header_message (rd_header r1);
     if unat (m_data_length m) > MAX_PAYLOAD then Some (ERROR, prepare_for_next_packet r1)
     else if m_data_length m = 0 then do {
       pl \<leftarrow> block_of_size junk 0;
       add_bytes junk (add_packet \<lparr>p_msg = m, p_payload = pl\<rparr> r1) b1
     }
     else if block_remaining b1 = 0 then Some (OK, r1)
     else add_payload junk r1 m b1
   }"

lemma add_bytes_unfold:
  "add_bytes junk r b =
     (if block_remaining b = 0 then Some (OK, r)
      else do {
        (h, b1, _) \<leftarrow> block_fillFrom (rd_header r) b;
        let r1 = r\<lparr>rd_header := h\<rparr>;
        if \<not> block_is_full h then Some (OK, r1) else after_header junk r1 b1
      })"
  by (subst add_bytes.simps) (simp add: after_header_def add_payload_def Let_def cong: if_cong)

lemma reader_header_fill:
  assumes inv: "reader_inv r" and b: "block_ok b"
  obtains h b1 where "\<exists>n. block_fillFrom (rd_header r) b = Some (h, b1, n)"
    and "block_ok h" and "blk_size h = 24" and "block_ok b1"
    and "reader_pending (r\<lparr>rd_header := h\<rparr>) @ block_unread b1 = reader_pending r @ block_unread b"
    and "blk_position h < 24 \<Longrightarrow> block_unread b1 = [] \<and> rd_packet r = None"
    and "blk_position h = 24 \<Longrightarrow> blk_position (rd_header r) = 24 \<Longrightarrow>
          block_bytes h = block_bytes (rd_header r) \<and> block_unread b1 = block_unread b"
    and "blk_position (rd_header r) < 24 \<Longrightarrow> rd_packet r = None"
    and "blk_position (rd_header r) < 24 \<Longrightarrow> block_unread b \<noteq> [] \<Longrightarrow>
          length (block_unread b1) < length (block_unread b)"
proof -
  let ?k = "blk_position (rd_header r)"
  have h0: "block_ok (rd_header r)" "blk_size (rd_header r) = 24" "?k \<le> 24"
    and none: "?k < 24 \<Longrightarrow> rd_packet r = None"
    using inv by (auto simp: reader_inv_def block_ok_def split: option.splits)
  obtain h b1 where f: "block_fillFrom (rd_header r) b = Some (h, b1, min (24 - ?k) (length (block_unread b)))"
    "block_ok h" "block_ok b1"
    "take (blk_position h) (block_bytes h) = take ?k (block_bytes (rd_header r)) @
       take (min (24 - ?k) (length (block_unread b))) (block_unread b)"
    "blk_position h = ?k + min (24 - ?k) (length (block_unread b))" "blk_size h = 24"
    "block_unread b1 = drop (min (24 - ?k) (length (block_unread b))) (block_unread b)"
    using block_fill_unread [OF h0(1) b] unfolding h0(2) .
  have pend: "reader_pending (r\<lparr>rd_header := h\<rparr>) @ block_unread b1 = reader_pending r @ block_unread b"
  proof (cases "?k < 24")
    case True
    with none f(4,7) show ?thesis by (simp add: reader_pending_def)
  next
    case False
    with h0(3) f(4,7) show ?thesis by (simp add: reader_pending_def)
  qed
  show ?thesis
  proof (rule that [OF _ f(2,6,3) pend])
    assume "blk_position h = 24" and "?k = 24"
    then show "block_bytes h = block_bytes (rd_header r) \<and> block_unread b1 = block_unread b"
      using f(2,4,6,7) h0(1,2) by (simp add: block_ok_def)
  qed (use f none in \<open>auto simp: block_ok_def\<close>)
qed

lemma after_header_ok:
  assumes h: "block_ok (rd_header r1)" "blk_size (rd_header r1) = 24" "blk_position (rd_header r1) = 24"
    and b1: "block_ok b1" "length (block_unread b1) \<le> N"
    and new: "reader_inv r1 \<or> rd_packet r1 = None \<and> length (block_unread b1) < N"
    and IH: "\<And>r2 b2. reader_inv r2 \<Longrightarrow> block_ok b2 \<Longrightarrow> length (block_unread b2) < N \<Longrightarrow>
      \<exists>res. add_bytes junk r2 b2 = Some res \<and>
        reader_step_spec r2 (decode_stream (reader_pending r2 @ block_unread b2)) res"
  shows "\<exists>res. after_header junk r1 b1 = Some res \<and>
    reader_step_spec r1 (decode_stream (reader_pending r1 @ block_unread b1)) res"
proof -
  define hb m where "hb = block_bytes (rd_header r1)" and "m = amessage_of hb"
  have hm: "header_message (rd_header r1) = Some m" and hb: "length hb = 24"
    using header_message_full [OF h(1,2)] h by (simp_all add: m_def hb_def block_ok_def)
  consider (long) "unat (m_data_length m) > MAX_PAYLOAD" | (zero) "m_data_length m = 0"
    | (body) "0 < unat (m_data_length m)" "unat (m_data_length m) \<le> MAX_PAYLOAD" "m_data_length m \<noteq> 0"
    by (metis not_less unat_gt_0)
  then show ?thesis
  proof cases
    case long
    have "\<exists>d. reader_pending r1 = hb @ d" using h hb by (simp add: reader_pending_def hb_def)
    then have "decode_stream (reader_pending r1 @ block_unread b1) = ([], None)"
      using decode_stream_too_long [OF hb] long by (auto simp: m_def)
    then show ?thesis
      using hm long reader_inv_prepare [OF h(1,2)] by (simp add: after_header_def reader_step_spec_def)
  next
    case zero
    define q where "q = \<lparr>p_msg = m, p_payload = block_new\<rparr>"
    have fresh: "rd_packet r1 = None" "length (block_unread b1) < N"
      using new zero h by (auto simp: reader_inv_def m_def hb_def)
    note r2 = add_packet_facts [OF h(1,2), of q]
    obtain res where res: "add_bytes junk (add_packet q r1) b1 = Some res"
      "reader_step_spec (add_packet q r1) (decode_stream (block_unread b1)) res"
      using IH [OF r2(1) b1(1) fresh(2)] r2(2) by auto
    have "reader_pending r1 = hb" using fresh h hb by (simp add: reader_pending_def hb_def)
    then have "decode_stream (reader_pending r1 @ block_unread b1) =
        (case decode_stream (block_unread b1) of (ps, rest) \<Rightarrow> (packet_view q # ps, rest))"
      using decode_stream_step [OF hb, of "[]" "block_unread b1"] zero by (simp add: m_def q_def packet_view_def)
    from reader_step_chain [OF res(2) r2(3) this] show ?thesis
      using hm zero res(1) by (simp add: after_header_def q_def block_of_size_def block_allocate_new)
  next
    case body
    have inv1: "reader_inv r1" using new body h by (auto simp: reader_inv_def m_def hb_def)
    show ?thesis
    proof (cases "block_unread b1 = []")
      case True
      then show ?thesis
        using hm body block_ok_unread_nil [OF b1(1)] reader_step_idle [OF inv1 refl refl] by (simp add: after_header_def)
    next
      case False
      have "\<exists>res. add_payload junk r1 m b1 = Some res \<and>
          reader_step_spec r1 (decode_stream (reader_pending r1 @ block_unread b1)) res"
        using add_payload_ok [OF inv1 h(3) b1(1) False] IH b1(2) unfolding m_def hb_def
        by (meson less_le_trans)
      then show ?thesis
        using hm body block_ok_unread_nil [OF b1(1)] False by (simp add: after_header_def)
    qed
  qed
qed

text \<open>
  The refinement: on a reader in its invariant, \<open>add_bytes\<close> returns, and does what the decoder says
  about the bytes kept so far followed by the bytes of the block.
\<close>

lemma add_bytes_decodes:
  assumes "reader_inv r" and "block_ok b"
  shows "\<exists>res. add_bytes junk r b = Some res \<and>
    reader_step_spec r (decode_stream (reader_pending r @ block_unread b)) res"
  using assms
proof (induction "length (block_unread b)" arbitrary: r b rule: less_induct)
  case less
  note inv = less.prems(1) and b = less.prems(2)
  show ?case
  proof (cases "block_unread b = []")
    case True
    then show ?thesis
      using reader_step_idle [OF inv refl refl] block_ok_unread_nil [OF b] by (simp add: add_bytes_unfold)
  next
    case nonempty: False
    obtain h b1 n1 where fill: "block_fillFrom (rd_header r) b = Some (h, b1, n1)"
      and h: "block_ok h" "blk_size h = 24" and b1: "block_ok b1"
      and pend: "reader_pending (r\<lparr>rd_header := h\<rparr>) @ block_unread b1 = reader_pending r @ block_unread b"
      and part: "blk_position h < 24 \<Longrightarrow> block_unread b1 = [] \<and> rd_packet r = None"
      and old: "blk_position h = 24 \<Longrightarrow> blk_position (rd_header r) = 24 \<Longrightarrow>
          block_bytes h = block_bytes (rd_header r) \<and> block_unread b1 = block_unread b"
      and none: "blk_position (rd_header r) < 24 \<Longrightarrow> rd_packet r = None"
      and shorter: "blk_position (rd_header r) < 24 \<Longrightarrow> length (block_unread b1) < length (block_unread b)"
      using reader_header_fill [OF inv b] nonempty by metis
    define r1 where "r1 = r\<lparr>rd_header := h\<rparr>"
    have spec: "reader_step_spec r = reader_step_spec r1"
      by (simp add: r1_def reader_output_def reader_step_spec_def fun_eq_iff)
    have r1: "add_bytes junk r b = (if block_is_full h then after_header junk r1 b1 else Some (OK, r1))"
      using fill nonempty block_ok_unread_nil [OF b] by (subst add_bytes_unfold) (simp add: r1_def)
    show ?thesis
    proof (cases "blk_position h = 24")
      case False
      with h have lt: "blk_position h < 24" by (simp add: block_ok_def)
      then have inv1: "reader_inv r1" using part h by (simp add: reader_inv_def r1_def)
      have "reader_pending r1 = reader_pending r @ block_unread b" using pend part [OF lt] by (simp add: r1_def)
      from reader_step_idle [OF inv1 refl this] show ?thesis
        using lt h r1 by (simp add: block_is_full_def spec)
    next
      case True
      have "reader_inv r1 \<or> rd_packet r1 = None \<and> length (block_unread b1) < length (block_unread b)"
        using old [OF True] none shorter inv True h
        by (cases "blk_position (rd_header r) = 24") (auto simp: reader_inv_def block_ok_def r1_def split: option.splits)
      moreover have "length (block_unread b1) \<le> length (block_unread b)"
        using old [OF True] shorter inv by (cases "blk_position (rd_header r) = 24") (auto simp: reader_inv_def block_ok_def)
      ultimately have "\<exists>res. after_header junk r1 b1 = Some res \<and>
          reader_step_spec r1 (decode_stream (reader_pending r1 @ block_unread b1)) res"
        using h True b1 less.hyps by (intro after_header_ok) (auto simp: r1_def)
      then show ?thesis
        using r1 True h pend by (simp add: block_is_full_def spec flip: r1_def)
    qed
  qed
qed


section \<open>Sequences of blocks and of packets\<close>

text \<open>The blocks of a connection handed to the reader in order, up to the first error.\<close>

fun add_blocks :: "(nat \<Rightarrow> byte) \<Rightarrow> reader \<Rightarrow> byte block list \<Rightarrow> (add_result \<times> reader) option" where
  "add_blocks junk r [] = Some (OK, r)"
| "add_blocks junk r (b # bs) = do {
     (res, r1) \<leftarrow> add_bytes junk r b;
     case res of ERROR \<Rightarrow> Some (ERROR, r1) | OK \<Rightarrow> add_blocks junk r1 bs
   }"

lemma decode_stream_append_None:
  "decode_stream xs = (ps, None) \<Longrightarrow> decode_stream (xs @ ys) = (ps, None)"
proof (induction xs arbitrary: ps rule: decode_stream.induct)
  case (1 bs)
  let ?n = "unat (m_data_length (amessage_of bs))"
  have len: "24 \<le> length bs"
    using "1.prems" by (rule_tac ccontr) (simp add: decode_stream_short)
  show ?case
  proof (cases "?n > MAX_PAYLOAD")
    case True
    with len "1.prems" show ?thesis
      by (simp add: decode_stream.simps [of bs] decode_stream.simps [of "bs @ ys"] amessage_of_append Let_def)
  next
    case False
    with len "1.prems" have le: "24 + ?n \<le> length bs"
      by (rule_tac ccontr) (simp add: decode_stream.simps [of bs] Let_def)
    obtain qs where rec: "decode_stream (drop (24 + ?n) bs) = (qs, None)"
      and ps: "ps = (amessage_of bs, take ?n (drop 24 bs)) # qs"
      using "1.prems" len le False by (auto simp: decode_stream.simps [of bs] Let_def split: prod.splits)
    have "decode_stream (drop (24 + ?n) bs @ ys) = (qs, None)"
      using "1.IH" [OF _ refl refl _ _ rec] len le False by simp
    then show ?thesis
      using len le False ps by (simp add: decode_stream.simps [of "bs @ ys"] amessage_of_append Let_def)
  qed
qed

lemma add_blocks_decodes:
  assumes "reader_inv r" and "list_all block_ok bs"
  shows "\<exists>res. add_blocks junk r bs = Some res \<and>
    reader_step_spec r (decode_stream (reader_pending r @ concat (map block_unread bs))) res"
  using assms
proof (induction bs arbitrary: r)
  case Nil
  then show ?case using reader_step_idle [OF Nil(1) refl refl] by simp
next
  case (Cons b bs)
  obtain res1 r1 where r1: "add_bytes junk r b = Some (res1, r1)"
    and spec: "reader_step_spec r (decode_stream (reader_pending r @ block_unread b)) (res1, r1)"
    using add_bytes_decodes [of r b junk] Cons.prems by auto
  obtain ps rest where dec: "decode_stream (reader_pending r @ block_unread b) = (ps, rest)" by force
  show ?case
  proof (cases rest)
    case None
    with dec have "decode_stream (reader_pending r @ concat (map block_unread (b # bs))) = (ps, None)"
      using decode_stream_append_None by fastforce
    then show ?thesis using r1 spec dec None by (simp add: reader_step_spec_def)
  next
    case (Some u)
    with spec dec have r1s: "reader_inv r1" "res1 = OK" "reader_pending r1 = u" "reader_output r1 = reader_output r @ ps"
      by (simp_all add: reader_step_spec_def)
    have "decode_stream (reader_pending r @ concat (map block_unread (b # bs))) =
        (case decode_stream (u @ concat (map block_unread bs)) of (qs, r) \<Rightarrow> (ps @ qs, r))"
      using decode_stream_append [of "reader_pending r @ block_unread b" ps u "concat (map block_unread bs)"] dec Some by simp
    moreover obtain res where "add_blocks junk r1 bs = Some res"
      "reader_step_spec r1 (decode_stream (u @ concat (map block_unread bs))) res"
      using Cons.IH [OF r1s(1)] Cons.prems r1s(3) by auto
    ultimately show ?thesis
      using r1 r1s by (simp add: reader_step_spec_def split: prod.splits)
  qed
qed

definition framed :: "amessage \<times> bytes \<Rightarrow> bool" where
  "framed mp \<longleftrightarrow> unat (m_data_length (fst mp)) = length (snd mp) \<and> length (snd mp) \<le> MAX_PAYLOAD"

lemma decode_stream_packets:
  "list_all framed mps \<Longrightarrow> decode_stream (concat (map packet_bytes mps)) = (mps, Some [])"
  by (induction mps) (auto simp: decode_stream_short framed_def decode_stream_packet)

text \<open>Packets written one after the other, and packets read one after the other.\<close>

fun write_packets :: "apacket list \<Rightarrow> ostream \<Rightarrow> (bool \<times> ostream) option" where
  "write_packets [] os = Some (True, os)"
| "write_packets (p # ps) os = do {
     (ok, os1) \<leftarrow> FdConnection_Write None p os;
     if ok then write_packets ps os1 else Some (False, os1)
   }"

fun read_packets :: "(nat \<Rightarrow> byte) \<Rightarrow> nat \<Rightarrow> istream \<Rightarrow> (apacket list \<times> istream) option" where
  "read_packets junk 0 es = Some ([], es)"
| "read_packets junk (Suc n) es = do {
     (p, es1) \<leftarrow> FdConnection_Read junk None es;
     (case p of
        None \<Rightarrow> Some ([], es1)
      | Some p \<Rightarrow> do { (ps, es2) \<leftarrow> read_packets junk n es1; Some (p # ps, es2) })
   }"

lemma write_packets_ok:
  assumes "list_all packet_wf ps" and "benign os"
  shows "\<exists>os'. write_packets ps os = Some (True, os') \<and> benign os' \<and>
    os_log os' = os_log os @ concat (map (packet_bytes \<circ> packet_view) ps)"
  using assms
proof (induction ps arbitrary: os)
  case (Cons p ps)
  then obtain os1 where "FdConnection_Write None p os = Some (True, os1)" "benign os1"
    "os_log os1 = os_log os @ packet_bytes (packet_view p)"
    using FdConnection_Write_ok [of p os] by auto
  with Cons.IH [of os1] Cons.prems show ?case by auto
qed simp

lemma read_packets_ok:
  assumes "list_all framed mps" and "chunks_ok es" and "stream_bytes es = concat (map packet_bytes mps) @ rest"
  shows "\<exists>qs es'. read_packets junk (length mps) es = Some (qs, es') \<and> map packet_view qs = mps \<and>
    list_all packet_wf qs \<and> stream_bytes es' = rest"
  using assms
proof (induction mps arbitrary: es)
  case (Cons mp mps)
  then obtain q es1 where "FdConnection_Read junk None es = Some (Some q, es1)" "packet_view q = mp" "packet_wf q"
    "chunks_ok es1" "stream_bytes es1 = concat (map packet_bytes mps) @ rest"
    using FdConnection_Read_ok [of es "fst mp" "snd mp" "concat (map packet_bytes mps) @ rest" junk]
    by (auto simp: framed_def)
  with Cons.IH [of es1] Cons.prems show ?case by auto
qed simp

lemma packet_wf_framed: "packet_wf p \<Longrightarrow> framed (packet_view p)"
  by (simp add: packet_wf_def framed_def packet_view_def)

section \<open>Properties\<close>

text \<open>
  C9: \<open>APacketReader\<close> reassembles packets independently of how the bytes arrive.  From a fresh reader,
  the blocks of a connection (of any sizes: part of a header, several packets, a packet without
  payload) are all taken without an abort, and the packets, the error flag and the bytes kept are
  those that the decoder \<open>decode_stream\<close> gives for the concatenation of the blocks; in particular
  the encodings of well-framed packets, cut anywhere, give back exactly these packets.
\<close>

theorem reader_reassembles:
  assumes "list_all block_ok bs" and "list_all framed mps"
  shows "\<exists>r res r'. APacketReader junk = Some r \<and> add_blocks junk r bs = Some (res, r') \<and>
    (case decode_stream (concat (map block_unread bs)) of
       (ps, None) \<Rightarrow> res = ERROR \<and> map packet_view (fst (get_packets r')) = ps \<and> reader_pending r' = []
     | (ps, Some rest) \<Rightarrow> res = OK \<and> map packet_view (fst (get_packets r')) = ps \<and> reader_pending r' = rest) \<and>
    (concat (map block_unread bs) = concat (map packet_bytes mps) \<longrightarrow>
       res = OK \<and> map packet_view (fst (get_packets r')) = mps \<and> reader_pending r' = [])"
proof -
  obtain r where r: "APacketReader junk = Some r" "reader_inv r" "reader_pending r = []" "rd_packets r = []"
    using APacketReader_inv by blast
  obtain res r' where "add_blocks junk r bs = Some (res, r')"
    "reader_step_spec r (decode_stream (concat (map block_unread bs))) (res, r')"
    using add_blocks_decodes [OF r(2) assms(1), of junk] r(3) by auto
  then show ?thesis
    using r decode_stream_packets [OF assms(2)]
    by (auto simp: reader_step_spec_def reader_output_def get_packets_def split: prod.splits option.splits)
qed

definition ex_packet :: "u32 \<Rightarrow> bytes \<Rightarrow> apacket" where
  "ex_packet cmd bs = \<lparr>p_msg = \<lparr>m_command = cmd, m_arg0 = 1, m_arg1 = 2, m_data_length = of_nat (length bs),
     m_data_check = 0, m_magic = NOT cmd\<rparr>, p_payload = filled_block bs\<rparr>"

definition ex_stream :: bytes where
  "ex_stream = concat (map (packet_bytes \<circ> packet_view) [ex_packet A_WRTE ''ab'', ex_packet A_OKAY []])"

lemma ex_packet_wf [simp]: "length bs \<le> 100 \<Longrightarrow> packet_wf (ex_packet cmd bs)"
  by (simp add: ex_packet_def packet_wf_def MAX_PAYLOAD_def unat_of_nat take_bit_nat_eq_self filled_block_def block_wf_def)

theorem reader_reassembles_witness:
  "list_all block_ok (map filled_block [take 10 ex_stream, [], take 15 (drop 10 ex_stream), drop 25 ex_stream]) \<and>
   list_all framed (map packet_view [ex_packet A_WRTE ''ab'', ex_packet A_OKAY []]) \<and>
   (\<exists>r r'. APacketReader (\<lambda>_. CHR ''x'') = Some r \<and>
      add_blocks (\<lambda>_. CHR ''x'') r (map filled_block [take 10 ex_stream, [], take 15 (drop 10 ex_stream), drop 25 ex_stream]) =
        Some (OK, r') \<and>
      map packet_view (fst (get_packets r')) = map packet_view [ex_packet A_WRTE ''ab'', ex_packet A_OKAY []] \<and>
      reader_pending r' = [])"
proof -
  let ?bs = "map filled_block [take 10 ex_stream, [], take 15 (drop 10 ex_stream), drop 25 ex_stream]"
  let ?mps = "map packet_view [ex_packet A_WRTE ''ab'', ex_packet A_OKAY []]"
  have b: "list_all block_ok ?bs" by simp
  have f: "list_all framed ?mps" by (simp add: packet_wf_framed)
  have "concat (map block_unread ?bs) = take 10 ex_stream @ take 15 (drop 10 ex_stream) @ drop 15 (drop 10 ex_stream)"
    by simp
  also have "\<dots> = concat (map packet_bytes ?mps)"
    by (simp only: append_take_drop_id) (simp add: ex_stream_def)
  finally show ?thesis
    using b f reader_reassembles [OF b f, of "\<lambda>_. CHR ''x''"] by blast
qed

text \<open>
  C14: a connection delivers what was sent.  Well-formed packets written with \<open>FdConnection::Write\<close>,
  one after the other, are all written; every sequence of reads that delivers these bytes, in
  whatever chunks, makes \<open>FdConnection::Read\<close> return packets with the same headers and payloads in the
  same order, and the blocks of an \<open>APacketReader\<close> that carry these bytes give the same packets.
\<close>

theorem connection_roundtrip:
  assumes "list_all packet_wf ps" and "benign os" and "os_log os = []"
  shows "\<exists>os'. write_packets ps os = Some (True, os') \<and>
    (\<forall>es rest. chunks_ok es \<and> stream_bytes es = os_log os' @ rest \<longrightarrow>
       (\<exists>qs es'. read_packets junk (length ps) es = Some (qs, es') \<and> map packet_view qs = map packet_view ps \<and>
          list_all packet_wf qs \<and> stream_bytes es' = rest)) \<and>
    (\<forall>r bs. reader_inv r \<and> reader_pending r = [] \<and> rd_packets r = [] \<and> list_all block_ok bs \<and>
        concat (map block_unread bs) = os_log os' \<longrightarrow>
       (\<exists>r'. add_blocks junk r bs = Some (OK, r') \<and> map packet_view (rd_packets r') = map packet_view ps))"
proof -
  let ?mps = "map packet_view ps"
  obtain os' where w: "write_packets ps os = Some (True, os')"
    and log: "os_log os' = concat (map packet_bytes ?mps)"
    using write_packets_ok [OF assms(1,2)] assms(3) by (auto simp: comp_def)
  have fr: "list_all framed ?mps"
    using assms(1) by (auto simp: list_all_iff packet_wf_framed)
  have "\<exists>r'. add_blocks junk r bs = Some (OK, r') \<and> map packet_view (rd_packets r') = ?mps"
    if "reader_inv r \<and> reader_pending r = [] \<and> rd_packets r = [] \<and> list_all block_ok bs \<and>
        concat (map block_unread bs) = os_log os'" for r bs
    using add_blocks_decodes [of r bs junk] that decode_stream_packets [OF fr] log
    by (auto simp: reader_step_spec_def reader_output_def)
  moreover have "\<exists>qs es'. read_packets junk (length ps) es = Some (qs, es') \<and> map packet_view qs = ?mps \<and>
      list_all packet_wf qs \<and> stream_bytes es' = rest"
    if "chunks_ok es \<and> stream_bytes es = os_log os' @ rest" for es rest
    using read_packets_ok [OF fr, of es rest junk] that log by simp
  ultimately show ?thesis using w by blast
qed


theorem connection_roundtrip_witness:
  "list_all packet_wf [ex_packet A_WRTE ''ab'', ex_packet A_OKAY []] \<and>
   benign \<lparr>os_script = [Accept 3, WFault EAGAIN], os_log = []\<rparr> \<and>
   (\<exists>os' qs es'. write_packets [ex_packet A_WRTE ''ab'', ex_packet A_OKAY []]
        \<lparr>os_script = [Accept 3, WFault EAGAIN], os_log = []\<rparr> = Some (True, os') \<and>
      read_packets (\<lambda>_. CHR ''x'') 2 [Got (os_log os')] = Some (qs, es') \<and>
      map packet_view qs = map packet_view [ex_packet A_WRTE ''ab'', ex_packet A_OKAY []])"
proof -
  let ?ps = "[ex_packet A_WRTE ''ab'', ex_packet A_OKAY []]"
  let ?os = "\<lparr>os_script = [Accept 3, WFault EAGAIN], os_log = []\<rparr>"
  have wf: "list_all packet_wf ?ps" and os: "benign ?os" "os_log ?os = []"
    by (simp_all add: benign_def)
  obtain os' where w: "write_packets ?ps ?os = Some (True, os')"
    and rd: "\<forall>es rest. chunks_ok es \<and> stream_bytes es = os_log os' @ rest \<longrightarrow>
       (\<exists>qs es'. read_packets (\<lambda>_. CHR ''x'') (length ?ps) es = Some (qs, es') \<and>
          map packet_view qs = map packet_view ?ps \<and> list_all packet_wf qs \<and> stream_bytes es' = rest)"
    using connection_roundtrip [OF wf os, of "\<lambda>_. CHR ''x''"] by blast
  have "os_log os' \<noteq> []"
    using write_packets_ok [OF wf os(1)] w by (auto simp: packet_bytes_def dest!: arg_cong [of _ "[]" length])
  then have "chunks_ok [Got (os_log os')]" "stream_bytes [Got (os_log os')] = os_log os' @ []"
    by simp_all
  with rd have "\<exists>qs es'. read_packets (\<lambda>_. CHR ''x'') 2 [Got (os_log os')] = Some (qs, es') \<and>
      map packet_view qs = map packet_view ?ps"
    by (fastforce simp: numeral_2_eq_2)
  with wf os w show ?thesis by blast
qed

end
