(* ===== verification/Adb_Strings.thy ===== *)
theory Adb_Strings
  imports Adb_Prelude "HOL-Library.Sublist"
begin

text \<open>
  Strings as the code uses them: the functions of the C and C++ libraries on characters and views,
  the small helpers of \<open>adb_utils.h\<close>, and the interface of libbase (\<open>android::base\<close>), which is not part
  of the repository.  The libbase functions are the fields of a record that the definitions take as
  an argument; \<open>libbase_ok\<close> states what their documentation promises.
\<close>

section \<open>Characters and views\<close>

definition isdigit :: "char \<Rightarrow> bool" where
  "isdigit c \<longleftrightarrow> c \<in> set ''0123456789''"

definition isalnum :: "char \<Rightarrow> bool" where
  "isalnum c \<longleftrightarrow> isdigit c \<or> c \<in> set ''abcdefghijklmnopqrstuvwxyz'' \<or> c \<in> set ''ABCDEFGHIJKLMNOPQRSTUVWXYZ''"

text \<open>\<open>std::string_view::find\<close> of a character: the offset of its first occurrence.\<close>

definition find_char :: "char \<Rightarrow> string \<Rightarrow> nat option" where
  "find_char c s = (if c \<in> set s then Some (length (takeWhile (\<lambda>x. x \<noteq> c) s)) else None)"

text \<open>A C string starting at the given bytes: the bytes before the first NUL; reading past the end is an abort.\<close>

definition c_str :: "bytes \<Rightarrow> string option" where
  "c_str bs = (if CHR 0x00 \<in> set bs then Some (takeWhile (\<lambda>x. x \<noteq> CHR 0x00) bs) else None)"

text \<open>The string that a \<open>"%s"\<close> conversion prints of a \<open>std::string\<close>: up to its first NUL.\<close>

definition percent_s :: "string \<Rightarrow> string" where
  "percent_s s = takeWhile (\<lambda>x. x \<noteq> CHR 0x00) s"

lemma percent_s_id [simp]: "CHR 0x00 \<notin> set s \<Longrightarrow> percent_s s = s"
  by (auto simp: percent_s_def takeWhile_eq_all_conv)

lemma percent_s_set: "x \<in> set (percent_s s) \<Longrightarrow> x \<in> set s"
  by (auto simp: percent_s_def dest: set_takeWhileD)

text \<open>\<open>StripTrailingNulls\<close>.\<close>

definition StripTrailingNulls :: "string \<Rightarrow> string" where
  "StripTrailingNulls s = take (length s - length (takeWhile (\<lambda>c. c = CHR 0x00) (rev s))) s"

text \<open>
  \<open>std::from_chars\<close> in base 10 for an unsigned type of \<open>w\<close> bits, as \<open>ParseUint\<close> uses it: the longest
  prefix of digits must not be empty and its value must fit.
\<close>

definition digit_value :: "char \<Rightarrow> nat" where
  "digit_value c = of_char c - of_char (CHR ''0'')"

definition dec_value :: "string \<Rightarrow> nat" where
  "dec_value ds = foldl (\<lambda>n c. 10 * n + digit_value c) 0 ds"

definition from_chars :: "nat \<Rightarrow> string \<Rightarrow> (nat \<times> string) option" where
  "from_chars w s =
     (let ds = takeWhile isdigit s
      in if ds = [] \<or> dec_value ds \<ge> 2 ^ w then None else Some (dec_value ds, drop (length ds) s))"

text \<open>\<open>ParseUint\<close> with and without its \<open>remaining\<close> argument.\<close>

definition ParseUint :: "nat \<Rightarrow> string \<Rightarrow> (nat \<times> string) option" where
  "ParseUint w s = from_chars w s"

definition ParseUint_all :: "nat \<Rightarrow> string \<Rightarrow> nat option" where
  "ParseUint_all w s = (case from_chars w s of Some (n, []) \<Rightarrow> Some n | _ \<Rightarrow> None)"

section \<open>libbase\<close>

record libbase =
  Split :: "string \<Rightarrow> char \<Rightarrow> string list"
  Join :: "string list \<Rightarrow> char \<Rightarrow> string"
  StartsWith :: "string \<Rightarrow> string \<Rightarrow> bool"
  ConsumePrefix :: "string \<Rightarrow> string \<Rightarrow> string option"
  ParseInt :: "string \<Rightarrow> int option"
  BaseParseUint :: "string \<Rightarrow> nat option"
  Dirname :: "string \<Rightarrow> string"

fun join :: "char \<Rightarrow> string list \<Rightarrow> string" where
  "join c [] = []"
| "join c [x] = x"
| "join c (x # xs) = x @ c # join c xs"

text \<open>
  The documented behaviour: \<open>Split\<close> cuts at every delimiter, \<open>Join\<close> puts one between the parts,
  \<open>ConsumePrefix\<close> removes a prefix when it is there.
\<close>

definition libbase_ok :: "libbase \<Rightarrow> bool" where
  "libbase_ok lb \<longleftrightarrow>
     (\<forall>s c. Split lb s c \<noteq> [] \<and> (\<forall>p \<in> set (Split lb s c). c \<notin> set p) \<and> join c (Split lb s c) = s) \<and>
     (\<forall>xs c. Join lb xs c = join c xs) \<and>
     (\<forall>s p. StartsWith lb s p \<longleftrightarrow> prefix p s) \<and>
     (\<forall>s p. ConsumePrefix lb s p = (if prefix p s then Some (drop (length p) s) else None))"

text \<open>
  \<open>ParseInt\<close> yields a value of the type \<open>int\<close> and reads decimal numbers without a leading zero, \<open>ParseUint\<close>
  (here \<open>BaseParseUint\<close>, at the type \<open>unsigned int\<close>) one that fits 32 bits without a sign;
  \<open>Dirname\<close> is that of \<open><libgen.h>\<close>: a proper prefix of the path, or the current directory.
\<close>

definition int_parser_ok :: "libbase \<Rightarrow> bool" where
  "int_parser_ok lb \<longleftrightarrow>
     (\<forall>s n. ParseInt lb s = Some n \<longrightarrow> - (2 ^ 31) \<le> n \<and> n < 2 ^ 31) \<and>
     (\<forall>ds. ds \<noteq> [] \<and> (\<forall>c \<in> set ds. isdigit c) \<and> (hd ds = CHR ''0'' \<longrightarrow> ds = ''0'') \<and> dec_value ds < 2 ^ 31 \<longrightarrow>
        ParseInt lb ds = Some (int (dec_value ds))) \<and>
     (\<forall>s n. BaseParseUint lb s = Some n \<longrightarrow> n < 2 ^ 32)"

definition dirname_ok :: "libbase \<Rightarrow> bool" where
  "dirname_ok lb \<longleftrightarrow> Dirname lb ''.'' = ''.'' \<and>
     (\<forall>p. Dirname lb p = p \<or> Dirname lb p = ''.'' \<or> length (Dirname lb p) < length p)"

lemma join_Cons: "xs \<noteq> [] \<Longrightarrow> join c (x # xs) = x @ c # join c xs"
  by (cases xs) simp_all

lemma append_delim_cancel:
  "c \<notin> set a \<Longrightarrow> c \<notin> set b \<Longrightarrow> a @ c # s = b @ c # t \<Longrightarrow> a = b \<and> s = t"
proof (induction a arbitrary: b)
  case Nil
  then show ?case by (cases b) auto
next
  case (Cons x a)
  then show ?case by (cases b) auto
qed

lemma join_inject:
  assumes "xs \<noteq> []" and "ys \<noteq> []" and "\<forall>p \<in> set xs. c \<notin> set p" and "\<forall>p \<in> set ys. c \<notin> set p"
    and "join c xs = join c ys"
  shows "xs = ys"
  using assms
proof (induction xs arbitrary: ys)
  case (Cons x xs)
  obtain y ys' where ys: "ys = y # ys'" using Cons.prems(2) by (cases ys) auto
  consider "xs = []" "ys' = []" | "xs = []" "ys' \<noteq> []" | "xs \<noteq> []" "ys' = []" | "xs \<noteq> []" "ys' \<noteq> []" by blast
  then show ?case
  proof cases
    case 4
    with Cons.prems ys have "x = y \<and> join c xs = join c ys'"
      by (intro append_delim_cancel [where c = c]) (simp_all add: join_Cons)
    with Cons.IH [of ys'] 4 Cons.prems ys show ?thesis by simp
  qed (use Cons.prems ys in \<open>auto simp: join_Cons\<close>)
qed simp

lemma Split_join:
  assumes "libbase_ok lb" and "xs \<noteq> []" and "\<forall>p \<in> set xs. c \<notin> set p"
  shows "Split lb (join c xs) c = xs"
  using assms unfolding libbase_ok_def by (intro join_inject [where c = c]) auto

lemma libbase_simps:
  assumes "libbase_ok lb"
  shows "Join lb xs c = join c xs" and "StartsWith lb s p = prefix p s"
    and "ConsumePrefix lb s p = (if prefix p s then Some (drop (length p) s) else None)"
    and "Split lb s c \<noteq> []"
  using assms by (simp_all add: libbase_ok_def)

text \<open>A concrete instance.\<close>

fun split_at :: "char \<Rightarrow> string \<Rightarrow> string list" where
  "split_at c [] = [[]]"
| "split_at c (x # xs) =
     (if x = c then [] # split_at c xs
      else (case split_at c xs of [] \<Rightarrow> [[x]] | p # ps \<Rightarrow> (x # p) # ps))"

definition ref_ParseInt :: "string \<Rightarrow> int option" where
  "ref_ParseInt s =
     (let ds = (if prefix ''-'' s then tl s else s); n = int (dec_value ds)
      in if ds = [] \<or> \<not> list_all isdigit ds then None
         else if prefix ''-'' s then (if n \<le> 2 ^ 31 then Some (- n) else None)
         else if n < 2 ^ 31 then Some n else None)"

definition ref_Dirname :: "string \<Rightarrow> string" where
  "ref_Dirname p =
     (let up = rev (dropWhile (\<lambda>c. c \<noteq> CHR ''/'') (rev p)); dir = rev (dropWhile (\<lambda>c. c = CHR ''/'') (rev up))
      in if p = [] \<or> up = [] then ''.'' else if dir = [] then ''/'' else dir)"

definition ref_libbase :: libbase where
  "ref_libbase = \<lparr>Split = (\<lambda>s c. split_at c s), Join = (\<lambda>xs c. join c xs), StartsWith = (\<lambda>s p. prefix p s),
     ConsumePrefix = (\<lambda>s p. if prefix p s then Some (drop (length p) s) else None),
     ParseInt = ref_ParseInt, BaseParseUint = ParseUint_all 32, Dirname = ref_Dirname\<rparr>"

lemma split_at_ok: "split_at c s \<noteq> [] \<and> (\<forall>p \<in> set (split_at c s). c \<notin> set p) \<and> join c (split_at c s) = s"
proof (induction s)
  case (Cons x s)
  obtain p ps where s: "split_at c s = p # ps" using Cons by (cases "split_at c s") auto
  with Cons show ?case by (cases ps) auto
qed simp

lemma ref_libbase_ok: "libbase_ok ref_libbase"
  using split_at_ok by (simp add: libbase_ok_def ref_libbase_def)

lemma ref_ParseInt_range: "ref_ParseInt s = Some n \<Longrightarrow> - (2 ^ 31) \<le> n \<and> n < 2 ^ 31"
  by (simp add: ref_ParseInt_def Let_def split: if_splits)

lemma ref_ParseInt_digits:
  assumes "ds \<noteq> []" and "\<forall>c \<in> set ds. isdigit c" and "dec_value ds < 2 ^ 31"
  shows "ref_ParseInt ds = Some (int (dec_value ds))"
proof -
  have "\<not> prefix ''-'' ds" using assms(1,2) by (cases ds) (auto simp: isdigit_def)
  with assms show ?thesis by (simp add: ref_ParseInt_def list_all_iff)
qed

lemma ParseUint_all_less: "ParseUint_all w s = Some n \<Longrightarrow> n < 2 ^ w"
  by (auto simp: ParseUint_all_def from_chars_def Let_def split: option.splits if_splits list.splits)

lemma ref_int_parser_ok: "int_parser_ok ref_libbase"
  unfolding int_parser_ok_def ref_libbase_def libbase.simps
  using ref_ParseInt_range ref_ParseInt_digits ParseUint_all_less by blast

lemma ref_Dirname_shorter: "ref_Dirname p = p \<or> ref_Dirname p = ''.'' \<or> length (ref_Dirname p) < length p"
proof -
  define up where "up = dropWhile (\<lambda>c. c \<noteq> CHR ''/'') (rev p)"
  define dir where "dir = dropWhile (\<lambda>c. c = CHR ''/'') up"
  have len: "length up \<le> length p" unfolding up_def by (rule order_trans [OF length_dropWhile_le]) simp
  have res: "ref_Dirname p = (if p = [] \<or> up = [] then ''.'' else if dir = [] then ''/'' else rev dir)"
    unfolding ref_Dirname_def up_def dir_def Let_def rev_rev_ident rev_is_Nil_conv by (rule refl)
  show ?thesis
  proof (cases up)
    case (Cons c r)
    have "c = CHR ''/''" using hd_dropWhile [of "\<lambda>c. c \<noteq> CHR ''/''" "rev p"] Cons by (simp add: up_def [symmetric])
    then have "length dir \<le> length r" unfolding dir_def Cons using length_dropWhile_le [of _ r] by simp
    then have d: "length dir < length p" using len Cons by simp
    have "p = ''/''" if "length p = 1"
    proof -
      from that obtain x where "p = [x]" by (auto simp: length_Suc_conv)
      with Cons \<open>c = CHR ''/''\<close> show ?thesis by (simp add: up_def split: if_splits)
    qed
    moreover have "length p = 1 \<or> 1 < length p" using d by linarith
    ultimately show ?thesis using d unfolding res Cons by (cases "dir = []") (simp_all, blast?)
  next
    case Nil
    then show ?thesis unfolding res by simp
  qed
qed

lemma ref_dirname_ok: "dirname_ok ref_libbase"
proof -
  have "ref_Dirname ''.'' = ''.''" by (simp add: ref_Dirname_def)
  then show ?thesis unfolding dirname_ok_def ref_libbase_def libbase.simps using ref_Dirname_shorter by blast
qed

lemma StripTrailingNulls_append: "StripTrailingNulls (s @ [CHR 0x00]) = StripTrailingNulls s"
  by (simp add: StripTrailingNulls_def)

lemma StripTrailingNulls_id: "s = [] \<or> last s \<noteq> CHR 0x00 \<Longrightarrow> StripTrailingNulls s = s"
  by (cases s rule: rev_cases) (simp_all add: StripTrailingNulls_def)

lemma find_char_Some: "find_char c s = Some n \<Longrightarrow> n < length s \<and> s ! n = c \<and> c \<notin> set (take n s)"
proof -
  assume "find_char c s = Some n"
  then have c: "c \<in> set s" and n: "n = length (takeWhile (\<lambda>x. x \<noteq> c) s)"
    by (auto simp: find_char_def split: if_splits)
  from c have lt: "n < length s"
    unfolding n by (metis (full_types) length_takeWhile_le nat_less_le nth_equalityI takeWhile_eq_all_conv takeWhile_nth)
  moreover have "s ! n = c" using nth_length_takeWhile [of "\<lambda>x. x \<noteq> c" s] lt n by simp
  moreover have "take n s = takeWhile (\<lambda>x. x \<noteq> c) s" unfolding n by (metis takeWhile_eq_take)
  then have "c \<notin> set (take n s)" by (metis (mono_tags, lifting) set_takeWhileD)
  ultimately show ?thesis by blast
qed

lemma find_char_append: "c \<notin> set r \<Longrightarrow> find_char c (r @ c # l) = Some (length r)"
  by (induction r) (auto simp: find_char_def)

end
