(* ===== verification/Adb_Host_Service.thy ===== *)
theory Adb_Host_Service
  imports Adb_Strings Adb_Io
begin

text \<open>
  The request strings of the smart socket (\<open>unhex\<close> and \<open>parse_host_service\<close> of \<open>sockets.cpp\<close>): the
  hexadecimal length, and the serial number in front of a command of a \<open>host-serial:\<close> request.

  \<open>parse_host_service\<close> moves a boundary through the string; serial and command are always the parts
  before and after it.  The result is \<^const>\<open>None\<close> for an abort, \<open>Some None\<close> when the function returns
  false, and the serial and the command otherwise.
\<close>

section \<open>Definitions\<close>

definition unhex_digit :: "char \<Rightarrow> u32 option" where
  "unhex_digit c = map_option of_nat (hex_value c)"

fun unhex_loop :: "u32 \<Rightarrow> string \<Rightarrow> nat \<Rightarrow> u32 option" where
  "unhex_loop n s 0 = Some n"
| "unhex_loop n [] (Suc k) = None"
| "unhex_loop n (c # s) (Suc k) =
     (case unhex_digit c of
        None \<Rightarrow> Some 0xffffffff
      | Some d \<Rightarrow> unhex_loop (or (push_bit 4 n) d) s k)"

definition unhex :: "string \<Rightarrow> nat \<Rightarrow> u32 option" where
  "unhex s len = unhex_loop 0 s len"

text \<open>The lambda \<open>consume\<close>: moves the boundary \<open>k\<close> by \<open>count\<close> bytes.\<close>

definition consume :: "string \<Rightarrow> nat \<Rightarrow> nat \<Rightarrow> nat option" where
  "consume full count k = do { CHECK (count \<le> length (drop k full)); Some (k + count) }"

text \<open>The lambda \<open>finish\<close>.\<close>

definition finish :: "string \<Rightarrow> nat \<Rightarrow> (string \<times> string) option option" where
  "finish full k =
     (let serial = take k full; command = drop k full in
      if serial = [] \<or> command = [] then Some None
      else do {
        CHECK (last serial = CHR '':'');
        Some (Some (butlast serial, command))
      })"

definition service_prefixes :: "string list" where
  "service_prefixes = [''usb:'', ''product:'', ''model:'', ''device:'', ''localfilesystem:'']"

text \<open>The part of the function after an optional protocol prefix: address, then port.\<close>

definition parse_port :: "string \<Rightarrow> nat \<Rightarrow> (string \<times> string) option option" where
  "parse_port full k =
     (let command = drop k full in
      case find_char (CHR '':'') command of
        None \<Rightarrow> finish full k
      | Some next_colon \<Rightarrow>
          if length command \<le> next_colon then Some None
          else if list_all isdigit (take next_colon command)
          then do { k' \<leftarrow> consume full (next_colon + 1) k; finish full k' }
          else finish full k)"

definition parse_plain_address :: "string \<Rightarrow> nat \<Rightarrow> (string \<times> string) option option" where
  "parse_plain_address full k =
     (case find_char (CHR '':'') (drop k full) of
        None \<Rightarrow> Some None
      | Some offset \<Rightarrow> do { k' \<leftarrow> consume full (offset + 1) k; parse_port full k' })"

definition parse_address :: "string \<Rightarrow> nat \<Rightarrow> (string \<times> string) option option" where
  "parse_address full k = do {
     c \<leftarrow> at (drop k full) 0;
     if c = CHR ''['' then
       (case find_char (CHR '']'') (drop k full) of
          None \<Rightarrow> parse_plain_address full k
        | Some ipv6_end \<Rightarrow> do {
            k1 \<leftarrow> consume full (ipv6_end + 1) k;
            if drop k1 full = [] then Some None
            else if hd (drop k1 full) \<noteq> CHR '':'' then Some None
            else do { k2 \<leftarrow> consume full 1 k1; parse_port full k2 }
          })
     else parse_plain_address full k
   }"

definition parse_vsock :: "string \<Rightarrow> nat \<Rightarrow> (string \<times> string) option option" where
  "parse_vsock full k =
     (if prefix ''vsock:'' (drop k full) then
        (case find_char (CHR '':'') (drop k full) of
           None \<Rightarrow> Some None
         | Some next_colon \<Rightarrow> do { k' \<leftarrow> consume full (next_colon + 1) k; parse_address full k' })
      else parse_address full k)"

definition parse_host_service :: "string \<Rightarrow> (string \<times> string) option option" where
  "parse_host_service full =
     (if full = [] then Some None
      else case find (\<lambda>p. prefix p full) service_prefixes of
        Some p \<Rightarrow> do {
          k \<leftarrow> consume full (length p) 0;
          (case find_char (CHR '':'') (drop k full) of
             None \<Rightarrow> Some None
           | Some offset \<Rightarrow> do { k' \<leftarrow> consume full (offset + 1) k; finish full k' })
        }
      | None \<Rightarrow>
          if prefix ''tcp:'' full \<or> prefix ''udp:'' full then do {
            k \<leftarrow> consume full 4 0;
            if drop k full = [] then Some None else parse_vsock full k
          }
          else parse_vsock full 0)"

section \<open>The boundary\<close>

text \<open>A boundary right after a colon.\<close>

definition after_colon :: "string \<Rightarrow> nat \<Rightarrow> bool" where
  "after_colon full k \<longleftrightarrow> 0 < k \<and> k \<le> length full \<and> full ! (k - 1) = CHR '':''"

lemma consume_Some [simp]: "count + k \<le> length full \<Longrightarrow> consume full count k = Some (k + count)"
  by (simp add: consume_def)

lemma find_char_drop:
  assumes "find_char c (drop k full) = Some n"
  shows "k + n < length full" and "full ! (k + n) = c"
  using find_char_Some [OF assms] by auto

lemma finish_ok:
  assumes "after_colon full k"
  shows "\<exists>r. finish full k = Some r \<and>
    (\<forall>serial command. r = Some (serial, command) \<longrightarrow>
       full = serial @ '':'' @ command \<and> command \<noteq> [] \<and> length serial = k - 1) \<and>
    (r = None \<longleftrightarrow> k = length full)"
proof -
  have k: "0 < k" "k \<le> length full" and c: "full ! (k - 1) = CHR '':''" using assms by (auto simp: after_colon_def)
  obtain j where j: "k = Suc j" using k by (cases k) auto
  have t: "take k full = take j full @ '':''"
    using k c j by (simp add: take_Suc_conv_app_nth)
  have "full = take j full @ '':'' @ drop k full"
    using append_take_drop_id [of k full] unfolding t by simp
  with k j t show ?thesis
    by (auto simp: finish_def Let_def)
qed

lemma parse_port_ok:
  assumes "after_colon full k"
  shows "\<exists>r. parse_port full k = Some r \<and>
    (\<forall>serial command. r = Some (serial, command) \<longrightarrow> full = serial @ '':'' @ command \<and> command \<noteq> [] \<and> k \<le> length serial + 1)"
proof (cases "find_char (CHR '':'') (drop k full)")
  case None
  with finish_ok [OF assms] show ?thesis by (fastforce simp: parse_port_def)
next
  case (Some n)
  note f = find_char_drop [OF Some]
  show ?thesis
  proof (cases "list_all isdigit (take n (drop k full))")
    case True
    have "after_colon full (Suc (k + n))" using f by (simp add: after_colon_def)
    from finish_ok [OF this] show ?thesis
      using Some f True by (fastforce simp: parse_port_def)
  next
    case False
    with finish_ok [OF assms] Some f show ?thesis by (fastforce simp: parse_port_def)
  qed
qed

lemma parse_plain_address_ok:
  assumes "k \<le> length full"
  shows "\<exists>r. parse_plain_address full k = Some r \<and>
    (\<forall>serial command. r = Some (serial, command) \<longrightarrow> full = serial @ '':'' @ command \<and> command \<noteq> [])"
proof (cases "find_char (CHR '':'') (drop k full)")
  case (Some n)
  note f = find_char_drop [OF Some]
  have "after_colon full (Suc (k + n))" using f by (simp add: after_colon_def)
  from parse_port_ok [OF this] show ?thesis
    using Some f by (fastforce simp: parse_plain_address_def)
qed (simp add: parse_plain_address_def)

lemma parse_address_ok:
  assumes "k < length full"
  shows "\<exists>r. parse_address full k = Some r \<and>
    (\<forall>serial command. r = Some (serial, command) \<longrightarrow> full = serial @ '':'' @ command \<and> command \<noteq> [])"
proof (cases "full ! k = CHR ''['' \<and> find_char (CHR '']'') (drop k full) \<noteq> None")
  case True
  then obtain n where n: "find_char (CHR '']'') (drop k full) = Some n" by auto
  note f = find_char_drop [OF n]
  show ?thesis
  proof (cases "Suc (k + n) < length full \<and> full ! Suc (k + n) = CHR '':''")
    case colon: True
    then have "after_colon full (Suc (Suc (k + n)))" by (simp add: after_colon_def)
    from parse_port_ok [OF this] show ?thesis
      using True n f colon assms by (auto simp: parse_address_def hd_drop_conv_nth)
  next
    case False
    then show ?thesis
      using True n f assms by (auto simp: parse_address_def hd_drop_conv_nth)
  qed
next
  case False
  with parse_plain_address_ok [of k full] assms show ?thesis
    by (auto simp: parse_address_def split: option.splits)
qed


lemma parse_vsock_ok:
  assumes "k < length full"
  shows "parse_vsock full k = None \<longleftrightarrow> drop k full = ''vsock:''"
    and "parse_vsock full k = Some (Some (serial, command)) \<Longrightarrow> full = serial @ '':'' @ command \<and> command \<noteq> []"
proof -
  have "(parse_vsock full k = None \<longleftrightarrow> drop k full = ''vsock:'') \<and>
    (parse_vsock full k = Some (Some (serial, command)) \<longrightarrow> full = serial @ '':'' @ command \<and> command \<noteq> [])"
  proof (cases "prefix ''vsock:'' (drop k full)")
    case True
    then obtain rest where rest: "drop k full = ''vsock:'' @ rest" by (auto simp: prefix_def)
    have c: "find_char (CHR '':'') (drop k full) = Some 5"
      by (simp add: rest find_char_def)
    have len: "length full = k + 6 + length rest"
      using arg_cong [OF rest, of length] assms by simp
    have p: "parse_vsock full k = parse_address full (k + 6)"
      using True c len by (simp add: parse_vsock_def)
    show ?thesis
    proof (cases "rest = []")
      case True
      then show ?thesis using p len by (simp add: parse_address_def rest at_def)
    next
      case False
      then have "k + 6 < length full" using len by simp
      from parse_address_ok [OF this] show ?thesis using p False by (auto simp: rest)
    qed
  next
    case False
    with parse_address_ok [OF assms] show ?thesis by (auto simp: parse_vsock_def)
  qed
  then show "parse_vsock full k = None \<longleftrightarrow> drop k full = ''vsock:''"
    and "parse_vsock full k = Some (Some (serial, command)) \<Longrightarrow> full = serial @ '':'' @ command \<and> command \<noteq> []"
    by blast+
qed

lemma service_prefix_colon: "p \<in> set service_prefixes \<Longrightarrow> p \<noteq> [] \<and> last p = CHR '':''"
  by (auto simp: service_prefixes_def)

lemma parse_prefixed_ok:
  assumes "find (\<lambda>p. prefix p full) service_prefixes = Some p"
  shows "\<exists>r. parse_host_service full = Some r \<and>
    (\<forall>serial command. r = Some (serial, command) \<longrightarrow> full = serial @ '':'' @ command \<and> command \<noteq> [])"
proof -
  have p: "p \<in> set service_prefixes" "prefix p full" using assms by (auto simp: find_Some_iff)
  then have ne: "full \<noteq> []" and le: "length p \<le> length full"
    using service_prefix_colon by (auto dest: prefix_length_le)
  show ?thesis
  proof (cases "find_char (CHR '':'') (drop (length p) full)")
    case None
    with assms ne le show ?thesis by (simp add: parse_host_service_def)
  next
    case (Some n)
    note f = find_char_drop [OF Some]
    have "after_colon full (Suc (length p + n))" using f by (simp add: after_colon_def)
    from finish_ok [OF this] show ?thesis
      using assms ne le Some f by (fastforce simp: parse_host_service_def)
  qed
qed

text \<open>A serial number that the parser takes for an address: no colon, and no reserved word.\<close>

definition plain_host :: "string \<Rightarrow> bool" where
  "plain_host host \<longleftrightarrow> CHR '':'' \<notin> set host \<and> host \<noteq> [] \<and> hd host \<noteq> CHR ''['' \<and>
     host \<notin> set [''usb'', ''product'', ''model'', ''device'', ''localfilesystem'', ''tcp'', ''udp'', ''vsock'']"

lemma prefix_colon_host:
  assumes "CHR '':'' \<notin> set host" and "CHR '':'' \<notin> set q"
  shows "prefix (q @ '':'') (host @ CHR '':'' # rest) \<longleftrightarrow> host = q"
proof
  assume "prefix (q @ '':'') (host @ CHR '':'' # rest)"
  then obtain z where "q @ CHR '':'' # z = host @ CHR '':'' # rest" by (auto simp: prefix_def)
  from append_delim_cancel [OF assms(2,1) this] show "host = q" by simp
qed (simp add: prefix_def)

lemma plain_host_prefixes:
  assumes "plain_host host"
  shows "find (\<lambda>p. prefix p (host @ CHR '':'' # rest)) service_prefixes = None"
    and "\<not> prefix ''tcp:'' (host @ CHR '':'' # rest)" and "\<not> prefix ''udp:'' (host @ CHR '':'' # rest)"
    and "\<not> prefix ''vsock:'' (host @ CHR '':'' # rest)"
proof -
  have h: "CHR '':'' \<notin> set host" using assms by (simp add: plain_host_def)
  note pc = prefix_colon_host [OF h, where rest = rest]
  show "find (\<lambda>p. prefix p (host @ CHR '':'' # rest)) service_prefixes = None"
    using assms pc [of "''usb''"] pc [of "''product''"] pc [of "''model''"] pc [of "''device''"]
      pc [of "''localfilesystem''"]
    by (simp add: service_prefixes_def plain_host_def)
  show "\<not> prefix ''tcp:'' (host @ CHR '':'' # rest)" "\<not> prefix ''udp:'' (host @ CHR '':'' # rest)"
    "\<not> prefix ''vsock:'' (host @ CHR '':'' # rest)"
    using assms pc [of "''tcp''"] pc [of "''udp''"] pc [of "''vsock''"] by (simp_all add: plain_host_def)
qed

lemma parse_plain_host:
  assumes "plain_host host"
  shows "parse_host_service (host @ CHR '':'' # rest) = parse_port (host @ CHR '':'' # rest) (Suc (length host))"
proof -
  have h: "CHR '':'' \<notin> set host" "host \<noteq> []" "hd host \<noteq> CHR ''[''" using assms by (simp_all add: plain_host_def)
  have "(host @ CHR '':'' # rest) ! 0 = hd host" using h by (cases host) simp_all
  then show ?thesis
    using plain_host_prefixes [OF assms, of rest] h
    by (simp add: parse_host_service_def parse_vsock_def parse_address_def parse_plain_address_def
        find_char_append)
qed

lemma finish_split: "command \<noteq> [] \<Longrightarrow> finish (serial @ CHR '':'' # command) (Suc (length serial)) = Some (Some (serial, command))"
  by (simp add: finish_def Let_def butlast_append)


lemma vsock_no_prefix:
  "find (\<lambda>p. prefix p ''vsock:'') service_prefixes = None"
  "find (\<lambda>p. prefix p ''tcp:vsock:'') service_prefixes = None"
  "find (\<lambda>p. prefix p ''udp:vsock:'') service_prefixes = None"
  by (simp_all add: service_prefixes_def)

text \<open>The requests without one of the reserved prefixes.\<close>

lemma parse_unprefixed:
  assumes "find (\<lambda>p. prefix p full) service_prefixes = None" and "full \<noteq> []"
  shows "parse_host_service full =
    (if prefix ''tcp:'' full \<or> prefix ''udp:'' full
     then if length full = 4 then Some None else parse_vsock full 4
     else parse_vsock full 0)"
proof -
  have "4 \<le> length full" if "prefix ''tcp:'' full \<or> prefix ''udp:'' full"
    using that by (auto dest: prefix_length_le)
  with assms show ?thesis
    by (cases "prefix ''tcp:'' full \<or> prefix ''udp:'' full") (simp_all add: parse_host_service_def)
qed

lemma parse_host_service_abort:
  "parse_host_service full = None \<longleftrightarrow> full \<in> {''vsock:'', ''tcp:vsock:'', ''udp:vsock:''}"
proof (cases "find (\<lambda>p. prefix p full) service_prefixes")
  case (Some p)
  then have "full \<notin> {''vsock:'', ''tcp:vsock:'', ''udp:vsock:''}"
    using vsock_no_prefix by (metis empty_iff insert_iff option.distinct(1))
  with parse_prefixed_ok [OF Some] show ?thesis by auto
next
  case None
  consider "full = []" | rest where "full = ''tcp:'' @ rest \<or> full = ''udp:'' @ rest"
    | "full \<noteq> []" "\<not> (prefix ''tcp:'' full \<or> prefix ''udp:'' full)"
    by (auto simp: prefix_def)
  then show ?thesis
  proof cases
    case 1
    then show ?thesis by (simp add: parse_host_service_def)
  next
    case (2 rest)
    then have d: "drop 4 full = rest" "length full = 4 + length rest" "full \<noteq> []"
      and pre: "prefix ''tcp:'' full \<or> prefix ''udp:'' full" by (elim disjE; simp)+
    have "parse_host_service full = (if rest = [] then Some None else parse_vsock full 4)"
      using parse_unprefixed [OF None d(3)] pre d(2) by simp
    moreover have "full \<in> {''vsock:'', ''tcp:vsock:'', ''udp:vsock:''} \<longleftrightarrow> rest = ''vsock:''"
      using 2 by (elim disjE; simp)
    ultimately show ?thesis
      using parse_vsock_ok(1) [of 4 full] d by simp
  next
    case 3
    then have "parse_host_service full = parse_vsock full 0"
      using parse_unprefixed [OF None] by simp
    moreover have "full \<notin> {''tcp:vsock:'', ''udp:vsock:''}" using 3(2) by (intro notI) (elim insertE emptyE; simp)
    ultimately show ?thesis
      using parse_vsock_ok(1) [of 0 full] 3 by simp
  qed
qed

lemma parse_host_service_split:
  assumes r: "parse_host_service full = Some (Some (serial, command))"
  shows "full = serial @ '':'' @ command \<and> command \<noteq> []"
proof (cases "find (\<lambda>p. prefix p full) service_prefixes")
  case (Some p)
  with parse_prefixed_ok [OF Some] r show ?thesis by auto
next
  case None
  have "full \<noteq> []" using r by (auto simp: parse_host_service_def)
  then have "0 < length full" by simp
  have "\<exists>k. k < length full \<and> parse_vsock full k = Some (Some (serial, command))"
  proof (cases "prefix ''tcp:'' full \<or> prefix ''udp:'' full")
    case True
    then have "4 \<le> length full" by (auto dest: prefix_length_le)
    then show ?thesis
      using r parse_unprefixed [OF None \<open>full \<noteq> []\<close>] True by (intro exI [of _ 4]) (simp split: if_splits)
  next
    case False
    then show ?thesis
      using r parse_unprefixed [OF None \<open>full \<noteq> []\<close>] \<open>0 < length full\<close> by (intro exI [of _ 0]) simp
  qed
  then show ?thesis using parse_vsock_ok(2) by blast
qed

text \<open>The boundary after the host of a plain request.\<close>

lemma parse_plain_host_at:
  assumes "plain_host host" and "full = host @ '':'' @ rest"
  shows "parse_host_service full = parse_port full (Suc (length host))" and "drop (Suc (length host)) full = rest"
  using assms parse_plain_host [of host rest] by simp_all

lemma finish_at:
  assumes "full = serial @ '':'' @ command" and "command \<noteq> []"
  shows "finish full (Suc (length serial)) = Some (Some (serial, command))"
  using assms finish_split [of command serial] by simp

lemma parse_host_port:
  assumes "plain_host host" and "list_all isdigit port" and "command \<noteq> []"
    and full: "full = host @ '':'' @ port @ '':'' @ command"
  shows "parse_host_service full = Some (Some (host @ '':'' @ port, command))"
proof -
  note p = parse_plain_host_at [OF assms(1) full]
  have "\<not> isdigit (CHR '':'')" by (simp add: isdigit_def)
  then have "CHR '':'' \<notin> set port" using assms(2) by (auto simp: list_all_iff)
  then have n: "find_char (CHR '':'') (port @ '':'' @ command) = Some (length port)"
    using find_char_append [of "CHR '':''" port command] by simp
  have f: "finish full (Suc (length (host @ '':'' @ port))) = Some (Some (host @ '':'' @ port, command))"
    by (rule finish_at) (use full assms in simp_all)
  have "consume full (length port + 1) (Suc (length host)) = Some (Suc (length (host @ '':'' @ port)))"
    using full by simp
  then show ?thesis
    unfolding p(1) parse_port_def Let_def p(2) n using assms(2) f by simp
qed

lemma parse_host_only:
  assumes "plain_host host" and "command \<noteq> []"
    and nport: "\<not> (CHR '':'' \<in> set command \<and> list_all isdigit (takeWhile (\<lambda>c. c \<noteq> CHR '':'') command))"
    and full: "full = host @ '':'' @ command"
  shows "parse_host_service full = Some (Some (host, command))"
proof -
  note p = parse_plain_host_at [OF assms(1) full] and f = finish_at [OF full assms(2)]
  show ?thesis
  proof (cases "CHR '':'' \<in> set command")
    case False
    then have "find_char (CHR '':'') command = None" by (simp add: find_char_def)
    then show ?thesis unfolding p(1) parse_port_def Let_def p(2) f by simp
  next
    case True
    let ?n = "length (takeWhile (\<lambda>c. c \<noteq> CHR '':'') command)"
    have n: "find_char (CHR '':'') command = Some ?n" using True by (simp add: find_char_def)
    have "take ?n command = takeWhile (\<lambda>c. c \<noteq> CHR '':'') command" by (metis takeWhile_eq_take)
    then have "\<not> list_all isdigit (take ?n command)" using nport True by simp
    then show ?thesis unfolding p(1) parse_port_def Let_def p(2) n f using find_char_Some [OF n] by simp
  qed
qed


section \<open>Properties\<close>

text \<open>
  C31: \<open>parse_host_service\<close> splits a request into serial number and command.  Whenever it succeeds, the
  request is the serial, a colon and the non-empty command; a network address with a port keeps the
  port, a host without a port ends at its colon, unless the command itself starts with digits and a
  colon.  The only requests on which it reads outside the string are those that end right after a
  \<open>vsock:\<close> prefix.
\<close>

theorem parse_host_service_spec:
  "(parse_host_service full = None \<longleftrightarrow> full \<in> {''vsock:'', ''tcp:vsock:'', ''udp:vsock:''}) \<and>
   (\<forall>serial command. parse_host_service full = Some (Some (serial, command)) \<longrightarrow>
      full = serial @ '':'' @ command \<and> command \<noteq> []) \<and>
   (\<forall>host port command. plain_host host \<and> list_all isdigit port \<and> command \<noteq> [] \<and>
      full = host @ '':'' @ port @ '':'' @ command \<longrightarrow>
      parse_host_service full = Some (Some (host @ '':'' @ port, command))) \<and>
   (\<forall>host command. plain_host host \<and> command \<noteq> [] \<and> full = host @ '':'' @ command \<and>
      \<not> (CHR '':'' \<in> set command \<and> list_all isdigit (takeWhile (\<lambda>c. c \<noteq> CHR '':'') command)) \<longrightarrow>
      parse_host_service full = Some (Some (host, command)))"
  by (intro conjI allI impI; (elim conjE)?;
      (rule parse_host_service_abort | drule parse_host_service_split, simp; fail | rule parse_host_port; assumption
        | rule parse_host_only; assumption))

theorem parse_host_service_spec_witness:
  "plain_host ''10.0.0.1'' \<and> list_all isdigit ''5555'' \<and>
   parse_host_service ''10.0.0.1:5555:get-state'' = Some (Some (''10.0.0.1:5555'', ''get-state''))"
proof -
  have h: "plain_host ''10.0.0.1''" and d: "list_all isdigit ''5555''"
    by (simp_all add: plain_host_def isdigit_def)
  note spec = parse_host_service_spec [of "''10.0.0.1:5555:get-state''", THEN conjunct2, THEN conjunct2, THEN conjunct1]
  have "parse_host_service ''10.0.0.1:5555:get-state'' = Some (Some (''10.0.0.1'' @ '':'' @ ''5555'', ''get-state''))"
    by (rule spec [rule_format]) (use h d in simp)
  with h d show ?thesis by simp
qed

end
