(* ===== verification/Adb_Shell_Protocol.thy ===== *)
theory Adb_Shell_Protocol
  imports Adb_Io
begin

text \<open>
  The packets of the shell service (\<open>shell_protocol.h\<close>, \<open>shell_service_protocol.cpp\<close>): a byte for the kind,
  four for the length, then the data.  The object has one buffer; a packet that does not fit is
  delivered in several reads.  The results are that no stream can make a read leave the buffer, and
  that what one end writes the other end reads, in pieces of its own size.
\<close>

section \<open>The object\<close>

datatype Id = kIdStdin | kIdStdout | kIdStderr | kIdExit | kIdCloseStdin | kIdWindowSizeChange | kIdInvalid

fun id_code :: "Id \<Rightarrow> nat" where
  "id_code kIdStdin = 0"
| "id_code kIdStdout = 1"
| "id_code kIdStderr = 2"
| "id_code kIdExit = 3"
| "id_code kIdCloseStdin = 4"
| "id_code kIdWindowSizeChange = 5"
| "id_code kIdInvalid = 255"

definition kHeaderSize :: nat where
  "kHeaderSize = 5"

text \<open>\<open>buffer_end_\<close> is an offset into \<open>buffer_\<close>; the descriptor is an argument of the operations.\<close>

record shell_protocol =
  sp_buffer :: bytes
  sp_data_length :: nat
  sp_bytes_left :: nat
  sp_buffer_end :: nat

text \<open>The constructor; \<open>mem\<close> is the uninitialised buffer.\<close>

definition ShellProtocol :: "bytes \<Rightarrow> shell_protocol" where
  "ShellProtocol mem =
     \<lparr>sp_buffer = mem[0 := char_of (id_code kIdInvalid)], sp_data_length = 0, sp_bytes_left = 0, sp_buffer_end = length mem\<rparr>"

definition data_capacity :: "shell_protocol \<Rightarrow> nat" where
  "data_capacity sp = size_sub (sp_buffer_end sp) kHeaderSize"

definition sp_id :: "shell_protocol \<Rightarrow> char" where
  "sp_id sp = sp_buffer sp ! 0"

text \<open>\<open>data()\<close> with \<open>data_length()\<close>: the bytes of the last read.\<close>

definition sp_data :: "shell_protocol \<Rightarrow> bytes" where
  "sp_data sp = take (sp_data_length sp) (drop kHeaderSize (sp_buffer sp))"

section \<open>Reading and writing\<close>

text \<open>The header of the next packet, unless one is still being delivered.\<close>

definition read_header :: "shell_protocol \<Rightarrow> istream \<Rightarrow> ((errno + shell_protocol) \<times> istream) option" where
  "read_header sp es =
     (if sp_bytes_left sp = 0 then
        (case ReadFdExactly kHeaderSize es of
           (Inl e, es1) \<Rightarrow> Some (Inl e, es1)
         | (Inr h, es1) \<Rightarrow> do {
             buf \<leftarrow> memcpy (sp_buffer sp) 0 h 0 kHeaderSize;
             let packet_length = get_le32 (drop 1 buf);
             Some (Inr (sp\<lparr>sp_buffer := buf, sp_bytes_left := unat packet_length, sp_data_length := 0\<rparr>), es1)
           })
      else Some (Inr sp, es))"

text \<open>\<open>Read\<close>; \<open>Inl\<close> is the result \<open>false\<close>, after which the object is not used again.\<close>

definition Read :: "shell_protocol \<Rightarrow> istream \<Rightarrow> ((errno + shell_protocol) \<times> istream) option" where
  "Read sp es = do {
     (r, es1) \<leftarrow> read_header sp es;
     (case r of
        Inl e \<Rightarrow> Some (Inl e, es1)
      | Inr sp1 \<Rightarrow>
          let read_length = min (sp_bytes_left sp1) (data_capacity sp1)
          in if read_length = 0 then Some (Inr (sp1\<lparr>sp_data_length := 0\<rparr>), es1)
             else (case ReadFdExactly read_length es1 of
                     (Inl e, es2) \<Rightarrow> Some (Inl e, es2)
                   | (Inr d, es2) \<Rightarrow> do {
                       buf \<leftarrow> memcpy (sp_buffer sp1) kHeaderSize d 0 read_length;
                       Some (Inr (sp1\<lparr>sp_buffer := buf, sp_bytes_left := sp_bytes_left sp1 - read_length,
                                   sp_data_length := read_length\<rparr>), es2)
                     }))
   }"

text \<open>The caller puts the data into the buffer, then calls \<open>Write\<close>.\<close>

definition fill_data :: "bytes \<Rightarrow> shell_protocol \<Rightarrow> shell_protocol option" where
  "fill_data d sp = do {
     buf \<leftarrow> memcpy (sp_buffer sp) kHeaderSize d 0 (length d);
     Some (sp\<lparr>sp_buffer := buf\<rparr>)
   }"

definition Write :: "Id \<Rightarrow> nat \<Rightarrow> shell_protocol \<Rightarrow> ostream \<Rightarrow> (bool \<times> shell_protocol \<times> ostream) option" where
  "Write ident len sp os = do {
     b1 \<leftarrow> memcpy (sp_buffer sp) 0 [char_of (id_code ident)] 0 1;
     b2 \<leftarrow> memcpy b1 1 (le32 (of_nat len)) 0 4;
     CHECK (kHeaderSize + len \<le> length b2);
     let (r, os1) = WriteFdExactly (take (kHeaderSize + len) b2) os;
     Some (r = None, sp\<lparr>sp_buffer := b2\<rparr>, os1)
   }"

section \<open>Bounds\<close>

definition sp_wf :: "shell_protocol \<Rightarrow> bool" where
  "sp_wf sp \<longleftrightarrow> kHeaderSize < sp_buffer_end sp \<and> sp_buffer_end sp \<le> length (sp_buffer sp) \<and>
     sp_data_length sp \<le> data_capacity sp \<and> sp_bytes_left sp < 2 ^ 32"

lemma data_capacity_wf: "sp_wf sp \<Longrightarrow> data_capacity sp = sp_buffer_end sp - 5 \<and> 0 < data_capacity sp"
  by (simp add: sp_wf_def data_capacity_def kHeaderSize_def)

lemma data_capacity_cong [simp]: "data_capacity (sp\<lparr>sp_buffer := b\<rparr>) = data_capacity sp"
    "data_capacity (sp\<lparr>sp_bytes_left := n\<rparr>) = data_capacity sp" "data_capacity (sp\<lparr>sp_data_length := n\<rparr>) = data_capacity sp"
  by (simp_all add: data_capacity_def)

lemma sp_wf_buffer: "sp_wf sp \<Longrightarrow> length b = length (sp_buffer sp) \<Longrightarrow> sp_wf (sp\<lparr>sp_buffer := b\<rparr>)"
  by (simp add: sp_wf_def)

lemma read_header_ok:
  assumes wf: "sp_wf sp"
  obtains e es1 where "read_header sp es = Some (Inl e, es1)"
    | sp1 es1 where "read_header sp es = Some (Inr sp1, es1)" "sp_wf sp1" "sp_buffer_end sp1 = sp_buffer_end sp"
      "length (sp_buffer sp1) = length (sp_buffer sp)"
proof (cases "sp_bytes_left sp = 0")
  case False
  with wf that(2) [of sp es] show ?thesis by (simp add: read_header_def)
next
  case True
  show ?thesis
  proof (cases "ReadFdExactly kHeaderSize es")
    case (Pair r es1)
    show ?thesis
    proof (cases r)
      case (Inl e)
      with that(1) True Pair show ?thesis by (simp add: read_header_def)
    next
      case (Inr h)
      with Pair have h: "length h = 5" using ReadFdExactly_length [of kHeaderSize es h es1] by (simp add: kHeaderSize_def)
      have len: "5 \<le> length (sp_buffer sp)" using wf by (simp add: sp_wf_def kHeaderSize_def)
      let ?b = "h @ drop 5 (sp_buffer sp)"
      let ?sp = "sp\<lparr>sp_buffer := ?b, sp_bytes_left := unat (get_le32 (drop 1 ?b)), sp_data_length := 0\<rparr>"
      have "unat (get_le32 (drop 1 ?b)) < 2 ^ 32" using unsigned_less [of "get_le32 (drop 1 ?b)"] by simp
      then have "sp_wf ?sp" using wf h len by (simp add: sp_wf_def kHeaderSize_def)
      with that(2) [of ?sp es1] True Pair Inr h len show ?thesis by (simp add: read_header_def kHeaderSize_def)
    qed
  qed
qed

lemma Read_ok:
  assumes wf: "sp_wf sp"
  obtains e es1 where "Read sp es = Some (Inl e, es1)"
    | sp1 es1 where "Read sp es = Some (Inr sp1, es1)" "sp_wf sp1" "sp_buffer_end sp1 = sp_buffer_end sp"
      "length (sp_buffer sp1) = length (sp_buffer sp)"
proof (rule read_header_ok [OF wf, of es])
  fix e es1 assume "read_header sp es = Some (Inl e, es1)"
  with that(1) show ?thesis by (simp add: Read_def)
next
  fix sp1 es1 assume h: "read_header sp es = Some (Inr sp1, es1)" "sp_wf sp1" "sp_buffer_end sp1 = sp_buffer_end sp"
    "length (sp_buffer sp1) = length (sp_buffer sp)"
  define n where "n = min (sp_bytes_left sp1) (data_capacity sp1)"
  show ?thesis
  proof (cases "n = 0")
    case True
    have "sp_wf (sp1\<lparr>sp_data_length := 0\<rparr>)" using h(2) by (simp add: sp_wf_def)
    with that(2) [of "sp1\<lparr>sp_data_length := 0\<rparr>" es1] h True show ?thesis by (simp add: Read_def Let_def n_def)
  next
    case False
    obtain r es2 where r: "ReadFdExactly n es1 = (r, es2)" by fastforce
    show ?thesis
    proof (cases r)
      case (Inl e)
      with that(1) h(1) False r show ?thesis by (simp add: Read_def Let_def n_def)
    next
      case (Inr d)
      with r have d: "length d = n" using ReadFdExactly_length by simp
      have cap: "n \<le> data_capacity sp1" "data_capacity sp1 = sp_buffer_end sp1 - 5" "sp_buffer_end sp1 \<le> length (sp_buffer sp1)" "5 < sp_buffer_end sp1"
        using data_capacity_wf [OF h(2)] h(2) by (simp_all add: n_def sp_wf_def kHeaderSize_def)
      let ?b = "take 5 (sp_buffer sp1) @ d @ drop (5 + n) (sp_buffer sp1)"
      let ?sp = "sp1\<lparr>sp_buffer := ?b, sp_bytes_left := sp_bytes_left sp1 - n, sp_data_length := n\<rparr>"
      have len: "length ?b = length (sp_buffer sp1)" using d cap by simp
      have "memcpy (sp_buffer sp1) kHeaderSize d 0 n = Some ?b" using d cap by (simp add: kHeaderSize_def)
      then have run: "Read sp es = Some (Inr ?sp, es2)" using h(1) False r Inr by (simp add: Read_def Let_def n_def [symmetric])
      have "sp_wf ?sp" using h(2) len cap(1) by (simp add: sp_wf_def less_imp_diff_less)
      with that(2) [OF run] h(3,4) len show ?thesis by simp
    qed
  qed
qed

section \<open>The wire\<close>

definition shell_wire :: "Id \<times> bytes \<Rightarrow> bytes" where
  "shell_wire p = char_of (id_code (fst p)) # le32 (of_nat (length (snd p))) @ snd p"

text \<open>The pieces in which a buffer of \<open>c\<close> bytes receives the data of a packet.\<close>

function pieces :: "nat \<Rightarrow> bytes \<Rightarrow> bytes list" where
  "pieces c d = (if c = 0 \<or> length d \<le> c then [d] else take c d # pieces c (drop c d))"
  by pat_completeness auto
termination
  by (relation "measure (\<lambda>(c, d). length d)") auto

declare pieces.simps [simp del]

text \<open>Sending packets one after the other, and receiving a number of reads.\<close>

fun send_all :: "(Id \<times> bytes) list \<Rightarrow> shell_protocol \<Rightarrow> ostream \<Rightarrow> (bool \<times> ostream) option" where
  "send_all [] sp os = Some (True, os)"
| "send_all ((i, d) # ps) sp os = do {
     sp1 \<leftarrow> fill_data d sp;
     (ok, sp2, os1) \<leftarrow> Write i (length d) sp1 os;
     if ok then send_all ps sp2 os1 else Some (False, os1)
   }"

fun receive :: "nat \<Rightarrow> shell_protocol \<Rightarrow> istream \<Rightarrow> ((char \<times> bytes) list \<times> shell_protocol \<times> istream) option" where
  "receive 0 sp es = Some ([], sp, es)"
| "receive (Suc n) sp es = do {
     (r, es1) \<leftarrow> Read sp es;
     (case r of
        Inl _ \<Rightarrow> None
      | Inr sp1 \<Rightarrow> do {
          (rs, sp2, es2) \<leftarrow> receive n sp1 es1;
          Some ((sp_id sp1, sp_data sp1) # rs, sp2, es2)
        })
   }"

lemma fill_Write_ok:
  assumes "sp_wf sp" and "length d \<le> data_capacity sp" and "benign os"
  shows "\<exists>sp1 sp2 os1. fill_data d sp = Some sp1 \<and> Write i (length d) sp1 os = Some (True, sp2, os1) \<and>
    sp_wf sp2 \<and> data_capacity sp2 = data_capacity sp \<and> benign os1 \<and> os_log os1 = os_log os @ shell_wire (i, d)"
proof -
  have cap: "5 + length d \<le> length (sp_buffer sp)" using assms(1,2) data_capacity_wf [OF assms(1)] by (auto simp: sp_wf_def kHeaderSize_def)
  let ?b0 = "take 5 (sp_buffer sp) @ d @ drop (5 + length d) (sp_buffer sp)"
  let ?b1 = "char_of (id_code i) # drop 1 ?b0"
  let ?b2 = "take 1 ?b1 @ le32 (of_nat (length d)) @ drop 5 ?b1"
  have len: "length ?b0 = length (sp_buffer sp)" "length ?b1 = length (sp_buffer sp)" "length ?b2 = length (sp_buffer sp)"
    using cap by simp_all
  have fill: "fill_data d sp = Some (sp\<lparr>sp_buffer := ?b0\<rparr>)" using cap by (simp add: fill_data_def kHeaderSize_def)
  have wire: "take (5 + length d) ?b2 = shell_wire (i, d)" using cap by (simp add: shell_wire_def take_Cons')
  obtain os1 where os1: "WriteFdExactly (shell_wire (i, d)) os = (None, os1)" "set (os_script os1) \<subseteq> set (os_script os)"
    using WriteFdExactly_succeeds assms(3) unfolding benign_def by blast
  have m1: "memcpy ?b0 0 [char_of (id_code i)] 0 1 = Some ?b1" using cap by (simp add: len)
  have m2: "memcpy ?b1 1 (le32 (of_nat (length d))) 0 4 = Some ?b2" using cap by (simp add: len)
  have "Write i (length d) (sp\<lparr>sp_buffer := ?b0\<rparr>) os = Some (True, sp\<lparr>sp_buffer := ?b2\<rparr>, os1)"
    unfolding Write_def using os1(1) m1 m2 cap len(3) wire by (simp add: kHeaderSize_def)
  moreover have "sp_wf (sp\<lparr>sp_buffer := ?b2\<rparr>)" by (rule sp_wf_buffer [OF assms(1) len(3)])
  moreover have "benign os1" using assms(3) os1(2) unfolding benign_def by blast
  ultimately show ?thesis using fill WriteFdExactly_log [OF os1(1)] by simp
qed

lemma send_all_ok:
  assumes "sp_wf sp" and "\<forall>p \<in> set ps. length (snd p) \<le> data_capacity sp" and "benign os"
  shows "\<exists>os1. send_all ps sp os = Some (True, os1) \<and> os_log os1 = os_log os @ concat (map shell_wire ps)"
  using assms
proof (induction ps arbitrary: sp os)
  case (Cons p ps)
  obtain i d where p: "p = (i, d)" by force
  obtain sp1 sp2 os1 where s: "fill_data d sp = Some sp1" "Write i (length d) sp1 os = Some (True, sp2, os1)"
    "sp_wf sp2" "data_capacity sp2 = data_capacity sp" "benign os1" "os_log os1 = os_log os @ shell_wire (i, d)"
    using fill_Write_ok [of sp d os i] Cons.prems p by auto
  from Cons.IH [OF s(3) _ s(5)] Cons.prems(2) s(4) obtain os2 where
    "send_all ps sp2 os1 = Some (True, os2)" "os_log os2 = os_log os1 @ concat (map shell_wire ps)" by auto
  with s p show ?case by simp
qed simp

lemma Read_middle:
  assumes wf: "sp_wf sp" and d: "sp_bytes_left sp = length d" "d \<noteq> []"
    and es: "chunks_ok es" "stream_bytes es = d @ rest"
  obtains sp' es' where "Read sp es = Some (Inr sp', es')" and "sp_wf sp'" and "data_capacity sp' = data_capacity sp"
    and "sp_id sp' = sp_id sp" and "sp_data sp' = take (data_capacity sp) d"
    and "sp_bytes_left sp' = length (drop (data_capacity sp) d)"
    and "chunks_ok es'" and "stream_bytes es' = drop (data_capacity sp) d @ rest"
proof -
  define n where "n = min (sp_bytes_left sp) (data_capacity sp)"
  have n: "0 < n" "n \<le> length d" "n = min (length d) (data_capacity sp)" using d data_capacity_wf [OF wf] by (auto simp: n_def)
  obtain es' where es': "ReadFdExactly n es = (Inr (take n d), es')" "chunks_ok es'" "stream_bytes es' = drop n d @ rest"
    using ReadFdExactly_ok [OF es(1), of n] es(2) n(2) by auto
  have cap: "data_capacity sp = sp_buffer_end sp - 5" "sp_buffer_end sp \<le> length (sp_buffer sp)" "5 < sp_buffer_end sp"
    using data_capacity_wf [OF wf] wf by (simp_all add: sp_wf_def kHeaderSize_def)
  have fit: "5 + n \<le> length (sp_buffer sp)" using n(3) cap by auto
  let ?b = "take 5 (sp_buffer sp) @ take n d @ drop (5 + n) (sp_buffer sp)"
  let ?sp = "sp\<lparr>sp_buffer := ?b, sp_bytes_left := sp_bytes_left sp - n, sp_data_length := n\<rparr>"
  have "memcpy (sp_buffer sp) kHeaderSize (take n d) 0 n = Some ?b" using fit n(2) by (simp add: kHeaderSize_def)
  then have run: "Read sp es = Some (Inr ?sp, es')"
    using es'(1) d n(1) by (simp add: Read_def read_header_def Let_def n(3) [symmetric])
  have len: "length ?b = length (sp_buffer sp)" using fit n(2) by simp
  have wf': "sp_wf ?sp" using wf len n(3) by (auto simp: sp_wf_def)
  have "sp_id ?sp = sp_id sp" using fit by (simp add: sp_id_def nth_append)
  moreover have "sp_data ?sp = take (data_capacity sp) d" using fit n by (simp add: sp_data_def kHeaderSize_def min_def)
  moreover have "drop n d = drop (data_capacity sp) d" using n(3) by (simp add: min_def)
  ultimately show ?thesis using that [OF run wf'] es'(2,3) d(1) n by (simp add: min_def)
qed

lemma Read_start:
  assumes wf: "sp_wf sp" and left: "sp_bytes_left sp = 0" and d: "length d < 2 ^ 32"
    and es: "chunks_ok es" "stream_bytes es = shell_wire (i, d) @ rest"
  obtains sp' es' where "Read sp es = Some (Inr sp', es')" and "sp_wf sp'" and "data_capacity sp' = data_capacity sp"
    and "sp_id sp' = char_of (id_code i)" and "sp_data sp' = take (data_capacity sp) d"
    and "sp_bytes_left sp' = length (drop (data_capacity sp) d)"
    and "chunks_ok es'" and "stream_bytes es' = drop (data_capacity sp) d @ rest"
proof -
  let ?h = "char_of (id_code i) # le32 (of_nat (length d))"
  obtain es1 where es1: "ReadFdExactly 5 es = (Inr ?h, es1)" "chunks_ok es1" "stream_bytes es1 = d @ rest"
    using ReadFdExactly_ok [OF es(1), of 5] es(2) by (auto simp: shell_wire_def)
  have len: "5 < length (sp_buffer sp)" using wf by (simp add: sp_wf_def kHeaderSize_def)
  let ?b = "?h @ drop 5 (sp_buffer sp)"
  have m: "memcpy (sp_buffer sp) 0 ?h 0 5 = Some ?b" using len by simp
  have val: "unat (get_le32 (drop 1 ?b)) = length d" using d by (simp add: unat_of_nat)
  define sp1 where "sp1 = sp\<lparr>sp_buffer := ?b, sp_bytes_left := length d, sp_data_length := 0\<rparr>"
  have h: "read_header sp es = Some (Inr sp1, es1)"
    using left es1(1) m val by (simp add: read_header_def kHeaderSize_def sp1_def Let_def)
  have wf1: "sp_wf sp1" using wf len d by (auto simp: sp_wf_def sp1_def)
  have cap: "data_capacity sp1 = data_capacity sp" "sp_bytes_left sp1 = length d" "sp_id sp1 = char_of (id_code i)"
    by (simp_all add: sp1_def sp_id_def)
  show ?thesis
  proof (cases "d = []")
    case True
    have "Read sp es = Some (Inr (sp1\<lparr>sp_data_length := 0\<rparr>), es1)" using h cap(2) True by (simp add: Read_def Let_def)
    then show ?thesis
      by (rule that) (use wf1 cap es1 True in \<open>simp_all add: sp_wf_def sp_data_def sp_id_def\<close>)
  next
    case False
    obtain sp' es' where r: "Read sp1 es1 = Some (Inr sp', es')" "sp_wf sp'" "data_capacity sp' = data_capacity sp1"
      "sp_id sp' = sp_id sp1" "sp_data sp' = take (data_capacity sp1) d"
      "sp_bytes_left sp' = length (drop (data_capacity sp1) d)" "chunks_ok es'" "stream_bytes es' = drop (data_capacity sp1) d @ rest"
      by (rule Read_middle [OF wf1 cap(2) False es1(2,3)])
    have "Read sp es = Read sp1 es1" using h cap(2) False by (simp add: Read_def read_header_def [of sp1])
    with that r cap show ?thesis by simp
  qed
qed

lemma receive_append:
  "receive (m + n) sp es = do { (rs, sp1, es1) \<leftarrow> receive m sp es; (rs', sp2, es2) \<leftarrow> receive n sp1 es1; Some (rs @ rs', sp2, es2) }"
  by (induction m arbitrary: sp es) (auto split: bind_splits sum.splits prod.splits)

lemma receive_rest:
  assumes "sp_wf sp" and "sp_bytes_left sp = length d" and "d \<noteq> []" and "chunks_ok es" and "stream_bytes es = d @ rest"
  shows "\<exists>sp' es'. receive (length (pieces (data_capacity sp) d)) sp es =
      Some (map (Pair (sp_id sp)) (pieces (data_capacity sp) d), sp', es') \<and>
    sp_wf sp' \<and> data_capacity sp' = data_capacity sp \<and> sp_bytes_left sp' = 0 \<and> chunks_ok es' \<and> stream_bytes es' = rest"
  using assms
proof (induction "data_capacity sp" d arbitrary: sp es rule: pieces.induct)
  case (1 d)
  obtain sp1 es1 where r: "Read sp es = Some (Inr sp1, es1)" "sp_wf sp1" "data_capacity sp1 = data_capacity sp"
    "sp_id sp1 = sp_id sp" "sp_data sp1 = take (data_capacity sp) d"
    "sp_bytes_left sp1 = length (drop (data_capacity sp) d)" "chunks_ok es1" "stream_bytes es1 = drop (data_capacity sp) d @ rest"
    by (rule Read_middle [OF 1(2-6)])
  have pos: "0 < data_capacity sp" using data_capacity_wf [OF 1(2)] by blast
  show ?case
  proof (cases "length d \<le> data_capacity sp")
    case True
    then have "pieces (data_capacity sp) d = [d]" by (simp add: pieces.simps)
    with r True show ?thesis by simp
  next
    case False
    then have p: "pieces (data_capacity sp) d = take (data_capacity sp) d # pieces (data_capacity sp) (drop (data_capacity sp) d)"
      using pos by (subst pieces.simps) simp
    have "\<not> (data_capacity sp = 0 \<or> length d \<le> data_capacity sp)" using pos False by simp
    from 1(1) [OF this r(3) [symmetric] r(2,6) _ r(7,8)] False obtain sp' es' where
      "receive (length (pieces (data_capacity sp) (drop (data_capacity sp) d))) sp1 es1 =
        Some (map (Pair (sp_id sp)) (pieces (data_capacity sp) (drop (data_capacity sp) d)), sp', es')"
      "sp_wf sp'" "data_capacity sp' = data_capacity sp" "sp_bytes_left sp' = 0" "chunks_ok es'" "stream_bytes es' = rest"
      by (auto simp: r(3,4))
    with r p show ?thesis by simp
  qed
qed

lemma receive_packet:
  assumes "sp_wf sp" and "sp_bytes_left sp = 0" and "length d < 2 ^ 32" and "chunks_ok es" and "stream_bytes es = shell_wire (i, d) @ rest"
  shows "\<exists>sp' es'. receive (length (pieces (data_capacity sp) d)) sp es =
      Some (map (Pair (char_of (id_code i))) (pieces (data_capacity sp) d), sp', es') \<and>
    sp_wf sp' \<and> data_capacity sp' = data_capacity sp \<and> sp_bytes_left sp' = 0 \<and> chunks_ok es' \<and> stream_bytes es' = rest"
proof -
  obtain sp1 es1 where r: "Read sp es = Some (Inr sp1, es1)" "sp_wf sp1" "data_capacity sp1 = data_capacity sp"
    "sp_id sp1 = char_of (id_code i)" "sp_data sp1 = take (data_capacity sp) d"
    "sp_bytes_left sp1 = length (drop (data_capacity sp) d)" "chunks_ok es1" "stream_bytes es1 = drop (data_capacity sp) d @ rest"
    by (rule Read_start [OF assms])
  have pos: "0 < data_capacity sp" using data_capacity_wf [OF assms(1)] by blast
  show ?thesis
  proof (cases "length d \<le> data_capacity sp")
    case True
    then have "pieces (data_capacity sp) d = [d]" by (simp add: pieces.simps)
    with r True show ?thesis by simp
  next
    case False
    then have p: "pieces (data_capacity sp) d = take (data_capacity sp) d # pieces (data_capacity sp) (drop (data_capacity sp) d)"
      using pos by (subst pieces.simps) simp
    from False have "drop (data_capacity sp) d \<noteq> []" by simp
    from receive_rest [OF r(2,6) this r(7,8)] r p show ?thesis by auto
  qed
qed

fun delivered :: "nat \<Rightarrow> (Id \<times> bytes) list \<Rightarrow> (char \<times> bytes) list" where
  "delivered c [] = []"
| "delivered c ((i, d) # ps) = map (Pair (char_of (id_code i))) (pieces c d) @ delivered c ps"

lemma receive_packets:
  assumes "sp_wf sp" and "sp_bytes_left sp = 0" and "\<forall>p \<in> set ps. length (snd p) < 2 ^ 32"
    and "chunks_ok es" and "stream_bytes es = concat (map shell_wire ps) @ rest"
  shows "\<exists>sp' es'. receive (length (delivered (data_capacity sp) ps)) sp es = Some (delivered (data_capacity sp) ps, sp', es') \<and>
    sp_wf sp' \<and> sp_bytes_left sp' = 0 \<and> stream_bytes es' = rest"
  using assms
proof (induction ps arbitrary: sp es)
  case (Cons p ps)
  obtain i d where p: "p = (i, d)" by force
  have "length d < 2 ^ 32" "stream_bytes es = shell_wire (i, d) @ concat (map shell_wire ps) @ rest" using Cons.prems p by auto
  from receive_packet [OF Cons.prems(1,2) this(1) Cons.prems(4) this(2)] obtain sp1 es1 where r:
    "receive (length (pieces (data_capacity sp) d)) sp es = Some (map (Pair (char_of (id_code i))) (pieces (data_capacity sp) d), sp1, es1)"
    "sp_wf sp1" "data_capacity sp1 = data_capacity sp" "sp_bytes_left sp1 = 0" "chunks_ok es1"
    "stream_bytes es1 = concat (map shell_wire ps) @ rest" by blast
  from Cons.IH [OF r(2,4) _ r(5,6)] Cons.prems(3) r(3) obtain sp2 es2 where
    "receive (length (delivered (data_capacity sp) ps)) sp1 es1 = Some (delivered (data_capacity sp) ps, sp2, es2)"
    "sp_wf sp2" "sp_bytes_left sp2 = 0" "stream_bytes es2 = rest" by auto
  with r show ?case by (simp add: p receive_append)
qed simp

lemma pieces_concat: "concat (pieces c d) = d"
  by (induction c d rule: pieces.induct) (subst pieces.simps, auto)

lemma pieces_bound: "0 < c \<Longrightarrow> \<forall>x \<in> set (pieces c d). length x \<le> c"
  by (induction c d rule: pieces.induct) (subst pieces.simps, auto)

text \<open>
  C18: packets that one end of a shell connection writes are received by the other end, whatever
  the sizes of the two buffers and however the connection cuts the bytes: the sender's writes all
  succeed, and the reader returns, in order and with the packet's kind, pieces that fit its buffer
  and together are the data of each packet.
\<close>

theorem shell_roundtrip:
  assumes "sp_wf s" and "\<forall>p \<in> set ps. length (snd p) \<le> data_capacity s \<and> length (snd p) < 2 ^ 32" and "benign os"
    and "sp_wf r" and "sp_bytes_left r = 0"
  shows "\<exists>os' frames. send_all ps s os = Some (True, os') \<and> os_log os' = os_log os @ frames \<and>
    (\<forall>es rest. chunks_ok es \<and> stream_bytes es = frames @ rest \<longrightarrow>
      (\<exists>pss r' es'. list_all2 (\<lambda>(i, d) xs. concat xs = d \<and> xs \<noteq> [] \<and> (\<forall>x \<in> set xs. length x \<le> data_capacity r)) ps pss \<and>
         receive (length (concat pss)) r es =
           Some (concat (map2 (\<lambda>(i, d) xs. map (Pair (char_of (id_code i))) xs) ps pss), r', es') \<and>
         sp_wf r' \<and> sp_bytes_left r' = 0 \<and> stream_bytes es' = rest))"
proof -
  obtain os' where os': "send_all ps s os = Some (True, os')" "os_log os' = os_log os @ concat (map shell_wire ps)"
    using send_all_ok [of s ps os] assms by blast
  let ?c = "data_capacity r"
  let ?pss = "map (\<lambda>p. pieces ?c (snd p)) ps"
  have c: "0 < ?c" using data_capacity_wf [OF assms(4)] by blast
  have ne: "pieces ?c d \<noteq> []" for d by (subst pieces.simps) simp
  have l2: "list_all2 (\<lambda>(i, d) xs. concat xs = d \<and> xs \<noteq> [] \<and> (\<forall>x \<in> set xs. length x \<le> ?c)) ps ?pss"
    using pieces_bound [OF c] ne by (induction ps) (auto simp: pieces_concat)
  have dl: "concat (map2 (\<lambda>(i, d) xs. map (Pair (char_of (id_code i))) xs) ps ?pss) = delivered ?c ps"
    by (induction ps) auto
  have len: "length (concat ?pss) = length (delivered ?c ps)" by (induction ps) auto
  have "\<exists>r' es'. receive (length (concat ?pss)) r es = Some (delivered ?c ps, r', es') \<and> sp_wf r' \<and> sp_bytes_left r' = 0 \<and> stream_bytes es' = rest"
    if "chunks_ok es \<and> stream_bytes es = concat (map shell_wire ps) @ rest" for es rest
    using receive_packets [OF assms(4,5), of ps es rest] that assms(2) by (simp add: len)
  then have "\<exists>pss r' es'. list_all2 (\<lambda>(i, d) xs. concat xs = d \<and> xs \<noteq> [] \<and> (\<forall>x \<in> set xs. length x \<le> ?c)) ps pss \<and>
         receive (length (concat pss)) r es =
           Some (concat (map2 (\<lambda>(i, d) xs. map (Pair (char_of (id_code i))) xs) ps pss), r', es') \<and>
         sp_wf r' \<and> sp_bytes_left r' = 0 \<and> stream_bytes es' = rest"
    if "chunks_ok es \<and> stream_bytes es = concat (map shell_wire ps) @ rest" for es rest
    using that l2 unfolding dl [symmetric] by blast
  with os' show ?thesis by blast
qed

text \<open>Two writers and readers with small buffers.\<close>

abbreviation small_protocol :: shell_protocol where
  "small_protocol \<equiv> ShellProtocol (replicate 7 CHR 0x00)"

lemma ShellProtocol_wf: "kHeaderSize < length mem \<Longrightarrow> sp_wf (ShellProtocol mem)"
  by (simp add: sp_wf_def ShellProtocol_def data_capacity_def kHeaderSize_def)

theorem shell_roundtrip_witness:
  "\<exists>os'. send_all [(kIdStdout, ''abcd''), (kIdExit, ''x'')] (ShellProtocol (replicate 9 CHR 0x00)) \<lparr>os_script = [Accept 3, WFault EAGAIN], os_log = []\<rparr>
     = Some (True, os') \<and> 
   (\<exists>pss r' es'. map concat pss = [''abcd'', ''x''] \<and>
     receive (length (concat pss)) small_protocol [Got (os_log os'), Got ''rest''] =
       Some (map (Pair (char_of (id_code kIdStdout))) (pss ! 0) @ map (Pair (char_of (id_code kIdExit))) (pss ! 1), r', es') \<and> stream_bytes es' = ''rest'')"
proof -
  let ?os = "\<lparr>os_script = [Accept 3, WFault EAGAIN], os_log = []\<rparr>"
  let ?s = "ShellProtocol (replicate 9 CHR 0x00)"
  have wf: "sp_wf ?s" "sp_wf small_protocol" "sp_bytes_left small_protocol = 0"
    by (simp_all add: ShellProtocol_wf kHeaderSize_def) (simp add: ShellProtocol_def)
  have cap: "data_capacity ?s = 4" by (simp add: ShellProtocol_def data_capacity_def kHeaderSize_def)
  obtain os' frames where s: "send_all [(kIdStdout, ''abcd''), (kIdExit, ''x'')] ?s ?os = Some (True, os')" "os_log os' = frames"
    and rd: "\<And>es rest. chunks_ok es \<and> stream_bytes es = frames @ rest \<Longrightarrow>
      \<exists>pss r' es'. list_all2 (\<lambda>(i, d) xs. concat xs = d \<and> xs \<noteq> [] \<and> (\<forall>x \<in> set xs. length x \<le> data_capacity small_protocol))
            [(kIdStdout, ''abcd''), (kIdExit, ''x'')] pss \<and>
         receive (length (concat pss)) small_protocol es =
           Some (concat (map2 (\<lambda>(i, d) xs. map (Pair (char_of (id_code i))) xs) [(kIdStdout, ''abcd''), (kIdExit, ''x'')] pss), r', es') \<and>
         sp_wf r' \<and> sp_bytes_left r' = 0 \<and> stream_bytes es' = rest"
    using shell_roundtrip [OF wf(1) _ _ wf(2,3), of "[(kIdStdout, ''abcd''), (kIdExit, ''x'')]" ?os] cap by (auto simp: benign_def)
  have "\<exists>os'. send_all [(kIdStdout, ''abcd''), (kIdExit, ''x'')] ?s ?os = Some (True, os') \<and> os_log os' \<noteq> []"
    using send_all_ok [OF wf(1), of "[(kIdStdout, ''abcd''), (kIdExit, ''x'')]" ?os] cap by (auto simp: benign_def shell_wire_def)
  then have "frames \<noteq> []" using s by auto
  then obtain pss r' es' where l2: "list_all2 (\<lambda>(i, d) xs. concat xs = d \<and> xs \<noteq> [] \<and> (\<forall>x \<in> set xs. length x \<le> data_capacity small_protocol))
            [(kIdStdout, ''abcd''), (kIdExit, ''x'')] pss"
    "receive (length (concat pss)) small_protocol [Got (os_log os'), Got ''rest''] =
           Some (concat (map2 (\<lambda>(i, d) xs. map (Pair (char_of (id_code i))) xs) [(kIdStdout, ''abcd''), (kIdExit, ''x'')] pss), r', es')"
    "stream_bytes es' = ''rest''"
    using rd [of "[Got (os_log os'), Got ''rest'']" "''rest''"] s(2) by (auto simp del: receive.simps)
  from l2(1) obtain a b where "pss = [a, b]" "concat a = ''abcd''" "concat b = ''x''" by (auto simp: list_all2_Cons1)
  with l2(2) have "map concat pss = [''abcd'', ''x''] \<and> receive (length (concat pss)) small_protocol [Got (os_log os'), Got ''rest''] =
       Some (map (Pair (char_of (id_code kIdStdout))) (pss ! 0) @ map (Pair (char_of (id_code kIdExit))) (pss ! 1), r', es')"
    by (simp del: receive.simps)
  with l2(3) s(1) show ?thesis by (auto simp del: receive.simps send_all.simps id_code.simps intro!: exI [of _ pss])
qed

text \<open>Reads until one fails.\<close>

fun reads :: "nat \<Rightarrow> shell_protocol \<Rightarrow> istream \<Rightarrow> ((char \<times> bytes) list \<times> shell_protocol) option" where
  "reads 0 sp es = Some ([], sp)"
| "reads (Suc n) sp es = do {
     (r, es1) \<leftarrow> Read sp es;
     (case r of
        Inl _ \<Rightarrow> Some ([], sp)
      | Inr sp1 \<Rightarrow> do {
          (rs, sp2) \<leftarrow> reads n sp1 es1;
          Some ((sp_id sp1, sp_data sp1) # rs, sp2)
        })
   }"

lemma reads_wf:
  assumes "sp_wf sp"
  shows "\<exists>rs sp'. reads n sp es = Some (rs, sp') \<and> sp_wf sp' \<and> length (sp_buffer sp') = length (sp_buffer sp) \<and>
    sp_buffer_end sp' = sp_buffer_end sp \<and> list_all (\<lambda>(i, d). length d \<le> data_capacity sp) rs"
  using assms
proof (induction n arbitrary: sp es)
  case (Suc n)
  from Read_ok [OF Suc.prems, of es] show ?case
  proof cases
    case (1 e es1)
    with Suc.prems show ?thesis by simp
  next
    case (2 sp1 es1)
    from Suc.IH [OF 2(2), of es1] 2 show ?thesis by (auto simp: data_capacity_def sp_data_def sp_wf_def)
  qed
qed simp

text \<open>
  C28: whatever bytes arrive, in whatever pieces and with whatever faults, any number of reads into
  a fresh object returns without leaving the buffer: the buffer keeps its size, the lengths announced
  by the headers never make a read deliver more than the capacity, and the object stays well formed.
\<close>

theorem shell_read_bounds:
  assumes "kHeaderSize < length mem"
  shows "\<exists>rs sp. reads n (ShellProtocol mem) es = Some (rs, sp) \<and> sp_wf sp \<and> length (sp_buffer sp) = length mem \<and>
    list_all (\<lambda>(i, d). length d \<le> length mem - kHeaderSize) rs"
  using reads_wf [OF ShellProtocol_wf [OF assms], of n es] assms
  by (auto simp: ShellProtocol_def data_capacity_def)

theorem shell_read_bounds_witness:
  "\<exists>rs sp. reads 3 small_protocol [Got [CHR 0x01, CHR 0xff, CHR 0xff, CHR 0xff, CHR 0xff], Got ''abcde''] = Some (rs, sp) \<and>
     sp_wf sp \<and> list_all (\<lambda>(i, d). length d \<le> 2) rs"
  using shell_read_bounds [of "replicate 7 CHR 0x00" 3 "[Got [CHR 0x01, CHR 0xff, CHR 0xff, CHR 0xff, CHR 0xff], Got ''abcde'']"]
  by (auto simp: kHeaderSize_def simp del: reads.simps)

end
