(* ===== verification/Adb_Transport.thy ===== *)
theory Adb_Transport
  imports Adb_Strings Adb_Packet "HOL-Library.AList" "HOL-Library.Char_ord" "HOL-Library.List_Lexorder"
    "HOL-Library.Multiset" "HOL-Library.Product_Lexorder"
begin

text \<open>
  Transports (\<open>transport.h\<close>, \<open>transport.cpp\<close>): the state of one connection to a device or host, the
  negotiated version and features, the allow-list of reverse forwards, the choice of a transport for
  a request, and the textual device list.

  An \<open>atransport\<close> is a record.  Of its underlying connection, an abstract class, it has the answer of
  \<open>Connection::Write\<close> (\<open>tr_accepts\<close>, set by the environment), the packets that were taken, and the number
  of calls of \<open>Stop\<close> and \<open>Reset\<close>.  The map
  \<open>reverse_forwards_\<close> is an association list with distinct keys.  Builds for the host and the device
  differ by preprocessor conditions; the definitions that depend on them take the flag \<open>host\<close>.
\<close>

section \<open>Enumerations\<close>

datatype TransportType = kTransportUsb | kTransportLocal | kTransportAny | kTransportHost

datatype ConnectionState = kCsAny | kCsConnecting | kCsAuthorizing | kCsUnauthorized | kCsNoPerm
  | kCsDetached | kCsOffline | kCsBootloader | kCsDevice | kCsHost | kCsRecovery | kCsSideload | kCsRescue

fun ConnectionStateIsOnline :: "ConnectionState \<Rightarrow> bool" where
  "ConnectionStateIsOnline kCsBootloader = True"
| "ConnectionStateIsOnline kCsDevice = True"
| "ConnectionStateIsOnline kCsHost = True"
| "ConnectionStateIsOnline kCsRecovery = True"
| "ConnectionStateIsOnline kCsSideload = True"
| "ConnectionStateIsOnline kCsRescue = True"
| "ConnectionStateIsOnline _ = False"

text \<open>The help texts for missing USB permissions come from another library.\<close>

record help_texts =
  NoPermissionsShort :: string
  NoPermissionsLong :: string

fun state_to_string :: "help_texts \<Rightarrow> ConnectionState \<Rightarrow> string" where
  "state_to_string h kCsOffline = ''offline''"
| "state_to_string h kCsBootloader = ''bootloader''"
| "state_to_string h kCsDevice = ''device''"
| "state_to_string h kCsHost = ''host''"
| "state_to_string h kCsRecovery = ''recovery''"
| "state_to_string h kCsRescue = ''rescue''"
| "state_to_string h kCsNoPerm = NoPermissionsShort h"
| "state_to_string h kCsSideload = ''sideload''"
| "state_to_string h kCsUnauthorized = ''unauthorized''"
| "state_to_string h kCsAuthorizing = ''authorizing''"
| "state_to_string h kCsConnecting = ''connecting''"
| "state_to_string h kCsDetached = ''detached''"
| "state_to_string h kCsAny = ''any''"

section \<open>The transport record\<close>

definition TOKEN_SIZE :: nat where
  "TOKEN_SIZE = 20"

text \<open>
  An \<open>adisconnect\<close> is a function with its argument: \<open>listener_disconnect\<close> with a listener, or the
  \<open>adb_disconnected\<close> of the daemon.
\<close>

datatype adisconnect = ListenerDisconnect nat | AdbDisconnected

record atransport =
  tr_id :: u64
  tr_type :: TransportType
  tr_kicked :: bool
  tr_online :: bool
  tr_serial :: string
  tr_product :: string
  tr_model :: string
  tr_device :: string
  tr_devpath :: string
  tr_use_tls :: bool
  tr_failed_auth_attempts :: nat
  tr_features :: "string list"
  tr_delayed_ack :: bool
  tr_protocol_version :: int
  tr_max_payload :: nat
  tr_state :: ConnectionState
  tr_reverse_forwards :: "(string \<times> string) list"
  tr_accepts :: bool
  tr_sent :: "apacket list"
  tr_stops :: nat
  tr_resets :: nat
  tr_established :: "bool option"
  tr_disconnects :: "adisconnect list"
  tr_keys :: "string list"
  tr_token :: bytes
  tr_auth_key :: string
  tr_auth_id :: "u64 option"

text \<open>The constructor.\<close>

definition new_atransport :: "u64 \<Rightarrow> TransportType \<Rightarrow> ConnectionState \<Rightarrow> atransport" where
  "new_atransport ident t state =
     \<lparr>tr_id = ident, tr_type = t, tr_kicked = False, tr_online = False, tr_serial = [], tr_product = [],
      tr_model = [], tr_device = [], tr_devpath = [], tr_use_tls = False, tr_failed_auth_attempts = 0,
      tr_features = [], tr_delayed_ack = False, tr_protocol_version = A_VERSION_MIN,
      tr_max_payload = MAX_PAYLOAD, tr_state = state, tr_reverse_forwards = [], tr_accepts = True,
      tr_sent = [], tr_stops = 0, tr_resets = 0, tr_established = None,
      tr_disconnects = [], tr_keys = [], tr_token = replicate TOKEN_SIZE (CHR 0x00), tr_auth_key = [], tr_auth_id = None\<rparr>"

definition serial_name :: "atransport \<Rightarrow> string" where
  "serial_name t = (if tr_serial t \<noteq> [] then tr_serial t else ''<unknown>'')"

definition IsTcpDevice :: "atransport \<Rightarrow> bool" where
  "IsTcpDevice t \<longleftrightarrow> tr_type t = kTransportLocal"

text \<open>\<open>ConnectionWaitable::SetConnectionEstablished\<close>: only the first call counts.\<close>

definition SetConnectionEstablished :: "bool \<Rightarrow> atransport \<Rightarrow> atransport" where
  "SetConnectionEstablished success t =
     (case tr_established t of Some _ \<Rightarrow> t | None \<Rightarrow> t\<lparr>tr_established := Some success\<rparr>)"

text \<open>\<open>Kick\<close> and \<open>Reset\<close>: only the first call of either reaches the connection.\<close>

definition Kick :: "atransport \<Rightarrow> atransport" where
  "Kick t = (if \<not> tr_kicked t then t\<lparr>tr_kicked := True, tr_stops := tr_stops t + 1\<rparr> else t)"

definition Reset :: "atransport \<Rightarrow> atransport" where
  "Reset t = (if \<not> tr_kicked t then t\<lparr>tr_kicked := True, tr_resets := tr_resets t + 1\<rparr> else t)"

text \<open>\<open>send_packet\<close>: stamps the packet and writes it; a failing write kicks the transport.\<close>

definition send_packet :: "apacket \<Rightarrow> atransport \<Rightarrow> atransport option" where
  "send_packet p t = do {
     q \<leftarrow> stamp_packet (tr_protocol_version t) p;
     if tr_accepts t then Some (t\<lparr>tr_sent := tr_sent t @ [q]\<rparr>) else Some (Kick t)
   }"

text \<open>\<open>update_version\<close>: \<open>version\<close> is an \<open>int\<close>, converted from the unsigned argument of the message.\<close>

definition update_version :: "int \<Rightarrow> nat \<Rightarrow> atransport \<Rightarrow> atransport" where
  "update_version version payload t =
     t\<lparr>tr_protocol_version := min version A_VERSION, tr_max_payload := min payload MAX_PAYLOAD\<rparr>"

definition AddDisconnect :: "adisconnect \<Rightarrow> atransport \<Rightarrow> atransport" where
  "AddDisconnect d t = t\<lparr>tr_disconnects := tr_disconnects t @ [d]\<rparr>"

definition RemoveDisconnect :: "adisconnect \<Rightarrow> atransport \<Rightarrow> atransport" where
  "RemoveDisconnect d t = t\<lparr>tr_disconnects := removeAll d (tr_disconnects t)\<rparr>"

section \<open>Features\<close>

abbreviation kFeatureDelayedAck :: string where "kFeatureDelayedAck \<equiv> ''delayed_ack''"

definition base_features :: "string list" where
  "base_features =
     [''shell_v2'', ''cmd'', ''stat_v2'', ''ls_v2'', ''fixed_push_mkdir'', ''apex'', ''abb'',
      ''fixed_push_symlink_timestamp'', ''abb_exec'', ''remount_shell'', ''track_app'', ''sendrecv_v2'',
      ''sendrecv_v2_brotli'', ''sendrecv_v2_lz4'', ''sendrecv_v2_zstd'', ''sendrecv_v2_dry_run_send'',
      ''openscreen_mdns'', ''devicetracker_proto_format'', ''devraw'', ''app_info'', ''server_status'']"

text \<open>\<open>supported_features\<close>: \<open>burst\<close> is \<open>burst_mode_enabled()\<close>, which the host build reads from the environment.\<close>

definition supported_features :: "bool \<Rightarrow> bool \<Rightarrow> string list" where
  "supported_features host burst =
     base_features @ (if host then (if burst then [kFeatureDelayedAck] else []) else [kFeatureDelayedAck])"

definition FeatureSetToString :: "libbase \<Rightarrow> string list \<Rightarrow> string" where
  "FeatureSetToString lb features = Join lb features (CHR '','')"

definition StringToFeatureSet :: "libbase \<Rightarrow> string \<Rightarrow> string list" where
  "StringToFeatureSet lb s = (if s = [] then [] else Split lb s (CHR '',''))"

definition CanUseFeature :: "bool \<Rightarrow> bool \<Rightarrow> string list \<Rightarrow> string \<Rightarrow> bool" where
  "CanUseFeature host burst features f \<longleftrightarrow> f \<in> set features \<and> f \<in> set (supported_features host burst)"

definition has_feature :: "string \<Rightarrow> atransport \<Rightarrow> bool" where
  "has_feature f t \<longleftrightarrow> f \<in> set (tr_features t)"

definition SetFeatures :: "libbase \<Rightarrow> bool \<Rightarrow> bool \<Rightarrow> string \<Rightarrow> atransport \<Rightarrow> atransport" where
  "SetFeatures lb host burst s t =
     (let fs = StringToFeatureSet lb s
      in t\<lparr>tr_features := fs, tr_delayed_ack := CanUseFeature host burst fs kFeatureDelayedAck\<rparr>)"


section \<open>The allow-list of reverse forwards\<close>

text \<open>
  \<open>UpdateReverseConfig\<close> follows the \<open>reverse:\<close> services that the host opens on the device; an unknown
  one is a \<open>LOG(FATAL)\<close>.
\<close>

definition UpdateReverseConfig :: "libbase \<Rightarrow> string \<Rightarrow> atransport \<Rightarrow> atransport option" where
  "UpdateReverseConfig lb addr t =
     (case ConsumePrefix lb addr ''reverse:'' of
        None \<Rightarrow> Some t
      | Some a1 \<Rightarrow>
          (case ConsumePrefix lb a1 ''forward:'' of
             Some a2 \<Rightarrow>
               (let (norebind, a3) =
                      (case ConsumePrefix lb a2 ''norebind:'' of Some a \<Rightarrow> (True, a) | None \<Rightarrow> (False, a2))
                in case find_char (CHR '';'') a3 of
                     None \<Rightarrow> Some t
                   | Some it \<Rightarrow>
                       (let remote = take it a3
                        in if norebind \<and> remote \<in> fst ` set (tr_reverse_forwards t) then Some t
                           else Some (t\<lparr>tr_reverse_forwards :=
                                  AList.update remote (drop (it + 1) a3) (tr_reverse_forwards t)\<rparr>)))
           | None \<Rightarrow>
               (case ConsumePrefix lb a1 ''killforward:'' of
                  Some a2 \<Rightarrow>
                    (case find_char (CHR '';'') a2 of
                       Some _ \<Rightarrow> Some t
                     | None \<Rightarrow> Some (t\<lparr>tr_reverse_forwards := AList.delete a2 (tr_reverse_forwards t)\<rparr>))
                | None \<Rightarrow>
                    if a1 = ''killforward-all'' then Some (t\<lparr>tr_reverse_forwards := []\<rparr>)
                    else if a1 = ''list-forward'' then Some t
                    else None)))"

definition IsReverseConfigured :: "string \<Rightarrow> atransport \<Rightarrow> bool" where
  "IsReverseConfigured local_addr t \<longleftrightarrow> list_ex (\<lambda>(remote, local). local = local_addr) (tr_reverse_forwards t)"

section \<open>Selecting a transport\<close>

text \<open>
  \<open>qual_match\<close> walks C strings; \<open>to_test\<close> ends with a NUL, and every comparison that fails, against
  that NUL in particular, returns.
\<close>

fun match_run :: "string \<Rightarrow> string \<Rightarrow> string option" where
  "match_run [] ptr = Some ptr"
| "match_run (c # cs) ptr = (case ptr of x # xs \<Rightarrow> if c \<noteq> x then None else match_run cs xs | [] \<Rightarrow> None)"

definition qual_match :: "string \<Rightarrow> string \<Rightarrow> string \<Rightarrow> bool \<Rightarrow> bool" where
  "qual_match to_test pre qual sanitize_qual =
     (if to_test = [] then qual = []
      else if qual = [] then False
      else (case match_run pre (to_test @ [CHR 0x00]) of
              None \<Rightarrow> False
            | Some ptr1 \<Rightarrow>
                (case match_run (map (\<lambda>ch. if sanitize_qual \<and> \<not> isalnum ch then CHR ''_'' else ch) qual) ptr1 of
                   None \<Rightarrow> False
                 | Some ptr2 \<Rightarrow> ptr2 \<noteq> [] \<and> hd ptr2 = CHR 0x00)))"

text \<open>\<open>ParseNetAddress\<close> of libbase: host and port of an address, with the port to use when it has none.\<close>

type_synonym net_parser = "string \<Rightarrow> int \<Rightarrow> (string \<times> int) option"

definition MatchesTarget :: "libbase \<Rightarrow> net_parser \<Rightarrow> string \<Rightarrow> atransport \<Rightarrow> bool" where
  "MatchesTarget lb ParseNetAddress target t \<longleftrightarrow>
     (tr_serial t \<noteq> [] \<and>
        (target = tr_serial t \<or>
         tr_type t = kTransportLocal \<and>
           (let local_target = (if StartsWith lb target ''tcp:'' \<or> StartsWith lb target ''udp:''
                                then drop 4 target else target)
            in case ParseNetAddress (tr_serial t) (- 1) of
                 None \<Rightarrow> False
               | Some (serial_host, serial_port) \<Rightarrow>
                   (case ParseNetAddress local_target serial_port of
                      None \<Rightarrow> False
                    | Some (target_host, target_port) \<Rightarrow>
                        serial_host = target_host \<and> serial_port = target_port)))) \<or>
     target = tr_devpath t \<or> qual_match target ''product:'' (tr_product t) False \<or>
     qual_match target ''model:'' (tr_model t) True \<or> qual_match target ''device:'' (tr_device t) False"

text \<open>\<open>transport_server_owns_device\<close>: \<open>one_device\<close> is \<open>__transport_server_one_device\<close>.\<close>

definition owns_serial :: "string option \<Rightarrow> string \<Rightarrow> bool" where
  "owns_serial one_device serial = (case one_device of None \<Rightarrow> True | Some d \<Rightarrow> serial = d)"

definition owns_device :: "string option \<Rightarrow> string \<Rightarrow> string \<Rightarrow> bool" where
  "owns_device one_device dev_path serial =
     (case one_device of None \<Rightarrow> True | Some d \<Rightarrow> serial = d \<or> dev_path = d)"

text \<open>The variables of the loop of \<open>acquire_one_transport\<close>.\<close>

record acquire_state =
  aq_result :: "atransport option"
  aq_error :: string
  aq_ambiguous :: bool

definition initial_error :: "TransportType \<Rightarrow> string option \<Rightarrow> u64 \<Rightarrow> string" where
  "initial_error type serial transport_id =
     (if transport_id \<noteq> 0 then ''no device with transport id '' @ CHR 0x27 # dec_digits (unat transport_id) @ [CHR 0x27]
      else case serial of
             Some s \<Rightarrow> ''device '' @ CHR 0x27 # s @ CHR 0x27 # '' not found''
           | None \<Rightarrow>
               if type = kTransportLocal then ''no emulators found''
               else if type = kTransportAny then ''no devices/emulators found''
               else ''no devices found'')"

text \<open>A second candidate: the search ends without a result.\<close>

definition ambiguous :: "string \<Rightarrow> acquire_state \<Rightarrow> acquire_state" where
  "ambiguous msg a = a\<lparr>aq_error := msg, aq_ambiguous := True, aq_result := None\<rparr>"

primrec acquire_loop ::
    "help_texts \<Rightarrow> (string \<Rightarrow> atransport \<Rightarrow> bool) \<Rightarrow> TransportType \<Rightarrow> string option \<Rightarrow> u64 \<Rightarrow>
     atransport list \<Rightarrow> acquire_state \<Rightarrow> acquire_state" where
  "acquire_loop h matches type serial transport_id [] a = a"
| "acquire_loop h matches type serial transport_id (t # ts) a =
     (let continue = acquire_loop h matches type serial transport_id ts in
      if tr_state t = kCsNoPerm then continue (a\<lparr>aq_error := NoPermissionsLong h\<rparr>)
      else if transport_id \<noteq> 0 then
        (if tr_id t = transport_id then a\<lparr>aq_result := Some t\<rparr> else continue a)
      else (case serial of
              Some s \<Rightarrow>
                if matches s t then
                  (if aq_result a \<noteq> None then ambiguous (''more than one device with serial '' @ s) a
                   else continue (a\<lparr>aq_result := Some t\<rparr>))
                else continue a
            | None \<Rightarrow>
                if type = kTransportUsb \<and> tr_type t = kTransportUsb then
                  (if aq_result a \<noteq> None then ambiguous ''more than one USB device'' a
                   else continue (a\<lparr>aq_result := Some t\<rparr>))
                else if type = kTransportLocal \<and> tr_type t = kTransportLocal then
                  (if aq_result a \<noteq> None then ambiguous ''more than one emulator'' a
                   else continue (a\<lparr>aq_result := Some t\<rparr>))
                else if type = kTransportAny then
                  (if aq_result a \<noteq> None then ambiguous ''more than one device/emulator'' a
                   else continue (a\<lparr>aq_result := Some t\<rparr>))
                else continue a))"

text \<open>The check of the connection state; \<open>vendor_keys\<close> is \<open>getenv("ADB_VENDOR_KEYS")\<close>.\<close>

definition inactive_error :: "string option \<Rightarrow> ConnectionState \<Rightarrow> string option" where
  "inactive_error vendor_keys state =
     (case state of
        kCsConnecting \<Rightarrow> Some ''device still connecting''
      | kCsAuthorizing \<Rightarrow> Some ''device still authorizing''
      | kCsUnauthorized \<Rightarrow>
          Some (''device unauthorized.'' @ [CHR 0x0A] @
                ''This adb server'' @ [CHR 0x27] @ ''s $ADB_VENDOR_KEYS is '' @
                (case vendor_keys of Some k \<Rightarrow> k | None \<Rightarrow> ''not set'') @ [CHR 0x0A] @
                ''Try '' @ [CHR 0x27] @ ''adb kill-server'' @ [CHR 0x27] @ '' if that seems wrong.'' @ [CHR 0x0A] @
                ''Otherwise check for a confirmation dialog on your device.'')
      | kCsOffline \<Rightarrow> Some ''device offline''
      | _ \<Rightarrow> None)"

definition acquire_one_transport ::
    "help_texts \<Rightarrow> string option \<Rightarrow> (string \<Rightarrow> atransport \<Rightarrow> bool) \<Rightarrow> TransportType \<Rightarrow> string option \<Rightarrow> u64 \<Rightarrow>
     bool \<Rightarrow> atransport list \<Rightarrow> acquire_state" where
  "acquire_one_transport h vendor_keys matches type serial transport_id accept_any_state transport_list =
     (let a = acquire_loop h matches type serial transport_id transport_list
                \<lparr>aq_result = None, aq_error = initial_error type serial transport_id, aq_ambiguous = False\<rparr>;
          a1 = (case aq_result a of
                  Some t \<Rightarrow>
                    if \<not> accept_any_state then
                      (case inactive_error vendor_keys (tr_state t) of
                         Some e \<Rightarrow> a\<lparr>aq_error := e, aq_result := None\<rparr>
                       | None \<Rightarrow> a)
                    else a
                | None \<Rightarrow> a)
      in if aq_result a1 \<noteq> None then a1\<lparr>aq_error := ''success''\<rparr> else a1)"

definition find_transport :: "string \<Rightarrow> atransport list \<Rightarrow> atransport option" where
  "find_transport serial transport_list = find (\<lambda>t. tr_serial t = serial) transport_list"


section \<open>The device list\<close>

definition sanitize :: "string \<Rightarrow> bool \<Rightarrow> string" where
  "sanitize str alphanumeric =
     map (\<lambda>c. if (if alphanumeric then \<not> isalnum c else c = CHR 0x0A) then CHR ''_'' else c) str"

definition append_transport_info :: "string \<Rightarrow> string \<Rightarrow> string \<Rightarrow> bool \<Rightarrow> string" where
  "append_transport_info result key val alphanumeric =
     (if val = [] then result else result @ '' '' @ key @ sanitize val alphanumeric)"

text \<open>\<open>"%-22s"\<close>.\<close>

definition pad_22 :: "string \<Rightarrow> string" where
  "pad_22 s = percent_s s @ replicate (22 - length (percent_s s)) (CHR '' '')"

definition append_transport :: "help_texts \<Rightarrow> atransport \<Rightarrow> string \<Rightarrow> bool \<Rightarrow> string" where
  "append_transport h t result long_listing =
     (let serial = (if tr_serial t = [] then ''(no serial number)'' else tr_serial t);
          r = (if \<not> long_listing then result @ serial @ [CHR 0x09] @ state_to_string h (tr_state t)
               else (let r1 = result @ pad_22 serial @ '' '' @ percent_s (state_to_string h (tr_state t));
                         r2 = append_transport_info r1 [] (tr_devpath t) False;
                         r3 = append_transport_info r2 ''product:'' (tr_product t) False;
                         r4 = append_transport_info r3 ''model:'' (tr_model t) True;
                         r5 = append_transport_info r4 ''device:'' (tr_device t) False
                     in r5 @ '' transport_id:'' @ dec_digits (unat (tr_id t))))
      in r @ [CHR 0x0A])"

definition transportListToText :: "help_texts \<Rightarrow> atransport list \<Rightarrow> bool \<Rightarrow> string" where
  "transportListToText h ts long_listing = foldl (\<lambda>result t. append_transport h t result long_listing) [] ts"

datatype TrackerOutputType = SHORT_TEXT | LONG_TEXT | PROTOBUF | TEXT_PROTOBUF

fun type_rank :: "TransportType \<Rightarrow> nat" where
  "type_rank kTransportUsb = 0"
| "type_rank kTransportLocal = 1"
| "type_rank kTransportAny = 2"
| "type_rank kTransportHost = 3"

text \<open>
  \<open>list_transports\<close>: \<open>std::list::sort\<close> is stable; strings are compared byte by byte.  The protobuf
  encodings are generated code, a parameter here.
\<close>

definition transport_order :: "atransport \<Rightarrow> nat \<times> string" where
  "transport_order t = (type_rank (tr_type t), tr_serial t)"

definition list_transports ::
    "help_texts \<Rightarrow> (atransport list \<Rightarrow> bool \<Rightarrow> string) \<Rightarrow> TrackerOutputType \<Rightarrow> atransport list \<Rightarrow> string" where
  "list_transports h transportListToProto outputType transport_list =
     (let sorted_transport_list = sort_key transport_order transport_list
      in case outputType of
           SHORT_TEXT \<Rightarrow> transportListToText h sorted_transport_list False
         | LONG_TEXT \<Rightarrow> transportListToText h sorted_transport_list True
         | PROTOBUF \<Rightarrow> transportListToProto sorted_transport_list False
         | TEXT_PROTOBUF \<Rightarrow> transportListToProto sorted_transport_list True)"

section \<open>Authorization keys\<close>

text \<open>\<open>Key\<close>, \<open>NextKey\<close> and \<open>ResetKeys\<close> on the queue of keys; \<open>fetch\<close> is \<open>adb_auth_get_private_keys\<close>.\<close>

definition Key :: "'k list \<Rightarrow> 'k option" where
  "Key keys = (case keys of [] \<Rightarrow> None | k # _ \<Rightarrow> Some k)"

definition NextKey :: "'k list \<Rightarrow> 'k list \<Rightarrow> ('k option \<times> 'k list) option" where
  "NextKey fetch keys =
     (if keys = [] then do { CHECK (fetch \<noteq> []); Some (Key fetch, fetch) }
      else Some (Key (tl keys), tl keys))"

definition ResetKeys :: "'k list \<Rightarrow> 'k list" where
  "ResetKeys keys = []"

section \<open>Features: lemmas\<close>

definition feature_name_ok :: "string \<Rightarrow> bool" where
  "feature_name_ok f \<longleftrightarrow> f \<noteq> [] \<and> CHR '','' \<notin> set f"

lemma base_features_ok: "\<forall>f \<in> set (supported_features host burst). feature_name_ok f"
  by (simp add: supported_features_def base_features_def feature_name_ok_def)

lemma join_Nil_iff: "\<forall>f \<in> set fs. f \<noteq> [] \<Longrightarrow> join c fs = [] \<longleftrightarrow> fs = []"
  by (induction c fs rule: join.induct) auto

lemma feature_string_roundtrip:
  assumes "libbase_ok lb" and "\<forall>f \<in> set fs. feature_name_ok f"
  shows "StringToFeatureSet lb (FeatureSetToString lb fs) = fs"
proof (cases "fs = []")
  case True
  with assms show ?thesis by (simp add: FeatureSetToString_def StringToFeatureSet_def libbase_simps)
next
  case False
  then have "join (CHR '','') fs \<noteq> []" using assms(2) by (subst join_Nil_iff) (auto simp: feature_name_ok_def)
  with False assms show ?thesis
    by (simp add: FeatureSetToString_def StringToFeatureSet_def libbase_simps Split_join feature_name_ok_def)
qed

section \<open>Selection: lemmas\<close>

lemma match_run_Some: "match_run cs ptr = Some r \<longleftrightarrow> ptr = cs @ r"
  by (induction cs arbitrary: ptr) (auto split: list.splits)

text \<open>\<open>qual_match\<close> compares the whole string, for strings without NUL characters.\<close>

lemma qual_match_iff:
  assumes "CHR 0x00 \<notin> set to_test" and "CHR 0x00 \<notin> set qual"
  shows "qual_match to_test pre qual san \<longleftrightarrow>
    (if to_test = [] then qual = []
     else qual \<noteq> [] \<and> to_test = pre @ map (\<lambda>ch. if san \<and> \<not> isalnum ch then CHR ''_'' else ch) qual)"
proof -
  let ?q = "map (\<lambda>ch. if san \<and> \<not> isalnum ch then CHR ''_'' else ch) qual"
  have "(\<exists>p1. match_run pre (to_test @ [CHR 0x00]) = Some p1 \<and>
      (\<exists>p2. match_run ?q p1 = Some p2 \<and> p2 \<noteq> [] \<and> hd p2 = CHR 0x00)) \<longleftrightarrow>
      (\<exists>r. to_test @ [CHR 0x00] = pre @ ?q @ CHR 0x00 # r)"
    by (auto simp: match_run_Some neq_Nil_conv)
  also have "\<dots> \<longleftrightarrow> to_test = pre @ ?q"
  proof
    assume "\<exists>r. to_test @ [CHR 0x00] = pre @ ?q @ CHR 0x00 # r"
    then obtain r where r: "to_test @ [CHR 0x00] = (pre @ ?q) @ CHR 0x00 # r" by auto
    then have "r = []"
      using assms(1) by (cases r rule: rev_cases) (auto simp flip: append_assoc append_Cons)
    with r show "to_test = pre @ ?q" by simp
  qed auto
  finally show ?thesis
    by (auto simp: qual_match_def split: option.splits)
qed


text \<open>The transports a request can mean, in list order.\<close>

definition selected ::
    "(string \<Rightarrow> atransport \<Rightarrow> bool) \<Rightarrow> TransportType \<Rightarrow> string option \<Rightarrow> u64 \<Rightarrow> atransport \<Rightarrow> bool" where
  "selected matches type serial transport_id t \<longleftrightarrow>
     (if transport_id \<noteq> 0 then tr_id t = transport_id
      else case serial of
             Some s \<Rightarrow> matches s t
           | None \<Rightarrow> type = kTransportAny \<or> type \<in> {kTransportUsb, kTransportLocal} \<and> tr_type t = type)"

definition candidates ::
    "(string \<Rightarrow> atransport \<Rightarrow> bool) \<Rightarrow> TransportType \<Rightarrow> string option \<Rightarrow> u64 \<Rightarrow> atransport list \<Rightarrow> atransport list" where
  "candidates matches type serial transport_id ts =
     filter (\<lambda>t. tr_state t \<noteq> kCsNoPerm \<and> selected matches type serial transport_id t) ts"

lemma acquire_loop_second:
  assumes "aq_result a = Some r0" and "\<not> aq_ambiguous a"
  shows "(let r = acquire_loop h matches type serial 0 ts a in
     if candidates matches type serial 0 ts = [] then aq_result r = Some r0 \<and> \<not> aq_ambiguous r
     else aq_result r = None \<and> aq_ambiguous r)"
  using assms
  by (induction ts arbitrary: a)
    (auto simp: candidates_def selected_def ambiguous_def Let_def split: option.splits TransportType.splits)

lemma acquire_loop_first:
  assumes "aq_result a = None" and "\<not> aq_ambiguous a"
  shows "(let r = acquire_loop h matches type serial tid ts a in
     case candidates matches type serial tid ts of
       [] \<Rightarrow> aq_result r = None \<and> \<not> aq_ambiguous r \<and>
         aq_error r = (if \<exists>t \<in> set ts. tr_state t = kCsNoPerm then NoPermissionsLong h else aq_error a)
     | t # rest \<Rightarrow> if tid = 0 \<and> rest \<noteq> [] then aq_result r = None \<and> aq_ambiguous r
         else aq_result r = Some t \<and> \<not> aq_ambiguous r)"
  using assms
proof (induction ts arbitrary: a)
  case Nil
  then show ?case by (simp add: candidates_def)
next
  case (Cons t ts)
  show ?case
  proof (cases "tr_state t \<noteq> kCsNoPerm \<and> selected matches type serial tid t")
    case True
    have step: "acquire_loop h matches type serial tid (t # ts) a =
        (if tid = 0 then acquire_loop h matches type serial 0 ts (a\<lparr>aq_result := Some t\<rparr>) else a\<lparr>aq_result := Some t\<rparr>)"
      using True Cons.prems by (auto simp: selected_def Let_def split: option.splits)
    have "candidates matches type serial tid (t # ts) = t # candidates matches type serial tid ts"
      using True by (simp add: candidates_def)
    then show ?thesis
      using step acquire_loop_second [of "a\<lparr>aq_result := Some t\<rparr>" t h matches type serial ts] Cons.prems
      by (auto simp: Let_def split: if_splits)
  next
    case False
    have step: "acquire_loop h matches type serial tid (t # ts) a =
        acquire_loop h matches type serial tid ts
          (if tr_state t = kCsNoPerm then a\<lparr>aq_error := NoPermissionsLong h\<rparr> else a)"
      using False Cons.prems by (auto simp: selected_def Let_def split: option.splits)
    have "candidates matches type serial tid (t # ts) = candidates matches type serial tid ts"
      using False by (simp add: candidates_def)
    then show ?thesis
      using step Cons.IH [of "if tr_state t = kCsNoPerm then a\<lparr>aq_error := NoPermissionsLong h\<rparr> else a"] Cons.prems
      by (auto simp: Let_def split: list.splits if_splits)
  qed
qed

section \<open>Reverse forwards: lemmas\<close>

text \<open>The requests of \<open>adb reverse\<close>, their service strings, and what they mean for the table.\<close>

datatype reverse_cmd =
    RForward string string
  | RForwardNorebind string string
  | RKill string
  | RKillAll
  | RList

fun reverse_service :: "reverse_cmd \<Rightarrow> string" where
  "reverse_service (RForward r l) = ''reverse:forward:'' @ r @ '';'' @ l"
| "reverse_service (RForwardNorebind r l) = ''reverse:forward:norebind:'' @ r @ '';'' @ l"
| "reverse_service (RKill r) = ''reverse:killforward:'' @ r"
| "reverse_service RKillAll = ''reverse:killforward-all''"
| "reverse_service RList = ''reverse:list-forward''"

fun reverse_cmd_ok :: "reverse_cmd \<Rightarrow> bool" where
  "reverse_cmd_ok (RForward r l) \<longleftrightarrow> CHR '';'' \<notin> set r \<and> \<not> prefix ''norebind:'' (r @ '';'' @ l)"
| "reverse_cmd_ok (RForwardNorebind r l) \<longleftrightarrow> CHR '';'' \<notin> set r"
| "reverse_cmd_ok (RKill r) \<longleftrightarrow> CHR '';'' \<notin> set r"
| "reverse_cmd_ok _ \<longleftrightarrow> True"

fun reverse_spec :: "(string \<rightharpoonup> string) \<Rightarrow> reverse_cmd \<Rightarrow> (string \<rightharpoonup> string)" where
  "reverse_spec m (RForward r l) = m(r \<mapsto> l)"
| "reverse_spec m (RForwardNorebind r l) = (if m r = None then m(r \<mapsto> l) else m)"
| "reverse_spec m (RKill r) = m(r := None)"
| "reverse_spec m RKillAll = Map.empty"
| "reverse_spec m RList = m"

lemma UpdateReverseConfig_refines:
  assumes lb: "libbase_ok lb" and ok: "reverse_cmd_ok c" and d: "distinct (map fst (tr_reverse_forwards t))"
  shows "\<exists>t'. UpdateReverseConfig lb (reverse_service c) t = Some t' \<and>
    map_of (tr_reverse_forwards t') = reverse_spec (map_of (tr_reverse_forwards t)) c \<and>
    distinct (map fst (tr_reverse_forwards t')) \<and> t' = t\<lparr>tr_reverse_forwards := tr_reverse_forwards t'\<rparr>"
proof (cases c)
  case (RForward r l)
  then show ?thesis
    using ok d by (auto simp: UpdateReverseConfig_def libbase_simps [OF lb] find_char_append update_conv' distinct_update)
next
  case (RForwardNorebind r l)
  then show ?thesis
    using ok d by (auto simp: UpdateReverseConfig_def libbase_simps [OF lb] find_char_append update_conv' distinct_update
        map_of_eq_None_iff)
next
  case (RKill r)
  then show ?thesis
    using ok d by (auto simp: UpdateReverseConfig_def libbase_simps [OF lb] find_char_def delete_conv' distinct_delete)
qed (use d in \<open>auto simp: UpdateReverseConfig_def libbase_simps [OF lb]\<close>)

lemma IsReverseConfigured_ran:
  "distinct (map fst (tr_reverse_forwards t)) \<Longrightarrow>
   IsReverseConfigured a t \<longleftrightarrow> a \<in> ran (map_of (tr_reverse_forwards t))"
  by (auto simp: IsReverseConfigured_def list_ex_iff ran_def map_of_eq_Some_iff dest: map_of_SomeD)

fun run_reverse :: "libbase \<Rightarrow> reverse_cmd list \<Rightarrow> atransport \<Rightarrow> atransport option" where
  "run_reverse lb [] t = Some t"
| "run_reverse lb (c # cs) t = do { t' \<leftarrow> UpdateReverseConfig lb (reverse_service c) t; run_reverse lb cs t' }"

lemma run_reverse_refines:
  assumes "libbase_ok lb" and "list_all reverse_cmd_ok cs" and "distinct (map fst (tr_reverse_forwards t))"
  shows "\<exists>t'. run_reverse lb cs t = Some t' \<and> distinct (map fst (tr_reverse_forwards t')) \<and>
    map_of (tr_reverse_forwards t') = foldl reverse_spec (map_of (tr_reverse_forwards t)) cs"
  using assms
proof (induction cs arbitrary: t)
  case (Cons c cs)
  then obtain t' where "UpdateReverseConfig lb (reverse_service c) t = Some t'"
    "map_of (tr_reverse_forwards t') = reverse_spec (map_of (tr_reverse_forwards t)) c"
    "distinct (map fst (tr_reverse_forwards t'))"
    using UpdateReverseConfig_refines [of lb c t] by auto
  with Cons.IH [of t'] Cons.prems show ?case by auto
qed simp


section \<open>The device list: lemmas\<close>

lemma newline_free_sanitize [simp]: "CHR 0x0A \<notin> set (sanitize s al)"
  by (auto simp: sanitize_def isalnum_def isdigit_def split: if_splits)

lemma newline_free_dec_digits [simp]: "CHR 0x0A \<notin> set (dec_digits n)"
proof (induction n rule: dec_digits.induct)
  case (1 n)
  have digit: "''0123456789'' ! d \<noteq> CHR 0x0A" if "d < 10" for d :: nat
    using that nth_mem [of d "''0123456789''"] by auto
  show ?case
  proof (cases "n < 10")
    case True
    then show ?thesis using digit [of n] by (subst dec_digits.simps) simp
  next
    case False
    then show ?thesis using 1 digit [of "n mod 10"] by (subst dec_digits.simps) simp
  qed
qed

lemma newline_free_state [simp]:
  "CHR 0x0A \<notin> set (NoPermissionsShort h) \<Longrightarrow> CHR 0x0A \<notin> set (state_to_string h st)"
  by (cases st) simp_all

text \<open>The line of one transport.\<close>

definition transport_line :: "help_texts \<Rightarrow> atransport \<Rightarrow> bool \<Rightarrow> string" where
  "transport_line h t long_listing =
     (let serial = (if tr_serial t = [] then ''(no serial number)'' else tr_serial t);
          state = state_to_string h (tr_state t)
      in if \<not> long_listing then serial @ [CHR 0x09] @ state
         else pad_22 serial @ '' '' @ percent_s state @
           append_transport_info [] [] (tr_devpath t) False @
           append_transport_info [] ''product:'' (tr_product t) False @
           append_transport_info [] ''model:'' (tr_model t) True @
           append_transport_info [] ''device:'' (tr_device t) False @
           '' transport_id:'' @ dec_digits (unat (tr_id t)))"

lemma append_transport_line:
  "append_transport h t result long_listing = result @ transport_line h t long_listing @ [CHR 0x0A]"
proof -
  have info: "append_transport_info r k v al = r @ append_transport_info [] k v al" for r k v al
    by (simp add: append_transport_info_def)
  show ?thesis
    unfolding append_transport_def transport_line_def Let_def
    by (simp only: info [of "_ @ _"] append_assoc if_distrib [of "(@) result"] if_False if_True not_True_eq_False
        not_False_eq_True split: if_split)
      simp
qed

lemma transport_line_newline_free:
  assumes "CHR 0x0A \<notin> set (tr_serial t)" and "CHR 0x0A \<notin> set (NoPermissionsShort h)"
  shows "CHR 0x0A \<notin> set (transport_line h t long_listing)"
proof -
  have info: "CHR 0x0A \<notin> set (append_transport_info [] k v al)" if "CHR 0x0A \<notin> set k" for k v al
    using that by (simp add: append_transport_info_def)
  show ?thesis
    unfolding transport_line_def Let_def using assms
    by (auto simp: info pad_22_def dest: percent_s_set)
qed

lemma transportListToText_lines:
  "transportListToText h ts long_listing = concat (map (\<lambda>t. transport_line h t long_listing @ [CHR 0x0A]) ts)"
proof -
  have "foldl (\<lambda>result t. append_transport h t result long_listing) acc ts =
      acc @ concat (map (\<lambda>t. transport_line h t long_listing @ [CHR 0x0A]) ts)" for acc
    by (induction ts arbitrary: acc) (simp_all add: append_transport_line)
  then show ?thesis by (simp add: transportListToText_def)
qed

lemma split_at_lines:
  assumes "\<forall>l \<in> set ls. c \<notin> set l"
  shows "split_at c (concat (map (\<lambda>l. l @ [c]) ls)) = ls @ [[]]"
proof -
  have one: "split_at c (l @ c # rest) = l # split_at c rest" if "c \<notin> set l" for l rest
    using that by (induction l) auto
  from assms show ?thesis by (induction ls) (simp_all add: one)
qed

section \<open>Properties\<close>


text \<open>
  C21: the allow-list for connections that the device opens.  After any sequence of \<open>adb reverse\<close>
  requests, \<open>IsReverseConfigured\<close> accepts exactly the local addresses of the forwards that are in
  force: the last binding of each remote address, not rebound under \<open>norebind\<close>, not killed.
\<close>

theorem reverse_allow_list:
  assumes "libbase_ok lb" and "list_all reverse_cmd_ok cs"
  shows "\<exists>t'. run_reverse lb cs (new_atransport ident ty st) = Some t' \<and>
    (\<forall>addr. IsReverseConfigured addr t' \<longleftrightarrow> addr \<in> ran (foldl reverse_spec Map.empty cs))"
proof -
  have "tr_reverse_forwards (new_atransport ident ty st) = []" by (simp add: new_atransport_def)
  then obtain t' where "run_reverse lb cs (new_atransport ident ty st) = Some t'"
    "distinct (map fst (tr_reverse_forwards t'))" "map_of (tr_reverse_forwards t') = foldl reverse_spec Map.empty cs"
    using run_reverse_refines [OF assms, of "new_atransport ident ty st"] by auto
  then show ?thesis by (simp add: IsReverseConfigured_ran)
qed

theorem reverse_allow_list_witness:
  "libbase_ok ref_libbase \<and>
   list_all reverse_cmd_ok [RForward ''tcp:1'' ''tcp:8000'', RForward ''tcp:2'' ''tcp:9000'', RKill ''tcp:1''] \<and>
   (\<exists>t'. run_reverse ref_libbase [RForward ''tcp:1'' ''tcp:8000'', RForward ''tcp:2'' ''tcp:9000'', RKill ''tcp:1'']
        (new_atransport 1 kTransportUsb kCsOffline) = Some t' \<and>
      IsReverseConfigured ''tcp:9000'' t' \<and> \<not> IsReverseConfigured ''tcp:8000'' t')"
proof -
  let ?cs = "[RForward ''tcp:1'' ''tcp:8000'', RForward ''tcp:2'' ''tcp:9000'', RKill ''tcp:1'']"
  have ok: "list_all reverse_cmd_ok ?cs" by simp
  have "foldl reverse_spec Map.empty ?cs = [''tcp:2'' \<mapsto> ''tcp:9000'']"
    by (simp add: fun_eq_iff)
  then have "ran (foldl reverse_spec Map.empty ?cs) = {''tcp:9000''}" by simp
  moreover obtain t' where "run_reverse ref_libbase ?cs (new_atransport 1 kTransportUsb kCsOffline) = Some t'"
    "\<forall>addr. IsReverseConfigured addr t' \<longleftrightarrow> addr \<in> ran (foldl reverse_spec Map.empty ?cs)"
    using reverse_allow_list [OF ref_libbase_ok ok] by blast
  ultimately show ?thesis using ok ref_libbase_ok by (intro conjI exI [of _ t']) simp_all
qed

text \<open>
  C35: the device list has one line per transport, ordered by type and serial number: cut at its
  newlines, the text is the lines of the sorted transports.  The description fields may contain
  newlines (they are replaced); the serial number and the help text are printed as they are.
\<close>

theorem device_list_lines:
  assumes "\<forall>t \<in> set ts. CHR 0x0A \<notin> set (tr_serial t)" and "CHR 0x0A \<notin> set (NoPermissionsShort h)"
  shows "split_at (CHR 0x0A) (list_transports h proto (if long_listing then LONG_TEXT else SHORT_TEXT) ts) =
      map (\<lambda>t. transport_line h t long_listing) (sort_key transport_order ts) @ [[]] \<and>
    mset (sort_key transport_order ts) = mset ts \<and> sorted (map transport_order (sort_key transport_order ts))"
proof -
  let ?ls = "map (\<lambda>t. transport_line h t long_listing) (sort_key transport_order ts)"
  have "split_at (CHR 0x0A) (concat (map (\<lambda>l. l @ [CHR 0x0A]) ?ls)) = ?ls @ [[]]"
    using assms by (intro split_at_lines) (auto simp: transport_line_newline_free)
  moreover have "list_transports h proto (if long_listing then LONG_TEXT else SHORT_TEXT) ts =
      concat (map (\<lambda>l. l @ [CHR 0x0A]) ?ls)"
    by (simp add: list_transports_def transportListToText_lines comp_def)
  ultimately show ?thesis by simp
qed

definition ex_transport :: "string \<Rightarrow> string \<Rightarrow> atransport" where
  "ex_transport serial product =
     (new_atransport 7 kTransportUsb kCsDevice)\<lparr>tr_serial := serial, tr_product := product\<rparr>"

theorem device_list_lines_witness:
  "list_all (\<lambda>t. CHR 0x0A \<notin> set (tr_serial t)) [ex_transport ''B'' (''p'' @ [CHR 0x0A]), ex_transport ''A'' []] \<and>
   split_at (CHR 0x0A) (list_transports \<lparr>NoPermissionsShort = ''no'', NoPermissionsLong = ''no''\<rparr> (\<lambda>_ _. []) LONG_TEXT
       [ex_transport ''B'' (''p'' @ [CHR 0x0A]), ex_transport ''A'' []]) =
     [''A                      device transport_id:7'', ''B                      device product:p_ transport_id:7'', []]"
proof -
  let ?ts = "[ex_transport ''B'' (''p'' @ [CHR 0x0A]), ex_transport ''A'' []]"
  let ?h = "\<lparr>NoPermissionsShort = ''no'', NoPermissionsLong = ''no''\<rparr>"
  have nl: "\<forall>t \<in> set ?ts. CHR 0x0A \<notin> set (tr_serial t)" "CHR 0x0A \<notin> set (NoPermissionsShort ?h)"
    by (simp_all add: ex_transport_def)
  have srt: "sort_key transport_order ?ts = [ex_transport ''A'' [], ex_transport ''B'' (''p'' @ [CHR 0x0A])]"
    by (simp add: transport_order_def ex_transport_def new_atransport_def less_eq_char_def less_char_def)
  have lines: "transport_line ?h (ex_transport ''A'' []) True = ''A                      device transport_id:7''"
    "transport_line ?h (ex_transport ''B'' (''p'' @ [CHR 0x0A])) True = ''B                      device product:p_ transport_id:7''"
    by (simp_all add: transport_line_def append_transport_def append_transport_info_def pad_22_def sanitize_def
        ex_transport_def new_atransport_def dec_digits.simps Let_def) (simp_all add: numeral_eq_Suc)
  show ?thesis
    using nl(1) device_list_lines [OF nl, of "\<lambda>_ _. []" True] unfolding srt list.map lines by simp
qed

end
