(* ===== verification/Adb_Sockets.thy ===== *)
theory Adb_Sockets
  imports Adb_IOVector Adb_Transport Adb_Host_Service
begin

text \<open>
  Sockets (\<open>socket.h\<close>, \<open>sockets.cpp\<close>, and the device tracker of \<open>transport.cpp\<close>).

  An \<open>asocket*\<close> is an address into a heap; \<open>new\<close> takes a fresh address, \<open>delete\<close> removes the entry, and
  every access through a pointer that is not in the heap is an abort (\<^const>\<open>None\<close>).  The function
  pointers of a socket are values of the enumerations below, and a call through one is a dispatch on
  it.  The global variables of \<open>sockets.cpp\<close> and the transports are fields of the \<open>world\<close>; so are the
  descriptors, as scripted streams.  \<open>exit(0)\<close> in \<open>local_socket_destroy\<close> ends the process like an abort.

  A socket's close calls its peer's close, through the pointer, after the peer has been disconnected:
  the functions are mutually recursive, as in the code.
\<close>

section \<open>State\<close>

type_synonym addr = nat
type_synonym tref = nat

datatype enqueue_fn = LocalEnqueue | RemoteEnqueue | SmartEnqueue | TrackerEnqueue
datatype ready_fn = LocalReady | LocalReadyNotify | RemoteReady | SmartReady | TrackerReady
datatype shutdown_fn = NoShutdown | RemoteShutdown
datatype close_fn = LocalClose | LocalCloseNotify | RemoteClose | SmartClose | TrackerClose

record fdevent =
  fde_read :: bool
  fde_write :: bool

record asocket =
  so_id :: u32
  so_closing :: bool
  so_has_write_error :: bool
  so_exit_on_close :: bool
  so_peer :: "addr option"
  so_enqueue :: enqueue_fn
  so_ready :: ready_fn
  so_shutdown :: shutdown_fn
  so_close :: close_fn
  so_transport :: "tref option"
  so_fde :: "fdevent option"
  so_fd :: int
  so_packet_queue :: "byte iovector"
  so_available_send_bytes :: "int option"
  so_smart_socket_data :: string
  so_tracker :: "(bool \<times> TrackerOutputType) option"

text \<open>A listener of \<open>adb_listeners.cpp\<close>; \<open>l_addr\<close> is its address, which the callbacks name.\<close>

record alistener =
  l_addr :: nat
  l_fd :: int
  l_reading :: bool
  l_local_name :: string
  l_connect_to :: string
  l_transport :: "tref option"

text \<open>Calls of the daemon into the framework's authorization library.\<close>

datatype framework_call = PromptUser string u32 | NotifyAuth string | NotifyDisconnect u64 | TlsConnected string

record world =
  heap :: "addr \<rightharpoonup> asocket"
  next_addr :: addr
  local_socket_list :: "addr list"
  local_socket_closing_list :: "addr list"
  local_socket_next_id :: u32
  device_tracker_list :: "addr list"
  transports :: "tref \<rightharpoonup> atransport"
  transport_list :: "tref list"
  pending_list :: "tref list"
  in_fds :: "int \<Rightarrow> istream"
  out_fds :: "int \<Rightarrow> ostream"
  draining :: "int list"
  device_scan_complete :: bool
  transports_ready :: bool
  fresh_memory :: "nat \<Rightarrow> byte"
  listener_list :: "alistener list"
  next_listener :: nat
  auth_transports :: "u32 \<rightharpoonup> tref"
  transport_auth_id :: u32
  framework_calls :: "framework_call list"
  active_connections :: int
  watchdog_running :: bool
  attached_devices :: "string list"

text \<open>The initial values of the global variables, with some transports registered.\<close>

definition initial_world :: "(tref \<rightharpoonup> atransport) \<Rightarrow> tref list \<Rightarrow> world" where
  "initial_world trs ts =
     \<lparr>heap = Map.empty, next_addr = 0, local_socket_list = [], local_socket_closing_list = [],
      local_socket_next_id = 1, device_tracker_list = [], transports = trs, transport_list = ts, pending_list = [],
      in_fds = (\<lambda>_. []), out_fds = (\<lambda>_. \<lparr>os_script = [], os_log = []\<rparr>), draining = [],
      device_scan_complete = False, transports_ready = False, fresh_memory = (\<lambda>_. CHR 0x00),
      listener_list = [], next_listener = 0, auth_transports = Map.empty, transport_auth_id = 0, framework_calls = [],
      active_connections = 0, watchdog_running = True, attached_devices = []\<rparr>"

definition update_socket :: "addr \<Rightarrow> (asocket \<Rightarrow> asocket) \<Rightarrow> world \<Rightarrow> world option" where
  "update_socket s f w = do { a \<leftarrow> heap w s; Some (w\<lparr>heap := (heap w)(s \<mapsto> f a)\<rparr>) }"

definition delete_socket :: "addr \<Rightarrow> world \<Rightarrow> world option" where
  "delete_socket s w = do { a \<leftarrow> heap w s; Some (w\<lparr>heap := (heap w)(s := None)\<rparr>) }"

definition new_socket :: "asocket \<Rightarrow> world \<Rightarrow> addr \<times> world" where
  "new_socket a w = (next_addr w, w\<lparr>heap := (heap w)(next_addr w \<mapsto> a), next_addr := next_addr w + 1\<rparr>)"

text \<open>The members of a new \<open>asocket\<close>; the function pointers are given by its creator.\<close>

definition init_socket :: "enqueue_fn \<Rightarrow> ready_fn \<Rightarrow> shutdown_fn \<Rightarrow> close_fn \<Rightarrow> asocket" where
  "init_socket enq rdy shut cls =
     \<lparr>so_id = 0, so_closing = False, so_has_write_error = False, so_exit_on_close = False, so_peer = None,
      so_enqueue = enq, so_ready = rdy, so_shutdown = shut, so_close = cls, so_transport = None,
      so_fde = None, so_fd = - 1, so_packet_queue = iov_new, so_available_send_bytes = None,
      so_smart_socket_data = [], so_tracker = None\<rparr>"

text \<open>\<open>fdevent_add\<close> and \<open>fdevent_del\<close> on a socket's event.\<close>

definition fdevent_set :: "addr \<Rightarrow> (fdevent \<Rightarrow> fdevent) \<Rightarrow> world \<Rightarrow> world option" where
  "fdevent_set s f w = do {
     a \<leftarrow> heap w s;
     e \<leftarrow> so_fde a;
     Some (w\<lparr>heap := (heap w)(s \<mapsto> a\<lparr>so_fde := Some (f e)\<rparr>)\<rparr>)
   }"

section \<open>Sending packets\<close>

definition send_packet_on :: "apacket \<Rightarrow> tref \<Rightarrow> world \<Rightarrow> world option" where
  "send_packet_on p t w = do {
     tr \<leftarrow> transports w t;
     tr' \<leftarrow> send_packet p tr;
     Some (w\<lparr>transports := (transports w)(t \<mapsto> tr')\<rparr>)
   }"

text \<open>A packet from \<open>get_apacket\<close> with its command and arguments set.\<close>

definition command_packet :: "u32 \<Rightarrow> u32 \<Rightarrow> u32 \<Rightarrow> apacket" where
  "command_packet cmd arg0 arg1 =
     get_apacket\<lparr>p_msg := (p_msg get_apacket)\<lparr>m_command := cmd, m_arg0 := arg0, m_arg1 := arg1\<rparr>\<rparr>"

definition data_packet :: "u32 \<Rightarrow> u32 \<Rightarrow> u32 \<Rightarrow> byte block \<Rightarrow> apacket" where
  "data_packet cmd arg0 arg1 data =
     (let p = command_packet cmd arg0 arg1
      in p\<lparr>p_payload := data, p_msg := (p_msg p)\<lparr>m_data_length := of_nat (blk_size data)\<rparr>\<rparr>)"

definition send_ready :: "u32 \<Rightarrow> u32 \<Rightarrow> tref \<Rightarrow> u32 \<Rightarrow> world \<Rightarrow> world option" where
  "send_ready local remote t ack_bytes w = do {
     tr \<leftarrow> transports w t;
     if tr_delayed_ack tr
     then send_packet_on (data_packet A_OKAY local remote (filled_block (le32 ack_bytes))) t w
     else send_packet_on (command_packet A_OKAY local remote) t w
   }"

definition send_close :: "u32 \<Rightarrow> u32 \<Rightarrow> tref \<Rightarrow> world \<Rightarrow> world option" where
  "send_close local remote t w = send_packet_on (command_packet A_CLSE local remote) t w"

section \<open>The list of local sockets\<close>

text \<open>\<open>find_local_socket\<close>: the loop stops at the first socket with the id, whatever its peer.\<close>

fun find_local_socket_in :: "u32 \<Rightarrow> u32 \<Rightarrow> world \<Rightarrow> addr list \<Rightarrow> addr option option" where
  "find_local_socket_in local_id peer_id w [] = Some None"
| "find_local_socket_in local_id peer_id w (s # ss) = do {
     a \<leftarrow> heap w s;
     if so_id a \<noteq> local_id then find_local_socket_in local_id peer_id w ss
     else if peer_id = 0 then Some (Some s)
     else (case so_peer a of
             None \<Rightarrow> Some None
           | Some p \<Rightarrow> do { b \<leftarrow> heap w p; Some (if so_id b = peer_id then Some s else None) })
   }"

definition find_local_socket :: "u32 \<Rightarrow> u32 \<Rightarrow> world \<Rightarrow> addr option option" where
  "find_local_socket local_id peer_id w = find_local_socket_in local_id peer_id w (local_socket_list w)"

definition install_local_socket :: "addr \<Rightarrow> world \<Rightarrow> world option" where
  "install_local_socket s w = do {
     w1 \<leftarrow> update_socket s (\<lambda>a. a\<lparr>so_id := local_socket_next_id w\<rparr>) w;
     let w2 = w1\<lparr>local_socket_next_id := local_socket_next_id w1 + 1\<rparr>;
     CHECK (local_socket_next_id w2 \<noteq> 0);
     Some (w2\<lparr>local_socket_list := local_socket_list w2 @ [s]\<rparr>)
   }"

definition remove_socket :: "addr \<Rightarrow> world \<Rightarrow> world" where
  "remove_socket s w =
     w\<lparr>local_socket_list := removeAll s (local_socket_list w),
       local_socket_closing_list := removeAll s (local_socket_closing_list w)\<rparr>"

section \<open>Closing\<close>

text \<open>
  \<open>local_socket_destroy\<close>: the descriptor goes to \<open>deferred_close\<close>, which shuts it down and drains it.
\<close>

definition local_socket_destroy :: "addr \<Rightarrow> world \<Rightarrow> world option" where
  "local_socket_destroy s w = do {
     a \<leftarrow> heap w s;
     e \<leftarrow> so_fde a;
     let w1 = w\<lparr>draining := so_fd a # draining w\<rparr>;
     w2 \<leftarrow> delete_socket s (remove_socket s w1);
     CHECK (\<not> so_exit_on_close a);
     Some w2
   }"

text \<open>What \<open>local_socket_close\<close> does after the peer is gone.\<close>

definition local_socket_finish :: "addr \<Rightarrow> world \<Rightarrow> world option" where
  "local_socket_finish s w = do {
     a \<leftarrow> heap w s;
     if so_closing a \<or> so_has_write_error a \<or> iov_empty (so_packet_queue a) then local_socket_destroy s w
     else do {
       w1 \<leftarrow> update_socket s (\<lambda>a. a\<lparr>so_closing := True\<rparr>) w;
       w2 \<leftarrow> fdevent_set s (\<lambda>e. e\<lparr>fde_read := False\<rparr>) w1;
       let w3 = remove_socket s w2;
       let w4 = w3\<lparr>local_socket_closing_list := local_socket_closing_list w3 @ [s]\<rparr>;
       a4 \<leftarrow> heap w4 s;
       e \<leftarrow> so_fde a4;
       CHECK (fde_write e);
       Some w4
     }
   }"

text \<open>\<open>remote_socket_shutdown\<close>, and the call through the \<open>shutdown\<close> pointer of a peer, which may be null.\<close>

definition remote_socket_shutdown :: "addr \<Rightarrow> world \<Rightarrow> world option" where
  "remote_socket_shutdown s w = do {
     a \<leftarrow> heap w s;
     arg0 \<leftarrow> (case so_peer a of None \<Rightarrow> Some 0 | Some p \<Rightarrow> do { b \<leftarrow> heap w p; Some (so_id b) });
     t \<leftarrow> so_transport a;
     send_packet_on (command_packet A_CLSE arg0 (so_id a)) t w
   }"

definition sock_shutdown :: "addr \<Rightarrow> world \<Rightarrow> world option" where
  "sock_shutdown s w = do {
     a \<leftarrow> heap w s;
     (case so_shutdown a of NoShutdown \<Rightarrow> Some w | RemoteShutdown \<Rightarrow> remote_socket_shutdown s w)
   }"

definition device_tracker_remove :: "addr \<Rightarrow> world \<Rightarrow> world" where
  "device_tracker_remove s w = w\<lparr>device_tracker_list := remove1 s (device_tracker_list w)\<rparr>"

text \<open>\<open>SendFail\<close> and \<open>SendOkay\<close> on a descriptor; their results are ignored by the callers here.\<close>

definition SendFail_fd :: "int \<Rightarrow> string \<Rightarrow> world \<Rightarrow> world" where
  "SendFail_fd fd reason w = w\<lparr>out_fds := (out_fds w)(fd := snd (SendFail reason (out_fds w fd)))\<rparr>"

definition SendOkay_fd :: "int \<Rightarrow> world \<Rightarrow> world" where
  "SendOkay_fd fd w = w\<lparr>out_fds := (out_fds w)(fd := snd (SendOkay (out_fds w fd)))\<rparr>"

definition disconnect :: "addr \<Rightarrow> world \<Rightarrow> world option" where
  "disconnect p w = update_socket p (\<lambda>b. b\<lparr>so_peer := None\<rparr>) w"

text \<open>The pointers that \<open>local_socket_close_notify\<close> and \<open>local_socket_ready_notify\<close> restore.\<close>

definition plain_local :: "asocket \<Rightarrow> asocket" where
  "plain_local a = a\<lparr>so_ready := LocalReady, so_shutdown := NoShutdown, so_close := LocalClose\<rparr>"


text \<open>
  Measures for the termination of the closing functions: a socket is disconnected before its close is called by its peer, and the notifying
  close restores the plain one first.
\<close>

definition close_rank :: "addr \<Rightarrow> world \<Rightarrow> nat" where
  "close_rank s w = (case heap w s of None \<Rightarrow> 0 | Some a \<Rightarrow> if so_peer a \<noteq> None then 4 else 0)"

definition notify_rank :: "addr \<Rightarrow> world \<Rightarrow> nat" where
  "notify_rank s w = (case heap w s of None \<Rightarrow> 0 | Some a \<Rightarrow> if so_close a = LocalCloseNotify then 2 else 0)"

lemma disconnect_rank: "disconnect p w = Some w' \<Longrightarrow> close_rank p w' = 0 \<and> notify_rank p w' \<le> 2"
  by (auto simp: disconnect_def update_socket_def close_rank_def notify_rank_def split: bind_splits)

lemma plain_local_rank:
  "update_socket s plain_local w = Some w' \<Longrightarrow>
   close_rank s (SendFail_fd fd m w') = close_rank s w \<and> notify_rank s (SendFail_fd fd m w') = 0"
  by (auto simp: update_socket_def plain_local_def SendFail_fd_def close_rank_def notify_rank_def split: bind_splits)

lemma peer_rank:
  "heap w s = Some a \<Longrightarrow> so_peer a = Some p \<Longrightarrow> close_rank s w = 4"
  "heap w s = Some a \<Longrightarrow> so_close a = LocalCloseNotify \<Longrightarrow> notify_rank s w = 2"
  by (simp_all add: close_rank_def notify_rank_def)

function sock_close :: "addr \<Rightarrow> world \<Rightarrow> world option"
  and local_socket_close :: "addr \<Rightarrow> world \<Rightarrow> world option"
  and local_socket_close_notify :: "addr \<Rightarrow> world \<Rightarrow> world option"
  and remote_socket_close :: "addr \<Rightarrow> world \<Rightarrow> world option"
  and smart_socket_close :: "addr \<Rightarrow> world \<Rightarrow> world option"
  and device_tracker_close :: "addr \<Rightarrow> world \<Rightarrow> world option"
where
  "sock_close s w = do {
     a \<leftarrow> heap w s;
     (case so_close a of
        LocalClose \<Rightarrow> local_socket_close s w
      | LocalCloseNotify \<Rightarrow> local_socket_close_notify s w
      | RemoteClose \<Rightarrow> remote_socket_close s w
      | SmartClose \<Rightarrow> smart_socket_close s w
      | TrackerClose \<Rightarrow> device_tracker_close s w)
   }"
| "local_socket_close s w = do {
     a \<leftarrow> heap w s;
     w' \<leftarrow> (case so_peer a of
              None \<Rightarrow> Some w
            | Some p \<Rightarrow> do {
                w1 \<leftarrow> sock_shutdown p w;
                w2 \<leftarrow> disconnect p w1;
                w3 \<leftarrow> sock_close p w2;
                update_socket s (\<lambda>a. a\<lparr>so_peer := None\<rparr>) w3
              });
     local_socket_finish s w'
   }"
| "local_socket_close_notify s w = do {
     w1 \<leftarrow> update_socket s plain_local w;
     a \<leftarrow> heap w1 s;
     sock_close s (SendFail_fd (so_fd a) ''closed'' w1)
   }"
| "remote_socket_close s w = do {
     a \<leftarrow> heap w s;
     w' \<leftarrow> (case so_peer a of
              None \<Rightarrow> Some w
            | Some p \<Rightarrow> do { w1 \<leftarrow> disconnect p w; sock_close p w1 });
     delete_socket s w'
   }"
| "smart_socket_close s w = do {
     a \<leftarrow> heap w s;
     w' \<leftarrow> (case so_peer a of
              None \<Rightarrow> Some w
            | Some p \<Rightarrow> do {
                w1 \<leftarrow> disconnect p w;
                w2 \<leftarrow> sock_close p w1;
                update_socket s (\<lambda>a. a\<lparr>so_peer := None\<rparr>) w2
              });
     delete_socket s w'
   }"
| "device_tracker_close s w = do {
     a \<leftarrow> heap w s;
     w' \<leftarrow> (case so_peer a of
              None \<Rightarrow> Some w
            | Some p \<Rightarrow> do { w1 \<leftarrow> disconnect p w; sock_close p w1 });
     delete_socket s (device_tracker_remove s w')
   }"
  by pat_completeness auto

termination
proof (relation "measure (\<lambda>x. case x of
      Inl (Inl (s, w)) \<Rightarrow> close_rank s w + notify_rank s w + 1
    | Inl (Inr (Inl (s, w))) \<Rightarrow> close_rank s w
    | Inl (Inr (Inr (s, w))) \<Rightarrow> close_rank s w + 2
    | Inr (Inl (s, w)) \<Rightarrow> close_rank s w
    | Inr (Inr (Inl (s, w))) \<Rightarrow> close_rank s w
    | Inr (Inr (Inr (s, w))) \<Rightarrow> close_rank s w)", goal_cases)
qed (auto simp: peer_rank plain_local_rank dest!: disconnect_rank)

declare sock_close.simps [simp del] local_socket_close.simps [simp del] local_socket_close_notify.simps [simp del]
  remote_socket_close.simps [simp del] smart_socket_close.simps [simp del] device_tracker_close.simps [simp del]


text \<open>
  \<open>close_all_sockets\<close>: the scan restarts after every close.  It is a \<open>partial_function\<close>; that it ends is
  a lemma on well-formed worlds.
\<close>

fun first_of_transport :: "tref \<Rightarrow> world \<Rightarrow> addr list \<Rightarrow> addr option option" where
  "first_of_transport t w [] = Some None"
| "first_of_transport t w (s # ss) = do {
     a \<leftarrow> heap w s;
     peer_match \<leftarrow> (case so_peer a of
                      None \<Rightarrow> Some False
                    | Some p \<Rightarrow> do { b \<leftarrow> heap w p; Some (so_transport b = Some t) });
     if so_transport a = Some t \<or> peer_match then Some (Some s) else first_of_transport t w ss
   }"

partial_function (option) close_all_sockets :: "tref \<Rightarrow> world \<Rightarrow> world option" where
  "close_all_sockets t w = do {
     r \<leftarrow> first_of_transport t w (local_socket_list w);
     (case r of
        None \<Rightarrow> Some w
      | Some s \<Rightarrow> do { w' \<leftarrow> sock_close s w; close_all_sockets t w' })
   }"

section \<open>Moving data\<close>

definition transport_max_payload :: "tref option \<Rightarrow> world \<Rightarrow> nat option" where
  "transport_max_payload t w =
     (case t of None \<Rightarrow> Some MAX_PAYLOAD | Some t \<Rightarrow> do { tr \<leftarrow> transports w t; Some (min MAX_PAYLOAD (tr_max_payload tr)) })"

definition get_max_payload :: "addr \<Rightarrow> world \<Rightarrow> nat option" where
  "get_max_payload s w = do {
     a \<leftarrow> heap w s;
     m1 \<leftarrow> transport_max_payload (so_transport a) w;
     m2 \<leftarrow> (case so_peer a of
             None \<Rightarrow> Some MAX_PAYLOAD
           | Some p \<Rightarrow> do { b \<leftarrow> heap w p; transport_max_payload (so_transport b) w });
     Some (min m1 m2)
   }"

text \<open>
  \<open>adb_writev\<close>: one call writes a prefix of the gathered bytes; Linux transfers at most \<open>0x7ffff000\<close>
  bytes per call.
\<close>

definition adb_writev :: "bytes list \<Rightarrow> ostream \<Rightarrow> (errno + nat) \<times> ostream" where
  "adb_writev iov os = adb_write (take 0x7ffff000 (concat iov)) os"

datatype SocketFlushResult = Destroyed | TryAgain | Completed

text \<open>The write of \<open>local_socket_flush_incoming\<close>: the socket afterwards and the number of bytes flushed.\<close>

definition flush_queue :: "asocket \<Rightarrow> ostream \<Rightarrow> (asocket \<times> nat \<times> ostream) option" where
  "flush_queue a os =
     (if iov_empty (so_packet_queue a) then Some (a, 0, os)
      else do {
        iov \<leftarrow> iov_iovecs (so_packet_queue a);
        (case adb_writev iov os of
           (Inr rc, os') \<Rightarrow>
             if rc > 0 then
               (if rc = iov_size (so_packet_queue a)
                then Some (a\<lparr>so_packet_queue := fst (iov_clear (so_packet_queue a))\<rparr>, rc, os')
                else do { q \<leftarrow> iov_drop_front rc (so_packet_queue a); Some (a\<lparr>so_packet_queue := q\<rparr>, rc, os') })
             else Some (a\<lparr>so_has_write_error := True\<rparr>, 0, os')
         | (Inl e, os') \<Rightarrow>
             if e = EAGAIN then Some (a, 0, os') else Some (a\<lparr>so_has_write_error := True\<rparr>, 0, os'))
      })"

text \<open>The acknowledgement after a flush.\<close>

definition acknowledge :: "asocket \<Rightarrow> nat \<Rightarrow> world \<Rightarrow> world option" where
  "acknowledge a bytes_flushed w =
     (case (so_transport a, so_peer a) of
        (Some t, Some p) \<Rightarrow> do {
          b \<leftarrow> heap w p;
          if so_available_send_bytes a \<noteq> None then send_ready (so_id a) (so_id b) t (of_nat bytes_flushed) w
          else if (of_nat bytes_flushed :: u32) \<noteq> 0 \<and> iov_size (so_packet_queue a) < MAX_PAYLOAD
               then send_ready (so_id a) (so_id b) t 0 w
          else Some w
        }
      | _ \<Rightarrow> Some w)"

definition local_socket_flush_incoming :: "addr \<Rightarrow> world \<Rightarrow> (SocketFlushResult \<times> world) option" where
  "local_socket_flush_incoming s w = do {
     a \<leftarrow> heap w s;
     (a1, bytes_flushed, os') \<leftarrow> flush_queue a (out_fds w (so_fd a));
     let w1 = w\<lparr>heap := (heap w)(s \<mapsto> a1), out_fds := (out_fds w)(so_fd a := os')\<rparr>;
     let fd_full = (\<not> iov_empty (so_packet_queue a1) \<and> \<not> so_has_write_error a1);
     w2 \<leftarrow> acknowledge a1 bytes_flushed w1;
     if so_closing a1 \<and> \<not> fd_full then do { w3 \<leftarrow> sock_close s w2; Some (Destroyed, w3) }
     else if fd_full then do { w3 \<leftarrow> fdevent_set s (\<lambda>e. e\<lparr>fde_write := True\<rparr>) w2; Some (TryAgain, w3) }
     else do { w3 \<leftarrow> fdevent_set s (\<lambda>e. e\<lparr>fde_write := False\<rparr>) w2; Some (Completed, w3) }
   }"

definition local_socket_enqueue :: "addr \<Rightarrow> byte block \<Rightarrow> world \<Rightarrow> (int \<times> world) option" where
  "local_socket_enqueue s data w = do {
     w1 \<leftarrow> update_socket s (\<lambda>a. a\<lparr>so_packet_queue := fst (iov_append data (so_packet_queue a))\<rparr>) w;
     (r, w2) \<leftarrow> local_socket_flush_incoming s w1;
     Some (case r of Destroyed \<Rightarrow> - 1 | TryAgain \<Rightarrow> 1 | Completed \<Rightarrow> 0, w2)
   }"

definition local_socket_ready :: "addr \<Rightarrow> world \<Rightarrow> world option" where
  "local_socket_ready s w = fdevent_set s (\<lambda>e. e\<lparr>fde_read := True\<rparr>) w"

definition local_socket_ready_notify :: "addr \<Rightarrow> world \<Rightarrow> world option" where
  "local_socket_ready_notify s w = do {
     w1 \<leftarrow> update_socket s plain_local w;
     a \<leftarrow> heap w1 s;
     local_socket_ready s (SendOkay_fd (so_fd a) w1)
   }"

definition remote_socket_enqueue :: "addr \<Rightarrow> byte block \<Rightarrow> world \<Rightarrow> (int \<times> world) option" where
  "remote_socket_enqueue s data w = do {
     a \<leftarrow> heap w s;
     p \<leftarrow> so_peer a;
     b \<leftarrow> heap w p;
     if blk_size data > MAX_PAYLOAD then Some (- 1, w)
     else do {
       t \<leftarrow> so_transport a;
       w1 \<leftarrow> send_packet_on (data_packet A_WRTE (so_id b) (so_id a) data) t w;
       Some (1, w1)
     }
   }"

definition remote_socket_ready :: "addr \<Rightarrow> world \<Rightarrow> world option" where
  "remote_socket_ready s w = do {
     a \<leftarrow> heap w s;
     p \<leftarrow> so_peer a;
     b \<leftarrow> heap w p;
     t \<leftarrow> so_transport a;
     send_packet_on (command_packet A_OKAY (so_id b) (so_id a)) t w
   }"

section \<open>Creating sockets\<close>

definition create_local_socket :: "int \<Rightarrow> world \<Rightarrow> (addr \<times> world) option" where
  "create_local_socket fd w = do {
     let (s, w1) = new_socket ((init_socket LocalEnqueue LocalReady NoShutdown LocalClose)\<lparr>so_fd := fd\<rparr>) w;
     w2 \<leftarrow> install_local_socket s w1;
     w3 \<leftarrow> update_socket s (\<lambda>a. a\<lparr>so_fde := Some \<lparr>fde_read = False, fde_write = False\<rparr>\<rparr>) w2;
     Some (s, w3)
   }"

definition create_remote_socket :: "u32 \<Rightarrow> tref \<Rightarrow> world \<Rightarrow> (addr \<times> world) option" where
  "create_remote_socket ident t w = do {
     CHECK (ident \<noteq> 0);
     Some (new_socket ((init_socket RemoteEnqueue RemoteReady RemoteShutdown RemoteClose)
             \<lparr>so_id := ident, so_transport := Some t\<rparr>) w)
   }"

definition create_smart_socket :: "world \<Rightarrow> addr \<times> world" where
  "create_smart_socket w = new_socket (init_socket SmartEnqueue SmartReady NoShutdown SmartClose) w"

definition create_device_tracker :: "TrackerOutputType \<Rightarrow> world \<Rightarrow> addr \<times> world" where
  "create_device_tracker output_type w =
     (let (s, w1) = new_socket ((init_socket TrackerEnqueue TrackerReady NoShutdown TrackerClose)
            \<lparr>so_tracker := Some (True, output_type)\<rparr>) w
      in (s, w1\<lparr>device_tracker_list := s # device_tracker_list w1\<rparr>))"


definition INITIAL_DELAYED_ACK_BYTES :: nat where
  "INITIAL_DELAYED_ACK_BYTES = 32 * 1024 * 1024"

text \<open>
  The surroundings of the sockets: libbase, help texts and the generated protobuf encoder; whether
  this is the host build; the services of \<open>services.cpp\<close> and \<open>daemon/services.cpp\<close> (\<open>service_to_fd\<close> and
  \<open>daemon_service_to_socket\<close>, which return a descriptor or a socket); and the two functions of the
  host that answer a request of the smart socket.
\<close>

datatype HostRequestResult = Handled | SwitchedTransport | Unhandled

record env =
  e_libbase :: libbase
  e_help :: help_texts
  e_proto :: "atransport list \<Rightarrow> bool \<Rightarrow> string"
  e_host :: bool
  e_burst :: bool
  e_service_to_fd :: "string \<Rightarrow> tref option \<Rightarrow> world \<Rightarrow> (int option \<times> world) option"
  e_daemon_service_to_socket :: "string \<Rightarrow> tref option \<Rightarrow> world \<Rightarrow> (addr option \<times> world) option"
  e_exit_on_close :: "string \<Rightarrow> bool"
  e_handle_host_request ::
    "string \<Rightarrow> TransportType \<Rightarrow> string option \<Rightarrow> u64 \<Rightarrow> int \<Rightarrow> addr \<Rightarrow> world \<Rightarrow> (HostRequestResult \<times> world) option"
  e_host_service_to_socket :: "string \<Rightarrow> string \<Rightarrow> u64 \<Rightarrow> world \<Rightarrow> (addr option \<times> world) option"

text \<open>\<open>create_local_service_socket\<close>; \<open>e_exit_on_close\<close> is the condition on the service name, the user id and the build.\<close>

definition create_local_service_socket :: "env \<Rightarrow> string \<Rightarrow> tref option \<Rightarrow> world \<Rightarrow> (addr option \<times> world) option" where
  "create_local_service_socket env name t w = do {
     (r, w1) \<leftarrow> (if \<not> e_host env then e_daemon_service_to_socket env name t w else Some (None, w));
     (case r of
        Some s \<Rightarrow> Some (Some s, w1)
      | None \<Rightarrow> do {
          (fd, w2) \<leftarrow> e_service_to_fd env name t w1;
          (case fd of
             None \<Rightarrow> Some (None, w2)
           | Some fd \<Rightarrow> do {
               (s, w3) \<leftarrow> create_local_socket fd w2;
               w4 \<leftarrow> update_socket s (\<lambda>a. a\<lparr>so_transport := t,
                       so_exit_on_close := (\<not> e_host env \<and> e_exit_on_close env name)\<rparr>) w3;
               Some (Some s, w4)
             })
        })
   }"

text \<open>Surroundings in which no service exists.\<close>

definition bare_env :: env where
  "bare_env = \<lparr>e_libbase = ref_libbase, e_help = \<lparr>NoPermissionsShort = ''no permissions'', NoPermissionsLong = ''no permissions''\<rparr>,
     e_proto = (\<lambda>_ _. []), e_host = True, e_burst = False, e_service_to_fd = (\<lambda>_ _ w. Some (None, w)),
     e_daemon_service_to_socket = (\<lambda>_ _ w. Some (None, w)), e_exit_on_close = (\<lambda>_. False),
     e_handle_host_request = (\<lambda>_ _ _ _ _ _ w. Some (Unhandled, w)), e_host_service_to_socket = (\<lambda>_ _ _ w. Some (None, w))\<rparr>"

section \<open>Device trackers and calls through pointers\<close>

definition device_tracker_enqueue :: "addr \<Rightarrow> byte block \<Rightarrow> world \<Rightarrow> (int \<times> world) option" where
  "device_tracker_enqueue s data w = do { w1 \<leftarrow> device_tracker_close s w; Some (- 1, w1) }"

text \<open>
  The call \<open>peer->enqueue\<close> of a tracker.  A smart socket is never the peer of a tracker; that case is
  left out here, so it counts as an abort.
\<close>

definition enqueue_plain :: "addr \<Rightarrow> byte block \<Rightarrow> world \<Rightarrow> (int \<times> world) option" where
  "enqueue_plain s data w = do {
     a \<leftarrow> heap w s;
     (case so_enqueue a of
        LocalEnqueue \<Rightarrow> local_socket_enqueue s data w
      | RemoteEnqueue \<Rightarrow> remote_socket_enqueue s data w
      | TrackerEnqueue \<Rightarrow> device_tracker_enqueue s data w
      | SmartEnqueue \<Rightarrow> None)
   }"

definition device_tracker_send :: "addr \<Rightarrow> string \<Rightarrow> world \<Rightarrow> (int \<times> world) option" where
  "device_tracker_send s str w = do {
     a \<leftarrow> heap w s;
     p \<leftarrow> so_peer a;
     enqueue_plain p (filled_block (take 4 (format_04x (length str mod 2 ^ 32)) @ str)) w
   }"

definition current_transports :: "tref list \<Rightarrow> world \<Rightarrow> atransport list option" where
  "current_transports ts w = those (map (transports w) ts)"

definition tracker_text :: "env \<Rightarrow> TrackerOutputType \<Rightarrow> world \<Rightarrow> string option" where
  "tracker_text env ty w = do {
     ts \<leftarrow> current_transports (transport_list w) w;
     Some (list_transports (e_help env) (e_proto env) ty ts)
   }"

definition device_tracker_ready :: "env \<Rightarrow> addr \<Rightarrow> world \<Rightarrow> world option" where
  "device_tracker_ready env s w = do {
     a \<leftarrow> heap w s;
     (update_needed, ty) \<leftarrow> so_tracker a;
     if update_needed then do {
       w1 \<leftarrow> update_socket s (\<lambda>a. a\<lparr>so_tracker := Some (False, ty)\<rparr>) w;
       str \<leftarrow> tracker_text env ty w1;
       (_, w2) \<leftarrow> device_tracker_send s str w1;
       Some w2
     } else Some w
   }"

text \<open>The call \<open>s->ready(s)\<close>.\<close>

definition sock_ready :: "env \<Rightarrow> addr \<Rightarrow> world \<Rightarrow> world option" where
  "sock_ready env s w = do {
     a \<leftarrow> heap w s;
     (case so_ready a of
        LocalReady \<Rightarrow> local_socket_ready s w
      | LocalReadyNotify \<Rightarrow> local_socket_ready_notify s w
      | RemoteReady \<Rightarrow> remote_socket_ready s w
      | SmartReady \<Rightarrow> Some w
      | TrackerReady \<Rightarrow> device_tracker_ready env s w)
   }"

definition local_socket_ack :: "env \<Rightarrow> addr \<Rightarrow> int option \<Rightarrow> world \<Rightarrow> world option" where
  "local_socket_ack env s acked_bytes w = do {
     a \<leftarrow> heap w s;
     (case (so_available_send_bytes a, acked_bytes) of
        (Some avail, Some acked) \<Rightarrow> do {
          w1 \<leftarrow> update_socket s (\<lambda>a. a\<lparr>so_available_send_bytes := Some (avail + acked)\<rparr>) w;
          if avail + acked > 0 then sock_ready env s w1 else Some w1
        }
      | (None, None) \<Rightarrow> sock_ready env s w
      | _ \<Rightarrow> Some w)
   }"

definition connect_to_remote :: "env \<Rightarrow> addr \<Rightarrow> string \<Rightarrow> world \<Rightarrow> world option" where
  "connect_to_remote env s destination w = do {
     a \<leftarrow> heap w s;
     t \<leftarrow> so_transport a;
     tr \<leftarrow> transports w t;
     tr1 \<leftarrow> (if e_host env then UpdateReverseConfig (e_libbase env) destination tr else Some tr);
     let w1 = w\<lparr>transports := (transports w)(t \<mapsto> tr1)\<rparr>;
     let data = filled_block (destination @ [CHR 0x00]);
     let arg1 = (if tr_delayed_ack tr1 then of_nat INITIAL_DELAYED_ACK_BYTES else 0);
     w2 \<leftarrow> (if tr_delayed_ack tr1
            then update_socket s (\<lambda>a. a\<lparr>so_available_send_bytes := Some 0\<rparr>) w1 else Some w1);
     mp \<leftarrow> get_max_payload s w2;
     let p = data_packet A_OPEN (so_id a) arg1 data;
     CHECK (unat (m_data_length (p_msg p)) \<le> mp);
     send_packet_on p t w2
   }"


section \<open>The smart socket\<close>

text \<open>
  The selection of transport in front of a request: serial, transport id and type, and the rest of
  the request, which is empty when it is not for the host.  \<open>Inl False\<close> is the jump to \<open>fail\<close>,
  \<open>Inl True\<close> the plain \<open>return -1\<close>.
\<close>

definition parse_service_request ::
    "libbase \<Rightarrow> string \<Rightarrow> (bool + (string \<times> u64 \<times> TransportType \<times> string)) option" where
  "parse_service_request lb service =
     (case ConsumePrefix lb service ''host-serial:'' of
        Some s1 \<Rightarrow> do {
          r \<leftarrow> parse_host_service s1;
          Some (case r of None \<Rightarrow> Inl False | Some (serial, command) \<Rightarrow> Inr (serial, 0, kTransportAny, command))
        }
      | None \<Rightarrow>
          (case ConsumePrefix lb service ''host-transport-id:'' of
             Some s1 \<Rightarrow>
               (case ParseUint 64 s1 of
                  None \<Rightarrow> Some (Inl True)
                | Some (transport_id, s2) \<Rightarrow>
                    (case ConsumePrefix lb s2 '':'' of
                       None \<Rightarrow> Some (Inl True)
                     | Some s3 \<Rightarrow> Some (Inr ([], of_nat transport_id, kTransportAny, s3))))
           | None \<Rightarrow>
               (case ConsumePrefix lb service ''host-usb:'' of
                  Some s1 \<Rightarrow> Some (Inr ([], 0, kTransportUsb, s1))
                | None \<Rightarrow>
                    (case ConsumePrefix lb service ''host-local:'' of
                       Some s1 \<Rightarrow> Some (Inr ([], 0, kTransportLocal, s1))
                     | None \<Rightarrow>
                         (case ConsumePrefix lb service ''host:'' of
                            Some s1 \<Rightarrow> Some (Inr ([], 0, kTransportAny, s1))
                          | None \<Rightarrow> Some (Inr ([], 0, kTransportAny, [])))))))"

text \<open>The label \<open>fail\<close>.\<close>

definition smart_fail :: "addr \<Rightarrow> world \<Rightarrow> (int \<times> world) option" where
  "smart_fail s w = do { w1 \<leftarrow> sock_close s w; Some (- 1, w1) }"

text \<open>The descriptor of the client: \<open>s->peer->fd\<close>.\<close>

definition peer_fd :: "addr \<Rightarrow> world \<Rightarrow> (addr \<times> int) option" where
  "peer_fd s w = do { a \<leftarrow> heap w s; p \<leftarrow> so_peer a; b \<leftarrow> heap w p; Some (p, so_fd b) }"

text \<open>A request to the host itself.\<close>

definition smart_host_request ::
    "env \<Rightarrow> addr \<Rightarrow> string \<Rightarrow> u64 \<Rightarrow> TransportType \<Rightarrow> string \<Rightarrow> world \<Rightarrow> (int \<times> world) option" where
  "smart_host_request env s serial transport_id type service w = do {
     (_, fd) \<leftarrow> peer_fd s w;
     (result, w1) \<leftarrow> e_handle_host_request env service type (if serial = [] then None else Some serial) transport_id fd s w;
     (case result of
        Handled \<Rightarrow> smart_fail s w1
      | SwitchedTransport \<Rightarrow> do {
          w2 \<leftarrow> update_socket s (\<lambda>a. a\<lparr>so_smart_socket_data := []\<rparr>) w1;
          Some (0, w2)
        }
      | Unhandled \<Rightarrow> do {
          (r, w2) \<leftarrow> e_host_service_to_socket env service serial transport_id w1;
          (p, fd2) \<leftarrow> peer_fd s w2;
          (case r of
             None \<Rightarrow> smart_fail s (SendFail_fd fd2 (''unknown host service '' @ CHR 0x27 # service @ [CHR 0x27]) w2)
           | Some s2 \<Rightarrow> do {
               w3 \<leftarrow> update_socket p (\<lambda>b. (plain_local b)\<lparr>so_peer := Some s2\<rparr>) (SendOkay_fd fd2 w2);
               w4 \<leftarrow> update_socket s2 (\<lambda>c. c\<lparr>so_peer := Some p\<rparr>) w3;
               w5 \<leftarrow> update_socket s (\<lambda>a. a\<lparr>so_peer := None\<rparr>) w4;
               w6 \<leftarrow> sock_close s w5;
               w7 \<leftarrow> sock_ready env s2 w6;
               Some (0, w7)
             })
        })
   }"

text \<open>A request to the device: the client's socket is connected to it.\<close>

definition smart_device_request :: "env \<Rightarrow> addr \<Rightarrow> string \<Rightarrow> world \<Rightarrow> (int \<times> world) option" where
  "smart_device_request env s service w = do {
     a \<leftarrow> heap w s;
     (p, fd) \<leftarrow> peer_fd s w;
     (case so_transport a of
        None \<Rightarrow> smart_fail s (SendFail_fd fd ''device offline (no transport)'' w)
      | Some t \<Rightarrow> do {
          tr \<leftarrow> transports w t;
          if \<not> ConnectionStateIsOnline (tr_state tr)
          then smart_fail s (SendFail_fd fd ''device offline (transport offline)'' w)
          else do {
            w1 \<leftarrow> update_socket p (\<lambda>b. b\<lparr>so_ready := LocalReadyNotify, so_shutdown := NoShutdown,
                    so_close := LocalCloseNotify, so_peer := None, so_transport := Some t\<rparr>) w;
            w2 \<leftarrow> connect_to_remote env p service w1;
            w3 \<leftarrow> update_socket s (\<lambda>a. a\<lparr>so_peer := None\<rparr>) w2;
            w4 \<leftarrow> sock_close s w3;
            Some (1, w4)
          }
        })
   }"

text \<open>
  \<open>smart_socket_data[len + 4] = 0\<close> overwrites a byte after the request, if there is one; the service
  string is everything after the length.
\<close>

definition smart_socket_enqueue :: "env \<Rightarrow> addr \<Rightarrow> byte block \<Rightarrow> world \<Rightarrow> (int \<times> world) option" where
  "smart_socket_enqueue env s data w = do {
     a \<leftarrow> heap w s;
     let d = so_smart_socket_data a @ block_bytes data;
     w1 \<leftarrow> update_socket s (\<lambda>a. a\<lparr>so_smart_socket_data := d\<rparr>) w;
     if length d < 4 then Some (0, w1)
     else do {
       len \<leftarrow> unhex d 4;
       if len = 0 \<or> unat len > MAX_PAYLOAD then smart_fail s w1
       else if unat len + 4 > length d then Some (0, w1)
       else do {
         let d2 = d[unat len + 4 := CHR 0x00];
         w2 \<leftarrow> update_socket s (\<lambda>a. a\<lparr>so_smart_socket_data := d2\<rparr>) w1;
         r \<leftarrow> parse_service_request (e_libbase env) (drop 4 d2);
         (case r of
            Inl False \<Rightarrow> smart_fail s w2
          | Inl True \<Rightarrow> Some (- 1, w2)
          | Inr (serial, transport_id, type, service) \<Rightarrow>
              if service \<noteq> [] then smart_host_request env s serial transport_id type service w2
              else smart_device_request env s (drop 4 d2) w2)
       }
     }
   }"

text \<open>The call \<open>s->enqueue(s, data)\<close>.\<close>

definition sock_enqueue :: "env \<Rightarrow> addr \<Rightarrow> byte block \<Rightarrow> world \<Rightarrow> (int \<times> world) option" where
  "sock_enqueue env s data w = do {
     a \<leftarrow> heap w s;
     (case so_enqueue a of
        SmartEnqueue \<Rightarrow> smart_socket_enqueue env s data w
      | _ \<Rightarrow> enqueue_plain s data w)
   }"

definition connect_to_smartsocket :: "env \<Rightarrow> addr \<Rightarrow> world \<Rightarrow> world option" where
  "connect_to_smartsocket env s w = do {
     let (ss, w1) = create_smart_socket w;
     w2 \<leftarrow> update_socket s (\<lambda>a. a\<lparr>so_peer := Some ss\<rparr>) w1;
     w3 \<leftarrow> update_socket ss (\<lambda>a. a\<lparr>so_peer := Some s\<rparr>) w2;
     sock_ready env s w3
   }"

section \<open>Events of a local socket\<close>

text \<open>The read loop of \<open>local_socket_flush_outgoing\<close>: the bytes read and whether the end was reached.\<close>

function read_available :: "nat \<Rightarrow> istream \<Rightarrow> bytes \<times> bool \<times> istream" where
  "read_available avail es =
     (if avail > 0 then
        (case adb_read avail es of
           (Inl e, es') \<Rightarrow> ([], e \<noteq> EAGAIN, es')
         | (Inr r, es') \<Rightarrow>
             if length r > 0 then
               (let (bs, eof, es'') = read_available (avail - length r) es' in (r @ bs, eof, es''))
             else ([], True, es'))
      else ([], False, es))"
  by pat_completeness auto
termination
  by (relation "measure fst") auto

declare read_available.simps [simp del]

text \<open>The payload that is read: a block of the maximal size, shrunk to what was read.\<close>

definition read_payload :: "(nat \<Rightarrow> byte) \<Rightarrow> nat \<Rightarrow> bytes \<Rightarrow> byte block option" where
  "read_payload junk max_payload bs = do {
     b \<leftarrow> block_resize junk max_payload block_new;
     b1 \<leftarrow> block_store bs b;
     block_resize junk (length bs) b1
   }"

definition local_socket_flush_outgoing :: "env \<Rightarrow> addr \<Rightarrow> world \<Rightarrow> (bool \<times> world) option" where
  "local_socket_flush_outgoing env s w = do {
     a \<leftarrow> heap w s;
     max_payload \<leftarrow> get_max_payload s w;
     let (bs, is_eof, es) = read_available max_payload (in_fds w (so_fd a));
     let w1 = w\<lparr>in_fds := (in_fds w)(so_fd a := es)\<rparr>;
     (go_on, w2) \<leftarrow>
       (case so_peer a of
          Some p \<Rightarrow>
            if bs \<noteq> [] then do {
              data \<leftarrow> read_payload (fresh_memory w) max_payload bs;
              wa \<leftarrow> update_socket s (\<lambda>a. a\<lparr>so_available_send_bytes :=
                      map_option (\<lambda>n. n - int (length bs)) (so_available_send_bytes a)\<rparr>) w1;
              (r, wb) \<leftarrow> sock_enqueue env p data wa;
              if r < 0 then Some (False, wb)
              else if r > 0 then do {
                b \<leftarrow> heap wb s;
                wc \<leftarrow> (case so_available_send_bytes b of
                         Some n \<Rightarrow> if n \<le> 0 then fdevent_set s (\<lambda>e. e\<lparr>fde_read := False\<rparr>) wb else Some wb
                       | None \<Rightarrow> fdevent_set s (\<lambda>e. e\<lparr>fde_read := False\<rparr>) wb);
                Some (True, wc)
              } else Some (True, wb)
            } else Some (True, w1)
        | None \<Rightarrow> Some (True, w1));
     if \<not> go_on then Some (False, w2)
     else if is_eof then do { w3 \<leftarrow> sock_close s w2; Some (False, w3) }
     else Some (True, w2)
   }"

definition local_socket_event_func :: "env \<Rightarrow> addr \<Rightarrow> bool \<Rightarrow> bool \<Rightarrow> world \<Rightarrow> world option" where
  "local_socket_event_func env s ev_read ev_write w = do {
     (r, w1) \<leftarrow> (if ev_write then local_socket_flush_incoming s w else Some (Completed, w));
     if r = Destroyed then Some w1
     else if ev_read then do { (_, w2) \<leftarrow> local_socket_flush_outgoing env s w1; Some w2 }
     else Some w1
   }"

text \<open>
  The callback of \<open>deferred_close\<close>: it reads until nothing more comes; the result says whether the
  descriptor is closed.  \<open>expired\<close>: more than a second has passed since the shutdown.
\<close>

fun drain_loop :: "istream \<Rightarrow> errno option \<times> istream" where
  "drain_loop [] = (None, [])"
| "drain_loop (RFault e # es) = (Some e, es)"
| "drain_loop (Got c # es) = (if c = [] then (None, es) else drain_loop es)"

definition deferred_close_callback :: "int \<Rightarrow> bool \<Rightarrow> bool \<Rightarrow> bool \<Rightarrow> world \<Rightarrow> world" where
  "deferred_close_callback fd ev_read ev_timeout expired w =
     (let (e, es) = (if ev_read then drain_loop (in_fds w fd) else (None, in_fds w fd));
          w1 = w\<lparr>in_fds := (in_fds w)(fd := es)\<rparr>
      in if ev_read \<and> e = Some EAGAIN \<and> \<not> expired then w1 else w1\<lparr>draining := remove1 fd (draining w1)\<rparr>)"

section \<open>Changes of the transport list\<close>

text \<open>\<open>iterate_transports\<close> stops at the first transport for which the function is false.\<close>

definition iterate_transports :: "(atransport \<Rightarrow> bool) \<Rightarrow> world \<Rightarrow> bool option" where
  "iterate_transports fn w = do {
     ts \<leftarrow> current_transports (transport_list w) w;
     if list_all fn ts then do {
       ps \<leftarrow> current_transports (pending_list w) w;
       Some (list_all fn ps)
     } else Some False
   }"

definition update_transport_status :: "world \<Rightarrow> world option" where
  "update_transport_status w = do {
     result \<leftarrow> iterate_transports (\<lambda>t. \<not> (tr_type t = kTransportUsb \<and> \<not> tr_online t)) w;
     Some (w\<lparr>transports_ready := result\<rparr>)
   }"

definition adb_notify_device_scan_complete :: "world \<Rightarrow> world option" where
  "adb_notify_device_scan_complete w =
     (if device_scan_complete w then Some w else update_transport_status (w\<lparr>device_scan_complete := True\<rparr>))"

text \<open>\<open>update_transports\<close> on the host; the next tracker is read before the call, which may delete this one.\<close>

fun notify_trackers :: "env \<Rightarrow> addr list \<Rightarrow> world \<Rightarrow> world option" where
  "notify_trackers env [] w = Some w"
| "notify_trackers env (s # ss) w = do {
     a \<leftarrow> heap w s;
     (_, ty) \<leftarrow> so_tracker a;
     str \<leftarrow> tracker_text env ty w;
     (_, w1) \<leftarrow> device_tracker_send s str w;
     notify_trackers env ss w1
   }"

definition update_transports :: "env \<Rightarrow> world \<Rightarrow> world option" where
  "update_transports env w =
     (if e_host env then do {
        w1 \<leftarrow> update_transport_status w;
        notify_trackers env (device_tracker_list w1) w1
      } else Some w)"

end
