(* ===== verification/Adb_Sockets_Inv.thy ===== *)
theory Adb_Sockets_Inv
  imports Adb_Sockets
begin

text \<open>
  The invariant of the sockets and its preservation.  \<open>sock_inv\<close> says that the heap has no dangling
  pointers: peers point at each other, every socket that is not local has a local peer, the two
  global lists hold exactly the local sockets, the tracker list exactly the trackers.  A local socket
  with data to write is waiting for its descriptor, so the \<open>CHECK\<close> in \<open>local_socket_close\<close> holds.

  Closing is described by \<open>retire\<close>: a set of sockets leaves the heap, or stays on the closing list with
  its data and without a peer.
\<close>

section \<open>The invariant\<close>

abbreviation is_local :: "asocket \<Rightarrow> bool" where "is_local a \<equiv> so_enqueue a = LocalEnqueue"

definition local_wf :: "asocket \<Rightarrow> bool" where
  "local_wf a \<longleftrightarrow>
     so_shutdown a = NoShutdown \<and> iov_wf (so_packet_queue a) \<and> \<not> so_exit_on_close a \<and>
     (so_close a = LocalClose \<and> so_ready a = LocalReady \<or>
      so_close a = LocalCloseNotify \<and> so_ready a = LocalReadyNotify) \<and>
     (\<exists>e. so_fde a = Some e \<and> (so_closing a \<longrightarrow> \<not> fde_read e) \<and>
       (iov_bytes (so_packet_queue a) = [] \<or> so_has_write_error a \<or> fde_write e)) \<and>
     (so_closing a \<longrightarrow> so_peer a = None \<and> so_close a = LocalClose)"

definition socket_wf :: "asocket \<Rightarrow> bool" where
  "socket_wf a \<longleftrightarrow>
     (case so_enqueue a of
        LocalEnqueue \<Rightarrow> local_wf a
      | RemoteEnqueue \<Rightarrow> so_ready a = RemoteReady \<and> so_shutdown a = RemoteShutdown \<and> so_close a = RemoteClose \<and>
          so_transport a \<noteq> None \<and> so_id a \<noteq> 0 \<and> \<not> so_closing a
      | SmartEnqueue \<Rightarrow> so_ready a = SmartReady \<and> so_shutdown a = NoShutdown \<and> so_close a = SmartClose \<and> \<not> so_closing a
      | TrackerEnqueue \<Rightarrow> so_ready a = TrackerReady \<and> so_shutdown a = NoShutdown \<and> so_close a = TrackerClose \<and>
          so_tracker a \<noteq> None \<and> \<not> so_closing a)"

definition lists_ok :: "world \<Rightarrow> bool" where
  "lists_ok w \<longleftrightarrow>
     distinct (local_socket_list w @ local_socket_closing_list w) \<and> distinct (device_tracker_list w) \<and>
     (\<forall>s. s \<in> set (local_socket_list w) \<longleftrightarrow> (\<exists>a. heap w s = Some a \<and> is_local a \<and> \<not> so_closing a)) \<and>
     (\<forall>s. s \<in> set (local_socket_closing_list w) \<longleftrightarrow> (\<exists>a. heap w s = Some a \<and> is_local a \<and> so_closing a)) \<and>
     (\<forall>s. s \<in> set (device_tracker_list w) \<longleftrightarrow> (\<exists>a. heap w s = Some a \<and> so_enqueue a = TrackerEnqueue))"

definition transports_ok :: "world \<Rightarrow> bool" where
  "transports_ok w \<longleftrightarrow>
     (\<forall>s a t. heap w s = Some a \<longrightarrow> so_transport a = Some t \<longrightarrow> \<not> so_closing a \<longrightarrow> transports w t \<noteq> None) \<and>
     (\<forall>t \<in> set (transport_list w) \<union> set (pending_list w). transports w t \<noteq> None)"

definition peers_ok :: "world \<Rightarrow> bool" where
  "peers_ok w \<longleftrightarrow>
     (\<forall>s a. heap w s = Some a \<longrightarrow>
        (case so_peer a of
           None \<Rightarrow> is_local a
         | Some p \<Rightarrow> p \<noteq> s \<and> (\<exists>b. heap w p = Some b \<and> so_peer b = Some s \<and> (is_local a \<or> is_local b))))"

definition ids_ok :: "world \<Rightarrow> bool" where
  "ids_ok w \<longleftrightarrow>
     local_socket_next_id w \<noteq> 0 \<and>
     (\<forall>s a. heap w s = Some a \<longrightarrow> s < next_addr w) \<and>
     (\<forall>s a. heap w s = Some a \<longrightarrow> is_local a \<longrightarrow> so_id a \<noteq> 0 \<and> so_id a < local_socket_next_id w) \<and>
     (\<forall>s s' a a'. heap w s = Some a \<longrightarrow> heap w s' = Some a' \<longrightarrow> is_local a \<longrightarrow> is_local a' \<longrightarrow>
        so_id a = so_id a' \<longrightarrow> s = s')"

definition sock_inv :: "world \<Rightarrow> bool" where
  "sock_inv w \<longleftrightarrow>
     (\<forall>s a. heap w s = Some a \<longrightarrow> socket_wf a) \<and> lists_ok w \<and> transports_ok w \<and> peers_ok w \<and> ids_ok w"

lemma sock_inv_initial: "\<forall>t \<in> set ts. trs t \<noteq> None \<Longrightarrow> sock_inv (initial_world trs ts)"
  by (simp add: sock_inv_def lists_ok_def transports_ok_def peers_ok_def ids_ok_def initial_world_def)

section \<open>Retiring sockets\<close>

text \<open>What may be left of a local socket that is closed: its queue, on the closing list.\<close>

definition zombie_of :: "asocket \<Rightarrow> asocket \<Rightarrow> bool" where
  "zombie_of a b \<longleftrightarrow> is_local a \<and> \<not> so_closing a \<and> is_local b \<and> local_wf b \<and> so_closing b \<and> so_id b = so_id a \<and>
     so_packet_queue b = so_packet_queue a \<and> so_fd b = so_fd a \<and> so_transport b = so_transport a"

text \<open>Worlds that differ in packets sent and descriptors only.\<close>

definition same_sockets :: "world \<Rightarrow> world \<Rightarrow> bool" where
  "same_sockets w w' \<longleftrightarrow>
     next_addr w' = next_addr w \<and> local_socket_next_id w' = local_socket_next_id w \<and>
     transport_list w' = transport_list w \<and> pending_list w' = pending_list w \<and>
     (\<forall>t. transports w' t = None \<longleftrightarrow> transports w t = None)"

definition retire :: "addr set \<Rightarrow> world \<Rightarrow> world \<Rightarrow> bool" where
  "retire D w w' \<longleftrightarrow>
     same_sockets w w' \<and> lists_ok w' \<and>
     (\<forall>x. x \<notin> D \<longrightarrow> heap w' x = heap w x) \<and>
     (\<forall>x \<in> D. case heap w' x of None \<Rightarrow> True | Some b \<Rightarrow> \<exists>a. heap w x = Some a \<and> zombie_of a b)"

lemma inv_wf: "sock_inv w \<Longrightarrow> heap w s = Some a \<Longrightarrow> socket_wf a"
  unfolding sock_inv_def by blast

lemma inv_local_wf: "sock_inv w \<Longrightarrow> heap w s = Some a \<Longrightarrow> is_local a \<Longrightarrow> local_wf a"
  using inv_wf [of w s a] by (simp add: socket_wf_def)

lemma inv_lists: "sock_inv w \<Longrightarrow> lists_ok w"
  by (simp add: sock_inv_def)

lemma lists_ok_transports [simp]: "lists_ok (w\<lparr>transports := f\<rparr>) = lists_ok w"
  by (simp add: lists_ok_def)

lemma same_sockets_refl [simp]: "same_sockets w w"
  by (simp add: same_sockets_def)

lemma same_sockets_trans: "same_sockets w w1 \<Longrightarrow> same_sockets w1 w2 \<Longrightarrow> same_sockets w w2"
  by (simp add: same_sockets_def)

lemma retire_zombie:
  assumes "retire D w w'" and "x \<in> D" and "heap w' x = Some b"
  obtains a where "heap w x = Some a" and "zombie_of a b"
proof -
  have "case heap w' x of None \<Rightarrow> True | Some b \<Rightarrow> \<exists>a. heap w x = Some a \<and> zombie_of a b"
    using assms(1,2) unfolding retire_def by blast
  with assms(3) that show ?thesis by auto
qed

lemma retire_inv:
  assumes inv: "sock_inv w" and r: "retire D w w'"
    and closed: "\<And>x a p. x \<in> D \<Longrightarrow> heap w x = Some a \<Longrightarrow> so_peer a = Some p \<Longrightarrow> p \<in> D"
  shows "sock_inv w'"
proof -
  have keep: "heap w' x = heap w x" if "x \<notin> D" for x using r that by (simp add: retire_def)
  have zomb: "\<exists>a. heap w x = Some a \<and> zombie_of a b" if "x \<in> D" "heap w' x = Some b" for x b
    using retire_zombie [OF r that] by blast
  have old: "\<exists>a. heap w x = Some a \<and> (x \<notin> D \<and> a = b \<or> x \<in> D \<and> zombie_of a b)" if "heap w' x = Some b" for x b
    using keep zomb that by (cases "x \<in> D") auto
  have same: "same_sockets w w'" and lists: "lists_ok w'" using r by (simp_all add: retire_def)
  have wf: "socket_wf a" if "heap w s = Some a" for s a using inv that by (simp add: sock_inv_def)
  have "socket_wf b" if "heap w' s = Some b" for s b
    using old [OF that] wf by (auto simp: zombie_of_def socket_wf_def)
  moreover have "transports_ok w'"
    unfolding transports_ok_def
  proof (intro conjI allI impI ballI)
    fix s b t assume b: "heap w' s = Some b" "so_transport b = Some t" "\<not> so_closing b"
    then have "heap w s = Some b" using old [OF b(1)] by (auto simp: zombie_of_def)
    then have "transports w t \<noteq> None" using inv b by (simp add: sock_inv_def transports_ok_def)
    then show "transports w' t \<noteq> None" using same by (simp add: same_sockets_def)
  next
    fix t assume "t \<in> set (transport_list w') \<union> set (pending_list w')"
    then have "transports w t \<noteq> None" using inv same by (auto simp: sock_inv_def transports_ok_def same_sockets_def)
    then show "transports w' t \<noteq> None" using same by (simp add: same_sockets_def)
  qed
  moreover have "peers_ok w'"
    unfolding peers_ok_def
  proof (intro allI impI)
    fix s b assume b: "heap w' s = Some b"
    show "case so_peer b of None \<Rightarrow> is_local b
         | Some p \<Rightarrow> p \<noteq> s \<and> (\<exists>c. heap w' p = Some c \<and> so_peer c = Some s \<and> (is_local b \<or> is_local c))"
    proof (cases "s \<in> D")
      case True
      with old [OF b] show ?thesis by (auto simp: zombie_of_def local_wf_def)
    next
      case False
      with old [OF b] have w: "heap w s = Some b" by auto
      then have pk: "case so_peer b of None \<Rightarrow> is_local b
         | Some p \<Rightarrow> p \<noteq> s \<and> (\<exists>c. heap w p = Some c \<and> so_peer c = Some s \<and> (is_local b \<or> is_local c))"
        using inv by (simp add: sock_inv_def peers_ok_def)
      show ?thesis
      proof (cases "so_peer b")
        case (Some p)
        with pk obtain c where c: "heap w p = Some c" "so_peer c = Some s" by auto
        then have "p \<notin> D" using closed [of p c s] False by blast
        with pk Some keep show ?thesis by simp
      qed (use pk in simp)
    qed
  qed
  moreover have "ids_ok w'"
  proof -
    have lid: "\<exists>a. heap w x = Some a \<and> is_local a \<and> so_id a = so_id b" if "heap w' x = Some b" "is_local b" for x b
      using old [OF that(1)] that(2) by (auto simp: zombie_of_def)
    have ids: "ids_ok w" using inv by (simp add: sock_inv_def)
    have eq: "next_addr w' = next_addr w" "local_socket_next_id w' = local_socket_next_id w"
      using same by (simp_all add: same_sockets_def)
    show ?thesis
      unfolding ids_ok_def eq
    proof (intro conjI allI impI)
      show "local_socket_next_id w \<noteq> 0" using ids by (simp add: ids_ok_def)
    next
      fix s a assume "heap w' s = Some a"
      then obtain a' where "heap w s = Some a'" using old by blast
      then show "s < next_addr w" using ids by (auto simp: ids_ok_def)
    next
      fix s a assume "heap w' s = Some a" "is_local a"
      then obtain a' where "heap w s = Some a'" "is_local a'" "so_id a' = so_id a" using lid by blast
      then show "so_id a \<noteq> 0" "so_id a < local_socket_next_id w"
        using ids unfolding ids_ok_def by (metis, metis)
    next
      fix s s' a a'
      assume a: "heap w' s = Some a" "heap w' s' = Some a'" "is_local a" "is_local a'" "so_id a = so_id a'"
      obtain c where c: "heap w s = Some c" "is_local c" "so_id c = so_id a" using lid a by blast
      obtain c' where c': "heap w s' = Some c'" "is_local c'" "so_id c' = so_id a'" using lid a by blast
      from c c' a(5) show "s = s'" using ids unfolding ids_ok_def by metis
    qed
  qed
  ultimately show ?thesis using lists by (simp add: sock_inv_def)
qed


text \<open>Updates that a later close does not notice.\<close>

definition similar :: "asocket \<Rightarrow> asocket \<Rightarrow> bool" where
  "similar a b \<longleftrightarrow> so_enqueue b = so_enqueue a \<and> so_closing b = so_closing a \<and> so_id b = so_id a \<and>
     so_packet_queue b = so_packet_queue a \<and> so_fd b = so_fd a \<and> so_transport b = so_transport a"

lemma retire_cong:
  assumes "retire D w0 w'" and "same_sockets w w0" and "\<And>x. x \<notin> D \<Longrightarrow> heap w0 x = heap w x"
    and "\<And>x a0. x \<in> D \<Longrightarrow> heap w0 x = Some a0 \<Longrightarrow> \<exists>a. heap w x = Some a \<and> similar a a0"
  shows "retire D w w'"
  unfolding retire_def
proof (intro conjI allI impI ballI)
  show "same_sockets w w'" using assms(1,2) same_sockets_trans by (auto simp: retire_def)
  show "lists_ok w'" using assms(1) by (simp add: retire_def)
  show "heap w' x = heap w x" if "x \<notin> D" for x using assms(1,3) that by (simp add: retire_def)
  show "case heap w' x of None \<Rightarrow> True | Some b \<Rightarrow> \<exists>a. heap w x = Some a \<and> zombie_of a b" if xD: "x \<in> D" for x
  proof (cases "heap w' x")
    case (Some b)
    obtain a0 where a0: "heap w0 x = Some a0" "zombie_of a0 b" using retire_zombie [OF assms(1) xD Some] by blast
    from assms(4) [OF xD a0(1)] obtain a where "heap w x = Some a" "similar a a0" by blast
    with a0(2) Some show ?thesis by (auto simp: zombie_of_def similar_def)
  qed simp
qed

lemma retire_trans:
  assumes "retire D w w1" and "retire E w1 w2"
  shows "retire (D \<union> E) w w2"
  unfolding retire_def
proof (intro conjI allI impI ballI)
  show "same_sockets w w2" using assms same_sockets_trans by (auto simp: retire_def)
  show "lists_ok w2" using assms by (simp add: retire_def)
  show "heap w2 x = heap w x" if "x \<notin> D \<union> E" for x using assms that by (simp add: retire_def)
  show "case heap w2 x of None \<Rightarrow> True | Some b \<Rightarrow> \<exists>a. heap w x = Some a \<and> zombie_of a b" if x: "x \<in> D \<union> E" for x
  proof (cases "heap w2 x")
    case (Some b)
    show ?thesis
    proof (cases "x \<in> E")
      case True
      obtain a where a: "heap w1 x = Some a" "zombie_of a b" using retire_zombie [OF assms(2) True Some] by blast
      show ?thesis
      proof (cases "x \<in> D")
        case True
        from retire_zombie [OF assms(1) True a(1)] have "so_closing a" by (auto simp: zombie_of_def)
        with a(2) show ?thesis by (simp add: zombie_of_def)
      next
        case False
        with assms(1) a Some show ?thesis by (simp add: retire_def)
      qed
    next
      case False
      with x have D: "x \<in> D" by blast
      have "heap w1 x = Some b" using assms(2) False Some by (simp add: retire_def)
      from retire_zombie [OF assms(1) D this] show ?thesis using Some by auto
    qed
  qed simp
qed

section \<open>Sending\<close>

definition packet_fits :: "apacket \<Rightarrow> bool" where
  "packet_fits p \<longleftrightarrow>
     unat (m_data_length (p_msg p)) \<le> length (case blk_data (p_payload p) of None \<Rightarrow> [] | Some d \<Rightarrow> d)"

lemma packet_fits_command [simp]: "packet_fits (command_packet cmd a b)"
  by (simp add: packet_fits_def command_packet_def get_apacket_def zero_message_def)

lemma packet_fits_data [simp]: "block_wf data \<Longrightarrow> packet_fits (data_packet cmd a b data)"
  using unat_of_nat [of "blk_size data", where 'a = 32] mod_less_eq_dividend [of "blk_size data" "2 ^ 32"]
  by (auto simp: packet_fits_def data_packet_def Let_def block_wf_def split: option.splits)

lemma send_packet_Some:
  assumes "packet_fits p"
  obtains tr' where "send_packet p tr = Some tr'"
proof -
  have "stamp_packet v p \<noteq> None" for v
    using assms by (simp add: stamp_packet_def calculate_apacket_checksum_def packet_fits_def Let_def)
  then obtain q where "stamp_packet (tr_protocol_version tr) p = Some q" by blast
  then show ?thesis using that by (cases "tr_accepts tr") (simp_all add: send_packet_def)
qed

lemma send_packet_on_ok:
  assumes "packet_fits p" and "transports w t \<noteq> None"
  obtains w' where "send_packet_on p t w = Some w'" and "w' = w\<lparr>transports := transports w'\<rparr>"
    and "same_sockets w w'"
proof -
  obtain tr where tr: "transports w t = Some tr" using assms(2) by blast
  obtain tr' where tr': "send_packet p tr = Some tr'" using send_packet_Some [OF assms(1)] by blast
  show ?thesis
    by (rule that [of "w\<lparr>transports := (transports w)(t \<mapsto> tr')\<rparr>"])
      (use tr tr' in \<open>simp_all add: send_packet_on_def same_sockets_def\<close>)
qed

section \<open>Closing\<close>

lemma update_socket_Some: "heap w s = Some a \<Longrightarrow> update_socket s f w = Some (w\<lparr>heap := (heap w)(s \<mapsto> f a)\<rparr>)"
  by (simp add: update_socket_def)

lemma lists_ok_update:
  assumes "heap w s = Some a" and "so_enqueue b = so_enqueue a" and "so_closing b = so_closing a"
  shows "lists_ok (w\<lparr>heap := (heap w)(s \<mapsto> b)\<rparr>) = lists_ok w"
proof -
  let ?w = "w\<lparr>heap := (heap w)(s \<mapsto> b)\<rparr>"
  have "(\<exists>c. heap ?w x = Some c \<and> P (so_enqueue c) (so_closing c)) = (\<exists>c. heap w x = Some c \<and> P (so_enqueue c) (so_closing c))"
    for x and P :: "enqueue_fn \<Rightarrow> bool \<Rightarrow> bool"
    using assms by auto
  note eq = this [of _ "\<lambda>e c. e = LocalEnqueue \<and> \<not> c"] this [of _ "\<lambda>e c. e = LocalEnqueue \<and> c"]
    this [of _ "\<lambda>e c. e = TrackerEnqueue"]
  show ?thesis unfolding lists_ok_def eq by simp
qed


text \<open>Removing a socket from the heap and from the lists.\<close>

lemma lists_ok_delete:
  assumes ok: "lists_ok w" and heap: "heap w' = (heap w)(s := None)"
    and lists: "local_socket_list w' = removeAll s (local_socket_list w)"
      "local_socket_closing_list w' = removeAll s (local_socket_closing_list w)"
      "device_tracker_list w' = removeAll s (device_tracker_list w)"
  shows "lists_ok w'"
  using ok unfolding lists_ok_def heap lists by (auto simp: distinct_removeAll)

lemma removeAll_tracker:
  assumes "lists_ok w" and "heap w s = Some a"
  shows "so_enqueue a \<noteq> TrackerEnqueue \<Longrightarrow> removeAll s (device_tracker_list w) = device_tracker_list w"
    and "\<not> is_local a \<Longrightarrow> removeAll s (local_socket_list w) = local_socket_list w"
    and "\<not> is_local a \<Longrightarrow> removeAll s (local_socket_closing_list w) = local_socket_closing_list w"
    and "remove1 s (device_tracker_list w) = removeAll s (device_tracker_list w)"
  using assms by (auto simp: lists_ok_def removeAll_id distinct_remove1_removeAll)

lemma local_socket_destroy_ok:
  assumes ok: "lists_ok w" and a: "heap w s = Some a" "is_local a" "so_fde a \<noteq> None" "\<not> so_exit_on_close a"
  obtains w' where "local_socket_destroy s w = Some w'" and "retire {s} w w'" and "heap w' s = None"
    and "out_fds w' = out_fds w" and "transports w' = transports w"
proof -
  define w' where "w' = (remove_socket s (w\<lparr>draining := so_fd a # draining w\<rparr>))\<lparr>heap := (heap w)(s := None)\<rparr>"
  have d: "local_socket_destroy s w = Some w'"
    using a by (auto simp: local_socket_destroy_def delete_socket_def remove_socket_def w'_def)
  have "lists_ok w'"
    by (rule lists_ok_delete [OF ok, of _ s]) (use removeAll_tracker [OF ok a(1)] a(2) in \<open>simp_all add: w'_def remove_socket_def\<close>)
  then have "retire {s} w w'"
    by (simp add: retire_def w'_def remove_socket_def same_sockets_def)
  with d show ?thesis by (rule that) (simp_all add: w'_def remove_socket_def)
qed

lemma lists_ok_to_closing:
  assumes ok: "lists_ok w" and a: "heap w s = Some a" "is_local a" and b: "is_local b" "so_closing b"
    and heap: "heap w' = (heap w)(s \<mapsto> b)"
    and lists: "local_socket_list w' = removeAll s (local_socket_list w)"
      "local_socket_closing_list w' = removeAll s (local_socket_closing_list w) @ [s]"
      "device_tracker_list w' = device_tracker_list w"
  shows "lists_ok w'"
  using ok a b unfolding lists_ok_def heap lists by (auto simp: distinct_removeAll)

lemma local_socket_finish_ok:
  assumes ok: "lists_ok w" and a: "heap w s = Some a" "is_local a" "local_wf a" "so_peer a = None" "so_close a = LocalClose"
  obtains w' where "local_socket_finish s w = Some w'" and "retire {s} w w'"
    and "so_closing a \<or> so_has_write_error a \<or> iov_bytes (so_packet_queue a) = [] \<Longrightarrow> heap w' s = None"
    and "out_fds w' = out_fds w" and "transports w' = transports w"
proof -
  have q: "iov_empty (so_packet_queue a) \<longleftrightarrow> iov_bytes (so_packet_queue a) = []"
    using a(3) iov_size_bytes [of "so_packet_queue a"] by (simp add: local_wf_def iov_empty_def)
  obtain e where e: "so_fde a = Some e"
    and armed: "iov_bytes (so_packet_queue a) = [] \<or> so_has_write_error a \<or> fde_write e"
    using a(3) by (auto simp: local_wf_def)
  show ?thesis
  proof (cases "so_closing a \<or> so_has_write_error a \<or> iov_empty (so_packet_queue a)")
    case True
    have "so_fde a \<noteq> None" "\<not> so_exit_on_close a" using a(3) e by (simp_all add: local_wf_def)
    then obtain w' where w': "local_socket_destroy s w = Some w'" "retire {s} w w'" "heap w' s = None"
      "out_fds w' = out_fds w" "transports w' = transports w"
      by (rule local_socket_destroy_ok [OF ok a(1,2)])
    show ?thesis
      by (rule that [OF _ w'(2)]) (use w' True a(1) in \<open>simp_all add: local_socket_finish_def\<close>)
  next
    case False
    define b where "b = a\<lparr>so_closing := True, so_fde := Some (e\<lparr>fde_read := False\<rparr>)\<rparr>"
    define w' where "w' = w\<lparr>heap := (heap w)(s \<mapsto> b), local_socket_list := removeAll s (local_socket_list w),
      local_socket_closing_list := removeAll s (local_socket_closing_list w) @ [s]\<rparr>"
    have "fde_write e" using armed False q by simp
    then have f: "local_socket_finish s w = Some w'"
      using a(1) e False
      by (simp add: local_socket_finish_def update_socket_def fdevent_set_def remove_socket_def w'_def b_def)
    have "lists_ok w'"
      by (rule lists_ok_to_closing [OF ok a(1,2)]) (use a(2) in \<open>simp_all add: w'_def b_def\<close>)
    moreover have "zombie_of a b"
      using a False armed e q by (auto simp: zombie_of_def b_def local_wf_def)
    ultimately have "retire {s} w w'"
      using a(1) by (simp add: retire_def w'_def same_sockets_def)
    with f show ?thesis by (rule that) (use False q in \<open>auto simp: w'_def\<close>)
  qed
qed


lemma delete_socket_ok:
  assumes ok: "lists_ok w" and a: "heap w s = Some a" "\<not> is_local a"
  shows "so_enqueue a \<noteq> TrackerEnqueue \<Longrightarrow> \<exists>w'. delete_socket s w = Some w' \<and> retire {s} w w'"
    and "so_enqueue a = TrackerEnqueue \<Longrightarrow> \<exists>w'. delete_socket s (device_tracker_remove s w) = Some w' \<and> retire {s} w w'"
proof -
  note r = removeAll_tracker [OF ok a(1)]
  show "\<exists>w'. delete_socket s w = Some w' \<and> retire {s} w w'" if n: "so_enqueue a \<noteq> TrackerEnqueue"
  proof -
    have "lists_ok (w\<lparr>heap := (heap w)(s := None)\<rparr>)"
      by (rule lists_ok_delete [OF ok, of _ s]) (use r a(2) n in simp_all)
    then show ?thesis
      using a(1) by (simp add: delete_socket_def retire_def same_sockets_def)
  qed
  show "\<exists>w'. delete_socket s (device_tracker_remove s w) = Some w' \<and> retire {s} w w'" if "so_enqueue a = TrackerEnqueue"
  proof -
    have "lists_ok ((device_tracker_remove s w)\<lparr>heap := (heap w)(s := None)\<rparr>)"
      by (rule lists_ok_delete [OF ok, of _ s]) (use r a(2) in \<open>simp_all add: device_tracker_remove_def\<close>)
    then show ?thesis
      using a(1) by (simp add: delete_socket_def retire_def same_sockets_def device_tracker_remove_def)
  qed
qed

text \<open>The close of a local socket without a peer, through either pointer.\<close>

lemma lists_ok_SendFail [simp]: "lists_ok (SendFail_fd fd m w) = lists_ok w"
  by (simp add: SendFail_fd_def lists_ok_def)

lemma close_local_alone:
  assumes ok: "lists_ok w" and a: "heap w s = Some a" "is_local a" "local_wf a" "so_peer a = None"
  obtains w' where "sock_close s w = Some w'" and "retire {s} w w'" and "transports w' = transports w"
    and "so_closing a \<or> so_has_write_error a \<or> iov_bytes (so_packet_queue a) = [] \<Longrightarrow> heap w' s = None"
    and "so_close a = LocalClose \<Longrightarrow> out_fds w' = out_fds w"
proof (cases "so_close a")
  case LocalClose
  obtain w' where w': "local_socket_finish s w = Some w'" "retire {s} w w'" "transports w' = transports w"
    "so_closing a \<or> so_has_write_error a \<or> iov_bytes (so_packet_queue a) = [] \<Longrightarrow> heap w' s = None"
    "out_fds w' = out_fds w"
    using local_socket_finish_ok [OF ok a LocalClose] by metis
  show ?thesis
    by (rule that [of w']) (use w' a LocalClose in \<open>simp_all add: sock_close.simps local_socket_close.simps\<close>)
next
  case LocalCloseNotify
  define b where "b = plain_local a"
  define w0 where "w0 = SendFail_fd (so_fd b) ''closed'' (w\<lparr>heap := (heap w)(s \<mapsto> b)\<rparr>)"
  have b: "heap w0 s = Some b" "is_local b" "local_wf b" "so_peer b = None" "so_close b = LocalClose"
    using a LocalCloseNotify by (auto simp: w0_def SendFail_fd_def b_def plain_local_def local_wf_def)
  have ok0: "lists_ok w0"
    using ok lists_ok_update [OF a(1), of b] by (simp add: w0_def b_def plain_local_def)
  have tr0: "transports w0 = transports w" by (simp add: w0_def SendFail_fd_def)
  have same: "same_sockets w w0" by (simp add: w0_def same_sockets_def SendFail_fd_def)
  obtain w' where w': "local_socket_finish s w0 = Some w'" "retire {s} w0 w'" "transports w' = transports w0"
    "so_closing b \<or> so_has_write_error b \<or> iov_bytes (so_packet_queue b) = [] \<Longrightarrow> heap w' s = None"
    using local_socket_finish_ok [OF ok0 b] by metis
  have "retire {s} w w'"
    by (rule retire_cong [OF w'(2) same])
      (use a b(1) in \<open>auto simp: w0_def SendFail_fd_def similar_def b_def plain_local_def\<close>)
  moreover have "sock_close s w = Some w'"
  proof -
    have "sock_close s w = sock_close s w0"
      using a LocalCloseNotify
      by (simp add: sock_close.simps [of s w] local_socket_close_notify.simps update_socket_def w0_def b_def)
    also have "\<dots> = Some w'"
      using b w'(1) by (simp add: sock_close.simps local_socket_close.simps b_def plain_local_def)
    finally show ?thesis .
  qed
  ultimately show ?thesis
    using that [of w'] w'(3,4) tr0 LocalCloseNotify by (simp add: b_def plain_local_def)
qed (use a in \<open>auto simp: local_wf_def\<close>)

lemma close_alone:
  assumes ok: "lists_ok w" and a: "heap w s = Some a" "socket_wf a" "so_peer a = None"
  shows "\<exists>w'. sock_close s w = Some w' \<and> retire {s} w w'"
proof (cases "so_enqueue a")
  case LocalEnqueue
  with a show ?thesis using close_local_alone [OF ok a(1)] by (auto simp: socket_wf_def)
next
  case RemoteEnqueue
  with a show ?thesis
    using delete_socket_ok(1) [OF ok a(1)] by (simp add: socket_wf_def sock_close.simps remote_socket_close.simps)
next
  case SmartEnqueue
  with a show ?thesis
    using delete_socket_ok(1) [OF ok a(1)] by (simp add: socket_wf_def sock_close.simps smart_socket_close.simps)
next
  case TrackerEnqueue
  with a show ?thesis
    using delete_socket_ok(2) [OF ok a(1)] by (simp add: socket_wf_def sock_close.simps device_tracker_close.simps)
qed


text \<open>Updates that keep the invariant.\<close>

lemma sock_inv_update:
  assumes inv: "sock_inv w" and a: "heap w s = Some a"
    and b: "so_enqueue b = so_enqueue a" "so_closing b = so_closing a" "so_id b = so_id a" "so_peer b = so_peer a"
      "socket_wf b" "so_transport b = so_transport a"
  shows "sock_inv (w\<lparr>heap := (heap w)(s \<mapsto> b)\<rparr>)"
proof -
  let ?w = "w\<lparr>heap := (heap w)(s \<mapsto> b)\<rparr>"
  have old: "\<exists>d. heap w x = Some d \<and> so_enqueue c = so_enqueue d \<and> so_closing c = so_closing d \<and> so_id c = so_id d \<and>
      so_peer c = so_peer d \<and> so_transport c = so_transport d" if "heap ?w x = Some c" for x c
    using that a b by (cases "x = s") auto
  have new: "\<exists>c. heap ?w x = Some c \<and> so_enqueue c = so_enqueue d \<and> so_peer c = so_peer d"
    if "heap w x = Some d" for x d
    using that a b by (cases "x = s") auto
  have parts: "lists_ok w" "transports_ok w" "peers_ok w" "ids_ok w" "\<forall>x c. heap w x = Some c \<longrightarrow> socket_wf c"
    using inv by (simp_all add: sock_inv_def)
  have "lists_ok ?w" using parts(1) lists_ok_update [OF a b(1,2)] by simp
  moreover have "transports_ok ?w"
    using parts(2) old unfolding transports_ok_def by simp metis
  moreover have "peers_ok ?w"
    unfolding peers_ok_def
  proof (intro allI impI)
    fix x c assume c: "heap ?w x = Some c"
    from old [OF c] obtain d where d: "heap w x = Some d" "so_enqueue c = so_enqueue d" "so_peer c = so_peer d" by blast
    have pk: "case so_peer d of None \<Rightarrow> is_local d
         | Some p \<Rightarrow> p \<noteq> x \<and> (\<exists>f. heap w p = Some f \<and> so_peer f = Some x \<and> (is_local d \<or> is_local f))"
      using parts(3) d(1) by (simp add: peers_ok_def)
    show "case so_peer c of None \<Rightarrow> is_local c
         | Some p \<Rightarrow> p \<noteq> x \<and> (\<exists>f. heap ?w p = Some f \<and> so_peer f = Some x \<and> (is_local c \<or> is_local f))"
    proof (cases "so_peer d")
      case (Some p)
      with pk obtain f where "p \<noteq> x" "heap w p = Some f" "so_peer f = Some x" "is_local d \<or> is_local f" by auto
      with new [of p f] d Some show ?thesis by auto
    qed (use pk d in simp)
  qed
  moreover have "ids_ok ?w"
    unfolding ids_ok_def
  proof (intro conjI allI impI)
    show "local_socket_next_id ?w \<noteq> 0" using parts(4) by (simp add: ids_ok_def)
  next
    fix x c assume "heap ?w x = Some c"
    with old obtain d where "heap w x = Some d" by blast
    then show "x < next_addr ?w" using parts(4) by (auto simp: ids_ok_def)
  next
    fix x c assume "heap ?w x = Some c" "is_local c"
    with old obtain d where "heap w x = Some d" "is_local d" "so_id c = so_id d" by metis
    then show "so_id c \<noteq> 0" "so_id c < local_socket_next_id ?w" using parts(4) by (auto simp: ids_ok_def)
  next
    fix x y c d assume *: "heap ?w x = Some c" "heap ?w y = Some d" "is_local c" "is_local d" "so_id c = so_id d"
    obtain c' d' where "heap w x = Some c'" "is_local c'" "so_id c = so_id c'" "heap w y = Some d'" "is_local d'" "so_id d = so_id d'"
      using old [OF *(1)] old [OF *(2)] *(3,4) by auto
    with *(5) show "x = y" using parts(4) unfolding ids_ok_def by metis
  qed
  moreover have "\<forall>x c. heap ?w x = Some c \<longrightarrow> socket_wf c" using parts(5) b(5) by auto
  ultimately show ?thesis unfolding sock_inv_def by blast
qed

lemma sock_inv_same:
  assumes "heap w' = heap w" and "local_socket_list w' = local_socket_list w"
    and "local_socket_closing_list w' = local_socket_closing_list w" and "device_tracker_list w' = device_tracker_list w"
    and "same_sockets w w'"
  shows "sock_inv w' = sock_inv w"
proof -
  have eq: "next_addr w' = next_addr w" "local_socket_next_id w' = local_socket_next_id w"
    "transport_list w' = transport_list w" "pending_list w' = pending_list w"
    "\<And>t. (transports w' t \<noteq> None) = (transports w t \<noteq> None)"
    using assms(5) by (auto simp: same_sockets_def)
  show ?thesis
    unfolding sock_inv_def lists_ok_def transports_ok_def peers_ok_def ids_ok_def assms(1-4) eq by (rule refl)
qed

lemma lists_ok_same:
  assumes "heap w' = heap w" and "local_socket_list w' = local_socket_list w"
    and "local_socket_closing_list w' = local_socket_closing_list w" and "device_tracker_list w' = device_tracker_list w"
  shows "lists_ok w' = lists_ok w"
  using assms by (simp add: lists_ok_def)

lemma peer_facts:
  assumes inv: "sock_inv w" and a: "heap w s = Some a" and p: "so_peer a = Some p"
  obtains b where "heap w p = Some b" and "so_peer b = Some s" and "p \<noteq> s" and "is_local a \<or> is_local b"
    and "socket_wf b" and "\<not> so_closing a" and "\<not> so_closing b"
proof -
  have pk: "peers_ok w" and wf: "\<And>x c. heap w x = Some c \<Longrightarrow> socket_wf c" using inv by (simp_all add: sock_inv_def)
  have "case so_peer a of None \<Rightarrow> is_local a
      | Some p \<Rightarrow> p \<noteq> s \<and> (\<exists>b. heap w p = Some b \<and> so_peer b = Some s \<and> (is_local a \<or> is_local b))"
    using pk a unfolding peers_ok_def by blast
  then obtain b where b: "heap w p = Some b" "so_peer b = Some s" "p \<noteq> s" "is_local a \<or> is_local b" using p by auto
  have nc: "\<not> so_closing c" if "socket_wf c" "so_peer c \<noteq> None" for c
    using that by (auto simp: socket_wf_def local_wf_def split: enqueue_fn.splits)
  show ?thesis
    by (rule that [OF b wf [OF b(1)]]) (use nc [OF wf [OF a]] nc [OF wf [OF b(1)]] p b(2) in simp_all)
qed

lemma sock_shutdown_ok:
  assumes inv: "sock_inv w" and b: "heap w p = Some b" and q: "so_peer b \<noteq> None"
  obtains w1 where "sock_shutdown p w = Some w1" and "w1 = w\<lparr>transports := transports w1\<rparr>" and "same_sockets w w1"
proof (cases "so_enqueue b = RemoteEnqueue")
  case True
  have wf: "socket_wf b" using inv b by (auto simp: sock_inv_def)
  obtain s where s: "so_peer b = Some s" using q by blast
  obtain a where a: "heap w s = Some a" "\<not> so_closing b" by (rule peer_facts [OF inv b s])
  obtain t where t: "so_transport b = Some t" "so_shutdown b = RemoteShutdown"
    using wf True by (auto simp: socket_wf_def)
  have "transports w t \<noteq> None" using inv b t a(2) by (auto simp: sock_inv_def transports_ok_def)
  with send_packet_on_ok [OF packet_fits_command this, of A_CLSE "so_id a" "so_id b"]
  show ?thesis
    using that b s a t by (simp add: sock_shutdown_def remote_socket_shutdown_def) metis
next
  case False
  have "socket_wf b" using inv b by (auto simp: sock_inv_def)
  with False have "so_shutdown b = NoShutdown"
    by (cases "so_enqueue b") (simp_all add: socket_wf_def local_wf_def)
  then show ?thesis using that [of w] b by (simp add: sock_shutdown_def)
qed


text \<open>The peer is disconnected and closed.\<close>

lemma disconnect_close:
  assumes ok: "lists_ok w" and b: "heap w p = Some b" "socket_wf b"
  obtains w2 w3 where "disconnect p w = Some w2" and "sock_close p w2 = Some w3" and "retire {p} w w3"
proof -
  define b0 where "b0 = b\<lparr>so_peer := None\<rparr>"
  define w2 where "w2 = w\<lparr>heap := (heap w)(p \<mapsto> b0)\<rparr>"
  have b0: "heap w2 p = Some b0" "socket_wf b0" "so_peer b0 = None"
    using b by (auto simp: w2_def b0_def socket_wf_def local_wf_def split: enqueue_fn.splits)
  have "lists_ok w2" using ok lists_ok_update [OF b(1), of b0] by (simp add: w2_def b0_def)
  from close_alone [OF this b0] obtain w3 where w3: "sock_close p w2 = Some w3" "retire {p} w2 w3" by blast
  have "retire {p} w w3"
    by (rule retire_cong [OF w3(2)]) (use b in \<open>auto simp: w2_def b0_def same_sockets_def similar_def\<close>)
  with w3(1) show ?thesis
    by (intro that [of w2 w3]) (use b in \<open>simp_all add: disconnect_def update_socket_def w2_def b0_def\<close>)
qed

text \<open>The set of sockets that a close takes away.\<close>

abbreviation with_peer :: "addr \<Rightarrow> asocket \<Rightarrow> addr set" where
  "with_peer s a \<equiv> insert s (set_option (so_peer a))"

lemma close_local_pair:
  assumes inv: "sock_inv w" and a: "heap w s = Some a" "is_local a" "so_peer a = Some p" "so_close a = LocalClose"
  shows "\<exists>w'. local_socket_close s w = Some w' \<and> retire {s, p} w w'"
proof -
  obtain b where b: "heap w p = Some b" "so_peer b = Some s" "p \<noteq> s" "socket_wf b"
    by (rule peer_facts [OF inv a(1,3)])
  have lw: "local_wf a" by (rule inv_local_wf [OF inv a(1,2)])
  obtain w1 where w1: "sock_shutdown p w = Some w1" "w1 = w\<lparr>transports := transports w1\<rparr>" "same_sockets w w1"
    using sock_shutdown_ok [OF inv b(1)] b(2) by auto
  have h1: "heap w1 = heap w" by (subst w1(2)) simp
  have ok1: "lists_ok w1" by (subst w1(2)) (use inv_lists [OF inv] in simp)
  obtain w2 w3 where w3: "disconnect p w1 = Some w2" "sock_close p w2 = Some w3" "retire {p} w1 w3"
    using disconnect_close [OF ok1 _ b(4)] b(1) h1 by metis
  have r3: "retire {p} w w3"
    by (rule retire_cong [OF w3(3) w1(3)]) (auto simp: h1 similar_def)
  define a4 where "a4 = a\<lparr>so_peer := None\<rparr>"
  define w4 where "w4 = w3\<lparr>heap := (heap w3)(s \<mapsto> a4)\<rparr>"
  have h3: "heap w3 s = Some a" using w3(3) b(3) a(1) h1 by (simp add: retire_def)
  have "lists_ok w3" using r3 by (simp add: retire_def)
  then have ok4: "lists_ok w4" using lists_ok_update [OF h3, of a4] by (simp add: w4_def a4_def)
  have a4: "heap w4 s = Some a4" "is_local a4" "local_wf a4" "so_peer a4 = None" "so_close a4 = LocalClose"
    using a lw by (auto simp: w4_def a4_def local_wf_def)
  obtain w5 where w5: "local_socket_finish s w4 = Some w5" "retire {s} w4 w5"
    using local_socket_finish_ok [OF ok4 a4] by metis
  have "retire {s} w3 w5"
    by (rule retire_cong [OF w5(2)]) (use h3 in \<open>auto simp: w4_def a4_def same_sockets_def similar_def\<close>)
  from retire_trans [OF r3 this] have "retire {s, p} w w5" by (simp add: insert_commute)
  moreover have "local_socket_close s w = Some w5"
    using a w1(1) w3 w5(1) h3 by (simp add: local_socket_close.simps update_socket_def w4_def a4_def)
  ultimately show ?thesis by blast
qed


lemma close_other_pair:
  assumes inv: "sock_inv w" and a: "heap w s = Some a" "\<not> is_local a"
  obtains p w' where "so_peer a = Some p" and "sock_close s w = Some w'" and "retire {s, p} w w'"
proof -
  have "so_peer a \<noteq> None"
  proof
    assume "so_peer a = None"
    moreover have "case so_peer a of None \<Rightarrow> is_local a
      | Some p \<Rightarrow> p \<noteq> s \<and> (\<exists>b. heap w p = Some b \<and> so_peer b = Some s \<and> (is_local a \<or> is_local b))"
      using inv a(1) unfolding sock_inv_def peers_ok_def by blast
    ultimately show False using a(2) by simp
  qed
  then obtain p where p: "so_peer a = Some p" by blast
  obtain b where b: "heap w p = Some b" "p \<noteq> s" "socket_wf b" by (rule peer_facts [OF inv a(1) p])
  obtain w1 w2 where w2: "disconnect p w = Some w1" "sock_close p w1 = Some w2" "retire {p} w w2"
    by (rule disconnect_close [OF inv_lists [OF inv] b(1,3)])
  have h2: "heap w2 s = Some a" using w2(3) b(2) a(1) by (simp add: retire_def)
  have ok2: "lists_ok w2" using w2(3) by (simp add: retire_def)
  have wf: "socket_wf a" by (rule inv_wf [OF inv a(1)])
  have "\<exists>w'. sock_close s w = Some w' \<and> retire {s} w2 w'"
  proof (cases "so_enqueue a")
    case RemoteEnqueue
    then show ?thesis
      using delete_socket_ok(1) [OF ok2 h2] a wf p w2
      by (simp add: sock_close.simps [of s w] remote_socket_close.simps socket_wf_def)
  next
    case TrackerEnqueue
    then show ?thesis
      using delete_socket_ok(2) [OF ok2 h2] a wf p w2
      by (simp add: sock_close.simps [of s w] device_tracker_close.simps socket_wf_def)
  next
    case SmartEnqueue
    define a0 where "a0 = a\<lparr>so_peer := None\<rparr>"
    define w0 where "w0 = w2\<lparr>heap := (heap w2)(s \<mapsto> a0)\<rparr>"
    have "lists_ok w0" using ok2 lists_ok_update [OF h2, of a0] by (simp add: w0_def a0_def)
    moreover have "heap w0 s = Some a0" "\<not> is_local a0" "so_enqueue a0 \<noteq> TrackerEnqueue"
      using SmartEnqueue by (simp_all add: w0_def a0_def)
    ultimately obtain w' where w': "delete_socket s w0 = Some w'" "retire {s} w0 w'"
      using delete_socket_ok(1) by blast
    have "retire {s} w2 w'"
      by (rule retire_cong [OF w'(2)]) (use h2 in \<open>auto simp: w0_def a0_def same_sockets_def similar_def\<close>)
    moreover have "sock_close s w = Some w'"
      using SmartEnqueue a wf p w2 w'(1) h2
      by (simp add: sock_close.simps [of s w] smart_socket_close.simps socket_wf_def update_socket_def w0_def a0_def)
    ultimately show ?thesis by blast
  qed (use a in simp)
  then obtain w' where "sock_close s w = Some w'" "retire {s} w2 w'" by blast
  with retire_trans [OF w2(3)] p that show ?thesis by (fastforce simp: insert_commute)
qed

lemma sock_inv_SendFail: "sock_inv (SendFail_fd fd m w) = sock_inv w"
  by (rule sock_inv_same) (simp_all add: SendFail_fd_def same_sockets_def)

lemma sock_inv_SendOkay: "sock_inv (SendOkay_fd fd w) = sock_inv w"
  by (rule sock_inv_same) (simp_all add: SendOkay_fd_def same_sockets_def)

text \<open>Closing any socket: it succeeds, takes the socket and its peer away, and keeps the invariant.\<close>

lemma sock_close_ok:
  assumes inv: "sock_inv w" and a: "heap w s = Some a"
  obtains w' where "sock_close s w = Some w'" and "retire (with_peer s a) w w'" and "sock_inv w'"
proof -
  have "\<exists>w'. sock_close s w = Some w' \<and> retire (with_peer s a) w w'"
  proof (cases "is_local a")
    case False
    with close_other_pair [OF inv a] show ?thesis by (metis option.set(2) insert_commute)
  next
    case loc: True
    note lw = inv_local_wf [OF inv a loc]
    show ?thesis
    proof (cases "so_peer a")
      case None
      then show ?thesis using close_local_alone [OF inv_lists [OF inv] a loc lw] by auto
    next
      case (Some p)
      show ?thesis
      proof (cases "so_close a = LocalClose")
        case True
        then show ?thesis
          using close_local_pair [OF inv a loc Some True] a Some True by (simp add: sock_close.simps)
      next
        case False
        then have n: "so_close a = LocalCloseNotify" using lw by (auto simp: local_wf_def)
        define b where "b = plain_local a"
        define w0 where "w0 = SendFail_fd (so_fd b) ''closed'' (w\<lparr>heap := (heap w)(s \<mapsto> b)\<rparr>)"
        have b: "heap w0 s = Some b" "is_local b" "so_peer b = Some p" "so_close b = LocalClose"
          using Some loc by (simp_all add: w0_def SendFail_fd_def b_def plain_local_def)
        have "socket_wf b" using lw loc by (auto simp: b_def plain_local_def socket_wf_def local_wf_def)
        then have "sock_inv w0"
          unfolding w0_def sock_inv_SendFail
          by (intro sock_inv_update [OF inv a]) (simp_all add: b_def plain_local_def)
        from close_local_pair [OF this b] obtain w' where
          w': "local_socket_close s w0 = Some w'" "retire {s, p} w0 w'" by blast
        have "sock_close s w = sock_close s w0"
          using a n by (simp add: sock_close.simps [of s w] local_socket_close_notify.simps update_socket_def w0_def b_def)
        also have "\<dots> = Some w'" using b w' by (simp add: sock_close.simps)
        finally have "sock_close s w = Some w'" .
        moreover have "retire {s, p} w w'"
          by (rule retire_cong [OF w'(2)])
            (use a in \<open>auto simp: w0_def SendFail_fd_def same_sockets_def similar_def b_def plain_local_def
              split: if_splits\<close>)
        ultimately show ?thesis using Some by (auto simp: insert_commute)
      qed
    qed
  qed
  then obtain w' where w': "sock_close s w = Some w'" "retire (with_peer s a) w w'" by blast
  have "sock_inv w'"
  proof (rule retire_inv [OF inv w'(2)])
    fix x c q assume x: "x \<in> with_peer s a" "heap w x = Some c" "so_peer c = Some q"
    show "q \<in> with_peer s a"
    proof (cases "x = s")
      case True
      with x a show ?thesis by auto
    next
      case False
      with x(1) have p: "so_peer a = Some x" by auto
      from peer_facts [OF inv a p] x(2,3) show ?thesis by auto
    qed
  qed
  with w' that show ?thesis by blast
qed


section \<open>Closing the sockets of a transport\<close>

text \<open>A socket that uses the transport, itself or through its peer.\<close>

definition uses_transport :: "tref \<Rightarrow> world \<Rightarrow> asocket \<Rightarrow> bool" where
  "uses_transport t w a \<longleftrightarrow>
     so_transport a = Some t \<or> (\<exists>p b. so_peer a = Some p \<and> heap w p = Some b \<and> so_transport b = Some t)"

lemma first_of_transport_ok:
  assumes inv: "sock_inv w" and sub: "set ss \<subseteq> set (local_socket_list w)"
  shows "\<exists>r. first_of_transport t w ss = Some r \<and>
    (case r of Some s \<Rightarrow> s \<in> set ss \<and> (\<exists>a. heap w s = Some a \<and> uses_transport t w a)
     | None \<Rightarrow> (\<forall>s a. s \<in> set ss \<longrightarrow> heap w s = Some a \<longrightarrow> \<not> uses_transport t w a))"
  using sub
proof (induction ss)
  case (Cons s ss)
  then have "s \<in> set (local_socket_list w)" by simp
  then obtain a where a: "heap w s = Some a" using inv_lists [OF inv] unfolding lists_ok_def by blast
  obtain pm where pm: "(case so_peer a of None \<Rightarrow> Some False
      | Some p \<Rightarrow> do { b \<leftarrow> heap w p; Some (so_transport b = Some t) }) = Some pm"
    and used: "(so_transport a = Some t \<or> pm) = uses_transport t w a"
  proof (cases "so_peer a")
    case (Some p)
    obtain b where b: "heap w p = Some b" by (rule peer_facts [OF inv a Some])
    show ?thesis by (rule that) (use Some b in \<open>simp_all add: uses_transport_def\<close>)
  next
    case None
    show ?thesis by (rule that [of False]) (use None in \<open>simp_all add: uses_transport_def\<close>)
  qed
  have step: "first_of_transport t w (s # ss) =
      (if uses_transport t w a then Some (Some s) else first_of_transport t w ss)"
    using a pm used by simp
  show ?case
  proof (cases "uses_transport t w a")
    case True
    then show ?thesis using step a by simp
  next
    case False
    obtain r where r: "first_of_transport t w ss = Some r"
      "case r of Some s \<Rightarrow> s \<in> set ss \<and> (\<exists>a. heap w s = Some a \<and> uses_transport t w a)
       | None \<Rightarrow> (\<forall>s a. s \<in> set ss \<longrightarrow> heap w s = Some a \<longrightarrow> \<not> uses_transport t w a)"
      using Cons by auto
    show ?thesis
      by (intro exI [of _ r] conjI) (use step False r a in \<open>auto split: option.splits\<close>)
  qed
qed simp

lemma retire_list_shrinks:
  assumes inv: "sock_inv w" and r: "retire D w w'" and s: "s \<in> D" "s \<in> set (local_socket_list w)"
  shows "length (local_socket_list w') < length (local_socket_list w)"
proof -
  have ok: "lists_ok w" "lists_ok w'" using inv_lists [OF inv] r by (simp_all add: retire_def)
  have "set (local_socket_list w') \<subseteq> set (local_socket_list w) - {s}"
  proof
    fix x assume "x \<in> set (local_socket_list w')"
    then obtain b where b: "heap w' x = Some b" "is_local b" "\<not> so_closing b" using ok(2) unfolding lists_ok_def by blast
    have "x \<notin> D"
    proof
      assume "x \<in> D"
      from retire_zombie [OF r this b(1)] b(3) show False by (auto simp: zombie_of_def)
    qed
    with b r have "heap w x = Some b" by (simp add: retire_def)
    with b ok(1) \<open>x \<notin> D\<close> s show "x \<in> set (local_socket_list w) - {s}" unfolding lists_ok_def by blast
  qed
  moreover have "distinct (local_socket_list w)" "distinct (local_socket_list w')" using ok by (simp_all add: lists_ok_def)
  moreover have "card (set (local_socket_list w) - {s}) < card (set (local_socket_list w))"
    using s(2) by (intro card_Diff1_less) simp_all
  ultimately show ?thesis
    using card_mono [of "set (local_socket_list w) - {s}" "set (local_socket_list w')"]
    by (simp add: distinct_card)
qed

lemma close_all_sockets_ok:
  assumes "sock_inv w"
  shows "\<exists>w'. close_all_sockets t w = Some w' \<and> sock_inv w' \<and> same_sockets w w' \<and>
    (\<forall>s a. heap w' s = Some a \<longrightarrow> \<not> so_closing a \<longrightarrow> so_transport a \<noteq> Some t) \<and>
    (\<forall>s a. heap w s = Some a \<longrightarrow> \<not> uses_transport t w a \<longrightarrow> heap w' s = Some a)"
  using assms
proof (induction "length (local_socket_list w)" arbitrary: w rule: less_induct)
  case less
  note inv = less.prems
  obtain r where r: "first_of_transport t w (local_socket_list w) = Some r"
    and rc: "case r of Some s \<Rightarrow> s \<in> set (local_socket_list w) \<and> (\<exists>a. heap w s = Some a \<and> uses_transport t w a)
      | None \<Rightarrow> (\<forall>s a. s \<in> set (local_socket_list w) \<longrightarrow> heap w s = Some a \<longrightarrow> \<not> uses_transport t w a)"
    using first_of_transport_ok [OF inv order_refl, of t] by blast
  have some: "\<And>s. r = Some s \<Longrightarrow> s \<in> set (local_socket_list w) \<and> (\<exists>a. heap w s = Some a \<and> uses_transport t w a)"
    and none: "\<And>s a. r = None \<Longrightarrow> s \<in> set (local_socket_list w) \<Longrightarrow> heap w s = Some a \<Longrightarrow> \<not> uses_transport t w a"
    using rc by auto
  show ?case
  proof (cases r)
    case None
    have "so_transport a \<noteq> Some t" if a: "heap w s = Some a" "\<not> so_closing a" for s a
    proof (cases "is_local a")
      case True
      with a have "s \<in> set (local_socket_list w)" using inv_lists [OF inv] unfolding lists_ok_def by blast
      from none [OF None this a(1)] show ?thesis by (simp add: uses_transport_def)
    next
      case False
      obtain p where p: "so_peer a = Some p" by (rule close_other_pair [OF inv a(1) False])
      obtain b where b: "heap w p = Some b" "so_peer b = Some s" "is_local a \<or> is_local b" "\<not> so_closing b"
        by (rule peer_facts [OF inv a(1) p])
      with False have "p \<in> set (local_socket_list w)" using inv_lists [OF inv] unfolding lists_ok_def by blast
      from none [OF None this b(1)] show ?thesis using b(2) a(1) by (auto simp: uses_transport_def)
    qed
    then show ?thesis using r None inv by (subst close_all_sockets.simps) simp
  next
    case (Some s)
    with some obtain a where a: "s \<in> set (local_socket_list w)" "heap w s = Some a" "uses_transport t w a" by blast
    obtain w1 where w1: "sock_close s w = Some w1" "retire (with_peer s a) w w1" "sock_inv w1"
      by (rule sock_close_ok [OF inv a(2)])
    have "length (local_socket_list w1) < length (local_socket_list w)"
      by (rule retire_list_shrinks [OF inv w1(2) _ a(1)]) simp
    from less.hyps [OF this w1(3)] obtain w' where
      w': "close_all_sockets t w1 = Some w'" "sock_inv w'" "same_sockets w1 w'"
        "\<forall>s a. heap w' s = Some a \<longrightarrow> \<not> so_closing a \<longrightarrow> so_transport a \<noteq> Some t"
      and keep: "\<And>s a. heap w1 s = Some a \<Longrightarrow> \<not> uses_transport t w1 a \<Longrightarrow> heap w' s = Some a" by blast
    have "heap w' x = Some c" if c: "heap w x = Some c" "\<not> uses_transport t w c" for x c
    proof -
      have "x \<notin> with_peer s a"
      proof
        assume x: "x \<in> with_peer s a"
        show False
        proof (cases "x = s")
          case False
          with x have p: "so_peer a = Some x" by auto
          from peer_facts [OF inv a(2) p] c a(2,3) p show False unfolding uses_transport_def
            by (metis option.inject)
        qed (use c a in simp)
      qed
      then have c1: "heap w1 x = Some c" using w1(2) c by (simp add: retire_def)
      moreover have "\<not> uses_transport t w1 c"
      proof
        assume "uses_transport t w1 c"
        with c(2) obtain p b where p: "so_peer c = Some p" "heap w1 p = Some b" "so_transport b = Some t"
          by (auto simp: uses_transport_def)
        obtain d where d: "heap w1 p = Some d" "so_peer d = Some x" "\<not> so_closing d"
          by (rule peer_facts [OF w1(3) c1 p(1)])
        have "p \<notin> with_peer s a"
        proof
          assume "p \<in> with_peer s a"
          from retire_zombie [OF w1(2) this d(1)] d(3) show False by (auto simp: zombie_of_def)
        qed
        then have "heap w p = Some b" using w1(2) p(2) by (simp add: retire_def)
        with p c(2) show False by (auto simp: uses_transport_def)
      qed
      ultimately show ?thesis by (rule keep)
    qed
    moreover have "same_sockets w w'" using w1(2) w'(3) same_sockets_trans by (auto simp: retire_def)
    ultimately show ?thesis
      using r Some w1(1) w' by (subst close_all_sockets.simps) simp
  qed
qed

end
