(* ===== verification/Adb_Sockets_Data.thy ===== *)
theory Adb_Sockets_Data
  imports Adb_Sockets_Inv
begin

text \<open>
  Data through local sockets: the flush towards the descriptor, the acknowledgements, the reads from
  the descriptor, and the calls through the \<open>enqueue\<close> and \<open>ready\<close> pointers.  Every operation is shown to
  return on a world that satisfies the invariant and to keep it, and the bytes are accounted for: what
  was queued is what was written, in order, followed by what is still queued.
\<close>

section \<open>Writing the queue\<close>

lemma adb_writev_facts:
  assumes "adb_writev iov os = (r, os')"
  shows "case r of
      Inr n \<Rightarrow> n \<le> length (concat iov) \<and> n < 2 ^ 31 \<and> os_log os' = os_log os @ take n (concat iov)
    | Inl e \<Rightarrow> os_log os' = os_log os"
proof -
  have "min (length (concat iov)) 2147479552 < 2 ^ 31" by (simp add: min_def)
  then show ?thesis
    using assms by (auto simp: adb_writev_def min_def split: list.splits out_event.splits if_splits)
qed

lemma flush_queue_ok:
  assumes qwf: "iov_wf (so_packet_queue a)"
  obtains q e n os' where "flush_queue a os = Some (a\<lparr>so_packet_queue := q, so_has_write_error := e\<rparr>, n, os')"
    and "iov_wf q" and "n \<le> length (iov_bytes (so_packet_queue a))" and "n < 2 ^ 31"
    and "iov_bytes q = drop n (iov_bytes (so_packet_queue a))"
    and "os_log os' = os_log os @ take n (iov_bytes (so_packet_queue a))"
    and "so_has_write_error a \<longrightarrow> e"
proof -
  let ?q = "so_packet_queue a"
  have size: "iov_size ?q = length (iov_bytes ?q)" by (rule iov_size_bytes [OF qwf])
  show ?thesis
  proof (cases "iov_empty ?q")
    case True
    show ?thesis
      by (rule that [where q = ?q and e = "so_has_write_error a" and n = 0 and os' = os]) (use True qwf in \<open>simp_all add: flush_queue_def\<close>)
  next
    case False
    obtain ss where ss: "iov_iterate_blocks ?q = Some ss" "concat ss = iov_bytes ?q"
      by (rule iov_iterate_blocks_ok [OF qwf])
    obtain r os' where w: "adb_writev ss os = (r, os')" by force
    note f = adb_writev_facts [OF w, unfolded ss(2)]
    show ?thesis
    proof (cases r)
      case (Inl e)
      show ?thesis
        by (rule that [where q = ?q and e = "so_has_write_error a \<or> e \<noteq> EAGAIN" and n = 0 and os' = os'])
          (use False ss w Inl f qwf in \<open>auto simp: flush_queue_def iov_iovecs_def\<close>)
    next
      case (Inr n)
      note f = f [unfolded Inr, simplified]
      consider "n = 0" | "0 < n" "n = iov_size ?q" | "0 < n" "n \<noteq> iov_size ?q" by blast
      then show ?thesis
      proof cases
        case 1
        show ?thesis
          by (rule that [where q = ?q and e = True and n = 0 and os' = os']) (use False ss w Inr f qwf 1 in \<open>simp_all add: flush_queue_def iov_iovecs_def\<close>)
      next
        case 2
        show ?thesis
          by (rule that [where q = "fst (iov_clear ?q)" and e = "so_has_write_error a" and n = n and os' = os'])
            (use False ss w Inr f qwf 2 size in \<open>simp_all add: flush_queue_def iov_iovecs_def iov_clear_eq\<close>)
      next
        case 3
        obtain q where q: "iov_drop_front n ?q = Some q" "iov_wf q" "iov_bytes q = drop n (iov_bytes ?q)"
          using iov_drop_front_ok [OF qwf, of n] f by auto
        show ?thesis
          by (rule that [where q = q and e = "so_has_write_error a" and n = n and os' = os'])
            (use False ss w Inr f q 3 in \<open>simp_all add: flush_queue_def iov_iovecs_def\<close>)
      qed
    qed
  qed
qed

section \<open>Acknowledging\<close>

lemma send_ready_ok:
  assumes "transports w t \<noteq> None"
  obtains w' where "send_ready local remote t ack w = Some w'" and "w' = w\<lparr>transports := transports w'\<rparr>"
    and "same_sockets w w'"
proof -
  obtain tr where tr: "transports w t = Some tr" using assms by blast
  have wf: "block_wf (filled_block (le32 ack))" using filled_block_ok(1) [of "le32 ack"] by (simp add: block_ok_def)
  show ?thesis
  proof (cases "tr_delayed_ack tr")
    case True
    obtain w' where "send_packet_on (data_packet A_OKAY local remote (filled_block (le32 ack))) t w = Some w'"
      "w' = w\<lparr>transports := transports w'\<rparr>" "same_sockets w w'"
      by (rule send_packet_on_ok [OF packet_fits_data [OF wf] assms])
    with that tr True show ?thesis by (simp add: send_ready_def)
  next
    case False
    obtain w' where "send_packet_on (command_packet A_OKAY local remote) t w = Some w'"
      "w' = w\<lparr>transports := transports w'\<rparr>" "same_sockets w w'"
      by (rule send_packet_on_ok [OF packet_fits_command assms])
    with that tr False show ?thesis by (simp add: send_ready_def)
  qed
qed

lemma acknowledge_ok:
  assumes "\<And>t. so_transport a = Some t \<Longrightarrow> so_peer a \<noteq> None \<Longrightarrow> transports w t \<noteq> None"
    and "\<And>p. so_peer a = Some p \<Longrightarrow> heap w p \<noteq> None"
  obtains w' where "acknowledge a n w = Some w'" and "w' = w\<lparr>transports := transports w'\<rparr>" and "same_sockets w w'"
proof (cases "\<exists>t p. so_transport a = Some t \<and> so_peer a = Some p")
  case True
  then obtain t p where tp: "so_transport a = Some t" "so_peer a = Some p" by blast
  then obtain b where b: "heap w p = Some b" using assms(2) by blast
  have t: "transports w t \<noteq> None" using assms(1) tp by simp
  note go = send_ready_ok [OF t, of "so_id a" "so_id b"]
  show ?thesis
  proof (cases "so_available_send_bytes a \<noteq> None")
    case True
    with go [of "of_nat n"] that tp b show ?thesis by (simp add: acknowledge_def) metis
  next
    case False
    show ?thesis
    proof (cases "(of_nat n :: u32) \<noteq> 0 \<and> iov_size (so_packet_queue a) < MAX_PAYLOAD")
      case True
      with go [of 0] that tp b False show ?thesis by (simp add: acknowledge_def) metis
    next
      case no: False
      show ?thesis by (rule that [of w]) (use tp b False no in \<open>auto simp: acknowledge_def\<close>)
    qed
  qed
next
  case False
  show ?thesis
    by (rule that [of w]) (use False in \<open>auto simp: acknowledge_def split: option.splits\<close>)
qed


section \<open>Flushing towards the descriptor\<close>

lemma retire_gone:
  assumes "retire D w0 w'" and "same_sockets w w0" and "\<And>x. x \<notin> D \<Longrightarrow> heap w0 x = heap w x"
    and "\<And>x. x \<in> D \<Longrightarrow> heap w' x = None"
  shows "retire D w w'"
  using assms same_sockets_trans by (auto simp: retire_def)

text \<open>
  A local socket of a good world whose queue was extended, as \<open>local_socket_enqueue\<close> does before the
  flush; for the write event the queue is unchanged.
\<close>

definition with_queue :: "addr \<Rightarrow> asocket \<Rightarrow> byte iovector \<Rightarrow> world \<Rightarrow> world" where
  "with_queue s a q w = w\<lparr>heap := (heap w)(s \<mapsto> a\<lparr>so_packet_queue := q\<rparr>)\<rparr>"

text \<open>The outcome of a flush that has written the first \<open>n\<close> bytes of the queue \<open>q\<close>.\<close>

definition flushed :: "addr \<Rightarrow> asocket \<Rightarrow> byte iovector \<Rightarrow> world \<Rightarrow> nat \<Rightarrow> SocketFlushResult \<Rightarrow> world \<Rightarrow> bool" where
  "flushed s a q w n r w' \<longleftrightarrow>
     sock_inv w' \<and> same_sockets w w' \<and> n \<le> length (iov_bytes q) \<and>
     os_log (out_fds w' (so_fd a)) = os_log (out_fds w (so_fd a)) @ take n (iov_bytes q) \<and>
     (\<forall>fd. fd \<noteq> so_fd a \<longrightarrow> out_fds w' fd = out_fds w fd) \<and>
     (\<forall>x. x \<noteq> s \<longrightarrow> heap w' x = heap w x) \<and>
     (case r of
        Destroyed \<Rightarrow> so_closing a \<and> heap w' s = None
      | _ \<Rightarrow> (\<exists>a'. heap w' s = Some a' \<and> is_local a' \<and> so_fd a' = so_fd a \<and> so_peer a' = so_peer a \<and>
          so_transport a' = so_transport a \<and> so_closing a' = so_closing a \<and> so_available_send_bytes a' = so_available_send_bytes a \<and>
          iov_bytes (so_packet_queue a') = drop n (iov_bytes q) \<and>
          (r = TryAgain \<longleftrightarrow> iov_bytes (so_packet_queue a') \<noteq> [] \<and> \<not> so_has_write_error a')))"

lemma fdevent_set_Some:
  "heap w s = Some a \<Longrightarrow> so_fde a = Some e \<Longrightarrow>
   fdevent_set s f w = Some (w\<lparr>heap := (heap w)(s \<mapsto> a\<lparr>so_fde := Some (f e)\<rparr>)\<rparr>)"
  by (simp add: fdevent_set_def)

lemma flush_incoming_ok:
  assumes inv: "sock_inv w" and a: "heap w s = Some a" "is_local a" and q: "iov_wf q"
  obtains r w' n where "local_socket_flush_incoming s (with_queue s a q w) = Some (r, w')"
    and "flushed s a q w n r w'"
proof -
  define aq where "aq = a\<lparr>so_packet_queue := q\<rparr>"
  define wq where "wq = with_queue s a q w"
  have aq: "heap wq s = Some aq" by (simp add: wq_def with_queue_def aq_def)
  note lw = inv_local_wf [OF inv a]
  then obtain f where f: "so_fde a = Some f" by (auto simp: local_wf_def)
  have qq: "iov_wf (so_packet_queue aq)" "so_packet_queue aq = q" using q by (simp_all add: aq_def)
  obtain q1 e n os' where fl: "flush_queue aq (out_fds wq (so_fd aq)) = Some (aq\<lparr>so_packet_queue := q1, so_has_write_error := e\<rparr>, n, os')"
    and q1: "iov_wf q1" "n \<le> length (iov_bytes q)" "iov_bytes q1 = drop n (iov_bytes q)"
    and log: "os_log os' = os_log (out_fds wq (so_fd aq)) @ take n (iov_bytes q)"
    using flush_queue_ok [OF qq(1)] unfolding qq(2) by metis
  define a1 where "a1 = a\<lparr>so_packet_queue := q1, so_has_write_error := e\<rparr>"
  define w1 where "w1 = w\<lparr>heap := (heap w)(s \<mapsto> a1), out_fds := (out_fds w)(so_fd a := os')\<rparr>"
  have a1: "aq\<lparr>so_packet_queue := q1, so_has_write_error := e\<rparr> = a1" by (simp add: a1_def aq_def)
  have w1: "wq\<lparr>heap := (heap wq)(s \<mapsto> a1), out_fds := (out_fds wq)(so_fd aq := os')\<rparr> = w1"
    by (simp add: w1_def wq_def with_queue_def aq_def)
  have fds: "so_fd aq = so_fd a" "out_fds wq = out_fds w" by (simp_all add: aq_def wq_def with_queue_def)
  have tr: "transports w1 t \<noteq> None" if t: "so_transport a1 = Some t" "so_peer a1 \<noteq> None" for t
  proof -
    obtain p where "so_peer a = Some p" using t(2) by (auto simp: a1_def)
    from peer_facts [OF inv a(1) this] have "\<not> so_closing a" by blast
    then show ?thesis using inv a t by (auto simp: sock_inv_def transports_ok_def a1_def w1_def)
  qed
  have pe: "heap w1 p \<noteq> None" if "so_peer a1 = Some p" for p
    using peer_facts [OF inv a(1), of p] that by (auto simp: a1_def w1_def)
  obtain w2 where w2: "acknowledge a1 n w1 = Some w2" "w2 = w1\<lparr>transports := transports w2\<rparr>" "same_sockets w1 w2"
    by (rule acknowledge_ok [OF tr pe])
  have h2: "heap w2 = (heap w)(s \<mapsto> a1)" "out_fds w2 = (out_fds w)(so_fd a := os')" "in_fds w2 = in_fds w"
    "local_socket_list w2 = local_socket_list w" "local_socket_closing_list w2 = local_socket_closing_list w"
    "device_tracker_list w2 = device_tracker_list w"
    by (subst w2(2); simp add: w1_def)+
  have same: "same_sockets w w2" using w2(3) by (simp add: same_sockets_def w1_def)
  let ?full = "\<not> iov_empty q1 \<and> \<not> e"
  have empty: "iov_empty q1 \<longleftrightarrow> iov_bytes q1 = []" using iov_size_bytes [OF q1(1)] by (simp add: iov_empty_def)
  have step: "local_socket_flush_incoming s wq =
      (if so_closing a \<and> \<not> ?full then do { w3 \<leftarrow> sock_close s w2; Some (Destroyed, w3) }
       else if ?full then do { w3 \<leftarrow> fdevent_set s (\<lambda>e. e\<lparr>fde_write := True\<rparr>) w2; Some (TryAgain, w3) }
       else do { w3 \<leftarrow> fdevent_set s (\<lambda>e. e\<lparr>fde_write := False\<rparr>) w2; Some (Completed, w3) })"
    using aq fl w2(1) unfolding local_socket_flush_incoming_def a1
    by (simp add: w1 Let_def) (simp add: a1_def)
  show ?thesis
  proof (cases "so_closing a \<and> \<not> ?full")
    case True
    have ok2: "lists_ok w2"
      using inv_lists [OF inv] lists_ok_update [OF a(1), of a1] lists_ok_same [of w2 "w\<lparr>heap := (heap w)(s \<mapsto> a1)\<rparr>"] h2
      by (simp add: a1_def)
    have c: "is_local a1" "local_wf a1" "so_peer a1 = None" "so_closing a1" "so_close a1 = LocalClose"
      using lw True a(2) q1(1) empty by (auto simp: a1_def local_wf_def)
    obtain w3 where w3: "sock_close s w2 = Some w3" "retire {s} w2 w3" "heap w3 s = None" "out_fds w3 = out_fds w2"
      using close_local_alone [OF ok2 _ c(1-3)] h2(1) c(4,5) by (metis fun_upd_same)
    have r: "retire {s} w w3"
      by (rule retire_gone [OF w3(2) same]) (use h2(1) w3(3) in auto)
    have "so_peer a = None" using lw True by (simp add: local_wf_def)
    then have "sock_inv w3" by (intro retire_inv [OF inv r]) (use a in auto)
    then have "flushed s a q w n Destroyed w3"
      using r w3(3,4) h2(2) True q1(2) log fds by (simp add: flushed_def retire_def)
    with that step True w3(1) show ?thesis by (simp add: wq_def)
  next
    case False
    define f' where "f' = f\<lparr>fde_write := ?full\<rparr>"
    define a2 where "a2 = a1\<lparr>so_fde := Some f'\<rparr>"
    define w3 where "w3 = w2\<lparr>heap := (heap w2)(s \<mapsto> a2)\<rparr>"
    have set: "fdevent_set s (\<lambda>e. e\<lparr>fde_write := ?full\<rparr>) w2 = Some w3"
      using fdevent_set_Some [of w2 s a1 f] h2(1) f by (simp add: w3_def a2_def f'_def a1_def)
    have "local_wf a2"
      using lw False f q1(1) empty by (auto simp: a2_def a1_def f'_def local_wf_def)
    then have wf2: "socket_wf a2" using a(2) by (simp add: socket_wf_def a2_def a1_def)
    have "sock_inv (w\<lparr>heap := (heap w)(s \<mapsto> a2)\<rparr>)"
      by (rule sock_inv_update [OF inv a(1)]) (use wf2 in \<open>simp_all add: a2_def a1_def\<close>)
    then have "sock_inv w3"
      using sock_inv_same [of w3 "w\<lparr>heap := (heap w)(s \<mapsto> a2)\<rparr>"] h2 same
      by (simp add: w3_def same_sockets_def)
    moreover have "same_sockets w w3" using same by (simp add: w3_def same_sockets_def)
    ultimately have fl3: "flushed s a q w n (if ?full then TryAgain else Completed) w3"
      using q1 log fds a(2) empty h2(1,2) by (auto simp: flushed_def w3_def a2_def a1_def)
    have "local_socket_flush_incoming s wq = Some (if ?full then TryAgain else Completed, w3)"
      using step False set by (auto split: if_splits)
    with that fl3 show ?thesis by (simp add: wq_def)
  qed
qed

lemma with_queue_same: "heap w s = Some a \<Longrightarrow> with_queue s a (so_packet_queue a) w = w"
  by (simp add: with_queue_def map_upd_triv)

text \<open>\<open>local_socket_enqueue\<close> and the write event.\<close>

lemma local_socket_enqueue_ok:
  assumes inv: "sock_inv w" and a: "heap w s = Some a" "is_local a" and data: "block_wf data"
  obtains r w' n where "local_socket_enqueue s data w = Some (case r of Destroyed \<Rightarrow> - 1 | TryAgain \<Rightarrow> 1 | Completed \<Rightarrow> 0, w')"
    and "flushed s a (fst (iov_append data (so_packet_queue a))) w n r w'"
proof -
  have "iov_wf (so_packet_queue a)" using inv_local_wf [OF inv a] by (simp add: local_wf_def)
  from flush_incoming_ok [OF inv a iov_append_wf(1) [OF this data]]
  obtain r w' n where "local_socket_flush_incoming s (with_queue s a (fst (iov_append data (so_packet_queue a))) w) = Some (r, w')"
    "flushed s a (fst (iov_append data (so_packet_queue a))) w n r w'" by blast
  with that a(1) show ?thesis by (simp add: local_socket_enqueue_def update_socket_def with_queue_def)
qed

lemma flush_incoming_event_ok:
  assumes inv: "sock_inv w" and a: "heap w s = Some a" "is_local a"
  obtains r w' n where "local_socket_flush_incoming s w = Some (r, w')" and "flushed s a (so_packet_queue a) w n r w'"
proof -
  have "iov_wf (so_packet_queue a)" using inv_local_wf [OF inv a] by (simp add: local_wf_def)
  from flush_incoming_ok [OF inv a this] with_queue_same [OF a(1)] that show ?thesis by metis
qed

section \<open>Calls through pointers\<close>

lemma sock_inv_transports:
  assumes inv: "sock_inv w" and eq: "w' = w\<lparr>transports := transports w'\<rparr>" and same: "same_sockets w w'"
  shows "sock_inv w'"
proof -
  have "heap w' = heap w" "local_socket_list w' = local_socket_list w"
    "local_socket_closing_list w' = local_socket_closing_list w" "device_tracker_list w' = device_tracker_list w"
    by (subst eq; simp)+
  from sock_inv_same [OF this same] inv show ?thesis by simp
qed

lemma remote_socket_enqueue_ok:
  assumes inv: "sock_inv w" and a: "heap w s = Some a" "so_enqueue a = RemoteEnqueue" and data: "block_wf data"
    and size: "blk_size data \<le> MAX_PAYLOAD"
  obtains w' where "remote_socket_enqueue s data w = Some (1, w')" and "sock_inv w'"
    and "w' = w\<lparr>transports := transports w'\<rparr>" and "same_sockets w w'"
proof -
  obtain p where p: "so_peer a = Some p" by (rule close_other_pair [OF inv a(1)]) (use a in simp)
  obtain b where b: "heap w p = Some b" "\<not> so_closing a" by (rule peer_facts [OF inv a(1) p])
  obtain t where t: "so_transport a = Some t" using inv_wf [OF inv a(1)] a(2) by (auto simp: socket_wf_def)
  have "transports w t \<noteq> None" using inv a t b by (auto simp: sock_inv_def transports_ok_def)
  then obtain w' where w': "send_packet_on (data_packet A_WRTE (so_id b) (so_id a) data) t w = Some w'"
    "w' = w\<lparr>transports := transports w'\<rparr>" "same_sockets w w'"
    by (rule send_packet_on_ok [OF packet_fits_data [OF data]])
  have "sock_inv w'" by (rule sock_inv_transports [OF inv w'(2,3)])
  with that w' a p b t size show ?thesis by (simp add: remote_socket_enqueue_def)
qed


text \<open>A peered socket is not closing, so a flush of the peer does not destroy it.\<close>

lemma flushed_peered:
  assumes "flushed s a q w n r w'" and "\<not> so_closing a"
  shows "r \<noteq> Destroyed" and "sock_inv w'" and "\<And>x. x \<noteq> s \<Longrightarrow> heap w' x = heap w x"
    and "\<exists>a'. heap w' s = Some a' \<and> is_local a' \<and> so_peer a' = so_peer a \<and> \<not> so_closing a'"
  using assms by (auto simp: flushed_def split: SocketFlushResult.splits)

lemma device_tracker_send_ok:
  assumes inv: "sock_inv w" and a: "heap w s = Some a" "so_enqueue a = TrackerEnqueue"
  obtains r w' p where "device_tracker_send s str w = Some (r, w')" and "sock_inv w'" and "so_peer a = Some p"
    and "\<And>x. x \<noteq> p \<Longrightarrow> heap w' x = heap w x" and "same_sockets w w'"
    and "\<exists>b'. heap w' p = Some b' \<and> is_local b' \<and> so_peer b' = Some s \<and> \<not> so_closing b'"
proof -
  obtain p where p: "so_peer a = Some p" by (rule close_other_pair [OF inv a(1)]) (use a in simp)
  obtain b where b: "heap w p = Some b" "so_peer b = Some s" "is_local a \<or> is_local b" "\<not> so_closing b"
    by (rule peer_facts [OF inv a(1) p])
  then have loc: "is_local b" using a(2) by simp
  let ?data = "filled_block (take 4 (format_04x (length str mod 2 ^ 32)) @ str)"
  have wf: "block_wf ?data" using filled_block_ok(1) block_ok_def by blast
  obtain r w' n where r: "local_socket_enqueue p ?data w = Some (case r of Destroyed \<Rightarrow> - 1 | TryAgain \<Rightarrow> 1 | Completed \<Rightarrow> 0, w')"
    "flushed p b (fst (iov_append ?data (so_packet_queue b))) w n r w'"
    by (rule local_socket_enqueue_ok [OF inv b(1) loc wf])
  note f = flushed_peered [OF r(2) b(4)]
  have "same_sockets w w'" using r(2) by (simp add: flushed_def)
  with that r(1) f p a b loc show ?thesis by (simp add: device_tracker_send_def enqueue_plain_def)
qed

lemma current_transports_Some:
  assumes "sock_inv w" and "set ts \<subseteq> set (transport_list w) \<union> set (pending_list w)"
  shows "\<exists>ys. current_transports ts w = Some ys"
proof -
  have "\<forall>t \<in> set ts. transports w t \<noteq> None"
    using assms unfolding sock_inv_def transports_ok_def by blast
  then show ?thesis unfolding current_transports_def by (induction ts) auto
qed

lemma tracker_text_Some:
  assumes "sock_inv w"
  shows "\<exists>str. tracker_text env ty w = Some str"
proof -
  obtain ys where "current_transports (transport_list w) w = Some ys"
    using current_transports_Some [OF assms, of "transport_list w"] by auto
  then show ?thesis by (simp add: tracker_text_def)
qed

lemma notify_trackers_ok:
  assumes "sock_inv w" and "\<forall>s \<in> set ss. \<exists>a. heap w s = Some a \<and> so_enqueue a = TrackerEnqueue"
  shows "\<exists>w'. notify_trackers env ss w = Some w' \<and> sock_inv w' \<and> same_sockets w w'"
  using assms
proof (induction ss arbitrary: w)
  case Nil
  then show ?case by simp
next
  case (Cons s ss)
  then obtain a where a: "heap w s = Some a" "so_enqueue a = TrackerEnqueue" by auto
  obtain upd ty where ty: "so_tracker a = Some (upd, ty)"
    using inv_wf [OF Cons.prems(1) a(1)] a(2) by (auto simp: socket_wf_def)
  obtain str where str: "tracker_text env ty w = Some str" using tracker_text_Some [OF Cons.prems(1)] by blast
  obtain r w1 p where w1: "device_tracker_send s str w = Some (r, w1)" "sock_inv w1" "so_peer a = Some p"
    "\<And>x. x \<noteq> p \<Longrightarrow> heap w1 x = heap w x" "same_sockets w w1"
    "\<exists>b'. heap w1 p = Some b' \<and> is_local b' \<and> so_peer b' = Some s \<and> \<not> so_closing b'"
    using device_tracker_send_ok [OF Cons.prems(1) a, of str] by blast
  obtain b where b: "heap w p = Some b" "is_local a \<or> is_local b" by (rule peer_facts [OF Cons.prems(1) a(1) w1(3)])
  have "\<exists>c. heap w1 x = Some c \<and> so_enqueue c = TrackerEnqueue" if "x \<in> set ss" for x
  proof -
    obtain c where c: "heap w x = Some c" "so_enqueue c = TrackerEnqueue" using bspec [OF Cons.prems(2), of x] \<open>x \<in> set ss\<close> by auto
    then have "x \<noteq> p" using b a(2) by auto
    with c w1(4) show ?thesis by simp
  qed
  then obtain w' where "notify_trackers env ss w1 = Some w'" "sock_inv w'" "same_sockets w1 w'"
    using Cons.IH [OF w1(2)] by blast
  with a ty str w1(1,5) show ?case by (auto intro: same_sockets_trans)
qed

lemma update_transports_ok:
  assumes inv: "sock_inv w"
  shows "\<exists>w'. update_transports env w = Some w' \<and> sock_inv w' \<and> same_sockets w w'"
proof -
  obtain ts where ts: "current_transports (transport_list w) w = Some ts"
    using current_transports_Some [OF inv, of "transport_list w"] by auto
  obtain ps where ps: "current_transports (pending_list w) w = Some ps"
    using current_transports_Some [OF inv, of "pending_list w"] by auto
  obtain r where st: "update_transport_status w = Some (w\<lparr>transports_ready := r\<rparr>)"
    using ts ps by (cases "list_all (\<lambda>t. \<not> (tr_type t = kTransportUsb \<and> \<not> tr_online t)) ts")
      (simp_all add: update_transport_status_def iterate_transports_def)
  let ?w = "w\<lparr>transports_ready := r\<rparr>"
  have inv': "sock_inv ?w" using inv sock_inv_same [of ?w w] by (simp add: same_sockets_def)
  have tr: "\<forall>s \<in> set (device_tracker_list ?w). \<exists>a. heap ?w s = Some a \<and> so_enqueue a = TrackerEnqueue"
    using inv_lists [OF inv] unfolding lists_ok_def by simp
  obtain w' where "notify_trackers env (device_tracker_list ?w) ?w = Some w'" "sock_inv w'" "same_sockets ?w w'"
    using notify_trackers_ok [OF inv' tr] by blast
  then show ?thesis using st inv by (auto simp: update_transports_def same_sockets_def)
qed

section \<open>Ready and acknowledged\<close>

lemma local_socket_ready_ok:
  assumes inv: "sock_inv w" and a: "heap w s = Some a" "is_local a" "\<not> so_closing a"
  shows "\<exists>w'. local_socket_ready s w = Some w' \<and> sock_inv w' \<and> same_sockets w w'"
proof -
  have lw: "local_wf a" by (rule inv_local_wf [OF inv a(1,2)])
  then obtain e where e: "so_fde a = Some e" by (auto simp: local_wf_def)
  let ?b = "a\<lparr>so_fde := Some (e\<lparr>fde_read := True\<rparr>)\<rparr>"
  have "local_wf ?b" using lw e a(3) by (auto simp: local_wf_def)
  then have "sock_inv (w\<lparr>heap := (heap w)(s \<mapsto> ?b)\<rparr>)"
    by (intro sock_inv_update [OF inv a(1)]) (use a(2) in \<open>simp_all add: socket_wf_def\<close>)
  then show ?thesis
    using fdevent_set_Some [OF a(1) e] by (simp add: local_socket_ready_def same_sockets_def)
qed

lemma local_socket_ready_notify_ok:
  assumes inv: "sock_inv w" and a: "heap w s = Some a" "is_local a" "\<not> so_closing a"
  shows "\<exists>w'. local_socket_ready_notify s w = Some w' \<and> sock_inv w' \<and> same_sockets w w'"
proof -
  define w1 where "w1 = w\<lparr>heap := (heap w)(s \<mapsto> plain_local a)\<rparr>"
  have "local_wf (plain_local a)" using inv_local_wf [OF inv a(1,2)] by (auto simp: local_wf_def plain_local_def)
  then have "sock_inv w1" unfolding w1_def
    by (intro sock_inv_update [OF inv a(1)]) (use a(2) in \<open>simp_all add: socket_wf_def plain_local_def\<close>)
  then have inv2: "sock_inv (SendOkay_fd (so_fd a) w1)" by (simp add: sock_inv_SendOkay)
  have "\<exists>w'. local_socket_ready s (SendOkay_fd (so_fd a) w1) = Some w' \<and> sock_inv w' \<and>
      same_sockets (SendOkay_fd (so_fd a) w1) w'"
    by (rule local_socket_ready_ok [OF inv2, of s "plain_local a"])
      (use a in \<open>simp_all add: w1_def SendOkay_fd_def plain_local_def\<close>)
  then show ?thesis using a(1)
    by (auto simp: local_socket_ready_notify_def update_socket_Some w1_def plain_local_def same_sockets_def SendOkay_fd_def)
qed

lemma remote_socket_ready_ok:
  assumes inv: "sock_inv w" and a: "heap w s = Some a" "so_enqueue a = RemoteEnqueue"
  shows "\<exists>w'. remote_socket_ready s w = Some w' \<and> sock_inv w' \<and> same_sockets w w'"
proof -
  obtain p where p: "so_peer a = Some p" by (rule close_other_pair [OF inv a(1)]) (use a in simp)
  obtain b where b: "heap w p = Some b" "\<not> so_closing a" by (rule peer_facts [OF inv a(1) p])
  obtain t where t: "so_transport a = Some t" using inv_wf [OF inv a(1)] a(2) by (auto simp: socket_wf_def)
  have "transports w t \<noteq> None" using inv a t b by (auto simp: sock_inv_def transports_ok_def)
  then obtain w' where w': "send_packet_on (command_packet A_OKAY (so_id b) (so_id a)) t w = Some w'"
    "w' = w\<lparr>transports := transports w'\<rparr>" "same_sockets w w'"
    by (rule send_packet_on_ok [OF packet_fits_command])
  with sock_inv_transports [OF inv w'(2,3)] a p b t show ?thesis by (simp add: remote_socket_ready_def)
qed

lemma device_tracker_ready_ok:
  assumes inv: "sock_inv w" and a: "heap w s = Some a" "so_enqueue a = TrackerEnqueue"
  shows "\<exists>w'. device_tracker_ready env s w = Some w' \<and> sock_inv w' \<and> same_sockets w w'"
proof -
  obtain upd ty where ty: "so_tracker a = Some (upd, ty)"
    using inv_wf [OF inv a(1)] a(2) by (auto simp: socket_wf_def)
  show ?thesis
  proof (cases upd)
    case False
    with ty a inv show ?thesis by (simp add: device_tracker_ready_def)
  next
    case True
    let ?b = "a\<lparr>so_tracker := Some (False, ty)\<rparr>"
    let ?w = "w\<lparr>heap := (heap w)(s \<mapsto> ?b)\<rparr>"
    have wf: "socket_wf ?b" using inv_wf [OF inv a(1)] a(2) by (simp add: socket_wf_def)
    have inv1: "sock_inv ?w" by (rule sock_inv_update [OF inv a(1)]) (use wf in simp_all)
    obtain str where str: "tracker_text env ty ?w = Some str" using tracker_text_Some [OF inv1] by blast
    have hb: "heap ?w s = Some ?b" "so_enqueue ?b = TrackerEnqueue" using a(2) by simp_all
    obtain r w' where "device_tracker_send s str ?w = Some (r, w')" "sock_inv w'" "same_sockets ?w w'"
      by (rule device_tracker_send_ok [OF inv1 hb])
    with ty a str True show ?thesis
      by (auto simp: device_tracker_ready_def update_socket_Some same_sockets_def)
  qed
qed

text \<open>Any live socket can be made ready.\<close>

lemma sock_ready_ok:
  assumes inv: "sock_inv w" and a: "heap w s = Some a" "\<not> so_closing a"
  shows "\<exists>w'. sock_ready env s w = Some w' \<and> sock_inv w' \<and> same_sockets w w'"
proof (cases "so_enqueue a")
  case LocalEnqueue
  then have "so_ready a = LocalReady \<or> so_ready a = LocalReadyNotify"
    using inv_local_wf [OF inv a(1)] by (auto simp: local_wf_def)
  with local_socket_ready_ok [OF inv a(1) LocalEnqueue a(2)] local_socket_ready_notify_ok [OF inv a(1) LocalEnqueue a(2)] a(1)
  show ?thesis by (auto simp: sock_ready_def)
next
  case RemoteEnqueue
  with remote_socket_ready_ok [OF inv a(1)] inv_wf [OF inv a(1)] a(1) show ?thesis by (simp add: sock_ready_def socket_wf_def)
next
  case SmartEnqueue
  with inv_wf [OF inv a(1)] a(1) inv show ?thesis by (simp add: sock_ready_def socket_wf_def)
next
  case TrackerEnqueue
  with device_tracker_ready_ok [OF inv a(1)] inv_wf [OF inv a(1)] a(1) show ?thesis by (simp add: sock_ready_def socket_wf_def)
qed

lemma set_send_bytes_ok:
  assumes inv: "sock_inv w" and a: "heap w s = Some a" "is_local a"
  shows "sock_inv (w\<lparr>heap := (heap w)(s \<mapsto> a\<lparr>so_available_send_bytes := n\<rparr>)\<rparr>)"
proof -
  have "local_wf (a\<lparr>so_available_send_bytes := n\<rparr>)" using inv_local_wf [OF inv a] by (simp add: local_wf_def)
  then show ?thesis by (intro sock_inv_update [OF inv a(1)]) (use a(2) in \<open>simp_all add: socket_wf_def\<close>)
qed

lemma local_socket_ack_ok:
  assumes inv: "sock_inv w" and a: "heap w s = Some a" "is_local a" "\<not> so_closing a"
  shows "\<exists>w'. local_socket_ack env s acked w = Some w' \<and> sock_inv w' \<and> same_sockets w w'"
proof -
  consider av ac where "so_available_send_bytes a = Some av" "acked = Some ac"
    | "so_available_send_bytes a = None" "acked = None"
    | "so_available_send_bytes a = None \<longleftrightarrow> acked \<noteq> None" by fastforce
  then show ?thesis
  proof cases
    case 1
    let ?b = "a\<lparr>so_available_send_bytes := Some (av + ac)\<rparr>"
    let ?w = "w\<lparr>heap := (heap w)(s \<mapsto> ?b)\<rparr>"
    have inv1: "sock_inv ?w" by (rule set_send_bytes_ok [OF inv a(1,2)])
    have "\<exists>w'. sock_ready env s ?w = Some w' \<and> sock_inv w' \<and> same_sockets ?w w'"
      by (rule sock_ready_ok [OF inv1, of s ?b]) (use a in simp_all)
    with 1 a(1) inv1 show ?thesis by (auto simp: local_socket_ack_def update_socket_Some same_sockets_def)
  next
    case 2
    with sock_ready_ok [OF inv a(1,3)] a(1) show ?thesis by (simp add: local_socket_ack_def)
  next
    case 3
    with a(1) inv show ?thesis by (auto simp: local_socket_ack_def split: option.splits)
  qed
qed

section \<open>Reading from the descriptor\<close>

lemma adb_read_length: "adb_read n es = (Inr r, es') \<Longrightarrow> length r \<le> n"
  by (cases "(n, es)" rule: adb_read.cases) (auto split: if_splits)

lemma read_available_length: "length (fst (read_available n es)) \<le> n"
proof (induction n es rule: read_available.induct)
  case (1 n es)
  show ?case
  proof (cases "\<exists>r es'. adb_read n es = (Inr r, es') \<and> 0 < n \<and> r \<noteq> []")
    case True
    then obtain r es' where r: "adb_read n es = (Inr r, es')" "0 < n" "r \<noteq> []" by blast
    with 1 [OF _ r(1) [symmetric]] adb_read_length [OF r(1)] show ?thesis
      by (subst read_available.simps) (auto split: prod.splits)
  next
    case False
    then show ?thesis by (subst read_available.simps) (auto split: prod.splits sum.splits)
  qed
qed

lemma read_payload_ok:
  assumes "bs \<noteq> []" and "length bs \<le> n"
  obtains b where "read_payload junk n bs = Some b" and "block_wf b" and "block_bytes b = bs" and "blk_size b = length bs"
proof -
  have n: "0 < n" using assms by (cases bs) auto
  define d where "d = bs @ drop (length bs) (map junk [0..<n])"
  have d: "length d = n" using assms(2) by (simp add: d_def)
  let ?b = "\<lparr>blk_data = Some d, blk_capacity = n, blk_size = length bs, blk_position = 0\<rparr>"
  have "read_payload junk n bs = Some ?b"
    using n assms by (simp add: read_payload_def block_resize_def block_allocate_def block_store_def block_new_def memcpy_def d_def)
  moreover have "block_wf ?b" using d n assms(2) by (simp add: block_wf_def)
  moreover have "block_bytes ?b = bs" by (simp add: block_bytes_def d_def)
  ultimately show ?thesis using that by simp
qed

text \<open>The transport that a socket names, if it names one, has not been freed.\<close>

definition transport_alive :: "world \<Rightarrow> asocket \<Rightarrow> bool" where
  "transport_alive w a \<longleftrightarrow> (\<forall>t. so_transport a = Some t \<longrightarrow> transports w t \<noteq> None)"

lemma live_transport: "sock_inv w \<Longrightarrow> heap w s = Some a \<Longrightarrow> \<not> so_closing a \<Longrightarrow> transport_alive w a"
  by (auto simp: sock_inv_def transports_ok_def transport_alive_def)

lemma get_max_payload_ok:
  assumes inv: "sock_inv w" and a: "heap w s = Some a" "transport_alive w a"
  obtains n where "get_max_payload s w = Some n" and "n \<le> MAX_PAYLOAD"
proof -
  have mp: "\<exists>n \<le> MAX_PAYLOAD. transport_max_payload (so_transport b) w = Some n" if "transport_alive w b" for b
    using that by (cases "so_transport b") (auto simp: transport_max_payload_def transport_alive_def)
  obtain m where m: "m \<le> MAX_PAYLOAD" "transport_max_payload (so_transport a) w = Some m" using mp [OF a(2)] by blast
  show ?thesis
  proof (cases "so_peer a")
    case None
    with that [of "min m MAX_PAYLOAD"] m a(1) show ?thesis by (simp add: get_max_payload_def)
  next
    case (Some p)
    obtain b where b: "heap w p = Some b" "\<not> so_closing b" by (rule peer_facts [OF inv a(1) Some])
    obtain m' where "transport_max_payload (so_transport b) w = Some m'" using mp [OF live_transport [OF inv b]] by blast
    with that [of "min m m'"] m a(1) b(1) Some show ?thesis by (simp add: get_max_payload_def)
  qed
qed

text \<open>Data handed to the peer of a local socket: unless the result is negative, that socket is still there.\<close>

lemma sock_enqueue_peer_ok:
  assumes inv: "sock_inv w" and a: "heap w s = Some a" "is_local a" "so_peer a = Some p"
    and b: "heap w p = Some b" "so_enqueue b \<noteq> SmartEnqueue"
    and data: "block_wf data" "blk_size data \<le> MAX_PAYLOAD"
  shows "\<exists>r w'. sock_enqueue env p data w = Some (r, w') \<and> sock_inv w' \<and> same_sockets w w' \<and>
    (0 \<le> r \<longrightarrow> heap w' s = Some a)"
proof -
  obtain ps: "so_peer b = Some s" "p \<noteq> s" "\<not> so_closing b"
    using peer_facts [OF inv a(1,3)] b(1) by (metis option.inject)
  consider "is_local b" | "so_enqueue b = RemoteEnqueue" | "so_enqueue b = TrackerEnqueue"
    using b(2) by (cases "so_enqueue b") auto
  then show ?thesis
  proof cases
    case 1
    obtain r w' n where r: "local_socket_enqueue p data w = Some (case r of Destroyed \<Rightarrow> - 1 | TryAgain \<Rightarrow> 1 | Completed \<Rightarrow> 0, w')"
      "flushed p b (fst (iov_append data (so_packet_queue b))) w n r w'"
      by (rule local_socket_enqueue_ok [OF inv b(1) 1 data(1)])
    note f = flushed_peered [OF r(2) ps(3)]
    have "same_sockets w w'" using r(2) by (simp add: flushed_def)
    with r(1) f(2) f(3) [of s] ps(2) a(1) b(1) 1 show ?thesis by (simp add: sock_enqueue_def enqueue_plain_def)
  next
    case 2
    obtain w' where w': "remote_socket_enqueue p data w = Some (1, w')" "sock_inv w'"
      "w' = w\<lparr>transports := transports w'\<rparr>" "same_sockets w w'"
      by (rule remote_socket_enqueue_ok [OF inv b(1) 2 data])
    have "heap w' = heap w" by (subst w'(3)) simp
    with w' a(1) b(1) 2 show ?thesis by (simp add: sock_enqueue_def enqueue_plain_def)
  next
    case 3
    obtain w' where w': "sock_close p w = Some w'" "retire (with_peer p b) w w'" "sock_inv w'"
      by (rule sock_close_ok [OF inv b(1)])
    have "so_close b = TrackerClose" using inv_wf [OF inv b(1)] 3 by (simp add: socket_wf_def)
    then have "device_tracker_close p w = Some w'" using w'(1) b(1) by (simp add: sock_close.simps)
    with w'(2,3) b(1) 3 show ?thesis
      by (simp add: sock_enqueue_def enqueue_plain_def device_tracker_enqueue_def retire_def)
  qed
qed

lemma stop_reading_ok:
  assumes inv: "sock_inv w" and a: "heap w s = Some a" "is_local a"
  shows "\<exists>w' b. fdevent_set s (\<lambda>e. e\<lparr>fde_read := False\<rparr>) w = Some w' \<and> sock_inv w' \<and> same_sockets w w' \<and> heap w' s = Some b"
proof -
  have lw: "local_wf a" by (rule inv_local_wf [OF inv a])
  then obtain e where e: "so_fde a = Some e" by (auto simp: local_wf_def)
  let ?b = "a\<lparr>so_fde := Some (e\<lparr>fde_read := False\<rparr>)\<rparr>"
  have "local_wf ?b" using lw e by (auto simp: local_wf_def)
  then have "sock_inv (w\<lparr>heap := (heap w)(s \<mapsto> ?b)\<rparr>)"
    by (intro sock_inv_update [OF inv a(1)]) (use a(2) in \<open>simp_all add: socket_wf_def\<close>)
  then show ?thesis using fdevent_set_Some [OF a(1) e] by (simp add: same_sockets_def)
qed

definition peer_not_smart :: "world \<Rightarrow> asocket \<Rightarrow> bool" where
  "peer_not_smart w a \<longleftrightarrow> (\<forall>p b. so_peer a = Some p \<longrightarrow> heap w p = Some b \<longrightarrow> so_enqueue b \<noteq> SmartEnqueue)"

lemma close_at_eof_ok:
  assumes inv: "sock_inv w2" and same: "same_sockets w w2" and b: "heap w2 s = Some b"
  shows "\<exists>r w'. (if eof then do { w3 \<leftarrow> sock_close s w2; Some (False, w3) } else Some (True, w2)) = Some (r, w') \<and>
    sock_inv w' \<and> same_sockets w w'"
proof -
  obtain w' where w': "sock_close s w2 = Some w'" "retire (with_peer s b) w2 w'" "sock_inv w'"
    by (rule sock_close_ok [OF inv b])
  have "same_sockets w w'" using w'(2) same same_sockets_trans by (auto simp: retire_def)
  with w'(1,3) inv same show ?thesis by auto
qed

lemma flush_outgoing_ok:
  assumes inv: "sock_inv w" and a: "heap w s = Some a" "is_local a" and tr: "transport_alive w a"
    and smart: "peer_not_smart w a"
  shows "\<exists>r w'. local_socket_flush_outgoing env s w = Some (r, w') \<and> sock_inv w' \<and> same_sockets w w'"
proof -
  obtain mp where mp: "get_max_payload s w = Some mp" "mp \<le> MAX_PAYLOAD" by (rule get_max_payload_ok [OF inv a(1) tr])
  obtain bs eof es where rd: "read_available mp (in_fds w (so_fd a)) = (bs, eof, es)" by (rule prod_cases3)
  have len: "length bs \<le> mp" using read_available_length [of mp "in_fds w (so_fd a)"] rd by simp
  define w1 where "w1 = w\<lparr>in_fds := (in_fds w)(so_fd a := es)\<rparr>"
  have same1: "same_sockets w w1" by (simp add: w1_def same_sockets_def)
  have inv1: "sock_inv w1" using inv sock_inv_same [of w1 w] by (simp add: w1_def same_sockets_def)
  have h1: "heap w1 = heap w" by (simp add: w1_def)
  show ?thesis
  proof (cases "so_peer a = None \<or> bs = []")
    case True
    have "(case so_peer a of None \<Rightarrow> Some (True, w1) | Some p \<Rightarrow> if bs \<noteq> [] then X p else Some (True, w1)) = Some (True, w1)" for X
      using True by (auto split: option.splits)
    with close_at_eof_ok [OF inv1 same1, of s a] a(1) h1 mp rd show ?thesis
      by (simp add: local_socket_flush_outgoing_def w1_def [symmetric])
  next
    case False
    then obtain p where p: "so_peer a = Some p" and bs: "bs \<noteq> []" by auto
    obtain b where b: "heap w p = Some b" "p \<noteq> s" by (rule peer_facts [OF inv a(1) p])
    obtain data where data: "read_payload (fresh_memory w) mp bs = Some data" "block_wf data" "blk_size data = length bs"
      by (rule read_payload_ok [OF bs len, of "fresh_memory w"])
    define av where "av = map_option (\<lambda>n. n - int (length bs)) (so_available_send_bytes a)"
    define a2 where "a2 = a\<lparr>so_available_send_bytes := av\<rparr>"
    define w2 where "w2 = w1\<lparr>heap := (heap w1)(s \<mapsto> a2)\<rparr>"
    have inv2: "sock_inv w2" using set_send_bytes_ok [OF inv1, of s a av] a h1 by (simp add: w2_def a2_def)
    have same2: "same_sockets w w2" using same1 by (simp add: w2_def same_sockets_def)
    have a2: "heap w2 s = Some a2" "is_local a2" "so_peer a2 = Some p" "heap w2 p = Some b"
      using a(2) p b h1 by (simp_all add: w2_def a2_def)
    have ns: "so_enqueue b \<noteq> SmartEnqueue" using smart p b(1) by (auto simp: peer_not_smart_def)
    have sz: "blk_size data \<le> MAX_PAYLOAD" using data(3) len mp(2) by simp
    obtain r w3 where w3: "sock_enqueue env p data w2 = Some (r, w3)" "sock_inv w3" "same_sockets w2 w3"
      "0 \<le> r \<longrightarrow> heap w3 s = Some a2"
      using sock_enqueue_peer_ok [OF inv2 a2(1-4) ns data(2) sz, of env] by blast
    note same3 = same_sockets_trans [OF same2 w3(3)]
    let ?stop = "r > 0 \<and> (case av of Some n \<Rightarrow> n \<le> 0 | None \<Rightarrow> True)"
    have run: "local_socket_flush_outgoing env s w =
        (if r < 0 then Some (False, w3)
         else do {
           w4 \<leftarrow> (if ?stop then fdevent_set s (\<lambda>e. e\<lparr>fde_read := False\<rparr>) w3 else Some w3);
           if eof then do { w5 \<leftarrow> sock_close s w4; Some (False, w5) } else Some (True, w4)
         })"
    proof -
      have "update_socket s (\<lambda>a. a\<lparr>so_available_send_bytes :=
          map_option (\<lambda>n. n - int (length bs)) (so_available_send_bytes a)\<rparr>) w1 = Some w2"
        using update_socket_Some [of w1 s a] a(1) h1 by (simp add: w2_def a2_def av_def)
      moreover have "so_available_send_bytes a2 = av" by (simp add: a2_def)
      ultimately show ?thesis
        using a(1) mp rd p bs data(1) w3(1,4)
        by (cases "r < 0"; cases "0 < r"; cases av) (simp_all add: local_socket_flush_outgoing_def w1_def [symmetric])
    qed
    show ?thesis
    proof (cases "r < 0")
      case True
      with run w3(2) same3 show ?thesis by auto
    next
      case False
      then have h3: "heap w3 s = Some a2" using w3(4) by simp
      have "\<exists>w4 b. (if ?stop then fdevent_set s (\<lambda>e. e\<lparr>fde_read := False\<rparr>) w3 else Some w3) = Some w4 \<and>
          sock_inv w4 \<and> same_sockets w3 w4 \<and> heap w4 s = Some b"
        using stop_reading_ok [OF w3(2) h3 a2(2)] w3(2) h3 by (cases ?stop) auto
      then obtain w4 b4 where w4: "(if ?stop then fdevent_set s (\<lambda>e. e\<lparr>fde_read := False\<rparr>) w3 else Some w3) = Some w4"
        "sock_inv w4" "same_sockets w3 w4" "heap w4 s = Some b4" by blast
      from close_at_eof_ok [OF w4(2) same_sockets_trans [OF same3 w4(3)] w4(4)] show ?thesis
        using run False unfolding w4(1) by simp
    qed
  qed
qed

text \<open>
  An event of a local socket.  The poller reports a read also when the descriptor hangs up, so it may
  come on a closing socket, which does not ask for reads.
\<close>

lemma event_func_ok:
  assumes inv: "sock_inv w" and a: "heap w s = Some a" "is_local a"
    and rd: "ev_read \<Longrightarrow> transport_alive w a" "ev_read \<Longrightarrow> peer_not_smart w a"
  shows "\<exists>w'. local_socket_event_func env s ev_read ev_write w = Some w' \<and> sock_inv w' \<and> same_sockets w w'"
proof -
  obtain r w1 n where w1: "local_socket_flush_incoming s w = Some (r, w1)" "flushed s a (so_packet_queue a) w n r w1"
    by (rule flush_incoming_event_ok [OF inv a])
  have ok1: "sock_inv w1" "same_sockets w w1" using w1(2) by (simp_all add: flushed_def)
  have out: "\<exists>w'. (if ev_read then do { (_, w2) \<leftarrow> local_socket_flush_outgoing env s v; Some w2 } else Some v) = Some w' \<and>
      sock_inv w' \<and> same_sockets w w'"
    if v: "sock_inv v" "same_sockets w v" "heap v s = Some a'" "is_local a'"
      "ev_read \<Longrightarrow> transport_alive v a'" "ev_read \<Longrightarrow> peer_not_smart v a'" for v a'
  proof (cases ev_read)
    case True
    obtain r' w' where "local_socket_flush_outgoing env s v = Some (r', w')" "sock_inv w'" "same_sockets v w'"
      using flush_outgoing_ok [OF v(1,3,4) v(5,6) [OF True], of env] by blast
    with True same_sockets_trans [OF v(2)] show ?thesis by auto
  qed (use v in simp)
  show ?thesis
  proof (cases ev_write)
    case False
    with out [OF inv _ a rd] show ?thesis by (simp add: local_socket_event_func_def)
  next
    case wr: True
    show ?thesis
    proof (cases "r = Destroyed")
      case True
      with wr w1(1) ok1 show ?thesis by (simp add: local_socket_event_func_def)
    next
      case False
      then obtain a' where a': "heap w1 s = Some a'" "is_local a'" "so_peer a' = so_peer a" "so_transport a' = so_transport a"
        "\<And>x. x \<noteq> s \<Longrightarrow> heap w1 x = heap w x"
        using w1(2) by (auto simp: flushed_def split: SocketFlushResult.splits)
      have "transport_alive w1 a'" if ev_read
        using rd(1) [OF that] a'(4) ok1(2) by (auto simp: transport_alive_def same_sockets_def)
      moreover have "peer_not_smart w1 a'" if ev_read
        using rd(2) [OF that] a'(3,5) a' a(2) by (auto simp: peer_not_smart_def) (metis enqueue_fn.distinct(3) option.inject)
      ultimately show ?thesis
        using out [OF ok1 a'(1,2)] wr False w1(1) by (simp add: local_socket_event_func_def)
    qed
  qed
qed

end
