(* ===== verification/Adb_Listeners.thy ===== *)
theory Adb_Listeners
  imports Adb_Sockets_Data
begin

text \<open>
  Listeners (\<open>adb_listeners.cpp\<close>) and the disconnect callbacks of transports.

  A listener is named by the address it listens on.  Its transport calls it back when it is
  disconnected, through an \<open>adisconnect\<close> that both sides must keep in step: a listener is removed from
  its transport's list when it is destroyed, and destroyed when the transport goes away.  The lemmas
  show that the operations keep this, that the listeners are a table from local names to
  destinations, and that no listener names a transport after its disconnects have run.
\<close>

section \<open>Transports by reference\<close>

definition on_transport :: "tref \<Rightarrow> (atransport \<Rightarrow> atransport) \<Rightarrow> world \<Rightarrow> world option" where
  "on_transport t f w = do { tr \<leftarrow> transports w t; Some (w\<lparr>transports := (transports w)(t \<mapsto> f tr)\<rparr>) }"

section \<open>Listeners\<close>

definition kSmartSocketConnectTo :: string where
  "kSmartSocketConnectTo = ''*smartsocket*''"

definition isSmartSocket :: "alistener \<Rightarrow> bool" where
  "isSmartSocket l \<longleftrightarrow> l_connect_to l = kSmartSocketConnectTo"

text \<open>The destructor.\<close>

definition destroy_listener :: "alistener \<Rightarrow> world \<Rightarrow> world option" where
  "destroy_listener l w =
     (case l_transport l of
        None \<Rightarrow> Some w
      | Some t \<Rightarrow> on_transport t (RemoveDisconnect (ListenerDisconnect (l_addr l))) w)"

text \<open>Connections to a listener; \<open>accepted\<close> is the result of \<open>adb_socket_accept\<close>.\<close>

definition ss_listener_event_func :: "env \<Rightarrow> int option \<Rightarrow> bool \<Rightarrow> world \<Rightarrow> world option" where
  "ss_listener_event_func env accepted ev_read w =
     (case (ev_read, accepted) of
        (True, Some fd) \<Rightarrow> do { (s, w1) \<leftarrow> create_local_socket fd w; connect_to_smartsocket env s w1 }
      | _ \<Rightarrow> Some w)"

definition listener_event_func :: "env \<Rightarrow> alistener \<Rightarrow> int option \<Rightarrow> bool \<Rightarrow> world \<Rightarrow> world option" where
  "listener_event_func env l accepted ev_read w =
     (case (ev_read, accepted) of
        (True, Some fd) \<Rightarrow> do {
          (s, w1) \<leftarrow> create_local_socket fd w;
          w2 \<leftarrow> update_socket s (\<lambda>a. a\<lparr>so_transport := l_transport l\<rparr>) w1;
          connect_to_remote env s (l_connect_to l) w2
        }
      | _ \<Rightarrow> Some w)"

text \<open>\<open>listener_disconnect\<close>: the listener forgets its transport, so its destructor does not call it.\<close>

definition listener_disconnect :: "nat \<Rightarrow> world \<Rightarrow> world" where
  "listener_disconnect x w = w\<lparr>listener_list := filter (\<lambda>l. l_addr l \<noteq> x) (listener_list w)\<rparr>"

fun format_listeners_of :: "world \<Rightarrow> alistener list \<Rightarrow> string option" where
  "format_listeners_of w [] = Some []"
| "format_listeners_of w (l # ls) =
     (if isSmartSocket l then format_listeners_of w ls
      else do {
        t \<leftarrow> l_transport l;
        tr \<leftarrow> transports w t;
        rest \<leftarrow> format_listeners_of w ls;
        Some (percent_s (if tr_serial tr \<noteq> [] then tr_serial tr else ''(reverse)'') @ '' '' @ percent_s (l_local_name l) @ '' '' @
          percent_s (l_connect_to l) @ [CHR 0x0A] @ rest)
      })"

definition format_listeners :: "world \<Rightarrow> string option" where
  "format_listeners w = format_listeners_of w (listener_list w)"

datatype InstallStatus =
  INSTALL_STATUS_OK | INSTALL_STATUS_INTERNAL_ERROR | INSTALL_STATUS_CANNOT_BIND
  | INSTALL_STATUS_CANNOT_REBIND | INSTALL_STATUS_LISTENER_NOT_FOUND

text \<open>\<open>listener_list.erase\<close> of one element.\<close>

definition erase_listener :: "alistener \<Rightarrow> world \<Rightarrow> world option" where
  "erase_listener l w = destroy_listener l (w\<lparr>listener_list := filter (\<lambda>k. l_addr k \<noteq> l_addr l) (listener_list w)\<rparr>)"

text \<open>\<open>remove_listener\<close>: the transport is not looked at.\<close>

definition remove_listener :: "string \<Rightarrow> world \<Rightarrow> (InstallStatus \<times> world) option" where
  "remove_listener local_name w =
     (case find (\<lambda>l. l_local_name l = local_name) (listener_list w) of
        None \<Rightarrow> Some (INSTALL_STATUS_LISTENER_NOT_FOUND, w)
      | Some l \<Rightarrow> do { w1 \<leftarrow> erase_listener l w; Some (INSTALL_STATUS_OK, w1) })"

fun erase_listeners :: "alistener list \<Rightarrow> world \<Rightarrow> world option" where
  "erase_listeners [] w = Some w"
| "erase_listeners (l # ls) w = do { w1 \<leftarrow> erase_listener l w; erase_listeners ls w1 }"

text \<open>\<open>connect_to[0]\<close> of an empty string is its terminator.\<close>

definition keeps_star :: "alistener \<Rightarrow> bool" where
  "keeps_star l \<longleftrightarrow> (case l_connect_to l of c # _ \<Rightarrow> c = CHR ''*'' | [] \<Rightarrow> False)"

definition remove_all_listeners :: "world \<Rightarrow> world option" where
  "remove_all_listeners w = erase_listeners (filter (\<lambda>l. \<not> keeps_star l) (listener_list w)) w"

definition enable_listener :: "alistener \<Rightarrow> alistener" where
  "enable_listener l = (if isSmartSocket l then l\<lparr>l_reading := True\<rparr> else l)"

definition enable_server_sockets :: "world \<Rightarrow> world" where
  "enable_server_sockets w = w\<lparr>listener_list := map enable_listener (listener_list w)\<rparr>"

definition close_smartsockets :: "world \<Rightarrow> world option" where
  "close_smartsockets w = erase_listeners (filter isSmartSocket (listener_list w)) w"

text \<open>
  \<open>install_listener\<close>.  \<open>listen\<close> is \<open>socket_spec_listen\<close>: an error message, or the descriptor with the
  resolved port (0 if the caller did not ask for one).  The result is the status, the error text, and
  the resolved port.
\<close>

definition redirect :: "nat \<Rightarrow> string \<Rightarrow> tref option \<Rightarrow> alistener \<Rightarrow> alistener" where
  "redirect x connect_to t k = (if l_addr k = x then k\<lparr>l_connect_to := connect_to, l_transport := t\<rparr> else k)"

definition rebind_listener :: "alistener \<Rightarrow> string \<Rightarrow> tref option \<Rightarrow> world \<Rightarrow> world option" where
  "rebind_listener l connect_to t w = do {
     w1 \<leftarrow> (if l_transport l \<noteq> t then do {
              old \<leftarrow> l_transport l;
              w' \<leftarrow> on_transport old (RemoveDisconnect (ListenerDisconnect (l_addr l))) w;
              new \<leftarrow> t;
              on_transport new (AddDisconnect (ListenerDisconnect (l_addr l))) w'
            } else Some w);
     Some (w1\<lparr>listener_list := map (redirect (l_addr l) connect_to t) (listener_list w1)\<rparr>)
   }"

definition resolved_name :: "string \<Rightarrow> nat \<Rightarrow> string" where
  "resolved_name name resolved = (if resolved \<noteq> 0 then ''tcp:'' @ dec_digits resolved else name)"

definition new_listener ::
    "env \<Rightarrow> (string \<Rightarrow> string + (int \<times> nat)) \<Rightarrow> string \<Rightarrow> string \<Rightarrow> tref option \<Rightarrow> bool \<Rightarrow> world \<Rightarrow>
     (InstallStatus \<times> string \<times> nat option \<times> world) option" where
  "new_listener env listen local_name connect_to t disabled w =
     (case listen local_name of
        Inl e \<Rightarrow> Some (INSTALL_STATUS_CANNOT_BIND, e, None, w)
      | Inr (fd, resolved) \<Rightarrow> do {
          let l = \<lparr>l_addr = next_listener w, l_fd = fd, l_reading = (\<not> disabled),
                   l_local_name = resolved_name local_name resolved,
                   l_connect_to = connect_to, l_transport = t\<rparr>;
          CHECK (isSmartSocket l \<longrightarrow> e_host env);
          w1 \<leftarrow> (case t of None \<Rightarrow> Some w | Some t \<Rightarrow> on_transport t (AddDisconnect (ListenerDisconnect (l_addr l))) w);
          Some (INSTALL_STATUS_OK, [], if resolved \<noteq> 0 then Some resolved else None,
            w1\<lparr>next_listener := next_listener w1 + 1, listener_list := listener_list w1 @ [l]\<rparr>)
        })"

definition install_listener ::
    "env \<Rightarrow> (string \<Rightarrow> string + (int \<times> nat)) \<Rightarrow> string \<Rightarrow> string \<Rightarrow> tref option \<Rightarrow> bool \<Rightarrow> bool \<Rightarrow> world \<Rightarrow>
     (InstallStatus \<times> string \<times> nat option \<times> world) option" where
  "install_listener env listen local_name connect_to t no_rebind disabled w =
     (case find (\<lambda>l. l_local_name l = local_name) (listener_list w) of
        Some l \<Rightarrow>
          if isSmartSocket l then Some (INSTALL_STATUS_INTERNAL_ERROR, ''cannot repurpose smartsocket'', None, w)
          else if no_rebind then Some (INSTALL_STATUS_CANNOT_REBIND, ''cannot rebind'', None, w)
          else do { w1 \<leftarrow> rebind_listener l connect_to t w; Some (INSTALL_STATUS_OK, [], None, w1) }
      | None \<Rightarrow> new_listener env listen local_name connect_to t disabled w)"

section \<open>Disconnects\<close>

text \<open>The callbacks; \<open>adb_disconnected\<close> of \<open>daemon/auth.cpp\<close> insists on an authorization id.\<close>

definition call_disconnect :: "tref \<Rightarrow> adisconnect \<Rightarrow> world \<Rightarrow> world option" where
  "call_disconnect t d w =
     (case d of
        ListenerDisconnect x \<Rightarrow> Some (listener_disconnect x w)
      | AdbDisconnected \<Rightarrow> do {
          tr \<leftarrow> transports w t;
          i \<leftarrow> tr_auth_id tr;
          Some (w\<lparr>framework_calls := framework_calls w @ [NotifyDisconnect i]\<rparr>)
        })"

fun call_disconnects :: "tref \<Rightarrow> adisconnect list \<Rightarrow> world \<Rightarrow> world option" where
  "call_disconnects t [] w = Some w"
| "call_disconnects t (d # ds) w = do { w1 \<leftarrow> call_disconnect t d w; call_disconnects t ds w1 }"

definition RunDisconnects :: "tref \<Rightarrow> world \<Rightarrow> world option" where
  "RunDisconnects t w = do {
     tr \<leftarrow> transports w t;
     w1 \<leftarrow> call_disconnects t (tr_disconnects tr) w;
     on_transport t (\<lambda>tr. tr\<lparr>tr_disconnects := []\<rparr>) w1
   }"

section \<open>Invariant\<close>

text \<open>
  The callbacks registered at the transports, and the transports that the listeners name: the
  invariant says that they are the same pairs.
\<close>

definition callbacks :: "world \<Rightarrow> (nat \<times> tref) set" where
  "callbacks w = {(x, t). \<exists>tr. transports w t = Some tr \<and> ListenerDisconnect x \<in> set (tr_disconnects tr)}"

definition listener_refs :: "alistener list \<Rightarrow> (nat \<times> tref) set" where
  "listener_refs ls = {(x, t). \<exists>l \<in> set ls. l_addr l = x \<and> l_transport l = Some t}"

definition listeners_ok :: "world \<Rightarrow> bool" where
  "listeners_ok w \<longleftrightarrow>
     distinct (map l_addr (listener_list w)) \<and> distinct (map l_local_name (listener_list w)) \<and>
     (\<forall>l \<in> set (listener_list w). l_addr l < next_listener w \<and> (\<not> isSmartSocket l \<longrightarrow> l_transport l \<noteq> None)) \<and>
     callbacks w = listener_refs (listener_list w)"

definition forward_table :: "world \<Rightarrow> string \<rightharpoonup> string \<times> tref option" where
  "forward_table w = map_of (map (\<lambda>l. (l_local_name l, (l_connect_to l, l_transport l))) (listener_list w))"

lemma callbacks_update:
  assumes "transports w t = Some tr"
  shows "callbacks (w\<lparr>transports := (transports w)(t \<mapsto> RemoveDisconnect (ListenerDisconnect x) tr)\<rparr>) = callbacks w - {(x, t)}"
    and "callbacks (w\<lparr>transports := (transports w)(t \<mapsto> AddDisconnect (ListenerDisconnect x) tr)\<rparr>) = insert (x, t) (callbacks w)"
    and "callbacks (w\<lparr>transports := (transports w)(t \<mapsto> tr\<lparr>tr_disconnects := []\<rparr>)\<rparr>) = {(x, u) \<in> callbacks w. u \<noteq> t}"
  using assms by (auto simp: callbacks_def RemoveDisconnect_def AddDisconnect_def split: if_splits)

lemma callbacks_cong [simp]:
  "callbacks (w\<lparr>listener_list := ls\<rparr>) = callbacks w" "callbacks (w\<lparr>next_listener := n\<rparr>) = callbacks w"
  "callbacks (w\<lparr>framework_calls := fc\<rparr>) = callbacks w"
  by (simp_all add: callbacks_def)

text \<open>The reference that a listener of the list holds.\<close>

lemma listener_alive:
  assumes "listeners_ok w" and "l \<in> set (listener_list w)" and "l_transport l = Some t"
  obtains tr where "transports w t = Some tr" and "ListenerDisconnect (l_addr l) \<in> set (tr_disconnects tr)"
proof -
  have "(l_addr l, t) \<in> callbacks w" using assms unfolding listeners_ok_def listener_refs_def by blast
  with that show ?thesis by (auto simp: callbacks_def)
qed

lemma same_addr:
  assumes "listeners_ok w" and "l \<in> set (listener_list w)" and "k \<in> set (listener_list w)"
  shows "l_addr l = l_addr k \<longleftrightarrow> l = k" and "l_local_name l = l_local_name k \<longleftrightarrow> l = k"
  using assms by (auto simp: listeners_ok_def distinct_map dest: inj_onD)

text \<open>A transport update that only concerns the callbacks keeps the sockets.\<close>

definition without_callbacks :: "world \<Rightarrow> world" where
  "without_callbacks w = w\<lparr>transports := (\<lambda>t. map_option (\<lambda>tr. tr\<lparr>tr_disconnects := []\<rparr>) (transports w t)),
     listener_list := [], next_listener := 0, framework_calls := []\<rparr>"

definition callbacks_only :: "world \<Rightarrow> world \<Rightarrow> bool" where
  "callbacks_only w w' \<longleftrightarrow> without_callbacks w' = without_callbacks w"

lemma callbacks_only_refl [simp]: "callbacks_only w w"
  by (simp add: callbacks_only_def)

lemma callbacks_only_trans: "callbacks_only w w1 \<Longrightarrow> callbacks_only w1 w2 \<Longrightarrow> callbacks_only w w2"
  by (simp add: callbacks_only_def)

lemma callbacks_only_same:
  assumes "callbacks_only w w'"
  shows "same_sockets w w'" and "heap w' = heap w" and "local_socket_list w' = local_socket_list w"
    and "local_socket_closing_list w' = local_socket_closing_list w" and "device_tracker_list w' = device_tracker_list w"
proof -
  note eq = assms [unfolded callbacks_only_def without_callbacks_def]
  show "heap w' = heap w" "local_socket_list w' = local_socket_list w"
    "local_socket_closing_list w' = local_socket_closing_list w" "device_tracker_list w' = device_tracker_list w"
    using arg_cong [OF eq, of heap] arg_cong [OF eq, of local_socket_list]
      arg_cong [OF eq, of local_socket_closing_list] arg_cong [OF eq, of device_tracker_list] by simp_all
  have "next_addr w' = next_addr w" "local_socket_next_id w' = local_socket_next_id w"
    "transport_list w' = transport_list w" "pending_list w' = pending_list w"
    using arg_cong [OF eq, of next_addr] arg_cong [OF eq, of local_socket_next_id]
      arg_cong [OF eq, of transport_list] arg_cong [OF eq, of pending_list] by simp_all
  moreover have "transports w' t = None \<longleftrightarrow> transports w t = None" for t
    using fun_cong [OF arg_cong [OF eq, of transports], of t] by (cases "transports w' t"; cases "transports w t") simp_all
  ultimately show "same_sockets w w'" by (simp add: same_sockets_def)
qed

lemma sock_inv_callbacks_only: "callbacks_only w w' \<Longrightarrow> sock_inv w' = sock_inv w"
  by (rule sock_inv_same) (simp_all add: callbacks_only_same)

section \<open>Operations keep the invariant\<close>

lemma on_transport_Some: "transports w t = Some tr \<Longrightarrow> on_transport t f w = Some (w\<lparr>transports := (transports w)(t \<mapsto> f tr)\<rparr>)"
  by (simp add: on_transport_def)

lemma callbacks_only_update:
  assumes "transports w t = Some tr"
  shows "callbacks_only w (w\<lparr>transports := (transports w)(t \<mapsto> RemoveDisconnect d tr)\<rparr>)"
    and "callbacks_only w (w\<lparr>transports := (transports w)(t \<mapsto> AddDisconnect d tr)\<rparr>)"
    and "callbacks_only w (w\<lparr>transports := (transports w)(t \<mapsto> tr\<lparr>tr_disconnects := []\<rparr>)\<rparr>)"
  using assms by (simp_all add: callbacks_only_def without_callbacks_def RemoveDisconnect_def AddDisconnect_def fun_upd_def fun_eq_iff)

lemma callbacks_only_lists [simp]:
  "callbacks_only w (w'\<lparr>listener_list := ls\<rparr>) = callbacks_only w w'"
  "callbacks_only w (w'\<lparr>next_listener := n\<rparr>) = callbacks_only w w'"
  "callbacks_only w (w'\<lparr>framework_calls := fc\<rparr>) = callbacks_only w w'"
  "callbacks_only (w\<lparr>listener_list := ls\<rparr>) w' = callbacks_only w w'"
  by (simp_all add: callbacks_only_def without_callbacks_def)

lemma filter_listener_refs:
  assumes "listeners_ok w" and "l \<in> set (listener_list w)"
  shows "listener_refs (filter (\<lambda>k. l_addr k \<noteq> l_addr l) (listener_list w)) =
    listener_refs (listener_list w) - {(x, t). x = l_addr l \<and> l_transport l = Some t}"
  using same_addr(1) [OF assms(1) assms(2)] by (auto simp: listener_refs_def) metis

lemma erase_listener_ok:
  assumes ok: "listeners_ok w" and l: "l \<in> set (listener_list w)"
  obtains w' where "erase_listener l w = Some w'" and "listeners_ok w'" and "callbacks_only w w'"
    and "listener_list w' = filter (\<lambda>k. l_addr k \<noteq> l_addr l) (listener_list w)"
proof -
  define w1 where "w1 = w\<lparr>listener_list := filter (\<lambda>k. l_addr k \<noteq> l_addr l) (listener_list w)\<rparr>"
  note refs = filter_listener_refs [OF ok l]
  have keep: "distinct (map l_addr (listener_list w1))" "distinct (map l_local_name (listener_list w1))"
    "\<forall>k \<in> set (listener_list w1). l_addr k < next_listener w \<and> (\<not> isSmartSocket k \<longrightarrow> l_transport k \<noteq> None)"
    using ok by (auto simp: w1_def listeners_ok_def distinct_map_filter)
  have cb: "callbacks w = listener_refs (listener_list w)" using ok by (simp add: listeners_ok_def)
  show ?thesis
  proof (cases "l_transport l")
    case None
    have "callbacks w1 = listener_refs (listener_list w1)" unfolding w1_def callbacks_cong using cb refs None by simp
    then have "listeners_ok w1" using keep unfolding listeners_ok_def by (simp add: w1_def)
    with that [of w1] None show ?thesis by (simp add: erase_listener_def destroy_listener_def w1_def)
  next
    case (Some t)
    obtain tr where tr: "transports w t = Some tr" by (rule listener_alive [OF ok l Some])
    then have tr1: "transports w1 t = Some tr" by (simp add: w1_def)
    define w' where "w' = w1\<lparr>transports := (transports w1)(t \<mapsto> RemoveDisconnect (ListenerDisconnect (l_addr l)) tr)\<rparr>"
    have w': "on_transport t (RemoveDisconnect (ListenerDisconnect (l_addr l))) w1 = Some w'" "callbacks_only w1 w'"
      unfolding w'_def using on_transport_Some [OF tr1] callbacks_only_update(1) [OF tr1] by simp_all
    have "callbacks w' = callbacks w1 - {(l_addr l, t)}"
      unfolding w'_def by (rule callbacks_update(1) [OF tr1])
    also have "\<dots> = listener_refs (listener_list w1)" using cb refs Some by (auto simp: w1_def)
    finally have cb': "callbacks w' = listener_refs (listener_list w1)" .
    have "listener_list w' = listener_list w1" "next_listener w' = next_listener w" unfolding w'_def by (simp_all add: w1_def)
    then have "listeners_ok w'" using keep cb' unfolding listeners_ok_def by simp
    moreover have "erase_listener l w = Some w'"
      using w'(1) Some by (simp add: erase_listener_def destroy_listener_def w1_def)
    moreover have "listener_list w' = listener_list w1" unfolding w'_def by simp
    moreover have "callbacks_only w w'" using w'(2) by (simp add: w1_def)
    ultimately show ?thesis using that by (simp add: w1_def)
  qed
qed

lemma erase_listeners_ok:
  assumes "listeners_ok w" and "set ls \<subseteq> set (listener_list w)" and "distinct (map l_addr ls)"
  shows "\<exists>w'. erase_listeners ls w = Some w' \<and> listeners_ok w' \<and> callbacks_only w w' \<and>
    listener_list w' = filter (\<lambda>k. l_addr k \<notin> l_addr ` set ls) (listener_list w)"
  using assms
proof (induction ls arbitrary: w)
  case (Cons l ls)
  have l: "l \<in> set (listener_list w)" using Cons.prems(2) by simp
  obtain w1 where w1: "erase_listener l w = Some w1" "listeners_ok w1" "callbacks_only w w1"
    "listener_list w1 = filter (\<lambda>k. l_addr k \<noteq> l_addr l) (listener_list w)"
    by (rule erase_listener_ok [OF Cons.prems(1) l])
  have "l_addr x \<noteq> l_addr l" if "x \<in> set ls" for x using Cons.prems(3) that by (metis distinct.simps(2) image_eqI list.set_map list.simps(9))
  then have "set ls \<subseteq> set (listener_list w1)" using Cons.prems(2) w1(4) by auto
  from Cons.IH [OF w1(2) this] Cons.prems(3) obtain w' where
    w': "erase_listeners ls w1 = Some w'" "listeners_ok w'" "callbacks_only w1 w'"
      "listener_list w' = filter (\<lambda>k. l_addr k \<notin> l_addr ` set ls) (listener_list w1)" by auto
  have "listener_list w' = filter (\<lambda>k. l_addr k \<notin> l_addr ` set (l # ls)) (listener_list w)"
    unfolding w'(4) w1(4) by (auto intro: filter_cong)
  with w' w1 callbacks_only_trans [OF w1(3) w'(3)] show ?case by auto
qed simp

text \<open>Erasing all listeners that satisfy a predicate.\<close>

lemma erase_filter_ok:
  assumes ok: "listeners_ok w"
  shows "\<exists>w'. erase_listeners (filter P (listener_list w)) w = Some w' \<and> listeners_ok w' \<and> callbacks_only w w' \<and>
    listener_list w' = filter (\<lambda>k. \<not> P k) (listener_list w)"
proof -
  have d: "distinct (map l_addr (filter P (listener_list w)))" using ok by (simp add: listeners_ok_def distinct_map_filter)
  have "filter (\<lambda>k. l_addr k \<notin> l_addr ` set (filter P (listener_list w))) (listener_list w) =
      filter (\<lambda>k. \<not> P k) (listener_list w)"
    using same_addr(1) [OF ok] by (intro filter_cong) (auto simp: image_iff)
  with erase_listeners_ok [OF ok _ d] show ?thesis by auto
qed

lemma redirect_simps [simp]:
  "l_addr (redirect x c t k) = l_addr k" "l_local_name (redirect x c t k) = l_local_name k"
  "l_transport (redirect x c t k) = (if l_addr k = x then t else l_transport k)"
  "l_connect_to (redirect x c t k) = (if l_addr k = x then c else l_connect_to k)"
  by (simp_all add: redirect_def)

lemma listener_refs_map:
  "listener_refs (map f ls) = {(x, u). \<exists>l \<in> set ls. l_addr (f l) = x \<and> l_transport (f l) = Some u}"
  by (auto simp: listener_refs_def)

lemma redirect_listener_refs:
  assumes "l \<in> set ls"
  shows "listener_refs (map (redirect (l_addr l) c t) ls) =
    (listener_refs ls - {(x, u). x = l_addr l}) \<union> {(x, u). x = l_addr l \<and> t = Some u}"
  using assms unfolding listener_refs_map by (auto simp: listener_refs_def split: if_splits)

text \<open>The pairs with the address of a listener of the list.\<close>

lemma refs_of_listener:
  assumes ok: "listeners_ok w" and l: "l \<in> set (listener_list w)"
  shows "(l_addr l, t) \<in> listener_refs (listener_list w) \<longleftrightarrow> l_transport l = Some t"
proof
  assume "(l_addr l, t) \<in> listener_refs (listener_list w)"
  then obtain k where "k \<in> set (listener_list w)" "l_addr k = l_addr l" "l_transport k = Some t"
    by (auto simp: listener_refs_def)
  with same_addr(1) [OF ok l] show "l_transport l = Some t" by metis
qed (use l in \<open>auto simp: listener_refs_def\<close>)

lemma rebind_listener_ok:
  assumes ok: "listeners_ok w" and l: "l \<in> set (listener_list w)" "\<not> isSmartSocket l" and t: "transports w t \<noteq> None"
  obtains w' where "rebind_listener l c (Some t) w = Some w'" and "listeners_ok w'" and "callbacks_only w w'"
    and "listener_list w' = map (redirect (l_addr l) c (Some t)) (listener_list w)"
proof -
  let ?upd = "redirect (l_addr l) c (Some t)"
  have cb: "callbacks w = listener_refs (listener_list w)" using ok by (simp add: listeners_ok_def)
  have refs: "listener_refs (map ?upd (listener_list w)) =
      (callbacks w - {(x, u). x = l_addr l}) \<union> {(l_addr l, t)}"
    unfolding redirect_listener_refs [OF l(1)] cb by auto
  have fin: "listeners_ok (w1\<lparr>listener_list := map ?upd (listener_list w)\<rparr>)"
    if "callbacks w1 = listener_refs (map ?upd (listener_list w))" "next_listener w1 = next_listener w" for w1
    using ok that unfolding listeners_ok_def by (auto simp: isSmartSocket_def comp_def)
  obtain old where old: "l_transport l = Some old" using ok l unfolding listeners_ok_def by blast
  have own: "(l_addr l, u) \<in> callbacks w \<longleftrightarrow> u = old" for u
    using refs_of_listener [OF ok l(1), of u] old cb by auto
  show ?thesis
  proof (cases "old = t")
    case True
    have "callbacks w = listener_refs (map ?upd (listener_list w))"
      unfolding refs using own True by auto
    then have "listeners_ok (w\<lparr>listener_list := map ?upd (listener_list w)\<rparr>)" by (rule fin) simp
    with that old True show ?thesis by (simp add: rebind_listener_def)
  next
    case False
    obtain tr1 where tr1: "transports w old = Some tr1" by (rule listener_alive [OF ok l(1) old])
    define w1 where "w1 = w\<lparr>transports := (transports w)(old \<mapsto> RemoveDisconnect (ListenerDisconnect (l_addr l)) tr1)\<rparr>"
    obtain tr2 where tr2: "transports w1 t = Some tr2" using t False by (auto simp: w1_def)
    define w2 where "w2 = w1\<lparr>transports := (transports w1)(t \<mapsto> AddDisconnect (ListenerDisconnect (l_addr l)) tr2)\<rparr>"
    have "callbacks w2 = insert (l_addr l, t) (callbacks w - {(l_addr l, old)})"
      unfolding w2_def callbacks_update(2) [OF tr2] unfolding w1_def callbacks_update(1) [OF tr1] ..
    also have "\<dots> = listener_refs (map ?upd (listener_list w))" unfolding refs using own by auto
    finally have ok2: "listeners_ok (w2\<lparr>listener_list := map ?upd (listener_list w)\<rparr>)"
      by (rule fin) (simp add: w2_def w1_def)
    have co1: "callbacks_only w w1" unfolding w1_def by (rule callbacks_only_update(1) [OF tr1])
    have co: "callbacks_only w w2"
      using callbacks_only_trans [OF co1 callbacks_only_update(2) [OF tr2]]
      unfolding w2_def .
    have "listener_list w2 = listener_list w" by (simp add: w2_def w1_def)
    then have "rebind_listener l c (Some t) w = Some (w2\<lparr>listener_list := map ?upd (listener_list w)\<rparr>)"
      using old False on_transport_Some [OF tr1, folded w1_def] on_transport_Some [OF tr2, folded w2_def]
      by (simp add: rebind_listener_def w1_def [symmetric] w2_def [symmetric])
    with that ok2 co show ?thesis by simp
  qed
qed

lemma new_listener_ok:
  assumes ok: "listeners_ok w" and t: "transports w t \<noteq> None" and listen: "listen name = Inr (fd, resolved)"
    and smart: "c = kSmartSocketConnectTo \<Longrightarrow> e_host env"
    and fresh: "resolved_name name resolved \<notin> l_local_name ` set (listener_list w)"
  obtains w' where "new_listener env listen name c (Some t) disabled w =
      Some (INSTALL_STATUS_OK, [], if resolved \<noteq> 0 then Some resolved else None, w')"
    and "listeners_ok w'" and "callbacks_only w w'"
    and "listener_list w' = listener_list w @ [\<lparr>l_addr = next_listener w, l_fd = fd, l_reading = (\<not> disabled),
       l_local_name = resolved_name name resolved, l_connect_to = c, l_transport = Some t\<rparr>]"
proof -
  let ?l = "\<lparr>l_addr = next_listener w, l_fd = fd, l_reading = (\<not> disabled),
       l_local_name = resolved_name name resolved, l_connect_to = c, l_transport = Some t\<rparr>"
  obtain tr where tr: "transports w t = Some tr" using t by blast
  define w1 where "w1 = w\<lparr>transports := (transports w)(t \<mapsto> AddDisconnect (ListenerDisconnect (next_listener w)) tr)\<rparr>"
  define w' where "w' = w1\<lparr>next_listener := next_listener w1 + 1, listener_list := listener_list w1 @ [?l]\<rparr>"
  have run: "new_listener env listen name c (Some t) disabled w =
      Some (INSTALL_STATUS_OK, [], if resolved \<noteq> 0 then Some resolved else None, w')"
    using listen smart on_transport_Some [OF tr, of "AddDisconnect (ListenerDisconnect (next_listener w))", folded w1_def]
    unfolding new_listener_def by (auto simp: Let_def isSmartSocket_def w'_def)
  have cb: "callbacks w1 = insert (next_listener w, t) (callbacks w)" unfolding w1_def by (rule callbacks_update(2) [OF tr])
  have "next_listener w \<notin> l_addr ` set (listener_list w)" using ok by (auto simp: listeners_ok_def)
  moreover have "callbacks w' = listener_refs (listener_list w')"
    using ok cb by (auto simp: w'_def w1_def listeners_ok_def listener_refs_def)
  ultimately have "listeners_ok w'"
    using ok fresh unfolding listeners_ok_def by (auto simp: w'_def w1_def)
  moreover have "callbacks_only w w'" using callbacks_only_update(2) [OF tr] by (simp add: w'_def w1_def)
  ultimately show ?thesis using that run by (simp add: w'_def w1_def)
qed

section \<open>Disconnects: lemmas\<close>

definition auth_ids_ok :: "world \<Rightarrow> bool" where
  "auth_ids_ok w \<longleftrightarrow> (\<forall>t tr. transports w t = Some tr \<longrightarrow> AdbDisconnected \<in> set (tr_disconnects tr) \<longrightarrow> tr_auth_id tr \<noteq> None)"

lemma call_disconnects_ok:
  assumes "transports w t = Some tr" and "AdbDisconnected \<in> set ds \<Longrightarrow> tr_auth_id tr \<noteq> None"
  shows "\<exists>fc. call_disconnects t ds w =
    Some (w\<lparr>listener_list := filter (\<lambda>l. ListenerDisconnect (l_addr l) \<notin> set ds) (listener_list w), framework_calls := fc\<rparr>)"
  using assms
proof (induction ds arbitrary: w)
  case Nil
  then show ?case by (intro exI [of _ "framework_calls w"]) simp
next
  case (Cons d ds)
  show ?case
  proof (cases d)
    case (ListenerDisconnect x)
    have "\<exists>fc. call_disconnects t ds (listener_disconnect x w) =
        Some ((listener_disconnect x w)\<lparr>listener_list := filter (\<lambda>l. ListenerDisconnect (l_addr l) \<notin> set ds)
          (listener_list (listener_disconnect x w)), framework_calls := fc\<rparr>)"
      by (rule Cons.IH) (use Cons.prems in \<open>simp_all add: listener_disconnect_def\<close>)
    with ListenerDisconnect show ?thesis
      by (simp add: call_disconnect_def listener_disconnect_def conj_commute)
  next
    case AdbDisconnected
    obtain i where i: "tr_auth_id tr = Some i" using Cons.prems(2) AdbDisconnected by auto
    let ?w = "w\<lparr>framework_calls := framework_calls w @ [NotifyDisconnect i]\<rparr>"
    have "\<exists>fc. call_disconnects t ds ?w =
        Some (?w\<lparr>listener_list := filter (\<lambda>l. ListenerDisconnect (l_addr l) \<notin> set ds) (listener_list ?w), framework_calls := fc\<rparr>)"
      by (rule Cons.IH) (use Cons.prems in simp_all)
    with AdbDisconnected i Cons.prems(1) show ?thesis by (simp add: call_disconnect_def)
  qed
qed

text \<open>After its disconnects have run, no listener names the transport, and it names no listener.\<close>

lemma RunDisconnects_ok:
  assumes ok: "listeners_ok w" and ids: "auth_ids_ok w" and tr: "transports w t = Some tr"
  obtains w' where "RunDisconnects t w = Some w'" and "listeners_ok w'" and "callbacks_only w w'" and "auth_ids_ok w'"
    and "listener_list w' = filter (\<lambda>l. l_transport l \<noteq> Some t) (listener_list w)"
    and "transports w' = (transports w)(t \<mapsto> tr\<lparr>tr_disconnects := []\<rparr>)"
proof -
  have "AdbDisconnected \<in> set (tr_disconnects tr) \<Longrightarrow> tr_auth_id tr \<noteq> None" using ids tr by (simp add: auth_ids_ok_def)
  from call_disconnects_ok [OF tr this] obtain fc where call: "call_disconnects t (tr_disconnects tr) w =
      Some (w\<lparr>listener_list := filter (\<lambda>l. ListenerDisconnect (l_addr l) \<notin> set (tr_disconnects tr)) (listener_list w),
        framework_calls := fc\<rparr>)" by blast
  have cb: "callbacks w = listener_refs (listener_list w)" using ok by (simp add: listeners_ok_def)
  have "ListenerDisconnect (l_addr l) \<in> set (tr_disconnects tr) \<longleftrightarrow> l_transport l = Some t" if "l \<in> set (listener_list w)" for l
  proof -
    have "ListenerDisconnect (l_addr l) \<in> set (tr_disconnects tr) \<longleftrightarrow> (l_addr l, t) \<in> callbacks w"
      using tr by (auto simp: callbacks_def)
    with refs_of_listener [OF ok that] cb show ?thesis by simp
  qed
  then have list: "filter (\<lambda>l. ListenerDisconnect (l_addr l) \<notin> set (tr_disconnects tr)) (listener_list w) =
      filter (\<lambda>l. l_transport l \<noteq> Some t) (listener_list w)" by (intro filter_cong) auto
  define w1 where "w1 = w\<lparr>listener_list := filter (\<lambda>l. l_transport l \<noteq> Some t) (listener_list w), framework_calls := fc\<rparr>"
  have tr1: "transports w1 t = Some tr" using tr by (simp add: w1_def)
  define w' where "w' = w1\<lparr>transports := (transports w1)(t \<mapsto> tr\<lparr>tr_disconnects := []\<rparr>)\<rparr>"
  have run: "RunDisconnects t w = Some w'"
    using tr call on_transport_Some [OF tr1] by (simp add: RunDisconnects_def list w1_def w'_def)
  have "callbacks w' = {(x, u) \<in> callbacks w. u \<noteq> t}"
    unfolding w'_def callbacks_update(3) [OF tr1] by (simp add: w1_def)
  also have "\<dots> = listener_refs (filter (\<lambda>l. l_transport l \<noteq> Some t) (listener_list w))"
    unfolding cb using same_addr(1) [OF ok] by (auto simp: listener_refs_def)
  finally have "listeners_ok w'" using ok unfolding listeners_ok_def
    by (auto simp: w'_def w1_def distinct_map_filter)
  moreover have "callbacks_only w w'"
    by (rule callbacks_only_trans [OF _ callbacks_only_update(3) [OF tr1, folded w'_def]]) (simp add: w1_def)
  moreover have "auth_ids_ok w'" using ids by (simp add: auth_ids_ok_def w'_def w1_def)
  ultimately show ?thesis using that run by (simp add: w'_def w1_def)
qed

section \<open>The table of forwards\<close>

lemma map_eqI: "(\<And>n d. m n = Some d \<longleftrightarrow> m' n = Some d) \<Longrightarrow> m = m'"
  by (rule ext) (metis option.exhaust)

lemma forward_table_iff:
  assumes "distinct (map l_local_name (listener_list w))"
  shows "forward_table w n = Some (c, u) \<longleftrightarrow>
    (\<exists>l \<in> set (listener_list w). l_local_name l = n \<and> l_connect_to l = c \<and> l_transport l = u)"
  unfolding forward_table_def using assms by (subst map_of_eq_Some_iff) (auto simp: comp_def)

lemma forward_table_None: "forward_table w n = None \<longleftrightarrow> n \<notin> l_local_name ` set (listener_list w)"
  by (simp add: forward_table_def map_of_eq_None_iff image_image)

lemma find_listener:
  assumes "find (\<lambda>l. l_local_name l = n) (listener_list w) = Some l"
  shows "l \<in> set (listener_list w)" and "l_local_name l = n"
  using assms by (auto simp: find_Some_iff)

lemma find_listener_None:
  "find (\<lambda>l. l_local_name l = n) (listener_list w) = None \<longleftrightarrow> forward_table w n = None"
  by (auto simp: find_None_iff forward_table_None)

text \<open>The operations as commands, and the table they are specified by: the destinations by local name, and the live transports.\<close>

datatype listener_cmd =
  Install string string tref bool bool | Remove string | RemoveAll | CloseSmart | EnableServer | Disconnected tref

fun listener_step :: "env \<Rightarrow> (string \<Rightarrow> string + (int \<times> nat)) \<Rightarrow> listener_cmd \<Rightarrow> world \<Rightarrow> world option" where
  "listener_step env listen (Install name c t no_rebind disabled) w =
     map_option (\<lambda>(_, _, _, w'). w') (install_listener env listen name c (Some t) no_rebind disabled w)"
| "listener_step env listen (Remove name) w = map_option snd (remove_listener name w)"
| "listener_step env listen RemoveAll w = remove_all_listeners w"
| "listener_step env listen CloseSmart w = close_smartsockets w"
| "listener_step env listen EnableServer w = Some (enable_server_sockets w)"
| "listener_step env listen (Disconnected t) w = RunDisconnects t w"

type_synonym forwards = "(string \<rightharpoonup> string \<times> tref option) \<times> tref set"

definition forwards_of :: "world \<Rightarrow> forwards" where
  "forwards_of w = (forward_table w, dom (transports w))"

definition keep_entries :: "(string \<Rightarrow> tref option \<Rightarrow> bool) \<Rightarrow> (string \<rightharpoonup> string \<times> tref option) \<Rightarrow> string \<rightharpoonup> string \<times> tref option" where
  "keep_entries P tab = (\<lambda>n. case tab n of Some (c, u) \<Rightarrow> if P c u then Some (c, u) else None | None \<Rightarrow> None)"

fun listener_spec :: "(string \<Rightarrow> string + (int \<times> nat)) \<Rightarrow> listener_cmd \<Rightarrow> forwards \<Rightarrow> forwards" where
  "listener_spec listen (Install name c t no_rebind disabled) (tab, alive) =
     (case tab name of
        Some (d, u) \<Rightarrow> (if d = kSmartSocketConnectTo \<or> no_rebind then tab else tab(name \<mapsto> (c, Some t)), alive)
      | None \<Rightarrow>
          (case listen name of
             Inl e \<Rightarrow> (tab, alive)
           | Inr (fd, resolved) \<Rightarrow> (tab(resolved_name name resolved \<mapsto> (c, Some t)), alive)))"
| "listener_spec listen (Remove name) (tab, alive) = (tab(name := None), alive)"
| "listener_spec listen RemoveAll (tab, alive) = (keep_entries (\<lambda>c u. c \<noteq> [] \<and> hd c = CHR ''*'') tab, alive)"
| "listener_spec listen CloseSmart (tab, alive) = (keep_entries (\<lambda>c u. c \<noteq> kSmartSocketConnectTo) tab, alive)"
| "listener_spec listen EnableServer (tab, alive) = (tab, alive)"
| "listener_spec listen (Disconnected t) (tab, alive) = (keep_entries (\<lambda>c u. u \<noteq> Some t) tab, alive)"

text \<open>
  What the commands rely on: live transports, smart sockets on the host only, and the operating
  system not to resolve to a port that is already in the table.
\<close>

fun listener_allowed :: "env \<Rightarrow> (string \<Rightarrow> string + (int \<times> nat)) \<Rightarrow> listener_cmd \<Rightarrow> forwards \<Rightarrow> bool" where
  "listener_allowed env listen (Install name c t no_rebind disabled) (tab, alive) \<longleftrightarrow>
     t \<in> alive \<and> (c = kSmartSocketConnectTo \<longrightarrow> e_host env) \<and>
     (case listen name of Inl e \<Rightarrow> True | Inr (fd, resolved) \<Rightarrow> resolved \<noteq> 0 \<longrightarrow> tab (resolved_name name resolved) = None)"
| "listener_allowed env listen (Disconnected t) (tab, alive) \<longleftrightarrow> t \<in> alive"
| "listener_allowed env listen _ _ \<longleftrightarrow> True"

definition listener_inv :: "world \<Rightarrow> bool" where
  "listener_inv w \<longleftrightarrow> listeners_ok w \<and> auth_ids_ok w"

lemma listeners_ok_names: "listeners_ok w \<Longrightarrow> distinct (map l_local_name (listener_list w))"
  by (simp add: listeners_ok_def)

lemma forward_table_filter:
  assumes ok: "listeners_ok w" "listeners_ok w'" and list: "listener_list w' = filter (\<lambda>l. P (l_connect_to l) (l_transport l)) (listener_list w)"
  shows "forward_table w' = keep_entries P (forward_table w)"
proof (rule map_eqI)
  fix n and d :: "string \<times> tref option"
  obtain c u where d: "d = (c, u)" by force
  have "keep_entries P (forward_table w) n = Some (c, u) \<longleftrightarrow> forward_table w n = Some (c, u) \<and> P c u"
    by (auto simp: keep_entries_def split: option.splits if_splits)
  then show "forward_table w' n = Some d \<longleftrightarrow> keep_entries P (forward_table w) n = Some d"
    unfolding d forward_table_iff [OF listeners_ok_names [OF ok(1)]] forward_table_iff [OF listeners_ok_names [OF ok(2)]] list
    by auto
qed

lemma callbacks_only_dom: "callbacks_only w w' \<Longrightarrow> dom (transports w') = dom (transports w)"
  using callbacks_only_same(1) [of w w'] by (auto simp: same_sockets_def dom_def)

lemma callbacks_only_ids:
  assumes co: "callbacks_only w w'" and ids: "auth_ids_ok w"
    and "\<And>t tr tr'. transports w t = Some tr \<Longrightarrow> transports w' t = Some tr' \<Longrightarrow> AdbDisconnected \<in> set (tr_disconnects tr') \<Longrightarrow>
      AdbDisconnected \<in> set (tr_disconnects tr)"
  shows "auth_ids_ok w'"
  unfolding auth_ids_ok_def
proof (intro allI impI)
  fix t tr' assume tr': "transports w' t = Some tr'" "AdbDisconnected \<in> set (tr_disconnects tr')"
  have eq: "map_option (\<lambda>tr. tr\<lparr>tr_disconnects := []\<rparr>) (transports w' t) = map_option (\<lambda>tr. tr\<lparr>tr_disconnects := []\<rparr>) (transports w t)"
    using fun_cong [OF arg_cong [OF co [unfolded callbacks_only_def without_callbacks_def], of transports], of t] by simp
  then obtain tr where tr: "transports w t = Some tr" "tr\<lparr>tr_disconnects := []\<rparr> = tr'\<lparr>tr_disconnects := []\<rparr>"
    using tr'(1) by (cases "transports w t") auto
  have "tr_auth_id tr' = tr_auth_id tr" using arg_cong [OF tr(2), of tr_auth_id] by simp
  moreover have "tr_auth_id tr \<noteq> None" using ids tr(1) assms(3) [OF tr(1) tr'] by (simp add: auth_ids_ok_def)
  ultimately show "tr_auth_id tr' \<noteq> None" by simp
qed

lemma erase_listener_ids: "erase_listener l w = Some w' \<Longrightarrow> auth_ids_ok w \<Longrightarrow> auth_ids_ok w'"
  by (auto simp: erase_listener_def destroy_listener_def on_transport_def auth_ids_ok_def RemoveDisconnect_def
      split: option.splits bind_splits if_splits)

lemma erase_listeners_ids: "erase_listeners ls w = Some w' \<Longrightarrow> auth_ids_ok w \<Longrightarrow> auth_ids_ok w'"
  by (induction ls arbitrary: w) (auto dest: erase_listener_ids split: bind_splits)

lemma rebind_listener_ids: "rebind_listener l c t w = Some w' \<Longrightarrow> auth_ids_ok w \<Longrightarrow> auth_ids_ok w'"
  by (auto simp: rebind_listener_def on_transport_def auth_ids_ok_def RemoveDisconnect_def AddDisconnect_def
      split: option.splits bind_splits if_splits)

lemma new_listener_ids: "new_listener env listen name c t dis w = Some (r, e, p, w') \<Longrightarrow> auth_ids_ok w \<Longrightarrow> auth_ids_ok w'"
  by (auto simp: new_listener_def on_transport_def auth_ids_ok_def AddDisconnect_def Let_def
      split: option.splits bind_splits if_splits sum.splits)

lemma addr_name:
  assumes "listeners_ok w" and "l \<in> set (listener_list w)" and "k \<in> set (listener_list w)"
  shows "l_addr k = l_addr l \<longleftrightarrow> l_local_name k = l_local_name l"
  using same_addr [OF assms(1,3,2)] by simp

lemma forward_table_remove:
  assumes ok: "listeners_ok w" "listeners_ok w'" and l: "l \<in> set (listener_list w)"
    and list: "listener_list w' = filter (\<lambda>k. l_addr k \<noteq> l_addr l) (listener_list w)"
  shows "forward_table w' = (forward_table w)(l_local_name l := None)"
proof (rule map_eqI)
  fix n and d :: "string \<times> tref option"
  obtain c u where d: "d = (c, u)" by force
  have "k \<in> set (listener_list w') \<longleftrightarrow> k \<in> set (listener_list w) \<and> l_local_name k \<noteq> l_local_name l" for k
    unfolding list using addr_name [OF ok(1) l, of k] by auto
  then show "forward_table w' n = Some d \<longleftrightarrow> ((forward_table w)(l_local_name l := None)) n = Some d"
    unfolding d fun_upd_apply forward_table_iff [OF listeners_ok_names [OF ok(2)]]
    using forward_table_iff [OF listeners_ok_names [OF ok(1)], of n c u] by auto
qed

lemma forward_table_redirect:
  assumes ok: "listeners_ok w" "listeners_ok w'" and l: "l \<in> set (listener_list w)"
    and list: "listener_list w' = map (redirect (l_addr l) c t) (listener_list w)"
  shows "forward_table w' = (forward_table w)(l_local_name l \<mapsto> (c, t))"
proof (rule map_eqI)
  fix n and d :: "string \<times> tref option"
  obtain c' u where d: "d = (c', u)" by force
  have "forward_table w' n = Some (c', u) \<longleftrightarrow>
      (\<exists>k \<in> set (listener_list w). l_local_name k = n \<and>
        (if l_local_name k = l_local_name l then c' = c \<and> u = t else l_connect_to k = c' \<and> l_transport k = u))"
    unfolding forward_table_iff [OF listeners_ok_names [OF ok(2)]] list
    using addr_name [OF ok(1) l] by (auto split: if_splits)
  also have "\<dots> \<longleftrightarrow> (if n = l_local_name l then c' = c \<and> u = t else forward_table w n = Some (c', u))"
    unfolding forward_table_iff [OF listeners_ok_names [OF ok(1)]] using l by (auto split: if_splits)
  finally show "forward_table w' n = Some d \<longleftrightarrow> ((forward_table w)(l_local_name l \<mapsto> (c, t))) n = Some d"
    unfolding d by auto
qed

lemma forward_table_snoc:
  assumes "listener_list w' = listener_list w @ [l]" and "l_local_name l \<notin> l_local_name ` set (listener_list w)"
  shows "forward_table w' = (forward_table w)(l_local_name l \<mapsto> (l_connect_to l, l_transport l))"
  using assms(2) unfolding forward_table_None [symmetric]
  by (auto simp: forward_table_def assms(1) map_add_def fun_eq_iff split: option.splits)

text \<open>Removal by name, and by predicate.\<close>

lemma remove_listener_ok:
  assumes inv: "listener_inv w"
  shows "\<exists>w'. remove_listener name w =
      Some (if forward_table w name = None then INSTALL_STATUS_LISTENER_NOT_FOUND else INSTALL_STATUS_OK, w') \<and>
    listener_inv w' \<and> callbacks_only w w' \<and> forward_table w' = (forward_table w)(name := None)"
proof (cases "find (\<lambda>l. l_local_name l = name) (listener_list w)")
  case None
  then have "forward_table w name = None" by (simp add: find_listener_None)
  with None inv show ?thesis by (simp add: remove_listener_def fun_upd_idem)
next
  case (Some l)
  have ok: "listeners_ok w" "auth_ids_ok w" using inv by (simp_all add: listener_inv_def)
  note l = find_listener [OF Some]
  obtain w' where w': "erase_listener l w = Some w'" "listeners_ok w'" "callbacks_only w w'"
    "listener_list w' = filter (\<lambda>k. l_addr k \<noteq> l_addr l) (listener_list w)" by (rule erase_listener_ok [OF ok(1) l(1)])
  have tab: "forward_table w name \<noteq> None" using Some by (simp add: find_listener_None [symmetric])
  have "forward_table w' = (forward_table w)(name := None)" using forward_table_remove [OF ok(1) w'(2) l(1) w'(4)] l(2) by simp
  with w' erase_listener_ids [OF w'(1) ok(2)] Some tab show ?thesis by (simp add: remove_listener_def listener_inv_def)
qed

lemma erase_entries_ok:
  assumes inv: "listener_inv w"
  shows "\<exists>w'. erase_listeners (filter (\<lambda>l. \<not> P (l_connect_to l) (l_transport l)) (listener_list w)) w = Some w' \<and>
    listener_inv w' \<and> callbacks_only w w' \<and> forward_table w' = keep_entries P (forward_table w)"
proof -
  have ok: "listeners_ok w" "auth_ids_ok w" using inv by (simp_all add: listener_inv_def)
  from erase_filter_ok [OF ok(1), of "\<lambda>l. \<not> P (l_connect_to l) (l_transport l)"] obtain w' where
    w': "erase_listeners (filter (\<lambda>l. \<not> P (l_connect_to l) (l_transport l)) (listener_list w)) w = Some w'" "listeners_ok w'"
      "callbacks_only w w'" "listener_list w' = filter (\<lambda>l. P (l_connect_to l) (l_transport l)) (listener_list w)" by auto
  with erase_listeners_ids [OF w'(1) ok(2)] forward_table_filter [OF ok(1) w'(2) w'(4)] show ?thesis
    by (simp add: listener_inv_def)
qed

text \<open>Installing: the status and the table, on every branch.\<close>

lemma install_listener_ok:
  assumes inv: "listener_inv w" and al: "listener_allowed env listen (Install name c t no_rebind disabled) (forwards_of w)"
  shows "\<exists>w'. install_listener env listen name c (Some t) no_rebind disabled w =
      Some (case forward_table w name of
          Some (d, u) \<Rightarrow> if d = kSmartSocketConnectTo then (INSTALL_STATUS_INTERNAL_ERROR, ''cannot repurpose smartsocket'', None, w')
            else if no_rebind then (INSTALL_STATUS_CANNOT_REBIND, ''cannot rebind'', None, w')
            else (INSTALL_STATUS_OK, [], None, w')
        | None \<Rightarrow> (case listen name of Inl e \<Rightarrow> (INSTALL_STATUS_CANNOT_BIND, e, None, w')
            | Inr (fd, resolved) \<Rightarrow> (INSTALL_STATUS_OK, [], if resolved \<noteq> 0 then Some resolved else None, w'))) \<and>
    listener_inv w' \<and> callbacks_only w w' \<and>
    forwards_of w' = listener_spec listen (Install name c t no_rebind disabled) (forwards_of w)"
proof (cases "find (\<lambda>l. l_local_name l = name) (listener_list w)")
  case (Some l)
  have ok: "listeners_ok w" "auth_ids_ok w" using inv by (simp_all add: listener_inv_def)
  note l = find_listener [OF Some]
  have tab: "forward_table w name = Some (l_connect_to l, l_transport l)"
    unfolding forward_table_iff [OF listeners_ok_names [OF ok(1)]] using l by blast
  show ?thesis
  proof (cases "isSmartSocket l \<or> no_rebind")
    case True
    with Some tab inv show ?thesis by (auto simp: install_listener_def isSmartSocket_def forwards_of_def)
  next
    case False
    have t: "transports w t \<noteq> None" using al by (auto simp: forwards_of_def)
    obtain w' where w': "rebind_listener l c (Some t) w = Some w'" "listeners_ok w'" "callbacks_only w w'"
      "listener_list w' = map (redirect (l_addr l) c (Some t)) (listener_list w)"
      by (rule rebind_listener_ok [OF ok(1) l(1) _ t]) (use False in auto)
    have "forward_table w' = (forward_table w)(name \<mapsto> (c, Some t))"
      using forward_table_redirect [OF ok(1) w'(2) l(1) w'(4)] l(2) by simp
    with w'(1-3) rebind_listener_ids [OF w'(1) ok(2)] callbacks_only_dom [OF w'(3)] Some False tab show ?thesis
      by (intro exI [of _ w']) (simp add: install_listener_def isSmartSocket_def forwards_of_def listener_inv_def)
  qed
next
  case None
  have ok: "listeners_ok w" "auth_ids_ok w" using inv by (simp_all add: listener_inv_def)
  have tab: "forward_table w name = None" using None by (simp add: find_listener_None)
  show ?thesis
  proof (cases "listen name")
    case (Inl e)
    with None tab inv show ?thesis by (simp add: install_listener_def new_listener_def forwards_of_def)
  next
    case (Inr r)
    obtain fd resolved where r: "r = (fd, resolved)" by force
    note lis = Inr [unfolded r]
    let ?n = "resolved_name name resolved"
    have fresh: "?n \<notin> l_local_name ` set (listener_list w)"
      using al lis tab unfolding forward_table_None [symmetric] by (auto simp: forwards_of_def resolved_name_def split: if_splits)
    have t: "transports w t \<noteq> None" and sm: "c = kSmartSocketConnectTo \<Longrightarrow> e_host env" using al by (auto simp: forwards_of_def)
    obtain w' where w': "new_listener env listen name c (Some t) disabled w =
        Some (INSTALL_STATUS_OK, [], if resolved \<noteq> 0 then Some resolved else None, w')" "listeners_ok w'" "callbacks_only w w'"
      "listener_list w' = listener_list w @ [\<lparr>l_addr = next_listener w, l_fd = fd, l_reading = (\<not> disabled),
         l_local_name = ?n, l_connect_to = c, l_transport = Some t\<rparr>]"
      by (rule new_listener_ok [where listen = listen and name = name and fd = fd and c = c, OF ok(1) t lis sm fresh])
    have tab': "forward_table w' = (forward_table w)(?n \<mapsto> (c, Some t))"
      using forward_table_snoc [OF w'(4)] fresh by simp
    have "install_listener env listen name c (Some t) no_rebind disabled w =
        Some (INSTALL_STATUS_OK, [], if resolved \<noteq> 0 then Some resolved else None, w')"
      using None w'(1) by (simp add: install_listener_def)
    then show ?thesis
      using w'(2,3) new_listener_ids [OF w'(1) ok(2)] callbacks_only_dom [OF w'(3)] tab tab' lis
      by (intro exI [of _ w']) (simp add: forwards_of_def listener_inv_def)
  qed
qed

lemma listener_step_simulates:
  assumes inv: "listener_inv w" and al: "listener_allowed env listen cmd (forwards_of w)"
  shows "\<exists>w'. listener_step env listen cmd w = Some w' \<and> listener_inv w' \<and> forwards_of w' = listener_spec listen cmd (forwards_of w)"
proof (cases cmd)
  case (Install name c t no_rebind disabled)
  from install_listener_ok [OF inv al [unfolded Install]] obtain w' r e p where
    "install_listener env listen name c (Some t) no_rebind disabled w = Some (r, e, p, w')" "listener_inv w'"
    "forwards_of w' = listener_spec listen cmd (forwards_of w)"
    unfolding Install by (auto split: option.splits sum.splits if_splits)
  with Install show ?thesis by simp
next
  case (Remove name)
  from remove_listener_ok [OF inv, of name] Remove callbacks_only_dom show ?thesis by (auto simp: forwards_of_def)
next
  case RemoveAll
  have "keeps_star l \<longleftrightarrow> l_connect_to l \<noteq> [] \<and> hd (l_connect_to l) = CHR ''*''" for l
    by (auto simp: keeps_star_def split: list.splits)
  with erase_entries_ok [OF inv, of "\<lambda>c u. c \<noteq> [] \<and> hd c = CHR ''*''"] callbacks_only_dom RemoveAll show ?thesis
    by (auto simp: remove_all_listeners_def forwards_of_def)
next
  case CloseSmart
  have "isSmartSocket = (\<lambda>l. l_connect_to l = kSmartSocketConnectTo)" by (simp add: isSmartSocket_def fun_eq_iff)
  with CloseSmart erase_entries_ok [OF inv, of "\<lambda>c u. c \<noteq> kSmartSocketConnectTo"] callbacks_only_dom show ?thesis
    by (auto simp: close_smartsockets_def forwards_of_def)
next
  case EnableServer
  have [simp]: "l_addr (enable_listener l) = l_addr l" "l_local_name (enable_listener l) = l_local_name l"
    "l_connect_to (enable_listener l) = l_connect_to l" "l_transport (enable_listener l) = l_transport l"
    "isSmartSocket (enable_listener l) = isSmartSocket l" for l by (simp_all add: enable_listener_def isSmartSocket_def)
  have "listener_refs (map enable_listener ls) = listener_refs ls" for ls unfolding listener_refs_map by (simp add: listener_refs_def)
  then have "listener_inv (enable_server_sockets w)"
    using inv by (simp add: enable_server_sockets_def listener_inv_def listeners_ok_def auth_ids_ok_def comp_def)
  with EnableServer show ?thesis by (simp add: enable_server_sockets_def forwards_of_def forward_table_def comp_def)
next
  case (Disconnected t)
  have ok: "listeners_ok w" "auth_ids_ok w" using inv by (simp_all add: listener_inv_def)
  obtain tr where tr: "transports w t = Some tr" using al Disconnected by (auto simp: forwards_of_def)
  obtain w' where w': "RunDisconnects t w = Some w'" "listeners_ok w'" "callbacks_only w w'" "auth_ids_ok w'"
    "listener_list w' = filter (\<lambda>l. l_transport l \<noteq> Some t) (listener_list w)"
    by (rule RunDisconnects_ok [OF ok tr])
  with forward_table_filter [OF ok(1) w'(2), of "\<lambda>c u. u \<noteq> Some t"] callbacks_only_dom [OF w'(3)] Disconnected show ?thesis
    by (simp add: forwards_of_def listener_inv_def)
qed

interpretation listeners: simulation "listener_step env listen" listener_inv forwards_of "listener_allowed env listen" "listener_spec listen"
  for env listen
  by unfold_locales (rule listener_step_simulates)

section \<open>Properties\<close>

text \<open>
  C7: The listeners are a table of forwards.  Any sequence of installs, removals and disconnects runs
  without an abort, keeps the callbacks of the transports in step with the listeners (so that neither
  side names an object that is gone), and changes the table from local names to destinations as the
  specification says.
\<close>

theorem forwards_refine:
  assumes "listener_inv w" and "all_allowed (listener_allowed env listen) (listener_spec listen) cs (forwards_of w)"
  shows "\<exists>w'. run_steps (listener_step env listen) cs w = Some w' \<and> listener_inv w' \<and>
    forwards_of w' = fold (listener_spec listen) cs (forwards_of w)"
  using assms by (rule listeners.run_simulates)

lemma listener_inv_initial:
  assumes "\<And>t tr. trs t = Some tr \<Longrightarrow> tr_disconnects tr = []"
  shows "listener_inv (initial_world trs ts)"
  using assms
  by (auto simp: listener_inv_def listeners_ok_def auth_ids_ok_def callbacks_def listener_refs_def initial_world_def)

text \<open>A server with one device, and an operating system that binds every address and resolves port 0 to 8000.\<close>

definition one_device :: "tref \<rightharpoonup> atransport" where
  "one_device = [7 \<mapsto> new_atransport 1 kTransportUsb kCsDevice]"

definition listen_any :: "string \<Rightarrow> string + (int \<times> nat)" where
  "listen_any name = Inr (9, if name = ''tcp:0'' then 8000 else 0)"

theorem forwards_refine_witness:
  "listener_inv (initial_world one_device [7]) \<and>
   (\<exists>w'. run_steps (listener_step bare_env listen_any)
        [Install ''tcp:1'' ''tcp:80'' 7 False False, Install ''tcp:0'' ''tcp:90'' 7 False False, Remove ''tcp:1'']
        (initial_world one_device [7]) = Some w' \<and>
      forward_table w' ''tcp:8000'' = Some (''tcp:90'', Some 7) \<and> forward_table w' ''tcp:1'' = None)"
proof -
  let ?cs = "[Install ''tcp:1'' ''tcp:80'' 7 False False, Install ''tcp:0'' ''tcp:90'' 7 False False, Remove ''tcp:1'']"
  let ?w = "initial_world one_device [7]"
  have inv: "listener_inv ?w" by (rule listener_inv_initial) (auto simp: one_device_def new_atransport_def split: if_splits)
  have f: "forwards_of ?w = (Map.empty, {7})" by (simp add: forwards_of_def forward_table_def initial_world_def one_device_def)
  have name: "resolved_name ''tcp:0'' 8000 = ''tcp:8000''" "resolved_name n 0 = n" for n
    by (simp_all add: resolved_name_def dec_digits.simps)
  have al: "all_allowed (listener_allowed bare_env listen_any) (listener_spec listen_any) ?cs (forwards_of ?w)"
    unfolding f by (simp add: listen_any_def name kSmartSocketConnectTo_def bare_env_def)
  from forwards_refine [OF inv al] obtain w' where w': "run_steps (listener_step bare_env listen_any) ?cs ?w = Some w'"
    "forwards_of w' = fold (listener_spec listen_any) ?cs (forwards_of ?w)" by blast
  have "fst (forwards_of w') = [''tcp:8000'' \<mapsto> (''tcp:90'', Some 7)]"
    unfolding w'(2) f by (simp add: listen_any_def name kSmartSocketConnectTo_def bare_env_def)
  then have "forward_table w' = [''tcp:8000'' \<mapsto> (''tcp:90'', Some 7)]" by (simp add: forwards_of_def)
  with inv w'(1) show ?thesis by simp
qed

end
