(* ===== verification/Adb_Sockets_Frame.thy ===== *)
theory Adb_Sockets_Frame
  imports Adb_Sockets_Data
begin

text \<open>
  What the sockets leave alone.  A socket operation may send packets on a transport, kick it, or note a
  reverse forward; everything else about the transports, and all the state outside the sockets, is
  unchanged.  The lemmas are partial: they say so of every operation that returns.
\<close>

definition tr_core :: "atransport \<Rightarrow> atransport" where
  "tr_core tr = tr\<lparr>tr_sent := [], tr_kicked := False, tr_stops := 0, tr_reverse_forwards := []\<rparr>"

definition outer :: "world \<Rightarrow> world" where
  "outer w = w\<lparr>heap := Map.empty, next_addr := 0, local_socket_list := [], local_socket_closing_list := [],
     local_socket_next_id := 0, device_tracker_list := [], transports := (\<lambda>t. map_option tr_core (transports w t)),
     in_fds := (\<lambda>_. []), out_fds := (\<lambda>_. \<lparr>os_script = [], os_log = []\<rparr>), draining := [],
     transports_ready := False\<rparr>"

named_theorems frames \<open>operations that keep the state outside the sockets\<close>

lemma outer_updates [simp]:
  "outer (w\<lparr>heap := h\<rparr>) = outer w" "outer (w\<lparr>next_addr := n\<rparr>) = outer w"
  "outer (w\<lparr>local_socket_list := ss\<rparr>) = outer w" "outer (w\<lparr>local_socket_closing_list := ss\<rparr>) = outer w"
  "outer (w\<lparr>local_socket_next_id := i\<rparr>) = outer w" "outer (w\<lparr>device_tracker_list := ss\<rparr>) = outer w"
  "outer (w\<lparr>in_fds := fi\<rparr>) = outer w" "outer (w\<lparr>out_fds := fo\<rparr>) = outer w" "outer (w\<lparr>draining := ds\<rparr>) = outer w"
  "outer (w\<lparr>transports_ready := b\<rparr>) = outer w"
  by (simp_all add: outer_def)

lemma outer_transport:
  assumes "transports w t = Some tr" and "tr_core tr' = tr_core tr"
  shows "outer (w\<lparr>transports := (transports w)(t \<mapsto> tr')\<rparr>) = outer w"
  using assms by (simp add: outer_def fun_eq_iff)

lemma update_socket_outer [frames]: "update_socket s f w = Some w' \<Longrightarrow> outer w' = outer w"
  by (auto simp: update_socket_def split: bind_splits)

lemma delete_socket_outer [frames]: "delete_socket s w = Some w' \<Longrightarrow> outer w' = outer w"
  by (auto simp: delete_socket_def split: bind_splits)

lemma fdevent_set_outer [frames]: "fdevent_set s f w = Some w' \<Longrightarrow> outer w' = outer w"
  by (auto simp: fdevent_set_def split: bind_splits)

lemma new_socket_outer [frames]: "new_socket a w = (s, w') \<Longrightarrow> outer w' = outer w"
  by (auto simp: new_socket_def)

lemma disconnect_outer [frames]: "disconnect p w = Some w' \<Longrightarrow> outer w' = outer w"
  unfolding disconnect_def by (rule update_socket_outer)

lemma SendFail_outer [simp]: "outer (SendFail_fd fd m w) = outer w" "outer (SendOkay_fd fd w) = outer w"
  by (simp_all add: SendFail_fd_def SendOkay_fd_def)

lemma device_tracker_remove_outer [simp]: "outer (device_tracker_remove s w) = outer w"
  by (simp add: device_tracker_remove_def)

lemma send_packet_core: "send_packet p tr = Some tr' \<Longrightarrow> tr_core tr' = tr_core tr"
  by (auto simp: send_packet_def Kick_def tr_core_def split: bind_splits if_splits)

lemma send_packet_on_outer [frames]: "send_packet_on p t w = Some w' \<Longrightarrow> outer w' = outer w"
  by (auto simp: send_packet_on_def split: bind_splits intro!: outer_transport dest: send_packet_core)

lemma send_ready_outer [frames]: "send_ready l r t n w = Some w' \<Longrightarrow> outer w' = outer w"
  by (auto simp: send_ready_def split: bind_splits if_splits dest!: frames)

lemma send_close_outer [frames]: "send_close l r t w = Some w' \<Longrightarrow> outer w' = outer w"
  unfolding send_close_def by (rule send_packet_on_outer)

lemma remote_socket_shutdown_outer [frames]: "remote_socket_shutdown s w = Some w' \<Longrightarrow> outer w' = outer w"
  by (auto simp: remote_socket_shutdown_def split: bind_splits option.splits dest!: frames)

lemma sock_shutdown_outer [frames]: "sock_shutdown s w = Some w' \<Longrightarrow> outer w' = outer w"
  by (auto simp: sock_shutdown_def split: bind_splits shutdown_fn.splits dest!: frames)

lemma remove_socket_outer [simp]: "outer (remove_socket s w) = outer w"
  by (simp add: remove_socket_def)

lemma local_socket_destroy_outer [frames]: "local_socket_destroy s w = Some w' \<Longrightarrow> outer w' = outer w"
  by (auto simp: local_socket_destroy_def delete_socket_def Let_def split: bind_splits)

lemma local_socket_finish_outer [frames]: "local_socket_finish s w = Some w' \<Longrightarrow> outer w' = outer w"
  by (auto simp: local_socket_finish_def Let_def split: bind_splits if_splits dest!: frames)

lemma close_outer:
  "sock_close s w = Some w' \<Longrightarrow> outer w' = outer w"
  "local_socket_close s w = Some w' \<Longrightarrow> outer w' = outer w"
  "local_socket_close_notify s w = Some w' \<Longrightarrow> outer w' = outer w"
  "remote_socket_close s w = Some w' \<Longrightarrow> outer w' = outer w"
  "smart_socket_close s w = Some w' \<Longrightarrow> outer w' = outer w"
  "device_tracker_close s w = Some w' \<Longrightarrow> outer w' = outer w"
proof (induction s w and s w and s w and s w and s w and s w arbitrary: w' and w' and w' and w' and w' and w'
    rule: sock_close_local_socket_close_local_socket_close_notify_remote_socket_close_smart_socket_close_device_tracker_close.induct)
  case (1 s w)
  obtain a where a: "heap w s = Some a" using 1(6) by (auto simp: sock_close.simps split: bind_splits)
  show ?case by (cases "so_close a") (use 1(6) a 1(1-5) [OF a] in \<open>simp_all add: sock_close.simps\<close>)
next
  case (2 s w)
  obtain a where a: "heap w s = Some a" using 2(2) by (auto simp: local_socket_close.simps split: bind_splits)
  show ?case
  proof (cases "so_peer a")
    case None
    with 2(2) a show ?thesis by (auto simp: local_socket_close.simps split: bind_splits dest!: frames)
  next
    case (Some p)
    with 2(2) a obtain w1 w2 w3 w4 where w: "sock_shutdown p w = Some w1" "disconnect p w1 = Some w2" "sock_close p w2 = Some w3"
      "update_socket s (\<lambda>a. a\<lparr>so_peer := None\<rparr>) w3 = Some w4" "local_socket_finish s w4 = Some w'"
      by (auto simp: local_socket_close.simps split: bind_splits)
    from 2(1) [OF a Some w(1,2,3)] w(5) [THEN local_socket_finish_outer] w(1) [THEN sock_shutdown_outer]
      w(2) [THEN disconnect_outer] w(4) [THEN update_socket_outer]
    show ?thesis by simp
  qed
next
  case (3 s w)
  then obtain w1 a where w: "update_socket s plain_local w = Some w1" "heap w1 s = Some a"
    "sock_close s (SendFail_fd (so_fd a) ''closed'' w1) = Some w'"
    by (auto simp: local_socket_close_notify.simps split: bind_splits)
  from 3(1) [OF w] w(1) [THEN update_socket_outer] show ?case by simp
next
  case (4 s w)
  obtain a where a: "heap w s = Some a" using 4(2) by (auto simp: remote_socket_close.simps split: bind_splits)
  show ?case
  proof (cases "so_peer a")
    case (Some p)
    with 4(2) a obtain w1 w2 where w: "disconnect p w = Some w1" "sock_close p w1 = Some w2" "delete_socket s w2 = Some w'"
      by (auto simp: remote_socket_close.simps split: bind_splits)
    from 4(1) [OF a Some w(1,2)] w(1) [THEN disconnect_outer] w(3) [THEN delete_socket_outer] show ?thesis by simp
  qed (use 4(2) a in \<open>auto simp: remote_socket_close.simps split: bind_splits dest!: frames\<close>)
next
  case (5 s w)
  obtain a where a: "heap w s = Some a" using 5(2) by (auto simp: smart_socket_close.simps split: bind_splits)
  show ?case
  proof (cases "so_peer a")
    case (Some p)
    with 5(2) a obtain w1 w2 w3 where w: "disconnect p w = Some w1" "sock_close p w1 = Some w2"
      "update_socket s (\<lambda>a. a\<lparr>so_peer := None\<rparr>) w2 = Some w3" "delete_socket s w3 = Some w'"
      by (auto simp: smart_socket_close.simps split: bind_splits)
    from 5(1) [OF a Some w(1,2)] w(1) [THEN disconnect_outer] w(3) [THEN update_socket_outer] w(4) [THEN delete_socket_outer]
    show ?thesis by simp
  qed (use 5(2) a in \<open>auto simp: smart_socket_close.simps split: bind_splits dest!: frames\<close>)
next
  case (6 s w)
  obtain a where a: "heap w s = Some a" using 6(2) by (auto simp: device_tracker_close.simps split: bind_splits)
  show ?case
  proof (cases "so_peer a")
    case (Some p)
    with 6(2) a obtain w1 w2 where w: "disconnect p w = Some w1" "sock_close p w1 = Some w2"
      "delete_socket s (device_tracker_remove s w2) = Some w'"
      by (auto simp: device_tracker_close.simps split: bind_splits)
    from 6(1) [OF a Some w(1,2)] w(1) [THEN disconnect_outer] w(3) [THEN delete_socket_outer] show ?thesis by simp
  qed (use 6(2) a in \<open>auto simp: device_tracker_close.simps split: bind_splits dest!: frames\<close>)
qed

lemmas sock_close_outer [frames] = close_outer(1)
lemmas device_tracker_close_outer [frames] = close_outer(6)

lemma close_all_sockets_outer [frames]:
  assumes "close_all_sockets t w = Some w'"
  shows "outer w' = outer w"
proof (rule close_all_sockets.raw_induct [where P = "\<lambda>t w w'. outer w' = outer w", OF _ assms])
  fix f :: "tref \<Rightarrow> world \<Rightarrow> world option" and t w w'
  assume IH: "\<And>t w w'. f t w = Some w' \<Longrightarrow> outer w' = outer w"
    and run: "do { r \<leftarrow> first_of_transport t w (local_socket_list w);
      (case r of None \<Rightarrow> Some w | Some s \<Rightarrow> do { w' \<leftarrow> sock_close s w; f t w' }) } = Some w'"
  from run show "outer w' = outer w" by (auto split: bind_splits option.splits dest!: frames dest: IH)
qed

lemma acknowledge_outer [frames]: "acknowledge a n w = Some w' \<Longrightarrow> outer w' = outer w"
  by (auto simp: acknowledge_def split: bind_splits option.splits if_splits dest!: frames)

lemma flush_incoming_outer [frames]: "local_socket_flush_incoming s w = Some (r, w') \<Longrightarrow> outer w' = outer w"
  by (auto simp: local_socket_flush_incoming_def Let_def split: bind_splits if_splits dest!: frames)

lemma local_socket_enqueue_outer [frames]: "local_socket_enqueue s d w = Some (r, w') \<Longrightarrow> outer w' = outer w"
  by (auto simp: local_socket_enqueue_def split: bind_splits dest!: frames)

lemma remote_socket_enqueue_outer [frames]: "remote_socket_enqueue s d w = Some (r, w') \<Longrightarrow> outer w' = outer w"
  by (auto simp: remote_socket_enqueue_def split: bind_splits if_splits dest!: frames)

lemma enqueue_plain_outer [frames]: "enqueue_plain s d w = Some (r, w') \<Longrightarrow> outer w' = outer w"
  by (auto simp: enqueue_plain_def device_tracker_enqueue_def split: bind_splits enqueue_fn.splits dest!: frames)

lemma device_tracker_send_outer [frames]: "device_tracker_send s str w = Some (r, w') \<Longrightarrow> outer w' = outer w"
  by (auto simp: device_tracker_send_def split: bind_splits dest!: frames)

lemma notify_trackers_outer [frames]: "notify_trackers env ss w = Some w' \<Longrightarrow> outer w' = outer w"
  by (induction ss arbitrary: w) (force split: bind_splits prod.splits dest!: frames)+

lemma update_transports_outer [frames]: "update_transports env w = Some w' \<Longrightarrow> outer w' = outer w"
  by (auto simp: update_transports_def update_transport_status_def split: bind_splits if_splits dest!: frames)

lemma ready_outer [frames]:
  "local_socket_ready s w = Some w' \<Longrightarrow> outer w' = outer w"
  "local_socket_ready_notify s w = Some w' \<Longrightarrow> outer w' = outer w"
  "remote_socket_ready s w = Some w' \<Longrightarrow> outer w' = outer w"
  "device_tracker_ready env s w = Some w' \<Longrightarrow> outer w' = outer w"
  by (auto simp: local_socket_ready_def local_socket_ready_notify_def remote_socket_ready_def device_tracker_ready_def
      split: bind_splits if_splits prod.splits dest!: frames)

lemma sock_ready_outer [frames]: "sock_ready env s w = Some w' \<Longrightarrow> outer w' = outer w"
  by (auto simp: sock_ready_def split: bind_splits ready_fn.splits dest!: frames)

lemma local_socket_ack_outer [frames]: "local_socket_ack env s n w = Some w' \<Longrightarrow> outer w' = outer w"
  by (auto simp: local_socket_ack_def split: bind_splits option.splits if_splits dest!: frames)

lemma create_local_socket_outer [frames]: "create_local_socket fd w = Some (s, w') \<Longrightarrow> outer w' = outer w"
  by (auto simp: create_local_socket_def install_local_socket_def Let_def split: bind_splits prod.splits dest!: frames)

lemma create_remote_socket_outer [frames]: "create_remote_socket i t w = Some (s, w') \<Longrightarrow> outer w' = outer w"
  by (auto simp: create_remote_socket_def split: bind_splits dest!: frames)

text \<open>What the invariants of other components need of the frame.\<close>

lemma outer_transports:
  assumes "outer w' = outer w"
  shows "map_option tr_core (transports w' t) = map_option tr_core (transports w t)"
  using fun_cong [OF arg_cong [OF assms, of transports], of t] by (simp add: outer_def)

lemma outer_fields:
  assumes "outer w' = outer w"
  shows "listener_list w' = listener_list w" and "next_listener w' = next_listener w"
    and "transport_list w' = transport_list w" and "pending_list w' = pending_list w"
    and "auth_transports w' = auth_transports w" and "transport_auth_id w' = transport_auth_id w"
    and "active_connections w' = active_connections w" and "framework_calls w' = framework_calls w"
  using arg_cong [OF assms, of listener_list] arg_cong [OF assms, of next_listener]
    arg_cong [OF assms, of transport_list] arg_cong [OF assms, of pending_list]
    arg_cong [OF assms, of auth_transports] arg_cong [OF assms, of transport_auth_id]
    arg_cong [OF assms, of active_connections] arg_cong [OF assms, of framework_calls]
  by (simp_all add: outer_def)

lemma outer_transport_cases:
  assumes "outer w' = outer w"
  obtains "transports w t = None" "transports w' t = None"
    | tr tr' where "transports w t = Some tr" "transports w' t = Some tr'" "tr_core tr' = tr_core tr"
  using outer_transports [OF assms, of t] by (cases "transports w t"; cases "transports w' t") auto

lemma tr_core_fields:
  assumes "tr_core tr' = tr_core tr"
  shows "tr_disconnects tr' = tr_disconnects tr" and "tr_auth_id tr' = tr_auth_id tr" and "tr_online tr' = tr_online tr"
    and "tr_state tr' = tr_state tr" and "tr_delayed_ack tr' = tr_delayed_ack tr" and "tr_max_payload tr' = tr_max_payload tr"
    and "tr_token tr' = tr_token tr" and "tr_auth_key tr' = tr_auth_key tr" and "tr_features tr' = tr_features tr"
    and "tr_product tr' = tr_product tr" and "tr_model tr' = tr_model tr" and "tr_device tr' = tr_device tr"
    and "tr_use_tls tr' = tr_use_tls tr" and "tr_type tr' = tr_type tr"
  using arg_cong [OF assms, of tr_disconnects] arg_cong [OF assms, of tr_auth_id] arg_cong [OF assms, of tr_online]
    arg_cong [OF assms, of tr_state] arg_cong [OF assms, of tr_delayed_ack] arg_cong [OF assms, of tr_max_payload]
    arg_cong [OF assms, of tr_token] arg_cong [OF assms, of tr_auth_key] arg_cong [OF assms, of tr_features]
    arg_cong [OF assms, of tr_product] arg_cong [OF assms, of tr_model] arg_cong [OF assms, of tr_device]
    arg_cong [OF assms, of tr_use_tls] arg_cong [OF assms, of tr_type]
  by (simp_all add: tr_core_def)

end
