(* ===== verification/Adb_Connection.thy ===== *)
theory Adb_Connection
  imports Adb_Listeners Adb_Sockets_Frame
begin

text \<open>
  Connections between the two ends (the first part of \<open>adb.cpp\<close>): going online and offline, the
  connection string, and the banner that is parsed from it.  The main results are the round trip of
  the banner, and that going offline closes every socket and listener of the transport.
\<close>

section \<open>Surroundings\<close>

text \<open>
  What the connection code takes from elsewhere: the name of this end (\<open>adb_device_banner\<close>), the system
  properties, whether this is an Android build and whether it insists on authorization.  The rest is
  for the authorization of the next theory: the keys of the host and their signatures, the keys that
  the daemon knows and their verification, both by BoringSSL, and the random token.
\<close>

record auth_env =
  ae_banner :: string
  ae_property :: "string \<Rightarrow> string"
  ae_android :: bool
  ae_auth_required :: bool
  ae_private_keys :: "string list"
  ae_sign :: "string \<Rightarrow> bytes \<Rightarrow> bytes option"
  ae_userkey :: string
  ae_public_keys :: "string list"
  ae_key_valid :: "string \<Rightarrow> bool"
  ae_verify :: "string \<Rightarrow> bytes \<Rightarrow> bytes \<Rightarrow> bool"
  ae_random :: "bytes option"
  ae_prompt_id :: "u64 option"
  ae_notify_id :: u64

section \<open>Online and offline\<close>

definition SetConnectionState :: "env \<Rightarrow> tref \<Rightarrow> ConnectionState \<Rightarrow> world \<Rightarrow> world option" where
  "SetConnectionState env t st w = do {
     w1 \<leftarrow> on_transport t (\<lambda>tr. tr\<lparr>tr_state := st\<rparr>) w;
     update_transports env w1
   }"

text \<open>The watchdog of the daemon runs while there is no connection.\<close>

definition IncrementActiveConnections :: "world \<Rightarrow> world" where
  "IncrementActiveConnections w =
     w\<lparr>active_connections := active_connections w + 1,
       watchdog_running := (if active_connections w = 0 then False else watchdog_running w)\<rparr>"

definition DecrementActiveConnections :: "world \<Rightarrow> world" where
  "DecrementActiveConnections w =
     w\<lparr>active_connections := active_connections w - 1,
       watchdog_running := (if active_connections w - 1 = 0 then True else watchdog_running w)\<rparr>"

definition handle_online :: "env \<Rightarrow> auth_env \<Rightarrow> tref \<Rightarrow> world \<Rightarrow> world option" where
  "handle_online env ae t w = do {
     w1 \<leftarrow> on_transport t (\<lambda>tr. tr\<lparr>tr_online := True\<rparr>) w;
     if e_host env then on_transport t (SetConnectionEstablished True) w1
     else Some (if ae_android ae then IncrementActiveConnections w1 else w1)
   }"

definition handle_offline :: "env \<Rightarrow> auth_env \<Rightarrow> tref \<Rightarrow> world \<Rightarrow> world option" where
  "handle_offline env ae t w = do {
     tr \<leftarrow> transports w t;
     if tr_state tr = kCsOffline then Some w
     else do {
       let w1 = (if \<not> e_host env \<and> ae_android ae then DecrementActiveConnections w else w);
       w2 \<leftarrow> SetConnectionState env t kCsOffline w1;
       w3 \<leftarrow> on_transport t (\<lambda>tr. tr\<lparr>tr_online := False\<rparr>) w2;
       w4 \<leftarrow> close_all_sockets t w3;
       RunDisconnects t w4
     }
   }"

section \<open>The banner\<close>

definition cnxn_props :: "string list" where
  "cnxn_props = [''ro.product.name'', ''ro.product.model'', ''ro.product.device'']"

definition connection_properties :: "env \<Rightarrow> auth_env \<Rightarrow> string list" where
  "connection_properties env ae =
     (if \<not> e_host env then map (\<lambda>prop. prop @ ''='' @ ae_property ae prop) cnxn_props else []) @
     [''features='' @ percent_s (FeatureSetToString (e_libbase env) (supported_features (e_host env) (e_burst env)))]"

definition get_connection_string :: "env \<Rightarrow> auth_env \<Rightarrow> string" where
  "get_connection_string env ae =
     percent_s (ae_banner ae) @ ''::'' @ percent_s (Join (e_libbase env) (connection_properties env ae) (CHR '';''))"

definition A_STLS_VERSION :: u32 where "A_STLS_VERSION = 0x01000000"

definition send_tls_request :: "tref \<Rightarrow> world \<Rightarrow> world option" where
  "send_tls_request t w = send_packet_on (command_packet A_STLS A_STLS_VERSION 0) t w"

definition send_connect :: "env \<Rightarrow> auth_env \<Rightarrow> tref \<Rightarrow> world \<Rightarrow> world option" where
  "send_connect env ae t w = do {
     tr \<leftarrow> transports w t;
     let connection_str = get_connection_string env ae;
     CHECK (length connection_str \<le> MAX_PAYLOAD_V1);
     send_packet_on (data_packet A_CNXN (word_of_int A_VERSION) (of_nat (tr_max_payload tr)) (filled_block connection_str)) t w
   }"

text \<open>One property of the banner.\<close>

definition parse_prop :: "env \<Rightarrow> string \<Rightarrow> atransport \<Rightarrow> atransport" where
  "parse_prop env prop tr =
     (if prop = [] then tr
      else case Split (e_libbase env) prop (CHR ''='') of
        [key, value] \<Rightarrow>
          if key = ''ro.product.name'' then tr\<lparr>tr_product := value\<rparr>
          else if key = ''ro.product.model'' then tr\<lparr>tr_model := value\<rparr>
          else if key = ''ro.product.device'' then tr\<lparr>tr_device := value\<rparr>
          else if key = ''features'' then SetFeatures (e_libbase env) (e_host env) (e_burst env) value tr
          else tr
      | _ \<Rightarrow> tr)"

definition banner_state :: "string \<Rightarrow> ConnectionState" where
  "banner_state type =
     (if type = ''bootloader'' then kCsBootloader
      else if type = ''device'' then kCsDevice
      else if type = ''recovery'' then kCsRecovery
      else if type = ''sideload'' then kCsSideload
      else if type = ''rescue'' then kCsRescue
      else kCsHost)"

definition parse_banner :: "env \<Rightarrow> string \<Rightarrow> tref \<Rightarrow> world \<Rightarrow> world option" where
  "parse_banner env banner t w = do {
     let pieces = Split (e_libbase env) banner (CHR '':'');
     w1 \<leftarrow> on_transport t (SetFeatures (e_libbase env) (e_host env) (e_burst env) []) w;
     w2 \<leftarrow> (if length pieces > 2
            then on_transport t (fold (parse_prop env) (Split (e_libbase env) (pieces ! 2) (CHR '';''))) w1 else Some w1);
     CHECK (pieces \<noteq> []);
     SetConnectionState env t (banner_state (hd pieces)) w2
   }"

definition handle_new_connection ::
    "env \<Rightarrow> auth_env \<Rightarrow> (tref \<Rightarrow> world \<Rightarrow> world option) \<Rightarrow> tref \<Rightarrow> apacket \<Rightarrow> world \<Rightarrow> world option" where
  "handle_new_connection env ae send_auth_request t p w = do {
     w1 \<leftarrow> handle_offline env ae t w;
     w2 \<leftarrow> on_transport t (update_version (sint (m_arg0 (p_msg p))) (unat (m_arg1 (p_msg p)))) w1;
     w3 \<leftarrow> parse_banner env (block_bytes (p_payload p)) t w2;
     if e_host env then handle_online env ae t w3
     else do {
       tr \<leftarrow> transports w3 t;
       if tr_use_tls tr then send_tls_request t w3
       else if \<not> ae_auth_required ae then do { w4 \<leftarrow> handle_online env ae t w3; send_connect env ae t w4 }
       else send_auth_request t w3
     }
   }"

section \<open>The invariant of the server\<close>

definition server_inv :: "world \<Rightarrow> bool" where
  "server_inv w \<longleftrightarrow> sock_inv w \<and> listener_inv w"

lemma callbacks_outer:
  assumes "outer w' = outer w"
  shows "callbacks w' = callbacks w"
proof -
  have "(x, t) \<in> callbacks w' \<longleftrightarrow> (x, t) \<in> callbacks w" for x t
  proof (rule outer_transport_cases [OF assms, of t])
    fix tr tr' assume tr: "transports w t = Some tr" "transports w' t = Some tr'" "tr_core tr' = tr_core tr"
    with tr_core_fields(1) [OF tr(3)] show ?thesis by (simp add: callbacks_def)
  qed (simp add: callbacks_def)
  then show ?thesis by auto
qed

lemma listener_inv_outer:
  assumes eq: "outer w' = outer w" and inv: "listener_inv w"
  shows "listener_inv w'"
proof -
  have "auth_ids_ok w'"
    unfolding auth_ids_ok_def
  proof (intro allI impI)
    fix t tr' assume "transports w' t = Some tr'" "AdbDisconnected \<in> set (tr_disconnects tr')"
    moreover obtain tr where tr: "transports w t = Some tr" "tr_core tr' = tr_core tr"
      using calculation(1) by (auto intro: outer_transport_cases [OF eq, of t])
    ultimately show "tr_auth_id tr' \<noteq> None"
      using inv tr_core_fields(1,2) [OF tr(2)] by (simp add: listener_inv_def auth_ids_ok_def)
  qed
  then show ?thesis
    using inv callbacks_outer [OF eq] by (simp add: listener_inv_def listeners_ok_def outer_fields [OF eq])
qed

lemma listener_inv_transport:
  assumes inv: "listener_inv w" and tr: "transports w t = Some tr"
    and same: "tr_disconnects tr' = tr_disconnects tr" "tr_auth_id tr' = tr_auth_id tr"
  shows "listener_inv (w\<lparr>transports := (transports w)(t \<mapsto> tr')\<rparr>)"
proof -
  have "callbacks (w\<lparr>transports := (transports w)(t \<mapsto> tr')\<rparr>) = callbacks w"
    using tr same by (auto simp: callbacks_def)
  then show ?thesis using inv tr same by (auto simp: listener_inv_def listeners_ok_def auth_ids_ok_def)
qed

lemma sock_inv_transport:
  assumes "sock_inv w" and "transports w t = Some tr"
  shows "sock_inv (w\<lparr>transports := (transports w)(t \<mapsto> tr')\<rparr>)"
  using sock_inv_same [of "w\<lparr>transports := (transports w)(t \<mapsto> tr')\<rparr>" w] assms by (simp add: same_sockets_def)

text \<open>An update of a transport that does not concern its callbacks.\<close>

lemma on_transport_ok:
  assumes inv: "server_inv w" and tr: "transports w t = Some tr"
    and same: "tr_disconnects (f tr) = tr_disconnects tr" "tr_auth_id (f tr) = tr_auth_id tr"
  shows "on_transport t f w = Some (w\<lparr>transports := (transports w)(t \<mapsto> f tr)\<rparr>)"
    and "server_inv (w\<lparr>transports := (transports w)(t \<mapsto> f tr)\<rparr>)"
    and "same_sockets w (w\<lparr>transports := (transports w)(t \<mapsto> f tr)\<rparr>)"
  using assms listener_inv_transport sock_inv_transport on_transport_Some [OF tr]
  by (auto simp: server_inv_def same_sockets_def)

text \<open>A socket operation keeps the invariant of the server if it keeps that of the sockets.\<close>

lemma server_inv_outer: "server_inv w \<Longrightarrow> outer w' = outer w \<Longrightarrow> sock_inv w' \<Longrightarrow> server_inv w'"
  using listener_inv_outer by (simp add: server_inv_def)

lemma SetConnectionState_ok:
  assumes inv: "server_inv w" and tr: "transports w t = Some tr"
  obtains w' where "SetConnectionState env t st w = Some w'" and "server_inv w'" and "same_sockets w w'"
    and "outer w' = outer (w\<lparr>transports := (transports w)(t \<mapsto> tr\<lparr>tr_state := st\<rparr>)\<rparr>)"
proof -
  define w1 where "w1 = w\<lparr>transports := (transports w)(t \<mapsto> tr\<lparr>tr_state := st\<rparr>)\<rparr>"
  have w1: "on_transport t (\<lambda>tr. tr\<lparr>tr_state := st\<rparr>) w = Some w1" "server_inv w1" "same_sockets w w1"
    unfolding w1_def by (rule on_transport_ok [OF inv tr]; simp)+
  obtain w' where w': "update_transports env w1 = Some w'" "sock_inv w'" "same_sockets w1 w'"
    using update_transports_ok w1(2) unfolding server_inv_def by blast
  have "server_inv w'" by (rule server_inv_outer [OF w1(2) update_transports_outer [OF w'(1)] w'(2)])
  moreover have "SetConnectionState env t st w = Some w'" using w1(1) w'(1) by (simp add: SetConnectionState_def)
  ultimately show ?thesis
    using that same_sockets_trans [OF w1(3) w'(3)] update_transports_outer [OF w'(1)] unfolding w1_def by simp
qed

text \<open>The transport after a run of socket operations from a known one.\<close>

lemma outer_transport_at:
  assumes "outer w' = outer w" and "transports w t = Some tr"
  obtains tr' where "transports w' t = Some tr'" and "tr_core tr' = tr_core tr"
  using outer_transport_cases [OF assms(1), of t] assms(2) by (metis option.distinct(1) option.inject)

section \<open>Going offline\<close>

lemma tr_core_updates:
  "tr_core (x\<lparr>tr_disconnects := ds\<rparr>) = (tr_core x)\<lparr>tr_disconnects := ds\<rparr>"
  "tr_core (x\<lparr>tr_online := b\<rparr>) = (tr_core x)\<lparr>tr_online := b\<rparr>"
  "tr_core (x\<lparr>tr_state := st\<rparr>) = (tr_core x)\<lparr>tr_state := st\<rparr>"
  by (simp_all add: tr_core_def)

text \<open>Nothing that is alive refers to the transport.\<close>

definition unreferenced :: "tref \<Rightarrow> world \<Rightarrow> bool" where
  "unreferenced t w \<longleftrightarrow>
     (\<forall>s a. heap w s = Some a \<longrightarrow> \<not> so_closing a \<longrightarrow> so_transport a \<noteq> Some t) \<and>
     (\<forall>l \<in> set (listener_list w). l_transport l \<noteq> Some t)"

lemma counters_ok:
  assumes "server_inv w"
  shows "server_inv (DecrementActiveConnections w)" and "server_inv (IncrementActiveConnections w)"
proof -
  have eq: "callbacks (w\<lparr>active_connections := n, watchdog_running := b\<rparr>) = callbacks w" for n b
    by (simp add: callbacks_def)
  have "server_inv (w\<lparr>active_connections := n, watchdog_running := b\<rparr>)" for n b
    using assms sock_inv_same [of "w\<lparr>active_connections := n, watchdog_running := b\<rparr>" w] eq
    by (simp add: server_inv_def same_sockets_def listener_inv_def listeners_ok_def auth_ids_ok_def)
  then show "server_inv (DecrementActiveConnections w)" "server_inv (IncrementActiveConnections w)"
    by (simp_all add: DecrementActiveConnections_def IncrementActiveConnections_def)
qed

lemma handle_offline_ok:
  assumes inv: "server_inv w" and tr: "transports w t = Some tr"
  obtains w' tr' where "handle_offline env ae t w = Some w'" and "server_inv w'" and "same_sockets w w'"
    and "transports w' t = Some tr'" and "tr_state tr' = kCsOffline"
    and "tr_state tr = kCsOffline \<Longrightarrow> w' = w"
    and "tr_state tr \<noteq> kCsOffline \<Longrightarrow> unreferenced t w' \<and>
      tr_core tr' = tr_core (tr\<lparr>tr_state := kCsOffline, tr_online := False, tr_disconnects := []\<rparr>)"
proof (cases "tr_state tr = kCsOffline")
  case True
  with that [of w tr] inv tr show ?thesis by (simp add: handle_offline_def)
next
  case False
  define w0 where "w0 = (if \<not> e_host env \<and> ae_android ae then DecrementActiveConnections w else w)"
  have inv0: "server_inv w0" using inv counters_ok by (simp add: w0_def)
  have tr0: "transports w0 t = Some tr" using tr by (simp add: w0_def DecrementActiveConnections_def)
  have same0: "same_sockets w w0" by (simp add: w0_def same_sockets_def DecrementActiveConnections_def)
  obtain w1 where w1: "SetConnectionState env t kCsOffline w0 = Some w1" "server_inv w1" "same_sockets w0 w1"
    "outer w1 = outer (w0\<lparr>transports := (transports w0)(t \<mapsto> tr\<lparr>tr_state := kCsOffline\<rparr>)\<rparr>)"
    by (rule SetConnectionState_ok [OF inv0 tr0])
  obtain tr1 where tr1: "transports w1 t = Some tr1" "tr_core tr1 = tr_core (tr\<lparr>tr_state := kCsOffline\<rparr>)"
    by (rule outer_transport_at [OF w1(4), of t "tr\<lparr>tr_state := kCsOffline\<rparr>"]) simp_all
  define w2 where "w2 = w1\<lparr>transports := (transports w1)(t \<mapsto> tr1\<lparr>tr_online := False\<rparr>)\<rparr>"
  have w2: "on_transport t (\<lambda>tr. tr\<lparr>tr_online := False\<rparr>) w1 = Some w2" "server_inv w2" "same_sockets w1 w2"
    unfolding w2_def by (rule on_transport_ok [OF w1(2) tr1(1)]; simp)+
  obtain w3 where w3: "close_all_sockets t w2 = Some w3" "sock_inv w3" "same_sockets w2 w3"
    "\<forall>s a. heap w3 s = Some a \<longrightarrow> \<not> so_closing a \<longrightarrow> so_transport a \<noteq> Some t"
    using close_all_sockets_ok [of w2 t] w2(2) unfolding server_inv_def by blast
  note out3 = close_all_sockets_outer [OF w3(1)]
  have inv3: "server_inv w3" by (rule server_inv_outer [OF w2(2) out3 w3(2)])
  obtain tr3 where tr3: "transports w3 t = Some tr3" "tr_core tr3 = tr_core (tr1\<lparr>tr_online := False\<rparr>)"
    by (rule outer_transport_at [OF out3, of t "tr1\<lparr>tr_online := False\<rparr>"]) (simp_all add: w2_def)
  have ok3: "listeners_ok w3" "auth_ids_ok w3" using inv3 by (simp_all add: server_inv_def listener_inv_def)
  obtain w4 where w4: "RunDisconnects t w3 = Some w4" "listeners_ok w4" "callbacks_only w3 w4" "auth_ids_ok w4"
    "listener_list w4 = filter (\<lambda>l. l_transport l \<noteq> Some t) (listener_list w3)"
    "transports w4 = (transports w3)(t \<mapsto> tr3\<lparr>tr_disconnects := []\<rparr>)"
    by (rule RunDisconnects_ok [OF ok3 tr3(1)])
  note same4 = callbacks_only_same [OF w4(3)]
  have "server_inv w4"
    using w4(2,4) sock_inv_callbacks_only [OF w4(3)] w3(2) by (simp add: server_inv_def listener_inv_def)
  moreover have "handle_offline env ae t w = Some w4"
    using tr False w1(1) w2(1) w3(1) w4(1) unfolding handle_offline_def w0_def [symmetric] by (simp add: Let_def)
  moreover have "same_sockets w w4"
    using same0 w1(3) w2(3) w3(3) same4(1) same_sockets_trans by blast
  moreover have "unreferenced t w4" using w3(4) w4(5) same4(2) by (simp add: unreferenced_def)
  moreover have core: "tr_core (tr3\<lparr>tr_disconnects := []\<rparr>) = tr_core (tr\<lparr>tr_state := kCsOffline, tr_online := False, tr_disconnects := []\<rparr>)"
    unfolding tr_core_updates tr3(2) tr1(2) ..
  moreover have "transports w4 t = Some (tr3\<lparr>tr_disconnects := []\<rparr>)" using w4(6) by simp
  moreover have "tr_state (tr3\<lparr>tr_disconnects := []\<rparr>) = kCsOffline" using tr_core_fields(4) [OF core] by simp
  ultimately show ?thesis using that False by blast
qed

section \<open>Going online\<close>

lemma SetConnectionEstablished_fields [simp]:
  "tr_disconnects (SetConnectionEstablished b tr) = tr_disconnects tr"
  "tr_auth_id (SetConnectionEstablished b tr) = tr_auth_id tr"
  "tr_online (SetConnectionEstablished b tr) = tr_online tr"
  "tr_state (SetConnectionEstablished b tr) = tr_state tr"
  by (simp_all add: SetConnectionEstablished_def split: option.splits)

lemma handle_online_ok:
  assumes inv: "server_inv w" and tr: "transports w t = Some tr"
  obtains w' tr' where "handle_online env ae t w = Some w'" and "server_inv w'" and "same_sockets w w'" and "heap w' = heap w"
    and "transports w' t = Some tr'" and "tr_online tr'" and "tr_state tr' = tr_state tr"
proof -
  define w1 where "w1 = w\<lparr>transports := (transports w)(t \<mapsto> tr\<lparr>tr_online := True\<rparr>)\<rparr>"
  have w1: "on_transport t (\<lambda>tr. tr\<lparr>tr_online := True\<rparr>) w = Some w1" "server_inv w1" "same_sockets w w1"
    unfolding w1_def by (rule on_transport_ok [OF inv tr]; simp)+
  have tr1: "transports w1 t = Some (tr\<lparr>tr_online := True\<rparr>)" "heap w1 = heap w" by (simp_all add: w1_def)
  show ?thesis
  proof (cases "e_host env")
    case True
    define w2 where "w2 = w1\<lparr>transports := (transports w1)(t \<mapsto> SetConnectionEstablished True (tr\<lparr>tr_online := True\<rparr>))\<rparr>"
    have w2: "on_transport t (SetConnectionEstablished True) w1 = Some w2" "server_inv w2" "same_sockets w1 w2"
      unfolding w2_def by (rule on_transport_ok [OF w1(2) tr1(1)]; simp)+
    have "handle_online env ae t w = Some w2" using True w1(1) w2(1) by (simp add: handle_online_def)
    moreover have "transports w2 t = Some (SetConnectionEstablished True (tr\<lparr>tr_online := True\<rparr>))" "heap w2 = heap w"
      by (simp_all add: w2_def tr1(2))
    ultimately show ?thesis using that w2(2) same_sockets_trans [OF w1(3) w2(3)] by simp
  next
    case False
    define w2 where "w2 = (if ae_android ae then IncrementActiveConnections w1 else w1)"
    have "server_inv w2" "heap w2 = heap w1" "transports w2 = transports w1" "same_sockets w w2"
      using w1(2,3) counters_ok by (simp_all add: w2_def IncrementActiveConnections_def same_sockets_def)
    moreover have "handle_online env ae t w = Some w2" using False w1(1) by (simp add: handle_online_def w2_def)
    ultimately show ?thesis using that tr1 by simp
  qed
qed

lemma send_packet_on_inv:
  assumes inv: "server_inv w" and "packet_fits p" and "transports w t \<noteq> None"
  obtains w' where "send_packet_on p t w = Some w'" and "server_inv w'" and "same_sockets w w'" and "heap w' = heap w"
    and "outer w' = outer w"
proof -
  obtain w' where w': "send_packet_on p t w = Some w'" "w' = w\<lparr>transports := transports w'\<rparr>" "same_sockets w w'"
    by (rule send_packet_on_ok [OF assms(2,3)])
  have "sock_inv w'" using sock_inv_transports [OF _ w'(2,3)] inv by (simp add: server_inv_def)
  then have "server_inv w'" by (rule server_inv_outer [OF inv send_packet_on_outer [OF w'(1)]])
  moreover have "heap w' = heap w" by (subst w'(2)) simp
  ultimately show ?thesis using that w'(1,3) send_packet_on_outer [OF w'(1)] by blast
qed

lemma block_wf_filled [simp]: "block_wf (filled_block xs)"
  using filled_block_ok(1) block_ok_def by blast

lemma send_connect_ok:
  assumes "server_inv w" and "transports w t \<noteq> None" and "length (get_connection_string env ae) \<le> MAX_PAYLOAD_V1"
  obtains w' where "send_connect env ae t w = Some w'" and "server_inv w'" and "same_sockets w w'" and "heap w' = heap w"
    and "outer w' = outer w"
proof -
  obtain tr where tr: "transports w t = Some tr" using assms(2) by blast
  show ?thesis
    by (rule send_packet_on_inv [OF assms(1) _ assms(2),
          of "data_packet A_CNXN (word_of_int A_VERSION) (of_nat (tr_max_payload tr)) (filled_block (get_connection_string env ae))"])
      (use that tr assms(3) in \<open>simp_all add: send_connect_def Let_def\<close>)
qed

lemma send_tls_request_ok:
  assumes "server_inv w" and "transports w t \<noteq> None"
  obtains w' where "send_tls_request t w = Some w'" and "server_inv w'" and "same_sockets w w'" and "heap w' = heap w"
    and "outer w' = outer w"
  using send_packet_on_inv [OF assms(1) packet_fits_command assms(2)] unfolding send_tls_request_def by metis

section \<open>The banner: lemmas\<close>

lemma parse_prop_fields [simp]:
  "tr_disconnects (parse_prop env prop tr) = tr_disconnects tr" "tr_auth_id (parse_prop env prop tr) = tr_auth_id tr"
  by (simp_all add: parse_prop_def SetFeatures_def Let_def split: list.splits)

lemma fold_parse_prop_fields [simp]:
  "tr_disconnects (fold (parse_prop env) ps tr) = tr_disconnects tr" "tr_auth_id (fold (parse_prop env) ps tr) = tr_auth_id tr"
  by (induction ps arbitrary: tr) simp_all

lemma SetFeatures_fields [simp]:
  "tr_disconnects (SetFeatures lb h b s tr) = tr_disconnects tr" "tr_auth_id (SetFeatures lb h b s tr) = tr_auth_id tr"
  by (simp_all add: SetFeatures_def Let_def)

definition banner_props :: "env \<Rightarrow> string \<Rightarrow> string list" where
  "banner_props env banner =
     (let pieces = Split (e_libbase env) banner (CHR '':'')
      in if length pieces > 2 then Split (e_libbase env) (pieces ! 2) (CHR '';'') else [])"

lemma parse_banner_ok:
  assumes inv: "server_inv w" and tr: "transports w t = Some tr" and lb: "libbase_ok (e_libbase env)"
  obtains w' where "parse_banner env banner t w = Some w'" and "server_inv w'" and "same_sockets w w'"
    and "outer w' = outer (w\<lparr>transports := (transports w)(t \<mapsto>
      (fold (parse_prop env) (banner_props env banner) (SetFeatures (e_libbase env) (e_host env) (e_burst env) [] tr))
        \<lparr>tr_state := banner_state (hd (Split (e_libbase env) banner (CHR '':'')))\<rparr>)\<rparr>)"
proof -
  let ?set = "SetFeatures (e_libbase env) (e_host env) (e_burst env) []"
  let ?pieces = "Split (e_libbase env) banner (CHR '':'')"
  let ?fold = "fold (parse_prop env) (banner_props env banner)"
  define w1 where "w1 = w\<lparr>transports := (transports w)(t \<mapsto> ?set tr)\<rparr>"
  have w1: "on_transport t ?set w = Some w1" "server_inv w1" "same_sockets w w1"
    unfolding w1_def by (rule on_transport_ok [OF inv tr]; simp)+
  have tr1: "transports w1 t = Some (?set tr)" by (simp add: w1_def)
  define w2 where "w2 = w1\<lparr>transports := (transports w1)(t \<mapsto> ?fold (?set tr))\<rparr>"
  have w2: "on_transport t ?fold w1 = Some w2" "server_inv w2" "same_sockets w1 w2"
    unfolding w2_def by (rule on_transport_ok [OF w1(2) tr1]; simp)+
  have w2': "(if length ?pieces > 2 then on_transport t (fold (parse_prop env) (Split (e_libbase env) (?pieces ! 2) (CHR '';''))) w1
      else Some w1) = Some w2"
    using w2(1) tr1 by (auto simp: banner_props_def Let_def on_transport_def w1_def w2_def)
  have tr2: "transports w2 t = Some (?fold (?set tr))" by (simp add: w2_def)
  obtain w3 where w3: "SetConnectionState env t (banner_state (hd ?pieces)) w2 = Some w3" "server_inv w3" "same_sockets w2 w3"
    "outer w3 = outer (w2\<lparr>transports := (transports w2)(t \<mapsto> (?fold (?set tr))\<lparr>tr_state := banner_state (hd ?pieces)\<rparr>)\<rparr>)"
    by (rule SetConnectionState_ok [OF w2(2) tr2])
  have "parse_banner env banner t w = Some w3"
    using w1(1) w2' w3(1) libbase_simps(4) [OF lb] by (simp add: parse_banner_def Let_def)
  moreover have "same_sockets w w3" using w1(3) w2(3) w3(3) same_sockets_trans by blast
  ultimately show ?thesis using that w3(2,4) by (simp add: w2_def w1_def)
qed

text \<open>Values that may stand in a banner: none of its separators, and no NUL.\<close>

definition plain_value :: "string \<Rightarrow> bool" where
  "plain_value v \<longleftrightarrow> CHR '':'' \<notin> set v \<and> CHR '';'' \<notin> set v \<and> CHR ''='' \<notin> set v \<and> CHR 0x00 \<notin> set v"

lemma plain_value_append [simp]: "plain_value (u @ v) \<longleftrightarrow> plain_value u \<and> plain_value v"
  by (auto simp: plain_value_def)

lemma set_join: "set (join c xs) \<subseteq> insert c (\<Union> (set ` set xs))"
  by (induction c xs rule: join.induct) auto

lemma join_free: "x \<noteq> c \<Longrightarrow> \<forall>p \<in> set xs. x \<notin> set p \<Longrightarrow> x \<notin> set (join c xs)"
  using set_join [of c xs] by auto

lemma features_plain: "plain_value (join (CHR '','') (supported_features host burst))"
proof -
  have "\<forall>f \<in> set (supported_features host burst). plain_value f"
    by (simp add: supported_features_def base_features_def plain_value_def)
  then show ?thesis unfolding plain_value_def by (intro conjI join_free) (auto simp: plain_value_def)
qed

text \<open>The properties that a banner carries, as keys and values.\<close>

definition banner_values :: "env \<Rightarrow> auth_env \<Rightarrow> (string \<times> string) list" where
  "banner_values env ae =
     (if \<not> e_host env then map (\<lambda>k. (k, ae_property ae k)) cnxn_props else []) @
     [(''features'', join (CHR '','') (supported_features (e_host env) (e_burst env)))]"

lemma banner_values_plain:
  assumes "\<forall>k \<in> set cnxn_props. plain_value (ae_property ae k)"
  shows "\<forall>(k, v) \<in> set (banner_values env ae). plain_value k \<and> plain_value v"
  using assms features_plain by (auto simp: banner_values_def cnxn_props_def plain_value_def)

lemma connection_properties_values:
  assumes "libbase_ok (e_libbase env)"
  shows "connection_properties env ae = map (\<lambda>(k, v). k @ ''='' @ v) (banner_values env ae)"
proof -
  have "CHR 0x00 \<notin> set (join (CHR '','') (supported_features (e_host env) (e_burst env)))"
    using features_plain by (simp add: plain_value_def)
  then show ?thesis
    by (simp add: connection_properties_def banner_values_def FeatureSetToString_def libbase_simps [OF assms])
qed

lemma banner_pieces:
  assumes lb: "libbase_ok (e_libbase env)" "libbase_ok (e_libbase env')"
    and banner: "plain_value (ae_banner ae)" and props: "\<forall>k \<in> set cnxn_props. plain_value (ae_property ae k)"
  shows "Split (e_libbase env') (get_connection_string env ae) (CHR '':'') =
    [ae_banner ae, [], join (CHR '';'') (map (\<lambda>(k, v). k @ ''='' @ v) (banner_values env ae))]"
proof -
  let ?ps = "map (\<lambda>(k, v). k @ ''='' @ v) (banner_values env ae)"
  have p: "plain_value k \<and> plain_value v" if "(k, v) \<in> set (banner_values env ae)" for k v
    using banner_values_plain [OF props, of env] that by auto
  have free: "CHR '':'' \<notin> set (join (CHR '';'') ?ps)" "CHR 0x00 \<notin> set (join (CHR '';'') ?ps)"
    by (rule join_free; use p in \<open>fastforce simp: plain_value_def\<close>)+
  have "get_connection_string env ae = join (CHR '':'') [ae_banner ae, [], join (CHR '';'') ?ps]"
    using banner free(2)
    by (simp add: get_connection_string_def connection_properties_values [OF lb(1)] libbase_simps [OF lb(1)] plain_value_def)
  then show ?thesis
    using Split_join [OF lb(2), of "[ae_banner ae, [], join (CHR '';'') ?ps]" "CHR '':''"] banner free(1)
    by (simp add: plain_value_def)
qed

lemma banner_props_values:
  assumes lb: "libbase_ok (e_libbase env)" "libbase_ok (e_libbase env')"
    and banner: "plain_value (ae_banner ae)" and props: "\<forall>k \<in> set cnxn_props. plain_value (ae_property ae k)"
  shows "banner_props env' (get_connection_string env ae) = map (\<lambda>(k, v). k @ ''='' @ v) (banner_values env ae)"
proof -
  let ?ps = "map (\<lambda>(k, v). k @ ''='' @ v) (banner_values env ae)"
  have p: "plain_value k \<and> plain_value v" if "(k, v) \<in> set (banner_values env ae)" for k v
    using banner_values_plain [OF props, of env] that by auto
  have "Split (e_libbase env') (join (CHR '';'') ?ps) (CHR '';'') = ?ps"
  proof (rule Split_join [OF lb(2)])
    show "?ps \<noteq> []" by (simp add: banner_values_def)
    show "\<forall>q \<in> set ?ps. CHR '';'' \<notin> set q" using p by (fastforce simp: plain_value_def)
  qed
  then show ?thesis unfolding banner_props_def banner_pieces [OF assms] by simp
qed

lemma parse_prop_value:
  assumes lb: "libbase_ok (e_libbase env)" and "plain_value k" and "plain_value v"
  shows "parse_prop env (k @ ''='' @ v) tr =
    (if k = ''ro.product.name'' then tr\<lparr>tr_product := v\<rparr>
     else if k = ''ro.product.model'' then tr\<lparr>tr_model := v\<rparr>
     else if k = ''ro.product.device'' then tr\<lparr>tr_device := v\<rparr>
     else if k = ''features'' then SetFeatures (e_libbase env) (e_host env) (e_burst env) v tr
     else tr)"
proof -
  have "Split (e_libbase env) (k @ ''='' @ v) (CHR ''='') = [k, v]"
    using Split_join [OF lb, of "[k, v]" "CHR ''=''"] assms(2,3) by (simp add: plain_value_def)
  then show ?thesis unfolding parse_prop_def by simp
qed

text \<open>What the receiver knows of the sender after parsing its banner.\<close>

definition introduced :: "env \<Rightarrow> env \<Rightarrow> auth_env \<Rightarrow> atransport \<Rightarrow> atransport" where
  "introduced env' env ae tr =
     (let fs = supported_features (e_host env) (e_burst env);
          tr1 = (if e_host env then tr
                 else tr\<lparr>tr_product := ae_property ae ''ro.product.name'', tr_model := ae_property ae ''ro.product.model'',
                         tr_device := ae_property ae ''ro.product.device''\<rparr>)
      in tr1\<lparr>tr_features := fs, tr_delayed_ack := CanUseFeature (e_host env') (e_burst env') fs kFeatureDelayedAck,
             tr_state := banner_state (ae_banner ae)\<rparr>)"

lemma fold_banner_values:
  assumes lb: "libbase_ok (e_libbase env)" "libbase_ok (e_libbase env')"
    and props: "\<forall>k \<in> set cnxn_props. plain_value (ae_property ae k)"
  shows "(fold (parse_prop env') (map (\<lambda>(k, v). k @ ''='' @ v) (banner_values env ae))
      (SetFeatures (e_libbase env') (e_host env') (e_burst env') [] tr))\<lparr>tr_state := banner_state (ae_banner ae)\<rparr> =
    introduced env' env ae tr"
proof -
  have keys: "plain_value ''ro.product.name''" "plain_value ''ro.product.model''" "plain_value ''ro.product.device''"
    "plain_value ''features''" by (simp_all add: plain_value_def)
  have vals: "plain_value (ae_property ae ''ro.product.name'')" "plain_value (ae_property ae ''ro.product.model'')"
    "plain_value (ae_property ae ''ro.product.device'')" using props by (simp_all add: cnxn_props_def)
  note pv = parse_prop_value [OF lb(2)]
  have feat: "StringToFeatureSet (e_libbase env') (join (CHR '','') (supported_features h b)) = supported_features h b" for h b
    using feature_string_roundtrip [OF lb(2) base_features_ok, of h b] by (simp add: FeatureSetToString_def libbase_simps [OF lb(2)])
  show ?thesis
    unfolding banner_values_def cnxn_props_def introduced_def Let_def
    by (simp add: pv [OF keys(1) vals(1), simplified] pv [OF keys(2) vals(2), simplified] pv [OF keys(3) vals(3), simplified]
        pv [OF keys(4) features_plain, simplified] SetFeatures_def Let_def feat)
qed

section \<open>Properties\<close>

text \<open>
  C19: The banner carries what the sender said of itself.  The connection string of one end, parsed by
  the other, gives it exactly the sender's features, product names (from a device) and kind of
  connection; delayed acknowledgements are on exactly when both ends support them.  Nothing else about the
  transport changes, except for packets sent to device trackers, and the invariant is kept.
\<close>

theorem banner_roundtrip:
  assumes "server_inv w" and "transports w t = Some tr"
    and "libbase_ok (e_libbase env)" and "libbase_ok (e_libbase env')"
    and "plain_value (ae_banner ae)" and "\<forall>k \<in> set cnxn_props. plain_value (ae_property ae k)"
  shows "\<exists>w' tr'. parse_banner env' (get_connection_string env ae) t w = Some w' \<and> server_inv w' \<and>
    transports w' t = Some tr' \<and> tr_core tr' = tr_core (introduced env' env ae tr)"
proof -
  obtain w' where w': "parse_banner env' (get_connection_string env ae) t w = Some w'" "server_inv w'"
    "outer w' = outer (w\<lparr>transports := (transports w)(t \<mapsto> introduced env' env ae tr)\<rparr>)"
    using parse_banner_ok [OF assms(1,2,4), of "get_connection_string env ae"]
    unfolding banner_props_values [OF assms(3-6)] banner_pieces [OF assms(3-6)] list.sel fold_banner_values [OF assms(3,4,6)]
    by blast
  obtain tr' where "transports w' t = Some tr'" "tr_core tr' = tr_core (introduced env' env ae tr)"
    by (rule outer_transport_at [OF w'(3), of t]) simp
  with w'(1,2) show ?thesis by blast
qed

text \<open>A device that requires authorization, with one known key whose signatures are the token itself.\<close>

definition device_auth :: auth_env where
  "device_auth = \<lparr>ae_banner = ''device'', ae_property = (\<lambda>k. ''x''), ae_android = True, ae_auth_required = True,
     ae_private_keys = [''k''], ae_sign = (\<lambda>k token. Some token), ae_userkey = ''k'', ae_public_keys = [''k''],
     ae_key_valid = (\<lambda>_. True), ae_verify = (\<lambda>k token sig. sig = token),
     ae_random = Some (replicate TOKEN_SIZE (CHR 0x07)), ae_prompt_id = Some 1, ae_notify_id = 2\<rparr>"

lemma server_inv_initial:
  assumes "\<forall>t \<in> set ts. trs t \<noteq> None" and "\<And>t tr. trs t = Some tr \<Longrightarrow> tr_disconnects tr = []"
  shows "server_inv (initial_world trs ts)"
  using sock_inv_initial [OF assms(1)] listener_inv_initial [of trs, OF assms(2)] by (simp add: server_inv_def)

lemma server_inv_one_device: "server_inv (initial_world one_device [7])"
  by (rule server_inv_initial) (auto simp: one_device_def new_atransport_def split: if_splits)

theorem banner_roundtrip_witness:
  "plain_value (ae_banner device_auth) \<and> server_inv (initial_world one_device [7]) \<and>
   (\<exists>w' tr'. parse_banner bare_env (get_connection_string (bare_env\<lparr>e_host := False\<rparr>) device_auth) 7
        (initial_world one_device [7]) = Some w' \<and>
      transports w' 7 = Some tr' \<and> tr_state tr' = kCsDevice \<and> tr_product tr' = ''x'' \<and> ''shell_v2'' \<in> set (tr_features tr'))"
proof -
  let ?tr = "new_atransport 1 kTransportUsb kCsDevice"
  have tr: "transports (initial_world one_device [7]) 7 = Some ?tr" by (simp add: initial_world_def one_device_def)
  have lb: "libbase_ok (e_libbase (bare_env\<lparr>e_host := False\<rparr>))" "libbase_ok (e_libbase bare_env)"
    by (simp_all add: bare_env_def ref_libbase_ok)
  have pl: "plain_value (ae_banner device_auth)" "\<forall>k \<in> set cnxn_props. plain_value (ae_property device_auth k)"
    by (simp_all add: device_auth_def plain_value_def)
  from banner_roundtrip [OF server_inv_one_device tr lb pl] obtain w' tr' where
    w': "parse_banner bare_env (get_connection_string (bare_env\<lparr>e_host := False\<rparr>) device_auth) 7
        (initial_world one_device [7]) = Some w'" "transports w' 7 = Some tr'"
      "tr_core tr' = tr_core (introduced bare_env (bare_env\<lparr>e_host := False\<rparr>) device_auth ?tr)" by blast
  have "tr_state tr' = kCsDevice" "tr_product tr' = ''x''" "''shell_v2'' \<in> set (tr_features tr')"
    using tr_core_fields(4,9,10) [OF w'(3)]
    by (simp_all add: introduced_def Let_def bare_env_def device_auth_def banner_state_def supported_features_def base_features_def)
  with w' pl server_inv_one_device show ?thesis by blast
qed

end
