(* ===== verification/Adb_Auth.thy ===== *)
theory Adb_Auth
  imports Adb_Connection
begin

text \<open>
  Authorization (\<open>client/auth.cpp\<close>, \<open>daemon/auth.cpp\<close>, and the secure connection of
  \<open>daemon/adb_wifi.cpp\<close>): the host answers a token with its keys, one after the other, and finally with
  its public key; the daemon verifies signatures against the keys it knows and asks the user about
  others.  The cryptography of BoringSSL and the framework's library are parameters (\<^typ>\<open>auth_env\<close>).
  The TLS handshake runs in a thread of its own; what it does when it ends is a function of the
  outcome.
\<close>

definition ADB_AUTH_TOKEN :: u32 where "ADB_AUTH_TOKEN = 1"
definition ADB_AUTH_SIGNATURE :: u32 where "ADB_AUTH_SIGNATURE = 2"
definition ADB_AUTH_RSAPUBLICKEY :: u32 where "ADB_AUTH_RSAPUBLICKEY = 3"

section \<open>The host\<close>

definition adb_auth_sign :: "auth_env \<Rightarrow> string \<Rightarrow> bytes \<Rightarrow> bytes" where
  "adb_auth_sign ae key token =
     (if length token \<noteq> TOKEN_SIZE then [] else case ae_sign ae key token of None \<Rightarrow> [] | Some s \<Rightarrow> s)"

definition send_auth_publickey :: "auth_env \<Rightarrow> tref \<Rightarrow> world \<Rightarrow> world option" where
  "send_auth_publickey ae t w =
     (if ae_userkey ae = [] \<or> length (ae_userkey ae) \<ge> MAX_PAYLOAD_V1 then Some w
      else send_packet_on (data_packet A_AUTH ADB_AUTH_RSAPUBLICKEY 0 (filled_block (ae_userkey ae @ [CHR 0x00]))) t w)"

definition send_auth_response :: "env \<Rightarrow> auth_env \<Rightarrow> bytes \<Rightarrow> tref \<Rightarrow> world \<Rightarrow> world option" where
  "send_auth_response env ae token t w = do {
     tr \<leftarrow> transports w t;
     (key, keys) \<leftarrow> NextKey (ae_private_keys ae) (tr_keys tr);
     w1 \<leftarrow> on_transport t (\<lambda>tr. tr\<lparr>tr_keys := keys\<rparr>) w;
     (case key of
        None \<Rightarrow> do {
          w2 \<leftarrow> SetConnectionState env t kCsUnauthorized w1;
          w3 \<leftarrow> on_transport t (SetConnectionEstablished True) w2;
          send_auth_publickey ae t w3
        }
      | Some key \<Rightarrow>
          (case adb_auth_sign ae key token of
             [] \<Rightarrow> Some w1
           | result \<Rightarrow> send_packet_on (data_packet A_AUTH ADB_AUTH_SIGNATURE 0 (filled_block result)) t w1))
   }"

text \<open>The thread of \<open>adb_auth_tls_handshake\<close>: it needs a key, and kicks the transport if the handshake fails.\<close>

definition adb_auth_tls_handshake :: "auth_env \<Rightarrow> bool \<Rightarrow> tref \<Rightarrow> world \<Rightarrow> world option" where
  "adb_auth_tls_handshake ae success t w = do {
     tr \<leftarrow> transports w t;
     (key, keys) \<leftarrow> (case Key (tr_keys tr) of
                       Some k \<Rightarrow> Some (Some k, tr_keys tr)
                     | None \<Rightarrow> NextKey (ae_private_keys ae) (tr_keys tr));
     CHECK (key \<noteq> None);
     w1 \<leftarrow> on_transport t (\<lambda>tr. tr\<lparr>tr_keys := keys\<rparr>) w;
     if success then Some w1 else on_transport t Kick w1
   }"

section \<open>The daemon\<close>

text \<open>The first field of a key, which \<open>Split(key, " \t")\<close> gives.\<close>

definition first_field :: "string \<Rightarrow> string" where
  "first_field s = takeWhile (\<lambda>c. c \<noteq> CHR '' '' \<and> c \<noteq> CHR 0x09) s"

text \<open>\<open>adbd_auth_verify\<close>: the first known key that verifies the signature.\<close>

definition adbd_auth_verify :: "auth_env \<Rightarrow> bytes \<Rightarrow> bytes \<Rightarrow> string option" where
  "adbd_auth_verify ae token sig =
     find (\<lambda>k. ae_key_valid ae (first_field k) \<and> ae_verify ae (first_field k) token sig) (ae_public_keys ae)"

definition send_auth_request :: "auth_env \<Rightarrow> tref \<Rightarrow> world \<Rightarrow> world option" where
  "send_auth_request ae t w =
     (case ae_random ae of
        None \<Rightarrow> Some w
      | Some token \<Rightarrow> do {
          w1 \<leftarrow> on_transport t (\<lambda>tr. tr\<lparr>tr_token := token\<rparr>) w;
          send_packet_on (data_packet A_AUTH ADB_AUTH_TOKEN 0 (filled_block token)) t w1
        })"

definition adbd_auth_verified :: "env \<Rightarrow> auth_env \<Rightarrow> tref \<Rightarrow> world \<Rightarrow> world option" where
  "adbd_auth_verified env ae t w = do { w1 \<leftarrow> handle_online env ae t w; send_connect env ae t w1 }"

definition adbd_notify_framework_connected_key :: "auth_env \<Rightarrow> tref \<Rightarrow> world \<Rightarrow> world option" where
  "adbd_notify_framework_connected_key ae t w = do {
     tr \<leftarrow> transports w t;
     on_transport t (\<lambda>tr. tr\<lparr>tr_auth_id := Some (ae_notify_id ae)\<rparr>) (w\<lparr>framework_calls := framework_calls w @ [NotifyAuth (tr_auth_key tr)]\<rparr>)
   }"

text \<open>The callback argument of a prompt, and the transport it stands for; a transport that was deleted is not found.\<close>

definition transport_to_callback_arg :: "tref \<Rightarrow> world \<Rightarrow> u32 \<times> world" where
  "transport_to_callback_arg t w =
     (transport_auth_id w,
      w\<lparr>auth_transports := (auth_transports w)(transport_auth_id w \<mapsto> t), transport_auth_id := transport_auth_id w + 1\<rparr>)"

definition transport_from_callback_arg :: "u64 \<Rightarrow> world \<Rightarrow> (tref option \<times> world) option" where
  "transport_from_callback_arg arg w = do {
     CHECK (unat arg < 2 ^ 32);
     Some (case auth_transports w (ucast arg) of
             None \<Rightarrow> (None, w)
           | Some t \<Rightarrow> if transports w t = None then (None, w)
                       else (Some t, w\<lparr>auth_transports := (auth_transports w)(ucast arg := None)\<rparr>))
   }"

text \<open>\<open>adbd_auth_confirm_key\<close>: an old library returns no id.\<close>

definition adbd_auth_confirm_key :: "auth_env \<Rightarrow> tref \<Rightarrow> world \<Rightarrow> world option" where
  "adbd_auth_confirm_key ae t w = do {
     w1 \<leftarrow> on_transport t (AddDisconnect AdbDisconnected) w;
     tr \<leftarrow> transports w1 t;
     let (arg, w2) = transport_to_callback_arg t w1;
     let w3 = w2\<lparr>framework_calls := framework_calls w2 @ [PromptUser (tr_auth_key tr) arg]\<rparr>;
     (case ae_prompt_id ae of
        Some i \<Rightarrow> on_transport t (\<lambda>tr. tr\<lparr>tr_auth_id := Some i\<rparr>) w3
      | None \<Rightarrow> Some w3)
   }"

definition adbd_auth_key_authorized :: "env \<Rightarrow> auth_env \<Rightarrow> u64 \<Rightarrow> u64 \<Rightarrow> world \<Rightarrow> world option" where
  "adbd_auth_key_authorized env ae arg ident w = do {
     (r, w1) \<leftarrow> transport_from_callback_arg arg w;
     (case r of
        None \<Rightarrow> Some w1
      | Some t \<Rightarrow> do {
          tr \<leftarrow> transports w1 t;
          (case tr_auth_id tr of
             Some i \<Rightarrow> if i \<noteq> ident then Some w1 else adbd_auth_verified env ae t w1
           | None \<Rightarrow> do {
               w2 \<leftarrow> on_transport t (\<lambda>tr. tr\<lparr>tr_auth_id := Some ident\<rparr>) w1;
               adbd_auth_verified env ae t w2
             })
        })
   }"

definition kick_all_transports_by_auth_key :: "string \<Rightarrow> world \<Rightarrow> world" where
  "kick_all_transports_by_auth_key key w =
     w\<lparr>transports := (\<lambda>t. if t \<in> set (transport_list w)
        then map_option (\<lambda>tr. if tr_auth_key tr = key then Kick tr else tr) (transports w t) else transports w t)\<rparr>"

definition adbd_wifi_secure_connect :: "env \<Rightarrow> auth_env \<Rightarrow> tref \<Rightarrow> world \<Rightarrow> world option" where
  "adbd_wifi_secure_connect env ae t w = do {
     w1 \<leftarrow> on_transport t (AddDisconnect AdbDisconnected) w;
     w2 \<leftarrow> handle_online env ae t w1;
     w3 \<leftarrow> send_connect env ae t w2;
     tr \<leftarrow> transports w3 t;
     on_transport t (\<lambda>tr. tr\<lparr>tr_auth_id := Some (ae_notify_id ae)\<rparr>) (w3\<lparr>framework_calls := framework_calls w3 @ [TlsConnected (tr_auth_key tr)]\<rparr>)
   }"

text \<open>The thread of \<open>adbd_auth_tls_handshake\<close>; \<open>Some key\<close> is a handshake that succeeded.\<close>

definition adbd_auth_tls_handshake :: "env \<Rightarrow> auth_env \<Rightarrow> string option \<Rightarrow> tref \<Rightarrow> world \<Rightarrow> world option" where
  "adbd_auth_tls_handshake env ae result t w =
     (case result of
        None \<Rightarrow> on_transport t Kick w
      | Some auth_key \<Rightarrow> do {
          tr \<leftarrow> transports w t;
          if IsTcpDevice tr
          then do { w1 \<leftarrow> on_transport t (\<lambda>tr. tr\<lparr>tr_auth_key := auth_key\<rparr>) w; adbd_wifi_secure_connect env ae t w1 }
          else do { w1 \<leftarrow> adbd_auth_verified env ae t w; adbd_notify_framework_connected_key ae t w1 }
        })"

end
