(* ===== verification/Adb_Protocol.thy ===== *)
theory Adb_Protocol
  imports Adb_Auth
begin

text \<open>
  The dispatch of received packets (\<open>handle_packet\<close> of \<open>adb.cpp\<close>), and the arrival, loss and removal of
  transports (\<open>transport.cpp\<close>).  Both builds are modelled: \<open>e_host\<close> chooses the branches of the
  preprocessor.
\<close>

section \<open>Packets\<close>

text \<open>The memory of a block from its first byte, as a C string is read from \<open>payload.data()\<close>.\<close>

definition payload_memory :: "byte block \<Rightarrow> bytes" where
  "payload_memory b = (case blk_data b of None \<Rightarrow> [] | Some d \<Rightarrow> d)"

text \<open>The case \<open>A_AUTH\<close>.  The second of sleep after 256 failed signatures has no effect on the state.\<close>

definition handle_auth :: "env \<Rightarrow> auth_env \<Rightarrow> apacket \<Rightarrow> tref \<Rightarrow> world \<Rightarrow> world option" where
  "handle_auth env ae p t w = do {
     tr \<leftarrow> transports w t;
     let arg0 = m_arg0 (p_msg p);
     if tr_use_tls tr then Some w
     else if e_host env \<and> arg0 = ADB_AUTH_TOKEN then do {
       w1 \<leftarrow> (if tr_state tr \<noteq> kCsAuthorizing then SetConnectionState env t kCsAuthorizing w else Some w);
       send_auth_response env ae (block_bytes (p_payload p)) t w1
     }
     else if \<not> e_host env \<and> arg0 = ADB_AUTH_SIGNATURE then
       (case adbd_auth_verify ae (tr_token tr) (block_bytes (p_payload p)) of
          Some auth_key \<Rightarrow> do {
            w1 \<leftarrow> adbd_auth_verified env ae t w;
            w2 \<leftarrow> on_transport t (\<lambda>tr. tr\<lparr>tr_failed_auth_attempts := 0, tr_auth_key := auth_key\<rparr>) w1;
            adbd_notify_framework_connected_key ae t w2
          }
        | None \<Rightarrow> do {
            w1 \<leftarrow> on_transport t (\<lambda>tr. tr\<lparr>tr_failed_auth_attempts := tr_failed_auth_attempts tr + 1\<rparr>) w;
            send_auth_request ae t w1
          })
     else if \<not> e_host env \<and> arg0 = ADB_AUTH_RSAPUBLICKEY then do {
       key \<leftarrow> c_str (payload_memory (p_payload p));
       w1 \<leftarrow> on_transport t (\<lambda>tr. tr\<lparr>tr_auth_key := key\<rparr>) w;
       adbd_auth_confirm_key ae t w1
     }
     else do { w1 \<leftarrow> SetConnectionState env t kCsOffline w; handle_offline env ae t w1 }
   }"

text \<open>The case \<open>A_OPEN\<close>.  The allow-list is asked with \<open>address.data()\<close>: the payload up to its first NUL.\<close>

definition handle_open :: "env \<Rightarrow> apacket \<Rightarrow> tref \<Rightarrow> world \<Rightarrow> world option" where
  "handle_open env p t w = do {
     tr \<leftarrow> transports w t;
     let arg0 = m_arg0 (p_msg p);
     let send_bytes = m_arg1 (p_msg p);
     if \<not> tr_online tr \<or> arg0 = 0 then Some w
     else if tr_delayed_ack tr \<noteq> (send_bytes \<noteq> 0) then send_close 0 arg0 t w
     else do {
       let address = StripTrailingNulls (block_bytes (p_payload p));
       (if e_host env then do {
          name \<leftarrow> c_str (payload_memory (p_payload p));
          CHECK (IsReverseConfigured name tr)
        } else Some ());
       (r, w1) \<leftarrow> create_local_service_socket env address (Some t) w;
       (case r of
          None \<Rightarrow> send_close 0 arg0 t w1
        | Some s \<Rightarrow> do {
            (q, w2) \<leftarrow> create_remote_socket arg0 t w1;
            w3 \<leftarrow> update_socket s (\<lambda>a. a\<lparr>so_peer := Some q\<rparr>) w2;
            w4 \<leftarrow> update_socket q (\<lambda>a. a\<lparr>so_peer := Some s\<rparr>) w3;
            tr4 \<leftarrow> transports w4 t;
            a \<leftarrow> heap w4 s;
            w6 \<leftarrow> (if tr_delayed_ack tr4 then do {
                     w5 \<leftarrow> update_socket s (\<lambda>a. a\<lparr>so_available_send_bytes := Some (uint send_bytes)\<rparr>) w4;
                     send_ready (so_id a) arg0 t (of_nat INITIAL_DELAYED_ACK_BYTES) w5
                   } else send_ready (so_id a) arg0 t 0 w4);
            sock_ready env s w6
          })
     }
   }"

text \<open>The case \<open>A_OKAY\<close>; the payload is empty or a 32-bit number of acknowledged bytes.\<close>

definition acked_bytes_of :: "bytes \<Rightarrow> int option option" where
  "acked_bytes_of d =
     (if length d = 4 then Some (Some (sint (get_le32 d))) else if d \<noteq> [] then None else Some None)"

definition handle_okay :: "env \<Rightarrow> apacket \<Rightarrow> tref \<Rightarrow> world \<Rightarrow> world option" where
  "handle_okay env p t w = do {
     tr \<leftarrow> transports w t;
     let arg0 = m_arg0 (p_msg p);
     let arg1 = m_arg1 (p_msg p);
     if tr_online tr \<and> arg0 \<noteq> 0 \<and> arg1 \<noteq> 0 then do {
       r \<leftarrow> find_local_socket arg1 0 w;
       (case r of
          None \<Rightarrow> send_close arg1 arg0 t w
        | Some s \<Rightarrow>
            (case acked_bytes_of (block_bytes (p_payload p)) of
               None \<Rightarrow> Some w
             | Some acked_bytes \<Rightarrow> do {
                 a \<leftarrow> heap w s;
                 (case so_peer a of
                    None \<Rightarrow> do {
                      (q, w1) \<leftarrow> create_remote_socket arg0 t w;
                      w2 \<leftarrow> update_socket s (\<lambda>a. a\<lparr>so_peer := Some q\<rparr>) w1;
                      w3 \<leftarrow> update_socket q (\<lambda>a. a\<lparr>so_peer := Some s\<rparr>) w2;
                      local_socket_ack env s acked_bytes w3
                    }
                  | Some q \<Rightarrow> do {
                      b \<leftarrow> heap w q;
                      if so_id b = arg0 then local_socket_ack env s acked_bytes w else Some w
                    })
               }))
     } else Some w
   }"

definition handle_clse :: "apacket \<Rightarrow> tref \<Rightarrow> world \<Rightarrow> world option" where
  "handle_clse p t w = do {
     tr \<leftarrow> transports w t;
     let arg0 = m_arg0 (p_msg p);
     let arg1 = m_arg1 (p_msg p);
     if tr_online tr \<and> arg1 \<noteq> 0 then do {
       r \<leftarrow> find_local_socket arg1 arg0 w;
       (case r of
          None \<Rightarrow> Some w
        | Some s \<Rightarrow> do {
            a \<leftarrow> heap w s;
            other \<leftarrow> (case so_peer a of None \<Rightarrow> Some False | Some q \<Rightarrow> do { b \<leftarrow> heap w q; Some (so_transport b \<noteq> Some t) });
            if arg0 = 0 \<and> other then Some w else sock_close s w
          })
     } else Some w
   }"

definition handle_wrte :: "env \<Rightarrow> apacket \<Rightarrow> tref \<Rightarrow> world \<Rightarrow> world option" where
  "handle_wrte env p t w = do {
     tr \<leftarrow> transports w t;
     let arg0 = m_arg0 (p_msg p);
     let arg1 = m_arg1 (p_msg p);
     if tr_online tr \<and> arg0 \<noteq> 0 \<and> arg1 \<noteq> 0 then do {
       r \<leftarrow> find_local_socket arg1 arg0 w;
       (case r of
          None \<Rightarrow> Some w
        | Some s \<Rightarrow> do { (_, w1) \<leftarrow> sock_enqueue env s (p_payload p) w; Some w1 })
     } else Some w
   }"

text \<open>
  \<open>handle_packet\<close>.  After \<open>A_STLS\<close> both ends start a thread for the handshake; what the thread does once the
  handshake has ended is \<open>adb_auth_tls_handshake\<close> and \<open>adbd_auth_tls_handshake\<close>, steps of their own.
\<close>

definition handle_packet :: "env \<Rightarrow> auth_env \<Rightarrow> apacket \<Rightarrow> tref \<Rightarrow> world \<Rightarrow> world option" where
  "handle_packet env ae p t w = do {
     CHECK (blk_size (p_payload p) = unat (m_data_length (p_msg p)));
     let command = m_command (p_msg p);
     if command = A_CNXN then handle_new_connection env ae (send_auth_request ae) t p w
     else if command = A_STLS then do {
       w1 \<leftarrow> on_transport t (\<lambda>tr. tr\<lparr>tr_use_tls := True\<rparr>) w;
       if e_host env then send_tls_request t w1 else Some w1
     }
     else if command = A_AUTH then handle_auth env ae p t w
     else if command = A_OPEN then handle_open env p t w
     else if command = A_OKAY then handle_okay env p t w
     else if command = A_CLSE then handle_clse p t w
     else if command = A_WRTE then handle_wrte env p t w
     else Some w
   }"

end
