(* ===== verification/Adb_Sockets_Create.thy ===== *)
theory Adb_Sockets_Create
  imports Adb_Sockets_Frame
begin

text \<open>
  Creating and connecting sockets.  One lemma on local changes of the heap gives that the invariant of
  the sockets is kept when a local socket is created, when a socket is paired with a new one, when two
  local sockets are paired, and when one is separated from a smart socket that goes away.
\<close>

section \<open>Local changes\<close>

lemma peers_ok_change:
  assumes pk: "peers_ok w"
    and keep: "\<And>x. x \<notin> D \<Longrightarrow> heap w' x = heap w x"
    and closed: "\<And>x a p. x \<in> D \<Longrightarrow> heap w x = Some a \<Longrightarrow> so_peer a = Some p \<Longrightarrow> p \<in> D"
    and new: "\<And>x b. x \<in> D \<Longrightarrow> heap w' x = Some b \<Longrightarrow> (case so_peer b of None \<Rightarrow> is_local b
      | Some p \<Rightarrow> p \<noteq> x \<and> (\<exists>c. heap w' p = Some c \<and> so_peer c = Some x \<and> (is_local b \<or> is_local c)))"
  shows "peers_ok w'"
  unfolding peers_ok_def
proof (intro allI impI)
  fix x b assume b: "heap w' x = Some b"
  show "case so_peer b of None \<Rightarrow> is_local b
      | Some p \<Rightarrow> p \<noteq> x \<and> (\<exists>c. heap w' p = Some c \<and> so_peer c = Some x \<and> (is_local b \<or> is_local c))"
  proof (cases "x \<in> D")
    case True
    from new [OF this b] show ?thesis .
  next
    case False
    with keep b have old: "heap w x = Some b" by simp
    have px: "case so_peer b of None \<Rightarrow> is_local b
        | Some p \<Rightarrow> p \<noteq> x \<and> (\<exists>c. heap w p = Some c \<and> so_peer c = Some x \<and> (is_local b \<or> is_local c))"
      using pk old unfolding peers_ok_def by blast
    show ?thesis
    proof (cases "so_peer b")
      case (Some p)
      with px obtain c where c: "p \<noteq> x" "heap w p = Some c" "so_peer c = Some x" "is_local b \<or> is_local c" by auto
      have "p \<notin> D" using closed [OF _ c(2,3)] False by blast
      with c keep Some show ?thesis by auto
    qed (use px in simp)
  qed
qed

lemma ids_ok_change:
  assumes ids: "ids_ok w" and keep: "\<And>x. x \<notin> D \<Longrightarrow> heap w' x = heap w x"
    and next_addr: "next_addr w \<le> next_addr w'" "\<And>x. x \<in> D \<Longrightarrow> heap w' x \<noteq> None \<Longrightarrow> x < next_addr w'"
    and next_id: "local_socket_next_id w \<le> local_socket_next_id w'"
    and new: "\<And>x b. x \<in> D \<Longrightarrow> heap w' x = Some b \<Longrightarrow> is_local b \<Longrightarrow>
      (\<exists>a. heap w x = Some a \<and> is_local a \<and> so_id a = so_id b) \<or>
      (x = n \<and> so_id b = local_socket_next_id w \<and> local_socket_next_id w < local_socket_next_id w')"
  shows "ids_ok w'"
proof -
  have old: "(\<exists>a. heap w x = Some a \<and> is_local a \<and> so_id a = so_id b) \<or>
      (x = n \<and> so_id b = local_socket_next_id w \<and> local_socket_next_id w < local_socket_next_id w')"
    if "heap w' x = Some b" "is_local b" for x b
  proof (cases "x \<in> D")
    case True
    with new that show ?thesis by blast
  next
    case False
    with keep that show ?thesis by metis
  qed
  have i: "local_socket_next_id w \<noteq> 0"
    "\<And>s a. heap w s = Some a \<Longrightarrow> s < next_addr w"
    "\<And>s a. heap w s = Some a \<Longrightarrow> is_local a \<Longrightarrow> so_id a \<noteq> 0 \<and> so_id a < local_socket_next_id w"
    "\<And>s s' a a'. heap w s = Some a \<Longrightarrow> heap w s' = Some a' \<Longrightarrow> is_local a \<Longrightarrow> is_local a' \<Longrightarrow> so_id a = so_id a' \<Longrightarrow> s = s'"
    using ids unfolding ids_ok_def by blast+
  show ?thesis
    unfolding ids_ok_def
  proof (intro conjI allI impI)
    show "local_socket_next_id w' \<noteq> 0" using i(1) next_id word_gt_0 by fastforce
  next
    fix x b assume b: "heap w' x = Some b"
    show "x < next_addr w'" using next_addr b keep [of x] i(2) [of x b] by (cases "x \<in> D") auto
  next
    fix x b assume b: "heap w' x = Some b" "is_local b"
    show "so_id b \<noteq> 0" using old [OF b] i(1,3) by auto
    show "so_id b < local_socket_next_id w'" using old [OF b] i(3) next_id by fastforce
  next
    fix x y b c assume *: "heap w' x = Some b" "heap w' y = Some c" "is_local b" "is_local c" "so_id b = so_id c"
    consider a d where "heap w x = Some a" "is_local a" "so_id a = so_id b" "heap w y = Some d" "is_local d" "so_id d = so_id c"
      | "x = n" "y = n"
      | a where "heap w x = Some a" "is_local a" "so_id a = so_id b" "so_id c = local_socket_next_id w"
      | a where "heap w y = Some a" "is_local a" "so_id a = so_id c" "so_id b = local_socket_next_id w"
      using old [OF *(1,3)] old [OF *(2,4)] by blast
    then show "x = y"
    proof cases
      case 1
      then show ?thesis using i(4) *(5) by metis
    next
      case 3
      then show ?thesis using i(3) *(5) by fastforce
    next
      case 4
      then show ?thesis using i(3) *(5) by fastforce
    qed simp
  qed
qed

lemma sock_inv_change:
  assumes inv: "sock_inv w" and keep: "\<And>x. x \<notin> D \<Longrightarrow> heap w' x = heap w x"
    and closed: "\<And>x a p. x \<in> D \<Longrightarrow> heap w x = Some a \<Longrightarrow> so_peer a = Some p \<Longrightarrow> p \<in> D"
    and new: "\<And>x b. x \<in> D \<Longrightarrow> heap w' x = Some b \<Longrightarrow> (case so_peer b of None \<Rightarrow> is_local b
      | Some p \<Rightarrow> p \<noteq> x \<and> (\<exists>c. heap w' p = Some c \<and> so_peer c = Some x \<and> (is_local b \<or> is_local c)))"
    and wf: "\<And>x b. x \<in> D \<Longrightarrow> heap w' x = Some b \<Longrightarrow> socket_wf b \<and> (so_closing b \<or> transport_alive w b)"
    and lists: "lists_ok w'"
    and trs: "\<And>t. transports w' t = None \<longleftrightarrow> transports w t = None" "transport_list w' = transport_list w" "pending_list w' = pending_list w"
    and next_addr: "next_addr w \<le> next_addr w'" "\<And>x. x \<in> D \<Longrightarrow> heap w' x \<noteq> None \<Longrightarrow> x < next_addr w'"
    and next_id: "local_socket_next_id w \<le> local_socket_next_id w'"
    and ids: "\<And>x b. x \<in> D \<Longrightarrow> heap w' x = Some b \<Longrightarrow> is_local b \<Longrightarrow>
      (\<exists>a. heap w x = Some a \<and> is_local a \<and> so_id a = so_id b) \<or>
      (x = n \<and> so_id b = local_socket_next_id w \<and> local_socket_next_id w < local_socket_next_id w')"
  shows "sock_inv w'"
proof -
  have parts: "transports_ok w" "peers_ok w" "ids_ok w" "\<And>x c. heap w x = Some c \<Longrightarrow> socket_wf c"
    using inv unfolding sock_inv_def by blast+
  have "socket_wf b" if "heap w' x = Some b" for x b
    using wf [of x b] keep [of x] parts(4) [of x b] that by (cases "x \<in> D") auto
  moreover have "transports_ok w'"
    unfolding transports_ok_def
  proof (intro conjI allI impI ballI)
    fix s a t assume a: "heap w' s = Some a" "so_transport a = Some t" "\<not> so_closing a"
    show "transports w' t \<noteq> None"
    proof (cases "s \<in> D")
      case True
      with wf a trs(1) show ?thesis by (auto simp: transport_alive_def)
    next
      case False
      with keep a parts(1) trs(1) show ?thesis unfolding transports_ok_def by metis
    qed
  next
    fix t assume "t \<in> set (transport_list w') \<union> set (pending_list w')"
    with parts(1) trs show "transports w' t \<noteq> None" unfolding transports_ok_def by simp
  qed
  moreover have "peers_ok w'" by (rule peers_ok_change [OF parts(2) keep closed new])
  moreover have "ids_ok w'" by (rule ids_ok_change [OF parts(3) keep next_addr next_id ids])
  ultimately show ?thesis using lists unfolding sock_inv_def by blast
qed

section \<open>New sockets\<close>

text \<open>The socket that \<open>create_local_socket\<close> makes, and the world with it.\<close>

definition fresh_local :: "int \<Rightarrow> u32 \<Rightarrow> asocket" where
  "fresh_local fd i = (init_socket LocalEnqueue LocalReady NoShutdown LocalClose)
     \<lparr>so_fd := fd, so_id := i, so_fde := Some \<lparr>fde_read = False, fde_write = False\<rparr>\<rparr>"

lemma create_local_socket_eq:
  assumes "local_socket_next_id w + 1 \<noteq> 0"
  shows "create_local_socket fd w = Some (next_addr w,
    w\<lparr>heap := (heap w)(next_addr w \<mapsto> fresh_local fd (local_socket_next_id w)), next_addr := next_addr w + 1,
      local_socket_next_id := local_socket_next_id w + 1, local_socket_list := local_socket_list w @ [next_addr w]\<rparr>)"
  using assms
  by (simp add: create_local_socket_def new_socket_def install_local_socket_def update_socket_def fresh_local_def init_socket_def
      CHECK_def)

lemma inv_addr: "sock_inv w \<Longrightarrow> next_addr w \<le> x \<Longrightarrow> heap w x = None"
  by (cases "heap w x") (auto simp: sock_inv_def ids_ok_def)

lemma add_local_ok:
  assumes inv: "sock_inv w" and id: "local_socket_next_id w + 1 \<noteq> 0"
    and a: "is_local a" "local_wf a" "\<not> so_closing a" "so_peer a = None" "so_id a = local_socket_next_id w" "transport_alive w a"
  shows "sock_inv (w\<lparr>heap := (heap w)(next_addr w \<mapsto> a), next_addr := next_addr w + 1,
      local_socket_next_id := local_socket_next_id w + 1, local_socket_list := local_socket_list w @ [next_addr w]\<rparr>)"
    (is "sock_inv ?w")
proof (rule sock_inv_change [where D = "{next_addr w}" and n = "next_addr w", OF inv])
  have new: "heap w (next_addr w) = None" by (rule inv_addr [OF inv order_refl])
  show "lists_ok ?w" using inv_lists [OF inv] new a(1,3) by (auto simp: lists_ok_def)
  have less: "local_socket_next_id w < local_socket_next_id w + 1" using id unatSuc [of "local_socket_next_id w"] by (simp add: word_less_nat_alt add.commute)
  show "local_socket_next_id w \<le> local_socket_next_id ?w" using less by simp
  show "(\<exists>c. heap w x = Some c \<and> is_local c \<and> so_id c = so_id b) \<or>
      (x = next_addr w \<and> so_id b = local_socket_next_id w \<and> local_socket_next_id w < local_socket_next_id ?w)"
    if "x \<in> {next_addr w}" "heap ?w x = Some b" "is_local b" for x b using that a(5) less by simp
qed (use inv_addr [OF inv, of "next_addr w"] a in \<open>auto simp: socket_wf_def\<close>)

lemma local_wf_fresh [simp]: "local_wf (fresh_local fd i)" "is_local (fresh_local fd i)" "\<not> so_closing (fresh_local fd i)"
    "so_peer (fresh_local fd i) = None" "so_id (fresh_local fd i) = i" "so_transport (fresh_local fd i) = None"
  by (simp_all add: fresh_local_def init_socket_def local_wf_def)

lemma local_wf_transport [simp]: "local_wf (a\<lparr>so_transport := t\<rparr>) = local_wf a"
  by (simp add: local_wf_def)

lemma pair_new_ok:
  assumes inv: "sock_inv w" and a: "heap w s = Some a" "is_local a" "\<not> so_closing a" "so_peer a = None"
    and b: "socket_wf b" "\<not> is_local b" "so_enqueue b \<noteq> TrackerEnqueue" "so_peer b = Some s" "transport_alive w b"
  shows "sock_inv (w\<lparr>heap := (heap w)(s \<mapsto> a\<lparr>so_peer := Some (next_addr w)\<rparr>, next_addr w \<mapsto> b), next_addr := next_addr w + 1\<rparr>)"
    (is "sock_inv ?w")
proof (rule sock_inv_change [where D = "{s, next_addr w}" and n = s, OF inv])
  have new: "heap w (next_addr w) = None" by (rule inv_addr [OF inv order_refl])
  then have ne: "s \<noteq> next_addr w" using a(1) by auto
  have lwf: "local_wf (a\<lparr>so_peer := Some (next_addr w)\<rparr>)" using inv_local_wf [OF inv a(1,2)] a(3) by (simp add: local_wf_def)
  have alive: "transport_alive w a" by (rule live_transport [OF inv a(1,3)])
  show "lists_ok ?w" using inv_lists [OF inv] new ne a b(2,3) unfolding lists_ok_def by auto
  show "socket_wf c \<and> (so_closing c \<or> transport_alive w c)" if "x \<in> {s, next_addr w}" "heap ?w x = Some c" for x c
    using that ne b(1,5) lwf a(2) alive by (auto simp: socket_wf_def transport_alive_def split: if_splits)
  show "case so_peer c of None \<Rightarrow> is_local c
      | Some p \<Rightarrow> p \<noteq> x \<and> (\<exists>d. heap ?w p = Some d \<and> so_peer d = Some x \<and> (is_local c \<or> is_local d))"
    if "x \<in> {s, next_addr w}" "heap ?w x = Some c" for x c
    using that ne a(2) b(4) by (auto split: if_splits)
  show "p \<in> {s, next_addr w}" if "x \<in> {s, next_addr w}" "heap w x = Some c" "so_peer c = Some p" for x c p
    using that a(1,4) new by auto
  show "x < next_addr ?w" if "x \<in> {s, next_addr w}" "heap ?w x \<noteq> None" for x
    using that inv a(1) by (auto simp: sock_inv_def ids_ok_def less_Suc_eq)
  show "(\<exists>d. heap w x = Some d \<and> is_local d \<and> so_id d = so_id c) \<or>
      (x = s \<and> so_id c = local_socket_next_id w \<and> local_socket_next_id w < local_socket_next_id ?w)"
    if "x \<in> {s, next_addr w}" "heap ?w x = Some c" "is_local c" for x c
    using that ne a(1,2) b(2) by (auto split: if_splits)
qed auto

end
