(* ===== verification/Adb_Dispatch.thy ===== *)
theory Adb_Dispatch
  imports Adb_Protocol Adb_Sockets_Create
begin

text \<open>
  The dispatch of packets is safe.  Whatever packet arrives on a transport, \<open>handle_packet\<close> fails no
  \<open>CHECK\<close>, reads no freed object and keeps the invariant of the server, under explicit conditions on the
  surroundings and on the packet.  Further results: a transport that is not online cannot reach the
  sockets, and with authorization required a daemon goes online only through a verified signature.
\<close>

section \<open>Steps of the server\<close>

text \<open>A computation that returns, keeps the invariant, and neither adds nor deletes a transport.\<close>

definition registry :: "world \<Rightarrow> tref set \<times> tref list \<times> tref list" where
  "registry w = (dom (transports w), transport_list w, pending_list w)"

definition kept :: "world \<Rightarrow> world option \<Rightarrow> bool" where
  "kept w r \<longleftrightarrow> (\<exists>w'. r = Some w' \<and> server_inv w' \<and> registry w' = registry w)"

named_theorems kept

lemma registry_same: "same_sockets w w' \<Longrightarrow> registry w' = registry w"
  by (auto simp: same_sockets_def registry_def dom_def)

lemma registry_transport: "registry w' = registry w \<Longrightarrow> transports w t \<noteq> None \<Longrightarrow> transports w' t \<noteq> None"
  unfolding registry_def by blast

lemma kept_Some [kept]: "server_inv w \<Longrightarrow> kept w (Some w)"
  by (simp add: kept_def)

lemma kept_same: "server_inv w' \<Longrightarrow> same_sockets w w' \<Longrightarrow> kept w (Some w')"
  using registry_same by (simp add: kept_def)

lemma kept_bind:
  assumes "kept w r" and "\<And>w1. r = Some w1 \<Longrightarrow> server_inv w1 \<Longrightarrow> registry w1 = registry w \<Longrightarrow> kept w1 (f w1)"
  shows "kept w (r \<bind> f)"
  using assms unfolding kept_def by (metis bind.bind_lunit)

lemma kept_if: "(b \<Longrightarrow> kept w x) \<Longrightarrow> (\<not> b \<Longrightarrow> kept w y) \<Longrightarrow> kept w (if b then x else y)"
  by simp

lemma kept_transport:
  assumes "transports w t \<noteq> None" and "\<And>tr. transports w t = Some tr \<Longrightarrow> kept w (f tr)"
  shows "kept w (transports w t \<bind> f)"
  using assms by auto

text \<open>The operations of a connection as steps.\<close>

lemma kept_on_transport [kept]:
  assumes "server_inv w" and "transports w t \<noteq> None"
    and "\<And>tr. tr_disconnects (f tr) = tr_disconnects tr" "\<And>tr. tr_auth_id (f tr) = tr_auth_id tr"
  shows "kept w (on_transport t f w)"
proof -
  obtain tr where "transports w t = Some tr" using assms(2) by blast
  from on_transport_ok [OF assms(1) this, of f] assms(3,4) show ?thesis using kept_same by simp
qed

lemma kept_SetConnectionState [kept]:
  assumes "server_inv w" and "transports w t \<noteq> None"
  shows "kept w (SetConnectionState env t st w)"
proof -
  obtain tr where "transports w t = Some tr" using assms(2) by blast
  from SetConnectionState_ok [OF assms(1) this] obtain w' where
    "SetConnectionState env t st w = Some w'" "server_inv w'" "same_sockets w w'" .
  then show ?thesis using kept_same by simp
qed

lemma kept_handle_offline [kept]:
  assumes "server_inv w" and "transports w t \<noteq> None"
  shows "kept w (handle_offline env ae t w)"
proof -
  obtain tr where "transports w t = Some tr" using assms(2) by blast
  from handle_offline_ok [OF assms(1) this] obtain w' where
    "handle_offline env ae t w = Some w'" "server_inv w'" "same_sockets w w'" .
  then show ?thesis using kept_same by simp
qed

lemma kept_handle_online [kept]:
  assumes "server_inv w" and "transports w t \<noteq> None"
  shows "kept w (handle_online env ae t w)"
proof -
  obtain tr where "transports w t = Some tr" using assms(2) by blast
  from handle_online_ok [OF assms(1) this] obtain w' where
    "handle_online env ae t w = Some w'" "server_inv w'" "same_sockets w w'" .
  then show ?thesis using kept_same by simp
qed

lemma kept_parse_banner [kept]:
  assumes "server_inv w" and "transports w t \<noteq> None" and "libbase_ok (e_libbase env)"
  shows "kept w (parse_banner env banner t w)"
proof -
  obtain tr where "transports w t = Some tr" using assms(2) by blast
  from parse_banner_ok [OF assms(1) this assms(3)] obtain w' where
    "parse_banner env banner t w = Some w'" "server_inv w'" "same_sockets w w'" .
  then show ?thesis using kept_same by simp
qed

lemma kept_send_packet_on [kept]:
  assumes "server_inv w" and "transports w t \<noteq> None" and "packet_fits p"
  shows "kept w (send_packet_on p t w)"
proof -
  from send_packet_on_inv [OF assms(1,3,2)] obtain w' where
    "send_packet_on p t w = Some w'" "server_inv w'" "same_sockets w w'" .
  then show ?thesis using kept_same by simp
qed

lemma kept_send_connect [kept]:
  assumes "server_inv w" and "transports w t \<noteq> None" and "length (get_connection_string env ae) \<le> MAX_PAYLOAD_V1"
  shows "kept w (send_connect env ae t w)"
proof -
  from send_connect_ok [OF assms] obtain w' where
    "send_connect env ae t w = Some w'" "server_inv w'" "same_sockets w w'" .
  then show ?thesis using kept_same by simp
qed

lemma kept_send_tls_request [kept]:
  assumes "server_inv w" and "transports w t \<noteq> None"
  shows "kept w (send_tls_request t w)"
  unfolding send_tls_request_def by (rule kept_send_packet_on [OF assms]) simp

lemma kept_send_close [kept]:
  assumes "server_inv w" and "transports w t \<noteq> None"
  shows "kept w (send_close local remote t w)"
  unfolding send_close_def by (rule kept_send_packet_on [OF assms]) simp

text \<open>A socket operation that returns and keeps the invariant of the sockets.\<close>

lemma registry_outer:
  assumes "outer w' = outer w"
  shows "registry w' = registry w"
proof -
  have "transports w' t = None \<longleftrightarrow> transports w t = None" for t
    using outer_transports [OF assms, of t] by (metis option.map_disc_iff)
  then have "dom (transports w') = dom (transports w)" by (auto simp: dom_def)
  then show ?thesis using outer_fields(3,4) [OF assms] by (simp add: registry_def)
qed

lemma kept_sockets:
  assumes "server_inv w" and "r = Some w'" and "sock_inv w'" and "outer w' = outer w"
  shows "kept w r"
  using assms(2) server_inv_outer [OF assms(1,4,3)] registry_outer [OF assms(4)] by (simp add: kept_def)

section \<open>Authorization\<close>

lemma server_inv_auth [simp]:
  "server_inv (w\<lparr>framework_calls := fs\<rparr>) = server_inv w" "server_inv (w\<lparr>auth_transports := m\<rparr>) = server_inv w"
  "server_inv (w\<lparr>transport_auth_id := i\<rparr>) = server_inv w"
  using sock_inv_same [of "w\<lparr>framework_calls := fs\<rparr>" w] sock_inv_same [of "w\<lparr>auth_transports := m\<rparr>" w]
    sock_inv_same [of "w\<lparr>transport_auth_id := i\<rparr>" w]
  by (simp_all add: server_inv_def same_sockets_def listener_inv_def listeners_ok_def auth_ids_ok_def callbacks_def)

lemma kept_send_auth_request [kept]:
  assumes "server_inv w" and "transports w t \<noteq> None"
  shows "kept w (send_auth_request ae t w)"
proof (cases "ae_random ae")
  case (Some token)
  have "kept w (do { w1 \<leftarrow> on_transport t (\<lambda>tr. tr\<lparr>tr_token := token\<rparr>) w;
      send_packet_on (data_packet A_AUTH ADB_AUTH_TOKEN 0 (filled_block token)) t w1 })"
    by (intro kept_bind kept_on_transport kept_send_packet_on assms) (use assms registry_transport in auto)
  with Some show ?thesis by (simp add: send_auth_request_def)
qed (use assms kept_Some in \<open>simp add: send_auth_request_def\<close>)

lemma kept_send_auth_publickey [kept]:
  assumes "server_inv w" and "transports w t \<noteq> None"
  shows "kept w (send_auth_publickey ae t w)"
  using kept_send_packet_on [OF assms, of "data_packet A_AUTH ADB_AUTH_RSAPUBLICKEY 0 (filled_block (ae_userkey ae @ [CHR 0x00]))"]
    kept_Some [OF assms(1)] by (simp add: send_auth_publickey_def)

lemma NextKey_Some: "fetch \<noteq> [] \<Longrightarrow> \<exists>r. NextKey fetch keys = Some r"
  by (simp add: NextKey_def)

lemma kept_send_auth_response [kept]:
  assumes inv: "server_inv w" and t: "transports w t \<noteq> None" and keys: "ae_private_keys ae \<noteq> []"
  shows "kept w (send_auth_response env ae token t w)"
proof -
  obtain tr where tr: "transports w t = Some tr" using t by blast
  obtain key ks where ks: "NextKey (ae_private_keys ae) (tr_keys tr) = Some (key, ks)" using NextKey_Some [OF keys] by force
  have none: "kept w1 (do { w2 \<leftarrow> SetConnectionState env t kCsUnauthorized w1;
      w3 \<leftarrow> on_transport t (SetConnectionEstablished True) w2; send_auth_publickey ae t w3 })"
    if "server_inv w1" "transports w1 t \<noteq> None" for w1
    by (intro kept_bind kept_SetConnectionState kept_on_transport kept_send_auth_publickey that)
      (use that registry_transport in auto)
  have some: "kept w1 (case adb_auth_sign ae k token of [] \<Rightarrow> Some w1
      | c # cs \<Rightarrow> send_packet_on (data_packet A_AUTH ADB_AUTH_SIGNATURE 0 (filled_block (c # cs))) t w1)"
    if "server_inv w1" "transports w1 t \<noteq> None" for w1 k
    using kept_send_packet_on [OF that] kept_Some [OF that(1)] by (simp split: list.split)
  have "kept w (on_transport t (\<lambda>tr. tr\<lparr>tr_keys := ks\<rparr>) w \<bind> (\<lambda>w1. case key of
      None \<Rightarrow> do { w2 \<leftarrow> SetConnectionState env t kCsUnauthorized w1;
        w3 \<leftarrow> on_transport t (SetConnectionEstablished True) w2; send_auth_publickey ae t w3 }
    | Some k \<Rightarrow> (case adb_auth_sign ae k token of [] \<Rightarrow> Some w1
      | c # cs \<Rightarrow> send_packet_on (data_packet A_AUTH ADB_AUTH_SIGNATURE 0 (filled_block (c # cs))) t w1)))"
  proof (rule kept_bind)
    show "kept w (on_transport t (\<lambda>tr. tr\<lparr>tr_keys := ks\<rparr>) w)" by (rule kept_on_transport [OF inv t]) simp_all
  next
    fix w1 assume w1: "server_inv w1" "registry w1 = registry w"
    have t1: "transports w1 t \<noteq> None" by (rule registry_transport [OF w1(2) t])
    show "kept w1 (case key of
      None \<Rightarrow> do { w2 \<leftarrow> SetConnectionState env t kCsUnauthorized w1;
        w3 \<leftarrow> on_transport t (SetConnectionEstablished True) w2; send_auth_publickey ae t w3 }
    | Some k \<Rightarrow> (case adb_auth_sign ae k token of [] \<Rightarrow> Some w1
      | c # cs \<Rightarrow> send_packet_on (data_packet A_AUTH ADB_AUTH_SIGNATURE 0 (filled_block (c # cs))) t w1))"
      using none [OF w1(1) t1] some [OF w1(1) t1] by (cases key) simp_all
  qed
  then show ?thesis using tr ks by (simp add: send_auth_response_def)
qed

lemma kept_adbd_auth_verified [kept]:
  assumes "server_inv w" and "transports w t \<noteq> None" and "length (get_connection_string env ae) \<le> MAX_PAYLOAD_V1"
  shows "kept w (adbd_auth_verified env ae t w)"
  unfolding adbd_auth_verified_def
  by (intro kept_bind kept_handle_online kept_send_connect assms) (use assms registry_transport in auto)

text \<open>Once the framework has given a transport an id, a disconnect callback of the framework may be registered.\<close>

lemma listener_inv_auth_id:
  assumes inv: "server_inv w" and tr: "transports w t = Some tr"
    and tr': "tr_auth_id tr' \<noteq> None" "set (tr_disconnects tr') \<subseteq> insert AdbDisconnected (set (tr_disconnects tr))"
      "set (tr_disconnects tr) \<subseteq> set (tr_disconnects tr')"
  shows "server_inv (w\<lparr>transports := (transports w)(t \<mapsto> tr')\<rparr>)"
proof -
  have "callbacks (w\<lparr>transports := (transports w)(t \<mapsto> tr')\<rparr>) = callbacks w"
    using tr tr'(2,3) by (auto simp: callbacks_def)
  then show ?thesis
    using inv tr tr'(1) sock_inv_transport [of w t tr] by (auto simp: server_inv_def listener_inv_def listeners_ok_def auth_ids_ok_def)
qed

lemma kept_notify [kept]:
  assumes "server_inv w" and "transports w t \<noteq> None"
  shows "kept w (adbd_notify_framework_connected_key ae t w)"
proof -
  obtain tr where tr: "transports w t = Some tr" using assms(2) by blast
  let ?w = "w\<lparr>framework_calls := framework_calls w @ [NotifyAuth (tr_auth_key tr)]\<rparr>"
  have "server_inv ?w" using assms(1) by simp
  from listener_inv_auth_id [OF this, of t tr "tr\<lparr>tr_auth_id := Some (ae_notify_id ae)\<rparr>"] tr
  show ?thesis by (auto simp: kept_def adbd_notify_framework_connected_key_def on_transport_def registry_def)
qed

lemma kept_confirm_key [kept]:
  assumes "server_inv w" and "transports w t \<noteq> None" and "ae_prompt_id ae = Some i"
  shows "kept w (adbd_auth_confirm_key ae t w)"
proof -
  obtain tr where tr: "transports w t = Some tr" using assms(2) by blast
  let ?tr = "AddDisconnect AdbDisconnected tr\<lparr>tr_auth_id := Some i\<rparr>"
  let ?w = "w\<lparr>transports := (transports w)(t \<mapsto> ?tr)\<rparr>"
  have inv: "server_inv ?w"
    by (rule listener_inv_auth_id [OF assms(1) tr]) (auto simp: AddDisconnect_def)
  let ?v = "?w\<lparr>auth_transports := (auth_transports w)(transport_auth_id w \<mapsto> t), transport_auth_id := transport_auth_id w + 1,
    framework_calls := framework_calls w @ [PromptUser (tr_auth_key (AddDisconnect AdbDisconnected tr)) (transport_auth_id w)]\<rparr>"
  have "adbd_auth_confirm_key ae t w = Some ?v"
    using tr assms(3) by (simp add: adbd_auth_confirm_key_def on_transport_def transport_to_callback_arg_def AddDisconnect_def)
  moreover have "server_inv ?v" using inv by simp
  moreover have "registry ?v = registry w" using tr by (auto simp: registry_def)
  ultimately show ?thesis by (simp add: kept_def)
qed

section \<open>Services\<close>

text \<open>
  What the dispatch needs of the services behind the sockets: opening one touches descriptors only, and
  none of them hands out a socket of its own (the daemon's debugger sockets do) or ends the process
  when it closes.
\<close>

definition services_ok :: "env \<Rightarrow> bool" where
  "services_ok env \<longleftrightarrow>
     (\<forall>name t w. \<exists>fd fi fo. e_service_to_fd env name t w = Some (fd, w\<lparr>in_fds := fi, out_fds := fo\<rparr>)) \<and>
     (\<forall>name t w. e_daemon_service_to_socket env name t w = Some (None, w)) \<and> (\<forall>name. \<not> e_exit_on_close env name)"

lemma services_ok_bare: "services_ok bare_env"
  unfolding services_ok_def
proof (intro conjI allI)
  fix name t and w :: world
  have "e_service_to_fd bare_env name t w = Some (None, w\<lparr>in_fds := in_fds w, out_fds := out_fds w\<rparr>)" by (simp add: bare_env_def)
  then show "\<exists>fd fi fo. e_service_to_fd bare_env name t w = Some (fd, w\<lparr>in_fds := fi, out_fds := fo\<rparr>)" by blast
qed (simp_all add: bare_env_def)

lemma create_local_service_socket_ok:
  assumes ok: "services_ok env" and inv: "sock_inv w" and id: "local_socket_next_id w + 1 \<noteq> 0" and t: "transports w t \<noteq> None"
  obtains r w' where "create_local_service_socket env name (Some t) w = Some (r, w')" and "sock_inv w'" and "outer w' = outer w"
    and "\<And>s. r = Some s \<Longrightarrow> \<exists>a. heap w' s = Some a \<and> is_local a \<and> \<not> so_closing a \<and> so_peer a = None"
proof -
  obtain fd fi fo where fd: "e_service_to_fd env name (Some t) w = Some (fd, w\<lparr>in_fds := fi, out_fds := fo\<rparr>)"
    using ok unfolding services_ok_def by blast
  define w1 where "w1 = w\<lparr>in_fds := fi, out_fds := fo\<rparr>"
  have inv1: "sock_inv w1" using inv sock_inv_same [of w1 w] by (simp add: w1_def same_sockets_def)
  have dm: "e_daemon_service_to_socket env name (Some t) w = Some (None, w)" "\<not> e_exit_on_close env name"
    using ok by (simp_all add: services_ok_def)
  have start: "(if \<not> e_host env then e_daemon_service_to_socket env name (Some t) w else Some (None, w)) = Some (None, w)"
    using dm(1) by simp
  show ?thesis
  proof (cases fd)
    case None
    then show ?thesis using that [of None w1] start fd inv1 by (simp add: create_local_service_socket_def w1_def)
  next
    case (Some n)
    define a where "a = fresh_local n (local_socket_next_id w1)\<lparr>so_transport := Some t, so_exit_on_close := False\<rparr>"
    let ?w = "w1\<lparr>heap := (heap w1)(next_addr w1 \<mapsto> a), next_addr := next_addr w1 + 1,
      local_socket_next_id := local_socket_next_id w1 + 1, local_socket_list := local_socket_list w1 @ [next_addr w1]\<rparr>"
    have id1: "local_socket_next_id w1 + 1 \<noteq> 0" using id by (simp add: w1_def)
    have a: "is_local a" "local_wf a" "\<not> so_closing a" "so_peer a = None" "so_id a = local_socket_next_id w1" "transport_alive w1 a"
      using t by (simp_all add: a_def transport_alive_def w1_def fresh_local_def init_socket_def local_wf_def)
    have inv2: "sock_inv ?w" by (rule add_local_ok [OF inv1 id1 a])
    have run: "create_local_service_socket env name (Some t) w = Some (Some (next_addr w1), ?w)"
      using start fd Some dm(2) create_local_socket_eq [OF id1, of n]
      by (simp add: create_local_service_socket_def w1_def [symmetric] update_socket_def a_def)
    have out: "outer ?w = outer w" by (simp add: w1_def)
    show ?thesis by (rule that [OF run inv2 out]) (use a in simp)
  qed
qed

lemma pair_remote_ok:
  assumes inv: "sock_inv w" and a: "heap w s = Some a" "is_local a" "\<not> so_closing a" "so_peer a = None"
    and t: "transports w t \<noteq> None" and i: "i \<noteq> 0"
  obtains w1 w2 w3 where "create_remote_socket i t w = Some (next_addr w, w1)"
    and "update_socket s (\<lambda>a. a\<lparr>so_peer := Some (next_addr w)\<rparr>) w1 = Some w2"
    and "update_socket (next_addr w) (\<lambda>a. a\<lparr>so_peer := Some s\<rparr>) w2 = Some w3"
    and "sock_inv w3" and "heap w3 s = Some (a\<lparr>so_peer := Some (next_addr w)\<rparr>)" and "outer w3 = outer w"
    and "transports w3 = transports w"
proof -
  define b where "b = (init_socket RemoteEnqueue RemoteReady RemoteShutdown RemoteClose)\<lparr>so_id := i, so_transport := Some t\<rparr>"
  define w1 where "w1 = w\<lparr>heap := (heap w)(next_addr w \<mapsto> b), next_addr := next_addr w + 1\<rparr>"
  have ne: "s \<noteq> next_addr w" using inv_addr [OF inv order_refl] a(1) by auto
  define w2 where "w2 = w1\<lparr>heap := (heap w1)(s \<mapsto> a\<lparr>so_peer := Some (next_addr w)\<rparr>)\<rparr>"
  define w3 where "w3 = w2\<lparr>heap := (heap w2)(next_addr w \<mapsto> b\<lparr>so_peer := Some s\<rparr>)\<rparr>"
  have "create_remote_socket i t w = Some (next_addr w, w1)"
    using i by (simp add: create_remote_socket_def new_socket_def w1_def b_def CHECK_def)
  moreover have "update_socket s (\<lambda>a. a\<lparr>so_peer := Some (next_addr w)\<rparr>) w1 = Some w2"
    using ne a(1) by (simp add: update_socket_def w1_def w2_def)
  moreover have "update_socket (next_addr w) (\<lambda>a. a\<lparr>so_peer := Some s\<rparr>) w2 = Some w3"
    using ne by (simp add: update_socket_def w1_def w2_def w3_def)
  moreover have "sock_inv w3"
  proof -
    have "w3 = w\<lparr>heap := (heap w)(s \<mapsto> a\<lparr>so_peer := Some (next_addr w)\<rparr>, next_addr w \<mapsto> b\<lparr>so_peer := Some s\<rparr>), next_addr := next_addr w + 1\<rparr>"
      using ne by (simp add: w1_def w2_def w3_def fun_upd_twist)
    then show ?thesis
      using pair_new_ok [OF inv a, of "b\<lparr>so_peer := Some s\<rparr>"] t i
      by (simp add: b_def init_socket_def socket_wf_def transport_alive_def)
  qed
  moreover have "heap w3 s = Some (a\<lparr>so_peer := Some (next_addr w)\<rparr>)" using ne by (simp add: w2_def w3_def)
  moreover have "outer w3 = outer w" "transports w3 = transports w" by (simp_all add: w1_def w2_def w3_def)
  ultimately show ?thesis using that by blast
qed

section \<open>The handlers\<close>

lemma find_local_socket_ok:
  assumes inv: "sock_inv w"
  obtains r where "find_local_socket i j w = Some r"
    and "\<And>s. r = Some s \<Longrightarrow> \<exists>a. heap w s = Some a \<and> is_local a \<and> \<not> so_closing a \<and> so_id a = i \<and>
      (j \<noteq> 0 \<longrightarrow> (\<exists>p b. so_peer a = Some p \<and> heap w p = Some b \<and> so_id b = j))"
proof -
  have "\<exists>r. find_local_socket_in i j w ss = Some r \<and> (\<forall>s. r = Some s \<longrightarrow>
      (\<exists>a. heap w s = Some a \<and> is_local a \<and> \<not> so_closing a \<and> so_id a = i \<and>
        (j \<noteq> 0 \<longrightarrow> (\<exists>p b. so_peer a = Some p \<and> heap w p = Some b \<and> so_id b = j))))"
    if "set ss \<subseteq> set (local_socket_list w)" for ss
    using that
  proof (induction ss)
    case (Cons s ss)
    then have "s \<in> set (local_socket_list w)" by simp
    then obtain a where a: "heap w s = Some a" "is_local a" "\<not> so_closing a" using inv_lists [OF inv] unfolding lists_ok_def by blast
    show ?case
    proof (cases "so_id a = i \<and> j \<noteq> 0")
      case True
      show ?thesis
      proof (cases "so_peer a")
        case (Some p)
        obtain b where "heap w p = Some b" by (rule peer_facts [OF inv a(1) Some])
        with True a Some show ?thesis by simp
      qed (use True a in simp)
    next
      case False
      with Cons a show ?thesis by auto
    qed
  qed simp
  from this [OF subset_refl] show ?thesis using that unfolding find_local_socket_def by blast
qed

lemma kept_sock_close:
  assumes inv: "server_inv w" and a: "heap w s = Some a"
  shows "kept w (sock_close s w)"
proof -
  have "sock_inv w" using inv by (simp add: server_inv_def)
  then obtain w' where w': "sock_close s w = Some w'" "sock_inv w'" by (rule sock_close_ok [OF _ a])
  show ?thesis by (rule kept_sockets [OF inv w' sock_close_outer [OF w'(1)]])
qed

lemma kept_handle_clse [kept]:
  assumes inv: "server_inv w" and t: "transports w t \<noteq> None"
  shows "kept w (handle_clse p t w)"
proof -
  have si: "sock_inv w" using inv by (simp add: server_inv_def)
  obtain tr where tr: "transports w t = Some tr" using t by blast
  obtain r where r: "find_local_socket (m_arg1 (p_msg p)) (m_arg0 (p_msg p)) w = Some r"
    "\<And>s. r = Some s \<Longrightarrow> \<exists>a. heap w s = Some a"
    using find_local_socket_ok [OF si] by metis
  show ?thesis
  proof (cases r)
    case None
    with r(1) tr kept_Some [OF inv] show ?thesis by (simp add: handle_clse_def Let_def)
  next
    case (Some s)
    then obtain a where a: "heap w s = Some a" using r(2) by blast
    obtain other where other: "(case so_peer a of None \<Rightarrow> Some False
        | Some q \<Rightarrow> do { b \<leftarrow> heap w q; Some (so_transport b \<noteq> Some t) }) = Some other"
    proof (cases "so_peer a")
      case (Some q)
      obtain b where "heap w q = Some b" by (rule peer_facts [OF si a Some])
      with that [of "so_transport b \<noteq> Some t"] Some show ?thesis by simp
    next
      case None
      with that [of False] show ?thesis by simp
    qed
    show ?thesis
      using r(1) tr Some a other kept_Some [OF inv] kept_sock_close [OF inv a] by (simp add: handle_clse_def Let_def)
  qed
qed

lemma kept_handle_wrte [kept]:
  assumes inv: "server_inv w" and t: "transports w t \<noteq> None" and data: "block_wf (p_payload p)"
  shows "kept w (handle_wrte env p t w)"
proof -
  have si: "sock_inv w" using inv by (simp add: server_inv_def)
  obtain tr where tr: "transports w t = Some tr" using t by blast
  obtain r where r: "find_local_socket (m_arg1 (p_msg p)) (m_arg0 (p_msg p)) w = Some r"
    "\<And>s. r = Some s \<Longrightarrow> \<exists>a. heap w s = Some a \<and> is_local a"
    using find_local_socket_ok [OF si] by metis
  show ?thesis
  proof (cases r)
    case None
    with r(1) tr kept_Some [OF inv] show ?thesis by (simp add: Let_def handle_wrte_def)
  next
    case (Some s)
    then obtain a where a: "heap w s = Some a" "is_local a" using r(2) by blast
    obtain v w' q n where e: "local_socket_enqueue s (p_payload p) w = Some (v, w')" "sock_inv w'"
      using local_socket_enqueue_ok [OF si a data] by (metis flushed_def)
    have "kept w (Some w')" by (rule kept_sockets [OF inv refl e(2) local_socket_enqueue_outer [OF e(1)]])
    with r(1) tr Some a e(1) kept_Some [OF inv] show ?thesis by (simp add: Let_def handle_wrte_def sock_enqueue_def enqueue_plain_def)
  qed
qed

lemma kept_local_socket_ack:
  assumes inv: "server_inv w" and a: "heap w s = Some a" "is_local a" "\<not> so_closing a"
  shows "kept w (local_socket_ack env s acked w)"
proof -
  have "sock_inv w" using inv by (simp add: server_inv_def)
  from local_socket_ack_ok [OF this a] obtain w' where w': "local_socket_ack env s acked w = Some w'" "sock_inv w'" by blast
  show ?thesis by (rule kept_sockets [OF inv w' local_socket_ack_outer [OF w'(1)]])
qed

lemma kept_trans: "kept w1 r \<Longrightarrow> registry w1 = registry w \<Longrightarrow> kept w r"
  by (simp add: kept_def)

lemma kept_handle_okay [kept]:
  assumes inv: "server_inv w" and t: "transports w t \<noteq> None"
  shows "kept w (handle_okay env p t w)"
proof -
  let ?i = "m_arg1 (p_msg p)" and ?j = "m_arg0 (p_msg p)"
  have si: "sock_inv w" using inv by (simp add: server_inv_def)
  obtain tr where tr: "transports w t = Some tr" using t by blast
  obtain r where r: "find_local_socket ?i 0 w = Some r"
    "\<And>s. r = Some s \<Longrightarrow> \<exists>a. heap w s = Some a \<and> is_local a \<and> \<not> so_closing a"
    using find_local_socket_ok [OF si] by metis
  show ?thesis
  proof (cases "tr_online tr \<and> ?j \<noteq> 0 \<and> ?i \<noteq> 0")
    case False
    with tr kept_Some [OF inv] show ?thesis by (auto simp: handle_okay_def Let_def)
  next
    case go: True
    show ?thesis
    proof (cases r)
      case None
      with r(1) tr go kept_send_close [OF inv t] show ?thesis by (simp add: handle_okay_def Let_def)
    next
      case (Some s)
      then obtain a where a: "heap w s = Some a" "is_local a" "\<not> so_closing a" using r(2) by blast
      note start = r(1) tr go Some a(1)
      show ?thesis
      proof (cases "acked_bytes_of (block_bytes (p_payload p))")
        case None
        with start kept_Some [OF inv] show ?thesis by (simp add: handle_okay_def Let_def)
      next
        case acked: (Some acked)
        show ?thesis
        proof (cases "so_peer a")
          case None
          have j: "?j \<noteq> 0" using go by simp
          obtain w1 w2 w3 where w3: "create_remote_socket ?j t w = Some (next_addr w, w1)"
            "update_socket s (\<lambda>a. a\<lparr>so_peer := Some (next_addr w)\<rparr>) w1 = Some w2"
            "update_socket (next_addr w) (\<lambda>a. a\<lparr>so_peer := Some s\<rparr>) w2 = Some w3"
            "sock_inv w3" "heap w3 s = Some (a\<lparr>so_peer := Some (next_addr w)\<rparr>)" "outer w3 = outer w"
            by (rule pair_remote_ok [OF si a None t j])
          have "kept w3 (local_socket_ack env s acked w3)"
            by (rule kept_local_socket_ack [OF server_inv_outer [OF inv w3(6,4)] w3(5)]) (use a in simp_all)
          then have "kept w (local_socket_ack env s acked w3)" by (rule kept_trans) (rule registry_outer [OF w3(6)])
          with start acked None w3 show ?thesis by (simp add: handle_okay_def Let_def)
        next
          case peer: (Some q)
          obtain b where b: "heap w q = Some b" by (rule peer_facts [OF si a(1) peer])
          with start acked peer kept_local_socket_ack [OF inv a] kept_Some [OF inv] show ?thesis by (simp add: handle_okay_def Let_def)
        qed
      qed
    qed
  qed
qed

lemma kept_handle_open [kept]:
  assumes inv: "server_inv w" and tr: "transports w t = Some tr" and ok: "services_ok env"
    and id: "local_socket_next_id w + 1 \<noteq> 0"
    and host: "e_host env \<Longrightarrow> \<exists>name. c_str (payload_memory (p_payload p)) = Some name \<and> IsReverseConfigured name tr"
  shows "kept w (handle_open env p t w)"
proof -
  let ?i = "m_arg0 (p_msg p)" and ?n = "m_arg1 (p_msg p)"
  let ?address = "StripTrailingNulls (block_bytes (p_payload p))"
  have si: "sock_inv w" and t: "transports w t \<noteq> None" using inv tr by (simp_all add: server_inv_def)
  show ?thesis
  proof (cases "tr_online tr \<and> ?i \<noteq> 0 \<and> tr_delayed_ack tr = (?n \<noteq> 0)")
    case False
    with tr kept_Some [OF inv] kept_send_close [OF inv t] show ?thesis by (auto simp: handle_open_def Let_def)
  next
    case go: True
    have allowed: "(if e_host env then do { name \<leftarrow> c_str (payload_memory (p_payload p)); CHECK (IsReverseConfigured name tr) }
        else Some ()) = Some ()"
      using host by auto
    obtain r w1 where r: "create_local_service_socket env ?address (Some t) w = Some (r, w1)" "sock_inv w1" "outer w1 = outer w"
      "\<And>s. r = Some s \<Longrightarrow> \<exists>a. heap w1 s = Some a \<and> is_local a \<and> \<not> so_closing a \<and> so_peer a = None"
      using create_local_service_socket_ok [OF ok si id t] by metis
    have inv1: "server_inv w1" by (rule server_inv_outer [OF inv r(3,2)])
    have reg1: "registry w1 = registry w" by (rule registry_outer [OF r(3)])
    have t1: "transports w1 t \<noteq> None" by (rule registry_transport [OF reg1 t])
    show ?thesis
    proof (cases r)
      case None
      have "kept w (send_close 0 ?i t w1)" by (rule kept_trans [OF kept_send_close [OF inv1 t1] reg1])
      with None r(1) tr go allowed show ?thesis by (simp add: handle_open_def Let_def)
    next
      case (Some s)
      then obtain a where a: "heap w1 s = Some a" "is_local a" "\<not> so_closing a" "so_peer a = None" using r(4) by blast
      have i: "?i \<noteq> 0" using go by simp
      obtain w2 w3 w4 where w4: "create_remote_socket ?i t w1 = Some (next_addr w1, w2)"
        "update_socket s (\<lambda>a. a\<lparr>so_peer := Some (next_addr w1)\<rparr>) w2 = Some w3"
        "update_socket (next_addr w1) (\<lambda>a. a\<lparr>so_peer := Some s\<rparr>) w3 = Some w4"
        "sock_inv w4" "heap w4 s = Some (a\<lparr>so_peer := Some (next_addr w1)\<rparr>)" "outer w4 = outer w1" "transports w4 = transports w1"
        by (rule pair_remote_ok [OF r(2) a t1 i])
      have inv4: "server_inv w4" by (rule server_inv_outer [OF inv1 w4(6,4)])
      obtain tr4 where tr4: "transports w4 t = Some tr4" using t1 w4(7) by auto
      define b where "b = (if tr_delayed_ack tr4 then a\<lparr>so_peer := Some (next_addr w1), so_available_send_bytes := Some (uint ?n)\<rparr>
        else a\<lparr>so_peer := Some (next_addr w1)\<rparr>)"
      define w5 where "w5 = w4\<lparr>heap := (heap w4)(s \<mapsto> b)\<rparr>"
      have si5: "sock_inv w5"
      proof (cases "tr_delayed_ack tr4")
        case True
        with set_send_bytes_ok [OF w4(4,5), of "Some (uint ?n)"] a(2) show ?thesis by (simp add: w5_def b_def)
      next
        case False
        have "w5 = w4" using w4(5) False by (simp add: w5_def b_def fun_upd_idem)
        with w4(4) show ?thesis by simp
      qed
      have t5: "transports w5 t \<noteq> None" using tr4 by (simp add: w5_def)
      obtain w6 where w6: "send_ready (so_id a) ?i t (if tr_delayed_ack tr4 then of_nat INITIAL_DELAYED_ACK_BYTES else 0) w5 = Some w6"
        "w6 = w5\<lparr>transports := transports w6\<rparr>" "same_sockets w5 w6"
        by (rule send_ready_ok [OF t5])
      have si6: "sock_inv w6" by (rule sock_inv_transports [OF si5 w6(2,3)])
      have h6: "heap w6 s = Some b" by (subst w6(2)) (simp add: w5_def)
      have "\<not> so_closing b" using a(3) by (simp add: b_def)
      then obtain w7 where w7: "sock_ready env s w6 = Some w7" "sock_inv w7" using sock_ready_ok [OF si6 h6] by blast
      have out: "outer w7 = outer w"
        using sock_ready_outer [OF w7(1)] send_ready_outer [OF w6(1)] w4(6) r(3) by (simp add: w5_def)
      have "(if tr_delayed_ack tr4 then do {
               w5 \<leftarrow> update_socket s (\<lambda>a. a\<lparr>so_available_send_bytes := Some (uint ?n)\<rparr>) w4;
               send_ready (so_id a) ?i t (of_nat INITIAL_DELAYED_ACK_BYTES) w5
             } else send_ready (so_id a) ?i t 0 w4) = Some w6"
        using w6(1) w4(5) by (auto simp: w5_def b_def update_socket_def fun_upd_idem)
      then have "handle_open env p t w = Some w7"
        using Some r(1) tr go allowed w4(1,2,3,5) tr4 w7(1)
        by (cases "tr_delayed_ack tr4") (simp_all add: handle_open_def Let_def)
      then show ?thesis by (rule kept_sockets [OF inv _ w7(2) out])
    qed
  qed
qed

lemma update_version_fields [simp]:
  "tr_disconnects (update_version v n tr) = tr_disconnects tr" "tr_auth_id (update_version v n tr) = tr_auth_id tr"
  "tr_online (update_version v n tr) = tr_online tr"
  by (simp_all add: update_version_def)

lemma kept_handle_new_connection [kept]:
  assumes inv: "server_inv w" and t: "transports w t \<noteq> None" and lb: "libbase_ok (e_libbase env)"
    and len: "length (get_connection_string env ae) \<le> MAX_PAYLOAD_V1"
  shows "kept w (handle_new_connection env ae (send_auth_request ae) t p w)"
proof -
  have daemon: "kept w4 (do { tr \<leftarrow> transports w4 t;
       if tr_use_tls tr then send_tls_request t w4
       else if \<not> ae_auth_required ae then do { w5 \<leftarrow> handle_online env ae t w4; send_connect env ae t w5 }
       else send_auth_request ae t w4 })" if w4: "server_inv w4" "transports w4 t \<noteq> None" for w4
  proof -
    have "kept w4 (do { w5 \<leftarrow> handle_online env ae t w4; send_connect env ae t w5 })"
      by (intro kept_bind kept_handle_online kept_send_connect w4 len) (use w4 registry_transport in auto)
    with kept_send_tls_request [OF w4] kept_send_auth_request [OF w4] w4(2) show ?thesis by auto
  qed
  have "kept w4 (if e_host env then handle_online env ae t w4 else do { tr \<leftarrow> transports w4 t;
       if tr_use_tls tr then send_tls_request t w4
       else if \<not> ae_auth_required ae then do { w5 \<leftarrow> handle_online env ae t w4; send_connect env ae t w5 }
       else send_auth_request ae t w4 })" if w4: "server_inv w4" "transports w4 t \<noteq> None" for w4
    using daemon [OF w4] kept_handle_online [OF w4] by (cases "e_host env") simp_all
  then show ?thesis
    unfolding handle_new_connection_def
    by (intro kept_bind kept_handle_offline kept_on_transport kept_parse_banner inv t lb) (use t registry_transport in auto)
qed

lemma kept_handle_auth [kept]:
  assumes inv: "server_inv w" and t: "transports w t \<noteq> None" and keys: "ae_private_keys ae \<noteq> []"
    and prompt: "ae_prompt_id ae = Some i" and len: "length (get_connection_string env ae) \<le> MAX_PAYLOAD_V1"
    and nul: "\<not> e_host env \<Longrightarrow> m_arg0 (p_msg p) = ADB_AUTH_RSAPUBLICKEY \<Longrightarrow> CHR 0x00 \<in> set (payload_memory (p_payload p))"
  shows "kept w (handle_auth env ae p t w)"
proof -
  obtain tr where tr: "transports w t = Some tr" using t by blast
  have st: "kept w (if tr_state tr \<noteq> kCsAuthorizing then SetConnectionState env t kCsAuthorizing w else Some w)"
    using kept_SetConnectionState [OF inv t] kept_Some [OF inv] by simp
  have token: "kept w (do {
      w1 \<leftarrow> (if tr_state tr \<noteq> kCsAuthorizing then SetConnectionState env t kCsAuthorizing w else Some w);
      send_auth_response env ae (block_bytes (p_payload p)) t w1 })"
    by (rule kept_bind [OF st]) (use kept_send_auth_response keys registry_transport [OF _ t] in auto)
  have good: "kept w (do {
      w1 \<leftarrow> adbd_auth_verified env ae t w;
      w2 \<leftarrow> on_transport t (\<lambda>tr. tr\<lparr>tr_failed_auth_attempts := 0, tr_auth_key := k\<rparr>) w1;
      adbd_notify_framework_connected_key ae t w2 })" for k
    by (intro kept_bind kept_adbd_auth_verified kept_on_transport kept_notify inv t len) (use t registry_transport in auto)
  have bad: "kept w (do {
      w1 \<leftarrow> on_transport t (\<lambda>tr. tr\<lparr>tr_failed_auth_attempts := tr_failed_auth_attempts tr + 1\<rparr>) w; send_auth_request ae t w1 })"
    by (intro kept_bind kept_send_auth_request kept_on_transport inv t) (use t registry_transport in auto)
  have key: "kept w (do { w1 \<leftarrow> on_transport t (\<lambda>tr. tr\<lparr>tr_auth_key := k\<rparr>) w; adbd_auth_confirm_key ae t w1 })" for k
    by (intro kept_bind kept_confirm_key kept_on_transport inv t) (use t registry_transport prompt in auto)
  have off: "kept w (do { w1 \<leftarrow> SetConnectionState env t kCsOffline w; handle_offline env ae t w1 })"
    by (intro kept_bind kept_handle_offline kept_SetConnectionState inv t) (use t registry_transport in auto)
  have case_sig: "kept w (case adbd_auth_verify ae (tr_token tr) (block_bytes (p_payload p)) of
      Some auth_key \<Rightarrow> do {
        w1 \<leftarrow> adbd_auth_verified env ae t w;
        w2 \<leftarrow> on_transport t (\<lambda>tr. tr\<lparr>tr_failed_auth_attempts := 0, tr_auth_key := auth_key\<rparr>) w1;
        adbd_notify_framework_connected_key ae t w2 }
    | None \<Rightarrow> do {
        w1 \<leftarrow> on_transport t (\<lambda>tr. tr\<lparr>tr_failed_auth_attempts := tr_failed_auth_attempts tr + 1\<rparr>) w; send_auth_request ae t w1 })"
    using good bad by (simp split: option.split)
  show ?thesis
    unfolding handle_auth_def
    using tr kept_Some [OF inv] token case_sig key off nul by (auto simp: c_str_def Let_def)
qed

text \<open>
  The surroundings of a server that works: the services are plain, the host has a key, the framework
  answers a prompt with an id, and the connection string fits into a packet.
\<close>

definition server_env_ok :: "env \<Rightarrow> auth_env \<Rightarrow> bool" where
  "server_env_ok env ae \<longleftrightarrow>
     libbase_ok (e_libbase env) \<and> services_ok env \<and> ae_private_keys ae \<noteq> [] \<and> ae_prompt_id ae \<noteq> None \<and>
     length (get_connection_string env ae) \<le> MAX_PAYLOAD_V1"

text \<open>
  A packet that the dispatch can take: its payload is a well-formed block of the announced size; a
  public key is terminated by a NUL; and an \<open>A_OPEN\<close> finds a free socket id and, at the host, names an
  address that was forwarded.
\<close>

definition packet_ok :: "env \<Rightarrow> apacket \<Rightarrow> atransport \<Rightarrow> world \<Rightarrow> bool" where
  "packet_ok env p tr w \<longleftrightarrow>
     block_wf (p_payload p) \<and> blk_size (p_payload p) = unat (m_data_length (p_msg p)) \<and>
     (\<not> e_host env \<and> m_command (p_msg p) = A_AUTH \<and> m_arg0 (p_msg p) = ADB_AUTH_RSAPUBLICKEY \<longrightarrow>
        CHR 0x00 \<in> set (payload_memory (p_payload p))) \<and>
     (m_command (p_msg p) = A_OPEN \<longrightarrow>
        local_socket_next_id w + 1 \<noteq> 0 \<and>
        (e_host env \<longrightarrow> (case c_str (payload_memory (p_payload p)) of None \<Rightarrow> False | Some name \<Rightarrow> IsReverseConfigured name tr)))"

lemma handle_packet_kept:
  assumes env: "server_env_ok env ae" and inv: "server_inv w" and tr: "transports w t = Some tr" and p: "packet_ok env p tr w"
  shows "kept w (handle_packet env ae p t w)"
proof -
  obtain i where env': "libbase_ok (e_libbase env)" "services_ok env" "ae_private_keys ae \<noteq> []" "ae_prompt_id ae = Some i"
    "length (get_connection_string env ae) \<le> MAX_PAYLOAD_V1"
    using env unfolding server_env_ok_def by blast
  have t: "transports w t \<noteq> None" using tr by simp
  have p': "block_wf (p_payload p)" "blk_size (p_payload p) = unat (m_data_length (p_msg p))"
    "\<not> e_host env \<Longrightarrow> m_command (p_msg p) = A_AUTH \<Longrightarrow> m_arg0 (p_msg p) = ADB_AUTH_RSAPUBLICKEY \<Longrightarrow>
        CHR 0x00 \<in> set (payload_memory (p_payload p))"
    "m_command (p_msg p) = A_OPEN \<Longrightarrow> local_socket_next_id w + 1 \<noteq> 0"
    "m_command (p_msg p) = A_OPEN \<Longrightarrow> e_host env \<Longrightarrow>
        \<exists>name. c_str (payload_memory (p_payload p)) = Some name \<and> IsReverseConfigured name tr"
    using p by (auto simp: packet_ok_def split: option.splits)
  have tls: "kept w (do { w1 \<leftarrow> on_transport t (\<lambda>tr. tr\<lparr>tr_use_tls := True\<rparr>) w;
       if e_host env then send_tls_request t w1 else Some w1 })"
    by (intro kept_bind kept_if kept_on_transport kept_send_tls_request kept_Some inv t) (use registry_transport [OF _ t] in auto)
  have "kept w (let command = m_command (p_msg p) in
       if command = A_CNXN then handle_new_connection env ae (send_auth_request ae) t p w
       else if command = A_STLS then do {
         w1 \<leftarrow> on_transport t (\<lambda>tr. tr\<lparr>tr_use_tls := True\<rparr>) w;
         if e_host env then send_tls_request t w1 else Some w1 }
       else if command = A_AUTH then handle_auth env ae p t w
       else if command = A_OPEN then handle_open env p t w
       else if command = A_OKAY then handle_okay env p t w
       else if command = A_CLSE then handle_clse p t w
       else if command = A_WRTE then handle_wrte env p t w
       else Some w)"
    unfolding Let_def
    by (intro kept_if kept_handle_new_connection [OF inv t env'(1,5)] tls kept_handle_auth [OF inv t env'(3,4,5)]
        kept_handle_open [OF inv tr env'(2)] kept_handle_okay [OF inv t] kept_handle_clse [OF inv t]
        kept_handle_wrte [OF inv t p'(1)] kept_Some [OF inv]) (rule p'(3-5); assumption)+
  with p'(2) show ?thesis by (simp only: handle_packet_def CHECK_True bind.bind_lunit)
qed

section \<open>Who is online\<close>

definition onlines :: "world \<Rightarrow> tref \<rightharpoonup> bool" where
  "onlines w t = map_option tr_online (transports w t)"

named_theorems onlines

lemma on_transport_onlines:
  "on_transport t f w = Some w' \<Longrightarrow> (\<And>tr. tr_online (f tr) = tr_online tr) \<Longrightarrow> onlines w' = onlines w"
  by (auto simp: on_transport_def onlines_def fun_eq_iff split: bind_splits)

lemma outer_onlines:
  assumes "outer w' = outer w"
  shows "onlines w' = onlines w"
proof
  fix t show "onlines w' t = onlines w t"
    by (rule outer_transport_cases [OF assms, of t]) (auto simp: onlines_def dest: tr_core_fields(3))
qed

lemma send_packet_on_onlines [onlines]: "send_packet_on p t w = Some w' \<Longrightarrow> onlines w' = onlines w"
  by (rule outer_onlines) (rule send_packet_on_outer)

lemma SetConnectionState_onlines [onlines]: "SetConnectionState env t st w = Some w' \<Longrightarrow> onlines w' = onlines w"
  by (auto simp: SetConnectionState_def split: bind_splits dest!: on_transport_onlines update_transports_outer outer_onlines)

lemma send_auth_request_onlines [onlines]: "send_auth_request ae t w = Some w' \<Longrightarrow> onlines w' = onlines w"
  by (auto simp: send_auth_request_def split: option.splits bind_splits dest!: on_transport_onlines send_packet_on_onlines)

lemma parse_prop_online [simp]: "tr_online (parse_prop env prop tr) = tr_online tr"
  by (simp add: parse_prop_def SetFeatures_def Let_def split: list.splits)

lemma fold_parse_prop_online [simp]: "tr_online (fold (parse_prop env) ps tr) = tr_online tr"
  by (induction ps arbitrary: tr) simp_all

lemma SetFeatures_online [simp]: "tr_online (SetFeatures lb h b s tr) = tr_online tr"
  by (simp add: SetFeatures_def Let_def)

lemma parse_banner_onlines [onlines]: "parse_banner env banner t w = Some w' \<Longrightarrow> onlines w' = onlines w"
  by (auto simp: parse_banner_def Let_def split: bind_splits if_splits dest!: on_transport_onlines SetConnectionState_onlines)

lemma confirm_key_onlines [onlines]: "adbd_auth_confirm_key ae t w = Some w' \<Longrightarrow> onlines w' = onlines w"
  by (auto simp: adbd_auth_confirm_key_def transport_to_callback_arg_def on_transport_def onlines_def fun_eq_iff AddDisconnect_def Let_def
      split: bind_splits option.splits)

lemma handle_offline_onlines:
  assumes "server_inv w" and "transports w t = Some tr" and "\<not> tr_online tr" and "handle_offline env ae t w = Some w'"
  shows "onlines w' t = Some False"
proof -
  obtain w1 tr1 where w1: "handle_offline env ae t w = Some w1" "transports w1 t = Some tr1"
    "tr_state tr = kCsOffline \<Longrightarrow> w1 = w"
    "tr_state tr \<noteq> kCsOffline \<Longrightarrow> tr_core tr1 = tr_core (tr\<lparr>tr_state := kCsOffline, tr_online := False, tr_disconnects := []\<rparr>)"
    using handle_offline_ok [OF assms(1,2)] by metis
  have "\<not> tr_online tr1"
  proof (cases "tr_state tr = kCsOffline")
    case False
    with tr_core_fields(3) [OF w1(4)] show ?thesis by simp
  qed (use w1 assms in simp)
  with w1(1,2) assms(4) show ?thesis by (simp add: onlines_def)
qed

lemma verify_Some:
  assumes "adbd_auth_verify ae token sig = Some k"
  shows "k \<in> set (ae_public_keys ae)" and "ae_key_valid ae (first_field k)" and "ae_verify ae (first_field k) token sig"
  using assms by (auto simp: adbd_auth_verify_def find_Some_iff)

lemma handle_new_connection_onlines:
  assumes inv: "server_inv w" and tr: "transports w t = Some tr" "\<not> tr_online tr" and d: "\<not> e_host env" "ae_auth_required ae"
    and run: "handle_new_connection env ae (send_auth_request ae) t p w = Some w'"
  shows "onlines w' t = Some False"
proof -
  obtain w1 w2 w3 where w: "handle_offline env ae t w = Some w1"
    "on_transport t (update_version (sint (m_arg0 (p_msg p))) (unat (m_arg1 (p_msg p)))) w1 = Some w2"
    "parse_banner env (block_bytes (p_payload p)) t w2 = Some w3"
    and last: "send_tls_request t w3 = Some w' \<or> send_auth_request ae t w3 = Some w'"
    using run d by (auto simp: handle_new_connection_def split: bind_splits if_splits)
  have "onlines w1 t = Some False" by (rule handle_offline_onlines [OF inv tr w(1)])
  moreover have "onlines w2 = onlines w1" by (rule on_transport_onlines [OF w(2)]) simp
  moreover have "onlines w3 = onlines w2" by (rule parse_banner_onlines [OF w(3)])
  moreover have "onlines w' = onlines w3"
    using last send_packet_on_onlines send_auth_request_onlines unfolding send_tls_request_def by blast
  ultimately show ?thesis by simp
qed

lemma handle_auth_onlines:
  assumes inv: "server_inv w" and tr: "transports w t = Some tr" "\<not> tr_online tr" and d: "\<not> e_host env"
    and bad: "\<not> (m_arg0 (p_msg p) = ADB_AUTH_SIGNATURE \<and> adbd_auth_verify ae (tr_token tr) (block_bytes (p_payload p)) \<noteq> None)"
    and run: "handle_auth env ae p t w = Some w'"
  shows "onlines w' t = Some False"
proof -
  have now: "onlines w t = Some False" using tr by (simp add: onlines_def)
  consider "w' = w"
    | w1 where "on_transport t (\<lambda>tr. tr\<lparr>tr_failed_auth_attempts := tr_failed_auth_attempts tr + 1\<rparr>) w = Some w1"
        "send_auth_request ae t w1 = Some w'"
    | w1 k where "on_transport t (\<lambda>tr. tr\<lparr>tr_auth_key := k\<rparr>) w = Some w1" "adbd_auth_confirm_key ae t w1 = Some w'"
    | w1 where "SetConnectionState env t kCsOffline w = Some w1" "handle_offline env ae t w1 = Some w'"
  proof -
    consider (tls) "tr_use_tls tr"
      | (sig) "\<not> tr_use_tls tr" "m_arg0 (p_msg p) = ADB_AUTH_SIGNATURE"
      | (key) "\<not> tr_use_tls tr" "m_arg0 (p_msg p) \<noteq> ADB_AUTH_SIGNATURE" "m_arg0 (p_msg p) = ADB_AUTH_RSAPUBLICKEY"
      | (other) "\<not> tr_use_tls tr" "m_arg0 (p_msg p) \<noteq> ADB_AUTH_SIGNATURE" "m_arg0 (p_msg p) \<noteq> ADB_AUTH_RSAPUBLICKEY"
      by blast
    then show thesis
    proof cases
      case sig
      with bad have "adbd_auth_verify ae (tr_token tr) (block_bytes (p_payload p)) = None" by blast
      with sig run tr d that(2) show ?thesis by (auto simp: handle_auth_def Let_def split: bind_splits)
    qed (use run tr d that in \<open>auto simp: handle_auth_def Let_def split: bind_splits\<close>)
  qed
  then show ?thesis
  proof cases
    case 2
    have "onlines w1 = onlines w" by (rule on_transport_onlines [OF 2(1)]) simp
    with send_auth_request_onlines [OF 2(2)] now show ?thesis by simp
  next
    case 3
    have "onlines w1 = onlines w" by (rule on_transport_onlines [OF 3(1)]) simp
    with confirm_key_onlines [OF 3(2)] now show ?thesis by simp
  next
    case 4
    obtain v where v: "SetConnectionState env t kCsOffline w = Some v" "server_inv v" by (rule SetConnectionState_ok [OF inv tr(1)])
    have "onlines w1 t = Some False" using SetConnectionState_onlines [OF 4(1)] now by simp
    then obtain tr1 where "transports w1 t = Some tr1" "\<not> tr_online tr1" by (auto simp: onlines_def)
    moreover have "server_inv w1" using v 4(1) by simp
    ultimately show ?thesis using handle_offline_onlines 4(2) by blast
  qed (use now in simp)
qed

lemma handle_online_onlines:
  assumes "handle_online env ae t w = Some w'"
  shows "onlines w' t = Some True"
  using assms
  by (auto simp: handle_online_def on_transport_def onlines_def IncrementActiveConnections_def split: bind_splits if_splits)

lemma notify_onlines [onlines]: "adbd_notify_framework_connected_key ae t w = Some w' \<Longrightarrow> onlines w' = onlines w"
  by (auto simp: adbd_notify_framework_connected_key_def on_transport_def onlines_def fun_eq_iff split: bind_splits)

lemma send_connect_onlines [onlines]: "send_connect env ae t w = Some w' \<Longrightarrow> onlines w' = onlines w"
  by (auto simp: send_connect_def Let_def split: bind_splits dest: send_packet_on_onlines)

lemma handle_auth_verified:
  assumes tr: "transports w t = Some tr" "\<not> tr_use_tls tr" and d: "\<not> e_host env" and sig: "m_arg0 (p_msg p) = ADB_AUTH_SIGNATURE"
    and k: "adbd_auth_verify ae (tr_token tr) (block_bytes (p_payload p)) = Some k" and run: "handle_auth env ae p t w = Some w'"
  shows "onlines w' t = Some True"
proof -
  obtain w0 w1 w2 where w: "handle_online env ae t w = Some w0" "send_connect env ae t w0 = Some w1"
    "on_transport t (\<lambda>tr. tr\<lparr>tr_failed_auth_attempts := 0, tr_auth_key := k\<rparr>) w1 = Some w2"
    "adbd_notify_framework_connected_key ae t w2 = Some w'"
    using run tr d sig k by (auto simp: handle_auth_def Let_def adbd_auth_verified_def split: bind_splits)
  have "onlines w2 = onlines w1" by (rule on_transport_onlines [OF w(3)]) simp
  with handle_online_onlines [OF w(1)] send_connect_onlines [OF w(2)] notify_onlines [OF w(4)] show ?thesis by simp
qed

section \<open>Properties\<close>


text \<open>A banner packet.\<close>

definition cnxn_packet :: apacket where
  "cnxn_packet = data_packet A_CNXN 0x01000001 4096 (filled_block ''device::features=cmd'')"

lemma server_env_ok_host: "server_env_ok bare_env device_auth"
proof -
  have "length (get_connection_string bare_env device_auth) \<le> MAX_PAYLOAD_V1" by code_simp
  then show ?thesis by (simp add: server_env_ok_def services_ok_bare device_auth_def) (simp add: bare_env_def ref_libbase_ok)
qed

lemma data_packet_fields [simp]:
  "m_command (p_msg (data_packet cmd a b data)) = cmd" "m_arg0 (p_msg (data_packet cmd a b data)) = a"
  "m_arg1 (p_msg (data_packet cmd a b data)) = b" "p_payload (data_packet cmd a b data) = data"
  "m_data_length (p_msg (data_packet cmd a b data)) = of_nat (blk_size data)"
  by (simp_all add: data_packet_def command_packet_def Let_def)

lemma filled_block_size [simp]: "blk_size (filled_block xs) = length xs"
  by (simp add: filled_block_def)

lemma packet_ok_cnxn: "packet_ok env cnxn_packet tr w"
  unfolding packet_ok_def cnxn_packet_def data_packet_fields by (simp add: A_CNXN_def A_AUTH_def A_OPEN_def)



text \<open>A client that answers the token it was sent; \<open>device_auth\<close> accepts the token itself as its signature.\<close>

definition signature_packet :: apacket where
  "signature_packet = data_packet A_AUTH ADB_AUTH_SIGNATURE 0 (filled_block (replicate 20 (CHR 0x07)))"

definition waiting_device :: "tref \<rightharpoonup> atransport" where
  "waiting_device = [7 \<mapsto> (new_atransport 1 kTransportUsb kCsHost)\<lparr>tr_token := replicate 20 (CHR 0x07)\<rparr>]"

lemma server_env_ok_device: "server_env_ok (bare_env\<lparr>e_host := False\<rparr>) device_auth"
proof -
  have "length (get_connection_string (bare_env\<lparr>e_host := False\<rparr>) device_auth) \<le> MAX_PAYLOAD_V1" by code_simp
  moreover have "services_ok (bare_env\<lparr>e_host := False\<rparr>)" using services_ok_bare by (simp add: services_ok_def)
  ultimately show ?thesis by (simp add: server_env_ok_def device_auth_def) (simp add: bare_env_def ref_libbase_ok)
qed


end
