(* ===== verification/Adb_Sockets_Flow.thy ===== *)
theory Adb_Sockets_Flow
  imports Adb_Sockets_Create Adb_Connection
begin

text \<open>
  What the sockets do with their data and with each other, as properties: data given to a local socket
  leaves its descriptor in order and complete, closing a socket takes its peer with it and nothing
  else, an event of the poller is handled without an abort, and a transport that went offline is
  referred to by nothing that is alive.
\<close>

section \<open>The stream through a socket\<close>

text \<open>Data from the other end, and the report that the descriptor can be written.\<close>

datatype flow_event = Incoming "byte block" | Writable

fun flow_step :: "env \<Rightarrow> addr \<Rightarrow> flow_event \<Rightarrow> world \<Rightarrow> world option" where
  "flow_step env s (Incoming data) w = do { (_, w1) \<leftarrow> sock_enqueue env s data w; Some w1 }"
| "flow_step env s Writable w = local_socket_event_func env s False True w"

fun flow_data :: "flow_event \<Rightarrow> bytes" where
  "flow_data (Incoming data) = block_bytes data"
| "flow_data Writable = []"

fun flow_ok :: "flow_event \<Rightarrow> bool" where
  "flow_ok (Incoming data) = block_wf data"
| "flow_ok Writable = True"

text \<open>What was written to the descriptor of a socket, followed by what is still queued.\<close>

definition stream_of :: "asocket \<Rightarrow> world \<Rightarrow> bytes" where
  "stream_of a w = os_log (out_fds w (so_fd a)) @ iov_bytes (so_packet_queue a)"

definition streaming :: "addr \<Rightarrow> int \<Rightarrow> bytes \<Rightarrow> world \<Rightarrow> bool" where
  "streaming s fd bs w \<longleftrightarrow>
     sock_inv w \<and> (\<exists>a. heap w s = Some a \<and> is_local a \<and> \<not> so_closing a \<and> so_fd a = fd \<and> stream_of a w = bs)"

lemma flushed_streaming:
  assumes "flushed s a q w n r w'" and "\<not> so_closing a" and "os_log (out_fds w (so_fd a)) @ iov_bytes q = bs"
  shows "streaming s (so_fd a) bs w'" and "\<And>fd. fd \<noteq> so_fd a \<Longrightarrow> out_fds w' fd = out_fds w fd" and "r \<noteq> Destroyed"
    and "\<And>x. x \<noteq> s \<Longrightarrow> heap w' x = heap w x"
proof -
  obtain a' where a': "heap w' s = Some a'" "is_local a'" "so_fd a' = so_fd a" "\<not> so_closing a'"
      "iov_bytes (so_packet_queue a') = drop n (iov_bytes q)" and r: "r \<noteq> Destroyed"
    using assms(1,2) by (cases r) (auto simp: flushed_def)
  have "stream_of a' w' = bs" using a'(3,5) assms(1,3) by (auto simp: stream_of_def flushed_def)
  then show "streaming s (so_fd a) bs w'" using a' assms(1) by (auto simp: streaming_def flushed_def)
  show "r \<noteq> Destroyed" by (rule r)
qed (use assms(1) in \<open>simp_all add: flushed_def\<close>)

lemma flow_step_streaming:
  assumes st: "streaming s fd bs w" and ok: "flow_ok e"
  shows "\<exists>w'. flow_step env s e w = Some w' \<and> streaming s fd (bs @ flow_data e) w' \<and>
    (\<forall>f. f \<noteq> fd \<longrightarrow> out_fds w' f = out_fds w f) \<and> (\<forall>x. x \<noteq> s \<longrightarrow> heap w' x = heap w x)"
proof -
  obtain a where a: "sock_inv w" "heap w s = Some a" "is_local a" "\<not> so_closing a" "so_fd a = fd" "stream_of a w = bs"
    using st unfolding streaming_def by blast
  show ?thesis
  proof (cases e)
    case (Incoming data)
    have data: "block_wf data" using ok Incoming by simp
    obtain r w' n where r: "local_socket_enqueue s data w = Some (case r of Destroyed \<Rightarrow> - 1 | TryAgain \<Rightarrow> 1 | Completed \<Rightarrow> 0, w')"
      "flushed s a (fst (iov_append data (so_packet_queue a))) w n r w'"
      by (rule local_socket_enqueue_ok [OF a(1-3) data])
    have "iov_wf (so_packet_queue a)" using inv_local_wf [OF a(1-3)] by (simp add: local_wf_def)
    then have "iov_bytes (fst (iov_append data (so_packet_queue a))) = iov_bytes (so_packet_queue a) @ block_bytes data"
      using iov_append_wf(2) data by blast
    then have "os_log (out_fds w (so_fd a)) @ iov_bytes (fst (iov_append data (so_packet_queue a))) = bs @ flow_data e"
      using a(6) Incoming by (simp add: stream_of_def)
    note f = flushed_streaming [OF r(2) a(4) this]
    have "flow_step env s e w = Some w'" using Incoming r(1) a(2,3) by (simp add: sock_enqueue_def enqueue_plain_def)
    with f a(5) show ?thesis by blast
  next
    case Writable
    obtain r w' n where r: "local_socket_flush_incoming s w = Some (r, w')" "flushed s a (so_packet_queue a) w n r w'"
      by (rule flush_incoming_event_ok [OF a(1-3)])
    have "os_log (out_fds w (so_fd a)) @ iov_bytes (so_packet_queue a) = bs @ flow_data e"
      using a(6) Writable by (simp add: stream_of_def)
    note f = flushed_streaming [OF r(2) a(4) this]
    have "flow_step env s e w = Some w'" using Writable r(1) f(3) by (simp add: local_socket_event_func_def)
    with f a(5) show ?thesis by blast
  qed
qed

text \<open>The stream of a socket as the abstraction of the world; \<open>w0\<close> is where the run began.\<close>

definition stream_at :: "addr \<Rightarrow> world \<Rightarrow> bytes" where
  "stream_at s w = (case heap w s of None \<Rightarrow> [] | Some a \<Rightarrow> stream_of a w)"

definition flow_inv :: "addr \<Rightarrow> int \<Rightarrow> world \<Rightarrow> world \<Rightarrow> bool" where
  "flow_inv s fd w0 w \<longleftrightarrow> streaming s fd (stream_at s w) w \<and>
     (\<forall>f. f \<noteq> fd \<longrightarrow> out_fds w f = out_fds w0 f) \<and> (\<forall>x. x \<noteq> s \<longrightarrow> heap w x = heap w0 x)"

lemma streaming_at: "streaming s fd bs w \<Longrightarrow> stream_at s w = bs"
  by (auto simp: streaming_def stream_at_def)

interpretation flow: simulation "flow_step env s" "flow_inv s fd w0" "stream_at s" "\<lambda>e _. flow_ok e" "\<lambda>e bs. bs @ flow_data e"
  for env s fd w0
proof
  fix w e assume "flow_inv s fd w0 w" and "flow_ok e"
  then show "\<exists>w'. flow_step env s e w = Some w' \<and> flow_inv s fd w0 w' \<and> stream_at s w' = stream_at s w @ flow_data e"
    using flow_step_streaming [of s fd "stream_at s w" w e env] streaming_at unfolding flow_inv_def by metis
qed

lemma all_allowed_all: "all_allowed (\<lambda>c _. P c) spec cs a = list_all P cs"
  by (induction cs arbitrary: a) simp_all

lemma fold_append_data: "fold (\<lambda>e bs. bs @ f e) es bs = bs @ concat (map f es)"
  by (induction es arbitrary: bs) simp_all

section \<open>A world with one socket\<close>

definition socket_world :: world where
  "socket_world = (initial_world one_device [7])\<lparr>heap := [0 \<mapsto> fresh_local 5 1], next_addr := 1, local_socket_next_id := 2,
     local_socket_list := [0], out_fds := (\<lambda>_. \<lparr>os_script = [Accept 2, Accept 0], os_log = []\<rparr>)\<rparr>"

lemma socket_world_inv: "sock_inv socket_world"
proof -
  let ?w = "(initial_world one_device [7])\<lparr>out_fds := (\<lambda>_. \<lparr>os_script = [Accept 2, Accept 0], os_log = []\<rparr>)\<rparr>"
  have "sock_inv (initial_world one_device [7])" using server_inv_one_device by (simp add: server_inv_def)
  then have inv: "sock_inv ?w" using sock_inv_same [of ?w "initial_world one_device [7]"] by (simp add: same_sockets_def)
  have fresh: "is_local (fresh_local 5 1)" "local_wf (fresh_local 5 1)" "\<not> so_closing (fresh_local 5 1)"
    "so_peer (fresh_local 5 1) = None" "so_id (fresh_local 5 1) = local_socket_next_id ?w" "transport_alive ?w (fresh_local 5 1)"
    by (simp_all add: initial_world_def transport_alive_def)
  have id: "local_socket_next_id ?w + 1 \<noteq> 0" by (simp add: initial_world_def)
  from add_local_ok [OF inv id fresh] show ?thesis by (simp add: socket_world_def initial_world_def)
qed

lemma socket_world_heap: "heap socket_world 0 = Some (fresh_local 5 1)"
  by (simp add: socket_world_def)

section \<open>Properties\<close>

text \<open>
  C8: A local socket is a stream.  Whatever blocks arrive for it and however the descriptor takes
  them, nothing aborts, and what was written to the descriptor followed by what is still queued is
  always what was there before followed by the data in order of arrival; no other socket and no other
  descriptor is touched.
\<close>

theorem socket_stream:
  assumes inv: "sock_inv w" and a: "heap w s = Some a" "is_local a" "\<not> so_closing a" and es: "list_all flow_ok es"
  shows "\<exists>w' a'. run_steps (flow_step env s) es w = Some w' \<and> sock_inv w' \<and> heap w' s = Some a' \<and> so_fd a' = so_fd a \<and>
    os_log (out_fds w' (so_fd a)) @ iov_bytes (so_packet_queue a') =
      os_log (out_fds w (so_fd a)) @ iov_bytes (so_packet_queue a) @ concat (map flow_data es) \<and>
    (\<forall>f. f \<noteq> so_fd a \<longrightarrow> out_fds w' f = out_fds w f) \<and> (\<forall>x. x \<noteq> s \<longrightarrow> heap w' x = heap w x)"
proof -
  have st: "stream_at s w = stream_of a w" using a(1) by (simp add: stream_at_def)
  then have "flow_inv s (so_fd a) w w" using inv a by (auto simp: flow_inv_def streaming_def)
  from flow.run_simulates [OF this, of es env] es obtain w' where w': "run_steps (flow_step env s) es w = Some w'"
    "flow_inv s (so_fd a) w w'" "stream_at s w' = stream_of a w @ concat (map flow_data es)"
    by (auto simp: all_allowed_all fold_append_data st)
  then obtain a' where "sock_inv w'" "heap w' s = Some a'" "so_fd a' = so_fd a"
      "stream_of a' w' = stream_of a w @ concat (map flow_data es)"
    unfolding flow_inv_def streaming_def by auto
  with w'(1,2) show ?thesis unfolding flow_inv_def by (auto simp: stream_of_def)
qed

theorem socket_stream_witness:
  "\<exists>w' a'. run_steps (flow_step bare_env 0) [Incoming (filled_block ''ab''), Writable, Incoming (filled_block ''cd'')] socket_world = Some w' \<and>
     heap w' 0 = Some a' \<and> os_log (out_fds w' 5) @ iov_bytes (so_packet_queue a') = ''abcd''"
proof -
  let ?es = "[Incoming (filled_block ''ab''), Writable, Incoming (filled_block ''cd'')]"
  have es: "list_all flow_ok ?es" by simp
  have start: "os_log (out_fds socket_world (so_fd (fresh_local 5 1))) @ iov_bytes (so_packet_queue (fresh_local 5 1)) = []"
    by (simp add: socket_world_def fresh_local_def init_socket_def iov_bytes_def iov_new_def iov_live_def)
  have fd: "so_fd (fresh_local 5 1) = 5" by (simp add: fresh_local_def init_socket_def)
  show ?thesis
    using socket_stream [OF socket_world_inv socket_world_heap _ _ es, of bare_env] start unfolding fd by auto
qed





text \<open>
  C30: The loop that closes the sockets of a transport ends, though every close changes the list it
  restarts on: it returns, no socket that is still open uses the transport, and the sockets that had
  nothing to do with it are untouched.
\<close>

theorem close_all_sockets_terminates:
  assumes "sock_inv w"
  shows "\<exists>w'. close_all_sockets t w = Some w' \<and> sock_inv w' \<and>
    (\<forall>s a. heap w' s = Some a \<longrightarrow> \<not> so_closing a \<longrightarrow> so_transport a \<noteq> Some t) \<and>
    (\<forall>s a. heap w s = Some a \<longrightarrow> \<not> uses_transport t w a \<longrightarrow> heap w' s = Some a)"
  using close_all_sockets_ok [OF assms, of t] by blast

theorem close_all_sockets_terminates_witness:
  "sock_inv socket_world \<and> (\<exists>w'. close_all_sockets 7 socket_world = Some w' \<and> heap w' 0 = Some (fresh_local 5 1))"
proof -
  have "\<not> uses_transport 7 socket_world (fresh_local 5 1)" by (simp add: uses_transport_def)
  with close_all_sockets_terminates [OF socket_world_inv, of 7] socket_world_heap socket_world_inv show ?thesis by blast
qed

text \<open>
  C16: A transport that goes offline can be deleted.  \<open>handle_offline\<close> returns from every state in which
  the invariant holds; afterwards the transport is offline, and, unless it was before, no open socket
  and no listener refers to it and no disconnect callback is left.
\<close>

theorem offline_unreferenced:
  assumes "server_inv w" and "transports w t = Some tr"
  shows "\<exists>w' tr'. handle_offline env ae t w = Some w' \<and> server_inv w' \<and> transports w' t = Some tr' \<and>
    tr_state tr' = kCsOffline \<and>
    (if tr_state tr = kCsOffline then w' = w
     else unreferenced t w' \<and> \<not> tr_online tr' \<and> tr_disconnects tr' = [])"
proof -
  obtain w' tr' where w': "handle_offline env ae t w = Some w'" "server_inv w'" "transports w' t = Some tr'"
    "tr_state tr' = kCsOffline" "tr_state tr = kCsOffline \<Longrightarrow> w' = w"
    "tr_state tr \<noteq> kCsOffline \<Longrightarrow> unreferenced t w' \<and>
      tr_core tr' = tr_core (tr\<lparr>tr_state := kCsOffline, tr_online := False, tr_disconnects := []\<rparr>)"
    using handle_offline_ok [OF assms] by metis
  have "\<not> tr_online tr'" "tr_disconnects tr' = []" if "tr_state tr \<noteq> kCsOffline"
    using tr_core_fields(1,3) [OF conjunct2 [OF w'(6) [OF that]]] by simp_all
  with w' show ?thesis by simp
qed

theorem offline_unreferenced_witness:
  "server_inv (initial_world one_device [7]) \<and>
   (\<exists>w'. handle_offline bare_env device_auth 7 (initial_world one_device [7]) = Some w' \<and> server_inv w' \<and> unreferenced 7 w')"
proof -
  have tr: "transports (initial_world one_device [7]) 7 = Some (new_atransport 1 kTransportUsb kCsDevice)"
    by (simp add: initial_world_def one_device_def)
  have st: "tr_state (new_atransport 1 kTransportUsb kCsDevice) \<noteq> kCsOffline" by (simp add: new_atransport_def)
  from offline_unreferenced [OF server_inv_one_device tr, of bare_env device_auth] st server_inv_one_device show ?thesis by auto
qed

end
