(* ===== verification/Adb_Registry.thy ===== *)
theory Adb_Registry
  imports Adb_Dispatch Adb_Sockets_Flow
begin

text \<open>
  The life of transports (\<open>transport.cpp\<close>): creation, registration, errors, reconnection and deletion.
  The state around the world is a record \<open>server\<close>: the tasks posted to the looper with
  \<open>fdevent_run_on_looper\<close>, the queue of the reconnect handler, and the counters of ids and objects.
  What the connection objects answer (whether they start, support detaching, reconnect) is an argument
  of the operations.
\<close>

section \<open>State\<close>

datatype task = HandlePacketTask apacket tref | ErrorTask tref | RegisterTask tref | UnregisterTask tref

datatype ReconnectResult = Retry | Success | Abort

record reconnect_attempt =
  at_transport :: tref
  at_time :: nat
  at_left :: nat

record server =
  sv_world :: world
  sv_tasks :: "task list"
  sv_reconnects :: "reconnect_attempt list"
  sv_running :: bool
  sv_next_id :: u64
  sv_next_ref :: tref

definition on_world :: "(world \<Rightarrow> world option) \<Rightarrow> server \<Rightarrow> server option" where
  "on_world f sv = do { w \<leftarrow> f (sv_world sv); Some (sv\<lparr>sv_world := w\<rparr>) }"

definition run_on_looper :: "task \<Rightarrow> server \<Rightarrow> server" where
  "run_on_looper k sv = sv\<lparr>sv_tasks := sv_tasks sv @ [k]\<rparr>"

section \<open>Creation\<close>

definition NextTransportId :: "server \<Rightarrow> u64 \<times> server" where
  "NextTransportId sv = (sv_next_id sv, sv\<lparr>sv_next_id := sv_next_id sv + 1\<rparr>)"

text \<open>
  \<open>new atransport\<close>, and \<open>delete\<close>.  The destructor also wakes whoever waits for the connection; the object
  that they wait on is shared and is not part of the world.
\<close>

definition new_transport :: "TransportType \<Rightarrow> ConnectionState \<Rightarrow> (atransport \<Rightarrow> atransport) \<Rightarrow> server \<Rightarrow> tref \<times> server" where
  "new_transport ty st f sv =
     (let (i, sv1) = NextTransportId sv; t = sv_next_ref sv1; w = sv_world sv1
      in (t, sv1\<lparr>sv_next_ref := t + 1,
                 sv_world := w\<lparr>transports := (transports w)(t \<mapsto> f (new_atransport i ty st))\<rparr>\<rparr>))"

definition delete_transport :: "tref \<Rightarrow> world \<Rightarrow> world option" where
  "delete_transport t w = do {
     tr \<leftarrow> transports w t;
     Some (w\<lparr>transports := (transports w)(t := None)\<rparr>)
   }"

definition register_transport :: "tref \<Rightarrow> server \<Rightarrow> server" where
  "register_transport t sv = run_on_looper (RegisterTask t) sv"

definition remove_transport :: "tref \<Rightarrow> server \<Rightarrow> server" where
  "remove_transport t sv = run_on_looper (UnregisterTask t) sv"

text \<open>Whether the serial number is free in a list of transports.\<close>

fun validate_transport_list :: "tref list \<Rightarrow> string \<Rightarrow> world \<Rightarrow> bool option" where
  "validate_transport_list [] serial w = Some True"
| "validate_transport_list (u # us) serial w = do {
     tr \<leftarrow> transports w u;
     if serial = tr_serial tr then Some False else validate_transport_list us serial w
   }"

text \<open>
  \<open>register_socket_transport\<close> up to the wait for the connection; \<open>init_ok\<close> is the answer of
  \<open>init_socket_transport\<close>.  \<open>None\<close> in the result is a failure.
\<close>

definition push_pending :: "tref \<Rightarrow> world \<Rightarrow> world" where
  "push_pending t w = w\<lparr>pending_list := t # pending_list w\<rparr>"

definition register_socket_transport :: "string \<Rightarrow> bool \<Rightarrow> bool \<Rightarrow> server \<Rightarrow> (tref option \<times> server) option" where
  "register_socket_transport serial use_tls init_ok sv = do {
     let (t, sv1) = new_transport kTransportLocal kCsOffline (\<lambda>tr. tr\<lparr>tr_use_tls := use_tls, tr_serial := serial\<rparr>) sv;
     if \<not> init_ok then do { sv2 \<leftarrow> on_world (delete_transport t) sv1; Some (None, sv2) }
     else do {
       ok1 \<leftarrow> validate_transport_list (pending_list (sv_world sv1)) serial (sv_world sv1);
       if \<not> ok1 then do { sv2 \<leftarrow> on_world (delete_transport t) sv1; Some (None, sv2) }
       else do {
         ok2 \<leftarrow> validate_transport_list (transport_list (sv_world sv1)) serial (sv_world sv1);
         if \<not> ok2 then do { sv2 \<leftarrow> on_world (delete_transport t) sv1; Some (None, sv2) }
         else Some (Some t, register_transport t (sv1\<lparr>sv_world := push_pending t (sv_world sv1)\<rparr>))
       }
     }
   }"

text \<open>\<open>WaitForConnection\<close> when the wait is over: it succeeded if the connection was established.\<close>

definition connection_result :: "atransport \<Rightarrow> string option" where
  "connection_result tr =
     (if tr_established tr \<noteq> Some True then Some ''ETIMEDOUT''
      else if tr_state tr = kCsUnauthorized then Some ''EPERM'' else None)"

definition register_usb_transport :: "string option \<Rightarrow> string option \<Rightarrow> bool \<Rightarrow> server \<Rightarrow> tref \<times> server" where
  "register_usb_transport serial devpath writeable sv =
     (let (t, sv1) = new_transport kTransportUsb (if writeable then kCsOffline else kCsNoPerm)
            (\<lambda>tr. tr\<lparr>tr_serial := (case serial of None \<Rightarrow> tr_serial tr | Some s \<Rightarrow> s),
                      tr_devpath := (case devpath of None \<Rightarrow> tr_devpath tr | Some d \<Rightarrow> d)\<rparr>) sv
      in (t, register_transport t (sv1\<lparr>sv_world := push_pending t (sv_world sv1)\<rparr>)))"

text \<open>\<open>unregister_usb_transport\<close>; \<open>has_handle\<close> tells which transports have the USB handle.\<close>

definition unregister_usb_transport :: "(tref \<Rightarrow> bool) \<Rightarrow> world \<Rightarrow> world option" where
  "unregister_usb_transport has_handle w = do {
     trs \<leftarrow> those (map (\<lambda>t. do { tr \<leftarrow> transports w t; Some (has_handle t \<and> tr_state tr = kCsNoPerm) }) (transport_list w));
     Some (w\<lparr>transport_list := map fst (filter (\<lambda>(t, gone). \<not> gone) (zip (transport_list w) trs))\<rparr>)
   }"

section \<open>On the looper\<close>

text \<open>\<open>start_detached\<close> is \<open>ShouldStartDetached\<close> and \<open>started\<close> the answer of \<open>Start\<close> of the connection.\<close>

definition move_from_pending :: "tref \<Rightarrow> world \<Rightarrow> world" where
  "move_from_pending t w =
     (if t \<in> set (pending_list w)
      then w\<lparr>pending_list := removeAll t (pending_list w), transport_list := t # transport_list w\<rparr> else w)"

definition start_transport :: "env \<Rightarrow> auth_env \<Rightarrow> bool \<Rightarrow> bool \<Rightarrow> tref \<Rightarrow> world \<Rightarrow> (bool \<times> world) option" where
  "start_transport env ae start_detached started t w = do {
     tr \<leftarrow> transports w t;
     if tr_state tr = kCsNoPerm then Some (True, w)
     else if e_host env then do {
       w1 \<leftarrow> (if tr_type tr = kTransportUsb \<and> start_detached then SetConnectionState env t kCsDetached w else Some w);
       tr1 \<leftarrow> transports w1 t;
       if tr_state tr1 = kCsDetached then Some (True, w1)
       else if started then do { w2 \<leftarrow> send_connect env ae t w1; Some (True, w2) }
       else Some (False, w1)
     } else Some (True, w)
   }"

definition fdevent_register_transport :: "env \<Rightarrow> auth_env \<Rightarrow> bool \<Rightarrow> bool \<Rightarrow> tref \<Rightarrow> world \<Rightarrow> world option" where
  "fdevent_register_transport env ae start_detached started t w = do {
     (go_on, w1) \<leftarrow> start_transport env ae start_detached started t w;
     if go_on then update_transports env (move_from_pending t w1) else Some w1
   }"

definition fdevent_unregister_transport :: "env \<Rightarrow> tref \<Rightarrow> world \<Rightarrow> world option" where
  "fdevent_unregister_transport env t w = do {
     let w1 = w\<lparr>transport_list := removeAll t (transport_list w), pending_list := removeAll t (pending_list w)\<rparr>;
     w2 \<leftarrow> delete_transport t w1;
     update_transports env w2
   }"

text \<open>\<open>transport_destroy\<close>: a TCP device that was not kicked is handed to the reconnect handler.\<close>

definition kMaxAttempts :: nat where "kMaxAttempts = 20"

definition attempt_less :: "reconnect_attempt \<Rightarrow> reconnect_attempt \<Rightarrow> bool" where
  "attempt_less a b \<longleftrightarrow>
     (if at_time a = at_time b then at_transport a < at_transport b else at_time a < at_time b)"

fun emplace :: "reconnect_attempt \<Rightarrow> reconnect_attempt list \<Rightarrow> reconnect_attempt list" where
  "emplace a [] = [a]"
| "emplace a (b # bs) =
     (if attempt_less a b then a # b # bs else if attempt_less b a then b # emplace a bs else b # bs)"

definition TrackTransport :: "nat \<Rightarrow> tref \<Rightarrow> server \<Rightarrow> server" where
  "TrackTransport now t sv =
     (if \<not> sv_running sv then sv
      else sv\<lparr>sv_reconnects := emplace \<lparr>at_transport = t, at_time = now + 250, at_left = kMaxAttempts\<rparr> (sv_reconnects sv)\<rparr>)"

definition StopConnection :: "atransport \<Rightarrow> atransport" where
  "StopConnection tr = tr\<lparr>tr_stops := tr_stops tr + 1\<rparr>"

definition transport_destroy :: "env \<Rightarrow> nat \<Rightarrow> tref \<Rightarrow> server \<Rightarrow> server option" where
  "transport_destroy env now t sv = do {
     sv1 \<leftarrow> on_world (on_transport t StopConnection) sv;
     tr \<leftarrow> transports (sv_world sv1) t;
     if e_host env \<and> IsTcpDevice tr \<and> \<not> tr_kicked tr then do {
       sv2 \<leftarrow> on_world (on_transport t (\<lambda>tr. tr\<lparr>tr_keys := ResetKeys (tr_keys tr)\<rparr>)) sv1;
       Some (TrackTransport now t sv2)
     }
     else Some (remove_transport t sv1)
   }"

text \<open>The two callbacks of a connection: a packet was read, and the connection ended.\<close>

definition HandleRead :: "apacket \<Rightarrow> tref \<Rightarrow> server \<Rightarrow> (bool \<times> server) option" where
  "HandleRead p t sv = do {
     tr \<leftarrow> transports (sv_world sv) t;
     Some (if check_header (tr_max_payload tr) p then (True, run_on_looper (HandlePacketTask p t) sv) else (False, sv))
   }"

definition HandleError :: "tref \<Rightarrow> server \<Rightarrow> server" where
  "HandleError t sv = run_on_looper (ErrorTask t) sv"

definition handle_error_task :: "env \<Rightarrow> auth_env \<Rightarrow> nat \<Rightarrow> tref \<Rightarrow> server \<Rightarrow> server option" where
  "handle_error_task env ae now t sv = do {
     sv1 \<leftarrow> on_world (handle_offline env ae t) sv;
     transport_destroy env now t sv1
   }"

section \<open>Kicking, attaching, detaching\<close>

definition kick_transport :: "tref \<Rightarrow> bool \<Rightarrow> world \<Rightarrow> world option" where
  "kick_transport t reset w =
     (if t \<in> set (transport_list w) then on_transport t (if reset then Reset else Kick) w else Some w)"

fun kick_those :: "(atransport \<Rightarrow> bool) \<Rightarrow> tref list \<Rightarrow> world \<Rightarrow> world option" where
  "kick_those P [] w = Some w"
| "kick_those P (t # ts) w = do {
     w1 \<leftarrow> on_transport t (\<lambda>tr. if P tr then Kick tr else tr) w;
     kick_those P ts w1
   }"

fun close_usb_devices_in :: "(atransport \<Rightarrow> bool) \<Rightarrow> bool \<Rightarrow> tref list \<Rightarrow> world \<Rightarrow> world option" where
  "close_usb_devices_in P reset [] w = Some w"
| "close_usb_devices_in P reset (t # ts) w = do {
     w1 \<leftarrow> on_transport t (\<lambda>tr. if P tr then (if reset then Reset tr else Kick tr) else tr) w;
     close_usb_devices_in P reset ts w1
   }"

definition close_usb_devices :: "(atransport \<Rightarrow> bool) \<Rightarrow> bool \<Rightarrow> world \<Rightarrow> world option" where
  "close_usb_devices P reset w = close_usb_devices_in P reset (transport_list w) w"

definition kick_all_tcp_tls_transports :: "world \<Rightarrow> world option" where
  "kick_all_tcp_tls_transports w = kick_those (\<lambda>tr. IsTcpDevice tr \<and> tr_use_tls tr) (transport_list w) w"

definition kick_all_tcp_devices :: "world \<Rightarrow> world option" where
  "kick_all_tcp_devices w = kick_those IsTcpDevice (transport_list w) w"

text \<open>
  \<open>Attach\<close> and \<open>Detach\<close>; the result is the error message, if any.  \<open>supports\<close> and \<open>answer\<close> are those of the
  connection.
\<close>

definition Attach :: "env \<Rightarrow> auth_env \<Rightarrow> bool \<Rightarrow> string option \<Rightarrow> tref \<Rightarrow> world \<Rightarrow> (string option \<times> world) option" where
  "Attach env ae supports answer t w = do {
     tr \<leftarrow> transports w t;
     if \<not> supports then Some (Some ''attach/detach not supported'', w)
     else if tr_state tr \<noteq> kCsDetached
     then Some (Some (''transport '' @ percent_s (tr_serial tr) @ '' is not detached''), w)
     else do {
       w1 \<leftarrow> on_transport t (\<lambda>tr. tr\<lparr>tr_keys := ResetKeys (tr_keys tr)\<rparr>) w;
       (case answer of
          Some e \<Rightarrow> Some (Some e, w1)
        | None \<Rightarrow> do { w2 \<leftarrow> send_connect env ae t w1; Some (None, w2) })
     }
   }"

definition Detach :: "env \<Rightarrow> auth_env \<Rightarrow> bool \<Rightarrow> string option \<Rightarrow> tref \<Rightarrow> world \<Rightarrow> (string option \<times> world) option" where
  "Detach env ae supports answer t w = do {
     tr \<leftarrow> transports w t;
     if \<not> supports then Some (Some ''attach/detach not supported!'', w)
     else if tr_state tr = kCsDetached
     then Some (Some (''transport '' @ percent_s (tr_serial tr) @ '' is already detached''), w)
     else do {
       w1 \<leftarrow> handle_offline env ae t w;
       (case answer of
          Some e \<Rightarrow> Some (Some e, w1)
        | None \<Rightarrow> do { w2 \<leftarrow> SetConnectionState env t kCsDetached w1; Some (None, w2) })
     }
   }"

section \<open>The reconnect handler\<close>

text \<open>
  \<open>Run\<close> in two steps, because it reconnects without its lock: taking the next attempt that is due,
  after giving up on the transports that were kicked, and acting on the result.
\<close>

fun split_kicked :: "world \<Rightarrow> reconnect_attempt list \<Rightarrow> (tref list \<times> reconnect_attempt list) option" where
  "split_kicked w [] = Some ([], [])"
| "split_kicked w (a # as) = do {
     tr \<leftarrow> transports w (at_transport a);
     (gone, rest) \<leftarrow> split_kicked w as;
     Some (if tr_kicked tr then (at_transport a # gone, rest) else (gone, a # rest))
   }"

definition reconnect_take :: "nat \<Rightarrow> server \<Rightarrow> (reconnect_attempt option \<times> server) option" where
  "reconnect_take now sv =
     (if \<not> sv_running sv then Some (None, sv)
      else do {
        (gone, rest) \<leftarrow> split_kicked (sv_world sv) (sv_reconnects sv);
        let sv1 = fold remove_transport gone (sv\<lparr>sv_reconnects := rest\<rparr>);
        Some (case rest of
                [] \<Rightarrow> (None, sv1)
              | a # as \<Rightarrow> if at_time a > now then (None, sv1) else (Some a, sv1\<lparr>sv_reconnects := as\<rparr>))
      })"

definition reconnect_finish :: "nat \<Rightarrow> reconnect_attempt \<Rightarrow> ReconnectResult \<Rightarrow> server \<Rightarrow> server" where
  "reconnect_finish now a result sv =
     (case result of
        Retry \<Rightarrow>
          if at_left a = 0 then remove_transport (at_transport a) sv
          else sv\<lparr>sv_reconnects := emplace
                 \<lparr>at_transport = at_transport a, at_time = now + 3000, at_left = at_left a - 1\<rparr> (sv_reconnects sv)\<rparr>
      | Success \<Rightarrow> register_transport (at_transport a) sv
      | Abort \<Rightarrow> remove_transport (at_transport a) sv)"

text \<open>\<open>Stop\<close> drains the queue; \<open>kick_all_transports\<close> then kicks everything that is registered.\<close>

definition reconnect_stop :: "server \<Rightarrow> server" where
  "reconnect_stop sv =
     fold remove_transport (map at_transport (sv_reconnects sv)) (sv\<lparr>sv_running := False, sv_reconnects := []\<rparr>)"

definition kick_all_transports :: "env \<Rightarrow> server \<Rightarrow> server option" where
  "kick_all_transports env sv =
     (let sv1 = (if e_host env then reconnect_stop sv else sv)
      in on_world (\<lambda>w. kick_those (\<lambda>_. True) (transport_list w) w) sv1)"

text \<open>A task of the looper; \<open>answer\<close> gives \<open>ShouldStartDetached\<close> and \<open>Start\<close> of a connection.\<close>

definition run_task :: "env \<Rightarrow> auth_env \<Rightarrow> (tref \<Rightarrow> bool \<times> bool) \<Rightarrow> nat \<Rightarrow> task \<Rightarrow> server \<Rightarrow> server option" where
  "run_task env ae answer now k sv =
     (case k of
        HandlePacketTask p t \<Rightarrow> on_world (handle_packet env ae p t) sv
      | ErrorTask t \<Rightarrow> handle_error_task env ae now t sv
      | RegisterTask t \<Rightarrow> on_world (fdevent_register_transport env ae (fst (answer t)) (snd (answer t)) t) sv
      | UnregisterTask t \<Rightarrow> on_world (fdevent_unregister_transport env t) sv)"

section \<open>Deleting a transport\<close>

lemma delete_unreferenced:
  assumes inv: "server_inv w" and un: "unreferenced t w"
  shows "server_inv (w\<lparr>transport_list := removeAll t (transport_list w), pending_list := removeAll t (pending_list w),
    transports := (transports w)(t := None)\<rparr>)" (is "server_inv ?w")
proof -
  have "transports_ok ?w" using inv un by (auto simp: server_inv_def sock_inv_def transports_ok_def unreferenced_def)
  moreover have "lists_ok ?w = lists_ok w" "peers_ok ?w = peers_ok w" "ids_ok ?w = ids_ok w"
    by (simp_all add: lists_ok_def peers_ok_def ids_ok_def cong: option.case_cong)
  ultimately have "sock_inv ?w" using inv unfolding server_inv_def sock_inv_def by simp
  moreover have "callbacks ?w = callbacks w"
  proof -
    have "(x, t) \<notin> callbacks w" for x
      using inv un by (auto simp: server_inv_def listener_inv_def listeners_ok_def listener_refs_def unreferenced_def)
    then show ?thesis by (auto simp: callbacks_def split: if_splits)
  qed
  ultimately show ?thesis using inv by (auto simp: server_inv_def listener_inv_def listeners_ok_def auth_ids_ok_def)
qed

lemma fdevent_unregister_ok:
  assumes inv: "server_inv w" and un: "unreferenced t w" and t: "transports w t \<noteq> None"
  obtains w' where "fdevent_unregister_transport env t w = Some w'" and "server_inv w'" and "transports w' t = None"
    and "t \<notin> set (transport_list w')" and "t \<notin> set (pending_list w')"
    and "\<And>u. u \<noteq> t \<Longrightarrow> transports w u \<noteq> None \<Longrightarrow> transports w' u \<noteq> None"
proof -
  define w1 where "w1 = w\<lparr>transport_list := removeAll t (transport_list w), pending_list := removeAll t (pending_list w),
    transports := (transports w)(t := None)\<rparr>"
  have inv1: "server_inv w1" unfolding w1_def by (rule delete_unreferenced [OF inv un])
  obtain w' where w': "update_transports env w1 = Some w'" "sock_inv w'" "same_sockets w1 w'"
    using update_transports_ok inv1 unfolding server_inv_def by blast
  have "fdevent_unregister_transport env t w = Some w'"
    using t w'(1) by (auto simp: fdevent_unregister_transport_def delete_transport_def w1_def)
  moreover have "server_inv w'" by (rule server_inv_outer [OF inv1 update_transports_outer [OF w'(1)] w'(2)])
  moreover have "transports w' u = None \<longleftrightarrow> (u = t \<or> transports w u = None)" "transport_list w' = removeAll t (transport_list w)"
    "pending_list w' = removeAll t (pending_list w)" for u
    using w'(3) by (auto simp: same_sockets_def w1_def)
  ultimately show ?thesis by (intro that [of w']) (simp_all del: not_None_eq)
qed

section \<open>The end of a connection\<close>

lemma on_transport_unreferenced:
  assumes "on_transport t f w = Some w'" and "unreferenced u w"
  shows "unreferenced u w'"
  using assms by (auto simp: on_transport_def unreferenced_def split: bind_splits)

lemma StopConnection_fields [simp]:
  "tr_disconnects (StopConnection tr) = tr_disconnects tr" "tr_auth_id (StopConnection tr) = tr_auth_id tr"
  "tr_state (StopConnection tr) = tr_state tr" "tr_kicked (StopConnection tr) = tr_kicked tr" "tr_type (StopConnection tr) = tr_type tr"
  by (simp_all add: StopConnection_def)

lemma TrackTransport_world [simp]: "sv_world (TrackTransport now t sv) = sv_world sv"
  by (simp add: TrackTransport_def)

lemma remove_transport_world [simp]: "sv_world (remove_transport t sv) = sv_world sv" "sv_world (register_transport t sv) = sv_world sv"
  by (simp_all add: remove_transport_def register_transport_def run_on_looper_def)

text \<open>After an error the transport is at rest: offline, and nothing refers to it.\<close>

definition at_rest :: "tref \<Rightarrow> world \<Rightarrow> bool" where
  "at_rest t w \<longleftrightarrow> unreferenced t w \<and> (\<exists>tr. transports w t = Some tr \<and> tr_state tr = kCsOffline)"

text \<open>An offline transport that nothing refers to, or one that is not offline.\<close>

definition accounted :: "tref \<Rightarrow> world \<Rightarrow> bool" where
  "accounted t w \<longleftrightarrow> (\<forall>tr. transports w t = Some tr \<longrightarrow> tr_state tr = kCsOffline \<longrightarrow> unreferenced t w)"

lemma handle_error_ok:
  assumes inv: "server_inv (sv_world sv)" and tr: "transports (sv_world sv) t = Some tr" and acc: "accounted t (sv_world sv)"
  obtains sv' where "handle_error_task env ae now t sv = Some sv'" and "server_inv (sv_world sv')"
    and "at_rest t (sv_world sv')" and "registry (sv_world sv') = registry (sv_world sv)"
    and "(sv_tasks sv' = sv_tasks sv @ [UnregisterTask t] \<and> sv_reconnects sv' = sv_reconnects sv) \<or>
      (sv_tasks sv' = sv_tasks sv \<and> e_host env \<and> IsTcpDevice tr \<and>
       (sv_running sv \<longrightarrow> sv_reconnects sv' =
          emplace \<lparr>at_transport = t, at_time = now + 250, at_left = kMaxAttempts\<rparr> (sv_reconnects sv)))"
proof -
  obtain w1 tr1 where w1: "handle_offline env ae t (sv_world sv) = Some w1" "server_inv w1" "same_sockets (sv_world sv) w1"
    "transports w1 t = Some tr1" "tr_state tr1 = kCsOffline" "tr_state tr = kCsOffline \<Longrightarrow> w1 = sv_world sv"
    "tr_state tr \<noteq> kCsOffline \<Longrightarrow> unreferenced t w1 \<and>
      tr_core tr1 = tr_core (tr\<lparr>tr_state := kCsOffline, tr_online := False, tr_disconnects := []\<rparr>)"
    using handle_offline_ok [OF inv tr] by metis
  have un1: "unreferenced t w1"
    using w1(6,7) acc tr by (cases "tr_state tr = kCsOffline") (auto simp: accounted_def)
  have ty: "tr_type tr1 = tr_type tr"
  proof (cases "tr_state tr = kCsOffline")
    case False
    with tr_core_fields(14) [OF conjunct2 [OF w1(7)]] show ?thesis by simp
  qed (use w1 tr in simp)
  define w2 where "w2 = w1\<lparr>transports := (transports w1)(t \<mapsto> StopConnection tr1)\<rparr>"
  have w2: "on_transport t StopConnection w1 = Some w2" "server_inv w2" "same_sockets w1 w2"
    unfolding w2_def by (rule on_transport_ok [OF w1(2,4)]; simp)+
  have tr2: "transports w2 t = Some (StopConnection tr1)" by (simp add: w2_def)
  define w3 where "w3 = w2\<lparr>transports := (transports w2)(t \<mapsto> StopConnection tr1\<lparr>tr_keys := ResetKeys (tr_keys (StopConnection tr1))\<rparr>)\<rparr>"
  have w3: "on_transport t (\<lambda>tr. tr\<lparr>tr_keys := ResetKeys (tr_keys tr)\<rparr>) w2 = Some w3" "server_inv w3" "same_sockets w2 w3"
    unfolding w3_def by (rule on_transport_ok [OF w2(2) tr2]; simp)+
  have un2: "unreferenced t w2" by (rule on_transport_unreferenced [OF w2(1) un1])
  have rest2: "at_rest t w2" using un2 tr2 w1(5) by (simp add: at_rest_def)
  have rest3: "at_rest t w3" using on_transport_unreferenced [OF w3(1) un2] w1(5) by (simp add: at_rest_def w3_def)
  have reg: "registry w2 = registry (sv_world sv)" "registry w3 = registry (sv_world sv)"
    using registry_same [OF w1(3)] registry_same [OF w2(3)] registry_same [OF w3(3)] by simp_all
  have start: "handle_error_task env ae now t sv =
      (if e_host env \<and> IsTcpDevice tr \<and> \<not> tr_kicked tr1 then Some (TrackTransport now t (sv\<lparr>sv_world := w3\<rparr>))
       else Some (remove_transport t (sv\<lparr>sv_world := w2\<rparr>)))"
    using w1(1) w2(1) w3(1) tr2 ty
    by (simp add: handle_error_task_def transport_destroy_def on_world_def IsTcpDevice_def)
  show ?thesis
  proof (cases "e_host env \<and> IsTcpDevice tr \<and> \<not> tr_kicked tr1")
    case True
    show ?thesis
      by (rule that [of "TrackTransport now t (sv\<lparr>sv_world := w3\<rparr>)"])
        (use True start w3(2) rest3 reg in \<open>simp_all add: TrackTransport_def\<close>)
  next
    case False
    show ?thesis
      by (rule that [of "remove_transport t (sv\<lparr>sv_world := w2\<rparr>)"])
        (use False start w2(2) rest2 reg in \<open>auto simp: remove_transport_def run_on_looper_def\<close>)
  qed
qed

section \<open>Giving up\<close>

text \<open>
  The handler on its own, while every reconnection fails and nothing else happens: one pass is a
  \<open>reconnect_take\<close> when the first attempt is due, followed by \<open>reconnect_finish\<close> with \<open>Retry\<close>.
\<close>

definition failing_pass :: "server \<Rightarrow> server option" where
  "failing_pass sv = do {
     let now = (case sv_reconnects sv of [] \<Rightarrow> 0 | a # _ \<Rightarrow> at_time a);
     (r, sv1) \<leftarrow> reconnect_take now sv;
     Some (case r of None \<Rightarrow> sv1 | Some a \<Rightarrow> reconnect_finish now a Retry sv1)
   }"

fun failing_passes :: "nat \<Rightarrow> server \<Rightarrow> server option" where
  "failing_passes 0 sv = Some sv"
| "failing_passes (Suc n) sv = do { sv1 \<leftarrow> failing_pass sv; failing_passes n sv1 }"

definition queue_ok :: "server \<Rightarrow> bool" where
  "queue_ok sv \<longleftrightarrow> sv_running sv \<and>
     (\<forall>a \<in> set (sv_reconnects sv). \<exists>tr. transports (sv_world sv) (at_transport a) = Some tr \<and> \<not> tr_kicked tr) \<and>
     distinct (map at_transport (sv_reconnects sv))"

text \<open>How many more passes the queue can need.\<close>

definition attempts_left :: "server \<Rightarrow> nat" where
  "attempts_left sv = (\<Sum>a\<leftarrow>sv_reconnects sv. Suc (at_left a))"

lemma split_kicked_none:
  assumes "\<forall>a \<in> set as. \<exists>tr. transports w (at_transport a) = Some tr \<and> \<not> tr_kicked tr"
  shows "split_kicked w as = Some ([], as)"
  using assms by (induction as) auto

lemma emplace_new:
  assumes "at_transport a \<notin> at_transport ` set as"
  shows "mset (emplace a as) = add_mset a (mset as)"
  using assms
proof (induction as)
  case (Cons b bs)
  moreover have "attempt_less a b \<or> attempt_less b a" using Cons.prems by (auto simp: attempt_less_def)
  ultimately show ?case by auto
qed simp

lemma emplace_set: "at_transport a \<notin> at_transport ` set as \<Longrightarrow> set (emplace a as) = insert a (set as)"
  using emplace_new [of a as] by (metis set_mset_mset set_mset_add_mset_insert)

lemma emplace_map: "at_transport a \<notin> at_transport ` set as \<Longrightarrow> mset (map at_transport (emplace a as)) = add_mset (at_transport a) (mset (map at_transport as))"
  using emplace_new [of a as] by simp

lemma emplace_sum:
  fixes f :: "reconnect_attempt \<Rightarrow> nat"
  assumes "at_transport a \<notin> at_transport ` set as"
  shows "(\<Sum>x\<leftarrow>emplace a as. f x) = f a + (\<Sum>x\<leftarrow>as. f x)"
proof -
  have "(\<Sum>x\<leftarrow>emplace a as. f x) = sum_mset (mset (map f (emplace a as)))" by (simp only: sum_mset_sum_list)
  also have "mset (map f (emplace a as)) = add_mset (f a) (mset (map f as))" using emplace_new [OF assms] by simp
  finally show ?thesis by (simp only: sum_mset.add_mset sum_mset_sum_list)
qed

lemma failing_pass_ok:
  assumes q: "queue_ok sv"
  obtains sv' where "failing_pass sv = Some sv'" and "queue_ok sv'"
    and "attempts_left sv' = attempts_left sv - 1" and "sv_world sv' = sv_world sv"
    and "at_transport ` set (sv_reconnects sv') \<union> {t. UnregisterTask t \<in> set (sv_tasks sv')} =
      at_transport ` set (sv_reconnects sv) \<union> {t. UnregisterTask t \<in> set (sv_tasks sv)}"
proof (cases "sv_reconnects sv")
  case Nil
  show ?thesis
    by (rule that [of sv]) (use Nil q in \<open>simp_all add: failing_pass_def reconnect_take_def queue_ok_def attempts_left_def Let_def\<close>)
next
  case (Cons a as)
  have run: "sv_running sv" and live: "\<forall>a \<in> set (sv_reconnects sv). \<exists>tr. transports (sv_world sv) (at_transport a) = Some tr \<and> \<not> tr_kicked tr"
    and dist: "distinct (map at_transport (sv_reconnects sv))" using q by (auto simp: queue_ok_def)
  have a: "at_transport a \<notin> at_transport ` set as" using dist Cons by simp
  have take: "reconnect_take (at_time a) sv = Some (Some a, sv\<lparr>sv_reconnects := as\<rparr>)"
    using run split_kicked_none [OF live] Cons by (simp add: reconnect_take_def Let_def)
  let ?sv = "reconnect_finish (at_time a) a Retry (sv\<lparr>sv_reconnects := as\<rparr>)"
  have pass: "failing_pass sv = Some ?sv" using take Cons by (simp add: failing_pass_def Let_def)
  show ?thesis
  proof (cases "at_left a = 0")
    case True
    then have sv': "?sv = sv\<lparr>sv_reconnects := as, sv_tasks := sv_tasks sv @ [UnregisterTask (at_transport a)]\<rparr>"
      by (simp add: reconnect_finish_def remove_transport_def run_on_looper_def)
    show ?thesis
      by (rule that [OF pass]) (use True run live dist Cons in \<open>auto simp: sv' queue_ok_def attempts_left_def\<close>)
  next
    case False
    define b where "b = \<lparr>at_transport = at_transport a, at_time = at_time a + 3000, at_left = at_left a - 1\<rparr>"
    have b: "at_transport b \<notin> at_transport ` set as" using a by (simp add: b_def)
    have sv': "?sv = sv\<lparr>sv_reconnects := emplace b as\<rparr>" using False by (simp add: reconnect_finish_def b_def)
    have "distinct (map at_transport (emplace b as))"
    proof -
      have "mset (map at_transport (emplace b as)) = mset (map at_transport (b # as))" using emplace_new [OF b] by simp
      moreover have "distinct (map at_transport (b # as))" using dist Cons by (simp add: b_def)
      ultimately show ?thesis using mset_eq_imp_distinct_iff by blast
    qed
    moreover have "attempts_left ?sv = attempts_left sv - 1"
      using False Cons emplace_sum [OF b, of "\<lambda>a. Suc (at_left a)"] by (simp add: sv' attempts_left_def b_def)
    moreover have "at_transport ` set (emplace b as) = at_transport ` set (sv_reconnects sv)"
      using emplace_set [OF b] Cons by (simp add: b_def)
    moreover have "\<forall>x \<in> set (emplace b as). \<exists>tr. transports (sv_world sv) (at_transport x) = Some tr \<and> \<not> tr_kicked tr"
      using emplace_set [OF b] live Cons by (auto simp: b_def)
    ultimately show ?thesis by (intro that [OF pass]) (simp_all add: sv' queue_ok_def run)
  qed
qed

lemma failing_passes_ok:
  assumes "queue_ok sv"
  shows "\<exists>sv'. failing_passes n sv = Some sv' \<and> queue_ok sv' \<and> attempts_left sv' = attempts_left sv - n \<and> sv_world sv' = sv_world sv \<and>
    at_transport ` set (sv_reconnects sv') \<union> {t. UnregisterTask t \<in> set (sv_tasks sv')} =
      at_transport ` set (sv_reconnects sv) \<union> {t. UnregisterTask t \<in> set (sv_tasks sv)}"
  using assms
proof (induction n arbitrary: sv)
  case (Suc n)
  obtain sv1 where sv1: "failing_pass sv = Some sv1" "queue_ok sv1"
    "attempts_left sv1 = attempts_left sv - 1" "sv_world sv1 = sv_world sv"
    "at_transport ` set (sv_reconnects sv1) \<union> {t. UnregisterTask t \<in> set (sv_tasks sv1)} =
      at_transport ` set (sv_reconnects sv) \<union> {t. UnregisterTask t \<in> set (sv_tasks sv)}"
    by (rule failing_pass_ok [OF Suc.prems])
  from Suc.IH [OF sv1(2)] sv1 show ?case by auto
qed simp

section \<open>Serial numbers\<close>

text \<open>The serial numbers of the TCP devices that are registered or pending.\<close>

definition tcp_serial :: "atransport option \<Rightarrow> string list" where
  "tcp_serial r = (case r of None \<Rightarrow> [] | Some tr \<Rightarrow> if IsTcpDevice tr then [tr_serial tr] else [])"

definition tcp_serials :: "world \<Rightarrow> string list" where
  "tcp_serials w = concat (map (tcp_serial \<circ> transports w) (pending_list w @ transport_list w))"

definition serials_ok :: "server \<Rightarrow> bool" where
  "serials_ok sv \<longleftrightarrow> distinct (tcp_serials (sv_world sv)) \<and>
     (\<forall>t \<in> set (pending_list (sv_world sv)) \<union> set (transport_list (sv_world sv)).
        transports (sv_world sv) t \<noteq> None \<and> t < sv_next_ref sv)"

lemma validate_transport_list_ok:
  assumes "\<forall>u \<in> set us. transports w u \<noteq> None"
  shows "validate_transport_list us serial w = Some (\<forall>u \<in> set us. tr_serial (the (transports w u)) \<noteq> serial)"
  using assms by (induction us) auto

lemma tcp_serials_same:
  assumes "pending_list w' = pending_list w" and "transport_list w' = transport_list w"
    and "\<And>u. u \<in> set (pending_list w) \<union> set (transport_list w) \<Longrightarrow> transports w' u = transports w u"
  shows "tcp_serials w' = tcp_serials w"
  unfolding tcp_serials_def using assms by (intro arg_cong [where f = concat] map_cong) auto

datatype register_cmd = RegisterSocket string bool bool | RegisterUsb "string option" "string option" bool

fun register_step :: "register_cmd \<Rightarrow> server \<Rightarrow> server option" where
  "register_step (RegisterSocket serial use_tls init_ok) sv = do { (_, sv1) \<leftarrow> register_socket_transport serial use_tls init_ok sv; Some sv1 }"
| "register_step (RegisterUsb serial devpath writeable) sv = Some (snd (register_usb_transport serial devpath writeable sv))"

lemma new_transport_ok:
  assumes ok: "serials_ok sv" and new: "new_transport ty st f sv = (t, sv1)"
  shows "serials_ok sv1" and "t = sv_next_ref sv" and "sv_next_ref sv1 = t + 1" and "t \<notin> set (pending_list (sv_world sv1)) \<union> set (transport_list (sv_world sv1))"
    and "transports (sv_world sv1) t = Some (f (new_atransport (sv_next_id sv) ty st))"
    and "pending_list (sv_world sv1) = pending_list (sv_world sv)" and "transport_list (sv_world sv1) = transport_list (sv_world sv)"
    and "tcp_serials (sv_world sv1) = tcp_serials (sv_world sv)"
proof -
  let ?w = "sv_world sv"
  have t: "t = sv_next_ref sv" and sv1: "sv1 = sv\<lparr>sv_next_id := sv_next_id sv + 1, sv_next_ref := t + 1,
      sv_world := ?w\<lparr>transports := (transports ?w)(t \<mapsto> f (new_atransport (sv_next_id sv) ty st))\<rparr>\<rparr>"
    using new by (auto simp: new_transport_def NextTransportId_def Let_def)
  have fresh: "t \<notin> set (pending_list ?w) \<union> set (transport_list ?w)" using ok t unfolding serials_ok_def by blast
  have same: "tcp_serials (sv_world sv1) = tcp_serials ?w"
    by (rule tcp_serials_same) (use fresh in \<open>auto simp: sv1\<close>)
  show "serials_ok sv1" using ok fresh same t unfolding serials_ok_def by (auto simp: sv1 less_Suc_eq)
  show "t = sv_next_ref sv" "tcp_serials (sv_world sv1) = tcp_serials ?w" by (fact t same)+
qed (use ok new in \<open>auto simp: new_transport_def NextTransportId_def Let_def serials_ok_def\<close>)

lemma push_pending_ok:
  assumes ok: "serials_ok sv" and t: "transports (sv_world sv) t = Some tr" "t < sv_next_ref sv"
    and free: "IsTcpDevice tr \<Longrightarrow> tr_serial tr \<notin> set (tcp_serials (sv_world sv))"
  shows "serials_ok (register_transport t (sv\<lparr>sv_world := push_pending t (sv_world sv)\<rparr>))"
proof -
  let ?w = "sv_world sv"
  have "tcp_serials (push_pending t ?w) = (if IsTcpDevice tr then [tr_serial tr] else []) @ tcp_serials ?w"
    using t(1) by (simp add: tcp_serials_def push_pending_def tcp_serial_def)
  then show ?thesis
    using ok t free by (simp add: serials_ok_def register_transport_def run_on_looper_def push_pending_def)
qed

lemma tcp_serials_free:
  assumes "serials_ok sv" and "\<forall>u \<in> set (pending_list (sv_world sv)) \<union> set (transport_list (sv_world sv)).
    tr_serial (the (transports (sv_world sv) u)) \<noteq> serial"
  shows "serial \<notin> set (tcp_serials (sv_world sv))"
  using assms by (auto simp: tcp_serials_def tcp_serial_def split: if_splits option.splits) (metis UnI1 UnI2 option.sel)+

lemma register_step_ok:
  assumes ok: "serials_ok sv"
  shows "\<exists>sv'. register_step c sv = Some sv' \<and> serials_ok sv'"
proof (cases c)
  case (RegisterUsb serial devpath writeable)
  obtain t sv1 where new: "new_transport kTransportUsb (if writeable then kCsOffline else kCsNoPerm)
      (\<lambda>tr. tr\<lparr>tr_serial := (case serial of None \<Rightarrow> tr_serial tr | Some s \<Rightarrow> s),
                tr_devpath := (case devpath of None \<Rightarrow> tr_devpath tr | Some d \<Rightarrow> d)\<rparr>) sv = (t, sv1)" by fastforce
  note n = new_transport_ok [OF ok new]
  have "serials_ok (register_transport t (sv1\<lparr>sv_world := push_pending t (sv_world sv1)\<rparr>))"
    by (rule push_pending_ok [OF n(1) n(5)]) (use n(3) in \<open>simp_all add: IsTcpDevice_def new_atransport_def\<close>)
  then show ?thesis using RegisterUsb new by (simp add: register_usb_transport_def)
next
  case (RegisterSocket serial use_tls init_ok)
  let ?f = "\<lambda>tr. tr\<lparr>tr_use_tls := use_tls, tr_serial := serial\<rparr>"
  obtain t sv1 where new: "new_transport kTransportLocal kCsOffline ?f sv = (t, sv1)" by fastforce
  note n = new_transport_ok [OF ok new]
  let ?w = "sv_world sv1"
  have in1: "\<forall>u \<in> set (pending_list ?w) \<union> set (transport_list ?w). transports ?w u \<noteq> None"
    using n(1) unfolding serials_ok_def by blast
  define del where "del = sv1\<lparr>sv_world := ?w\<lparr>transports := (transports ?w)(t := None)\<rparr>\<rparr>"
  have del: "on_world (delete_transport t) sv1 = Some del" using n(5) by (simp add: on_world_def delete_transport_def del_def)
  have "tcp_serials (sv_world del) = tcp_serials ?w" by (rule tcp_serials_same) (use n(4) in \<open>auto simp: del_def\<close>)
  then have okd: "serials_ok del" using n(1,4) by (auto simp: serials_ok_def del_def)
  have val: "validate_transport_list (pending_list ?w) serial ?w = Some (\<forall>u \<in> set (pending_list ?w). tr_serial (the (transports ?w u)) \<noteq> serial)"
    "validate_transport_list (transport_list ?w) serial ?w = Some (\<forall>u \<in> set (transport_list ?w). tr_serial (the (transports ?w u)) \<noteq> serial)"
    by (rule validate_transport_list_ok; use in1 in blast)+
  have okn: "serials_ok (register_transport t (sv1\<lparr>sv_world := push_pending t ?w\<rparr>))"
    if "\<forall>u \<in> set (pending_list ?w) \<union> set (transport_list ?w). tr_serial (the (transports ?w u)) \<noteq> serial"
    by (rule push_pending_ok [OF n(1,5)]) (use n(3) tcp_serials_free [OF n(1) that] in simp_all)
  show ?thesis
    using RegisterSocket new del val okd okn by (auto simp: register_socket_transport_def Let_def)
qed

interpretation registration: simulation register_step serials_ok "\<lambda>_. ()" "\<lambda>_ _. True" "\<lambda>_ _. ()"
  by unfold_locales (use register_step_ok in simp)

section \<open>Properties\<close>


definition one_device_server :: server where
  "one_device_server = \<lparr>sv_world = initial_world one_device [7], sv_tasks = [], sv_reconnects = [], sv_running = True,
     sv_next_id = 2, sv_next_ref = 8\<rparr>"


text \<open>
  C26: The reconnect handler gives up.  When every attempt fails, after as many passes as there are
  attempts left in the queue the queue is empty, and every transport that was in it is on its way to be
  unregistered: no transport is retried forever, and none is lost.
\<close>

theorem reconnect_gives_up:
  assumes "queue_ok sv"
  shows "\<exists>sv'. failing_passes (attempts_left sv) sv = Some sv' \<and> sv_reconnects sv' = [] \<and> sv_world sv' = sv_world sv \<and>
    (\<forall>t \<in> at_transport ` set (sv_reconnects sv). UnregisterTask t \<in> set (sv_tasks sv'))"
proof -
  obtain sv' where sv': "failing_passes (attempts_left sv) sv = Some sv'" "attempts_left sv' = 0" "sv_world sv' = sv_world sv"
    "at_transport ` set (sv_reconnects sv') \<union> {t. UnregisterTask t \<in> set (sv_tasks sv')} =
      at_transport ` set (sv_reconnects sv) \<union> {t. UnregisterTask t \<in> set (sv_tasks sv)}"
    using failing_passes_ok [OF assms, of "attempts_left sv"] by auto
  have "sv_reconnects sv' = []" using sv'(2) by (cases "sv_reconnects sv'") (simp_all add: attempts_left_def)
  with sv' show ?thesis by auto
qed

definition tracked_server :: server where
  "tracked_server = TrackTransport 0 7 one_device_server"

theorem reconnect_gives_up_witness:
  "attempts_left tracked_server = 21 \<and>
   (\<exists>sv'. failing_passes 21 tracked_server = Some sv' \<and> sv_reconnects sv' = [] \<and> UnregisterTask 7 \<in> set (sv_tasks sv'))"
proof -
  have sv: "sv_reconnects tracked_server = [\<lparr>at_transport = 7, at_time = 250, at_left = 20\<rparr>]" "sv_running tracked_server"
    "transports (sv_world tracked_server) 7 = Some (new_atransport 1 kTransportUsb kCsDevice)"
    by (simp_all add: tracked_server_def TrackTransport_def one_device_server_def kMaxAttempts_def initial_world_def one_device_def)
  have q: "queue_ok tracked_server" by (simp add: queue_ok_def sv) (simp add: new_atransport_def)
  have n: "attempts_left tracked_server = 21" by (simp add: attempts_left_def sv)
  from reconnect_gives_up [OF q] show ?thesis unfolding n by (auto simp: sv)
qed

text \<open>
  C27: Serial numbers of TCP devices are unique.  Over any sequence of registrations, of sockets and
  USB devices, no two TCP transports that are pending or registered have the same serial number.
\<close>

theorem tcp_serials_unique:
  assumes "serials_ok sv"
  shows "\<exists>sv'. run_steps register_step cs sv = Some sv' \<and> serials_ok sv' \<and> distinct (tcp_serials (sv_world sv'))"
proof -
  have "all_allowed (\<lambda>_ _. True) (\<lambda>_ _. ()) cs ()" by (induction cs) simp_all
  from registration.run_simulates [OF assms, of cs] this show ?thesis by (auto simp: serials_ok_def)
qed

theorem tcp_serials_unique_witness:
  "\<exists>sv'. run_steps register_step [RegisterSocket ''a:5555'' False True, RegisterSocket ''a:5555'' False True] one_device_server = Some sv' \<and>
     distinct (tcp_serials (sv_world sv'))"
proof -
  have "serials_ok one_device_server"
    by (simp add: serials_ok_def one_device_server_def initial_world_def one_device_def tcp_serials_def tcp_serial_def
        IsTcpDevice_def new_atransport_def)
  from tcp_serials_unique [OF this] show ?thesis by blast
qed

end
