(* ===== verification/Adb_Utils.thy ===== *)
theory Adb_Utils
  imports Adb_Packet Adb_Strings
begin

text \<open>
  The helpers of \<open>adb_utils.cpp\<close> and \<open>adb_trace.cpp\<close>, and the transfer identifiers of \<open>transfer_id.h\<close>: quoting
  for the shell, the text of a logged packet, the check of forwarding targets, the creation of
  directories over a file system given as a parameter, the places of adb's files, and the trace mask.
\<close>

section \<open>escape_arg\<close>

text \<open>The search loop; \<open>base\<close> never exceeds the size, so \<open>append\<close> does not throw.\<close>

function escape_loop :: "string \<Rightarrow> nat \<Rightarrow> string \<Rightarrow> string" where
  "escape_loop s base result =
     (case find_char CHR 0x27 (drop base s) of
        None \<Rightarrow> result @ drop base s
      | Some n \<Rightarrow> escape_loop s (base + n + 1) (result @ take n (drop base s) @ [CHR 0x27, CHR 0x5C, CHR 0x27, CHR 0x27]))"
  by pat_completeness auto
termination
  by (relation "measure (\<lambda>(s, base, _). Suc (length s) - base)") (auto dest!: find_char_Some)

declare escape_loop.simps [simp del]

definition escape_arg :: "string \<Rightarrow> string" where
  "escape_arg s = escape_loop s 0 [CHR 0x27] @ [CHR 0x27]"

section \<open>Text of packets\<close>

definition pad0 :: "nat \<Rightarrow> string \<Rightarrow> string" where
  "pad0 w ds = replicate (w - length ds) (CHR ''0'') @ ds"

definition isprint :: "char \<Rightarrow> bool" where
  "isprint c \<longleftrightarrow> 32 \<le> (of_char c :: nat) \<and> (of_char c :: nat) < 127"

definition dump_hex :: "bytes \<Rightarrow> string" where
  "dump_hex data =
     (let p = take 16 data; truncated = length data > 16
      in concat (map (\<lambda>c. pad0 2 (hex_digits (of_char c))) p) @ '' '' @
         map (\<lambda>c. if isprint c then c else CHR ''.'') p @
         (if truncated then '' [truncated]'' else []))"

text \<open>\<open>"%d"\<close> of a value of the type \<open>int\<close>.\<close>

definition format_d :: "int \<Rightarrow> string" where
  "format_d n = (if n < 0 then CHR ''-'' # dec_digits (nat (- n)) else dec_digits (nat n))"

definition header_command :: "u32 \<Rightarrow> string" where
  "header_command command =
     (let cmd = map (\<lambda>n. drop_bit (n * 8) command AND 255) [0, 1, 2, 3]
      in if list_all (\<lambda>b. \<not> (b < 32 \<or> b \<ge> 127)) cmd then map (\<lambda>b. char_of (unat b)) cmd
         else pad0 8 (hex_digits (unat command)))"

definition header_arg :: "u32 \<Rightarrow> string" where
  "header_arg a = (if a < 256 then dec_digits (unat a) else ''0x'' @ hex_digits (unat a))"

definition dump_header :: "amessage \<Rightarrow> string" where
  "dump_header msg =
     ''['' @ header_command (m_command msg) @ ''] arg0='' @ header_arg (m_arg0 msg) @ '' arg1='' @ header_arg (m_arg1 msg) @
     '' (len='' @ format_d (sint (m_data_length msg)) @ '') ''"

definition dump_packet :: "string \<Rightarrow> string \<Rightarrow> apacket \<Rightarrow> string" where
  "dump_packet name func p = name @ '': '' @ func @ '': '' @ dump_header (p_msg p) @ dump_hex (block_bytes (p_payload p))"

section \<open>Forwarding targets\<close>

text \<open>\<open>Inl\<close> is the error text that goes with the result \<open>false\<close>.\<close>

definition forward_targets_are_valid :: "libbase \<Rightarrow> string \<Rightarrow> string \<Rightarrow> string + unit" where
  "forward_targets_are_valid lb source dest =
     (let src = percent_s (drop 4 source); dst = percent_s (drop 4 dest)
      in if StartsWith lb source ''tcp:'' \<and> (case ParseInt lb src of None \<Rightarrow> True | Some port \<Rightarrow> port < 0)
         then Inl (''Invalid source port: '' @ [CHR 0x27] @ src @ [CHR 0x27])
         else if StartsWith lb dest ''tcp:'' \<and> (case ParseInt lb dst of None \<Rightarrow> True | Some port \<Rightarrow> port \<le> 0)
         then Inl (''Invalid destination port: '' @ [CHR 0x27] @ dst @ [CHR 0x27])
         else Inr ())"

section \<open>Directories and files\<close>

text \<open>What the helpers ask of the system: \<open>stat\<close>, \<open>mkdir\<close>, the environment, the user.\<close>

record 'fs host_system =
  hs_is_dir :: "string \<Rightarrow> 'fs \<Rightarrow> bool"
  hs_exists :: "string \<Rightarrow> 'fs \<Rightarrow> bool"
  hs_mkdir :: "string \<Rightarrow> 'fs \<Rightarrow> bool \<times> 'fs"
  hs_getenv :: "string \<Rightarrow> string option"
  hs_pw_dir :: "string option"
  hs_uid :: nat

definition directory_exists :: "'fs host_system \<Rightarrow> string \<Rightarrow> 'fs \<Rightarrow> bool" where
  "directory_exists hs path fs = hs_is_dir hs path fs"

partial_function (option) mkdirs :: "libbase \<Rightarrow> 'fs host_system \<Rightarrow> string \<Rightarrow> 'fs \<Rightarrow> (bool \<times> 'fs) option" where
  "mkdirs lb hs path fs =
     (if hs_is_dir hs path fs then Some (True, fs)
      else let parent = Dirname lb path
           in if parent = path then Some (False, fs)
              else do {
                (ok, fs1) \<leftarrow> mkdirs lb hs parent fs;
                if \<not> ok then Some (False, fs1)
                else let (made, fs2) = hs_mkdir hs path fs1
                     in if \<not> made then Some (directory_exists hs path fs2, fs2) else Some (True, fs2)
              })"

definition adb_get_homedir_path :: "'fs host_system \<Rightarrow> string option" where
  "adb_get_homedir_path hs =
     (case hs_getenv hs ''HOME'' of Some home \<Rightarrow> Some home | None \<Rightarrow> hs_pw_dir hs)"

definition adb_get_android_dir_path :: "'fs host_system \<Rightarrow> 'fs \<Rightarrow> (string \<times> 'fs) option" where
  "adb_get_android_dir_path hs fs = do {
     user_dir \<leftarrow> adb_get_homedir_path hs;
     let android_dir = user_dir @ ''/'' @ ''.android'';
     if \<not> hs_exists hs android_dir fs
     then (let (made, fs1) = hs_mkdir hs android_dir fs in if made then Some (android_dir, fs1) else None)
     else Some (android_dir, fs)
   }"

definition GetLogFilePath :: "'fs host_system \<Rightarrow> string" where
  "GetLogFilePath hs =
     (case hs_getenv hs ''ANDROID_ADB_LOG_PATH'' of
        Some path \<Rightarrow> path
      | None \<Rightarrow>
          (let tmp_dir = (case hs_getenv hs ''TMPDIR'' of None \<Rightarrow> ''/tmp'' | Some d \<Rightarrow> d)
           in tmp_dir @ ''/adb.'' @ dec_digits (hs_uid hs) @ ''.log''))"

section \<open>The trace mask\<close>

definition trace_flags :: "(string \<times> int) list" where
  "trace_flags =
     [(''1'', -1), (''all'', -1), (''adb'', 0), (''sockets'', 1), (''packets'', 2), (''rwx'', 4), (''usb'', 5), (''sync'', 6),
      (''sysdeps'', 7), (''transport'', 3), (''jdwp'', 8), (''services'', 9), (''auth'', 10), (''fdevent'', 11),
      (''shell'', 12), (''incremental'', 13), (''mdns'', 14), (''mdns-stack'', 15)]"

text \<open>The loop over the elements of the setting; \<open>split\<close> is libbase's \<open>Split\<close> at any of \<open>", "\<close>.\<close>

fun trace_loop :: "string list \<Rightarrow> u32 \<Rightarrow> u32" where
  "trace_loop [] acc = acc"
| "trace_loop (elem # elements) acc =
     (case map_of trace_flags elem of
        None \<Rightarrow> trace_loop elements acc
      | Some flag \<Rightarrow> if flag = -1 then NOT 0 else trace_loop elements (acc OR push_bit (nat flag) 1))"

definition setup_trace_mask :: "(string \<Rightarrow> string list) \<Rightarrow> string \<Rightarrow> u32 \<Rightarrow> u32 option" where
  "setup_trace_mask split trace_setting adb_trace_mask =
     (if trace_setting = [] then Some adb_trace_mask
      else do {
        CHECK (length trace_flags - 2 = 16);
        Some (trace_loop (split trace_setting) adb_trace_mask)
      })"

section \<open>Transfer identifiers\<close>

datatype TransferDirection = READ | WRITE

fun direction_value :: "TransferDirection \<Rightarrow> u64" where
  "direction_value READ = 0"
| "direction_value WRITE = 1"

record TransferId =
  ti_direction :: TransferDirection
  ti_id :: "63 word"

text \<open>The field \<open>id\<close> has 63 bits: the constructors keep the low bits of their argument.\<close>

definition transfer_read :: "u64 \<Rightarrow> TransferId" where
  "transfer_read n = \<lparr>ti_direction = READ, ti_id = ucast n\<rparr>"

definition transfer_write :: "u64 \<Rightarrow> TransferId" where
  "transfer_write n = \<lparr>ti_direction = WRITE, ti_id = ucast n\<rparr>"

definition to_value :: "TransferId \<Rightarrow> u64" where
  "to_value t = push_bit 63 (direction_value (ti_direction t)) OR ucast (ti_id t)"

definition from_value :: "u64 \<Rightarrow> TransferId" where
  "from_value v =
     (let top = push_bit 63 (1 :: u64)
      in \<lparr>ti_direction = (if v AND top \<noteq> 0 then WRITE else READ), ti_id = ucast (v AND (top - 1))\<rparr>)"

definition transfer_eq :: "TransferId \<Rightarrow> TransferId \<Rightarrow> bool" where
  "transfer_eq a b \<longleftrightarrow> to_value a = to_value b"

section \<open>Quoting\<close>

text \<open>
  How a POSIX shell splits a line into words: a single quote starts a literal string up to the next
  one, a backslash makes the next character literal, blanks end a word.  A character with another
  meaning to the shell yields \<open>None\<close>.
\<close>

definition sh_meta :: "char \<Rightarrow> bool" where
  "sh_meta c \<longleftrightarrow> c \<in> set ''|&;<>()$`*?[]#~={}!%^'' \<or> c = CHR 0x22 \<or> c = CHR 0x0A \<or> c = CHR 0x09"

fun sh_words :: "string option \<Rightarrow> string \<Rightarrow> string list option" and sh_quoted :: "string \<Rightarrow> string \<Rightarrow> string list option" where
  "sh_words cur [] = Some (case cur of None \<Rightarrow> [] | Some w \<Rightarrow> [w])"
| "sh_words cur (c # s) =
     (let w = (case cur of None \<Rightarrow> [] | Some w \<Rightarrow> w)
      in if c = CHR 0x27 then sh_quoted w s
         else if c = CHR 0x5C then (case s of [] \<Rightarrow> None | x # s' \<Rightarrow> sh_words (Some (w @ [x])) s')
         else if c = CHR '' '' then (case cur of None \<Rightarrow> sh_words None s | Some w \<Rightarrow> map_option ((#) w) (sh_words None s))
         else if sh_meta c then None
         else sh_words (Some (w @ [c])) s)"
| "sh_quoted w [] = None"
| "sh_quoted w (c # s) = (if c = CHR 0x27 then sh_words (Some w) s else sh_quoted (w @ [c]) s)"

definition quote_char :: "char \<Rightarrow> string" where
  "quote_char c = (if c = CHR 0x27 then [CHR 0x27, CHR 0x5C, CHR 0x27, CHR 0x27] else [c])"

lemma quote_plain: "CHR 0x27 \<notin> set s \<Longrightarrow> concat (map quote_char s) = s"
  by (induction s) (auto simp: quote_char_def)

lemma escape_loop_quotes: "base \<le> length s \<Longrightarrow> escape_loop s base r = r @ concat (map quote_char (drop base s))"
proof (induction s base r rule: escape_loop.induct)
  case (1 s base r)
  show ?case
  proof (cases "find_char CHR 0x27 (drop base s)")
    case None
    then have "CHR 0x27 \<notin> set (drop base s)" by (simp add: find_char_def split: if_splits)
    with None show ?thesis by (subst escape_loop.simps) (simp add: quote_plain)
  next
    case (Some n)
    note f = find_char_Some [OF Some]
    from f have len: "base + n + 1 \<le> length s" by auto
    from f have "drop base s = take n (drop base s) @ CHR 0x27 # drop (base + n + 1) s"
      by (metis (no_types, lifting) Suc_eq_plus1 add.assoc add.commute drop_drop id_take_nth_drop)
    then have "concat (map quote_char (drop base s)) =
        take n (drop base s) @ [CHR 0x27, CHR 0x5C, CHR 0x27, CHR 0x27] @ concat (map quote_char (drop (base + n + 1) s))"
      using f quote_plain [of "take n (drop base s)"] by (metis (no_types, lifting) append.assoc concat.simps(2) concat_append list.simps(9) map_append quote_char_def)
    with "1.IH" [OF Some len] Some show ?thesis by (subst escape_loop.simps) simp
  qed
qed

lemma sh_quoted_arg: "sh_quoted w (concat (map quote_char s) @ CHR 0x27 # rest) = sh_words (Some (w @ s)) rest"
  by (induction s arbitrary: w) (auto simp: quote_char_def)

lemma sh_words_arg: "sh_words cur (escape_arg s @ rest) = sh_words (Some ((case cur of None \<Rightarrow> [] | Some w \<Rightarrow> w) @ s)) rest"
  by (simp add: escape_arg_def escape_loop_quotes sh_quoted_arg Let_def)

text \<open>
  C34: a command line made of arguments quoted with \<open>escape_arg\<close> and separated by blanks is split by a shell
  into exactly these arguments, whatever characters they contain.
\<close>

theorem escape_arg_roundtrip: "sh_words None (join CHR '' '' (map escape_arg args)) = Some args"
proof (induction args)
  case (Cons a args)
  show ?case
  proof (cases "args = []")
    case True
    then show ?thesis using sh_words_arg [of None a "[]"] by simp
  next
    case False
    then have "join CHR '' '' (map escape_arg (a # args)) = escape_arg a @ CHR '' '' # join CHR '' '' (map escape_arg args)"
      by (simp add: join_Cons)
    with Cons show ?thesis by (simp add: sh_words_arg)
  qed
qed simp

section \<open>Widths of the logged text\<close>

lemma dec_digits_length: "n < 10 ^ Suc k \<Longrightarrow> length (dec_digits n) \<le> Suc k"
proof (induction k arbitrary: n)
  case (Suc k)
  then have "n div 10 < 10 ^ Suc k" by (simp add: div_less_iff_less_mult mult.commute)
  with Suc.IH [of "n div 10"] show ?case by (subst dec_digits.simps) auto
qed (simp add: dec_digits.simps)

lemma hex_digits_print: "list_all isprint (hex_digits n)"
  using hex_string_digits [of n] by (auto simp: hex_string_def list_all_iff isprint_def hex_digit_code split: if_splits)

lemma dec_digits_print: "list_all isprint (dec_digits n)"
proof (induction n rule: dec_digits.induct)
  case (1 n)
  have digit: "isprint (''0123456789'' ! d)" if "d < 10" for d :: nat
    using that nth_mem [of d "''0123456789''"] by (auto simp: isprint_def)
  with 1 show ?case by (subst dec_digits.simps) simp
qed

lemma pad0_print: "list_all isprint ds \<Longrightarrow> list_all isprint (pad0 w ds)"
  by (auto simp: pad0_def list_all_iff isprint_def)

lemma pad0_length: "length ds \<le> w \<Longrightarrow> length (pad0 w ds) = w"
  by (simp add: pad0_def)

lemma header_command_text: "list_all isprint (header_command c) \<and> length (header_command c) \<le> 8"
proof -
  have "length (hex_digits (unat c)) \<le> 8" using unsigned_less [of c] by (simp add: hex_digits_length)
  moreover have "isprint (char_of (unat b))" if "\<not> (b < 32 \<or> b \<ge> 127)" for b :: u32
    using that by (simp add: isprint_def word_less_nat_alt word_le_nat_alt not_less not_le)
  ultimately show ?thesis
    using pad0_print [OF hex_digits_print, of 8 "unat c"] by (auto simp: header_command_def Let_def pad0_length)
qed

lemma header_arg_text: "list_all isprint (header_arg a) \<and> length (header_arg a) \<le> 10"
proof -
  have "length (hex_digits (unat a)) \<le> 8" using unsigned_less [of a] by (simp add: hex_digits_length)
  moreover have "length (dec_digits (unat a)) \<le> 10" using unsigned_less [of a, where 'a = nat] dec_digits_length [of "unat a" 9] by simp
  ultimately show ?thesis by (simp add: header_arg_def hex_digits_print dec_digits_print) (simp add: isprint_def)
qed

lemma format_d_text:
  assumes "- (2 ^ 31) \<le> n" and "n < 2 ^ 31"
  shows "list_all isprint (format_d n) \<and> length (format_d n) \<le> 11"
proof -
  have "length (dec_digits (nat (- n))) \<le> 10" if "n < 0" using that assms dec_digits_length [of "nat (- n)" 9] by simp
  moreover have "length (dec_digits (nat n)) \<le> 10" if "\<not> n < 0" using that assms dec_digits_length [of "nat n" 9] by simp
  ultimately show ?thesis by (cases "n < 0") (simp_all add: format_d_def dec_digits_print, simp add: isprint_def)
qed

lemma dump_hex_text: "list_all isprint (dump_hex d) \<and> length (dump_hex d) \<le> 61"
proof -
  have two: "length (pad0 2 (hex_digits (of_char c))) = 2" for c :: char
    by (rule pad0_length) (use of_char_less [of c] in \<open>simp add: hex_digits_length\<close>)
  have len: "length (concat (map (\<lambda>c. pad0 2 (hex_digits (of_char c))) xs)) = 2 * length xs" for xs :: bytes
    by (simp add: length_concat comp_def two sum_list_triv)
  have hex: "list_all isprint (concat (map (\<lambda>c. pad0 2 (hex_digits (of_char c))) xs))" for xs :: bytes
    by (induction xs) (simp_all add: pad0_print hex_digits_print)
  have "list_all isprint (map (\<lambda>c. if isprint c then c else CHR ''.'') xs)" for xs
    by (auto simp: list_all_iff) (simp add: isprint_def)
  then show ?thesis
    unfolding dump_hex_def Let_def using len [of "take 16 d"] hex [of "take 16 d"]
    by (simp add: isprint_def)
qed

text \<open>
  C39: the text that is logged for a packet is printable and bounded whatever the packet contains: the
  command and the arguments never exceed the fixed buffers they are formatted into (9 and 12 bytes
  with the terminating NUL), so nothing of them is cut, and the payload contributes at most 61 characters.
\<close>

theorem packet_text_bounds:
  "length (header_command (m_command (p_msg p))) < 9 \<and> length (header_arg (m_arg0 (p_msg p))) < 12 \<and>
   length (header_arg (m_arg1 (p_msg p))) < 12 \<and>
   (\<exists>t. dump_packet name func p = name @ '': '' @ func @ '': '' @ t \<and> list_all isprint t \<and> length t \<le> 122)"
proof -
  let ?m = "p_msg p"
  have "- (2 ^ 31) \<le> sint (m_data_length ?m)" "sint (m_data_length ?m) < 2 ^ 31"
    using sint_range_size [of "m_data_length ?m"] by (simp_all add: word_size)
  note texts = header_command_text [of "m_command ?m"] header_arg_text [of "m_arg0 ?m"] header_arg_text [of "m_arg1 ?m"]
    format_d_text [OF this] dump_hex_text [of "block_bytes (p_payload p)"]
  have "list_all isprint (dump_header ?m) \<and> length (dump_header ?m) \<le> 61"
    using texts by (simp add: dump_header_def) (simp add: isprint_def)
  with texts show ?thesis unfolding dump_packet_def by auto
qed

section \<open>Directories\<close>

text \<open>
  What \<open>mkdir\<close> promises: success leaves a directory of that name, and no directory disappears.  A call
  may find a directory that somebody else made in the meantime.
\<close>

definition mkdir_ok :: "'fs host_system \<Rightarrow> bool" where
  "mkdir_ok hs \<longleftrightarrow>
     (\<forall>p fs made fs1. hs_mkdir hs p fs = (made, fs1) \<longrightarrow>
        (made \<longrightarrow> hs_is_dir hs p fs1) \<and> (\<forall>q. hs_is_dir hs q fs \<longrightarrow> hs_is_dir hs q fs1))"

text \<open>A file system where directories can be made.\<close>

definition mkdir_succeeds :: "libbase \<Rightarrow> 'fs host_system \<Rightarrow> bool" where
  "mkdir_succeeds lb hs \<longleftrightarrow>
     (\<forall>p fs. (hs_is_dir hs (Dirname lb p) fs \<longrightarrow> fst (hs_mkdir hs p fs)) \<and> (Dirname lb p = p \<longrightarrow> hs_is_dir hs p fs))"

lemma mkdirs_result:
  assumes "dirname_ok lb" and "mkdir_ok hs"
  shows "\<exists>ok fs1. mkdirs lb hs path fs = Some (ok, fs1) \<and> (ok \<longrightarrow> hs_is_dir hs path fs1) \<and>
    (\<forall>q. hs_is_dir hs q fs \<longrightarrow> hs_is_dir hs q fs1) \<and> (mkdir_succeeds lb hs \<longrightarrow> ok)"
proof (induction path rule: wf_induct [of "measure (\<lambda>p. if p = ''.'' then 0 else Suc (length p))", case_names wf step])
  case (step path)
  let ?parent = "Dirname lb path"
  show ?case
  proof (cases "hs_is_dir hs path fs \<or> ?parent = path")
    case True
    moreover have "mkdir_succeeds lb hs \<longrightarrow> hs_is_dir hs path fs" if "?parent = path" using that by (simp add: mkdir_succeeds_def)
    ultimately show ?thesis by (subst mkdirs.simps) auto
  next
    case False
    have "(?parent, path) \<in> measure (\<lambda>p. if p = ''.'' then 0 else Suc (length p))"
      using assms(1) False unfolding dirname_ok_def by (cases "path = ''.''"; cases "?parent = ''.''") force+
    with step obtain ok fs1 where p: "mkdirs lb hs ?parent fs = Some (ok, fs1)" "ok \<longrightarrow> hs_is_dir hs ?parent fs1"
      "\<forall>q. hs_is_dir hs q fs \<longrightarrow> hs_is_dir hs q fs1" "mkdir_succeeds lb hs \<longrightarrow> ok" by blast
    obtain made fs2 where m: "hs_mkdir hs path fs1 = (made, fs2)" by fastforce
    from assms(2) m have "made \<longrightarrow> hs_is_dir hs path fs2" "\<forall>q. hs_is_dir hs q fs1 \<longrightarrow> hs_is_dir hs q fs2"
      unfolding mkdir_ok_def by blast+
    moreover have "made" if "mkdir_succeeds lb hs" using that p(2,4) m unfolding mkdir_succeeds_def by (metis fst_conv)
    ultimately show ?thesis using False p m
      by (subst mkdirs.simps) (auto simp: directory_exists_def)
  qed
qed simp


text \<open>A file system given by its set of directories.\<close>

definition dirs_system :: "string list host_system" where
  "dirs_system = \<lparr>hs_is_dir = (\<lambda>p ds. p \<in> {''.'', ''/''} \<union> set ds), hs_exists = (\<lambda>p ds. p \<in> {''.'', ''/''} \<union> set ds),
     hs_mkdir = (\<lambda>p ds. if ref_Dirname p \<in> {''.'', ''/''} \<union> set ds then (True, p # ds) else (False, ds)),
     hs_getenv = (\<lambda>_. None), hs_pw_dir = None, hs_uid = 0\<rparr>"


section \<open>Transfer identifiers\<close>

lemma bit_to_value: "bit (to_value t) n \<longleftrightarrow> (if n = 63 then ti_direction t = WRITE else bit (ti_id t) n)"
proof -
  have "ti_direction t = WRITE \<or> ti_direction t = READ" by (cases "ti_direction t") simp_all
  moreover have "\<not> bit (ti_id t) n" if "63 \<le> n" using that bit_imp_le_length [of "ti_id t" n] by auto
  ultimately show ?thesis
    by (cases "n < 63") (auto simp: to_value_def bit_or_iff bit_push_bit_iff bit_unsigned_iff bit_1_iff)
qed

lemma from_value_fields:
  "ti_direction (from_value v) = (if bit v 63 then WRITE else READ)" "bit (ti_id (from_value v)) n \<longleftrightarrow> n < 63 \<and> bit v n"
proof -
  have top: "push_bit 63 (1 :: u64) - 1 = mask 63" by (simp add: mask_eq_exp_minus_1 push_bit_eq_mult)
  have "v AND push_bit 63 1 \<noteq> 0 \<longleftrightarrow> bit v 63"
    by (simp only: push_bit_of_1 and_exp_eq_0_iff_not_bit not_not)
  then show "ti_direction (from_value v) = (if bit v 63 then WRITE else READ)" by (simp add: from_value_def)
  show "bit (ti_id (from_value v)) n \<longleftrightarrow> n < 63 \<and> bit v n"
    unfolding from_value_def Let_def top by (auto simp: bit_unsigned_iff bit_and_iff bit_mask_iff)
qed

text \<open>
  C40: the 64-bit number of a transfer and the pair of direction and 63-bit identifier are two views of
  the same type: each conversion undoes the other, equality of numbers is equality of transfers, and a
  read never has the number of a write.
\<close>

theorem transfer_id_type:
  "to_value (from_value v) = v \<and> from_value (to_value t) = t \<and> transfer_eq t u = (t = u) \<and>
   \<not> transfer_eq (transfer_read n) (transfer_write m)"
proof -
  have v: "to_value (from_value v) = v"
    by (rule bit_eqI) (auto simp: bit_to_value from_value_fields)
  have t: "from_value (to_value x) = x" for x
  proof (rule TransferId.equality)
    show "ti_direction (from_value (to_value x)) = ti_direction x"
      by (cases "ti_direction x") (simp_all add: from_value_fields bit_to_value)
    show "ti_id (from_value (to_value x)) = ti_id x"
      by (rule bit_eqI) (auto simp: from_value_fields bit_to_value)
  qed simp
  from t have eq: "transfer_eq x y = (x = y)" for x y unfolding transfer_eq_def by metis
  show ?thesis by (simp add: v t eq) (simp add: transfer_read_def transfer_write_def)
qed

end
