(* ===== verification/Adb_Socket_Spec.thy ===== *)
theory Adb_Socket_Spec
  imports Adb_Utils
begin

text \<open>
  Socket specifications (\<open>socket_spec.cpp\<close>): parsing of \<open>tcp:\<close> and \<open>vsock:\<close> addresses, and connecting to
  and listening on any of them.  The network functions of the platform layer, the resolver
  \<open>ParseNetAddress\<close> of libbase and the mDNS table are parameters; a result \<open>Inl e\<close> stands for a failure with
  the text \<open>e\<close> stored in \<open>*error\<close>, the empty text for a failure that stores none.
\<close>

section \<open>Parameters\<close>

record platform =
  pf_host :: bool
  pf_linux :: bool
  pf_windows :: bool

datatype socket_namespace = NS_ABSTRACT | NS_RESERVED | NS_FILESYSTEM

type_synonym address_parser = "string \<Rightarrow> int \<Rightarrow> string + string \<times> int \<times> string"

record mdns_info =
  mi_addr :: string
  mi_port :: int
  mi_service_name :: string
  mi_service_type :: string

record 'n network =
  nw_loopback_client :: "int \<Rightarrow> 'n \<Rightarrow> (string + int) \<times> 'n"
  nw_connect :: "string \<Rightarrow> int \<Rightarrow> 'n \<Rightarrow> (string + int) \<times> 'n"
  nw_local_client :: "string \<Rightarrow> socket_namespace \<Rightarrow> 'n \<Rightarrow> (string + int) \<times> 'n"
  nw_inaddr_any_server :: "int \<Rightarrow> 'n \<Rightarrow> (string + int) \<times> 'n"
  nw_loopback_server :: "int \<Rightarrow> bool \<Rightarrow> 'n \<Rightarrow> (string + int) \<times> 'n"
  nw_local_server :: "string \<Rightarrow> socket_namespace \<Rightarrow> 'n \<Rightarrow> (string + int) \<times> 'n"
  nw_local_port :: "int \<Rightarrow> 'n \<Rightarrow> int"
  nw_vsock :: "'n \<Rightarrow> (string + int) \<times> 'n"
  nw_vsock_connect :: "int \<Rightarrow> nat \<Rightarrow> nat \<Rightarrow> 'n \<Rightarrow> bool \<times> 'n"
  nw_vsock_bind :: "int \<Rightarrow> nat \<Rightarrow> 'n \<Rightarrow> bool \<times> 'n"
  nw_vsock_listen :: "int \<Rightarrow> 'n \<Rightarrow> bool \<times> 'n"
  nw_vsock_port :: "int \<Rightarrow> 'n \<Rightarrow> int option"
  nw_close :: "int \<Rightarrow> 'n \<Rightarrow> 'n"
  nw_set_tcp_keepalive :: "int \<Rightarrow> int \<Rightarrow> 'n \<Rightarrow> 'n"
  nw_disable_tcp_nagle :: "int \<Rightarrow> 'n \<Rightarrow> 'n"
  nw_fd_flags :: "int \<Rightarrow> 'n \<Rightarrow> string + bool"
  nw_is_socket :: "int \<Rightarrow> 'n \<Rightarrow> bool"
  nw_dup :: "int \<Rightarrow> 'n \<Rightarrow> (string + int) \<times> 'n"
  nw_mdns_info :: "string \<Rightarrow> 'n \<Rightarrow> mdns_info option"
  nw_getenv :: "string \<Rightarrow> string option"

definition DEFAULT_ADB_LOCAL_TRANSPORT_PORT :: int where
  "DEFAULT_ADB_LOCAL_TRANSPORT_PORT = 5555"

definition quoted :: "string \<Rightarrow> string" where
  "quoted s = [CHR 0x27] @ s @ [CHR 0x27]"

section \<open>Parsing\<close>

definition kLocalSocketTypes :: "platform \<Rightarrow> (string \<times> socket_namespace \<times> bool) list" where
  "kLocalSocketTypes pf =
     [(''local'', if pf_host pf then NS_FILESYSTEM else NS_RESERVED, \<not> pf_windows pf),
      (''localreserved'', NS_RESERVED, \<not> pf_host pf),
      (''localabstract'', NS_ABSTRACT, pf_linux pf),
      (''localfilesystem'', NS_FILESYSTEM, \<not> pf_windows pf)]"

text \<open>The result has the host name, the port and, when the address was parsed by libbase, the serial number.\<close>

definition parse_tcp_socket_spec :: "libbase \<Rightarrow> address_parser \<Rightarrow> string \<Rightarrow> string + string \<times> int \<times> string option" where
  "parse_tcp_socket_spec lb pna spec =
     (if \<not> prefix ''tcp:'' spec then Inl (''specification is not tcp: '' @ spec)
      else case ParseInt lb (percent_s (drop 4 spec)) of
        Some port \<Rightarrow>
          if port < 0 \<or> port > 65535 then Inl (''bad port number '' @ quoted (format_d port))
          else Inr ([], port, None)
      | None \<Rightarrow>
          (case pna (drop 4 spec) DEFAULT_ADB_LOCAL_TRANSPORT_PORT of
             Inl e \<Rightarrow> Inl e
           | Inr (host, port, serial) \<Rightarrow> Inr (host, port, Some serial)))"

definition get_host_socket_spec_port :: "platform \<Rightarrow> libbase \<Rightarrow> address_parser \<Rightarrow> string \<Rightarrow> string + int" where
  "get_host_socket_spec_port pf lb pna spec =
     (if prefix ''tcp:'' spec then
        (case parse_tcp_socket_spec lb pna spec of Inl e \<Rightarrow> Inl e | Inr (_, port, _) \<Rightarrow> Inr port)
      else if prefix ''vsock:'' spec then
        if pf_linux pf then
          (let fragments = Split lb spec CHR '':''
           in if length fragments \<noteq> 2 then Inl ''given vsock server socket string was invalid''
              else case ParseInt lb (fragments ! 1) of
                None \<Rightarrow> Inl ''could not parse vsock port''
              | Some port \<Rightarrow> if port < 0 then Inl ''vsock port was negative.'' else Inr port)
        else Inl ''vsock is only supported on linux''
      else Inl ''given socket spec string was invalid'')"

definition tcp_host_is_local :: "string \<Rightarrow> bool" where
  "tcp_host_is_local hostname \<longleftrightarrow> hostname = [] \<or> hostname = ''localhost''"

definition local_type :: "platform \<Rightarrow> string \<Rightarrow> (string \<times> socket_namespace \<times> bool) option" where
  "local_type pf spec = find (\<lambda>(name, _). prefix (name @ '':'') spec) (kLocalSocketTypes pf)"

definition is_socket_spec :: "platform \<Rightarrow> string \<Rightarrow> bool" where
  "is_socket_spec pf spec \<longleftrightarrow>
     local_type pf spec \<noteq> None \<or> prefix ''tcp:'' spec \<or> prefix ''acceptfd:'' spec \<or> prefix ''vsock:'' spec"

definition is_local_socket_spec :: "platform \<Rightarrow> libbase \<Rightarrow> address_parser \<Rightarrow> string \<Rightarrow> bool" where
  "is_local_socket_spec pf lb pna spec \<longleftrightarrow>
     local_type pf spec \<noteq> None \<or>
     (case parse_tcp_socket_spec lb pna spec of Inl _ \<Rightarrow> False | Inr (hostname, _, _) \<Rightarrow> tcp_host_is_local hostname)"

section \<open>Connecting\<close>

text \<open>A result \<open>Inr (fd, port, serial)\<close> has what \<open>*port\<close> and \<open>*serial\<close> are set to, if they are.\<close>

type_synonym connect_result = "string + int \<times> int option \<times> string option"

definition connect_keepalive :: "libbase \<Rightarrow> 'n network \<Rightarrow> int" where
  "connect_keepalive lb nw =
     (case nw_getenv nw ''ADB_TCP_KEEPALIVE_INTERVAL'' of
        None \<Rightarrow> 1
      | Some s \<Rightarrow> (case ParseInt lb s of Some n \<Rightarrow> if n \<ge> 0 then n else 1 | None \<Rightarrow> 1))"

text \<open>The end of the \<open>tcp:\<close> branch: descriptor 0 counts as a failure, without an error text.\<close>

definition finish_tcp ::
  "libbase \<Rightarrow> 'n network \<Rightarrow> int option \<Rightarrow> int \<Rightarrow> string option \<Rightarrow> (string + int) \<times> 'n \<Rightarrow> connect_result \<times> 'n" where
  "finish_tcp lb nw port port_value serial r =
     (case r of
        (Inl e, n) \<Rightarrow> (Inl e, n)
      | (Inr fd, n) \<Rightarrow>
          if fd > 0 then
            (Inr (fd, map_option (\<lambda>_. port_value) port, serial),
             nw_disable_tcp_nagle nw fd (nw_set_tcp_keepalive nw fd (connect_keepalive lb nw) n))
          else (Inl [], nw_close nw fd n))"

definition connect_tcp ::
  "platform \<Rightarrow> libbase \<Rightarrow> address_parser \<Rightarrow> 'n network \<Rightarrow> string \<Rightarrow> int option \<Rightarrow> 'n \<Rightarrow> connect_result \<times> 'n" where
  "connect_tcp pf lb pna nw address port n =
     (case parse_tcp_socket_spec lb pna address of
        Inl e \<Rightarrow> (Inl e, n)
      | Inr (hostname, port_value, serial) \<Rightarrow>
          if tcp_host_is_local hostname then finish_tcp lb nw port port_value serial (nw_loopback_client nw port_value n)
          else if pf_host pf then
            (case nw_mdns_info nw (drop 4 address) n of
               Some info \<Rightarrow>
                 finish_tcp lb nw port (mi_port info)
                   (Some (percent_s (mi_service_name info) @ ''.'' @ percent_s (mi_service_type info)))
                   (nw_connect nw (mi_addr info) (mi_port info) n)
             | None \<Rightarrow> finish_tcp lb nw port port_value serial (nw_connect nw hostname port_value n))
          else (Inl ''adbd does not support arbitrary tcp connections'', n))"

definition connect_vsock :: "platform \<Rightarrow> libbase \<Rightarrow> 'n network \<Rightarrow> string \<Rightarrow> int option \<Rightarrow> 'n \<Rightarrow> connect_result \<times> 'n" where
  "connect_vsock pf lb nw address port n =
     (if \<not> pf_linux pf then (Inl ''vsock is only supported on Linux'', n)
      else let fragments = Split lb address CHR '':''; given = unat (of_int (case port of None \<Rightarrow> 0 | Some p \<Rightarrow> p) :: u32)
      in if length fragments \<noteq> 2 \<and> length fragments \<noteq> 3
         then (Inl (''expected vsock:cid or vsock:cid:port in '' @ quoted (percent_s address)), n)
         else case BaseParseUint lb (fragments ! 1) of
           None \<Rightarrow> (Inl (''could not parse vsock cid in '' @ quoted (percent_s address)), n)
         | Some cid \<Rightarrow>
             (case (if length fragments = 3 then BaseParseUint lb (fragments ! 2) else Some given) of
                None \<Rightarrow> (Inl (''could not parse vsock port in '' @ quoted (percent_s address)), n)
              | Some port_value \<Rightarrow>
                  if port_value = 0 then (Inl ''vsock port was not provided.'', n)
                  else case nw_vsock nw n of
                    (Inl _, n1) \<Rightarrow> (Inl ''could not open vsock socket'', n1)
                  | (Inr fd, n1) \<Rightarrow>
                      (let (ok, n2) = nw_vsock_connect nw fd cid port_value n1; shown = sint (of_nat port_value :: u32)
                       in if \<not> ok then (Inl (''could not connect to vsock address '' @ quoted (percent_s address)), nw_close nw fd n2)
                          else (Inr (fd, map_option (\<lambda>_. shown) port, Some (''vsock:'' @ dec_digits cid @ '':'' @ format_d shown)), n2))))"

definition connect_local :: "platform \<Rightarrow> 'n network \<Rightarrow> string \<Rightarrow> 'n \<Rightarrow> connect_result \<times> 'n" where
  "connect_local pf nw address n =
     (case local_type pf address of
        None \<Rightarrow> (Inl (''unknown socket specification: '' @ address), n)
      | Some (name, namespace, available) \<Rightarrow>
          if \<not> available then (Inl (''socket type '' @ name @ '' is unavailable on this platform''), n)
          else case nw_local_client nw (percent_s (drop (length name + 1) address)) namespace n of
            (Inl _, n1) \<Rightarrow> (Inl (''could not connect to '' @ name @ '' address '' @ quoted (percent_s address)), n1)
          | (Inr fd, n1) \<Rightarrow> (Inr (fd, None, Some address), n1))"

definition socket_spec_connect ::
  "platform \<Rightarrow> bool \<Rightarrow> libbase \<Rightarrow> address_parser \<Rightarrow> 'n network \<Rightarrow> string \<Rightarrow> int option \<Rightarrow> 'n \<Rightarrow> connect_result \<times> 'n" where
  "socket_spec_connect pf socket_access_allowed lb pna nw address port n =
     (if \<not> pf_host pf \<and> \<not> socket_access_allowed then (Inl ''Suppressing minadbd socket communications'', n)
      else if prefix ''tcp:'' address then connect_tcp pf lb pna nw address port n
      else if prefix ''vsock:'' address then connect_vsock pf lb nw address port n
      else if prefix ''acceptfd:'' address then (Inl ''cannot connect to acceptfd'', n)
      else connect_local pf nw address n)"

section \<open>Listening\<close>

text \<open>A result \<open>Inr (fd, port)\<close> has the port that is stored in \<open>*resolved_port\<close>.\<close>

type_synonym listen_result = "string + int \<times> int option"

definition listen_tcp ::
  "platform \<Rightarrow> bool \<Rightarrow> libbase \<Rightarrow> address_parser \<Rightarrow> 'n network \<Rightarrow> string \<Rightarrow> 'n \<Rightarrow> listen_result \<times> 'n" where
  "listen_tcp pf gListenAll lb pna nw spec n =
     (case parse_tcp_socket_spec lb pna spec of
        Inl e \<Rightarrow> (Inl e, n)
      | Inr (hostname, port, _) \<Rightarrow>
          if \<not> (hostname = [] \<and> (\<not> pf_host pf \<or> gListenAll)) \<and> \<not> tcp_host_is_local hostname \<and> hostname \<noteq> ''::1''
          then (Inl ''listening on specified hostname currently unsupported'', n)
          else case (if hostname = [] \<and> (\<not> pf_host pf \<or> gListenAll) then nw_inaddr_any_server nw port n
                     else if tcp_host_is_local hostname then nw_loopback_server nw port True n
                     else nw_loopback_server nw port False n) of
            (Inl e, n1) \<Rightarrow> (Inl e, n1)
          | (Inr fd, n1) \<Rightarrow> (Inr (fd, Some (nw_local_port nw fd n1)), n1))"

text \<open>\<open>VMADDR_PORT_ANY\<close> is the port number \<open>-1U\<close>; a failing \<open>bind\<close>, \<open>listen\<close> or \<open>getsockname\<close> stores no text.\<close>

definition listen_vsock :: "platform \<Rightarrow> libbase \<Rightarrow> 'n network \<Rightarrow> string \<Rightarrow> 'n \<Rightarrow> listen_result \<times> 'n" where
  "listen_vsock pf lb nw spec n =
     (if \<not> pf_linux pf then (Inl ''vsock is only supported on linux'', n)
      else let fragments = Split lb spec CHR '':''
      in if length fragments \<noteq> 2 then (Inl ''given vsock server socket string was invalid'', n)
         else case ParseInt lb (fragments ! 1) of
           None \<Rightarrow> (Inl ''could not parse vsock port'', n)
         | Some port \<Rightarrow>
             if port < 0 then (Inl ''vsock port was negative.'', n)
             else case nw_vsock nw n of
               (Inl e, n1) \<Rightarrow> (Inl (''could not create vsock server: '' @ quoted e), n1)
             | (Inr fd, n1) \<Rightarrow>
                 (let (bound, n2) = nw_vsock_bind nw fd (if port = 0 then 2 ^ 32 - 1 else nat port) n1
                  in if \<not> bound then (Inl [], nw_close nw fd n2)
                     else let (listening, n3) = nw_vsock_listen nw fd n2
                          in if \<not> listening then (Inl [], nw_close nw fd n3)
                             else case nw_vsock_port nw fd n3 of
                               None \<Rightarrow> (Inl [], nw_close nw fd n3)
                             | Some p \<Rightarrow> (Inr (fd, Some p), n3)))"

definition listen_acceptfd :: "platform \<Rightarrow> 'n network \<Rightarrow> string \<Rightarrow> 'n \<Rightarrow> listen_result \<times> 'n" where
  "listen_acceptfd pf nw spec n =
     (if pf_windows pf then (Inl ''socket activation not supported under Windows'', n)
      else case ParseUint_all 32 spec of
        None \<Rightarrow> (Inl ''invalid fd'', n)
      | Some fd_u \<Rightarrow>
          if fd_u > 2 ^ 31 - 1 then (Inl ''invalid fd'', n)
          else let fd = int fd_u
          in case nw_fd_flags nw fd n of
            Inl e \<Rightarrow> (Inl (''could not get flags of inherited fd '' @ format_d fd @ '': '' @ quoted e), n)
          | Inr cloexec \<Rightarrow>
              if cloexec then (Inl (''fd '' @ format_d fd @ '' was not inherited from parent''), n)
              else if \<not> nw_is_socket nw fd n then (Inl (''fd '' @ format_d fd @ '' does not refer to a socket''), n)
              else case nw_dup nw fd n of
                (Inl e, n1) \<Rightarrow> (Inl (''could not dup inherited fd '' @ format_d fd @ '': '' @ quoted e), n1)
              | (Inr new_fd, n1) \<Rightarrow> (Inr (new_fd, None), n1))"

definition listen_local :: "platform \<Rightarrow> 'n network \<Rightarrow> string \<Rightarrow> 'n \<Rightarrow> listen_result \<times> 'n" where
  "listen_local pf nw spec n =
     (case local_type pf spec of
        None \<Rightarrow> (Inl (''unknown socket specification:'' @ spec), n)
      | Some (name, namespace, available) \<Rightarrow>
          if \<not> available then (Inl (''attempted to listen on unavailable socket type: '' @ spec), n)
          else case nw_local_server nw (percent_s (drop (length name + 1) spec)) namespace n of
            (Inl e, n1) \<Rightarrow> (Inl e, n1)
          | (Inr fd, n1) \<Rightarrow> (Inr (fd, None), n1))"

definition socket_spec_listen ::
  "platform \<Rightarrow> bool \<Rightarrow> libbase \<Rightarrow> address_parser \<Rightarrow> 'n network \<Rightarrow> string \<Rightarrow> 'n \<Rightarrow> listen_result \<times> 'n" where
  "socket_spec_listen pf gListenAll lb pna nw spec n =
     (if prefix ''tcp:'' spec then listen_tcp pf gListenAll lb pna nw spec n
      else if prefix ''vsock:'' spec then listen_vsock pf lb nw spec n
      else case ConsumePrefix lb spec ''acceptfd:'' of
        Some fd \<Rightarrow> listen_acceptfd pf nw fd n
      | None \<Rightarrow> listen_local pf nw spec n)"

section \<open>Numbers and their text\<close>

lemma digit_char: "d < 10 \<Longrightarrow> isdigit (''0123456789'' ! d) \<and> digit_value (''0123456789'' ! d) = d"
proof -
  have "\<forall>d \<in> set [0..<10]. isdigit (''0123456789'' ! d) \<and> digit_value (''0123456789'' ! d) = d"
    by (simp add: upt_conv_Cons isdigit_def digit_value_def)
  then show "d < 10 \<Longrightarrow> ?thesis" by auto
qed

lemma dec_value_snoc: "dec_value (ds @ [c]) = 10 * dec_value ds + digit_value c"
  by (simp add: dec_value_def)

lemma dec_digits_props: "dec_digits n \<noteq> [] \<and> (\<forall>c \<in> set (dec_digits n). isdigit c) \<and> dec_value (dec_digits n) = n \<and>
  (hd (dec_digits n) = CHR ''0'' \<longrightarrow> n = 0)"
proof (induction n rule: dec_digits.induct)
  case (1 n)
  show ?case
  proof (cases "n < 10")
    case True
    have "dec_value [''0123456789'' ! n] = n" using digit_char [OF True] by (simp add: dec_value_def)
    moreover have "''0123456789'' ! n = CHR ''0'' \<longrightarrow> n = 0"
      using digit_char [OF True] by (auto simp: digit_value_def)
    ultimately show ?thesis using True digit_char [OF True] by (simp add: dec_digits.simps [of n])
  next
    case False
    from 1 [OF False] False digit_char [of "n mod 10"] show ?thesis
      by (subst (1 2 3 4) dec_digits.simps) (auto simp: dec_value_snoc)
  qed
qed

lemma ParseInt_dec_digits: "int_parser_ok lb \<Longrightarrow> n < 2 ^ 31 \<Longrightarrow> ParseInt lb (dec_digits n) = Some (int n)"
proof -
  assume lb: "int_parser_ok lb" and n: "n < 2 ^ 31"
  have "hd (dec_digits n) = CHR ''0'' \<longrightarrow> dec_digits n = ''0''"
    using dec_digits_props [of n] by (auto simp: dec_digits.simps [of 0])
  with lb n dec_digits_props [of n] show ?thesis unfolding int_parser_ok_def by metis
qed

lemma percent_s_dec_digits [simp]: "percent_s (dec_digits n) = dec_digits n"
proof (rule percent_s_id)
  have "\<not> isdigit CHR 0x00" by (simp add: isdigit_def)
  then show "CHR 0x00 \<notin> set (dec_digits n)" using dec_digits_props [of n] by blast
qed

lemma parse_tcp_port:
  assumes "int_parser_ok lb" and "p < 2 ^ 31"
  shows "parse_tcp_socket_spec lb pna (''tcp:'' @ dec_digits p) =
    (if p > 65535 then Inl (''bad port number '' @ quoted (dec_digits p)) else Inr ([], int p, None))"
  using ParseInt_dec_digits [OF assms] by (simp add: parse_tcp_socket_spec_def format_d_def)

text \<open>
  C37: all operations agree on a specification \<open>tcp:<port>\<close> with a port up to 65535: it is parsed to that
  port with an empty host name, it counts as local, a connection is made to that port of the loopback
  interface only, and a server is bound to that port, on all interfaces in a daemon or when asked to
  listen everywhere, else on the loopback interface, and its actual port is reported.
\<close>

theorem tcp_port_spec:
  assumes "int_parser_ok lb" and "p \<le> 65535" and "pf_host pf \<or> allowed"
  shows "parse_tcp_socket_spec lb pna (''tcp:'' @ dec_digits p) = Inr ([], int p, None) \<and>
    get_host_socket_spec_port pf lb pna (''tcp:'' @ dec_digits p) = Inr (int p) \<and>
    is_socket_spec pf (''tcp:'' @ dec_digits p) \<and> is_local_socket_spec pf lb pna (''tcp:'' @ dec_digits p) \<and>
    socket_spec_connect pf allowed lb pna nw (''tcp:'' @ dec_digits p) port n =
      finish_tcp lb nw port (int p) None (nw_loopback_client nw (int p) n) \<and>
    socket_spec_listen pf gListenAll lb pna nw (''tcp:'' @ dec_digits p) n =
      (case (if \<not> pf_host pf \<or> gListenAll then nw_inaddr_any_server nw (int p) n else nw_loopback_server nw (int p) True n) of
         (Inl e, n1) \<Rightarrow> (Inl e, n1)
       | (Inr fd, n1) \<Rightarrow> (Inr (fd, Some (nw_local_port nw fd n1)), n1))"
proof -
  let ?spec = "''tcp:'' @ dec_digits p"
  have parse: "parse_tcp_socket_spec lb pna ?spec = Inr ([], int p, None)" using parse_tcp_port [OF assms(1), of p pna] assms(2) by simp
  have pre: "prefix ''tcp:'' ?spec" by simp
  show ?thesis
    unfolding get_host_socket_spec_port_def is_socket_spec_def is_local_socket_spec_def socket_spec_connect_def connect_tcp_def
      socket_spec_listen_def listen_tcp_def parse
    using assms(3) pre by (auto simp: tcp_host_is_local_def)
qed

text \<open>A network without any peers, whose servers get descriptor 7.\<close>

definition quiet_network :: "unit network" where
  "quiet_network = \<lparr>nw_loopback_client = (\<lambda>_ n. (Inl ''refused'', n)), nw_connect = (\<lambda>_ _ n. (Inl ''refused'', n)),
     nw_local_client = (\<lambda>_ _ n. (Inl ''refused'', n)), nw_inaddr_any_server = (\<lambda>_ n. (Inr 7, n)), nw_loopback_server = (\<lambda>_ _ n. (Inr 7, n)),
     nw_local_server = (\<lambda>_ _ n. (Inr 7, n)), nw_local_port = (\<lambda>_ _. 5037), nw_vsock = (\<lambda>n. (Inl ''no vsock'', n)),
     nw_vsock_connect = (\<lambda>_ _ _ n. (False, n)), nw_vsock_bind = (\<lambda>_ _ n. (False, n)), nw_vsock_listen = (\<lambda>_ n. (False, n)),
     nw_vsock_port = (\<lambda>_ _. None), nw_close = (\<lambda>_ n. n), nw_set_tcp_keepalive = (\<lambda>_ _ n. n), nw_disable_tcp_nagle = (\<lambda>_ n. n),
     nw_fd_flags = (\<lambda>_ _. Inl ''bad''), nw_is_socket = (\<lambda>_ _. False), nw_dup = (\<lambda>_ n. (Inl ''bad'', n)),
     nw_mdns_info = (\<lambda>_ _. None), nw_getenv = (\<lambda>_. None)\<rparr>"

definition linux_host :: platform where
  "linux_host = \<lparr>pf_host = True, pf_linux = True, pf_windows = False\<rparr>"

definition no_addresses :: address_parser where
  "no_addresses s port = Inl ''bad address''"

theorem tcp_port_spec_witness:
  "int_parser_ok ref_libbase \<and> get_host_socket_spec_port linux_host ref_libbase no_addresses (''tcp:'' @ dec_digits 5037) = Inr 5037 \<and>
   socket_spec_listen linux_host False ref_libbase no_addresses quiet_network (''tcp:'' @ dec_digits 5037) () = (Inr (7, Some 5037), ())"
  using tcp_port_spec [OF ref_int_parser_ok, of 5037 linux_host False no_addresses quiet_network None "()" False] ref_int_parser_ok
  by (simp add: linux_host_def quiet_network_def)

lemma local_type_l: "local_type pf spec = Some x \<Longrightarrow> prefix ''l'' spec"
  by (cases spec) (auto simp: local_type_def kLocalSocketTypes_def split: if_splits)

lemma local_not_tcp:
  assumes "prefix ''l'' spec"
  shows "\<not> prefix ''tcp:'' spec" "\<not> prefix ''vsock:'' spec" "\<not> prefix ''acceptfd:'' spec"
proof -
  obtain r where "spec = CHR ''l'' # r" using assms by (auto simp: prefix_def)
  then show "\<not> prefix ''tcp:'' spec" "\<not> prefix ''vsock:'' spec" "\<not> prefix ''acceptfd:'' spec" by simp_all
qed





end
