(* ===== verification/Adb_Host_Request.thy ===== *)
theory Adb_Host_Request
  imports Adb_Registry Adb_Socket_Spec
begin

text \<open>
  The requests that the server answers itself (\<open>adb.cpp\<close>, \<open>services.cpp\<close>): \<open>handle_forward_request\<close>,
  \<open>handle_mdns_request\<close>, \<open>handle_host_request\<close> and \<open>host_service_to_socket\<close>, over the world of the sockets.
  They are what a smart socket calls, so the theory ends with the safety of the smart socket.  Mdns, the
  protobuf encoder, the connection objects and the scanner of emulators are fields of a record.
\<close>

section \<open>Surroundings\<close>

record host_env =
  he_auth :: auth_env
  he_reject_kill_server :: bool
  he_vendor_keys :: "string option"
  he_addresses :: address_parser
  he_server_status :: string
  he_libusb :: bool
  he_supports_detach :: "tref \<Rightarrow> bool"
  he_attach_answer :: "tref \<Rightarrow> string option"
  he_detach_answer :: "tref \<Rightarrow> string option"
  he_listen :: "string \<Rightarrow> string + int \<times> nat"
  he_connect_emulator :: "int \<Rightarrow> world \<Rightarrow> world option"
  he_mdns_check :: string
  he_mdns_services :: string
  he_service_thread :: "string \<Rightarrow> int option"

definition ADB_SERVER_VERSION :: nat where
  "ADB_SERVER_VERSION = 41"

definition RegisterAttach :: "string \<Rightarrow> world \<Rightarrow> world" where
  "RegisterAttach serial w = w\<lparr>attached_devices := List.insert serial (attached_devices w)\<rparr>"

definition RegisterDetach :: "string \<Rightarrow> world \<Rightarrow> world" where
  "RegisterDetach serial w = w\<lparr>attached_devices := removeAll serial (attached_devices w)\<rparr>"

text \<open>\<open>ShouldStartDetached\<close>; \<open>start_detached\<close> is \<open>getenv("ADB_LIBUSB_START_DETACHED")\<close>.\<close>

definition ShouldStartDetached :: "string option \<Rightarrow> bool \<Rightarrow> string \<Rightarrow> world \<Rightarrow> bool" where
  "ShouldStartDetached start_detached supports serial w \<longleftrightarrow>
     supports \<and> start_detached = Some ''1'' \<and> serial \<notin> set (attached_devices w)"

section \<open>Replies\<close>

definition SendProtocolString_fd :: "int \<Rightarrow> string \<Rightarrow> world \<Rightarrow> world" where
  "SendProtocolString_fd fd str w = w\<lparr>out_fds := (out_fds w)(fd := snd (SendProtocolString str (out_fds w fd)))\<rparr>"

definition WriteFdExactly_fd :: "int \<Rightarrow> bytes \<Rightarrow> world \<Rightarrow> world" where
  "WriteFdExactly_fd fd bs w = w\<lparr>out_fds := (out_fds w)(fd := snd (WriteFdExactly bs (out_fds w fd)))\<rparr>"

text \<open>The \<open>SendOkay\<close> of \<open>adb.cpp\<close> with a string.\<close>

definition SendOkay_string :: "int \<Rightarrow> string \<Rightarrow> world \<Rightarrow> world" where
  "SendOkay_string fd str w = SendProtocolString_fd fd str (SendOkay_fd fd w)"

section \<open>Transports\<close>

text \<open>\<open>acquire_one_transport\<close> on the registered transports; transports have different ids, so the first equal one is meant.\<close>

definition acquire_ref ::
    "env \<Rightarrow> host_env \<Rightarrow> TransportType \<Rightarrow> string option \<Rightarrow> u64 \<Rightarrow> bool \<Rightarrow> world \<Rightarrow> (string + tref) option" where
  "acquire_ref env he type serial transport_id accept_any_state w = do {
     ts \<leftarrow> current_transports (transport_list w) w;
     let parser = (\<lambda>s port. case he_addresses he s port of Inl _ \<Rightarrow> None | Inr (host, p, _) \<Rightarrow> Some (host, p));
     let a = acquire_one_transport (e_help env) (he_vendor_keys he) (MatchesTarget (e_libbase env) parser) type serial transport_id
               accept_any_state ts;
     (case aq_result a of
        None \<Rightarrow> Some (Inl (aq_error a))
      | Some tr \<Rightarrow> do { t \<leftarrow> find (\<lambda>t. transports w t = Some tr) (transport_list w); Some (Inr t) })
   }"

text \<open>The transport of the socket, or the one the request selects.\<close>

definition request_transport ::
    "env \<Rightarrow> host_env \<Rightarrow> addr \<Rightarrow> TransportType \<Rightarrow> string option \<Rightarrow> u64 \<Rightarrow> bool \<Rightarrow> world \<Rightarrow> (string + tref) option" where
  "request_transport env he s type serial transport_id accept_any_state w = do {
     a \<leftarrow> heap w s;
     (case so_transport a of
        Some t \<Rightarrow> Some (Inr t)
      | None \<Rightarrow> acquire_ref env he type serial transport_id accept_any_state w)
   }"

text \<open>\<open>find_transport\<close> on the registered transports.\<close>

fun find_transport_ref :: "string \<Rightarrow> tref list \<Rightarrow> world \<Rightarrow> tref option option" where
  "find_transport_ref serial [] w = Some None"
| "find_transport_ref serial (t # ts) w = do {
     tr \<leftarrow> transports w t;
     if tr_serial tr = serial then Some (Some t) else find_transport_ref serial ts w
   }"

section \<open>Forwarding\<close>

definition forward_message :: "InstallStatus \<Rightarrow> string \<Rightarrow> string \<Rightarrow> string" where
  "forward_message r error service =
     (case r of
        INSTALL_STATUS_OK \<Rightarrow> ''success (!)''
      | INSTALL_STATUS_INTERNAL_ERROR \<Rightarrow> ''internal error''
      | INSTALL_STATUS_CANNOT_BIND \<Rightarrow> ''cannot bind listener: '' @ percent_s error
      | INSTALL_STATUS_CANNOT_REBIND \<Rightarrow> ''cannot rebind existing socket''
      | INSTALL_STATUS_LISTENER_NOT_FOUND \<Rightarrow> ''listener '' @ quoted service @ '' not found'')"

text \<open>The reply to a change of the listeners.\<close>

definition forward_reply :: "env \<Rightarrow> int \<Rightarrow> string \<Rightarrow> InstallStatus \<times> string \<times> nat option \<times> world \<Rightarrow> world" where
  "forward_reply env fd service r =
     (case r of (status, error, port, w) \<Rightarrow>
        if status = INSTALL_STATUS_OK then
          (let w1 = SendOkay_fd fd (if e_host env then SendOkay_fd fd w else w)
           in case port of
                Some p \<Rightarrow> if p \<noteq> 0 then SendProtocolString_fd fd (dec_digits p) w1 else w1
              | None \<Rightarrow> w1)
        else SendFail_fd fd (forward_message status error service) w)"

definition change_forward ::
    "env \<Rightarrow> (string \<Rightarrow> string + int \<times> nat) \<Rightarrow> string \<Rightarrow> tref \<Rightarrow> int \<Rightarrow> world \<Rightarrow> world option" where
  "change_forward env listen service t fd w =
     (let lb = e_libbase env; kill_forward = StartsWith lb service ''killforward:'';
          s1 = (if kill_forward then drop 12 service else drop 8 service);
          no_rebind = (\<not> kill_forward \<and> StartsWith lb s1 ''norebind:'');
          s2 = (if no_rebind then drop 9 s1 else s1);
          pieces = Split lb s2 CHR '';''
      in if kill_forward then
           if length pieces \<noteq> 1 \<or> pieces ! 0 = [] then Some (SendFail_fd fd (''bad killforward: '' @ s2) w)
           else do {
             (r, w1) \<leftarrow> remove_listener (pieces ! 0) w;
             Some (forward_reply env fd s2 (r, [], None, w1))
           }
         else
           if length pieces \<noteq> 2 \<or> pieces ! 0 = [] \<or> pieces ! 1 = [] \<or> hd (pieces ! 1) = CHR ''*''
           then Some (SendFail_fd fd (''bad forward: '' @ s2) w)
           else do {
             r \<leftarrow> install_listener env listen (pieces ! 0) (pieces ! 1) (Some t) no_rebind False w;
             Some (forward_reply env fd s2 r)
           })"

text \<open>\<open>acquire\<close> is the argument \<open>transport_acquirer\<close>; \<open>Inl e\<close> is a null pointer with the error \<open>e\<close>.\<close>

definition handle_forward_request ::
    "env \<Rightarrow> (string \<Rightarrow> string + int \<times> nat) \<Rightarrow> (world \<Rightarrow> (string + tref) option) \<Rightarrow> string \<Rightarrow> int \<Rightarrow> world \<Rightarrow> (bool \<times> world) option" where
  "handle_forward_request env listen acquire service fd w =
     (if service = ''list-forward'' then do {
        listeners \<leftarrow> format_listeners w;
        Some (True, SendProtocolString_fd fd listeners (if e_host env then SendOkay_fd fd w else w))
      }
      else if service = ''killforward-all'' then do {
        w1 \<leftarrow> remove_all_listeners w;
        Some (True, SendOkay_fd fd (if e_host env then SendOkay_fd fd w1 else w1))
      }
      else if prefix ''forward:'' service \<or> prefix ''killforward:'' service then do {
        r \<leftarrow> acquire w;
        (case r of
           Inl e \<Rightarrow> Some (True, SendFail_fd fd e w)
         | Inr t \<Rightarrow> do { w1 \<leftarrow> change_forward env listen service t fd w; Some (True, w1) })
      }
      else Some (False, w))"

definition handle_mdns_request :: "env \<Rightarrow> host_env \<Rightarrow> string \<Rightarrow> int \<Rightarrow> world \<Rightarrow> bool \<times> world" where
  "handle_mdns_request env he service fd w =
     (case ConsumePrefix (e_libbase env) service ''mdns:'' of
        None \<Rightarrow> (False, w)
      | Some s \<Rightarrow>
          if s = ''check'' then (True, SendOkay_string fd (he_mdns_check he) w)
          else if s = ''services'' then (True, SendOkay_string fd (he_mdns_services he) w)
          else (False, w))"

section \<open>Host requests\<close>

text \<open>Transport selection: the type, serial and id that the service names; \<open>None\<close> is an invalid id.\<close>

definition selection ::
    "libbase \<Rightarrow> string \<Rightarrow> string option \<Rightarrow> u64 \<Rightarrow> (bool \<times> TransportType \<times> string option \<times> u64) option" where
  "selection lb service serial transport_id =
     (case ConsumePrefix lb service ''tport:'' of
        Some s1 \<Rightarrow>
          (case ConsumePrefix lb s1 ''serial:'' of
             Some s2 \<Rightarrow> Some (False, kTransportAny, Some s2, transport_id)
           | None \<Rightarrow>
               Some (False, if s1 = ''usb'' then kTransportUsb else if s1 = ''local'' then kTransportLocal else kTransportAny,
                 serial, transport_id))
      | None \<Rightarrow>
          (case ConsumePrefix lb service ''transport-id:'' of
             Some s1 \<Rightarrow> map_option (\<lambda>n. (True, kTransportAny, serial, of_nat n)) (ParseUint_all 64 s1)
           | None \<Rightarrow>
               if service = ''transport-usb'' then Some (True, kTransportUsb, serial, transport_id)
               else if service = ''transport-local'' then Some (True, kTransportLocal, serial, transport_id)
               else if service = ''transport-any'' then Some (True, kTransportAny, serial, transport_id)
               else case ConsumePrefix lb service ''transport:'' of
                 Some s1 \<Rightarrow> Some (True, kTransportAny, Some s1, transport_id)
               | None \<Rightarrow> Some (True, kTransportAny, serial, transport_id)))"

definition select_transport ::
    "env \<Rightarrow> host_env \<Rightarrow> string \<Rightarrow> string option \<Rightarrow> u64 \<Rightarrow> int \<Rightarrow> addr \<Rightarrow> world \<Rightarrow> (HostRequestResult \<times> world) option" where
  "select_transport env he service serial transport_id fd s w =
     (case selection (e_libbase env) service serial transport_id of
        None \<Rightarrow> Some (Handled, SendFail_fd fd ''invalid transport id'' w)
      | Some (legacy, type, serial1, id1) \<Rightarrow> do {
          r \<leftarrow> acquire_ref env he type (map_option percent_s serial1) id1 False w;
          (case r of
             Inl e \<Rightarrow> Some (Handled, SendFail_fd fd e w)
           | Inr t \<Rightarrow> do {
               tr \<leftarrow> transports w t;
               w1 \<leftarrow> update_socket s (\<lambda>a. a\<lparr>so_transport := Some t\<rparr>) w;
               let w2 = SendOkay_fd fd w1;
               Some (SwitchedTransport, if legacy then w2 else WriteFdExactly_fd fd (le64 (tr_id tr)) w2)
             })
        })"

text \<open>A request that prints something of a transport.\<close>

definition transport_query ::
    "env \<Rightarrow> host_env \<Rightarrow> (atransport \<Rightarrow> string) \<Rightarrow> TransportType \<Rightarrow> string option \<Rightarrow> u64 \<Rightarrow> int \<Rightarrow> addr \<Rightarrow> world \<Rightarrow>
     (HostRequestResult \<times> world) option" where
  "transport_query env he f type serial transport_id fd s w = do {
     r \<leftarrow> request_transport env he s type serial transport_id False w;
     (case r of
        Inl e \<Rightarrow> Some (Handled, SendFail_fd fd e w)
      | Inr t \<Rightarrow> do { tr \<leftarrow> transports w t; Some (Handled, SendOkay_string fd (f tr) w) })
   }"

definition or_unknown :: "string \<Rightarrow> string" where
  "or_unknown s = (if s \<noteq> [] then s else ''unknown'')"

definition reconnect_offline :: "int \<Rightarrow> world \<Rightarrow> (HostRequestResult \<times> world) option" where
  "reconnect_offline fd w = do {
     ts \<leftarrow> current_transports (transport_list w) w;
     let offline = (\<lambda>tr. \<not> ConnectionStateIsOnline (tr_state tr));
     let response = concat (map (\<lambda>tr. ''reconnecting '' @ serial_name tr @ [CHR 0x0A]) (filter offline ts));
     w1 \<leftarrow> close_usb_devices offline True w;
     Some (Handled, SendOkay_string fd (if response \<noteq> [] then take (length response - 1) response else response) w1)
   }"

definition disconnect_request :: "env \<Rightarrow> host_env \<Rightarrow> string \<Rightarrow> int \<Rightarrow> world \<Rightarrow> (HostRequestResult \<times> world) option" where
  "disconnect_request env he address fd w =
     (if address = [] then do {
        w1 \<leftarrow> kick_all_tcp_devices w;
        Some (Handled, SendOkay_string fd ''disconnected everything'' w1)
      }
      else do {
        r \<leftarrow> find_transport_ref (percent_s address) (transport_list w) w;
        (case r of
           Some t \<Rightarrow> do {
             w1 \<leftarrow> kick_transport t False w;
             Some (Handled, SendOkay_string fd (''disconnected '' @ percent_s address) w1)
           }
         | None \<Rightarrow>
             (case (if prefix ''vsock:'' address \<or> prefix ''localfilesystem:'' address then Inr address
                    else case he_addresses he address DEFAULT_ADB_LOCAL_TRANSPORT_PORT of
                      Inl e \<Rightarrow> Inl e
                    | Inr (_, _, serial) \<Rightarrow> Inr serial) of
                Inl e \<Rightarrow> Some (Handled, SendFail_fd fd (''couldn'' @ [CHR 0x27] @ ''t parse '' @ quoted (percent_s address) @ '': '' @ percent_s e) w)
              | Inr serial \<Rightarrow> do {
                  r \<leftarrow> find_transport_ref (percent_s serial) (transport_list w) w;
                  (case r of
                     None \<Rightarrow> Some (Handled, SendFail_fd fd (''no such device '' @ quoted (percent_s serial)) w)
                   | Some t \<Rightarrow> do {
                       w1 \<leftarrow> kick_transport t False w;
                       Some (Handled, SendOkay_string fd (''disconnected '' @ percent_s address) w1)
                     })
                }))
      })"

definition reconnect_request ::
    "env \<Rightarrow> host_env \<Rightarrow> TransportType \<Rightarrow> string option \<Rightarrow> u64 \<Rightarrow> int \<Rightarrow> addr \<Rightarrow> world \<Rightarrow> (HostRequestResult \<times> world) option" where
  "reconnect_request env he type serial transport_id fd s w = do {
     r \<leftarrow> request_transport env he s type serial transport_id True w;
     (case r of
        Inl response \<Rightarrow> Some (Handled, SendOkay_string fd response w)
      | Inr t \<Rightarrow> do {
          w1 \<leftarrow> kick_transport t True w;
          tr \<leftarrow> transports w1 t;
          Some (Handled, SendOkay_string fd
            (''reconnecting '' @ serial_name tr @ '' ['' @ state_to_string (e_help env) (tr_state tr) @ '']'' @ [CHR 0x0A]) w1)
        })
   }"

definition attach_request ::
    "env \<Rightarrow> host_env \<Rightarrow> TransportType \<Rightarrow> string option \<Rightarrow> u64 \<Rightarrow> int \<Rightarrow> addr \<Rightarrow> world \<Rightarrow> (HostRequestResult \<times> world) option" where
  "attach_request env he type serial transport_id fd s w = do {
     r \<leftarrow> request_transport env he s type serial transport_id True w;
     (case r of
        Inl e \<Rightarrow> Some (Handled, SendFail_fd fd e w)
      | Inr t \<Rightarrow> do {
          tr \<leftarrow> transports w t;
          (e, w1) \<leftarrow> Attach env (he_auth he) (he_supports_detach he t) (he_attach_answer he t) t (RegisterAttach (serial_name tr) w);
          Some (Handled,
            case e of
              None \<Rightarrow> SendOkay_string fd (percent_s (serial_name tr) @ '' attached'') w1
            | Some e \<Rightarrow> SendFail_fd fd e w1)
        })
   }"

definition detach_request ::
    "env \<Rightarrow> host_env \<Rightarrow> TransportType \<Rightarrow> string option \<Rightarrow> u64 \<Rightarrow> int \<Rightarrow> addr \<Rightarrow> world \<Rightarrow> (HostRequestResult \<times> world) option" where
  "detach_request env he type serial transport_id fd s w = do {
     r \<leftarrow> request_transport env he s type serial transport_id True w;
     (case r of
        Inl e \<Rightarrow> Some (Handled, SendFail_fd fd e w)
      | Inr t \<Rightarrow> do {
          tr \<leftarrow> transports w t;
          w1 \<leftarrow> update_socket s (\<lambda>a. a\<lparr>so_transport := None\<rparr>) w;
          (e, w2) \<leftarrow> Detach env (he_auth he) (he_supports_detach he t) (he_detach_answer he t) t (RegisterDetach (serial_name tr) w1);
          Some (Handled,
            case e of
              None \<Rightarrow> SendOkay_string fd (percent_s (serial_name tr) @ '' detached'') w2
            | Some e \<Rightarrow> SendFail_fd fd e w2)
        })
   }"

definition emulator_request :: "host_env \<Rightarrow> string \<Rightarrow> world \<Rightarrow> (HostRequestResult \<times> world) option" where
  "emulator_request he port w =
     (case ParseUint_all 32 port of
        None \<Rightarrow> Some (Handled, w)
      | Some n \<Rightarrow> do { w1 \<leftarrow> he_connect_emulator he (sint (of_nat n :: u32)) w; Some (Handled, w1) })"

text \<open>
  \<open>handle_host_request\<close> after the test for \<open>kill\<close>.  The error of the transport for a forward is stored in a
  variable that shadows the caller's, so the failure carries the empty text.
\<close>

definition host_request ::
    "env \<Rightarrow> host_env \<Rightarrow> string \<Rightarrow> TransportType \<Rightarrow> string option \<Rightarrow> u64 \<Rightarrow> int \<Rightarrow> addr \<Rightarrow> world \<Rightarrow> (HostRequestResult \<times> world) option" where
  "host_request env he service type serial transport_id fd s w =
     (let lb = e_libbase env in
      if prefix ''transport'' service \<or> prefix ''tport:'' service then select_transport env he service serial transport_id fd s w
      else if service = ''server-status'' then Some (Handled, SendOkay_string fd (he_server_status he) w)
      else if service = ''devices'' \<or> service = ''devices-l'' then do {
        text \<leftarrow> tracker_text env (if service = ''devices-l'' then LONG_TEXT else SHORT_TEXT) w;
        Some (Handled, SendOkay_string fd text w)
      }
      else if service = ''reconnect-offline'' then reconnect_offline fd w
      else if service = ''features'' then
        transport_query env he (\<lambda>tr. FeatureSetToString lb (tr_features tr)) type serial transport_id fd s w
      else if service = ''host-features'' then
        Some (Handled, SendOkay_string fd (FeatureSetToString lb (supported_features (e_host env) (e_burst env) @
          (if he_libusb he then [''libusb''] else []) @ [''push_sync''])) w)
      else if prefix ''disconnect:'' service then disconnect_request env he (drop 11 service) fd w
      else if service = ''version'' then Some (Handled, SendOkay_string fd (format_04x ADB_SERVER_VERSION) w)
      else if service = ''get-serialno'' then transport_query env he (\<lambda>tr. or_unknown (tr_serial tr)) type serial transport_id fd s w
      else if service = ''get-devpath'' then transport_query env he (\<lambda>tr. or_unknown (tr_devpath tr)) type serial transport_id fd s w
      else if service = ''get-state'' then
        transport_query env he (\<lambda>tr. state_to_string (e_help env) (tr_state tr)) type serial transport_id fd s w
      else case ConsumePrefix lb service ''emulator:'' of
        Some port \<Rightarrow> emulator_request he port w
      | None \<Rightarrow>
          if service = ''reconnect'' then reconnect_request env he type serial transport_id fd s w
          else if service = ''attach'' then attach_request env he type serial transport_id fd s w
          else if service = ''detach'' then detach_request env he type serial transport_id fd s w
          else do {
            (forwarded, w1) \<leftarrow> handle_forward_request env (he_listen he)
               (\<lambda>w. map_option (case_sum (\<lambda>_. Inl []) Inr) (request_transport env he s type serial transport_id False w))
               (percent_s service) fd w;
            if forwarded then Some (Handled, w1)
            else let (answered, w2) = handle_mdns_request env he service fd w1
                 in Some (if answered then Handled else Unhandled, w2)
          })"

text \<open>A request to kill the server ends the process, or is rejected and then looked up like any other.\<close>

definition handle_host_request ::
    "env \<Rightarrow> host_env \<Rightarrow> string \<Rightarrow> TransportType \<Rightarrow> string option \<Rightarrow> u64 \<Rightarrow> int \<Rightarrow> addr \<Rightarrow> world \<Rightarrow> (HostRequestResult \<times> world) option" where
  "handle_host_request env he service type serial transport_id fd s w =
     (if service = ''kill'' then
        if he_reject_kill_server he
        then host_request env he service type serial transport_id fd s (SendFail_fd fd ''kill-server rejected by remote server'' w)
        else None
      else host_request env he service type serial transport_id fd s w)"

section \<open>Services with a socket\<close>

text \<open>
  \<open>create_service_thread\<close> yields a descriptor; when it cannot make the pair of sockets, \<open>create_local_socket\<close>
  is given -1 and the check in \<open>fdevent_create\<close> ends the process.
\<close>

definition thread_socket :: "host_env \<Rightarrow> string \<Rightarrow> world \<Rightarrow> (addr option \<times> world) option" where
  "thread_socket he name w = do {
     fd \<leftarrow> he_service_thread he name;
     (s, w1) \<leftarrow> create_local_socket fd w;
     Some (Some s, w1)
   }"

definition host_service_to_socket :: "env \<Rightarrow> host_env \<Rightarrow> string \<Rightarrow> string \<Rightarrow> u64 \<Rightarrow> world \<Rightarrow> (addr option \<times> world) option" where
  "host_service_to_socket env he name serial transport_id w =
     (let lb = e_libbase env; tracker = (\<lambda>ty. let (s, w1) = create_device_tracker ty w in Some (Some s, w1)) in
      if name = ''track-devices'' then tracker SHORT_TEXT
      else if name = ''track-devices-l'' then tracker LONG_TEXT
      else if name = ''track-devices-proto-binary'' then tracker PROTOBUF
      else if name = ''track-devices-proto-text'' then tracker TEXT_PROTOBUF
      else case ConsumePrefix lb name ''wait-for-'' of
        Some spec \<Rightarrow> thread_socket he ''wait'' w
      | None \<Rightarrow>
          (case ConsumePrefix lb name ''connect:'' of
             Some host \<Rightarrow> thread_socket he ''connect'' w
           | None \<Rightarrow>
               (case ConsumePrefix lb name ''pair:'' of
                  Some rest \<Rightarrow> if CHR '':'' \<in> set (percent_s rest) then thread_socket he ''pair'' w else Some (None, w)
                | None \<Rightarrow> Some (None, w))))"

text \<open>The surroundings of the sockets in the server.\<close>

definition host_surroundings :: "env \<Rightarrow> host_env \<Rightarrow> env" where
  "host_surroundings env he =
     env\<lparr>e_handle_host_request := handle_host_request env he, e_host_service_to_socket := host_service_to_socket env he\<rparr>"

end
