(* ===== verification/Adb_Smart_Socket.thy ===== *)
theory Adb_Smart_Socket
  imports Adb_Host_Request
begin

text \<open>
  The smart socket with the host requests of the server behind it: a client's request, however it is
  cut into pieces, is answered, handed to a service or to a device without a failing \<open>CHECK\<close> or a use
  of a freed object, and the invariant of the server is kept.  The point that needs care is that a
  request may close sockets (\<open>detach\<close> takes a transport offline) while the smart socket that asked for it
  and its client are still needed; \<open>steady\<close> says that they are still there.
\<close>

section \<open>The smart socket and its client stay\<close>

definition smart_at :: "addr \<Rightarrow> addr \<Rightarrow> world \<Rightarrow> bool" where
  "smart_at s p w \<longleftrightarrow> (\<exists>a b. heap w s = Some a \<and> so_enqueue a = SmartEnqueue \<and> so_peer a = Some p \<and>
     heap w p = Some b \<and> is_local b \<and> so_peer b = Some s \<and> so_transport b = None)"

definition steady :: "addr \<Rightarrow> addr \<Rightarrow> world \<Rightarrow> world \<Rightarrow> bool" where
  "steady s p w w' \<longleftrightarrow> server_inv w' \<and> smart_at s p w' \<and> dom (transports w) \<subseteq> dom (transports w') \<and>
     local_socket_next_id w' = local_socket_next_id w"

lemma steady_refl: "server_inv w \<Longrightarrow> smart_at s p w \<Longrightarrow> steady s p w w"
  by (simp add: steady_def)

lemma steady_trans: "steady s p w w1 \<Longrightarrow> steady s p w1 w2 \<Longrightarrow> steady s p w w2"
  by (auto simp: steady_def)

lemma smart_at_heap: "heap w' = heap w \<Longrightarrow> smart_at s p w' = smart_at s p w"
  by (simp add: smart_at_def)

lemma steady_dom: "steady s p w w' \<Longrightarrow> transports w t \<noteq> None \<Longrightarrow> transports w' t \<noteq> None"
  by (auto simp: steady_def)

lemma same_sockets_dom: "same_sockets w w' \<Longrightarrow> dom (transports w') = dom (transports w)"
  by (auto simp: same_sockets_def dom_def)

text \<open>A step that only writes to descriptors, or registers attached devices.\<close>

definition io_only :: "world \<Rightarrow> world \<Rightarrow> bool" where
  "io_only w w' \<longleftrightarrow> (\<exists>fo ad. w' = w\<lparr>out_fds := fo, attached_devices := ad\<rparr>)"

lemma server_inv_io: "server_inv (w\<lparr>out_fds := fo, attached_devices := ad\<rparr>) = server_inv w"
proof -
  have "sock_inv (w\<lparr>out_fds := fo, attached_devices := ad\<rparr>) = sock_inv w"
    by (rule sock_inv_same) (simp_all add: same_sockets_def)
  then show ?thesis by (simp add: server_inv_def listener_inv_def listeners_ok_def auth_ids_ok_def callbacks_def)
qed

lemma io_steady: "io_only w w' \<Longrightarrow> server_inv w \<Longrightarrow> smart_at s p w \<Longrightarrow> steady s p w w'"
  by (auto simp: io_only_def steady_def server_inv_io smart_at_def)

lemma io_only_refl [simp]: "io_only w w"
  unfolding io_only_def by (rule exI [of _ "out_fds w"], rule exI [of _ "attached_devices w"]) simp

lemma io_only_trans:
  assumes "io_only w w1" and "io_only w1 w2"
  shows "io_only w w2"
proof -
  obtain f a g b where "w1 = w\<lparr>out_fds := f, attached_devices := a\<rparr>" "w2 = w1\<lparr>out_fds := g, attached_devices := b\<rparr>"
    using assms unfolding io_only_def by blast
  then have "w2 = w\<lparr>out_fds := g, attached_devices := b\<rparr>" by simp
  then show ?thesis unfolding io_only_def by blast
qed

lemma io_only_out: "io_only w (w\<lparr>out_fds := f\<rparr>)"
  unfolding io_only_def by (rule exI [of _ f], rule exI [of _ "attached_devices w"]) simp

lemma io_only_replies [simp]:
  "io_only w (SendFail_fd fd m w)" "io_only w (SendOkay_fd fd w)" "io_only w (SendProtocolString_fd fd m w)"
  "io_only w (WriteFdExactly_fd fd bs w)"
  by (simp_all add: SendFail_fd_def SendOkay_fd_def SendProtocolString_fd_def WriteFdExactly_fd_def io_only_out)

lemma io_only_string [simp]: "io_only w (SendOkay_string fd m w)"
  unfolding SendOkay_string_def using io_only_trans io_only_replies by blast

lemma io_only_attached [simp]: "io_only w (RegisterAttach m w)" "io_only w (RegisterDetach m w)"
proof -
  have "io_only w (w\<lparr>attached_devices := ad\<rparr>)" for ad
    unfolding io_only_def by (rule exI [of _ "out_fds w"], rule exI [of _ ad]) simp
  then show "io_only w (RegisterAttach m w)" "io_only w (RegisterDetach m w)"
    by (simp_all add: RegisterAttach_def RegisterDetach_def)
qed

section \<open>Steps that keep the pair\<close>

text \<open>A computation whose result keeps the pair.\<close>

definition steady_run :: "addr \<Rightarrow> addr \<Rightarrow> world \<Rightarrow> ('r \<times> world) option \<Rightarrow> bool" where
  "steady_run s p w r \<longleftrightarrow> (\<exists>x w'. r = Some (x, w') \<and> steady s p w w')"

lemma steady_run_Some: "steady s p w w' \<Longrightarrow> steady_run s p w (Some (x, w'))"
  by (auto simp: steady_run_def)

lemma steady_run_io: "server_inv w \<Longrightarrow> smart_at s p w \<Longrightarrow> io_only w w' \<Longrightarrow> steady_run s p w (Some (x, w'))"
  by (rule steady_run_Some) (rule io_steady)

lemma steady_run_if: "steady_run s p w r1 \<Longrightarrow> steady_run s p w r2 \<Longrightarrow> steady_run s p w (if c then r1 else r2)"
  by simp

text \<open>An update of one transport that does not concern its callbacks.\<close>

lemma steady_on_transport:
  assumes "server_inv w" and "smart_at s p w" and "transports w t = Some tr"
    and "tr_disconnects (f tr) = tr_disconnects tr" "tr_auth_id (f tr) = tr_auth_id tr"
  obtains w' where "on_transport t f w = Some w'" and "steady s p w w'" and "heap w' = heap w"
proof -
  note ok = on_transport_ok [of w t tr f, OF assms(1,3,4,5)]
  show ?thesis
    by (rule that [OF ok(1)]) (use ok(2) assms(2) smart_at_heap in \<open>auto simp: steady_def smart_at_def\<close>)
qed

lemma Kick_fields [simp]: "tr_disconnects (Kick tr) = tr_disconnects tr" "tr_auth_id (Kick tr) = tr_auth_id tr"
    "tr_disconnects (Reset tr) = tr_disconnects tr" "tr_auth_id (Reset tr) = tr_auth_id tr"
  by (simp_all add: Kick_def Reset_def)

lemma steady_kick:
  assumes "server_inv w" and "smart_at s p w" and "transports w t \<noteq> None"
  obtains w' where "kick_transport t reset w = Some w'" and "steady s p w w'"
proof (cases "t \<in> set (transport_list w)")
  case True
  obtain tr where "transports w t = Some tr" using assms(3) by blast
  note on = steady_on_transport [OF assms(1,2) this]
  obtain w1 w2 where "on_transport t Reset w = Some w1" "steady s p w w1" "on_transport t Kick w = Some w2" "steady s p w w2"
    using on [of Reset] on [of Kick] by (metis Kick_fields)
  with that True show ?thesis by (cases reset) (auto simp: kick_transport_def)
next
  case False
  with that steady_refl [OF assms(1,2)] show ?thesis by (simp add: kick_transport_def)
qed

lemma steady_close_usb:
  assumes "server_inv w" and "smart_at s p w" and "\<forall>t \<in> set ts. transports w t \<noteq> None"
  shows "\<exists>w'. close_usb_devices_in P reset ts w = Some w' \<and> steady s p w w'"
  using assms
proof (induction ts arbitrary: w)
  case Nil
  with steady_refl show ?case by simp
next
  case (Cons t ts)
  obtain tr where tr: "transports w t = Some tr" using Cons.prems(3) by auto
  let ?f = "\<lambda>tr. if P tr then if reset then Reset tr else Kick tr else tr"
  obtain w1 where w1: "on_transport t ?f w = Some w1" "steady s p w w1"
    by (rule steady_on_transport [OF Cons.prems(1,2) tr, of ?f]) auto
  have "server_inv w1" "smart_at s p w1" using w1(2) by (simp_all add: steady_def)
  moreover have "\<forall>t \<in> set ts. transports w1 t \<noteq> None" using steady_dom [OF w1(2)] Cons.prems(3) by simp
  ultimately obtain w2 where w2: "close_usb_devices_in P reset ts w1 = Some w2" "steady s p w1 w2" using Cons.IH by blast
  have "steady s p w w2" by (rule steady_trans [OF w1(2) w2(2)])
  with w1(1) w2(1) show ?case by simp
qed

lemma steady_kick_those:
  assumes "server_inv w" and "smart_at s p w" and "\<forall>t \<in> set ts. transports w t \<noteq> None"
  shows "\<exists>w'. kick_those P ts w = Some w' \<and> steady s p w w'"
  using assms
proof (induction ts arbitrary: w)
  case Nil
  with steady_refl show ?case by simp
next
  case (Cons t ts)
  obtain tr where tr: "transports w t = Some tr" using Cons.prems(3) by auto
  let ?f = "\<lambda>tr. if P tr then Kick tr else tr"
  obtain w1 where w1: "on_transport t ?f w = Some w1" "steady s p w w1"
    by (rule steady_on_transport [OF Cons.prems(1,2) tr, of ?f]) auto
  have "server_inv w1" "smart_at s p w1" using w1(2) by (simp_all add: steady_def)
  moreover have "\<forall>t \<in> set ts. transports w1 t \<noteq> None" using steady_dom [OF w1(2)] Cons.prems(3) by simp
  ultimately obtain w2 where w2: "kick_those P ts w1 = Some w2" "steady s p w1 w2" using Cons.IH by blast
  have "steady s p w w2" by (rule steady_trans [OF w1(2) w2(2)])
  with w1(1) w2(1) show ?case by simp
qed

text \<open>Changes of the listeners.\<close>

lemma steady_callbacks:
  assumes "server_inv w" and "smart_at s p w" and "callbacks_only w w'" and "listener_inv w'"
  shows "steady s p w w'"
proof -
  note same = callbacks_only_same [OF assms(3)]
  have "server_inv w'" using assms(1,4) sock_inv_callbacks_only [OF assms(3)] by (simp add: server_inv_def)
  moreover have "smart_at s p w'" using assms(2) smart_at_heap [OF same(2)] by simp
  moreover have "dom (transports w) \<subseteq> dom (transports w')" using callbacks_only_dom [OF assms(3)] by simp
  ultimately show ?thesis using same(1) by (simp add: steady_def same_sockets_def)
qed

text \<open>Registered transports exist.\<close>

lemma registered: "server_inv w \<Longrightarrow> t \<in> set (transport_list w) \<Longrightarrow> transports w t \<noteq> None"
  by (auto simp: server_inv_def sock_inv_def transports_ok_def)

lemma socket_transport: "server_inv w \<Longrightarrow> smart_at s p w \<Longrightarrow> heap w s = Some a \<Longrightarrow> so_transport a = Some t \<Longrightarrow> transports w t \<noteq> None"
proof -
  assume "server_inv w" "smart_at s p w" and a: "heap w s = Some a" "so_transport a = Some t"
  then have inv: "sock_inv w" and "so_enqueue a = SmartEnqueue" by (auto simp: server_inv_def smart_at_def)
  then have "\<not> so_closing a" using inv_wf [OF inv a(1)] by (simp add: socket_wf_def)
  from live_transport [OF inv a(1) this] a(2) show ?thesis by (simp add: transport_alive_def)
qed

section \<open>Going offline under a request\<close>

text \<open>Telling the trackers about a change only touches the clients of the trackers.\<close>

lemma notify_trackers_others:
  assumes "sock_inv w" and "\<forall>s \<in> set ss. \<exists>a. heap w s = Some a \<and> so_enqueue a = TrackerEnqueue"
    and "notify_trackers env ss w = Some w'" and "heap w x = Some c" and "\<forall>s \<in> set ss. so_peer c \<noteq> Some s"
  shows "heap w' x = Some c"
  using assms
proof (induction ss arbitrary: w)
  case (Cons s ss)
  then obtain a where a: "heap w s = Some a" "so_enqueue a = TrackerEnqueue" by auto
  obtain upd ty where ty: "so_tracker a = Some (upd, ty)"
    using inv_wf [OF Cons.prems(1) a(1)] a(2) by (auto simp: socket_wf_def)
  obtain str where str: "tracker_text env ty w = Some str" using tracker_text_Some [OF Cons.prems(1)] by blast
  obtain r w1 p where w1: "device_tracker_send s str w = Some (r, w1)" "sock_inv w1" "so_peer a = Some p"
    "\<And>x. x \<noteq> p \<Longrightarrow> heap w1 x = heap w x" "same_sockets w w1"
    "\<exists>b'. heap w1 p = Some b' \<and> is_local b' \<and> so_peer b' = Some s \<and> \<not> so_closing b'"
    using device_tracker_send_ok [OF Cons.prems(1) a, of str] by blast
  obtain b where b: "heap w p = Some b" "so_peer b = Some s" "is_local a \<or> is_local b" by (rule peer_facts [OF Cons.prems(1) a(1) w1(3)])
  have x: "x \<noteq> p" using b(1,2) Cons.prems(4,5) by auto
  have tr: "\<forall>y \<in> set ss. \<exists>d. heap w1 y = Some d \<and> so_enqueue d = TrackerEnqueue"
  proof
    fix y assume "y \<in> set ss"
    then obtain d where d: "heap w y = Some d" "so_enqueue d = TrackerEnqueue" using Cons.prems(2) by auto
    then have "y \<noteq> p" using b a(2) by auto
    with d w1(4) show "\<exists>d. heap w1 y = Some d \<and> so_enqueue d = TrackerEnqueue" by simp
  qed
  have run: "notify_trackers env ss w1 = Some w'" using Cons.prems(3) a ty str w1(1) by simp
  have hx: "heap w1 x = Some c" using w1(4) [OF x] Cons.prems(4) by simp
  have "\<forall>y \<in> set ss. so_peer c \<noteq> Some y" using Cons.prems(5) by simp
  from Cons.IH [OF w1(2) tr run hx this] show ?case .
qed simp

lemma update_transports_pair:
  assumes inv: "sock_inv w" and sm: "smart_at s p w" and run: "update_transports env w = Some w'"
  shows "heap w' s = heap w s \<and> heap w' p = heap w p"
proof (cases "e_host env")
  case True
  obtain v where v: "update_transport_status w = Some v" "notify_trackers env (device_tracker_list v) v = Some w'"
    using run True by (auto simp: update_transports_def split: bind_splits)
  have hv: "heap v = heap w" "device_tracker_list v = device_tracker_list w" "sock_inv v"
    using v(1) inv sock_inv_same [of v w] by (auto simp: update_transport_status_def same_sockets_def split: bind_splits if_splits)
  obtain a b where ab: "heap w s = Some a" "so_enqueue a = SmartEnqueue" "so_peer a = Some p" "heap w p = Some b" "is_local b"
    "so_peer b = Some s" "so_transport b = None" using sm by (auto simp: smart_at_def)
  have tr: "\<forall>x \<in> set (device_tracker_list v). \<exists>a. heap v x = Some a \<and> so_enqueue a = TrackerEnqueue"
    using inv_lists [OF hv(3)] unfolding lists_ok_def by blast
  then have no: "\<forall>x \<in> set (device_tracker_list v). so_peer a \<noteq> Some x" "\<forall>x \<in> set (device_tracker_list v). so_peer b \<noteq> Some x"
    using ab hv(1) by force+
  have "heap w' s = Some a" by (rule notify_trackers_others [OF hv(3) tr v(2) _ no(1)]) (simp add: hv ab)
  moreover have "heap w' p = Some b" by (rule notify_trackers_others [OF hv(3) tr v(2) _ no(2)]) (simp add: hv ab)
  ultimately show ?thesis using ab by simp
next
  case False
  with run show ?thesis by (simp add: update_transports_def)
qed

lemma steady_SetConnectionState:
  assumes inv: "server_inv w" and sm: "smart_at s p w" and t: "transports w t \<noteq> None"
  obtains w' where "SetConnectionState env t st w = Some w'" and "steady s p w w'" and "\<And>x. x \<in> {s, p} \<Longrightarrow> heap w' x = heap w x"
proof -
  obtain tr where tr: "transports w t = Some tr" using t by blast
  obtain w1 where w1: "on_transport t (\<lambda>tr. tr\<lparr>tr_state := st\<rparr>) w = Some w1" "steady s p w w1" "heap w1 = heap w"
    by (rule steady_on_transport [OF inv sm tr, of "\<lambda>tr. tr\<lparr>tr_state := st\<rparr>"]) simp_all
  have inv1: "server_inv w1" "sock_inv w1" "smart_at s p w1" using w1(2) by (simp_all add: steady_def server_inv_def)
  obtain w2 where w2: "update_transports env w1 = Some w2" "sock_inv w2" "same_sockets w1 w2"
    using update_transports_ok [OF inv1(2), of env] by blast
  note pair = update_transports_pair [OF inv1(2,3) w2(1)]
  have "server_inv w2" by (rule server_inv_outer [OF inv1(1) update_transports_outer [OF w2(1)] w2(2)])
  moreover have "smart_at s p w2" using inv1(3) pair by (simp add: smart_at_def)
  moreover have "dom (transports w1) \<subseteq> dom (transports w2)" using same_sockets_dom [OF w2(3)] by simp
  ultimately have "steady s p w1 w2" using w2(3) by (simp add: steady_def same_sockets_def)
  from steady_trans [OF w1(2) this] have st: "steady s p w w2" .
  have run: "SetConnectionState env t st w = Some w2" using w1(1) w2(1) by (simp add: SetConnectionState_def)
  show ?thesis by (rule that [OF run st]) (use pair w1(3) in auto)
qed

lemma steady_offline:
  assumes inv: "server_inv w" and sm: "smart_at s p w" and t: "transports w t = Some tr"
    and free: "\<And>a. heap w s = Some a \<Longrightarrow> so_transport a \<noteq> Some t"
  obtains w' where "handle_offline env ae t w = Some w'" and "steady s p w w'"
proof (cases "tr_state tr = kCsOffline")
  case True
  with that [of w] steady_refl [OF inv sm] t show ?thesis by (simp add: handle_offline_def)
next
  case False
  define w0 where "w0 = (if \<not> e_host env \<and> ae_android ae then DecrementActiveConnections w else w)"
  have inv0: "server_inv w0" using inv counters_ok by (simp add: w0_def)
  have h0: "heap w0 = heap w" "transports w0 = transports w" "local_socket_next_id w0 = local_socket_next_id w"
    by (simp_all add: w0_def DecrementActiveConnections_def)
  have sm0: "smart_at s p w0" using sm smart_at_heap [OF h0(1)] by simp
  obtain w1 where w1: "SetConnectionState env t kCsOffline w0 = Some w1" "steady s p w0 w1" "\<And>x. x \<in> {s, p} \<Longrightarrow> heap w1 x = heap w0 x"
    by (rule steady_SetConnectionState [OF inv0 sm0]) (use t h0 in auto)
  have inv1: "server_inv w1" "smart_at s p w1" using w1(2) by (simp_all add: steady_def)
  obtain tr1 where tr1: "transports w1 t = Some tr1" using steady_dom [OF w1(2)] t h0 by force
  obtain w2 where w2: "on_transport t (\<lambda>tr. tr\<lparr>tr_online := False\<rparr>) w1 = Some w2" "steady s p w1 w2" "heap w2 = heap w1"
    by (rule steady_on_transport [OF inv1 tr1, of "\<lambda>tr. tr\<lparr>tr_online := False\<rparr>"]) simp_all
  have inv2: "server_inv w2" "sock_inv w2" "smart_at s p w2" using w2(2) by (simp_all add: steady_def server_inv_def)
  obtain w3 where w3: "close_all_sockets t w2 = Some w3" "sock_inv w3" "same_sockets w2 w3"
    "\<forall>s a. heap w2 s = Some a \<longrightarrow> \<not> uses_transport t w2 a \<longrightarrow> heap w3 s = Some a"
    using close_all_sockets_ok [OF inv2(2), of t] by blast
  obtain a b where ab: "heap w2 s = Some a" "so_enqueue a = SmartEnqueue" "so_peer a = Some p" "heap w2 p = Some b" "is_local b"
    "so_peer b = Some s" "so_transport b = None" using inv2(3) by (auto simp: smart_at_def)
  have "heap w2 s = heap w s" using w1(3) [of s] w2(3) h0(1) by simp
  then have "so_transport a \<noteq> Some t" using free ab(1) by simp
  then have "\<not> uses_transport t w2 a" "\<not> uses_transport t w2 b" using ab by (auto simp: uses_transport_def)
  then have "heap w3 s = Some a" "heap w3 p = Some b" using w3(4) ab by blast+
  then have sm3: "smart_at s p w3" using ab by (simp add: smart_at_def)
  have inv3: "server_inv w3" by (rule server_inv_outer [OF inv2(1) close_all_sockets_outer [OF w3(1)] w3(2)])
  have "dom (transports w2) \<subseteq> dom (transports w3)" using same_sockets_dom [OF w3(3)] by simp
  then have st3: "steady s p w2 w3" using inv3 sm3 w3(3) by (simp add: steady_def same_sockets_def)
  obtain tr3 where tr3: "transports w3 t = Some tr3" using steady_dom [OF st3] steady_dom [OF w2(2)] tr1 by force
  have ok3: "listeners_ok w3" "auth_ids_ok w3" using inv3 by (simp_all add: server_inv_def listener_inv_def)
  obtain w4 where w4: "RunDisconnects t w3 = Some w4" "listeners_ok w4" "callbacks_only w3 w4" "auth_ids_ok w4"
    by (rule RunDisconnects_ok [OF ok3 tr3])
  have st4: "steady s p w3 w4" by (rule steady_callbacks [OF inv3 sm3 w4(3)]) (simp add: listener_inv_def w4)
  have "steady s p w0 w4" using w1(2) w2(2) st3 st4 steady_trans by blast
  then have "steady s p w w4" using h0 by (simp add: steady_def)
  moreover have "handle_offline env ae t w = Some w4"
    using t False w1(1) w2(1) w3(1) w4(1) unfolding handle_offline_def w0_def [symmetric] by (simp add: Let_def)
  ultimately show ?thesis using that by blast
qed

section \<open>Host requests\<close>

text \<open>
  What the requests need of their surroundings: the operating system does not resolve to a port that is
  forwarded already, service threads can be started, and connecting to an emulator only adds transports.
\<close>

definition emulators_ok :: "host_env \<Rightarrow> bool" where
  "emulators_ok he \<longleftrightarrow> (\<forall>port w. \<exists>trs ps. he_connect_emulator he port w = Some (w\<lparr>transports := trs, pending_list := ps\<rparr>) \<and>
     (\<forall>t tr. transports w t = Some tr \<longrightarrow> trs t = Some tr) \<and>
     (\<forall>t tr. transports w t = None \<longrightarrow> trs t = Some tr \<longrightarrow> tr_disconnects tr = []) \<and>
     set ps \<subseteq> set (pending_list w) \<union> (dom trs - dom (transports w)))"

definition host_env_ok :: "env \<Rightarrow> host_env \<Rightarrow> world \<Rightarrow> bool" where
  "host_env_ok env he w \<longleftrightarrow> libbase_ok (e_libbase env) \<and> length (get_connection_string env (he_auth he)) \<le> MAX_PAYLOAD_V1 \<and>
     (\<forall>name fd resolved. he_listen he name = Inr (fd, resolved) \<longrightarrow> resolved \<noteq> 0 \<longrightarrow> forward_table w (resolved_name name resolved) = None) \<and>
     (\<forall>name. he_service_thread he name \<noteq> None) \<and> emulators_ok he"

lemma steady_emulator:
  assumes ok: "emulators_ok he" and inv: "server_inv w" and sm: "smart_at s p w"
  obtains w' where "he_connect_emulator he port w = Some w'" and "steady s p w w'"
proof -
  obtain trs ps where run: "he_connect_emulator he port w = Some (w\<lparr>transports := trs, pending_list := ps\<rparr>)"
    and old: "\<forall>t tr. transports w t = Some tr \<longrightarrow> trs t = Some tr"
    and new: "\<forall>t tr. transports w t = None \<longrightarrow> trs t = Some tr \<longrightarrow> tr_disconnects tr = []"
    and ps: "set ps \<subseteq> set (pending_list w) \<union> (dom trs - dom (transports w))"
    using ok [unfolded emulators_ok_def, THEN spec, THEN spec, of port w] by blast
  let ?w = "w\<lparr>transports := trs, pending_list := ps\<rparr>"
  have at: "trs t = Some tr \<longleftrightarrow> transports w t = Some tr" if "d \<in> set (tr_disconnects tr)" for t tr d
  proof (cases "transports w t")
    case None
    then show ?thesis using new that by fastforce
  next
    case (Some u)
    then have "trs t = Some u" using old by blast
    with Some show ?thesis by simp
  qed
  have "callbacks ?w = callbacks w"
  proof -
    have "(\<exists>tr. trs t = Some tr \<and> ListenerDisconnect x \<in> set (tr_disconnects tr)) \<longleftrightarrow>
        (\<exists>tr. transports w t = Some tr \<and> ListenerDisconnect x \<in> set (tr_disconnects tr))" for x t
    proof -
      have "trs t = Some tr \<and> ListenerDisconnect x \<in> set (tr_disconnects tr) \<longleftrightarrow>
          transports w t = Some tr \<and> ListenerDisconnect x \<in> set (tr_disconnects tr)" for tr
        using at [of "ListenerDisconnect x" tr t] by blast
      then show ?thesis by blast
    qed
    then show ?thesis unfolding callbacks_def by simp
  qed
  moreover have "auth_ids_ok ?w"
  proof -
    have "auth_ids_ok w" using inv by (simp add: server_inv_def listener_inv_def)
    moreover have "transports w t = Some tr" if "transports ?w t = Some tr" "AdbDisconnected \<in> set (tr_disconnects tr)" for t tr
      using at [OF that(2), of t] that(1) by simp
    ultimately show ?thesis unfolding auth_ids_ok_def by blast
  qed
  ultimately have lis: "listener_inv ?w" using inv by (simp add: server_inv_def listener_inv_def listeners_ok_def)
  have live: "transports w t \<noteq> None \<Longrightarrow> trs t \<noteq> None" for t using old by auto
  have si: "sock_inv w" using inv by (simp add: server_inv_def)
  have "transports_ok ?w"
  proof -
    have tok: "transports_ok w" using si by (simp add: sock_inv_def)
    have "transports ?w t \<noteq> None" if "heap ?w x = Some a" "so_transport a = Some t" "\<not> so_closing a" for x a t
      using tok that live unfolding transports_ok_def by simp
    moreover have "transports ?w t \<noteq> None" if "t \<in> set (transport_list ?w) \<union> set (pending_list ?w)" for t
    proof -
      have "t \<in> set (transport_list w) \<union> set (pending_list w) \<or> t \<in> dom trs" using that ps by auto
      then show ?thesis using tok live unfolding transports_ok_def by auto
    qed
    ultimately show ?thesis unfolding transports_ok_def by blast
  qed
  moreover have "lists_ok ?w = lists_ok w" by (simp add: lists_ok_def)
  moreover have "peers_ok ?w = peers_ok w" by (simp add: peers_ok_def cong: option.case_cong)
  moreover have "ids_ok ?w = ids_ok w" by (simp add: ids_ok_def)
  moreover have "heap ?w = heap w" by simp
  ultimately have "sock_inv ?w" using si unfolding sock_inv_def by simp
  with lis have "server_inv ?w" by (simp add: server_inv_def)
  moreover have "smart_at s p ?w" using sm by (simp add: smart_at_def)
  ultimately show ?thesis using that [OF run] live by (auto simp: steady_def)
qed

text \<open>The transport that a request selects is registered.\<close>

lemma acquire_loop_member:
  "aq_result (acquire_loop h m ty ser i ts a) = Some tr \<Longrightarrow> tr \<in> set ts \<or> aq_result a = Some tr"
proof (induction ts arbitrary: a)
  case (Cons t ts)
  note step = Cons.IH [of "a\<lparr>aq_error := e\<rparr>" for e] Cons.IH [of a] Cons.IH [of "a\<lparr>aq_result := Some t\<rparr>"]
  from Cons.prems show ?case
    by (simp add: Let_def ambiguous_def split: if_splits option.splits) (use step in auto)
qed simp

lemma acquire_member: "aq_result (acquire_one_transport h v m ty ser i acc ts) = Some tr \<Longrightarrow> tr \<in> set ts"
  using acquire_loop_member [of h m ty ser i ts]
  by (fastforce simp: acquire_one_transport_def Let_def split: if_splits option.splits)

lemma those_member: "those (map f ts) = Some ys \<Longrightarrow> y \<in> set ys \<Longrightarrow> \<exists>t \<in> set ts. f t = Some y"
  by (induction ts arbitrary: ys) (auto split: option.splits)

lemma acquire_ref_ok:
  assumes "server_inv w"
  shows "\<exists>r. acquire_ref env he ty ser i acc w = Some r \<and> (\<forall>t. r = Inr t \<longrightarrow> t \<in> set (transport_list w))"
proof -
  obtain ts where ts: "current_transports (transport_list w) w = Some ts"
    using current_transports_Some [of w "transport_list w"] assms by (auto simp: server_inv_def)
  define a where "a = acquire_one_transport (e_help env) (he_vendor_keys he) (MatchesTarget (e_libbase env)
    (\<lambda>s port. case he_addresses he s port of Inl _ \<Rightarrow> None | Inr (host, p, _) \<Rightarrow> Some (host, p))) ty ser i acc ts"
  show ?thesis
  proof (cases "aq_result a")
    case None
    then show ?thesis using ts by (simp add: acquire_ref_def a_def)
  next
    case (Some tr)
    then have "tr \<in> set ts" unfolding a_def by (rule acquire_member)
    then obtain u where u: "u \<in> set (transport_list w)" "transports w u = Some tr"
      using those_member ts unfolding current_transports_def by fast
    then obtain t where t: "find (\<lambda>t. transports w t = Some tr) (transport_list w) = Some t"
      by (metis (mono_tags, lifting) find_None_iff not_None_eq)
    then have "t \<in> set (transport_list w)" by (auto simp: find_Some_iff)
    with t Some ts show ?thesis by (simp add: acquire_ref_def a_def)
  qed
qed

lemma request_transport_ok:
  assumes "server_inv w" and "smart_at s p w"
  obtains e where "request_transport env he s ty ser i acc w = Some (Inl e)"
    | t tr where "request_transport env he s ty ser i acc w = Some (Inr t)" and "transports w t = Some tr"
proof -
  obtain a where a: "heap w s = Some a" using assms(2) by (auto simp: smart_at_def)
  show ?thesis
  proof (cases "so_transport a")
    case None
    obtain r where r: "acquire_ref env he ty ser i acc w = Some r" "\<forall>t. r = Inr t \<longrightarrow> t \<in> set (transport_list w)"
      using acquire_ref_ok [OF assms(1), of env he ty ser i acc] by blast
    show ?thesis
    proof (cases r)
      case (Inl e)
      with that(1) r a None show ?thesis by (simp add: request_transport_def)
    next
      case (Inr t)
      with r(2) registered [OF assms(1), of t] obtain tr where "transports w t = Some tr" by blast
      with that(2) r Inr a None show ?thesis by (simp add: request_transport_def)
    qed
  next
    case (Some t)
    with socket_transport [OF assms a] obtain tr where "transports w t = Some tr" by blast
    with that(2) a Some show ?thesis by (simp add: request_transport_def)
  qed
qed

lemma find_transport_ref_ok:
  assumes "server_inv w" and "set ts \<subseteq> set (transport_list w)"
  shows "\<exists>r. find_transport_ref serial ts w = Some r \<and> (\<forall>t. r = Some t \<longrightarrow> t \<in> set (transport_list w))"
  using assms(2)
proof (induction ts)
  case (Cons t ts)
  then obtain tr where "transports w t = Some tr" using registered [OF assms(1), of t] by auto
  with Cons show ?case by auto
qed simp

lemma query_steady:
  assumes "server_inv w" and "smart_at s p w"
  shows "steady_run s p w (transport_query env he f ty ser i fd s w)"
  using request_transport_ok [OF assms, of env he ty ser i False]
proof cases
  case 1
  then show ?thesis by (simp add: transport_query_def steady_run_io assms)
next
  case 2
  then show ?thesis by (simp add: transport_query_def steady_run_io assms)
qed

lemma reconnect_offline_steady:
  assumes "server_inv w" and "smart_at s p w"
  shows "steady_run s p w (reconnect_offline fd w)"
proof -
  obtain ts where ts: "current_transports (transport_list w) w = Some ts"
    using current_transports_Some [of w "transport_list w"] assms(1) by (auto simp: server_inv_def)
  obtain w1 where w1: "close_usb_devices (\<lambda>tr. \<not> ConnectionStateIsOnline (tr_state tr)) True w = Some w1" "steady s p w w1"
    using steady_close_usb [OF assms, of "transport_list w"] registered [OF assms(1)] unfolding close_usb_devices_def by blast
  then have "server_inv w1" "smart_at s p w1" by (simp_all add: steady_def)
  then have "steady s p w1 (SendOkay_string fd m w1)" for m using io_steady io_only_string by blast
  then have "steady s p w (SendOkay_string fd m w1)" for m using steady_trans w1(2) by blast
  then show ?thesis using ts w1(1) by (simp add: reconnect_offline_def Let_def steady_run_def)
qed

lemma steady_then_io:
  assumes "steady s p w w1" and "io_only w1 w2"
  shows "steady s p w w2"
proof -
  have "server_inv w1" "smart_at s p w1" using assms(1) by (simp_all add: steady_def)
  from io_steady [OF assms(2) this] show ?thesis by (rule steady_trans [OF assms(1)])
qed

lemma disconnect_steady:
  assumes "server_inv w" and "smart_at s p w"
  shows "steady_run s p w (disconnect_request env he address fd w)"
proof -
  have kick: "steady_run s p w (do { w1 \<leftarrow> kick_transport t False w; Some (Handled, SendOkay_string fd m w1) })"
    if t: "t \<in> set (transport_list w)" for t m
  proof -
    obtain w1 where w1: "kick_transport t False w = Some w1" "steady s p w w1"
      by (rule steady_kick [OF assms registered [OF assms(1) t]])
    with steady_then_io [OF w1(2) io_only_string] show ?thesis by (simp add: steady_run_def)
  qed
  obtain w1 where w1: "kick_all_tcp_devices w = Some w1" "steady s p w w1"
    using steady_kick_those [OF assms, of "transport_list w"] registered [OF assms(1)] unfolding kick_all_tcp_devices_def by blast
  have all: "steady_run s p w (do { w1 \<leftarrow> kick_all_tcp_devices w; Some (Handled, SendOkay_string fd m w1) })" for m
    using w1(1) steady_then_io [OF w1(2) io_only_string] by (simp add: steady_run_def)
  obtain r where r: "find_transport_ref (percent_s address) (transport_list w) w = Some r" "\<forall>t. r = Some t \<longrightarrow> t \<in> set (transport_list w)"
    using find_transport_ref_ok [OF assms(1) order_refl] by blast
  have second: "steady_run s p w (do {
      r \<leftarrow> find_transport_ref x (transport_list w) w;
      (case r of None \<Rightarrow> Some (Handled, SendFail_fd fd m w)
       | Some t \<Rightarrow> do { w1 \<leftarrow> kick_transport t False w; Some (Handled, SendOkay_string fd m' w1) }) })" for x m m'
  proof -
    obtain r where r: "find_transport_ref x (transport_list w) w = Some r" "\<forall>t. r = Some t \<longrightarrow> t \<in> set (transport_list w)"
      using find_transport_ref_ok [OF assms(1) order_refl] by blast
    then show ?thesis using kick by (cases r) (simp_all add: steady_run_io assms)
  qed
  show ?thesis
    unfolding disconnect_request_def r(1)
    using all kick r(2) second by (cases "address = []"; cases r) (simp_all add: steady_run_io assms split: sum.split)
qed

lemma reconnect_steady:
  assumes "server_inv w" and "smart_at s p w"
  shows "steady_run s p w (reconnect_request env he ty ser i fd s w)"
  using request_transport_ok [OF assms, of env he ty ser i True]
proof cases
  case (1 e)
  then show ?thesis by (simp add: reconnect_request_def steady_run_io assms)
next
  case (2 t tr)
  obtain w1 where w1: "kick_transport t True w = Some w1" "steady s p w w1"
    by (rule steady_kick [OF assms]) (use 2 in auto)
  obtain tr1 where "transports w1 t = Some tr1" using steady_dom [OF w1(2)] 2(2) by force
  with 2 w1(1) steady_then_io [OF w1(2) io_only_string] show ?thesis by (simp add: reconnect_request_def steady_run_def)
qed

lemma send_connect_heap:
  assumes "send_connect env ae t w = Some w'"
  shows "heap w' = heap w" and "local_socket_next_id w' = local_socket_next_id w"
  using assms by (auto simp: send_connect_def send_packet_on_def Let_def split: bind_splits)

lemma kept_steady:
  assumes "kept w r" and "smart_at s p w" and "\<And>w'. r = Some w' \<Longrightarrow> heap w' = heap w \<and> local_socket_next_id w' = local_socket_next_id w"
  obtains w' where "r = Some w'" and "steady s p w w'"
proof -
  obtain w' where w': "r = Some w'" "server_inv w'" "registry w' = registry w" using assms(1) by (auto simp: kept_def)
  with assms(3) [OF w'(1)] assms(2) that show ?thesis by (auto simp: steady_def registry_def smart_at_def)
qed

lemma attach_steady:
  assumes ok: "host_env_ok env he w0" and "server_inv w" and "smart_at s p w"
  shows "steady_run s p w (attach_request env he ty ser i fd s w)"
  using request_transport_ok [OF assms(2,3), of env he ty ser i True]
proof cases
  case (1 e)
  then show ?thesis by (simp add: attach_request_def steady_run_io assms)
next
  case (2 t tr)
  define v where "v = RegisterAttach (serial_name tr) w"
  have v: "steady s p w v" unfolding v_def by (rule io_steady [OF _ assms(2,3)]) simp
  then have inv: "server_inv v" "smart_at s p v" by (simp_all add: steady_def)
  have trv: "transports v t = Some tr" using 2(2) by (simp add: v_def RegisterAttach_def)
  obtain w1 where w1: "on_transport t (\<lambda>tr. tr\<lparr>tr_keys := ResetKeys (tr_keys tr)\<rparr>) v = Some w1" "steady s p v w1"
    by (rule steady_on_transport [OF inv trv, of "\<lambda>tr. tr\<lparr>tr_keys := ResetKeys (tr_keys tr)\<rparr>"]) simp_all
  have inv1: "server_inv w1" "smart_at s p w1" "transports w1 t \<noteq> None"
    using w1(2) steady_dom [OF w1(2)] trv by (simp_all add: steady_def)
  have len: "length (get_connection_string env (he_auth he)) \<le> MAX_PAYLOAD_V1" using ok by (simp add: host_env_ok_def)
  obtain w2 where w2: "send_connect env (he_auth he) t w1 = Some w2" "steady s p w1 w2"
    by (rule kept_steady [OF kept_send_connect [OF inv1(1,3) len] inv1(2)]) (use send_connect_heap in blast)
  have "\<exists>e w'. Attach env (he_auth he) b answer t v = Some (e, w') \<and> steady s p v w'" for b answer
    using trv w1 w2 steady_refl [OF inv] steady_trans [OF w1(2) w2(2)] by (cases answer) (simp_all add: Attach_def)
  then obtain e w' where at: "Attach env (he_auth he) (he_supports_detach he t) (he_attach_answer he t) t v = Some (e, w')" "steady s p v w'"
    by blast
  have st: "steady s p w w'" by (rule steady_trans [OF v at(2)])
  have "steady s p w (case e of None \<Rightarrow> SendOkay_string fd m w' | Some e \<Rightarrow> SendFail_fd fd e w')" for m
    using steady_then_io [OF st] by (cases e) simp_all
  with 2 at(1) show ?thesis by (simp add: attach_request_def v_def steady_run_def)
qed

text \<open>The transport of the smart socket itself may change.\<close>

lemma set_transport_steady:
  assumes inv: "server_inv w" and sm: "smart_at s p w" and t: "\<And>u. t = Some u \<Longrightarrow> transports w u \<noteq> None"
  obtains w' where "update_socket s (\<lambda>a. a\<lparr>so_transport := t\<rparr>) w = Some w'" and "steady s p w w'"
    and "\<And>a. heap w' s = Some a \<Longrightarrow> so_transport a = t" and "transports w' = transports w"
    and "w' = w\<lparr>heap := heap w'\<rparr>"
proof -
  obtain a b where ab: "heap w s = Some a" "so_enqueue a = SmartEnqueue" "so_peer a = Some p" "heap w p = Some b" "is_local b"
    "so_peer b = Some s" "so_transport b = None" using sm by (auto simp: smart_at_def)
  have ne: "s \<noteq> p" using ab by auto
  let ?a = "a\<lparr>so_transport := t\<rparr>"
  let ?w = "w\<lparr>heap := (heap w)(s \<mapsto> ?a)\<rparr>"
  have si: "sock_inv w" using inv by (simp add: server_inv_def)
  have wf: "socket_wf a" by (rule inv_wf [OF si ab(1)])
  have "sock_inv ?w"
  proof (rule sock_inv_change [where D = "{s, p}" and n = s, OF si])
    show "lists_ok ?w" using inv_lists [OF si] lists_ok_update [OF ab(1), of ?a] by simp
    have alive: "transport_alive w ?a" "transport_alive w b" using t ab(7) by (auto simp: transport_alive_def)
    have "socket_wf ?a" using wf ab(2) by (simp add: socket_wf_def)
    then show "socket_wf c \<and> (so_closing c \<or> transport_alive w c)" if "x \<in> {s, p}" "heap ?w x = Some c" for x c
      using that alive inv_wf [OF si ab(4)] ab(4) ne by (auto split: if_splits)
    show "case so_peer c of None \<Rightarrow> is_local c
      | Some q \<Rightarrow> q \<noteq> x \<and> (\<exists>d. heap ?w q = Some d \<and> so_peer d = Some x \<and> (is_local c \<or> is_local d))"
      if "x \<in> {s, p}" "heap ?w x = Some c" for x c
      using that ab ne by (auto split: if_splits)
    show "q \<in> {s, p}" if "x \<in> {s, p}" "heap w x = Some c" "so_peer c = Some q" for x c q using that ab by auto
    show "x < next_addr ?w" if "x \<in> {s, p}" "heap ?w x \<noteq> None" for x
      using that si ab(1,4) by (auto simp: sock_inv_def ids_ok_def)
    show "(\<exists>d. heap w x = Some d \<and> is_local d \<and> so_id d = so_id c) \<or>
      (x = s \<and> so_id c = local_socket_next_id w \<and> local_socket_next_id w < local_socket_next_id ?w)"
      if "x \<in> {s, p}" "heap ?w x = Some c" "is_local c" for x c
      using that ab ne by (auto split: if_splits)
  qed simp_all
  then have "server_inv ?w" by (rule server_inv_outer [OF inv, rotated]) simp
  then have "steady s p w ?w" using ab ne by (auto simp: steady_def smart_at_def)
  with that [of ?w] ab(1) show ?thesis by (simp add: update_socket_def)
qed

lemma detach_steady:
  assumes "server_inv w" and "smart_at s p w"
  shows "steady_run s p w (detach_request env he ty ser i fd s w)"
  using request_transport_ok [OF assms, of env he ty ser i True]
proof cases
  case (1 e)
  then show ?thesis by (simp add: detach_request_def steady_run_io assms)
next
  case (2 t tr)
  obtain w1 where w1: "update_socket s (\<lambda>a. a\<lparr>so_transport := None\<rparr>) w = Some w1" "steady s p w w1"
    "\<And>a. heap w1 s = Some a \<Longrightarrow> so_transport a = None" "transports w1 = transports w" "w1 = w\<lparr>heap := heap w1\<rparr>"
    using set_transport_steady [OF assms, of None] by blast
  define v where "v = RegisterDetach (serial_name tr) w1"
  have st1: "server_inv w1" "smart_at s p w1" using w1(2) by (simp_all add: steady_def)
  have v: "steady s p w1 v" unfolding v_def by (rule io_steady [OF _ st1]) simp
  then have inv: "server_inv v" "smart_at s p v" by (simp_all add: steady_def)
  have trv: "transports v t = Some tr" using 2(2) w1(4) by (simp add: v_def RegisterDetach_def)
  have free: "so_transport a \<noteq> Some t" if "heap v s = Some a" for a
    using w1(3) [of a] that by (simp add: v_def RegisterDetach_def)
  obtain w2 where w2: "handle_offline env (he_auth he) t v = Some w2" "steady s p v w2"
    by (rule steady_offline [OF inv trv free])
  have inv2: "server_inv w2" "smart_at s p w2" "transports w2 t \<noteq> None"
    using w2(2) steady_dom [OF w2(2)] trv by (simp_all add: steady_def)
  obtain w3 where w3: "SetConnectionState env t kCsDetached w2 = Some w3" "steady s p w2 w3"
    by (rule steady_SetConnectionState [OF inv2])
  have "\<exists>e w'. Detach env (he_auth he) b answer t v = Some (e, w') \<and> steady s p v w'" for b answer
    using trv w2 w3 steady_refl [OF inv] steady_trans [OF w2(2) w3(2)] by (cases answer) (simp_all add: Detach_def)
  then obtain e w' where at: "Detach env (he_auth he) (he_supports_detach he t) (he_detach_answer he t) t v = Some (e, w')" "steady s p v w'"
    by blast
  have st: "steady s p w w'" by (rule steady_trans [OF w1(2) steady_trans [OF v at(2)]])
  have "steady s p w (case e of None \<Rightarrow> SendOkay_string fd m w' | Some e \<Rightarrow> SendFail_fd fd e w')" for m
    using steady_then_io [OF st] by (cases e) simp_all
  with 2 w1(1) at(1) show ?thesis by (simp add: detach_request_def v_def steady_run_def)
qed

lemma emulator_steady:
  assumes "emulators_ok he" and "server_inv w" and "smart_at s p w"
  shows "steady_run s p w (emulator_request he port w)"
proof (cases "ParseUint_all 32 port")
  case None
  then show ?thesis by (simp add: emulator_request_def steady_run_io assms)
next
  case (Some n)
  obtain w' where "he_connect_emulator he (sint (of_nat n :: u32)) w = Some w'" "steady s p w w'"
    by (rule steady_emulator [OF assms])
  with Some show ?thesis by (simp add: emulator_request_def steady_run_def)
qed

lemma select_steady:
  assumes "server_inv w" and "smart_at s p w"
  shows "steady_run s p w (select_transport env he service ser i fd s w)"
proof (cases "selection (e_libbase env) service ser i")
  case None
  then show ?thesis by (simp add: select_transport_def steady_run_io assms)
next
  case (Some x)
  obtain legacy ty ser1 i1 where x: "x = (legacy, ty, ser1, i1)" by (cases x) auto
  obtain r where r: "acquire_ref env he ty (map_option percent_s ser1) i1 False w = Some r" "\<forall>t. r = Inr t \<longrightarrow> t \<in> set (transport_list w)"
    using acquire_ref_ok [OF assms(1)] by blast
  show ?thesis
  proof (cases r)
    case (Inl e)
    with Some x r show ?thesis by (simp add: select_transport_def steady_run_io assms)
  next
    case (Inr t)
    with r(2) registered [OF assms(1)] obtain tr where tr: "transports w t = Some tr" by blast
    obtain w1 where w1: "update_socket s (\<lambda>a. a\<lparr>so_transport := Some t\<rparr>) w = Some w1" "steady s p w w1"
      using set_transport_steady [OF assms, of "Some t"] tr by blast
    have "steady s p w (SendOkay_fd fd w1)" "steady s p w (WriteFdExactly_fd fd bs (SendOkay_fd fd w1))" for bs
      using steady_then_io [OF w1(2)] io_only_replies io_only_trans by blast+
    with Some x r(1) Inr tr w1(1) show ?thesis by (simp add: select_transport_def steady_run_def Let_def)
  qed
qed

text \<open>Requests about forwards.\<close>

lemma format_listeners_Some:
  assumes "server_inv w"
  shows "\<exists>str. format_listeners w = Some str"
proof -
  have ok: "listeners_ok w" using assms by (simp add: server_inv_def listener_inv_def)
  have "\<exists>str. format_listeners_of w ls = Some str" if "set ls \<subseteq> set (listener_list w)" for ls
    using that
  proof (induction ls)
    case (Cons l ls)
    then obtain rest where rest: "format_listeners_of w ls = Some rest" by auto
    show ?case
    proof (cases "isSmartSocket l")
      case False
      with ok Cons.prems obtain t where t: "l_transport l = Some t" by (auto simp: listeners_ok_def)
      obtain tr where "transports w t = Some tr" by (rule listener_alive [OF ok _ t]) (use Cons.prems in auto)
      with t rest show ?thesis by simp
    qed (simp add: rest)
  qed simp
  then show ?thesis unfolding format_listeners_def by blast
qed

lemma forward_reply_io: "io_only w (forward_reply env fd service (status, e, port, w))"
proof -
  have ok2: "io_only w (SendOkay_fd fd (if e_host env then SendOkay_fd fd w else w))"
    using io_only_trans [OF io_only_replies(2) io_only_replies(2)] by simp
  have "io_only w (SendProtocolString_fd fd m (SendOkay_fd fd (if e_host env then SendOkay_fd fd w else w)))" for m
    by (rule io_only_trans [OF ok2 io_only_replies(3)])
  with ok2 show ?thesis unfolding forward_reply_def Let_def by (auto simp del: if_split split: option.split if_split)
qed

lemma forwards_steady:
  assumes "server_inv w" and "smart_at s p w" and "callbacks_only w w'" and "listener_inv w'" and "io_only w' w''"
  shows "steady s p w w''"
  using steady_then_io [OF steady_callbacks [OF assms(1-4)] assms(5)] .

lemma change_forward_steady:
  assumes lb: "libbase_ok (e_libbase env)" and t: "transports w t \<noteq> None"
    and listen: "\<And>name fd resolved. listen name = Inr (fd, resolved) \<Longrightarrow> resolved \<noteq> 0 \<Longrightarrow> forward_table w (resolved_name name resolved) = None"
    and inv: "server_inv w" "smart_at s p w"
  obtains w' where "change_forward env listen service t fd w = Some w'" and "steady s p w w'"
proof -
  have li: "listener_inv w" using inv(1) by (simp add: server_inv_def)
  define kill s1 where "kill = StartsWith (e_libbase env) service ''killforward:''"
    and "s1 = (if kill then drop 12 service else drop 8 service)"
  define nr where "nr = (\<not> kill \<and> StartsWith (e_libbase env) s1 ''norebind:'')"
  define s2 where "s2 = (if nr then drop 9 s1 else s1)"
  define pieces where "pieces = Split (e_libbase env) s2 CHR '';''"
  note defs = kill_def s1_def nr_def s2_def pieces_def
  have fail: "steady s p w (SendFail_fd fd m w)" for m by (rule io_steady [OF _ inv]) simp
  show ?thesis
  proof (cases kill)
    case kill: True
    obtain w1 where w1: "remove_listener (pieces ! 0) w =
        Some (if forward_table w (pieces ! 0) = None then INSTALL_STATUS_LISTENER_NOT_FOUND else INSTALL_STATUS_OK, w1)"
      "listener_inv w1" "callbacks_only w w1" using remove_listener_ok [OF li, of "pieces ! 0"] by blast
    have "steady s p w (forward_reply env fd s2 (r, [], None, w1))" for r
      by (rule forwards_steady [OF inv w1(3,2) forward_reply_io])
    with that fail w1(1) show ?thesis
      unfolding change_forward_def Let_def defs [symmetric] using kill
      by (cases "length pieces \<noteq> 1 \<or> pieces ! 0 = []") auto
  next
    case go: False
    show ?thesis
    proof (cases "length pieces \<noteq> 2 \<or> pieces ! 0 = [] \<or> pieces ! 1 = [] \<or> hd (pieces ! 1) = CHR ''*''")
      case True
      then have "change_forward env listen service t fd w = Some (SendFail_fd fd (''bad forward: '' @ s2) w)"
        using go unfolding change_forward_def Let_def defs [symmetric] by (simp only: if_True if_False)
      with that fail show ?thesis by blast
    next
      case False
      then have "pieces ! 1 \<noteq> kSmartSocketConnectTo" by (auto simp: kSmartSocketConnectTo_def)
      then have "listener_allowed env listen (Install (pieces ! 0) (pieces ! 1) t nr False) (forwards_of w)"
        using t listen by (auto simp: forwards_of_def split: sum.split)
      from install_listener_ok [OF li this] obtain st e port w1 where
        w1: "install_listener env listen (pieces ! 0) (pieces ! 1) (Some t) nr False w = Some (st, e, port, w1)" "listener_inv w1" "callbacks_only w w1"
        by (cases "forward_table w (pieces ! 0)"; cases "listen (pieces ! 0)") (auto split: if_splits)
      have "steady s p w (forward_reply env fd s2 (st, e, port, w1))"
        by (rule forwards_steady [OF inv w1(3,2) forward_reply_io])
      with that w1(1) False go show ?thesis
        unfolding change_forward_def Let_def defs [symmetric] by simp
    qed
  qed
qed

lemma remove_all_steady:
  assumes "server_inv w" and "smart_at s p w"
  obtains w' where "remove_all_listeners w = Some w'" and "steady s p w w'"
proof -
  have li: "listener_inv w" using assms(1) by (simp add: server_inv_def)
  let ?P = "\<lambda>c (_ :: tref option). case c of x # _ \<Rightarrow> x = CHR ''*'' | [] \<Rightarrow> False"
  obtain w' where w': "erase_listeners (filter (\<lambda>l. \<not> ?P (l_connect_to l) (l_transport l)) (listener_list w)) w = Some w'"
    "listener_inv w'" "callbacks_only w w'" using erase_entries_ok [OF li, of ?P] by blast
  have "remove_all_listeners w = Some w'" using w'(1) by (simp add: remove_all_listeners_def keeps_star_def)
  with that steady_callbacks [OF assms w'(3,2)] show ?thesis by blast
qed

lemma forward_request_steady:
  assumes ok: "host_env_ok env he w" and inv: "server_inv w" "smart_at s p w"
  shows "steady_run s p w (handle_forward_request env (he_listen he)
     (\<lambda>w. map_option (case_sum (\<lambda>_. Inl []) Inr) (request_transport env he s ty ser i False w)) service fd w)"
proof -
  have lb: "libbase_ok (e_libbase env)" and listen: "\<And>name fd resolved. he_listen he name = Inr (fd, resolved) \<Longrightarrow> resolved \<noteq> 0 \<Longrightarrow>
    forward_table w (resolved_name name resolved) = None" using ok by (auto simp: host_env_ok_def)
  obtain str where str: "format_listeners w = Some str" using format_listeners_Some [OF inv(1)] by blast
  have list: "io_only w (SendProtocolString_fd fd str (if b then SendOkay_fd fd w else w))" for b
    using io_only_trans [OF io_only_replies(2) io_only_replies(3)] by simp
  obtain w1 where w1: "remove_all_listeners w = Some w1" "steady s p w w1" by (rule remove_all_steady [OF inv])
  have all: "steady s p w (SendOkay_fd fd (if b then SendOkay_fd fd w1 else w1))" for b
    by (rule steady_then_io [OF w1(2)]) (use io_only_trans [OF io_only_replies(2) io_only_replies(2)] in simp)
  have change: "steady_run s p w (do { r \<leftarrow> map_option (case_sum (\<lambda>_. Inl []) Inr) (request_transport env he s ty ser i False w);
     (case r of Inl e \<Rightarrow> Some (True, SendFail_fd fd e w)
      | Inr t \<Rightarrow> do { w1 \<leftarrow> change_forward env (he_listen he) service t fd w; Some (True, w1) }) })"
    using request_transport_ok [OF inv, of env he ty ser i False]
  proof cases
    case (1 e)
    then show ?thesis by (simp add: steady_run_io inv)
  next
    case (2 t tr)
    then have t: "transports w t \<noteq> None" by simp
    obtain w2 where "change_forward env (he_listen he) service t fd w = Some w2" "steady s p w w2"
      by (rule change_forward_steady [where service = service and fd = fd, OF lb t listen inv])
    then have "steady_run s p w (do { w1 \<leftarrow> change_forward env (he_listen he) service t fd w; Some (True, w1) })"
      by (auto simp: steady_run_def)
    with 2 show ?thesis by simp
  qed
  have l: "steady_run s p w (do { listeners \<leftarrow> format_listeners w;
      Some (True, SendProtocolString_fd fd listeners (if e_host env then SendOkay_fd fd w else w)) })"
    unfolding str Option.bind.simps by (rule steady_run_io [OF inv list])
  have k: "steady_run s p w (do { w1 \<leftarrow> remove_all_listeners w; Some (True, SendOkay_fd fd (if e_host env then SendOkay_fd fd w1 else w1)) })"
    unfolding w1(1) Option.bind.simps by (rule steady_run_Some [OF all])
  show ?thesis
    unfolding handle_forward_request_def by (intro steady_run_if l k change steady_run_io [OF inv io_only_refl])
qed

lemma mdns_steady:
  assumes "server_inv w" and "smart_at s p w"
  shows "steady_run s p w (let (answered, w1) = handle_mdns_request env he service fd w in Some (if answered then Handled else Unhandled, w1))"
proof -
  have "io_only w (snd (handle_mdns_request env he service fd w))"
    by (auto simp: handle_mdns_request_def split: option.split)
  then show ?thesis unfolding case_prod_unfold Let_def by (rule steady_run_io [OF assms])
qed

text \<open>Every request of the host keeps the pair.\<close>

lemma host_request_steady:
  assumes ok: "host_env_ok env he w" and inv: "server_inv w" "smart_at s p w"
  shows "steady_run s p w (host_request env he service ty ser i fd s w)"
proof -
  have em: "emulators_ok he" using ok by (simp add: host_env_ok_def)
  have listing: "steady_run s p w (do { text \<leftarrow> tracker_text env out w; Some (Handled, SendOkay_string fd text w) })" for out
    using tracker_text_Some [of w env out] inv(1) steady_run_io [OF inv io_only_string] by (auto simp: server_inv_def)
  have fwd: "steady_run s p w (do {
     (forwarded, w1) \<leftarrow> handle_forward_request env (he_listen he)
        (\<lambda>w. map_option (case_sum (\<lambda>_. Inl []) Inr) (request_transport env he s ty ser i False w)) (percent_s service) fd w;
     if forwarded then Some (Handled, w1)
     else let (answered, w2) = handle_mdns_request env he service fd w1 in Some (if answered then Handled else Unhandled, w2) })"
  proof -
    obtain f w1 where f: "handle_forward_request env (he_listen he)
        (\<lambda>w. map_option (case_sum (\<lambda>_. Inl []) Inr) (request_transport env he s ty ser i False w)) (percent_s service) fd w = Some (f, w1)"
      "steady s p w w1" using forward_request_steady [OF ok inv] unfolding steady_run_def by blast
    then have inv1: "server_inv w1" "smart_at s p w1" by (simp_all add: steady_def)
    show ?thesis
    proof (cases f)
      case True
      then show ?thesis using f steady_run_Some by simp
    next
      case False
      obtain x w2 where w2: "(let (answered, w2) = handle_mdns_request env he service fd w1 in Some (if answered then Handled else Unhandled, w2)) = Some (x, w2)"
        "steady s p w1 w2" using mdns_steady [OF inv1, of env he service fd] unfolding steady_run_def by blast
      show ?thesis
        unfolding f(1) using False w2(1) steady_run_Some [OF steady_trans [OF f(2) w2(2)]] by simp
    qed
  qed
  note io = steady_run_io [OF inv io_only_string]
  have tail: "steady_run s p w (case ConsumePrefix (e_libbase env) service ''emulator:'' of
        Some port \<Rightarrow> emulator_request he port w
      | None \<Rightarrow>
          if service = ''reconnect'' then reconnect_request env he ty ser i fd s w
          else if service = ''attach'' then attach_request env he ty ser i fd s w
          else if service = ''detach'' then detach_request env he ty ser i fd s w
          else do {
            (forwarded, w1) \<leftarrow> handle_forward_request env (he_listen he)
               (\<lambda>w. map_option (case_sum (\<lambda>_. Inl []) Inr) (request_transport env he s ty ser i False w))
               (percent_s service) fd w;
            if forwarded then Some (Handled, w1)
            else let (answered, w2) = handle_mdns_request env he service fd w1
                 in Some (if answered then Handled else Unhandled, w2)
          })"
    using emulator_steady [OF em inv]
    by (cases "ConsumePrefix (e_libbase env) service ''emulator:''")
      (simp_all only: option.case steady_run_if reconnect_steady [OF inv] attach_steady [OF ok inv] detach_steady [OF inv] fwd)
  show ?thesis
    unfolding host_request_def Let_def [of "e_libbase env"]
    by (intro steady_run_if select_steady inv io listing reconnect_offline_steady query_steady disconnect_steady tail)
qed

lemma handle_host_request_steady:
  assumes ok: "host_env_ok env he w" and inv: "server_inv w" "smart_at s p w"
    and kill: "service \<noteq> ''kill'' \<or> he_reject_kill_server he"
  shows "steady_run s p w (handle_host_request env he service ty ser i fd s w)"
proof (cases "service = ''kill''")
  case True
  let ?w = "SendFail_fd fd ''kill-server rejected by remote server'' w"
  have st: "steady s p w ?w" by (rule io_steady [OF _ inv]) simp
  have "host_env_ok env he ?w" using ok by (simp add: host_env_ok_def forward_table_def SendFail_fd_def)
  from host_request_steady [OF this] st obtain x w' where
    "host_request env he service ty ser i fd s ?w = Some (x, w')" "steady s p ?w w'" unfolding steady_run_def steady_def by blast
  with True kill steady_trans [OF st] show ?thesis by (auto simp: handle_host_request_def steady_run_def)
next
  case False
  then show ?thesis using host_request_steady [OF ok inv] by (simp add: handle_host_request_def)
qed

end
