(* ===== verification/Adb_Server.thy ===== *)
theory Adb_Server
  imports Adb_Smart_Socket
begin

text \<open>
  The server as a whole.  The first part is the smart socket with the host requests behind it: a
  client's request is answered, handed to a service or connected to a device without a failing \<open>CHECK\<close> or a
  use of a freed object.  The second part is the transition system of the server.
\<close>

section \<open>Replacing the smart socket\<close>

lemma drop_smart_ok:
  assumes inv: "sock_inv w" and a: "heap w s = Some a" "so_enqueue a = SmartEnqueue" "so_peer a = Some p"
    and b: "heap w p = Some b" "is_local b" "so_peer b = Some s"
    and c: "is_local c" "local_wf c" "\<not> so_closing c" "so_peer c = None" "so_id c = so_id b" "transport_alive w c"
  shows "sock_inv (w\<lparr>heap := (heap w)(s := None, p \<mapsto> c)\<rparr>)" (is "sock_inv ?w")
proof (rule sock_inv_change [where D = "{s, p}" and n = s, OF inv])
  have ne: "s \<noteq> p" using a b by auto
  have nb: "\<not> so_closing b" by (rule peer_facts [OF inv a(1,3)]) (use b in auto)
  show "lists_ok ?w"
    using inv_lists [OF inv] ne a(1,2) b(1,2) c(1,3) nb unfolding lists_ok_def by (auto split: if_splits)
  show "socket_wf d \<and> (so_closing d \<or> transport_alive w d)" if "x \<in> {s, p}" "heap ?w x = Some d" for x d
    using that ne c by (auto simp: socket_wf_def split: if_splits)
  show "case so_peer d of None \<Rightarrow> is_local d
      | Some q \<Rightarrow> q \<noteq> x \<and> (\<exists>e. heap ?w q = Some e \<and> so_peer e = Some x \<and> (is_local d \<or> is_local e))"
    if "x \<in> {s, p}" "heap ?w x = Some d" for x d
    using that ne c by (auto split: if_splits)
  show "q \<in> {s, p}" if "x \<in> {s, p}" "heap w x = Some d" "so_peer d = Some q" for x d q using that a b by auto
  show "x < next_addr ?w" if "x \<in> {s, p}" "heap ?w x \<noteq> None" for x
    using that inv ne a b by (auto simp: sock_inv_def ids_ok_def split: if_splits)
  show "(\<exists>e. heap w x = Some e \<and> is_local e \<and> so_id e = so_id d) \<or>
      (x = s \<and> so_id d = local_socket_next_id w \<and> local_socket_next_id w < local_socket_next_id ?w)"
    if "x \<in> {s, p}" "heap ?w x = Some d" "is_local d" for x d
    using that ne b c by (auto split: if_splits)
qed auto

lemma pair_locals_ok:
  assumes inv: "sock_inv w" and ne: "s \<noteq> q" and a: "heap w s = Some a" "is_local a" "\<not> so_closing a" "so_peer a = None"
    and b: "heap w q = Some b" "is_local b" "\<not> so_closing b" "so_peer b = None"
  shows "sock_inv (w\<lparr>heap := (heap w)(s \<mapsto> a\<lparr>so_peer := Some q\<rparr>, q \<mapsto> b\<lparr>so_peer := Some s\<rparr>)\<rparr>)" (is "sock_inv ?w")
proof (rule sock_inv_change [where D = "{s, q}" and n = s, OF inv])
  have lwf: "local_wf (a\<lparr>so_peer := Some q\<rparr>)" "local_wf (b\<lparr>so_peer := Some s\<rparr>)"
    using inv_local_wf [OF inv a(1,2)] inv_local_wf [OF inv b(1,2)] a(3) b(3) by (simp_all add: local_wf_def)
  have alive: "transport_alive w a" "transport_alive w b" using live_transport [OF inv] a b by blast+
  show "lists_ok ?w" using inv_lists [OF inv] ne a b unfolding lists_ok_def by auto
  show "socket_wf c \<and> (so_closing c \<or> transport_alive w c)" if "x \<in> {s, q}" "heap ?w x = Some c" for x c
    using that ne a b lwf alive by (auto simp: socket_wf_def transport_alive_def split: if_splits)
  show "case so_peer c of None \<Rightarrow> is_local c
      | Some p \<Rightarrow> p \<noteq> x \<and> (\<exists>d. heap ?w p = Some d \<and> so_peer d = Some x \<and> (is_local c \<or> is_local d))"
    if "x \<in> {s, q}" "heap ?w x = Some c" for x c
    using that ne a b by (auto split: if_splits)
  show "p \<in> {s, q}" if "x \<in> {s, q}" "heap w x = Some c" "so_peer c = Some p" for x c p using that a b by auto
  show "x < next_addr ?w" if "x \<in> {s, q}" "heap ?w x \<noteq> None" for x
    using that inv a b by (auto simp: sock_inv_def ids_ok_def)
  show "(\<exists>d. heap w x = Some d \<and> is_local d \<and> so_id d = so_id c) \<or>
      (x = s \<and> so_id c = local_socket_next_id w \<and> local_socket_next_id w < local_socket_next_id ?w)"
    if "x \<in> {s, q}" "heap ?w x = Some c" "is_local c" for x c
    using that ne a b by (auto split: if_splits)
qed auto

definition fresh_tracker :: "TrackerOutputType \<Rightarrow> asocket" where
  "fresh_tracker ty = (init_socket TrackerEnqueue TrackerReady NoShutdown TrackerClose)\<lparr>so_tracker := Some (True, ty)\<rparr>"

lemma pair_tracker_ok:
  assumes inv: "sock_inv w" and a: "heap w s = Some a" "is_local a" "\<not> so_closing a" "so_peer a = None"
  shows "sock_inv (w\<lparr>heap := (heap w)(s \<mapsto> a\<lparr>so_peer := Some (next_addr w)\<rparr>, next_addr w \<mapsto> (fresh_tracker ty)\<lparr>so_peer := Some s\<rparr>),
      next_addr := next_addr w + 1, device_tracker_list := next_addr w # device_tracker_list w\<rparr>)"
    (is "sock_inv ?w")
proof (rule sock_inv_change [where D = "{s, next_addr w}" and n = s, OF inv])
  have new: "heap w (next_addr w) = None" by (rule inv_addr [OF inv order_refl])
  then have ne: "s \<noteq> next_addr w" using a(1) by auto
  have lwf: "local_wf (a\<lparr>so_peer := Some (next_addr w)\<rparr>)" using inv_local_wf [OF inv a(1,2)] a(3) by (simp add: local_wf_def)
  have alive: "transport_alive w a" by (rule live_transport [OF inv a(1,3)])
  have t: "so_enqueue (fresh_tracker ty) = TrackerEnqueue" "so_closing (fresh_tracker ty) = False"
    "so_ready (fresh_tracker ty) = TrackerReady" "so_shutdown (fresh_tracker ty) = NoShutdown" "so_close (fresh_tracker ty) = TrackerClose"
    "so_tracker (fresh_tracker ty) = Some (True, ty)" "so_transport (fresh_tracker ty) = None"
    by (simp_all add: fresh_tracker_def init_socket_def)
  show "lists_ok ?w" using inv_lists [OF inv] new ne a t unfolding lists_ok_def by auto
  show "socket_wf c \<and> (so_closing c \<or> transport_alive w c)" if "x \<in> {s, next_addr w}" "heap ?w x = Some c" for x c
    using that ne lwf a(2) alive t by (auto simp: socket_wf_def transport_alive_def split: if_splits)
  show "case so_peer c of None \<Rightarrow> is_local c
      | Some p \<Rightarrow> p \<noteq> x \<and> (\<exists>d. heap ?w p = Some d \<and> so_peer d = Some x \<and> (is_local c \<or> is_local d))"
    if "x \<in> {s, next_addr w}" "heap ?w x = Some c" for x c
    using that ne a(2) by (auto split: if_splits)
  show "p \<in> {s, next_addr w}" if "x \<in> {s, next_addr w}" "heap w x = Some c" "so_peer c = Some p" for x c p
    using that a(1,4) new by auto
  show "x < next_addr ?w" if "x \<in> {s, next_addr w}" "heap ?w x \<noteq> None" for x
    using that inv a(1) by (auto simp: sock_inv_def ids_ok_def less_Suc_eq)
  show "(\<exists>d. heap w x = Some d \<and> is_local d \<and> so_id d = so_id c) \<or>
      (x = s \<and> so_id c = local_socket_next_id w \<and> local_socket_next_id w < local_socket_next_id ?w)"
    if "x \<in> {s, next_addr w}" "heap ?w x = Some c" "is_local c" for x c
    using that ne a(1,2) t by (auto split: if_splits)
qed auto

text \<open>A smart socket without a client is just deleted.\<close>

lemma close_lone_smart:
  assumes "heap w s = Some a" and "so_close a = SmartClose" and "so_peer a = None"
  shows "sock_close s w = Some (w\<lparr>heap := (heap w)(s := None)\<rparr>)"
  using assms by (simp add: sock_close.simps smart_socket_close.simps delete_socket_def)

section \<open>Connecting to a device\<close>

text \<open>
  What \<open>connect_to_remote\<close> relies on: the text fits a packet of the transport, and the server can follow a
  request for a reverse forward; both are checked with an abort.
\<close>

definition remote_request_ok :: "env \<Rightarrow> string \<Rightarrow> atransport \<Rightarrow> bool" where
  "remote_request_ok env destination tr \<longleftrightarrow> length destination < min MAX_PAYLOAD (tr_max_payload tr) \<and>
     (e_host env \<longrightarrow> UpdateReverseConfig (e_libbase env) destination tr \<noteq> None)"

lemma UpdateReverseConfig_fields:
  assumes "UpdateReverseConfig lb dest tr = Some tr1"
  shows "tr_disconnects tr1 = tr_disconnects tr" and "tr_auth_id tr1 = tr_auth_id tr" and "tr_max_payload tr1 = tr_max_payload tr"
  using assms by (auto simp: UpdateReverseConfig_def Let_def split: option.splits if_splits prod.splits)

lemma send_packet_fields:
  assumes "send_packet p tr = Some tr1"
  shows "tr_disconnects tr1 = tr_disconnects tr" and "tr_auth_id tr1 = tr_auth_id tr"
  using assms by (auto simp: send_packet_def split: bind_splits if_splits)

lemma connect_to_remote_ok:
  assumes b: "heap w p = Some b" "so_peer b = None" "so_transport b = Some t" and tr: "transports w t = Some tr"
    and ok: "remote_request_ok env dest tr"
  obtains b' tr' where "connect_to_remote env p dest w = Some (w\<lparr>heap := (heap w)(p \<mapsto> b'), transports := (transports w)(t \<mapsto> tr')\<rparr>)"
    and "b' = b \<or> b' = b\<lparr>so_available_send_bytes := Some 0\<rparr>"
    and "tr_disconnects tr' = tr_disconnects tr" and "tr_auth_id tr' = tr_auth_id tr"
proof -
  obtain tr1 where tr1: "(if e_host env then UpdateReverseConfig (e_libbase env) dest tr else Some tr) = Some tr1"
    using ok by (cases "e_host env") (auto simp: remote_request_ok_def)
  then have f: "tr_disconnects tr1 = tr_disconnects tr" "tr_auth_id tr1 = tr_auth_id tr" "tr_max_payload tr1 = tr_max_payload tr"
    by (auto dest: UpdateReverseConfig_fields split: if_splits)
  define b' where "b' = (if tr_delayed_ack tr1 then b\<lparr>so_available_send_bytes := Some 0\<rparr> else b)"
  define arg1 where "arg1 = (if tr_delayed_ack tr1 then of_nat INITIAL_DELAYED_ACK_BYTES else (0 :: u32))"
  let ?data = "filled_block (dest @ [CHR 0x00])"
  let ?p = "data_packet A_OPEN (so_id b) arg1 ?data"
  have wf: "block_wf ?data" using filled_block_ok(1) block_ok_def by blast
  obtain tr2 where tr2: "send_packet ?p tr1 = Some tr2" by (rule send_packet_Some [OF packet_fits_data [OF wf]])
  have len: "length dest + 1 \<le> MAX_PAYLOAD" "length dest + 1 \<le> tr_max_payload tr1" using ok f(3) by (simp_all add: remote_request_ok_def)
  then have "unat (of_nat (length dest + 1) :: u32) = length dest + 1"
    unfolding unat_of_nat by (simp add: MAX_PAYLOAD_def)
  then have small: "unat (m_data_length (p_msg ?p)) = length dest + 1" by simp
  define w1 where "w1 = w\<lparr>transports := (transports w)(t \<mapsto> tr1)\<rparr>"
  define w2 where "w2 = w1\<lparr>heap := (heap w)(p \<mapsto> b')\<rparr>"
  have w2: "(if tr_delayed_ack tr1 then update_socket p (\<lambda>a. a\<lparr>so_available_send_bytes := Some 0\<rparr>) w1 else Some w1) = Some w2"
    using b(1) by (simp add: w2_def w1_def update_socket_def b'_def fun_upd_idem)
  have mp: "get_max_payload p w2 = Some (min (min MAX_PAYLOAD (tr_max_payload tr1)) MAX_PAYLOAD)"
    using b by (simp add: get_max_payload_def transport_max_payload_def w2_def w1_def b'_def)
  have send: "send_packet_on ?p t w2 = Some (w\<lparr>heap := (heap w)(p \<mapsto> b'), transports := (transports w)(t \<mapsto> tr2)\<rparr>)"
    using tr2 by (simp add: send_packet_on_def w2_def w1_def)
  have "connect_to_remote env p dest w = Some (w\<lparr>heap := (heap w)(p \<mapsto> b'), transports := (transports w)(t \<mapsto> tr2)\<rparr>)"
    unfolding connect_to_remote_def b(1,3) tr Option.bind.simps tr1 Let_def w1_def [symmetric] arg1_def [symmetric] w2 mp small
    using len send by (simp add: CHECK_def)
  moreover have "b' = b \<or> b' = b\<lparr>so_available_send_bytes := Some 0\<rparr>" by (simp add: b'_def)
  ultimately show ?thesis by (rule that) (use send_packet_fields [OF tr2] f in simp_all)
qed

text \<open>The result of a request: the smart socket is gone or waits for more, and unless it is an error the client is there.\<close>

definition client_at :: "addr \<Rightarrow> world \<Rightarrow> bool" where
  "client_at p w \<longleftrightarrow> (\<exists>b. heap w p = Some b \<and> is_local b \<and> \<not> so_closing b)"

definition served :: "addr \<Rightarrow> addr \<Rightarrow> world \<Rightarrow> (int \<times> world) option \<Rightarrow> bool" where
  "served s p w r \<longleftrightarrow> (\<exists>n w'. r = Some (n, w') \<and> server_inv w' \<and> dom (transports w) \<subseteq> dom (transports w') \<and>
     (heap w' s = None \<or> smart_at s p w') \<and> (0 \<le> n \<longrightarrow> client_at p w'))"

lemma served_steady: "steady s p w w1 \<Longrightarrow> served s p w1 r \<Longrightarrow> served s p w r"
  unfolding served_def steady_def by blast

lemma smart_client:
  assumes "server_inv w" and "smart_at s p w"
  shows "client_at p w"
proof -
  obtain a b where ab: "heap w s = Some a" "so_peer a = Some p" "heap w p = Some b" "is_local b" using assms(2) by (auto simp: smart_at_def)
  have "sock_inv w" using assms(1) by (simp add: server_inv_def)
  then have "\<not> so_closing b" by (rule peer_facts [OF _ ab(1,2)]) (use ab in simp)
  with ab show ?thesis by (auto simp: client_at_def)
qed

lemma served_wait: "steady s p w w1 \<Longrightarrow> served s p w (Some (n, w1))"
  using smart_client unfolding served_def steady_def by blast

lemma served_fail:
  assumes "server_inv w" and "smart_at s p w"
  shows "served s p w (smart_fail s w)"
proof -
  obtain a where a: "heap w s = Some a" "so_enqueue a = SmartEnqueue" using assms(2) by (auto simp: smart_at_def)
  have inv: "sock_inv w" using assms(1) by (simp add: server_inv_def)
  obtain w' where w': "sock_close s w = Some w'" "retire (with_peer s a) w w'" "sock_inv w'" by (rule sock_close_ok [OF inv a(1)])
  have "server_inv w'" by (rule server_inv_outer [OF assms(1) sock_close_outer [OF w'(1)] w'(3)])
  moreover have "heap w' s = None"
    using w'(2) a unfolding retire_def zombie_of_def by (cases "heap w' s") fastforce+
  moreover have "dom (transports w) \<subseteq> dom (transports w')" using w'(2) same_sockets_dom [of w w'] by (simp add: retire_def)
  ultimately show ?thesis using w'(1) by (simp add: smart_fail_def served_def)
qed

lemma served_fail_io:
  assumes "server_inv w" and "smart_at s p w"
  shows "served s p w (smart_fail s (SendFail_fd fd m w))"
proof -
  have st: "steady s p w (SendFail_fd fd m w)" by (rule io_steady [OF io_only_replies(1) assms])
  then show ?thesis by (intro served_steady [OF st] served_fail) (simp_all add: steady_def)
qed

lemma smart_device_request_served:
  assumes inv: "server_inv w" and sm: "smart_at s p w"
    and ok: "\<And>a t tr. heap w s = Some a \<Longrightarrow> so_transport a = Some t \<Longrightarrow> transports w t = Some tr \<Longrightarrow>
      ConnectionStateIsOnline (tr_state tr) \<Longrightarrow> remote_request_ok env service tr"
  shows "served s p w (smart_device_request env s service w)"
proof -
  obtain a b where ab: "heap w s = Some a" "so_enqueue a = SmartEnqueue" "so_peer a = Some p" "heap w p = Some b" "is_local b"
    "so_peer b = Some s" "so_transport b = None" using sm by (auto simp: smart_at_def)
  have ne: "s \<noteq> p" using ab by auto
  have si: "sock_inv w" using inv by (simp add: server_inv_def)
  have pf: "peer_fd s w = Some (p, so_fd b)" using ab by (simp add: peer_fd_def)
  have sc: "so_close a = SmartClose" using inv_wf [OF si ab(1)] ab(2) by (simp add: socket_wf_def)
  show ?thesis
  proof (cases "so_transport a")
    case None
    then show ?thesis using ab(1) pf served_fail_io [OF inv sm] by (simp add: smart_device_request_def)
  next
    case (Some t)
    with socket_transport [OF inv sm ab(1)] obtain tr where tr: "transports w t = Some tr" by blast
    show ?thesis
    proof (cases "ConnectionStateIsOnline (tr_state tr)")
      case False
      then show ?thesis using ab(1) pf Some tr served_fail_io [OF inv sm] by (simp add: smart_device_request_def)
    next
      case True
      define c where "c = b\<lparr>so_ready := LocalReadyNotify, so_shutdown := NoShutdown, so_close := LocalCloseNotify, so_peer := None, so_transport := Some t\<rparr>"
      define w1 where "w1 = w\<lparr>heap := (heap w)(p \<mapsto> c)\<rparr>"
      have c: "heap w1 p = Some c" "so_peer c = None" "so_transport c = Some t" by (simp_all add: c_def w1_def)
      have tr1: "transports w1 t = Some tr" using tr by (simp add: w1_def)
      obtain c' tr' where w2: "connect_to_remote env p service w1 = Some (w1\<lparr>heap := (heap w1)(p \<mapsto> c'), transports := (transports w1)(t \<mapsto> tr')\<rparr>)"
        and c': "c' = c \<or> c' = c\<lparr>so_available_send_bytes := Some 0\<rparr>" and f: "tr_disconnects tr' = tr_disconnects tr" "tr_auth_id tr' = tr_auth_id tr"
        by (rule connect_to_remote_ok [OF c tr1 ok [OF ab(1) Some tr True]])
      define w3 where "w3 = w\<lparr>heap := (heap w)(s := None, p \<mapsto> c')\<rparr>"
      have nb: "\<not> so_closing b" by (rule peer_facts [OF si ab(1,3)]) (use ab in auto)
      have "local_wf c'" "is_local c'" "\<not> so_closing c'" "so_peer c' = None" "so_id c' = so_id b" "transport_alive w c'"
        using inv_local_wf [OF si ab(4,5)] c' nb ab(5) tr by (auto simp: c_def local_wf_def transport_alive_def)
      then have "sock_inv w3" unfolding w3_def by (intro drop_smart_ok [OF si ab(1-6)])
      then have inv3: "server_inv w3" by (rule server_inv_outer [OF inv, rotated]) (simp add: w3_def)
      have tr3: "transports w3 t = Some tr" using tr by (simp add: w3_def)
      have inv4: "server_inv (w3\<lparr>transports := (transports w3)(t \<mapsto> tr')\<rparr>)"
        using on_transport_ok(2) [OF inv3 tr3, of "\<lambda>_. tr'"] f by simp
      let ?w4 = "w3\<lparr>transports := (transports w3)(t \<mapsto> tr')\<rparr>"
      have u1: "update_socket p (\<lambda>b. b\<lparr>so_ready := LocalReadyNotify, so_shutdown := NoShutdown, so_close := LocalCloseNotify,
          so_peer := None, so_transport := Some t\<rparr>) w = Some w1" using ab(4) by (simp add: update_socket_def w1_def c_def)
      let ?w3 = "w\<lparr>heap := (heap w)(p \<mapsto> c', s \<mapsto> a\<lparr>so_peer := None\<rparr>), transports := (transports w)(t \<mapsto> tr')\<rparr>"
      have u2: "update_socket s (\<lambda>a. a\<lparr>so_peer := None\<rparr>) (w1\<lparr>heap := (heap w1)(p \<mapsto> c'), transports := (transports w1)(t \<mapsto> tr')\<rparr>) = Some ?w3"
        using ab(1) ne by (simp add: update_socket_def w1_def)
      have "sock_close s ?w3 = Some (?w3\<lparr>heap := (heap ?w3)(s := None)\<rparr>)"
        by (rule close_lone_smart [where a = "a\<lparr>so_peer := None\<rparr>"]) (use sc in simp_all)
      moreover have "((heap w)(p \<mapsto> c', s \<mapsto> a\<lparr>so_peer := None\<rparr>))(s := None) = (heap w)(s := None, p \<mapsto> c')"
        using ne by (simp add: fun_eq_iff)
      ultimately have cl: "sock_close s ?w3 = Some ?w4" by (simp add: w3_def del: fun_upd_apply)
      have "smart_device_request env s service w = Some (1, ?w4)"
        unfolding smart_device_request_def ab(1) pf Option.bind.simps prod.case Some option.case tr u1 w2 u2 cl using True by simp
      moreover have "client_at p ?w4" using \<open>is_local c'\<close> \<open>\<not> so_closing c'\<close> ne by (simp add: client_at_def w3_def)
      moreover have "heap ?w4 s = None" "dom (transports w) \<subseteq> dom (transports ?w4)" using ne by (auto simp: w3_def)
      ultimately show ?thesis using inv4 by (simp add: served_def)
    qed
  qed
qed

section \<open>Requests to the host\<close>

text \<open>The socket behind a service: none, a tracker, or the end of a service thread.\<close>

lemma host_service_to_socket_cases:
  assumes ok: "host_env_ok env he w0" and id: "local_socket_next_id w + 1 \<noteq> 0"
  obtains "host_service_to_socket env he name serial i w = Some (None, w)"
    | ty where "host_service_to_socket env he name serial i w = Some (Some (next_addr w),
        w\<lparr>heap := (heap w)(next_addr w \<mapsto> fresh_tracker ty), next_addr := next_addr w + 1,
          device_tracker_list := next_addr w # device_tracker_list w\<rparr>)"
    | fd where "host_service_to_socket env he name serial i w = Some (Some (next_addr w),
        w\<lparr>heap := (heap w)(next_addr w \<mapsto> fresh_local fd (local_socket_next_id w)), next_addr := next_addr w + 1,
          local_socket_next_id := local_socket_next_id w + 1, local_socket_list := local_socket_list w @ [next_addr w]\<rparr>)"
proof -
  have tracker: "create_device_tracker ty w = (next_addr w, w\<lparr>heap := (heap w)(next_addr w \<mapsto> fresh_tracker ty),
      next_addr := next_addr w + 1, device_tracker_list := next_addr w # device_tracker_list w\<rparr>)" for ty
    by (simp add: create_device_tracker_def new_socket_def fresh_tracker_def Let_def)
  have thread: "\<exists>fd. thread_socket he x w = Some (Some (next_addr w),
        w\<lparr>heap := (heap w)(next_addr w \<mapsto> fresh_local fd (local_socket_next_id w)), next_addr := next_addr w + 1,
          local_socket_next_id := local_socket_next_id w + 1, local_socket_list := local_socket_list w @ [next_addr w]\<rparr>)" for x
  proof -
    obtain fd where "he_service_thread he x = Some fd" using ok unfolding host_env_ok_def by blast
    then show ?thesis using create_local_socket_eq [OF id] by (auto simp: thread_socket_def)
  qed
  define Q where "Q r \<longleftrightarrow> r = Some (None, w) \<or> (\<exists>ty. r = (case create_device_tracker ty w of (s, w1) \<Rightarrow> Some (Some s, w1))) \<or>
    (\<exists>x. r = thread_socket he x w)" for r
  have "Q (Some (None, w))" "Q (case create_device_tracker ty w of (s, w1) \<Rightarrow> Some (Some s, w1))" "Q (thread_socket he x w)" for ty x
    unfolding Q_def by blast+
  then have "Q (host_service_to_socket env he name serial i w)"
    unfolding host_service_to_socket_def Let_def by (simp split: option.split del: case_prod_unfold)
  then consider "host_service_to_socket env he name serial i w = Some (None, w)"
    | ty where "host_service_to_socket env he name serial i w = (case create_device_tracker ty w of (s, w1) \<Rightarrow> Some (Some s, w1))"
    | x where "host_service_to_socket env he name serial i w = thread_socket he x w"
    unfolding Q_def by blast
  then show ?thesis
  proof cases
    case 1
    then show ?thesis by (rule that(1))
  next
    case (2 ty)
    then show ?thesis by (intro that(2) [of ty]) (simp add: tracker)
  next
    case (3 x)
    with thread [of x] show ?thesis using that(3) by metis
  qed
qed

lemma ready_keeps_client:
  assumes inv: "sock_inv w" and c: "heap w q = Some c" "\<not> so_closing c" "so_ready c = LocalReady \<and> is_local c \<or> so_enqueue c = TrackerEnqueue"
    "so_peer c = Some p" and p: "client_at p w"
  obtains w' where "sock_ready env q w = Some w'" and "sock_inv w'" and "same_sockets w w'" and "client_at p w'"
    and "\<And>x. x \<noteq> p \<Longrightarrow> x \<noteq> q \<Longrightarrow> heap w' x = heap w x"
proof -
  obtain b where b: "heap w p = Some b" "is_local b" "\<not> so_closing b" using p by (auto simp: client_at_def)
  have ne: "q \<noteq> p" using peer_facts [OF inv c(1,4)] by blast
  obtain w' where w': "sock_ready env q w = Some w'" "sock_inv w'" "same_sockets w w'" using sock_ready_ok [OF inv c(1,2), of env] by blast
  show ?thesis
  proof (cases "so_enqueue c = TrackerEnqueue")
    case False
    then have lr: "so_ready c = LocalReady" "is_local c" using c(3) by blast+
    then have "heap w' x = heap w x" if "x \<noteq> q" for x
      using w'(1) c(1) that by (auto simp: sock_ready_def local_socket_ready_def fdevent_set_def update_socket_def split: bind_splits)
    with that w' b ne show ?thesis by (auto simp: client_at_def)
  next
    case True
    then have tr: "so_ready c = TrackerReady" "so_tracker c \<noteq> None" using inv_wf [OF inv c(1)] by (auto simp: socket_wf_def)
    then obtain upd ty where ty: "so_tracker c = Some (upd, ty)" by force
    show ?thesis
    proof (cases upd)
      case False
      with w'(1) ty tr c(1) have "w' = w" by (simp add: sock_ready_def device_tracker_ready_def)
      with that w' p show ?thesis by blast
    next
      case u: True
      let ?c = "c\<lparr>so_tracker := Some (False, ty)\<rparr>"
      let ?w = "w\<lparr>heap := (heap w)(q \<mapsto> ?c)\<rparr>"
      have inv1: "sock_inv ?w"
        by (rule sock_inv_update [OF inv c(1)]) (use True inv_wf [OF inv c(1)] in \<open>simp_all add: socket_wf_def\<close>)
      obtain str where str: "tracker_text env ty ?w = Some str" using tracker_text_Some [OF inv1] by blast
      have hb: "heap ?w q = Some ?c" "so_enqueue ?c = TrackerEnqueue" using True by simp_all
      obtain r w2 p2 where w2: "device_tracker_send q str ?w = Some (r, w2)" "sock_inv w2" "so_peer ?c = Some p2"
        "\<And>x. x \<noteq> p2 \<Longrightarrow> heap w2 x = heap ?w x" "same_sockets ?w w2"
        "\<exists>b'. heap w2 p2 = Some b' \<and> is_local b' \<and> so_peer b' = Some q \<and> \<not> so_closing b'"
        by (rule device_tracker_send_ok [where str = str, OF inv1 hb]) blast
      have "sock_ready env q w = Some w2"
        using c(1) tr(1) ty u str w2(1) by (simp add: sock_ready_def device_tracker_ready_def update_socket_def)
      with w'(1) have eq: "w2 = w'" by simp
      show ?thesis
        by (rule that [OF w']) (use eq w2(3,4,6) c(4) in \<open>auto simp: client_at_def\<close>)
    qed
  qed
qed

text \<open>The client gets the service's socket for a peer, and the smart socket goes.\<close>

definition hand_over :: "addr \<Rightarrow> addr \<Rightarrow> addr \<Rightarrow> world \<Rightarrow> world option" where
  "hand_over s p q w = do {
     w3 \<leftarrow> update_socket p (\<lambda>b. (plain_local b)\<lparr>so_peer := Some q\<rparr>) w;
     w4 \<leftarrow> update_socket q (\<lambda>c. c\<lparr>so_peer := Some p\<rparr>) w3;
     w5 \<leftarrow> update_socket s (\<lambda>a. a\<lparr>so_peer := None\<rparr>) w4;
     sock_close s w5
   }"

lemma hand_over_eq:
  assumes "heap w s = Some a" and "so_close a = SmartClose" and "heap w p = Some b" and "heap w q = Some c" and "s \<noteq> p" "s \<noteq> q" "p \<noteq> q"
  shows "hand_over s p q w = Some (w\<lparr>heap := (heap w)(s := None, p \<mapsto> (plain_local b)\<lparr>so_peer := Some q\<rparr>, q \<mapsto> c\<lparr>so_peer := Some p\<rparr>)\<rparr>)"
proof -
  let ?b = "(plain_local b)\<lparr>so_peer := Some q\<rparr>" and ?c = "c\<lparr>so_peer := Some p\<rparr>" and ?a = "a\<lparr>so_peer := None\<rparr>"
  let ?w = "w\<lparr>heap := (heap w)(p \<mapsto> ?b, q \<mapsto> ?c, s \<mapsto> ?a)\<rparr>"
  have u: "update_socket p (\<lambda>b. (plain_local b)\<lparr>so_peer := Some q\<rparr>) w = Some (w\<lparr>heap := (heap w)(p \<mapsto> ?b)\<rparr>)"
    "update_socket q (\<lambda>c. c\<lparr>so_peer := Some p\<rparr>) (w\<lparr>heap := (heap w)(p \<mapsto> ?b)\<rparr>) = Some (w\<lparr>heap := (heap w)(p \<mapsto> ?b, q \<mapsto> ?c)\<rparr>)"
    "update_socket s (\<lambda>a. a\<lparr>so_peer := None\<rparr>) (w\<lparr>heap := (heap w)(p \<mapsto> ?b, q \<mapsto> ?c)\<rparr>) = Some ?w"
    by (subst update_socket_Some [of _ _ b] update_socket_Some [of _ _ c] update_socket_Some [of _ _ a]; use assms in simp; fail)+
  have "sock_close s ?w = Some (?w\<lparr>heap := (heap ?w)(s := None)\<rparr>)"
    by (rule close_lone_smart [where a = ?a]) (use assms(2) in simp_all)
  moreover have "((heap w)(p \<mapsto> ?b, q \<mapsto> ?c, s \<mapsto> ?a))(s := None) = (heap w)(s := None, p \<mapsto> ?b, q \<mapsto> ?c)"
    using assms(5-7) by (simp add: fun_eq_iff)
  ultimately have "sock_close s ?w = Some (w\<lparr>heap := (heap w)(s := None, p \<mapsto> ?b, q \<mapsto> ?c)\<rparr>)" by (simp del: fun_upd_apply)
  then show ?thesis unfolding hand_over_def u Option.bind.simps .
qed

lemma smart_pair:
  assumes "server_inv w" and "smart_at s p w"
  obtains a b where "heap w s = Some a" "so_enqueue a = SmartEnqueue" "so_peer a = Some p" "so_close a = SmartClose" "heap w p = Some b"
    "is_local b" "so_peer b = Some s" "so_transport b = None" "\<not> so_closing b" "local_wf b" "s \<noteq> p" "sock_inv w"
proof -
  obtain a b where ab: "heap w s = Some a" "so_enqueue a = SmartEnqueue" "so_peer a = Some p" "heap w p = Some b" "is_local b"
    "so_peer b = Some s" "so_transport b = None" using assms(2) by (auto simp: smart_at_def)
  have si: "sock_inv w" using assms(1) by (simp add: server_inv_def)
  have "so_close a = SmartClose" using inv_wf [OF si ab(1)] ab(2) by (simp add: socket_wf_def)
  moreover have "\<not> so_closing b" using smart_client [OF assms] ab(4) by (simp add: client_at_def)
  moreover have "local_wf b" by (rule inv_local_wf [OF si ab(4,5)])
  moreover have "s \<noteq> p" using ab by auto
  ultimately show ?thesis using that ab si by blast
qed

lemma hand_over_tracker:
  fixes ty
  assumes inv: "server_inv w" and sm: "smart_at s p w"
  defines "w2 \<equiv> w\<lparr>heap := (heap w)(next_addr w \<mapsto> fresh_tracker ty), next_addr := next_addr w + 1,
          device_tracker_list := next_addr w # device_tracker_list w\<rparr>"
  obtains w6 where "hand_over s p (next_addr w) w2 = Some w6" and "sock_inv w6" and "heap w6 s = None" and "client_at p w6"
    and "outer w6 = outer w" and "transports w6 = transports w"
    and "heap w6 (next_addr w) = Some ((fresh_tracker ty)\<lparr>so_peer := Some p\<rparr>)"
proof -
  obtain a b where a: "heap w s = Some a" "so_enqueue a = SmartEnqueue" "so_peer a = Some p" "so_close a = SmartClose"
    and b: "heap w p = Some b" "is_local b" "so_peer b = Some s" "so_transport b = None" "\<not> so_closing b" "local_wf b"
    and ne: "s \<noteq> p" and si: "sock_inv w" by (rule smart_pair [OF inv sm])
  have new: "heap w (next_addr w) = None" by (rule inv_addr [OF si order_refl])
  then have ne2: "s \<noteq> next_addr w" "p \<noteq> next_addr w" using a(1) b(1) by auto
  define c where "c = (plain_local b)\<lparr>so_peer := None\<rparr>"
  have c: "is_local c" "local_wf c" "\<not> so_closing c" "so_peer c = None" "so_id c = so_id b" "transport_alive w c"
    using b by (auto simp: c_def plain_local_def local_wf_def transport_alive_def)
  define wd where "wd = w\<lparr>heap := (heap w)(s := None, p \<mapsto> c)\<rparr>"
  have invd: "sock_inv wd" unfolding wd_def by (rule drop_smart_ok [OF si a(1-3) b(1-3) c])
  have cd: "heap wd p = Some c" by (simp add: wd_def)
  define w6 where "w6 = wd\<lparr>heap := (heap wd)(p \<mapsto> c\<lparr>so_peer := Some (next_addr wd)\<rparr>, next_addr wd \<mapsto> (fresh_tracker ty)\<lparr>so_peer := Some p\<rparr>),
      next_addr := next_addr wd + 1, device_tracker_list := next_addr wd # device_tracker_list wd\<rparr>"
  have "sock_inv w6" unfolding w6_def by (rule pair_tracker_ok [OF invd cd c(1,3,4)])
  moreover have "hand_over s p (next_addr w) w2 = Some w6"
  proof -
    have "heap w2 s = Some a" "heap w2 p = Some b" "heap w2 (next_addr w) = Some (fresh_tracker ty)" using a(1) b(1) ne2 by (simp_all add: w2_def)
    then have "hand_over s p (next_addr w) w2 = Some (w2\<lparr>heap := (heap w2)(s := None, p \<mapsto> (plain_local b)\<lparr>so_peer := Some (next_addr w)\<rparr>,
        next_addr w \<mapsto> (fresh_tracker ty)\<lparr>so_peer := Some p\<rparr>)\<rparr>)" by (rule hand_over_eq [OF _ a(4) _ _ ne ne2])
    also have "\<dots> = Some w6" using ne ne2 by (simp add: w2_def w6_def wd_def c_def fun_eq_iff)
    finally show ?thesis .
  qed
  moreover have "heap w6 s = None" "client_at p w6" using ne ne2 c by (simp_all add: w6_def wd_def client_at_def)
  moreover have "outer w6 = outer w" "transports w6 = transports w" "heap w6 (next_addr w) = Some ((fresh_tracker ty)\<lparr>so_peer := Some p\<rparr>)"
    by (simp_all add: w6_def wd_def)
  ultimately show ?thesis using that by blast
qed

lemma hand_over_local:
  fixes fd
  assumes inv: "server_inv w" and sm: "smart_at s p w" and id: "local_socket_next_id w + 1 \<noteq> 0"
  defines "w2 \<equiv> w\<lparr>heap := (heap w)(next_addr w \<mapsto> fresh_local fd (local_socket_next_id w)), next_addr := next_addr w + 1,
          local_socket_next_id := local_socket_next_id w + 1, local_socket_list := local_socket_list w @ [next_addr w]\<rparr>"
  obtains w6 where "hand_over s p (next_addr w) w2 = Some w6" and "sock_inv w6" and "heap w6 s = None" and "client_at p w6"
    and "outer w6 = outer w" and "transports w6 = transports w"
    and "heap w6 (next_addr w) = Some ((fresh_local fd (local_socket_next_id w))\<lparr>so_peer := Some p\<rparr>)"
proof -
  obtain a b where a: "heap w s = Some a" "so_enqueue a = SmartEnqueue" "so_peer a = Some p" "so_close a = SmartClose"
    and b: "heap w p = Some b" "is_local b" "so_peer b = Some s" "so_transport b = None" "\<not> so_closing b" "local_wf b"
    and ne: "s \<noteq> p" and si: "sock_inv w" by (rule smart_pair [OF inv sm])
  have new: "heap w (next_addr w) = None" by (rule inv_addr [OF si order_refl])
  then have ne2: "s \<noteq> next_addr w" "p \<noteq> next_addr w" using a(1) b(1) by auto
  define c where "c = (plain_local b)\<lparr>so_peer := None\<rparr>"
  have c: "is_local c" "local_wf c" "\<not> so_closing c" "so_peer c = None" "so_id c = so_id b" "transport_alive w c"
    using b by (auto simp: c_def plain_local_def local_wf_def transport_alive_def)
  define wd where "wd = w\<lparr>heap := (heap w)(s := None, p \<mapsto> c)\<rparr>"
  have invd: "sock_inv wd" unfolding wd_def by (rule drop_smart_ok [OF si a(1-3) b(1-3) c])
  let ?f = "fresh_local fd (local_socket_next_id w)"
  define we where "we = wd\<lparr>heap := (heap wd)(next_addr wd \<mapsto> ?f), next_addr := next_addr wd + 1,
      local_socket_next_id := local_socket_next_id wd + 1, local_socket_list := local_socket_list wd @ [next_addr wd]\<rparr>"
  have inve: "sock_inv we" unfolding we_def by (rule add_local_ok [OF invd]) (use id in \<open>simp_all add: wd_def transport_alive_def\<close>)
  have he: "heap we p = Some c" "heap we (next_addr w) = Some ?f" using ne2 by (simp_all add: we_def wd_def)
  define w6 where "w6 = we\<lparr>heap := (heap we)(p \<mapsto> c\<lparr>so_peer := Some (next_addr w)\<rparr>, next_addr w \<mapsto> ?f\<lparr>so_peer := Some p\<rparr>)\<rparr>"
  have "sock_inv w6" unfolding w6_def by (rule pair_locals_ok [OF inve ne2(2) he(1) c(1,3,4) he(2)]) simp_all
  moreover have "hand_over s p (next_addr w) w2 = Some w6"
  proof -
    have "heap w2 s = Some a" "heap w2 p = Some b" "heap w2 (next_addr w) = Some ?f" using a(1) b(1) ne2 by (simp_all add: w2_def)
    then have "hand_over s p (next_addr w) w2 = Some (w2\<lparr>heap := (heap w2)(s := None, p \<mapsto> (plain_local b)\<lparr>so_peer := Some (next_addr w)\<rparr>,
        next_addr w \<mapsto> ?f\<lparr>so_peer := Some p\<rparr>)\<rparr>)" by (rule hand_over_eq [OF _ a(4) _ _ ne ne2])
    also have "\<dots> = Some w6" using ne ne2 by (simp add: w2_def w6_def we_def wd_def c_def fun_eq_iff)
    finally show ?thesis .
  qed
  moreover have "heap w6 s = None" "client_at p w6" using ne ne2 c by (simp_all add: w6_def we_def wd_def client_at_def)
  moreover have "outer w6 = outer w" "transports w6 = transports w" "heap w6 (next_addr w) = Some (?f\<lparr>so_peer := Some p\<rparr>)"
    by (simp_all add: w6_def we_def wd_def)
  ultimately show ?thesis using that by blast
qed

lemma unhandled_served:
  assumes ok: "host_env_ok env he w0" and inv: "server_inv w" and sm: "smart_at s p w" and id: "local_socket_next_id w + 1 \<noteq> 0"
  shows "served s p w (do {
      (r, w2) \<leftarrow> host_service_to_socket env he name serial i w;
      (p, fd2) \<leftarrow> peer_fd s w2;
      (case r of
         None \<Rightarrow> smart_fail s (SendFail_fd fd2 (m name) w2)
       | Some q \<Rightarrow> do { w6 \<leftarrow> hand_over s p q (SendOkay_fd fd2 w2); w7 \<leftarrow> sock_ready env' q w6; Some (0, w7) }) })"
    (is "served s p w ?run")
proof -
  obtain a b where a: "heap w s = Some a" "so_enqueue a = SmartEnqueue" "so_peer a = Some p" "so_close a = SmartClose"
    and b: "heap w p = Some b" "is_local b" "so_peer b = Some s" "so_transport b = None" "\<not> so_closing b" "local_wf b"
    and ne: "s \<noteq> p" and si: "sock_inv w" by (rule smart_pair [OF inv sm])
  have new: "heap w (next_addr w) = None" by (rule inv_addr [OF si order_refl])
  then have ne2: "s \<noteq> next_addr w" "p \<noteq> next_addr w" using a(1) b(1) by auto
  have pf: "peer_fd s w2 = Some (p, so_fd b)" if "heap w2 = (heap w)(next_addr w \<mapsto> c)" for w2 c
    using that a b ne2 by (simp add: peer_fd_def)
  define fd2 where "fd2 = so_fd b"
  define v where "v = SendOkay_fd fd2 w"
  have st: "steady s p w v" unfolding v_def by (rule io_steady [OF io_only_replies(2) inv sm])
  then have v: "server_inv v" "smart_at s p v" by (simp_all add: steady_def)
  have ve: "next_addr v = next_addr w" "local_socket_next_id v = local_socket_next_id w" by (simp_all add: v_def SendOkay_fd_def)
  have finish: "served s p v (do { w7 \<leftarrow> sock_ready env' (next_addr w) w6; Some (0, w7) })"
    if w6: "sock_inv w6" "heap w6 s = None" "client_at p w6" "outer w6 = outer v" "transports w6 = transports v"
      and c: "heap w6 (next_addr w) = Some c" "\<not> so_closing c" "so_ready c = LocalReady \<and> is_local c \<or> so_enqueue c = TrackerEnqueue"
        "so_peer c = Some p" for w6 c
  proof -
    obtain w7 where w7: "sock_ready env' (next_addr w) w6 = Some w7" "sock_inv w7" "same_sockets w6 w7" "client_at p w7"
      "\<And>x. x \<noteq> p \<Longrightarrow> x \<noteq> next_addr w \<Longrightarrow> heap w7 x = heap w6 x" by (rule ready_keeps_client [OF w6(1) c w6(3)]) blast
    have "server_inv w7"
      by (rule server_inv_outer [OF v(1) _ w7(2)]) (use sock_ready_outer [OF w7(1)] w6(4) in simp)
    moreover have "heap w7 s = None" using w7(5) [OF ne ne2(1)] w6(2) by simp
    moreover have "dom (transports v) \<subseteq> dom (transports w7)" using same_sockets_dom [OF w7(3)] w6(5) by simp
    ultimately show ?thesis using w7(1,4) by (simp add: served_def)
  qed
  show ?thesis
  proof (rule host_service_to_socket_cases [OF ok id, of name serial i])
    assume run: "host_service_to_socket env he name serial i w = Some (None, w)"
    have "peer_fd s w = Some (p, so_fd b)" using a b by (simp add: peer_fd_def)
    then show ?thesis using run served_fail_io [OF inv sm] by simp
  next
    fix ty
    let ?w2 = "\<lambda>w. w\<lparr>heap := (heap w)(next_addr w \<mapsto> fresh_tracker ty), next_addr := next_addr w + 1,
          device_tracker_list := next_addr w # device_tracker_list w\<rparr>"
    assume run: "host_service_to_socket env he name serial i w = Some (Some (next_addr w), ?w2 w)"
    obtain w6 where w6: "hand_over s p (next_addr v) (?w2 v) = Some w6" "sock_inv w6" "heap w6 s = None" "client_at p w6"
      "outer w6 = outer v" "transports w6 = transports v" "heap w6 (next_addr v) = Some ((fresh_tracker ty)\<lparr>so_peer := Some p\<rparr>)"
      by (rule hand_over_tracker [OF v])
    have "SendOkay_fd fd2 (?w2 w) = ?w2 v" by (simp add: v_def SendOkay_fd_def)
    then have "?run = (do { w7 \<leftarrow> sock_ready env' (next_addr w) w6; Some (0, w7) })"
      using run pf [of "?w2 w"] w6(1) ve(1) by (simp add: fd2_def)
    moreover have "served s p v (do { w7 \<leftarrow> sock_ready env' (next_addr w) w6; Some (0, w7) })"
      by (rule finish [OF w6(2-6), of "(fresh_tracker ty)\<lparr>so_peer := Some p\<rparr>"])
        (use w6(7) ve(1) in \<open>simp_all add: fresh_tracker_def init_socket_def\<close>)
    ultimately show ?thesis using served_steady [OF st] by simp
  next
    fix fd
    let ?w2 = "\<lambda>w. w\<lparr>heap := (heap w)(next_addr w \<mapsto> fresh_local fd (local_socket_next_id w)), next_addr := next_addr w + 1,
          local_socket_next_id := local_socket_next_id w + 1, local_socket_list := local_socket_list w @ [next_addr w]\<rparr>"
    assume run: "host_service_to_socket env he name serial i w = Some (Some (next_addr w), ?w2 w)"
    have idv: "local_socket_next_id v + 1 \<noteq> 0" using id ve by simp
    obtain w6 where w6: "hand_over s p (next_addr v) (?w2 v) = Some w6" "sock_inv w6" "heap w6 s = None" "client_at p w6"
      "outer w6 = outer v" "transports w6 = transports v" "heap w6 (next_addr v) = Some ((fresh_local fd (local_socket_next_id v))\<lparr>so_peer := Some p\<rparr>)"
      by (rule hand_over_local [OF v idv])
    have "SendOkay_fd fd2 (?w2 w) = ?w2 v" by (simp add: v_def SendOkay_fd_def)
    then have "?run = (do { w7 \<leftarrow> sock_ready env' (next_addr w) w6; Some (0, w7) })"
      using run pf [of "?w2 w"] w6(1) ve(1) by (simp add: fd2_def)
    moreover have "served s p v (do { w7 \<leftarrow> sock_ready env' (next_addr w) w6; Some (0, w7) })"
      by (rule finish [OF w6(2-6), of "(fresh_local fd (local_socket_next_id v))\<lparr>so_peer := Some p\<rparr>"])
        (use w6(7) ve(1) in \<open>simp_all add: fresh_local_def init_socket_def\<close>)
    ultimately show ?thesis using served_steady [OF st] by simp
  qed
qed

lemma host_sel:
  "e_handle_host_request (host_surroundings env he) = handle_host_request env he"
  "e_host_service_to_socket (host_surroundings env he) = host_service_to_socket env he"
  by (simp_all add: host_surroundings_def)

lemma set_data_steady:
  assumes inv: "server_inv w" and sm: "smart_at s p w"
  obtains w1 where "update_socket s (\<lambda>a. a\<lparr>so_smart_socket_data := d\<rparr>) w = Some w1" and "steady s p w w1"
    and "transports w1 = transports w" and "\<And>a. heap w s = Some a \<Longrightarrow> heap w1 s = Some (a\<lparr>so_smart_socket_data := d\<rparr>)"
    and "w1 = w\<lparr>heap := heap w1\<rparr>"
proof -
  obtain a b where a: "heap w s = Some a" "so_enqueue a = SmartEnqueue" "so_peer a = Some p" and b: "heap w p = Some b" "is_local b" "so_peer b = Some s" "so_transport b = None"
    and ne: "s \<noteq> p" and si: "sock_inv w" by (rule smart_pair [OF inv sm])
  let ?a = "a\<lparr>so_smart_socket_data := d\<rparr>"
  let ?w = "w\<lparr>heap := (heap w)(s \<mapsto> ?a)\<rparr>"
  have "socket_wf ?a" using inv_wf [OF si a(1)] a(2) by (simp add: socket_wf_def)
  then have "sock_inv ?w" by (intro sock_inv_update [OF si a(1)]) simp_all
  then have "server_inv ?w" by (rule server_inv_outer [OF inv, rotated]) simp
  then have "steady s p w ?w" using a b ne by (auto simp: steady_def smart_at_def)
  with that [of ?w] update_socket_Some [OF a(1)] a(1) show ?thesis by simp
qed

lemma smart_host_request_served:
  assumes ok: "host_env_ok env he w" and inv: "server_inv w" and sm: "smart_at s p w" and id: "local_socket_next_id w + 1 \<noteq> 0"
    and kill: "service \<noteq> ''kill'' \<or> he_reject_kill_server he"
  shows "served s p w (smart_host_request (host_surroundings env he) s serial i ty service w)"
proof -
  obtain a b where a: "heap w s = Some a" "so_peer a = Some p" and b: "heap w p = Some b" by (rule smart_pair [OF inv sm])
  have pf: "peer_fd s w = Some (p, so_fd b)" using a b by (simp add: peer_fd_def)
  obtain r w1 where r: "handle_host_request env he service ty (if serial = [] then None else Some serial) i (so_fd b) s w = Some (r, w1)"
    and st: "steady s p w w1" using handle_host_request_steady [OF ok inv sm kill] unfolding steady_run_def by blast
  have w1: "server_inv w1" "smart_at s p w1" "local_socket_next_id w1 + 1 \<noteq> 0" using st id by (simp_all add: steady_def)
  have "served s p w1 (case r of
        Handled \<Rightarrow> smart_fail s w1
      | SwitchedTransport \<Rightarrow> do { w2 \<leftarrow> update_socket s (\<lambda>a. a\<lparr>so_smart_socket_data := []\<rparr>) w1; Some (0, w2) }
      | Unhandled \<Rightarrow> do {
          (r, w2) \<leftarrow> host_service_to_socket env he service serial i w1;
          (p, fd2) \<leftarrow> peer_fd s w2;
          (case r of
             None \<Rightarrow> smart_fail s (SendFail_fd fd2 (''unknown host service '' @ CHR 0x27 # service @ [CHR 0x27]) w2)
           | Some q \<Rightarrow> do { w6 \<leftarrow> hand_over s p q (SendOkay_fd fd2 w2); w7 \<leftarrow> sock_ready (host_surroundings env he) q w6; Some (0, w7) }) })"
  proof (cases r)
    case Handled
    with served_fail [OF w1(1,2)] show ?thesis by simp
  next
    case SwitchedTransport
    obtain w2 where "update_socket s (\<lambda>a. a\<lparr>so_smart_socket_data := []\<rparr>) w1 = Some w2" "steady s p w1 w2"
      by (rule set_data_steady [OF w1(1,2)])
    with served_wait SwitchedTransport show ?thesis by simp
  next
    case Unhandled
    with unhandled_served [OF ok w1] show ?thesis by simp
  qed
  also have "(case r of
        Handled \<Rightarrow> smart_fail s w1
      | SwitchedTransport \<Rightarrow> do { w2 \<leftarrow> update_socket s (\<lambda>a. a\<lparr>so_smart_socket_data := []\<rparr>) w1; Some (0, w2) }
      | Unhandled \<Rightarrow> do {
          (r, w2) \<leftarrow> host_service_to_socket env he service serial i w1;
          (p, fd2) \<leftarrow> peer_fd s w2;
          (case r of
             None \<Rightarrow> smart_fail s (SendFail_fd fd2 (''unknown host service '' @ CHR 0x27 # service @ [CHR 0x27]) w2)
           | Some q \<Rightarrow> do { w6 \<leftarrow> hand_over s p q (SendOkay_fd fd2 w2); w7 \<leftarrow> sock_ready (host_surroundings env he) q w6; Some (0, w7) }) })
    = smart_host_request (host_surroundings env he) s serial i ty service w"
    unfolding smart_host_request_def pf Option.bind.simps prod.case host_sel r
    by (cases r) (simp_all add: hand_over_def Option.bind_assoc cong: option.case_cong)
  finally show ?thesis by (rule served_steady [OF st])
qed

section \<open>Requests of a client\<close>

text \<open>
  The requests that are safe: not the three on which the parser reads outside the string, not the one
  that ends the server, and for a device one that \<open>connect_to_remote\<close> accepts.
\<close>

definition crashing_requests :: "string set" where
  "crashing_requests = {''host-serial:vsock:'', ''host-serial:tcp:vsock:'', ''host-serial:udp:vsock:''}"

definition request_ok :: "env \<Rightarrow> host_env \<Rightarrow> bytes \<Rightarrow> tref option \<Rightarrow> world \<Rightarrow> bool" where
  "request_ok env he d t w \<longleftrightarrow>
     (\<forall>len. unhex d 4 = Some len \<longrightarrow> unat len + 4 \<le> length d \<longrightarrow>
       (let text = drop 4 (d[unat len + 4 := CHR 0x00]) in
        text \<notin> crashing_requests \<and>
        (\<forall>serial i ty service. parse_service_request (e_libbase env) text = Some (Inr (serial, i, ty, service)) \<longrightarrow>
           (service = ''kill'' \<longrightarrow> he_reject_kill_server he) \<and>
           (service = [] \<longrightarrow> (\<forall>u tr. t = Some u \<longrightarrow> transports w u = Some tr \<longrightarrow> remote_request_ok env text tr)))))"

lemma unhex_loop_Some: "n \<le> length d \<Longrightarrow> \<exists>len. unhex_loop k d n = Some len"
  by (induction k d n rule: unhex_loop.induct) (auto split: option.split)

lemma parse_service_request_Some:
  assumes lb: "libbase_ok lb" and "text \<notin> crashing_requests"
  shows "\<exists>r. parse_service_request lb text = Some r"
proof (cases "prefix ''host-serial:'' text")
  case True
  then obtain rest where rest: "text = ''host-serial:'' @ rest" by (auto simp: prefix_def)
  with assms(2) have "parse_host_service rest \<noteq> None" unfolding parse_host_service_abort by (auto simp: crashing_requests_def)
  then show ?thesis using rest by (auto simp: parse_service_request_def libbase_simps(3) [OF lb])
next
  case False
  then have "ConsumePrefix lb text ''host-serial:'' = None" by (simp add: libbase_simps(3) [OF lb])
  then show ?thesis by (simp add: parse_service_request_def split: option.split prod.split)
qed

lemma remote_request_ok_surroundings [simp]: "remote_request_ok (host_surroundings env he) text tr = remote_request_ok env text tr"
  by (simp add: remote_request_ok_def host_surroundings_def)

lemma smart_socket_enqueue_served:
  assumes ok: "host_env_ok env he w" and inv: "server_inv w" and sm: "smart_at s p w" and id: "local_socket_next_id w + 1 \<noteq> 0"
    and req: "\<And>a. heap w s = Some a \<Longrightarrow> request_ok env he (so_smart_socket_data a @ block_bytes data) (so_transport a) w"
  shows "served s p w (smart_socket_enqueue (host_surroundings env he) s data w)"
proof -
  obtain a where a: "heap w s = Some a" using sm by (auto simp: smart_at_def)
  define d where "d = so_smart_socket_data a @ block_bytes data"
  have lb: "libbase_ok (e_libbase env)" using ok by (simp add: host_env_ok_def)
  obtain w1 where w1: "update_socket s (\<lambda>a. a\<lparr>so_smart_socket_data := d\<rparr>) w = Some w1" "steady s p w w1"
    by (rule set_data_steady [OF inv sm])
  then have v1: "server_inv w1" "smart_at s p w1" by (simp_all add: steady_def)
  note r = req [OF a, folded d_def]
  show ?thesis
  proof (cases "length d < 4")
    case True
    then show ?thesis unfolding smart_socket_enqueue_def a Option.bind.simps Let_def d_def [symmetric] w1(1) using served_wait [OF w1(2)] by simp
  next
    case False
    then obtain len where len: "unhex d 4 = Some len" using unhex_loop_Some [of 4 d 0] by (auto simp: unhex_def)
    define d2 where "d2 = d[unat len + 4 := CHR 0x00]"
    show ?thesis
    proof (cases "len = 0 \<or> unat len > MAX_PAYLOAD")
      case True
      have "served s p w (smart_fail s w1)" by (rule served_steady [OF w1(2) served_fail [OF v1]])
      with True False len show ?thesis unfolding smart_socket_enqueue_def a Option.bind.simps Let_def d_def [symmetric] w1(1) by simp
    next
      case valid: False
      show ?thesis
      proof (cases "unat len + 4 > length d")
        case True
        with served_wait [OF w1(2)] valid False len show ?thesis
          unfolding smart_socket_enqueue_def a Option.bind.simps Let_def d_def [symmetric] w1(1) by simp
      next
        case whole: False
        obtain w2 where w2: "update_socket s (\<lambda>a. a\<lparr>so_smart_socket_data := d2\<rparr>) w1 = Some w2" "steady s p w1 w2"
          "transports w2 = transports w1" "\<And>a. heap w1 s = Some a \<Longrightarrow> heap w2 s = Some (a\<lparr>so_smart_socket_data := d2\<rparr>)" "w2 = w1\<lparr>heap := heap w2\<rparr>"
          by (rule set_data_steady [OF v1]) blast
        have h1: "heap w1 s = Some (a\<lparr>so_smart_socket_data := d\<rparr>)" "w1 = w\<lparr>heap := heap w1\<rparr>" using w1(1) a by (auto simp: update_socket_def)
        have h2: "heap w2 s = Some (a\<lparr>so_smart_socket_data := d2\<rparr>)" using w2(4) [OF h1(1)] by simp
        have st: "steady s p w w2" by (rule steady_trans [OF w1(2) w2(2)])
        then have v2: "server_inv w2" "smart_at s p w2" "local_socket_next_id w2 + 1 \<noteq> 0" using id by (simp_all add: steady_def)
        have eq: "w2 = w\<lparr>heap := heap w2\<rparr>" by (subst w2(5), subst h1(2)) simp
        have ok2: "host_env_ok env he w2" using ok by (subst eq) (simp add: host_env_ok_def forward_table_def)
        have trs: "transports w2 = transports w" by (subst eq) simp
        have c: "drop 4 d2 \<notin> crashing_requests"
          and k: "\<And>serial i ty service. parse_service_request (e_libbase env) (drop 4 d2) = Some (Inr (serial, i, ty, service)) \<Longrightarrow>
             (service = ''kill'' \<longrightarrow> he_reject_kill_server he) \<and>
             (service = [] \<longrightarrow> (\<forall>u tr. so_transport a = Some u \<longrightarrow> transports w u = Some tr \<longrightarrow> remote_request_ok env (drop 4 d2) tr))"
          using r len whole unfolding request_ok_def d2_def by (auto simp: Let_def)
        obtain x where x: "parse_service_request (e_libbase env) (drop 4 d2) = Some x" using parse_service_request_Some [OF lb c] by blast
        define env' where "env' = host_surroundings env he"
        have lb': "e_libbase env' = e_libbase env" by (simp add: env'_def host_surroundings_def)
        have run: "smart_socket_enqueue env' s data w = (case x of
            Inl False \<Rightarrow> smart_fail s w2 | Inl True \<Rightarrow> Some (- 1, w2)
          | Inr (serial, transport_id, type, service) \<Rightarrow>
              if service \<noteq> [] then smart_host_request env' s serial transport_id type service w2
              else smart_device_request env' s (drop 4 d2) w2)"
          unfolding smart_socket_enqueue_def a Option.bind.simps Let_def d_def [symmetric] w1(1) len d2_def [symmetric] w2(1) lb' x
          using False valid whole by simp
        have "served s p w2 (case x of
            Inl False \<Rightarrow> smart_fail s w2 | Inl True \<Rightarrow> Some (- 1, w2)
          | Inr (serial, transport_id, type, service) \<Rightarrow>
              if service \<noteq> [] then smart_host_request env' s serial transport_id type service w2
              else smart_device_request env' s (drop 4 d2) w2)"
        proof (cases x)
          case (Inl f)
          then show ?thesis using served_fail [OF v2(1,2)] served_wait [OF steady_refl [OF v2(1,2)]] by (cases f) simp_all
        next
          case (Inr y)
          obtain serial i ty service where y: "y = (serial, i, ty, service)" by (cases y) auto
          note k' = k [OF x [unfolded Inr y]]
          show ?thesis
          proof (cases "service = []")
            case True
            have "served s p w2 (smart_device_request env' s (drop 4 d2) w2)"
              by (rule smart_device_request_served [OF v2(1,2)]) (use k' True h2 trs in \<open>auto simp: env'_def\<close>)
            with True Inr y show ?thesis by simp
          next
            case False
            have "served s p w2 (smart_host_request env' s serial i ty service w2)"
              unfolding env'_def by (rule smart_host_request_served [OF ok2 v2]) (use k' in blast)
            with False Inr y show ?thesis by simp
          qed
        qed
        with run served_steady [OF st] show ?thesis by (simp add: env'_def)
      qed
    qed
  qed
qed

section \<open>Properties of the smart socket\<close>

text \<open>A client with its smart socket, and surroundings without emulators or mDNS.\<close>

definition client_socket :: asocket where
  "client_socket = (fresh_local 5 1)\<lparr>so_peer := Some 1\<rparr>"

definition smart_socket :: asocket where
  "smart_socket = (init_socket SmartEnqueue SmartReady NoShutdown SmartClose)\<lparr>so_peer := Some 0\<rparr>"

definition smart_world :: world where
  "smart_world = socket_world\<lparr>heap := [0 \<mapsto> client_socket, 1 \<mapsto> smart_socket], next_addr := 2\<rparr>"

definition quiet_host :: host_env where
  "quiet_host = \<lparr>he_auth = device_auth, he_reject_kill_server = False, he_vendor_keys = None, he_addresses = no_addresses, he_server_status = [],
     he_libusb = False, he_supports_detach = (\<lambda>_. False), he_attach_answer = (\<lambda>_. None), he_detach_answer = (\<lambda>_. None),
     he_listen = listen_any, he_connect_emulator = (\<lambda>_ w. Some w), he_mdns_check = [], he_mdns_services = [],
     he_service_thread = (\<lambda>_. Some 9)\<rparr>"

lemma smart_world_ok: "server_inv smart_world" "smart_at 1 0 smart_world" "local_socket_next_id smart_world + 1 \<noteq> 0"
  "heap smart_world 1 = Some smart_socket"
proof -
  let ?b = "smart_socket"
  have b: "socket_wf ?b" "\<not> is_local ?b" "so_enqueue ?b \<noteq> TrackerEnqueue" "so_peer ?b = Some 0" "transport_alive socket_world ?b"
    by (simp_all add: smart_socket_def init_socket_def socket_wf_def transport_alive_def)
  have n: "next_addr socket_world = 1" by (simp add: socket_world_def)
  have "smart_world = socket_world\<lparr>heap := (heap socket_world)(0 \<mapsto> (fresh_local 5 1)\<lparr>so_peer := Some (next_addr socket_world)\<rparr>, next_addr socket_world \<mapsto> ?b),
      next_addr := next_addr socket_world + 1\<rparr>" by (simp add: smart_world_def socket_world_def client_socket_def)
  then have "sock_inv smart_world" using pair_new_ok [OF socket_world_inv socket_world_heap _ _ _ b] by simp
  moreover have "outer smart_world = outer (initial_world one_device [7])" by (simp add: smart_world_def socket_world_def)
  ultimately show "server_inv smart_world" using server_inv_outer [OF server_inv_one_device] by blast
  show "smart_at 1 0 smart_world"
    by (simp add: smart_at_def smart_world_def smart_socket_def client_socket_def init_socket_def fresh_local_def)
  show "local_socket_next_id smart_world + 1 \<noteq> 0" by (simp add: smart_world_def socket_world_def)
  show "heap smart_world 1 = Some smart_socket" by (simp add: smart_world_def)
qed

lemma quiet_host_ok: "host_env_ok bare_env quiet_host smart_world"
proof -
  have em: "emulators_ok quiet_host" unfolding emulators_ok_def
  proof (intro allI)
    fix port and w :: world
    show "\<exists>trs ps. he_connect_emulator quiet_host port w = Some (w\<lparr>transports := trs, pending_list := ps\<rparr>) \<and>
       (\<forall>t tr. transports w t = Some tr \<longrightarrow> trs t = Some tr) \<and>
       (\<forall>t tr. transports w t = None \<longrightarrow> trs t = Some tr \<longrightarrow> tr_disconnects tr = []) \<and>
       set ps \<subseteq> set (pending_list w) \<union> (dom trs - dom (transports w))"
      by (rule exI [of _ "transports w"], rule exI [of _ "pending_list w"]) (simp add: quiet_host_def)
  qed
  have "length (get_connection_string bare_env device_auth) \<le> MAX_PAYLOAD_V1" using server_env_ok_host by (simp add: server_env_ok_def)
  then show ?thesis
    using em by (simp add: host_env_ok_def) (simp add: quiet_host_def bare_env_def ref_libbase_ok listen_any_def forward_table_def smart_world_def socket_world_def initial_world_def)
qed

definition incomplete :: "bytes \<Rightarrow> bool" where
  "incomplete d \<longleftrightarrow> length d < 4 \<or> (\<exists>len. unhex d 4 = Some len \<and> len \<noteq> 0 \<and> unat len \<le> MAX_PAYLOAD \<and> length d < unat len + 4)"

lemma version_request:
  "unhex ''000ch'' 4 = Some 12" "unhex ''000chost:version'' 4 = Some 12"
  "parse_service_request ref_libbase ''host:version'' = Some (Inr ([], 0, kTransportAny, ''version''))"
  by code_simp+

text \<open>
  C3: whatever bytes a client sends to the smart socket of the server, in whatever pieces, the server
  handles them without an abort and keeps its invariant; the smart socket then waits for more or is
  gone, and the client's socket is still there unless the result is an error.  Excluded are the
  requests on which the server ends: a \<open>kill\<close> that is not rejected, the three that make the parser read
  outside the string, and requests to a device that are too long for it or a malformed reverse forward.
\<close>

theorem smart_socket_safe:
  assumes "host_env_ok env he w" and "server_inv w" and "smart_at s p w" and "local_socket_next_id w + 1 \<noteq> 0"
    and "\<And>a. heap w s = Some a \<Longrightarrow> request_ok env he (so_smart_socket_data a @ block_bytes data) (so_transport a) w"
  shows "\<exists>r w'. smart_socket_enqueue (host_surroundings env he) s data w = Some (r, w') \<and> server_inv w' \<and>
    (heap w' s = None \<or> smart_at s p w') \<and> (0 \<le> r \<longrightarrow> client_at p w')"
  using smart_socket_enqueue_served [OF assms] by (auto simp: served_def)

theorem smart_socket_safe_witness:
  "host_env_ok bare_env quiet_host smart_world \<and> server_inv smart_world \<and> smart_at 1 0 smart_world \<and>
   (\<exists>r w'. smart_socket_enqueue (host_surroundings bare_env quiet_host) 1 (filled_block ''000chost:version'') smart_world = Some (r, w') \<and> server_inv w')"
proof -
  have "request_ok bare_env quiet_host (so_smart_socket_data smart_socket @ block_bytes (filled_block ''000chost:version'')) (so_transport smart_socket) smart_world"
    using version_request
    by (simp add: request_ok_def filled_block_ok smart_socket_def init_socket_def bare_env_def crashing_requests_def)
  then show ?thesis
    using smart_socket_safe [OF quiet_host_ok smart_world_ok(1-3), of "filled_block ''000chost:version''"] quiet_host_ok smart_world_ok by auto
qed

text \<open>
  C23: a request may be cut anywhere.  While the length prefix or the announced text is incomplete the
  smart socket only stores what arrives, and the rest of the request has the same effect as the whole
  request at once.
\<close>

theorem smart_pieces:
  assumes "heap w s = Some a" and "incomplete (so_smart_socket_data a @ block_bytes x)" and "block_bytes whole = block_bytes x @ block_bytes y"
  shows "\<exists>w1. smart_socket_enqueue env s x w = Some (0, w1) \<and>
    heap w1 s = Some (a\<lparr>so_smart_socket_data := so_smart_socket_data a @ block_bytes x\<rparr>) \<and>
    smart_socket_enqueue env s y w1 = smart_socket_enqueue env s whole w"
proof -
  define d where "d = so_smart_socket_data a @ block_bytes x"
  define w1 where "w1 = w\<lparr>heap := (heap w)(s \<mapsto> a\<lparr>so_smart_socket_data := d\<rparr>)\<rparr>"
  have u: "update_socket s (\<lambda>a. a\<lparr>so_smart_socket_data := d\<rparr>) w = Some w1" using assms(1) by (simp add: update_socket_def w1_def)
  have h1: "heap w1 s = Some (a\<lparr>so_smart_socket_data := d\<rparr>)" by (simp add: w1_def)
  have "smart_socket_enqueue env s x w = Some (0, w1)"
    unfolding smart_socket_enqueue_def assms(1) Option.bind.simps Let_def d_def [symmetric] u
    using assms(2) [folded d_def] by (auto simp: incomplete_def)
  moreover have "smart_socket_enqueue env s y w1 = smart_socket_enqueue env s whole w"
  proof -
    have d: "so_smart_socket_data (a\<lparr>so_smart_socket_data := d\<rparr>) @ block_bytes y = so_smart_socket_data a @ block_bytes whole"
      using assms(3) by (simp add: d_def)
    have "update_socket s (\<lambda>a. a\<lparr>so_smart_socket_data := e\<rparr>) w1 = update_socket s (\<lambda>a. a\<lparr>so_smart_socket_data := e\<rparr>) w" for e
      using assms(1) by (simp add: update_socket_def w1_def)
    then show ?thesis unfolding smart_socket_enqueue_def assms(1) h1 Option.bind.simps d by simp
  qed
  ultimately show ?thesis using h1 by (auto simp: d_def)
qed

theorem smart_pieces_witness:
  "\<exists>w1. smart_socket_enqueue bare_env 1 (filled_block ''000ch'') smart_world = Some (0, w1) \<and>
     smart_socket_enqueue bare_env 1 (filled_block ''ost:version'') w1 = smart_socket_enqueue bare_env 1 (filled_block ''000chost:version'') smart_world"
proof -
  have "incomplete (so_smart_socket_data smart_socket @ block_bytes (filled_block ''000ch''))"
    using version_request by (simp add: incomplete_def filled_block_ok smart_socket_def init_socket_def MAX_PAYLOAD_def)
  moreover have "block_bytes (filled_block ''000chost:version'') = block_bytes (filled_block ''000ch'') @ block_bytes (filled_block ''ost:version'')"
    by (simp add: filled_block_ok)
  ultimately show ?thesis using smart_pieces [OF smart_world_ok(4)] by blast
qed

end
