(* ===== verification/Adb_Adapter.thy ===== *)
theory Adb_Adapter
  imports Adb_Packet "HOL-Library.Sublist"
begin

text \<open>
  \<open>BlockingConnectionAdapter\<close> of \<open>transport.cpp\<close>: a connection with blocking \<open>Read\<close> and \<open>Write\<close> served by
  a read thread and a write thread.  The state is the object's members and where each thread is; a
  step is what one thread does between two points at which another can run.  Sections under
  \<open>mutex_\<close> are single steps, except \<open>DoTlsHandshake\<close>, which holds the mutex while it waits: the
  other sections are possible only when no handshake is in progress.  What the connection's
  \<open>Read\<close> and \<open>Write\<close> answer is open in every step.

  In every reachable state the packets were written in the order in which they were given, the error is
  reported at most once, and when \<open>Stop\<close> has returned both threads have ended.
\<close>

datatype read_pc = R_Reading | R_Failed | R_Ended

datatype write_pc = W_None | W_Waiting | W_Writing apacket | W_Failed | W_Ended

datatype stop_pc = S_Idle | S_Closing | S_Closed | S_JoinRead nat | S_JoinWrite | S_Report | S_Returned

datatype tls_pc = T_Idle | T_Joining nat | T_Handshake

text \<open>
  \<open>ad_readers\<close> are the read threads so far and \<open>ad_read_thread\<close> the one that the handle \<open>read_thread_\<close>
  owns.  The last five fields record what happened: the packets given to \<open>Write\<close>, those
  that the connection wrote, those handed to \<open>HandleRead\<close>, the calls of \<open>HandleError\<close>, and whether a
  packet \<open>A_STLS\<close> was read for which no handshake has been done.
\<close>

record adapter =
  ad_started :: bool
  ad_stopped :: bool
  ad_closed :: bool
  ad_read_thread :: "nat option"
  ad_readers :: "read_pc list"
  ad_writer :: write_pc
  ad_write_queue :: "apacket list"
  ad_error_flag :: bool
  ad_stop :: stop_pc
  ad_tls :: tls_pc
  ad_given :: "apacket list"
  ad_written :: "apacket list"
  ad_handled :: "apacket list"
  ad_errors :: "string list"
  ad_tls_due :: bool

definition adapter_new :: adapter where
  "adapter_new =
     \<lparr>ad_started = False, ad_stopped = False, ad_closed = False, ad_read_thread = None, ad_readers = [], ad_writer = W_None,
      ad_write_queue = [], ad_error_flag = False, ad_stop = S_Idle, ad_tls = T_Idle, ad_given = [], ad_written = [], ad_handled = [],
      ad_errors = [], ad_tls_due = False\<rparr>"

text \<open>\<open>std::call_once(error_flag_, ...)\<close> with \<open>HandleError\<close>.\<close>

definition call_once :: "string \<Rightarrow> adapter \<Rightarrow> adapter" where
  "call_once error a = (if ad_error_flag a then a else a\<lparr>ad_error_flag := True, ad_errors := ad_errors a @ [error]\<rparr>)"

definition StartReadThread :: "adapter \<Rightarrow> adapter" where
  "StartReadThread a = a\<lparr>ad_readers := ad_readers a @ [R_Reading], ad_read_thread := Some (length (ad_readers a))\<rparr>"

section \<open>Steps\<close>

text \<open>\<open>Start\<close>, \<open>Write\<close> and \<open>Reset\<close>; a second \<open>Start\<close> ends the program.\<close>

definition adapter_Start :: "adapter \<Rightarrow> adapter option" where
  "adapter_Start a = do { CHECK (\<not> ad_started a); Some ((StartReadThread a)\<lparr>ad_writer := W_Waiting, ad_started := True\<rparr>) }"

definition adapter_Write :: "apacket \<Rightarrow> adapter \<Rightarrow> adapter" where
  "adapter_Write p a = a\<lparr>ad_write_queue := ad_write_queue a @ [p], ad_given := ad_given a @ [p]\<rparr>"

inductive read_step :: "adapter \<Rightarrow> adapter \<Rightarrow> bool" where
  read_packet: "t < length (ad_readers a) \<Longrightarrow> ad_readers a ! t = R_Reading \<Longrightarrow> m_command (p_msg p) \<noteq> A_STLS \<Longrightarrow>
    read_step a (a\<lparr>ad_handled := ad_handled a @ [p]\<rparr>)"
| read_stls: "t < length (ad_readers a) \<Longrightarrow> ad_readers a ! t = R_Reading \<Longrightarrow> m_command (p_msg p) = A_STLS \<Longrightarrow>
    read_step a (a\<lparr>ad_handled := ad_handled a @ [p], ad_tls_due := True, ad_readers := (ad_readers a)[t := R_Ended]\<rparr>)"
| read_fails: "t < length (ad_readers a) \<Longrightarrow> ad_readers a ! t = R_Reading \<Longrightarrow> read_step a (a\<lparr>ad_readers := (ad_readers a)[t := R_Failed]\<rparr>)"
| read_reports: "t < length (ad_readers a) \<Longrightarrow> ad_readers a ! t = R_Failed \<Longrightarrow>
    read_step a ((call_once ''read failed'' a)\<lparr>ad_readers := (ad_readers a)[t := R_Ended]\<rparr>)"

inductive write_step :: "adapter \<Rightarrow> adapter \<Rightarrow> bool" where
  write_takes: "ad_writer a = W_Waiting \<Longrightarrow> ad_tls a = T_Idle \<Longrightarrow> \<not> ad_stopped a \<Longrightarrow> ad_write_queue a = p # ps \<Longrightarrow>
    write_step a (a\<lparr>ad_writer := W_Writing p, ad_write_queue := ps\<rparr>)"
| write_stops: "ad_writer a = W_Waiting \<Longrightarrow> ad_tls a = T_Idle \<Longrightarrow> ad_stopped a \<Longrightarrow> write_step a (a\<lparr>ad_writer := W_Ended\<rparr>)"
| write_succeeds: "ad_writer a = W_Writing p \<Longrightarrow> write_step a (a\<lparr>ad_writer := W_Waiting, ad_written := ad_written a @ [p]\<rparr>)"
| write_fails: "ad_writer a = W_Writing p \<Longrightarrow> write_step a (a\<lparr>ad_writer := W_Failed\<rparr>)"
| write_reports: "ad_writer a = W_Failed \<Longrightarrow> write_step a ((call_once ''write failed'' a)\<lparr>ad_writer := W_Ended\<rparr>)"

text \<open>\<open>Stop\<close>, of which only one call passes the tests at its beginning; the others return at once.\<close>

inductive stop_step :: "adapter \<Rightarrow> adapter \<Rightarrow> bool" where
  stop_begins: "ad_tls a = T_Idle \<Longrightarrow> ad_started a \<Longrightarrow> \<not> ad_stopped a \<Longrightarrow> stop_step a (a\<lparr>ad_stopped := True, ad_stop := S_Closing\<rparr>)"
| stop_closes: "ad_stop a = S_Closing \<Longrightarrow> stop_step a (a\<lparr>ad_closed := True, ad_stop := S_Closed\<rparr>)"
| stop_moves: "ad_stop a = S_Closed \<Longrightarrow> ad_tls a = T_Idle \<Longrightarrow> ad_read_thread a = Some t \<Longrightarrow>
    stop_step a (a\<lparr>ad_read_thread := None, ad_stop := S_JoinRead t\<rparr>)"
| stop_joins_read: "ad_stop a = S_JoinRead t \<Longrightarrow> ad_readers a ! t = R_Ended \<Longrightarrow> stop_step a (a\<lparr>ad_stop := S_JoinWrite\<rparr>)"
| stop_joins_write: "ad_stop a = S_JoinWrite \<Longrightarrow> ad_writer a = W_Ended \<Longrightarrow> stop_step a (a\<lparr>ad_stop := S_Report\<rparr>)"
| stop_reports: "ad_stop a = S_Report \<Longrightarrow> stop_step a ((call_once ''requested stop'' a)\<lparr>ad_stop := S_Returned\<rparr>)"

text \<open>
  \<open>DoTlsHandshake\<close>, which answers a packet of a started connection; whether the handshake succeeds does not
  change the adapter.
\<close>

inductive tls_step :: "adapter \<Rightarrow> adapter \<Rightarrow> bool" where
  tls_joins: "ad_tls a = T_Idle \<Longrightarrow> ad_read_thread a = Some t \<Longrightarrow> tls_step a (a\<lparr>ad_tls := T_Joining t\<rparr>)"
| tls_no_thread: "ad_tls a = T_Idle \<Longrightarrow> ad_read_thread a = None \<Longrightarrow> ad_started a \<Longrightarrow> tls_step a (a\<lparr>ad_tls := T_Handshake\<rparr>)"
| tls_joined: "ad_tls a = T_Joining t \<Longrightarrow> ad_readers a ! t = R_Ended \<Longrightarrow> tls_step a (a\<lparr>ad_tls := T_Handshake, ad_read_thread := None\<rparr>)"
| tls_done: "ad_tls a = T_Handshake \<Longrightarrow> tls_step a ((StartReadThread a)\<lparr>ad_tls := T_Idle, ad_tls_due := False\<rparr>)"

inductive adapter_step :: "adapter \<Rightarrow> adapter \<Rightarrow> bool" where
  by_start: "ad_tls a = T_Idle \<Longrightarrow> adapter_Start a = Some b \<Longrightarrow> adapter_step a b"
| by_write: "ad_tls a = T_Idle \<Longrightarrow> adapter_step a (adapter_Write p a)"
| by_reset: "ad_tls a = T_Idle \<Longrightarrow> ad_started a \<Longrightarrow> \<not> ad_stopped a \<Longrightarrow> adapter_step a (a\<lparr>ad_closed := True\<rparr>)"
| by_reader: "read_step a b \<Longrightarrow> adapter_step a b"
| by_writer: "write_step a b \<Longrightarrow> adapter_step a b"
| by_stop: "stop_step a b \<Longrightarrow> adapter_step a b"
| by_tls: "tls_step a b \<Longrightarrow> adapter_step a b"

definition adapter_reachable :: "adapter \<Rightarrow> bool" where
  "adapter_reachable a \<longleftrightarrow> adapter_step\<^sup>*\<^sup>* adapter_new a"

section \<open>The invariant\<close>

text \<open>The packet between queue and connection: being written, or lost by the write that failed.\<close>

definition writes_ok :: "adapter \<Rightarrow> bool" where
  "writes_ok a \<longleftrightarrow> (\<exists>lost. ad_given a = ad_written a @ lost @ ad_write_queue a \<and>
     (case ad_writer a of W_Writing p \<Rightarrow> lost = [p] | W_Failed \<Rightarrow> length lost = 1 | W_Ended \<Rightarrow> length lost \<le> 1 | _ \<Rightarrow> lost = []))"

text \<open>Every read thread that runs belongs to the handle or to the \<open>Stop\<close> that waits for it.\<close>

definition readers_ok :: "adapter \<Rightarrow> bool" where
  "readers_ok a \<longleftrightarrow>
     (\<forall>t < length (ad_readers a). ad_readers a ! t \<noteq> R_Ended \<longrightarrow> ad_read_thread a = Some t \<or> ad_stop a = S_JoinRead t) \<and>
     (\<forall>t. ad_read_thread a = Some t \<or> ad_stop a = S_JoinRead t \<longrightarrow> t < length (ad_readers a)) \<and>
     (\<forall>t. ad_tls a = T_Joining t \<longrightarrow> ad_read_thread a = Some t) \<and>
     (ad_tls a = T_Handshake \<longrightarrow> ad_read_thread a = None) \<and>
     (ad_started a \<and> ad_stop a \<in> {S_Idle, S_Closing, S_Closed} \<longrightarrow> ad_read_thread a \<noteq> None \<or> ad_tls a = T_Handshake) \<and>
     (\<not> ad_started a \<longrightarrow> ad_read_thread a = None \<and> ad_tls a = T_Idle)"

definition stop_ok :: "adapter \<Rightarrow> bool" where
  "stop_ok a \<longleftrightarrow>
     (ad_writer a = W_None \<longleftrightarrow> \<not> ad_started a) \<and>
     (ad_stopped a \<longleftrightarrow> ad_stop a \<noteq> S_Idle) \<and> (ad_stopped a \<longrightarrow> ad_started a) \<and>
     (ad_stop a \<notin> {S_Idle, S_Closing} \<longrightarrow> ad_closed a) \<and>
     (ad_stop a \<in> {S_Report, S_Returned} \<longrightarrow> ad_writer a = W_Ended) \<and>
     (ad_stop a = S_Returned \<longrightarrow> ad_error_flag a) \<and>
     length (ad_errors a) = (if ad_error_flag a then 1 else 0)"

text \<open>After \<open>A_STLS\<close> nothing is read until the handshake is done.\<close>

definition quiet_ok :: "adapter \<Rightarrow> bool" where
  "quiet_ok a \<longleftrightarrow> (ad_tls_due a \<longrightarrow> ad_started a) \<and> (ad_tls_due a \<and> ad_stop a \<in> {S_Idle, S_Closing, S_Closed} \<longrightarrow> R_Reading \<notin> set (ad_readers a))"

definition adapter_inv :: "adapter \<Rightarrow> bool" where
  "adapter_inv a \<longleftrightarrow> writes_ok a \<and> readers_ok a \<and> stop_ok a \<and> quiet_ok a"

inductive_cases read_stepE: "read_step a b"
inductive_cases write_stepE: "write_step a b"
inductive_cases stop_stepE: "stop_step a b"
inductive_cases tls_stepE: "tls_step a b"
inductive_cases adapter_stepE: "adapter_step a b"

lemma call_once_sel [simp]:
  "ad_started (call_once e a) = ad_started a" "ad_stopped (call_once e a) = ad_stopped a" "ad_closed (call_once e a) = ad_closed a"
  "ad_read_thread (call_once e a) = ad_read_thread a" "ad_readers (call_once e a) = ad_readers a" "ad_writer (call_once e a) = ad_writer a"
  "ad_write_queue (call_once e a) = ad_write_queue a" "ad_stop (call_once e a) = ad_stop a" "ad_tls (call_once e a) = ad_tls a"
  "ad_given (call_once e a) = ad_given a" "ad_written (call_once e a) = ad_written a" "ad_handled (call_once e a) = ad_handled a"
  "ad_tls_due (call_once e a) = ad_tls_due a" "ad_error_flag (call_once e a)"
  by (simp_all add: call_once_def)

lemma call_once_errors: "stop_ok a \<Longrightarrow> length (ad_errors (call_once e a)) = 1"
  by (simp add: call_once_def stop_ok_def)

text \<open>The fields that each part depends on.\<close>

lemma writes_ok_cong:
  "ad_given b = ad_given a \<Longrightarrow> ad_written b = ad_written a \<Longrightarrow> ad_write_queue b = ad_write_queue a \<Longrightarrow> ad_writer b = ad_writer a \<Longrightarrow> writes_ok b = writes_ok a"
  by (simp add: writes_ok_def)

lemma readers_ok_cong:
  "ad_readers b = ad_readers a \<Longrightarrow> ad_read_thread b = ad_read_thread a \<Longrightarrow> ad_stop b = ad_stop a \<Longrightarrow> ad_tls b = ad_tls a \<Longrightarrow> ad_started b = ad_started a \<Longrightarrow> readers_ok b = readers_ok a"
  by (simp add: readers_ok_def)

lemma quiet_ok_cong: "ad_readers b = ad_readers a \<Longrightarrow> ad_stop b = ad_stop a \<Longrightarrow> ad_tls_due b = ad_tls_due a \<Longrightarrow> ad_started b = ad_started a \<Longrightarrow> quiet_ok b = quiet_ok a"
  by (simp add: quiet_ok_def)

lemma readers_okD:
  assumes "readers_ok a"
  shows "t < length (ad_readers a) \<Longrightarrow> ad_readers a ! t \<noteq> R_Ended \<Longrightarrow> ad_read_thread a = Some t \<or> ad_stop a = S_JoinRead t"
    and "ad_read_thread a = Some t \<Longrightarrow> t < length (ad_readers a)" and "ad_stop a = S_JoinRead t \<Longrightarrow> t < length (ad_readers a)"
    and "ad_tls a = T_Joining t \<Longrightarrow> ad_read_thread a = Some t" and "ad_tls a = T_Handshake \<Longrightarrow> ad_read_thread a = None"
    and "ad_started a \<Longrightarrow> ad_stop a \<in> {S_Idle, S_Closing, S_Closed} \<Longrightarrow> ad_read_thread a \<noteq> None \<or> ad_tls a = T_Handshake"
    and "\<not> ad_started a \<Longrightarrow> ad_read_thread a = None \<and> ad_tls a = T_Idle"
  using assms unfolding readers_ok_def by blast+

lemma readers_okI:
  assumes "\<And>t. t < length (ad_readers a) \<Longrightarrow> ad_readers a ! t \<noteq> R_Ended \<Longrightarrow> ad_read_thread a = Some t \<or> ad_stop a = S_JoinRead t"
    and "\<And>t. ad_read_thread a = Some t \<Longrightarrow> t < length (ad_readers a)" and "\<And>t. ad_stop a = S_JoinRead t \<Longrightarrow> t < length (ad_readers a)"
    and "\<And>t. ad_tls a = T_Joining t \<Longrightarrow> ad_read_thread a = Some t" and "ad_tls a = T_Handshake \<Longrightarrow> ad_read_thread a = None"
    and "ad_started a \<Longrightarrow> ad_stop a \<in> {S_Idle, S_Closing, S_Closed} \<Longrightarrow> ad_read_thread a \<noteq> None \<or> ad_tls a = T_Handshake"
    and "\<not> ad_started a \<Longrightarrow> ad_read_thread a = None \<and> ad_tls a = T_Idle"
  shows "readers_ok a"
  using assms unfolding readers_ok_def by blast

text \<open>A change of one read thread that does not start it again.\<close>

lemma readers_ok_update:
  assumes "readers_ok a" and "t < length (ad_readers a)" and "ad_readers a ! t \<noteq> R_Ended"
    and b: "ad_readers b = (ad_readers a)[t := pc]" "ad_read_thread b = ad_read_thread a" "ad_stop b = ad_stop a" "ad_tls b = ad_tls a" "ad_started b = ad_started a"
  shows "readers_ok b"
proof (rule readers_okI)
  fix u
  assume "u < length (ad_readers b)" and "ad_readers b ! u \<noteq> R_Ended"
  then show "ad_read_thread b = Some u \<or> ad_stop b = S_JoinRead u"
    using readers_okD(1) [OF assms(1), of u] assms(2,3) b by (cases "u = t") simp_all
qed (use readers_okD(2-7) [OF assms(1)] b in simp_all)

text \<open>Progress of \<open>Stop\<close> that does not touch a thread.\<close>

lemma readers_ok_stop:
  assumes "readers_ok a" and "\<And>t. ad_stop a \<noteq> S_JoinRead t" and "\<And>t. ad_stop b \<noteq> S_JoinRead t"
    and "ad_stop b \<in> {S_Idle, S_Closing, S_Closed} \<Longrightarrow> ad_stop a \<in> {S_Idle, S_Closing, S_Closed}"
    and b: "ad_readers b = ad_readers a" "ad_read_thread b = ad_read_thread a" "ad_tls b = ad_tls a" "ad_started b = ad_started a"
  shows "readers_ok b"
proof (rule readers_okI)
  fix u
  assume "u < length (ad_readers b)" and "ad_readers b ! u \<noteq> R_Ended"
  then show "ad_read_thread b = Some u \<or> ad_stop b = S_JoinRead u" using readers_okD(1) [OF assms(1), of u] assms(2) b by auto
qed (use readers_okD(2-7) [OF assms(1)] assms(3,4) b in simp_all)

text \<open>A new thread, where the handle owns none.\<close>

lemma readers_ok_start:
  assumes "readers_ok a" and "ad_read_thread a = None"
    and b: "ad_readers b = ad_readers a @ [R_Reading]" "ad_read_thread b = Some (length (ad_readers a))" "ad_stop b = ad_stop a" "ad_tls b = T_Idle" "ad_started b"
  shows "readers_ok b"
proof (rule readers_okI)
  fix u
  assume "u < length (ad_readers b)" and "ad_readers b ! u \<noteq> R_Ended"
  then show "ad_read_thread b = Some u \<or> ad_stop b = S_JoinRead u"
    using readers_okD(1) [OF assms(1), of u] assms(2) b by (cases "u = length (ad_readers a)") (simp_all add: nth_append)
next
  fix u
  assume "ad_stop b = S_JoinRead u"
  then show "u < length (ad_readers b)" using readers_okD(3) [OF assms(1), of u] b by simp
qed (use b in simp_all)

text \<open>Unless handles were moved by \<open>Stop\<close>, a second read thread is not running.\<close>

lemma one_reader:
  assumes "readers_ok a" and "ad_stop a \<in> {S_Idle, S_Closing, S_Closed}" and "t < length (ad_readers a)" and "ad_readers a ! t \<noteq> R_Ended"
    and "u < length (ad_readers a)" and "ad_readers a ! u \<noteq> R_Ended"
  shows "u = t"
proof -
  have "ad_stop a \<noteq> S_JoinRead v" for v using assms(2) by auto
  then show ?thesis using readers_okD(1) [OF assms(1,3,4)] readers_okD(1) [OF assms(1,5,6)] by simp
qed

lemma read_step_inv:
  assumes "read_step a b" and "adapter_inv a"
  shows "adapter_inv b"
proof -
  have i: "writes_ok a" "readers_ok a" "stop_ok a" "quiet_ok a" using assms(2) by (simp_all add: adapter_inv_def)
  show ?thesis using assms(1)
  proof (cases rule: read_step.cases)
    case (read_packet t p)
    then show ?thesis using i by (auto simp: adapter_inv_def writes_ok_def readers_ok_def stop_ok_def quiet_ok_def)
  next
    case (read_stls t p)
    have "R_Reading \<notin> set (ad_readers b)" if s: "ad_stop a \<in> {S_Idle, S_Closing, S_Closed}"
    proof
      assume "R_Reading \<in> set (ad_readers b)"
      then obtain u where u: "u < length (ad_readers b)" "ad_readers b ! u = R_Reading" by (auto simp: in_set_conv_nth)
      then have "u \<noteq> t" "ad_readers a ! u = R_Reading" using read_stls by (auto simp: nth_list_update split: if_splits)
      then show False using one_reader [OF i(2) s read_stls(2), of u] read_stls u(1) by simp
    qed
    moreover have "ad_started a" using readers_okD(1,7) [OF i(2)] i(3) read_stls by (fastforce simp: stop_ok_def)
    ultimately have "quiet_ok b" using read_stls by (simp add: quiet_ok_def)
    moreover have "readers_ok b" using readers_ok_update [OF i(2) read_stls(2), of b R_Ended] read_stls by simp
    ultimately show ?thesis using i(1,3) read_stls by (simp add: adapter_inv_def writes_ok_def stop_ok_def)
  next
    case (read_fails t)
    have "readers_ok b" using readers_ok_update [OF i(2) read_fails(2), of b R_Failed] read_fails by simp
    moreover have "quiet_ok b" using i(4) read_fails by (auto simp: quiet_ok_def dest!: set_update_subset_insert [THEN subsetD])
    ultimately show ?thesis using i(1,3) read_fails by (simp add: adapter_inv_def writes_ok_def stop_ok_def)
  next
    case (read_reports t)
    have "readers_ok b" using readers_ok_update [OF i(2) read_reports(2), of b R_Ended] read_reports by simp
    moreover have "quiet_ok b" using i(4) read_reports by (auto simp: quiet_ok_def dest!: set_update_subset_insert [THEN subsetD])
    ultimately show ?thesis using i(1,3) read_reports call_once_errors [OF i(3)] by (simp add: adapter_inv_def writes_ok_def stop_ok_def)
  qed
qed

lemma write_step_inv:
  assumes "write_step a b" and "adapter_inv a"
  shows "adapter_inv b"
proof -
  have i: "writes_ok a" "readers_ok a" "stop_ok a" "quiet_ok a" using assms(2) by (simp_all add: adapter_inv_def)
  have f: "ad_readers b = ad_readers a \<and> ad_read_thread b = ad_read_thread a \<and> ad_stop b = ad_stop a \<and> ad_tls b = ad_tls a \<and> ad_started b = ad_started a \<and> ad_tls_due b = ad_tls_due a"
    using assms(1) by (cases rule: write_step.cases) simp_all
  then have "readers_ok b" "quiet_ok b" using i(2,4) readers_ok_cong [of b a] quiet_ok_cong [of b a] by simp_all
  moreover have "writes_ok b \<and> stop_ok b" using assms(1)
  proof (cases rule: write_step.cases)
    case write_stops
    then show ?thesis using i(1,3) by (auto simp: writes_ok_def stop_ok_def)
  next
    case write_reports
    then show ?thesis using i(1,3) call_once_errors [OF i(3)] by (auto simp: writes_ok_def stop_ok_def)
  qed (use i(1,3) in \<open>simp add: writes_ok_def stop_ok_def\<close>)+
  ultimately show ?thesis by (simp add: adapter_inv_def)
qed

lemma stop_step_inv:
  assumes "stop_step a b" and "adapter_inv a"
  shows "adapter_inv b"
proof -
  have i: "writes_ok a" "readers_ok a" "stop_ok a" "quiet_ok a" using assms(2) by (simp_all add: adapter_inv_def)
  have "ad_given b = ad_given a \<and> ad_written b = ad_written a \<and> ad_write_queue b = ad_write_queue a \<and> ad_writer b = ad_writer a"
    using assms(1) by (cases rule: stop_step.cases) simp_all
  then have "writes_ok b" using i(1) writes_ok_cong [of b a] by simp
  moreover have "quiet_ok b" using assms(1)
  proof (cases rule: stop_step.cases)
    case stop_begins
    then have "ad_stop a = S_Idle" using i(3) by (auto simp: stop_ok_def)
    then show ?thesis using stop_begins i(4) by (simp add: quiet_ok_def)
  qed (use i(4) in \<open>simp add: quiet_ok_def\<close>)+
  moreover have "stop_ok b" using assms(1)
  proof (cases rule: stop_step.cases)
    case stop_reports
    then show ?thesis using i(3) call_once_errors [OF i(3)] by (simp add: stop_ok_def)
  qed (use i(3) in \<open>auto simp: stop_ok_def\<close>)+
  moreover have "readers_ok b" using assms(1)
  proof (cases rule: stop_step.cases)
    case (stop_moves t)
    show ?thesis
    proof (rule readers_okI)
      fix u
      assume "u < length (ad_readers b)" and "ad_readers b ! u \<noteq> R_Ended"
      then show "ad_read_thread b = Some u \<or> ad_stop b = S_JoinRead u" using readers_okD(1) [OF i(2), of u] stop_moves by simp
    next
      fix u
      assume "ad_stop b = S_JoinRead u"
      then show "u < length (ad_readers b)" using readers_okD(2) [OF i(2), of t] stop_moves by simp
    next
      assume "\<not> ad_started b"
      then show "ad_read_thread b = None \<and> ad_tls b = T_Idle" using stop_moves by simp
    qed (use stop_moves in simp_all)
  next
    case (stop_joins_read t)
    show ?thesis
    proof (rule readers_okI)
      fix u
      assume "u < length (ad_readers b)" and "ad_readers b ! u \<noteq> R_Ended"
      then show "ad_read_thread b = Some u \<or> ad_stop b = S_JoinRead u" using readers_okD(1) [OF i(2), of u] stop_joins_read by auto
    qed (use stop_joins_read readers_okD(2-7) [OF i(2)] in simp_all)
  next
    case stop_begins
    then have "ad_stop a = S_Idle" using i(3) by (auto simp: stop_ok_def)
    then show ?thesis using stop_begins readers_ok_stop [OF i(2), of b] by simp
  qed (use readers_ok_stop [OF i(2), of b] in simp)+
  ultimately show ?thesis by (simp add: adapter_inv_def)
qed

lemma tls_step_inv:
  assumes "tls_step a b" and "adapter_inv a"
  shows "adapter_inv b"
proof -
  have i: "writes_ok a" "readers_ok a" "stop_ok a" "quiet_ok a" using assms(2) by (simp_all add: adapter_inv_def)
  have "ad_given b = ad_given a \<and> ad_written b = ad_written a \<and> ad_write_queue b = ad_write_queue a \<and> ad_writer b = ad_writer a"
    using assms(1) by (cases rule: tls_step.cases) (simp_all add: StartReadThread_def)
  then have "writes_ok b" using i(1) writes_ok_cong [of b a] by simp
  moreover have "quiet_ok b" using assms(1) i(4) by (cases rule: tls_step.cases) (simp_all add: quiet_ok_def StartReadThread_def)
  moreover have "stop_ok b" using assms(1) i(3) by (cases rule: tls_step.cases) (simp_all add: stop_ok_def StartReadThread_def)
  moreover have "readers_ok b" using assms(1)
  proof (cases rule: tls_step.cases)
    case (tls_joined t)
    show ?thesis
    proof (rule readers_okI)
      fix u
      assume "u < length (ad_readers b)" and "ad_readers b ! u \<noteq> R_Ended"
      then show "ad_read_thread b = Some u \<or> ad_stop b = S_JoinRead u" using readers_okD(1) [OF i(2), of u] readers_okD(4) [OF i(2), of t] tls_joined by auto
    next
      assume "\<not> ad_started b"
      then show "ad_read_thread b = None \<and> ad_tls b = T_Idle" using readers_okD(7) [OF i(2)] tls_joined by simp
    qed (use tls_joined readers_okD(3) [OF i(2)] in simp_all)
  next
    case tls_done
    then have "ad_read_thread a = None" using readers_okD(5) [OF i(2)] by simp
    moreover have "ad_started a" using readers_okD(7) [OF i(2)] tls_done by auto
    ultimately show ?thesis using readers_ok_start [OF i(2), of b] tls_done by (simp add: StartReadThread_def)
  next
    case (tls_joins t)
    then have "ad_started a" using readers_okD(7) [OF i(2)] by auto
    show ?thesis
    proof (rule readers_okI)
      fix u
      assume "u < length (ad_readers b)" and "ad_readers b ! u \<noteq> R_Ended"
      then show "ad_read_thread b = Some u \<or> ad_stop b = S_JoinRead u" using readers_okD(1) [OF i(2), of u] tls_joins by simp
    qed (use tls_joins readers_okD(2,3) [OF i(2)] \<open>ad_started a\<close> in simp_all)
  next
    case tls_no_thread
    show ?thesis
    proof (rule readers_okI)
      fix u
      assume "u < length (ad_readers b)" and "ad_readers b ! u \<noteq> R_Ended"
      then show "ad_read_thread b = Some u \<or> ad_stop b = S_JoinRead u" using readers_okD(1) [OF i(2), of u] tls_no_thread by simp
    qed (use tls_no_thread readers_okD(2,3) [OF i(2)] in simp_all)
  qed
  ultimately show ?thesis by (simp add: adapter_inv_def)
qed

lemma adapter_step_inv:
  assumes "adapter_step a b" and "adapter_inv a"
  shows "adapter_inv b"
proof -
  have i: "writes_ok a" "readers_ok a" "stop_ok a" "quiet_ok a" using assms(2) by (simp_all add: adapter_inv_def)
  show ?thesis using assms(1)
  proof (cases rule: adapter_step.cases)
    case by_start
    then have b: "\<not> ad_started a" "b = (StartReadThread a)\<lparr>ad_writer := W_Waiting, ad_started := True\<rparr>"
      by (auto simp: adapter_Start_def CHECK_def split: if_splits)
    then have "ad_read_thread a = None" using readers_okD(7) [OF i(2)] by simp
    then have "readers_ok b" using readers_ok_start [OF i(2), of b] b by_start(1) by (simp add: StartReadThread_def)
    moreover have "ad_writer a = W_None" "ad_stop a = S_Idle" using b(1) i(3) by (auto simp: stop_ok_def)
    ultimately show ?thesis using i b by (auto simp: adapter_inv_def writes_ok_def stop_ok_def quiet_ok_def StartReadThread_def)
  next
    case (by_write p)
    then have "writes_ok b" using i(1) by (auto simp: adapter_Write_def writes_ok_def split: write_pc.splits)
    then show ?thesis using i(2-4) by_write readers_ok_cong [of b a] quiet_ok_cong [of b a] by (simp add: adapter_Write_def adapter_inv_def stop_ok_def)
  next
    case by_reset
    then show ?thesis using i readers_ok_cong [of b a] quiet_ok_cong [of b a] writes_ok_cong [of b a] by (simp add: adapter_inv_def stop_ok_def)
  qed (use assms(2) read_step_inv write_step_inv stop_step_inv tls_step_inv in blast)+
qed

lemma adapter_reachable_inv: "adapter_reachable a \<Longrightarrow> adapter_inv a"
  unfolding adapter_reachable_def
proof (induction rule: rtranclp_induct)
  case base
  show ?case by (simp add: adapter_new_def adapter_inv_def writes_ok_def readers_ok_def stop_ok_def quiet_ok_def)
next
  case (step a b)
  then show ?case using adapter_step_inv by blast
qed

section \<open>Stopping\<close>

text \<open>Steps that threads and calls in progress can take by themselves, with a connection that fails from now on.\<close>

lemma reader_ends:
  assumes "t < length (ad_readers a)"
  shows "\<exists>b. adapter_step\<^sup>*\<^sup>* a b \<and> ad_readers b ! t = R_Ended \<and> ad_stop b = ad_stop a \<and> ad_tls b = ad_tls a \<and> ad_read_thread b = ad_read_thread a"
proof (cases "ad_readers a ! t")
  case R_Reading
  let ?b = "a\<lparr>ad_readers := (ad_readers a)[t := R_Failed]\<rparr>"
  let ?c = "(call_once ''read failed'' ?b)\<lparr>ad_readers := (ad_readers ?b)[t := R_Ended]\<rparr>"
  have "adapter_step a ?b" using read_fails [OF assms R_Reading] by (rule by_reader)
  moreover have "adapter_step ?b ?c" using read_reports [of t ?b] assms by (intro by_reader) simp
  ultimately show ?thesis using assms by (intro exI [of _ ?c]) simp
next
  case R_Failed
  let ?c = "(call_once ''read failed'' a)\<lparr>ad_readers := (ad_readers a)[t := R_Ended]\<rparr>"
  have "adapter_step a ?c" using read_reports [OF assms R_Failed] by (rule by_reader)
  then show ?thesis using assms by (intro exI [of _ ?c]) simp
qed auto

lemma writer_ends:
  assumes "ad_stopped a" and "ad_writer a \<noteq> W_None" and "ad_tls a = T_Idle"
  shows "\<exists>b. adapter_step\<^sup>*\<^sup>* a b \<and> ad_writer b = W_Ended \<and> ad_stop b = ad_stop a \<and> ad_tls b = T_Idle"
proof -
  have failed: "\<exists>b. adapter_step\<^sup>*\<^sup>* c b \<and> ad_writer b = W_Ended \<and> ad_stop b = ad_stop c \<and> ad_tls b = ad_tls c" if "ad_writer c = W_Failed" for c
    using by_writer [OF write_reports [OF that]] by (intro exI [of _ "(call_once ''write failed'' c)\<lparr>ad_writer := W_Ended\<rparr>"]) auto
  show ?thesis
  proof (cases "ad_writer a")
    case W_Waiting
    then show ?thesis using by_writer [OF write_stops [OF W_Waiting assms(3,1)]] assms(3) by (intro exI [of _ "a\<lparr>ad_writer := W_Ended\<rparr>"]) auto
  next
    case (W_Writing p)
    have "adapter_step a (a\<lparr>ad_writer := W_Failed\<rparr>)" using by_writer [OF write_fails [OF W_Writing]] .
    then show ?thesis using failed [of "a\<lparr>ad_writer := W_Failed\<rparr>"] assms(3) by (auto intro: converse_rtranclp_into_rtranclp)
  next
    case W_Failed
    then show ?thesis using failed [of a] assms(3) by simp
  qed (use assms in auto)
qed

text \<open>A handshake in progress ends when its read thread does.\<close>

lemma handshake_ends:
  assumes "adapter_inv a"
  shows "\<exists>b. adapter_step\<^sup>*\<^sup>* a b \<and> ad_tls b = T_Idle \<and> ad_stop b = ad_stop a"
proof -
  have hs: "\<exists>b. adapter_step\<^sup>*\<^sup>* c b \<and> ad_tls b = T_Idle \<and> ad_stop b = ad_stop c" if "ad_tls c = T_Handshake" for c
    using by_tls [OF tls_done [OF that]] by (intro exI [of _ "(StartReadThread c)\<lparr>ad_tls := T_Idle, ad_tls_due := False\<rparr>"]) (auto simp: StartReadThread_def)
  show ?thesis
  proof (cases "ad_tls a")
    case (T_Joining t)
    have "t < length (ad_readers a)" using assms T_Joining readers_okD(2,4) by (auto simp: adapter_inv_def)
    then obtain b where b: "adapter_step\<^sup>*\<^sup>* a b" "ad_readers b ! t = R_Ended" "ad_stop b = ad_stop a" "ad_tls b = T_Joining t"
      using reader_ends [of t a] T_Joining by auto
    let ?c = "b\<lparr>ad_tls := T_Handshake, ad_read_thread := None\<rparr>"
    have "adapter_step b ?c" using by_tls [OF tls_joined [OF b(4,2)]] .
    then show ?thesis using b(1,3) hs [of ?c] by (auto intro: rtranclp_trans converse_rtranclp_into_rtranclp)
  qed (use hs [of a] in auto)
qed

lemma steps_inv: "adapter_step\<^sup>*\<^sup>* a b \<Longrightarrow> adapter_inv a \<Longrightarrow> adapter_inv b"
  by (induction rule: rtranclp_induct) (use adapter_step_inv in blast)+

text \<open>One phase of \<open>Stop\<close> after the other.\<close>

fun stop_rank :: "stop_pc \<Rightarrow> nat" where
  "stop_rank S_Idle = 6"
| "stop_rank S_Closing = 5"
| "stop_rank S_Closed = 4"
| "stop_rank (S_JoinRead t) = 3"
| "stop_rank S_JoinWrite = 2"
| "stop_rank S_Report = 1"
| "stop_rank S_Returned = 0"

lemma stop_advances:
  assumes "adapter_inv a" and "ad_stop a \<noteq> S_Idle" and "ad_stop a \<noteq> S_Returned"
  shows "\<exists>b. adapter_step\<^sup>*\<^sup>* a b \<and> stop_rank (ad_stop b) < stop_rank (ad_stop a)"
proof (cases "ad_stop a")
  case S_Closing
  then show ?thesis using by_stop [OF stop_closes [OF S_Closing]] by (intro exI [of _ "a\<lparr>ad_closed := True, ad_stop := S_Closed\<rparr>"]) auto
next
  case S_Closed
  obtain b where b: "adapter_step\<^sup>*\<^sup>* a b" "ad_tls b = T_Idle" "ad_stop b = S_Closed" using handshake_ends [OF assms(1)] S_Closed by auto
  have i: "readers_ok b" "stop_ok b" using steps_inv [OF b(1) assms(1)] by (simp_all add: adapter_inv_def)
  then obtain t where t: "ad_read_thread b = Some t" using readers_okD(6) [of b] b(2,3) by (auto simp: stop_ok_def)
  have "adapter_step b (b\<lparr>ad_read_thread := None, ad_stop := S_JoinRead t\<rparr>)" using by_stop [OF stop_moves [OF b(3,2) t]] .
  then show ?thesis using b(1) S_Closed by (intro exI [of _ "b\<lparr>ad_read_thread := None, ad_stop := S_JoinRead t\<rparr>"]) auto
next
  case (S_JoinRead t)
  have "t < length (ad_readers a)" using assms(1) S_JoinRead readers_okD(3) by (auto simp: adapter_inv_def)
  then obtain b where b: "adapter_step\<^sup>*\<^sup>* a b" "ad_readers b ! t = R_Ended" "ad_stop b = S_JoinRead t" using reader_ends [of t a] S_JoinRead by auto
  have "adapter_step b (b\<lparr>ad_stop := S_JoinWrite\<rparr>)" using by_stop [OF stop_joins_read [OF b(3,2)]] .
  then show ?thesis using b(1) S_JoinRead by (intro exI [of _ "b\<lparr>ad_stop := S_JoinWrite\<rparr>"]) auto
next
  case S_JoinWrite
  obtain b where b: "adapter_step\<^sup>*\<^sup>* a b" "ad_tls b = T_Idle" "ad_stop b = S_JoinWrite" using handshake_ends [OF assms(1)] S_JoinWrite by auto
  have i: "stop_ok b" using steps_inv [OF b(1) assms(1)] by (simp add: adapter_inv_def)
  obtain c where c: "adapter_step\<^sup>*\<^sup>* b c" "ad_writer c = W_Ended" "ad_stop c = S_JoinWrite" using writer_ends [of b] i b(2,3) by (auto simp: stop_ok_def)
  have "adapter_step c (c\<lparr>ad_stop := S_Report\<rparr>)" using by_stop [OF stop_joins_write [OF c(3,2)]] .
  then show ?thesis using b(1) c(1) S_JoinWrite by (intro exI [of _ "c\<lparr>ad_stop := S_Report\<rparr>"]) auto
next
  case S_Report
  then show ?thesis using by_stop [OF stop_reports [OF S_Report]] by (intro exI [of _ "(call_once ''requested stop'' a)\<lparr>ad_stop := S_Returned\<rparr>"]) auto
qed (use assms in auto)

lemma stop_returns:
  assumes "adapter_inv a" and "ad_stop a \<noteq> S_Idle"
  shows "\<exists>b. adapter_step\<^sup>*\<^sup>* a b \<and> ad_stop b = S_Returned"
  using assms
proof (induction "stop_rank (ad_stop a)" arbitrary: a rule: less_induct)
  case less
  show ?case
  proof (cases "ad_stop a = S_Returned")
    case False
    obtain b where b: "adapter_step\<^sup>*\<^sup>* a b" "stop_rank (ad_stop b) < stop_rank (ad_stop a)" using stop_advances [OF less.prems(1,2) False] by blast
    have "stop_rank (ad_stop a) < 6" using less.prems(2) by (cases "ad_stop a") simp_all
    then have "ad_stop b \<noteq> S_Idle" using b(2) by auto
    then show ?thesis using less.hyps [OF b(2) steps_inv [OF b(1) less.prems(1)]] b(1) by (auto intro: rtranclp_trans)
  qed auto
qed

text \<open>
  A handshake that begins while or after \<open>Stop\<close> runs starts a read thread that nobody joins: the destructor's
  call of \<open>Stop\<close> returns at once, and the handle of a running thread is destroyed.
\<close>

lemma started_adapter: "adapter_reachable ((StartReadThread adapter_new)\<lparr>ad_writer := W_Waiting, ad_started := True\<rparr>)"
  using by_start [of adapter_new] by (auto simp: adapter_reachable_def adapter_Start_def CHECK_def adapter_new_def StartReadThread_def)

lemma reader_survives_stop: "\<exists>a. adapter_reachable a \<and> ad_stop a = S_Returned \<and> R_Reading \<in> set (ad_readers a)"
proof -
  let ?s = "(StartReadThread adapter_new)\<lparr>ad_writer := W_Waiting, ad_started := True\<rparr>"
  let ?b = "?s\<lparr>ad_stopped := True, ad_stop := S_Closing\<rparr>"
  have "adapter_step ?s ?b" by (intro by_stop stop_begins) (simp_all add: adapter_new_def StartReadThread_def)
  then have b: "adapter_reachable ?b" using started_adapter unfolding adapter_reachable_def by (rule rtranclp.rtrancl_into_rtrancl [rotated])
  obtain c where c: "adapter_step\<^sup>*\<^sup>* ?b c" "ad_stop c = S_Returned" using stop_returns [OF adapter_reachable_inv [OF b]] by auto
  obtain d where d: "adapter_step\<^sup>*\<^sup>* c d" "ad_tls d = T_Idle" "ad_stop d = S_Returned"
    using handshake_ends [OF steps_inv [OF c(1) adapter_reachable_inv [OF b]]] c(2) by auto
  have r: "adapter_reachable d" using b c(1) d(1) unfolding adapter_reachable_def by (meson rtranclp_trans)
  have i: "readers_ok d" "stop_ok d" using adapter_reachable_inv [OF r] by (simp_all add: adapter_inv_def)
  have "\<exists>e. adapter_step\<^sup>*\<^sup>* d e \<and> ad_tls e = T_Handshake \<and> ad_stop e = S_Returned"
  proof (cases "ad_read_thread d")
    case None
    have "ad_started d" using i(2) d(3) by (simp add: stop_ok_def)
    then have "adapter_step d (d\<lparr>ad_tls := T_Handshake\<rparr>)" using by_tls [OF tls_no_thread [OF d(2) None]] by blast
    then show ?thesis using d(3) by (intro exI [of _ "d\<lparr>ad_tls := T_Handshake\<rparr>"]) auto
  next
    case (Some t)
    let ?e = "d\<lparr>ad_tls := T_Joining t\<rparr>"
    have "adapter_step d ?e" using by_tls [OF tls_joins [OF d(2) Some]] .
    moreover obtain f where f: "adapter_step\<^sup>*\<^sup>* ?e f" "ad_readers f ! t = R_Ended" "ad_stop f = S_Returned" "ad_tls f = T_Joining t"
      using reader_ends [of t ?e] readers_okD(2) [OF i(1) Some] d(3) by auto
    moreover have "adapter_step f (f\<lparr>ad_tls := T_Handshake, ad_read_thread := None\<rparr>)" using by_tls [OF tls_joined [OF f(4,2)]] .
    ultimately have "adapter_step\<^sup>*\<^sup>* d (f\<lparr>ad_tls := T_Handshake, ad_read_thread := None\<rparr>)"
      by (meson converse_rtranclp_into_rtranclp rtranclp.rtrancl_into_rtrancl)
    then show ?thesis using f(3) by (intro exI [of _ "f\<lparr>ad_tls := T_Handshake, ad_read_thread := None\<rparr>"]) simp
  qed
  then obtain e where e: "adapter_step\<^sup>*\<^sup>* d e" "ad_tls e = T_Handshake" "ad_stop e = S_Returned" by blast
  let ?f = "(StartReadThread e)\<lparr>ad_tls := T_Idle, ad_tls_due := False\<rparr>"
  have "adapter_step e ?f" using by_tls [OF tls_done [OF e(2)]] .
  then have "adapter_reachable ?f" using r e(1) unfolding adapter_reachable_def by (meson rtranclp.rtrancl_into_rtrancl rtranclp_trans)
  then show ?thesis using e(3) by (intro exI [of _ ?f]) (simp add: StartReadThread_def)
qed

section \<open>Properties\<close>

text \<open>
  C11: the threads of a blocking connection.  However they interleave and whatever the connection answers, packets are
  written in the order in which they were given, none twice, and none is missing before the first failure;
  the transport is told of an error at most once; after \<open>A_STLS\<close> nothing is read until the handshake is
  done; a \<open>Stop\<close> that has begun can always come to its end, and when it has returned the write thread and
  the read thread it found have ended and the transport was told once.
\<close>

theorem adapter_threads:
  assumes "adapter_reachable a"
  shows "prefix (ad_written a) (ad_given a) \<and>
    (ad_writer a \<in> {W_None, W_Waiting} \<longrightarrow> ad_given a = ad_written a @ ad_write_queue a) \<and>
    length (ad_errors a) \<le> 1 \<and>
    (ad_tls_due a \<and> \<not> ad_stopped a \<longrightarrow> R_Reading \<notin> set (ad_readers a)) \<and>
    (ad_stopped a \<longrightarrow> (\<exists>b. adapter_step\<^sup>*\<^sup>* a b \<and> ad_stop b = S_Returned)) \<and>
    (ad_stop a = S_Returned \<longrightarrow> ad_writer a = W_Ended \<and> length (ad_errors a) = 1 \<and> (ad_read_thread a = None \<longrightarrow> set (ad_readers a) \<subseteq> {R_Ended}))"
proof -
  have i: "writes_ok a" "readers_ok a" "stop_ok a" "quiet_ok a" using adapter_reachable_inv [OF assms] by (simp_all add: adapter_inv_def)
  have "prefix (ad_written a) (ad_given a)" using i(1) by (auto simp: writes_ok_def prefix_def)
  moreover have "ad_writer a \<in> {W_None, W_Waiting} \<longrightarrow> ad_given a = ad_written a @ ad_write_queue a" using i(1) by (auto simp: writes_ok_def)
  moreover have "length (ad_errors a) \<le> 1" using i(3) by (simp add: stop_ok_def)
  moreover have "ad_tls_due a \<and> \<not> ad_stopped a \<longrightarrow> R_Reading \<notin> set (ad_readers a)" using i(3,4) by (auto simp: quiet_ok_def stop_ok_def)
  moreover have "ad_stopped a \<longrightarrow> (\<exists>b. adapter_step\<^sup>*\<^sup>* a b \<and> ad_stop b = S_Returned)"
    using stop_returns [OF adapter_reachable_inv [OF assms]] i(3) by (auto simp: stop_ok_def)
  moreover have "ad_writer a = W_Ended \<and> length (ad_errors a) = 1 \<and> (ad_read_thread a = None \<longrightarrow> set (ad_readers a) \<subseteq> {R_Ended})" if s: "ad_stop a = S_Returned"
    using i(3) readers_okD(1) [OF i(2)] s by (fastforce simp: in_set_conv_nth stop_ok_def)
  ultimately show ?thesis by blast
qed

theorem adapter_threads_witness:
  "\<exists>a. adapter_reachable a \<and> ad_given a = [get_apacket] \<and> ad_written a = [get_apacket] \<and> prefix (ad_written a) (ad_given a) \<and>
     (\<exists>b. adapter_step\<^sup>*\<^sup>* a b \<and> ad_stop b = S_Returned)"
proof -
  let ?s = "(StartReadThread adapter_new)\<lparr>ad_writer := W_Waiting, ad_started := True\<rparr>"
  let ?w = "adapter_Write get_apacket ?s"
  let ?t = "?w\<lparr>ad_writer := W_Writing get_apacket, ad_write_queue := []\<rparr>"
  let ?u = "?t\<lparr>ad_writer := W_Waiting, ad_written := ad_written ?t @ [get_apacket]\<rparr>"
  let ?b = "?u\<lparr>ad_stopped := True, ad_stop := S_Closing\<rparr>"
  have "adapter_step ?s ?w" by (rule by_write) (simp add: adapter_new_def StartReadThread_def)
  moreover have "adapter_step ?w ?t" by (rule by_writer, rule write_takes) (simp_all add: adapter_new_def StartReadThread_def adapter_Write_def)
  moreover have "adapter_step ?t ?u" by (rule by_writer, rule write_succeeds) simp
  moreover have "adapter_step ?u ?b" by (rule by_stop, rule stop_begins) (simp_all add: adapter_new_def StartReadThread_def adapter_Write_def)
  ultimately have r: "adapter_reachable ?b"
    using started_adapter unfolding adapter_reachable_def by (meson rtranclp.rtrancl_into_rtrancl)
  have "ad_given ?b = [get_apacket]" "ad_written ?b = [get_apacket]" "ad_stopped ?b"
    by (simp_all add: adapter_new_def StartReadThread_def adapter_Write_def)
  then show ?thesis using r adapter_threads [OF r] by blast
qed

end
