(* ===== verification/Adb_Fdevent.thy ===== *)
theory Adb_Fdevent
  imports Adb_Prelude
begin

text \<open>
  The event loop (\<open>fdevent/fdevent.cpp\<close>, \<open>fdevent_poll.cpp\<close>, \<open>fdevent_epoll.cpp\<close>): the installed descriptors, the two
  ways of waiting for them, timeouts, and the queue of functions to run on the looper's thread.

  A pointer to an \<open>fdevent\<close> is the descriptor it is installed under.  Callbacks and queued functions are
  names of the type \<open>'f\<close>, and what they do to the looper and to the rest of the program, of type \<open>'w\<close>, is
  the record \<open>looper_client\<close>.  What \<open>poll\<close> and \<open>epoll_wait\<close> answer is an argument of a pass, with the
  time after it, in nanoseconds.  All operations run on the looper's thread, where \<open>CheckLooperThread\<close> holds.
  The interrupt descriptor is one like the others: its callback only empties it.
\<close>

unbundle bit_operations_syntax

definition FDE_READ :: u32 where "FDE_READ = 1"
definition FDE_WRITE :: u32 where "FDE_WRITE = 2"
definition FDE_ERROR :: u32 where "FDE_ERROR = 4"
definition FDE_TIMEOUT :: u32 where "FDE_TIMEOUT = 8"

lemmas fde_bits = FDE_READ_def FDE_WRITE_def FDE_ERROR_def FDE_TIMEOUT_def

text \<open>The masks of \<open>poll\<close> and \<open>epoll\<close>, which have the same values.\<close>

abbreviation EPOLLIN :: u32 where "EPOLLIN \<equiv> 0x1"
abbreviation EPOLLOUT :: u32 where "EPOLLOUT \<equiv> 0x4"
abbreviation EPOLLERR :: u32 where "EPOLLERR \<equiv> 0x8"
abbreviation EPOLLRDHUP :: u32 where "EPOLLRDHUP \<equiv> 0x2000"

record 'f fdevent =
  fde_id :: u64
  fde_fd :: int
  fde_state :: "16 word"
  fde_timeout :: "int option"
  fde_last_active :: int
  fde_func :: 'f

text \<open>\<open>fc_epoll\<close> is the kernel's set of an \<open>epoll\<close> context, and \<^const>\<open>None\<close> in a \<open>poll\<close> context.\<close>

record 'f fdevent_context =
  fc_installed :: "'f fdevent list"
  fc_next_id :: u64
  fc_run_queue :: "'f list"
  fc_terminate :: bool
  fc_epoll :: "(int \<rightharpoonup> u32) option"

record ('f, 'w) looper =
  lp_context :: "'f fdevent_context"
  lp_world :: 'w

record ('f, 'w) looper_client =
  lc_event :: "'f \<Rightarrow> int \<Rightarrow> u32 \<Rightarrow> ('f, 'w) looper \<Rightarrow> ('f, 'w) looper option"
  lc_task :: "'f \<Rightarrow> ('f, 'w) looper \<Rightarrow> ('f, 'w) looper option"
  lc_pollable :: "int \<Rightarrow> bool"

definition find_fde :: "int \<Rightarrow> 'f fdevent list \<Rightarrow> 'f fdevent option" where
  "find_fde fd fdes = find (\<lambda>f. fde_fd f = fd) fdes"

definition update_fde :: "int \<Rightarrow> ('f fdevent \<Rightarrow> 'f fdevent) \<Rightarrow> 'f fdevent list \<Rightarrow> 'f fdevent list" where
  "update_fde fd g fdes = map (\<lambda>f. if fde_fd f = fd then g f else f) fdes"

section \<open>Descriptors\<close>

definition calculate_epoll_event :: "16 word \<Rightarrow> u32" where
  "calculate_epoll_event st =
     (if ucast st AND FDE_READ \<noteq> 0 then EPOLLIN else 0) OR (if ucast st AND FDE_WRITE \<noteq> 0 then EPOLLOUT else 0) OR
     (if ucast st AND FDE_ERROR \<noteq> 0 then EPOLLERR else 0) OR EPOLLRDHUP"

definition Register :: "(int \<Rightarrow> bool) \<Rightarrow> 'f fdevent \<Rightarrow> 'f fdevent_context \<Rightarrow> 'f fdevent_context option" where
  "Register pollable f c =
     (case fc_epoll c of
        None \<Rightarrow> Some c
      | Some m \<Rightarrow> do {
          CHECK (pollable (fde_fd f) \<and> m (fde_fd f) = None);
          Some (c\<lparr>fc_epoll := Some (m(fde_fd f \<mapsto> calculate_epoll_event (fde_state f)))\<rparr>)
        })"

definition Unregister :: "int \<Rightarrow> 'f fdevent_context \<Rightarrow> 'f fdevent_context option" where
  "Unregister fd c =
     (case fc_epoll c of
        None \<Rightarrow> Some c
      | Some m \<Rightarrow> do { CHECK (m fd \<noteq> None); Some (c\<lparr>fc_epoll := Some (m(fd := None))\<rparr>) })"

definition fdevent_Create :: "(int \<Rightarrow> bool) \<Rightarrow> int \<Rightarrow> 'f \<Rightarrow> int \<Rightarrow> 'f fdevent_context \<Rightarrow> 'f fdevent_context option" where
  "fdevent_Create pollable fd func time c = do {
     CHECK (0 \<le> fd);
     CHECK (find_fde fd (fc_installed c) = None);
     let f = \<lparr>fde_id = fc_next_id c, fde_fd = fd, fde_state = 0, fde_timeout = None, fde_last_active = time, fde_func = func\<rparr>;
     Register pollable f (c\<lparr>fc_installed := insort_key fde_fd f (fc_installed c), fc_next_id := fc_next_id c + 1\<rparr>)
   }"

definition fdevent_Destroy :: "int \<Rightarrow> 'f fdevent_context \<Rightarrow> 'f fdevent_context option" where
  "fdevent_Destroy fd c = do {
     c1 \<leftarrow> Unregister fd c;
     CHECK (find_fde fd (fc_installed c1) \<noteq> None);
     Some (c1\<lparr>fc_installed := filter (\<lambda>f. fde_fd f \<noteq> fd) (fc_installed c1)\<rparr>)
   }"

text \<open>\<open>Set\<close>: the \<open>epoll\<close> context leaves the kernel's set alone when nothing changes for it.\<close>

definition fdevent_Set :: "int \<Rightarrow> u32 \<Rightarrow> 'f fdevent_context \<Rightarrow> 'f fdevent_context option" where
  "fdevent_Set fd events c = do {
     f \<leftarrow> find_fde fd (fc_installed c);
     let st = (ucast events :: 16 word);
     let c1 = c\<lparr>fc_installed := update_fde fd (\<lambda>g. g\<lparr>fde_state := st\<rparr>) (fc_installed c)\<rparr>;
     case fc_epoll c of
       None \<Rightarrow> Some c1
     | Some m \<Rightarrow>
         if ucast (fde_state f) AND NOT FDE_TIMEOUT = events AND NOT FDE_TIMEOUT then Some c1
         else do { CHECK (m fd \<noteq> None); Some (c1\<lparr>fc_epoll := Some (m(fd \<mapsto> calculate_epoll_event st))\<rparr>) }
   }"

definition fdevent_Add :: "int \<Rightarrow> u32 \<Rightarrow> 'f fdevent_context \<Rightarrow> 'f fdevent_context option" where
  "fdevent_Add fd events c = do {
     CHECK (events AND FDE_TIMEOUT = 0);
     f \<leftarrow> find_fde fd (fc_installed c);
     fdevent_Set fd (ucast (fde_state f) OR events) c
   }"

definition fdevent_Del :: "int \<Rightarrow> u32 \<Rightarrow> 'f fdevent_context \<Rightarrow> 'f fdevent_context option" where
  "fdevent_Del fd events c = do {
     CHECK (events AND FDE_TIMEOUT = 0);
     f \<leftarrow> find_fde fd (fc_installed c);
     fdevent_Set fd (ucast (fde_state f) AND NOT events) c
   }"

definition SetTimeout :: "int \<Rightarrow> int option \<Rightarrow> int \<Rightarrow> 'f fdevent_context \<Rightarrow> 'f fdevent_context option" where
  "SetTimeout fd timeout time c = do {
     f \<leftarrow> find_fde fd (fc_installed c);
     Some (c\<lparr>fc_installed := update_fde fd (\<lambda>g. g\<lparr>fde_timeout := timeout, fde_last_active := time\<rparr>) (fc_installed c)\<rparr>)
   }"

definition deadline :: "'f fdevent \<Rightarrow> int \<Rightarrow> int" where
  "deadline f timeout = fde_last_active f + timeout * 1000000"

text \<open>How long a pass may wait, in milliseconds; \<^const>\<open>None\<close> is for ever.\<close>

fun poll_duration :: "int \<Rightarrow> 'f fdevent list \<Rightarrow> int option \<Rightarrow> int option" where
  "poll_duration time [] result = result"
| "poll_duration time (f # fs) result =
     (case fde_timeout f of
        None \<Rightarrow> poll_duration time fs result
      | Some timeout \<Rightarrow>
          (let time_left = max 0 ((deadline f timeout - time) div 1000000)
           in poll_duration time fs (Some (case result of None \<Rightarrow> time_left | Some r \<Rightarrow> min r time_left))))"

definition CalculatePollDuration :: "int \<Rightarrow> 'f fdevent_context \<Rightarrow> int option" where
  "CalculatePollDuration time c = poll_duration time (fc_installed c) None"

section \<open>A pass\<close>

definition timed_out :: "int \<Rightarrow> 'f fdevent \<Rightarrow> bool" where
  "timed_out post_poll f = (case fde_timeout f of None \<Rightarrow> False | Some timeout \<Rightarrow> deadline f timeout < post_poll)"

definition poll_fde_events :: "bool \<Rightarrow> u32 \<Rightarrow> u32" where
  "poll_fde_events linux revents =
     (if revents AND EPOLLIN \<noteq> 0 then FDE_READ else 0) OR (if revents AND EPOLLOUT \<noteq> 0 then FDE_WRITE else 0) OR
     (if revents AND 0x38 \<noteq> 0 then FDE_READ OR FDE_ERROR else 0) OR
     (if linux \<and> revents AND EPOLLRDHUP \<noteq> 0 then FDE_READ OR FDE_ERROR else 0)"

fun poll_pass :: "bool \<Rightarrow> (int \<Rightarrow> u32) \<Rightarrow> int \<Rightarrow> 'f fdevent list \<Rightarrow> (int \<times> u32) list \<times> 'f fdevent list" where
  "poll_pass linux revents post_poll [] = ([], [])"
| "poll_pass linux revents post_poll (f # fs) =
     (let ready = poll_fde_events linux (revents (fde_fd f));
          events = (if ready = 0 \<and> timed_out post_poll f then FDE_TIMEOUT else ready);
          (evs, fs') = poll_pass linux revents post_poll fs
      in if events \<noteq> 0 then ((fde_fd f, events) # evs, f\<lparr>fde_last_active := post_poll\<rparr> # fs') else (evs, f # fs'))"

definition epoll_fde_events :: "16 word \<Rightarrow> u32 \<Rightarrow> u32 option" where
  "epoll_fde_events st revents = do {
     CHECK (revents AND EPOLLIN \<noteq> 0 \<longrightarrow> ucast st AND FDE_READ \<noteq> 0);
     CHECK (revents AND EPOLLOUT \<noteq> 0 \<longrightarrow> ucast st AND FDE_WRITE \<noteq> 0);
     Some ((if revents AND EPOLLIN \<noteq> 0 then FDE_READ else 0) OR (if revents AND EPOLLOUT \<noteq> 0 then FDE_WRITE else 0) OR
           (if revents AND 0x2018 \<noteq> 0 then FDE_READ OR FDE_ERROR else 0))
   }"

fun epoll_ready :: "int \<Rightarrow> (int \<times> u32) list \<Rightarrow> 'f fdevent list \<Rightarrow> ((int \<times> u32) list \<times> 'f fdevent list) option" where
  "epoll_ready post_poll [] fdes = Some ([], fdes)"
| "epoll_ready post_poll ((fd, revents) # rest) fdes = do {
     f \<leftarrow> find_fde fd fdes;
     events \<leftarrow> epoll_fde_events (fde_state f) revents;
     (evs, fdes') \<leftarrow> epoll_ready post_poll rest (update_fde fd (\<lambda>g. g\<lparr>fde_last_active := post_poll\<rparr>) fdes);
     Some ((fd, events) # evs, fdes')
   }"

fun epoll_timeouts :: "int \<Rightarrow> (int \<rightharpoonup> u32) \<Rightarrow> 'f fdevent list \<Rightarrow> (int \<times> u32) list \<times> 'f fdevent list" where
  "epoll_timeouts post_poll event_map [] = ([], [])"
| "epoll_timeouts post_poll event_map (f # fs) =
     (let events = (case event_map (fde_fd f) of None \<Rightarrow> 0 | Some ev \<Rightarrow> ev);
          (evs, fs') = epoll_timeouts post_poll event_map fs
      in if events = 0 \<and> timed_out post_poll f then ((fde_fd f, FDE_TIMEOUT) # evs, f\<lparr>fde_last_active := post_poll\<rparr> # fs') else (evs, f # fs'))"

definition epoll_pass :: "(int \<times> u32) list \<Rightarrow> int \<Rightarrow> 'f fdevent list \<Rightarrow> ((int \<times> u32) list \<times> 'f fdevent list) option" where
  "epoll_pass ready post_poll fdes = do {
     (evs, fdes1) \<leftarrow> epoll_ready post_poll ready fdes;
     let (timeouts, fdes2) = epoll_timeouts post_poll (map_of evs) fdes1;
     Some (evs @ timeouts, fdes2)
   }"

section \<open>The loop\<close>

definition invoke_fde :: "('f, 'w) looper_client \<Rightarrow> int \<Rightarrow> u32 \<Rightarrow> ('f, 'w) looper \<Rightarrow> ('f, 'w) looper option" where
  "invoke_fde L fd events lp = do { f \<leftarrow> find_fde fd (fc_installed (lp_context lp)); lc_event L (fde_func f) fd events lp }"

partial_function (option) FlushRunQueue :: "('f, 'w) looper_client \<Rightarrow> ('f, 'w) looper \<Rightarrow> ('f, 'w) looper option" where
  "FlushRunQueue L lp =
     (case fc_run_queue (lp_context lp) of
        [] \<Rightarrow> Some lp
      | fn # rest \<Rightarrow> do {
          lp1 \<leftarrow> lc_task L fn (lp\<lparr>lp_context := (lp_context lp)\<lparr>fc_run_queue := rest\<rparr>\<rparr>);
          FlushRunQueue L lp1
        })"

definition HandleEvents :: "('f, 'w) looper_client \<Rightarrow> (int \<times> u32) list \<Rightarrow> ('f, 'w) looper \<Rightarrow> ('f, 'w) looper option" where
  "HandleEvents L events lp = do {
     lp1 \<leftarrow> (case find (\<lambda>(fd, ev). find_fde fd (fc_installed (lp_context lp)) \<noteq> None) events of
               None \<Rightarrow> Some lp
             | Some (fd, ev) \<Rightarrow> invoke_fde L fd ev lp);
     FlushRunQueue L lp1
   }"

definition fdevent_Run :: "'f \<Rightarrow> 'f fdevent_context \<Rightarrow> 'f fdevent_context" where
  "fdevent_Run fn c = c\<lparr>fc_run_queue := fc_run_queue c @ [fn]\<rparr>"

definition TerminateLoop :: "'f fdevent_context \<Rightarrow> 'f fdevent_context" where
  "TerminateLoop c = c\<lparr>fc_terminate := True\<rparr>"

text \<open>
  The two loops on a script of answers.  \<open>poll\<close> may fail, which ends its loop; \<open>epoll_wait\<close> may be interrupted, and
  any other failure ends the program.  At the end of the script the loop still waits: the flag
  says whether it has returned.
\<close>

datatype poll_answer = Poll_failed | Poll_ready "int \<Rightarrow> u32" int

datatype epoll_answer = Epoll_failed | Epoll_interrupted | Epoll_ready "(int \<times> u32) list" int

definition with_events :: "('f, 'w) looper_client \<Rightarrow> (int \<times> u32) list \<times> 'f fdevent list \<Rightarrow> ('f, 'w) looper \<Rightarrow> ('f, 'w) looper option" where
  "with_events L r lp = HandleEvents L (fst r) (lp\<lparr>lp_context := (lp_context lp)\<lparr>fc_installed := snd r\<rparr>\<rparr>)"

fun poll_Loop :: "('f, 'w) looper_client \<Rightarrow> bool \<Rightarrow> poll_answer list \<Rightarrow> ('f, 'w) looper \<Rightarrow> (bool \<times> ('f, 'w) looper) option" where
  "poll_Loop L linux [] lp = Some (fc_terminate (lp_context lp), lp)"
| "poll_Loop L linux (a # as) lp =
     (if fc_terminate (lp_context lp) then Some (True, lp)
      else do {
        CHECK (fc_installed (lp_context lp) \<noteq> []);
        (case a of
           Poll_failed \<Rightarrow> Some (True, lp)
         | Poll_ready revents post_poll \<Rightarrow> do {
             lp1 \<leftarrow> with_events L (poll_pass linux revents post_poll (fc_installed (lp_context lp))) lp;
             poll_Loop L linux as lp1
           })
      })"

fun epoll_Loop :: "('f, 'w) looper_client \<Rightarrow> epoll_answer list \<Rightarrow> ('f, 'w) looper \<Rightarrow> (bool \<times> ('f, 'w) looper) option" where
  "epoll_Loop L [] lp = Some (fc_terminate (lp_context lp), lp)"
| "epoll_Loop L (a # as) lp =
     (if fc_terminate (lp_context lp) then Some (True, lp)
      else (case a of
              Epoll_failed \<Rightarrow> None
            | Epoll_interrupted \<Rightarrow> epoll_Loop L as lp
            | Epoll_ready ready post_poll \<Rightarrow> do {
                r \<leftarrow> epoll_pass ready post_poll (fc_installed (lp_context lp));
                lp1 \<leftarrow> with_events L r lp;
                epoll_Loop L as lp1
              }))"

section \<open>The two kinds of pass\<close>

text \<open>What one descriptor contributes to a pass.\<close>

definition fde_event :: "(int \<Rightarrow> u32) \<Rightarrow> int \<Rightarrow> 'f fdevent \<Rightarrow> u32" where
  "fde_event revents post_poll f =
     (let ready = poll_fde_events True (revents (fde_fd f)) in if ready = 0 \<and> timed_out post_poll f then FDE_TIMEOUT else ready)"

definition touched :: "(int \<Rightarrow> u32) \<Rightarrow> int \<Rightarrow> 'f fdevent \<Rightarrow> 'f fdevent" where
  "touched revents post_poll f = (if fde_event revents post_poll f \<noteq> 0 then f\<lparr>fde_last_active := post_poll\<rparr> else f)"

lemma poll_pass_eq:
  "poll_pass True revents post_poll fdes =
     (map (\<lambda>f. (fde_fd f, fde_event revents post_poll f)) (filter (\<lambda>f. fde_event revents post_poll f \<noteq> 0) fdes), map (touched revents post_poll) fdes)"
  by (induction fdes) (simp_all add: fde_event_def touched_def Let_def)

text \<open>
  What the kernel answers for a descriptor: bits that were asked for, or errors.  A descriptor is on the list
  of \<open>epoll_wait\<close> exactly if some bit is set.
\<close>

definition revents_ok :: "16 word \<Rightarrow> u32 \<Rightarrow> bool" where
  "revents_ok st r \<longleftrightarrow> r AND NOT 0x201D = 0 \<and> (r AND EPOLLIN \<noteq> 0 \<longrightarrow> ucast st AND FDE_READ \<noteq> 0) \<and> (r AND EPOLLOUT \<noteq> 0 \<longrightarrow> ucast st AND FDE_WRITE \<noteq> 0)"

lemma revents_bits:
  fixes r :: u32
  assumes "r AND NOT 0x201D = 0"
  shows "r AND 0x20 = 0" and "r AND 0x1 = 0 \<Longrightarrow> r AND 0x4 = 0 \<Longrightarrow> r AND 0x18 = 0 \<Longrightarrow> r AND 0x2000 = 0 \<Longrightarrow> r = 0"
proof -
  have m: "r = r AND 0x201D" using bit.conj_disj_distrib [of r "0x201D" "NOT 0x201D"] assms by simp
  have "r AND 0x20 = r AND (0x201D AND 0x20)" by (subst m) (rule and.assoc)
  also have "\<dots> = 0" by simp
  finally show "r AND 0x20 = 0" .
  have "r AND 0x201D = (r AND 0x1) OR (r AND 0x201C)" using bit.conj_disj_distrib [of r "0x1" "0x201C"] by simp
  also have "r AND 0x201C = (r AND 0x4) OR (r AND 0x2018)" using bit.conj_disj_distrib [of r "0x4" "0x2018"] by simp
  also have "r AND 0x2018 = (r AND 0x18) OR (r AND 0x2000)" using bit.conj_disj_distrib [of r "0x18" "0x2000"] by simp
  finally show "r AND 0x1 = 0 \<Longrightarrow> r AND 0x4 = 0 \<Longrightarrow> r AND 0x18 = 0 \<Longrightarrow> r AND 0x2000 = 0 \<Longrightarrow> r = 0" using m by simp
qed

lemma error_bits:
  fixes r :: u32
  assumes "r AND 0x20 = 0"
  shows "(r AND 0x38 \<noteq> 0 \<or> r AND 0x2000 \<noteq> 0) \<longleftrightarrow> r AND 0x2018 \<noteq> 0" and "r AND 0x38 = r AND 0x18"
proof -
  show a: "r AND 0x38 = r AND 0x18" using bit.conj_disj_distrib [of r "0x18" "0x20"] assms by simp
  have "r AND 0x2018 = (r AND 0x18) OR (r AND 0x2000)" using bit.conj_disj_distrib [of r "0x18" "0x2000"] by simp
  then show "(r AND 0x38 \<noteq> 0 \<or> r AND 0x2000 \<noteq> 0) \<longleftrightarrow> r AND 0x2018 \<noteq> 0" using a by (simp add: or_eq_0_iff)
qed

lemma epoll_fde_events_ok:
  assumes "revents_ok st r"
  shows "epoll_fde_events st r = Some (poll_fde_events True r)" and "poll_fde_events True r = 0 \<longleftrightarrow> r = 0"
proof -
  have n: "r AND NOT 0x201D = 0" using assms by (simp add: revents_ok_def)
  note b = revents_bits [OF n] error_bits [OF revents_bits(1) [OF n]]
  show "epoll_fde_events st r = Some (poll_fde_events True r)"
    using assms b(3) by (auto simp: epoll_fde_events_def poll_fde_events_def revents_ok_def CHECK_def)
  show "poll_fde_events True r = 0 \<longleftrightarrow> r = 0"
    using b(2,4) by (auto simp: poll_fde_events_def fde_bits split: if_splits)
qed

lemma find_fde_eq: "distinct (map fde_fd fdes) \<Longrightarrow> f \<in> set fdes \<Longrightarrow> find_fde (fde_fd f) fdes = Some f"
  by (induction fdes) (auto simp: find_fde_def)

lemma update_fde_fds [simp]: "(\<And>g. fde_fd (h g) = fde_fd g) \<Longrightarrow> map fde_fd (update_fde fd h fdes) = map fde_fd fdes"
  by (simp add: update_fde_def)

lemma epoll_ready_eq:
  assumes "distinct (map fde_fd fdes)" and "\<forall>(fd, r) \<in> set ready. \<exists>f \<in> set fdes. fde_fd f = fd \<and> revents_ok (fde_state f) r"
  shows "epoll_ready post_poll ready fdes =
     Some (map (\<lambda>(fd, r). (fd, poll_fde_events True r)) ready, map (\<lambda>f. if fde_fd f \<in> fst ` set ready then f\<lparr>fde_last_active := post_poll\<rparr> else f) fdes)"
  using assms
proof (induction ready arbitrary: fdes)
  case (Cons p ready)
  obtain fd r where p: "p = (fd, r)" by force
  obtain f where f: "f \<in> set fdes" "fde_fd f = fd" "revents_ok (fde_state f) r" using Cons.prems(2) p by auto
  let ?u = "update_fde fd (\<lambda>g. g\<lparr>fde_last_active := post_poll\<rparr>) fdes"
  have "\<forall>(fd, r) \<in> set ready. \<exists>f \<in> set ?u. fde_fd f = fd \<and> revents_ok (fde_state f) r"
  proof clarify
    fix fd' r'
    assume "(fd', r') \<in> set ready"
    then obtain g where "g \<in> set fdes" "fde_fd g = fd'" "revents_ok (fde_state g) r'" using Cons.prems(2) by auto
    then show "\<exists>f \<in> set ?u. fde_fd f = fd' \<and> revents_ok (fde_state f) r'"
      by (intro bexI [of _ "if fde_fd g = fd then g\<lparr>fde_last_active := post_poll\<rparr> else g"]) (auto simp: update_fde_def)
  qed
  then have "epoll_ready post_poll ready ?u = Some (map (\<lambda>(fd, r). (fd, poll_fde_events True r)) ready, map (\<lambda>f. if fde_fd f \<in> fst ` set ready then f\<lparr>fde_last_active := post_poll\<rparr> else f) ?u)"
    using Cons.IH [of ?u] Cons.prems(1) by simp
  moreover have "find_fde fd fdes = Some f" using find_fde_eq [OF Cons.prems(1) f(1)] f(2) by simp
  ultimately show ?case using p f(3) epoll_fde_events_ok(1) [OF f(3)] by (simp add: update_fde_def)
qed simp

lemma epoll_timeouts_eq:
  "epoll_timeouts post_poll m fdes =
     (map (\<lambda>f. (fde_fd f, FDE_TIMEOUT)) (filter (\<lambda>f. (case m (fde_fd f) of None \<Rightarrow> 0 | Some ev \<Rightarrow> ev) = 0 \<and> timed_out post_poll f) fdes),
      map (\<lambda>f. if (case m (fde_fd f) of None \<Rightarrow> 0 | Some ev \<Rightarrow> ev) = 0 \<and> timed_out post_poll f then f\<lparr>fde_last_active := post_poll\<rparr> else f) fdes)"
  by (induction fdes) (simp_all add: Let_def)

text \<open>The list of \<open>epoll_wait\<close> for given readiness: each ready descriptor once, in any order.\<close>

definition ready_list :: "(int \<Rightarrow> u32) \<Rightarrow> 'f fdevent list \<Rightarrow> (int \<times> u32) list \<Rightarrow> bool" where
  "ready_list revents fdes ready \<longleftrightarrow> distinct (map fst ready) \<and> set ready = set (map (\<lambda>f. (fde_fd f, revents (fde_fd f))) (filter (\<lambda>f. revents (fde_fd f) \<noteq> 0) fdes))"

lemma ready_list_map:
  assumes "ready_list revents fdes ready" and "f \<in> set fdes"
  shows "fde_fd f \<in> fst ` set ready \<longleftrightarrow> revents (fde_fd f) \<noteq> 0"
    and "map_of (map (\<lambda>(fd, r). (fd, g r)) ready) (fde_fd f) = (if revents (fde_fd f) \<noteq> 0 then Some (g (revents (fde_fd f))) else None)"
proof -
  have s: "set ready = {(fde_fd f, revents (fde_fd f)) |f. f \<in> set fdes \<and> revents (fde_fd f) \<noteq> 0}" and d: "distinct (map fst ready)"
    using assms(1) by (auto simp: ready_list_def)
  show a: "fde_fd f \<in> fst ` set ready \<longleftrightarrow> revents (fde_fd f) \<noteq> 0" unfolding s using assms(2) by force
  have "map_of (map (\<lambda>(fd, r). (fd, g r)) ready) (fde_fd f) = map_option g (map_of ready (fde_fd f))" by (simp add: map_of_map)
  moreover have "map_of ready (fde_fd f) = (if revents (fde_fd f) \<noteq> 0 then Some (revents (fde_fd f)) else None)"
  proof (cases "revents (fde_fd f) \<noteq> 0")
    case True
    then have "(fde_fd f, revents (fde_fd f)) \<in> set ready" using s assms(2) by auto
    then show ?thesis using True map_of_is_SomeI [OF d] by simp
  next
    case False
    then show ?thesis using a map_of_eq_None_iff [of ready "fde_fd f"] by simp
  qed
  ultimately show "map_of (map (\<lambda>(fd, r). (fd, g r)) ready) (fde_fd f) = (if revents (fde_fd f) \<noteq> 0 then Some (g (revents (fde_fd f))) else None)" by simp
qed

section \<open>The kernel's set\<close>

text \<open>
  Descriptors in order and without repetition, and an \<open>epoll\<close> set that has exactly them, with the events of
  their states.  A state never has \<open>FDE_TIMEOUT\<close> set, so that leaving the set alone for it loses nothing.
\<close>

definition context_ok :: "'f fdevent_context \<Rightarrow> bool" where
  "context_ok c \<longleftrightarrow> sorted_wrt (<) (map fde_fd (fc_installed c)) \<and>
     (case fc_epoll c of None \<Rightarrow> True
      | Some m \<Rightarrow> m = map_of (map (\<lambda>f. (fde_fd f, calculate_epoll_event (fde_state f))) (fc_installed c)))"

lemma context_ok_distinct: "context_ok c \<Longrightarrow> distinct (map fde_fd (fc_installed c))"
  by (simp add: context_ok_def strict_sorted_iff)

lemma low_bits:
  fixes e k :: u32
  assumes "take_bit 16 k = k"
  shows "ucast (ucast e :: 16 word) AND k = e AND k"
proof (rule bit_word_eqI)
  fix n
  assume "n < LENGTH(32)"
  have "bit k n \<Longrightarrow> n < 16" using assms by (metis bit_take_bit_iff)
  then show "bit (ucast (ucast e :: 16 word) AND k) n = bit (e AND k) n" by (auto simp: bit_and_iff bit_ucast_iff)
qed

text \<open>Events that differ at most in \<open>FDE_TIMEOUT\<close> ask the kernel for the same.\<close>

lemma same_interest:
  assumes "ucast st AND NOT FDE_TIMEOUT = events AND NOT FDE_TIMEOUT"
  shows "calculate_epoll_event (ucast events) = calculate_epoll_event st"
proof -
  have "ucast (ucast events :: 16 word) AND k = ucast st AND k" if k: "take_bit 16 k = k" "k AND NOT FDE_TIMEOUT = k" for k :: u32
  proof -
    have "events AND k = (events AND NOT FDE_TIMEOUT) AND k" using k(2) by (metis and.assoc and.commute)
    also have "\<dots> = (ucast st AND NOT FDE_TIMEOUT) AND k" using assms by simp
    also have "\<dots> = ucast st AND k" using k(2) by (metis and.assoc and.commute)
    finally show ?thesis using low_bits [OF k(1)] by simp
  qed
  from this [of FDE_READ] this [of FDE_WRITE] this [of FDE_ERROR] show ?thesis
    by (simp add: calculate_epoll_event_def fde_bits)
qed

lemma map_of_update_fde:
  "map_of (map (\<lambda>f. (fde_fd f, g f)) (update_fde fd h fdes)) =
     (\<lambda>x. if x = fd then map_of (map (\<lambda>f. (fde_fd f, g (h f))) fdes) x else map_of (map (\<lambda>f. (fde_fd f, g f)) fdes) x)"
  if "\<And>f. fde_fd (h f) = fde_fd f"
  by (induction fdes) (auto simp: update_fde_def that fun_eq_iff)

lemma map_of_const: "fd \<in> fde_fd ` set fdes \<Longrightarrow> map_of (map (\<lambda>f. (fde_fd f, v)) fdes) fd = Some v"
  by (induction fdes) auto

lemma find_fde_SomeD: "find_fde fd fdes = Some f \<Longrightarrow> f \<in> set fdes \<and> fde_fd f = fd"
  by (auto simp: find_fde_def find_Some_iff in_set_conv_nth)

lemma fdevent_Set_ok:
  assumes "context_ok c" and "find_fde fd (fc_installed c) \<noteq> None"
  shows "\<exists>c'. fdevent_Set fd events c = Some c' \<and> context_ok c'"
proof -
  obtain f where f: "find_fde fd (fc_installed c) = Some f" using assms(2) by blast
  note fD = find_fde_SomeD [OF f]
  let ?st = "ucast events :: 16 word"
  let ?u = "update_fde fd (\<lambda>g. g\<lparr>fde_state := ?st\<rparr>) (fc_installed c)"
  have srt: "sorted_wrt (<) (map fde_fd ?u)" using assms(1) by (simp add: context_ok_def)
  show ?thesis
  proof (cases "fc_epoll c")
    case None
    then show ?thesis using f srt by (simp add: fdevent_Set_def context_ok_def Let_def)
  next
    case (Some m)
    let ?old = "map_of (map (\<lambda>f. (fde_fd f, calculate_epoll_event (fde_state f))) (fc_installed c))"
    have m: "m = ?old" using assms(1) Some by (simp add: context_ok_def)
    have new: "map_of (map (\<lambda>f. (fde_fd f, calculate_epoll_event (fde_state f))) ?u) = ?old(fd \<mapsto> calculate_epoll_event ?st)"
      using map_of_const [of fd "fc_installed c" "calculate_epoll_event ?st"] fD by (auto simp: map_of_update_fde fun_eq_iff)
    have "(fd, calculate_epoll_event (fde_state f)) \<in> set (map (\<lambda>f. (fde_fd f, calculate_epoll_event (fde_state f))) (fc_installed c))" using fD by force
    then have o: "?old fd = Some (calculate_epoll_event (fde_state f))"
      using map_of_is_SomeI [of "map (\<lambda>f. (fde_fd f, calculate_epoll_event (fde_state f))) (fc_installed c)"] context_ok_distinct [OF assms(1)] by (simp add: comp_def)
    show ?thesis
    proof (cases "ucast (fde_state f) AND NOT FDE_TIMEOUT = events AND NOT FDE_TIMEOUT")
      case True
      then have "?old(fd \<mapsto> calculate_epoll_event ?st) = ?old" using o same_interest [OF True] by (auto simp: fun_eq_iff)
      then show ?thesis using True f Some m new srt by (simp add: fdevent_Set_def context_ok_def Let_def)
    next
      case False
      then show ?thesis using f Some m new o srt by (simp add: fdevent_Set_def context_ok_def Let_def CHECK_def)
    qed
  qed
qed

lemma fdevent_Add_ok: "context_ok c \<Longrightarrow> find_fde fd (fc_installed c) \<noteq> None \<Longrightarrow> events AND FDE_TIMEOUT = 0 \<Longrightarrow> \<exists>c'. fdevent_Add fd events c = Some c' \<and> context_ok c'"
  using fdevent_Set_ok [of c fd] by (auto simp: fdevent_Add_def CHECK_def)

lemma fdevent_Del_ok: "context_ok c \<Longrightarrow> find_fde fd (fc_installed c) \<noteq> None \<Longrightarrow> events AND FDE_TIMEOUT = 0 \<Longrightarrow> \<exists>c'. fdevent_Del fd events c = Some c' \<and> context_ok c'"
  using fdevent_Set_ok [of c fd] by (auto simp: fdevent_Del_def CHECK_def)

lemma find_fde_None: "find_fde fd fdes = None \<longleftrightarrow> fd \<notin> fde_fd ` set fdes"
  by (auto simp: find_fde_def find_None_iff)

lemma insort_fde:
  assumes "fde_fd f \<notin> fde_fd ` set fdes"
  shows "sorted_wrt (<) (map fde_fd fdes) \<Longrightarrow> sorted_wrt (<) (map fde_fd (insort_key fde_fd f fdes))"
    and "map_of (map (\<lambda>f. (fde_fd f, g f)) (insort_key fde_fd f fdes)) = (map_of (map (\<lambda>f. (fde_fd f, g f)) fdes))(fde_fd f \<mapsto> g f)"
  using assms by (induction fdes) (auto simp: set_insort_key fun_eq_iff)

lemma map_of_fdes: "map_of (map (\<lambda>f. (fde_fd f, g f)) fdes) x = None \<longleftrightarrow> x \<notin> fde_fd ` set fdes"
  by (induction fdes) auto

lemma fdevent_Create_ok:
  assumes "context_ok c" and "0 \<le> fd" and "find_fde fd (fc_installed c) = None" and "pollable fd"
  shows "\<exists>c'. fdevent_Create pollable fd func time c = Some c' \<and> context_ok c' \<and> find_fde fd (fc_installed c') \<noteq> None"
proof -
  let ?f = "\<lparr>fde_id = fc_next_id c, fde_fd = fd, fde_state = 0, fde_timeout = None, fde_last_active = time, fde_func = func\<rparr>"
  have n: "fde_fd ?f \<notin> fde_fd ` set (fc_installed c)" using assms(3) by (simp add: find_fde_None)
  have m: "map_of (map (\<lambda>f. (fde_fd f, calculate_epoll_event (fde_state f))) (fc_installed c)) fd = None" using n by (simp add: map_of_fdes)
  have i: "find_fde fd (insort_key fde_fd ?f (fc_installed c)) \<noteq> None" by (simp add: find_fde_None set_insort_key)
  show ?thesis
  proof (cases "fc_epoll c")
    case None
    then show ?thesis using assms insort_fde(1) [OF n] i by (simp add: fdevent_Create_def Register_def context_ok_def CHECK_def Let_def)
  next
    case (Some k)
    then have "k = map_of (map (\<lambda>f. (fde_fd f, calculate_epoll_event (fde_state f))) (fc_installed c))" using assms(1) by (simp add: context_ok_def)
    moreover have "sorted_wrt (<) (map fde_fd (insort_key fde_fd ?f (fc_installed c)))" using insort_fde(1) [OF n] assms(1) by (simp add: context_ok_def)
    ultimately show ?thesis using Some assms(2-4) m i insort_fde(2) [OF n, of "\<lambda>f. calculate_epoll_event (fde_state f)"]
      by (simp add: fdevent_Create_def Register_def context_ok_def CHECK_def Let_def)
  qed
qed

lemma fdevent_Destroy_ok:
  assumes "context_ok c" and "find_fde fd (fc_installed c) \<noteq> None"
  shows "\<exists>c'. fdevent_Destroy fd c = Some c' \<and> context_ok c' \<and> find_fde fd (fc_installed c') = None"
proof -
  let ?m = "\<lambda>fs. map_of (map (\<lambda>f. (fde_fd f, calculate_epoll_event (fde_state f))) fs)"
  have f: "?m (filter (\<lambda>f. fde_fd f \<noteq> fd) fs) = (?m fs)(fd := None)" for fs :: "'a fdevent list"
    by (induction fs) (auto simp: fun_eq_iff)
  have m: "?m (fc_installed c) fd \<noteq> None" unfolding map_of_fdes using assms(2) by (simp add: find_fde_None)
  have srt: "sorted_wrt (<) (map fde_fd (filter (\<lambda>f. fde_fd f \<noteq> fd) (fc_installed c)))"
    using assms(1) by (simp add: context_ok_def sorted_wrt_map sorted_wrt_filter)
  have i: "find_fde fd (filter (\<lambda>f. fde_fd f \<noteq> fd) (fc_installed c)) = None" by (auto simp: find_fde_None)
  show ?thesis
  proof (cases "fc_epoll c")
    case None
    then show ?thesis using assms(2) srt i by (simp add: fdevent_Destroy_def Unregister_def context_ok_def CHECK_def)
  next
    case (Some k)
    then have "k = ?m (fc_installed c)" using assms(1) by (simp add: context_ok_def)
    then show ?thesis using Some assms(2) srt i m f [of "fc_installed c"] by (simp add: fdevent_Destroy_def Unregister_def context_ok_def CHECK_def del: not_None_eq)
  qed
qed

section \<open>Properties\<close>

text \<open>
  C22: both kinds of event loop see the same events.  For the same readiness of the descriptors, whatever the
  order in which \<open>epoll_wait\<close> lists them, the pass of the \<open>epoll\<close> loop fails none of its checks, finds exactly the
  events that the pass of the \<open>poll\<close> loop finds, each descriptor at most once, and leaves the same times of last activity.
\<close>

theorem pollers_agree:
  assumes "context_ok c" and "list_all (\<lambda>f. revents_ok (fde_state f) (revents (fde_fd f))) (fc_installed c)"
    and "ready_list revents (fc_installed c) ready"
  shows "\<exists>evs fdes. epoll_pass ready post_poll (fc_installed c) = Some (evs, fdes) \<and> distinct (map fst evs) \<and>
    set evs = set (fst (poll_pass True revents post_poll (fc_installed c))) \<and> fdes = snd (poll_pass True revents post_poll (fc_installed c)) \<and>
    context_ok (c\<lparr>fc_installed := fdes\<rparr>)"
proof -
  let ?fs = "fc_installed c"
  let ?evs = "map (\<lambda>(fd, r). (fd, poll_fde_events True r)) ready"
  let ?up = "\<lambda>f. if fde_fd f \<in> fst ` set ready then f\<lparr>fde_last_active := post_poll\<rparr> else f"
  let ?late = "\<lambda>f. revents (fde_fd f) = 0 \<and> timed_out post_poll f"
  note r = assms(3) [unfolded ready_list_def]
  have z: "poll_fde_events True (revents (fde_fd f)) = 0 \<longleftrightarrow> revents (fde_fd f) = 0" if "f \<in> set ?fs" for f
    using epoll_fde_events_ok(2) assms(2) that by (auto simp: list_all_iff)
  have e: "epoll_ready post_poll ready ?fs = Some (?evs, map ?up ?fs)"
    using epoll_ready_eq [OF context_ok_distinct [OF assms(1)], of ready post_poll] r assms(2) by (auto simp: list_all_iff)
  have late: "((case map_of ?evs (fde_fd f) of None \<Rightarrow> 0 | Some ev \<Rightarrow> ev) = 0 \<and> timed_out post_poll (?up f)) = ?late f" if "f \<in> set ?fs" for f
    using ready_list_map(1) [OF assms(3) that] ready_list_map(2) [OF assms(3) that, of "poll_fde_events True"] z [OF that] by simp
  let ?touts = "map (\<lambda>f. (fde_fd f, FDE_TIMEOUT)) (filter ?late ?fs)"
  have up: "fde_fd (?up f) = fde_fd f" for f by simp
  have t: "epoll_timeouts post_poll (map_of ?evs) (map ?up ?fs) = (?touts, map (touched revents post_poll) ?fs)"
  proof -
    have "filter (\<lambda>f. (case map_of ?evs (fde_fd f) of None \<Rightarrow> 0 | Some ev \<Rightarrow> ev) = 0 \<and> timed_out post_poll f) (map ?up ?fs) = map ?up (filter ?late ?fs)"
      unfolding filter_map comp_def up by (rule arg_cong [OF filter_cong [OF refl late]])
    then have a: "fst (epoll_timeouts post_poll (map_of ?evs) (map ?up ?fs)) = ?touts" unfolding epoll_timeouts_eq by (simp add: comp_def up)
    have "snd (epoll_timeouts post_poll (map_of ?evs) (map ?up ?fs)) = map (touched revents post_poll) ?fs"
      unfolding epoll_timeouts_eq snd_conv map_map comp_def up
    proof (rule map_cong [OF refl])
      fix f
      assume f: "f \<in> set ?fs"
      show "(if (case map_of ?evs (fde_fd f) of None \<Rightarrow> 0 | Some ev \<Rightarrow> ev) = 0 \<and> timed_out post_poll (?up f) then (?up f)\<lparr>fde_last_active := post_poll\<rparr> else ?up f) = touched revents post_poll f"
        unfolding late [OF f] using ready_list_map(1) [OF assms(3) f] z [OF f] by (auto simp: touched_def fde_event_def Let_def FDE_TIMEOUT_def)
    qed
    then show ?thesis using a by (simp add: prod_eq_iff)
  qed
  have p: "epoll_pass ready post_poll ?fs = Some (?evs @ ?touts, map (touched revents post_poll) ?fs)" unfolding epoll_pass_def e by (simp add: t)
  let ?e = "\<lambda>f. (fde_fd f, fde_event revents post_poll f)"
  have ev: "fde_event revents post_poll f = (if ?late f then FDE_TIMEOUT else poll_fde_events True (revents (fde_fd f)))" if "f \<in> set ?fs" for f
    using z [OF that] by (simp add: fde_event_def Let_def)
  have nz: "fde_event revents post_poll f \<noteq> 0 \<longleftrightarrow> revents (fde_fd f) \<noteq> 0 \<or> ?late f" if "f \<in> set ?fs" for f
    using ev [OF that] z [OF that] by (simp add: FDE_TIMEOUT_def)
  have "set ready = (\<lambda>f. (fde_fd f, revents (fde_fd f))) ` {f \<in> set ?fs. revents (fde_fd f) \<noteq> 0}" using r by simp
  then have "set ?evs = (\<lambda>f. (fde_fd f, poll_fde_events True (revents (fde_fd f)))) ` {f \<in> set ?fs. revents (fde_fd f) \<noteq> 0}"
    by (simp add: image_image)
  also have "\<dots> = ?e ` {f \<in> set ?fs. revents (fde_fd f) \<noteq> 0}" by (rule image_cong) (simp_all add: ev)
  finally have s1: "set ?evs = ?e ` {f \<in> set ?fs. revents (fde_fd f) \<noteq> 0}" .
  have "set ?touts = (\<lambda>f. (fde_fd f, FDE_TIMEOUT)) ` {f \<in> set ?fs. ?late f}" by simp
  also have "\<dots> = ?e ` {f \<in> set ?fs. ?late f}" by (rule image_cong) (simp_all add: ev)
  finally have s2: "set ?touts = ?e ` {f \<in> set ?fs. ?late f}" .
  have "{f \<in> set ?fs. revents (fde_fd f) \<noteq> 0} \<union> {f \<in> set ?fs. ?late f} = {f \<in> set ?fs. fde_event revents post_poll f \<noteq> 0}" using nz by blast
  then have "set (?evs @ ?touts) = ?e ` {f \<in> set ?fs. fde_event revents post_poll f \<noteq> 0}" unfolding set_append s1 s2 image_Un [symmetric] by simp
  moreover have "distinct (map fst (?evs @ ?touts))"
  proof -
    have "distinct (map fst ?evs)" using r by (simp add: comp_def case_prod_beta)
    moreover have "distinct (map fst ?touts)" using distinct_map_filter [OF context_ok_distinct [OF assms(1)]] by (simp add: comp_def)
    moreover have "fst ` set ?evs \<inter> fst ` set ?touts = {}" unfolding s1 s2 by auto
    ultimately show ?thesis unfolding map_append distinct_append set_map by blast
  qed
  moreover have "fde_fd (touched revents post_poll f) = fde_fd f" "fde_state (touched revents post_poll f) = fde_state f" for f :: "'a fdevent"
    by (simp_all add: touched_def)
  then have "context_ok (c\<lparr>fc_installed := map (touched revents post_poll) ?fs\<rparr>)" using assms(1) by (simp add: context_ok_def comp_def split: option.splits)
  ultimately show ?thesis unfolding poll_pass_eq using p by (intro exI [of _ "?evs @ ?touts"] exI [of _ "map (touched revents post_poll) ?fs"]) simp
qed

text \<open>A context with two descriptors: the first is ready, the second has waited longer than its timeout.\<close>

definition two_fdes :: "(int \<rightharpoonup> u32) option \<Rightarrow> nat fdevent_context" where
  "two_fdes m =
     \<lparr>fc_installed = [\<lparr>fde_id = 0, fde_fd = 3, fde_state = 1, fde_timeout = None, fde_last_active = 0, fde_func = 0\<rparr>,
                      \<lparr>fde_id = 1, fde_fd = 5, fde_state = 1, fde_timeout = Some 2, fde_last_active = 0, fde_func = 1\<rparr>],
      fc_next_id = 2, fc_run_queue = [], fc_terminate = False, fc_epoll = m\<rparr>"

definition first_ready :: "int \<Rightarrow> u32" where
  "first_ready fd = (if fd = 3 then 1 else 0)"

theorem pollers_agree_witness:
  "context_ok (two_fdes None) \<and> list_all (\<lambda>f. revents_ok (fde_state f) (first_ready (fde_fd f))) (fc_installed (two_fdes None)) \<and>
   ready_list first_ready (fc_installed (two_fdes None)) [(3, 1)] \<and>
   (\<exists>evs fdes. epoll_pass [(3, 1)] 3000000 (fc_installed (two_fdes None)) = Some (evs, fdes) \<and> set evs = {(3, FDE_READ), (5, FDE_TIMEOUT)})"
proof -
  have c: "context_ok (two_fdes None)" by (simp add: context_ok_def two_fdes_def)
  have r: "list_all (\<lambda>f. revents_ok (fde_state f) (first_ready (fde_fd f))) (fc_installed (two_fdes None))"
    by (simp add: two_fdes_def revents_ok_def first_ready_def fde_bits)
  have l: "ready_list first_ready (fc_installed (two_fdes None)) [(3, 1)]" by (simp add: ready_list_def two_fdes_def first_ready_def)
  have "set (fst (poll_pass True first_ready 3000000 (fc_installed (two_fdes None)))) = {(3, FDE_READ), (5, FDE_TIMEOUT)}"
    by (simp add: two_fdes_def poll_fde_events_def first_ready_def timed_out_def deadline_def fde_bits)
  moreover obtain evs fdes where "epoll_pass [(3, 1)] 3000000 (fc_installed (two_fdes None)) = Some (evs, fdes)"
    "set evs = set (fst (poll_pass True first_ready 3000000 (fc_installed (two_fdes None))))"
    using pollers_agree [OF c r l, of 3000000] by blast
  ultimately show ?thesis using c r l by blast
qed

text \<open>
  Only the first event of a pass is handled.  A descriptor that is ready comes back in the next pass, but a timeout does not:
  its time of last activity has been moved on, though its callback was not called.
\<close>

lemma timeout_lost:
  fixes L :: "(nat, nat list) looper_client"
  assumes "L = \<lparr>lc_event = \<lambda>f fd ev lp. Some (lp\<lparr>lp_world := lp_world lp @ [f]\<rparr>), lc_task = \<lambda>f lp. Some lp, lc_pollable = \<lambda>fd. True\<rparr>"
  shows "\<exists>lp. poll_Loop L True [Poll_ready first_ready 3000000] \<lparr>lp_context = two_fdes None, lp_world = []\<rparr> = Some (False, lp) \<and> lp_world lp = [0] \<and>
     \<not> list_ex (timed_out 3000000) (fc_installed (lp_context lp)) \<and> list_ex (timed_out 3000000) (fc_installed (two_fdes None))"
  unfolding assms
  by (simp add: with_events_def HandleEvents_def invoke_fde_def two_fdes_def poll_fde_events_def first_ready_def timed_out_def deadline_def fde_bits
      find_fde_def FlushRunQueue.simps CHECK_def)

end
