(* ===== verification/Adb_Compression.thy ===== *)
theory Adb_Compression
  imports Adb_IOVector
begin

text \<open>
  The encoders and decoders of \<open>compression_utils.h\<close> that file transfers run their data through: the
  uncompressed ones, and the wrappers around the Brotli, LZ4 and Zstd libraries.  The libraries are
  the record \<open>codecs\<close>: one call takes the context, the input and the room for output, and
  answers how much input it used, the output and the new context.  A context has the type \<open>'c\<close>.

  The results are that the uncompressed pair hands on exactly the bytes it was given, that every
  decoder stays inside its output buffer when its library does, and that the LZ4 and Zstd decoders
  ask for another round for ever when the stream was cut off.
\<close>

datatype CompressionType = CompressNone | CompressAny | Brotli | LZ4 | Zstd

datatype DecodeResult = Decode_Error | Decode_Done | Decode_NeedInput | Decode_MoreOutput

datatype EncodeResult = Encode_Error | Encode_Done | Encode_NeedInput | Encode_MoreOutput

datatype BrotliDecoderResult =
  BROTLI_SUCCESS | BROTLI_ERROR | BROTLI_NEEDS_MORE_INPUT | BROTLI_NEEDS_MORE_OUTPUT

text \<open>
  The libraries.  A size that is an error code is \<^const>\<open>None\<close>; a context that cannot be created is
  \<^const>\<open>None\<close> as well.  \<open>lz4_header\<close> is what \<open>LZ4F_compressBegin\<close> writes.
\<close>

record 'c codecs =
  brotli_decoder :: 'c
  BrotliDecoderDecompressStream :: "'c \<Rightarrow> bytes \<Rightarrow> nat \<Rightarrow> BrotliDecoderResult \<times> nat \<times> bytes \<times> 'c"
  brotli_encoder :: 'c
  BrotliEncoderCompressStream :: "'c \<Rightarrow> bool \<Rightarrow> bytes \<Rightarrow> nat \<Rightarrow> bool \<times> nat \<times> bytes \<times> 'c"
  BrotliEncoderIsFinished :: "'c \<Rightarrow> bool"
  lz4_decoder :: "'c option"
  LZ4F_decompress :: "'c \<Rightarrow> bytes \<Rightarrow> nat \<Rightarrow> nat option \<times> nat \<times> bytes \<times> 'c"
  lz4_encoder :: "'c option"
  LZ4F_HEADER_SIZE_MAX :: nat
  lz4_header :: "bytes option"
  LZ4F_compressBound :: "nat \<Rightarrow> nat"
  LZ4F_compressUpdate :: "'c \<Rightarrow> nat \<Rightarrow> bytes \<Rightarrow> bytes option \<times> 'c"
  LZ4F_compressEnd :: "'c \<Rightarrow> nat \<Rightarrow> bytes option \<times> 'c"
  zstd_decoder :: "'c option"
  ZSTD_decompressStream :: "'c \<Rightarrow> bytes \<Rightarrow> nat \<Rightarrow> nat option \<times> nat \<times> bytes \<times> 'c"
  zstd_encoder :: "'c option"
  ZSTD_compressStream2 :: "'c \<Rightarrow> bool \<Rightarrow> bytes \<Rightarrow> nat \<Rightarrow> nat option \<times> nat \<times> bytes \<times> 'c"

section \<open>Decoders\<close>

text \<open>
  A \<open>Decoder\<close> of any class: \<open>dec_kind\<close> says which, \<open>dec_out_size\<close> is the size of its output buffer,
  \<open>dec_lib\<close> the context of the library and \<open>dec_stream_done\<close> is \<open>lz4_done_\<close> or \<open>zstd_done_\<close>.
\<close>

record 'c Decoder =
  dec_finished :: bool
  dec_input :: "byte iovector"
  dec_out_size :: nat
  dec_kind :: CompressionType
  dec_lib :: "'c option"
  dec_stream_done :: bool

definition Decoder_new :: "'c codecs \<Rightarrow> CompressionType \<Rightarrow> nat \<Rightarrow> 'c Decoder option" where
  "Decoder_new lib kind n = do {
     ctx \<leftarrow> (case kind of
              CompressNone \<Rightarrow> Some None
            | Brotli \<Rightarrow> Some (Some (brotli_decoder lib))
            | LZ4 \<Rightarrow> map_option Some (lz4_decoder lib)
            | Zstd \<Rightarrow> map_option Some (zstd_decoder lib)
            | CompressAny \<Rightarrow> None);
     Some \<lparr>dec_finished = False, dec_input = iov_new, dec_out_size = n, dec_kind = kind, dec_lib = ctx, dec_stream_done = False\<rparr>
   }"

definition Decoder_Append :: "byte block \<Rightarrow> 'c Decoder \<Rightarrow> 'c Decoder" where
  "Decoder_Append b d = d\<lparr>dec_input := fst (iov_append b (dec_input d))\<rparr>"

definition Decoder_Finish :: "'c Decoder \<Rightarrow> 'c Decoder option" where
  "Decoder_Finish d = do { CHECK (\<not> dec_finished d); Some (d\<lparr>dec_finished := True\<rparr>) }"

text \<open>The first block of the input as the library is given it: \<open>front_data()\<close> and \<open>front_size()\<close>.\<close>

definition iov_front :: "byte iovector \<Rightarrow> bytes option" where
  "iov_front v = do {
     n \<leftarrow> iov_front_size v;
     p \<leftarrow> iov_front_data v;
     case p of
       None \<Rightarrow> do { CHECK (n = 0); Some [] }
     | Some d \<Rightarrow> do { CHECK (n \<le> length d); Some (take n d) }
   }"

text \<open>The copy loop of the uncompressed classes: what was copied, the room left, the rest of the input.\<close>

partial_function (option) null_copy :: "nat \<Rightarrow> byte iovector \<Rightarrow> bytes \<Rightarrow> (bytes \<times> nat \<times> byte iovector) option" where
  "null_copy available_out v out =
     (if available_out > 0 \<and> \<not> iov_empty v then do {
        front \<leftarrow> iov_front v;
        let len = min available_out (length front);
        v1 \<leftarrow> iov_drop_front len v;
        null_copy (available_out - len) v1 (out @ take len front)
      } else Some (out, available_out, v))"

definition NullDecoder_Decode :: "'c Decoder \<Rightarrow> (DecodeResult \<times> bytes \<times> 'c Decoder) option" where
  "NullDecoder_Decode d = do {
     (out, _, v) \<leftarrow> null_copy (dec_out_size d) (dec_input d) [];
     let d1 = d\<lparr>dec_input := v\<rparr>;
     Some (if iov_empty v then (if dec_finished d then Decode_Done else Decode_NeedInput) else Decode_MoreOutput, out, d1)
   }"

definition BrotliDecoder_Decode :: "'c codecs \<Rightarrow> 'c Decoder \<Rightarrow> (DecodeResult \<times> bytes \<times> 'c Decoder) option" where
  "BrotliDecoder_Decode lib d = do {
     front \<leftarrow> iov_front (dec_input d);
     ctx \<leftarrow> dec_lib d;
     let (r, bytes_consumed, out, ctx1) = BrotliDecoderDecompressStream lib ctx front (dec_out_size d);
     v \<leftarrow> iov_drop_front bytes_consumed (dec_input d);
     let d1 = d\<lparr>dec_input := v, dec_lib := Some ctx1\<rparr>;
     Some (case r of
             BROTLI_SUCCESS \<Rightarrow> if dec_finished d then Decode_Done else Decode_NeedInput
           | BROTLI_ERROR \<Rightarrow> Decode_Error
           | BROTLI_NEEDS_MORE_INPUT \<Rightarrow> Decode_NeedInput
           | BROTLI_NEEDS_MORE_OUTPUT \<Rightarrow> Decode_MoreOutput, out, d1)
   }"

text \<open>
  LZ4 and Zstd wrap their calls in the same way: an error ends the transfer, and so does the end of
  the stream with input left over.  Neither of the error exits sets the output span.
\<close>

definition stream_Decode :: "('c \<Rightarrow> bytes \<Rightarrow> nat \<Rightarrow> nat option \<times> nat \<times> bytes \<times> 'c) \<Rightarrow> 'c Decoder \<Rightarrow> (DecodeResult \<times> bytes \<times> 'c Decoder) option" where
  "stream_Decode call d = do {
     front \<leftarrow> iov_front (dec_input d);
     ctx \<leftarrow> dec_lib d;
     (case call ctx front (dec_out_size d) of
        (None, _, _, ctx1) \<Rightarrow> Some (Decode_Error, [], d\<lparr>dec_lib := Some ctx1\<rparr>)
      | (Some rc, used, out, ctx1) \<Rightarrow> do {
          v \<leftarrow> iov_drop_front used (dec_input d);
          let d1 = d\<lparr>dec_input := v, dec_lib := Some ctx1\<rparr>;
          if rc = 0 \<and> \<not> iov_empty v then Some (Decode_Error, [], d1)
          else do {
            let d2 = (if rc = 0 then d1\<lparr>dec_stream_done := True\<rparr> else d1);
            Some (if dec_finished d2 then (if iov_empty v \<and> dec_stream_done d2 then Decode_Done else Decode_MoreOutput)
                  else Decode_NeedInput, out, d2)
          }
        })
   }"

definition LZ4Decoder_Decode :: "'c codecs \<Rightarrow> 'c Decoder \<Rightarrow> (DecodeResult \<times> bytes \<times> 'c Decoder) option" where
  "LZ4Decoder_Decode lib d = stream_Decode (LZ4F_decompress lib) d"

definition ZstdDecoder_Decode :: "'c codecs \<Rightarrow> 'c Decoder \<Rightarrow> (DecodeResult \<times> bytes \<times> 'c Decoder) option" where
  "ZstdDecoder_Decode lib d = stream_Decode (ZSTD_decompressStream lib) d"

text \<open>The virtual call.\<close>

definition Decode :: "'c codecs \<Rightarrow> 'c Decoder \<Rightarrow> (DecodeResult \<times> bytes \<times> 'c Decoder) option" where
  "Decode lib d =
     (case dec_kind d of
        CompressNone \<Rightarrow> NullDecoder_Decode d
      | Brotli \<Rightarrow> BrotliDecoder_Decode lib d
      | LZ4 \<Rightarrow> LZ4Decoder_Decode lib d
      | Zstd \<Rightarrow> ZstdDecoder_Decode lib d
      | CompressAny \<Rightarrow> None)"

section \<open>Encoders\<close>

text \<open>
  An \<open>Encoder\<close> of any class.  \<open>enc_block\<close> and \<open>enc_left\<close> are the output block of the Brotli encoder and
  the room left in it; \<open>enc_output\<close> and \<open>enc_finalized\<close> the output queue of the LZ4 encoder.
\<close>

record 'c Encoder =
  enc_finished :: bool
  enc_input :: "byte iovector"
  enc_block_size :: nat
  enc_kind :: CompressionType
  enc_lib :: "'c option"
  enc_block :: "byte block"
  enc_left :: nat
  enc_output :: "byte iovector"
  enc_finalized :: bool

definition Encoder_new :: "'c codecs \<Rightarrow> (nat \<Rightarrow> byte) \<Rightarrow> CompressionType \<Rightarrow> nat \<Rightarrow> 'c Encoder option" where
  "Encoder_new lib junk kind n = do {
     let e = \<lparr>enc_finished = False, enc_input = iov_new, enc_block_size = n, enc_kind = kind, enc_lib = None,
              enc_block = block_new, enc_left = 0, enc_output = iov_new, enc_finalized = False\<rparr>;
     (case kind of
        CompressNone \<Rightarrow> Some e
      | Brotli \<Rightarrow> do {
          b \<leftarrow> block_of_size junk n;
          Some (e\<lparr>enc_lib := Some (brotli_encoder lib), enc_block := b, enc_left := n\<rparr>)
        }
      | LZ4 \<Rightarrow> do {
          ctx \<leftarrow> lz4_encoder lib;
          header \<leftarrow> lz4_header lib;
          b \<leftarrow> block_of_size junk (LZ4F_HEADER_SIZE_MAX lib);
          b1 \<leftarrow> block_store header b;
          b2 \<leftarrow> block_resize junk (length header) b1;
          Some (e\<lparr>enc_lib := Some ctx, enc_output := fst (iov_append b2 iov_new)\<rparr>)
        }
      | Zstd \<Rightarrow> do { ctx \<leftarrow> zstd_encoder lib; Some (e\<lparr>enc_lib := Some ctx\<rparr>) }
      | CompressAny \<Rightarrow> None)
   }"

definition Encoder_Append :: "byte block \<Rightarrow> 'c Encoder \<Rightarrow> 'c Encoder" where
  "Encoder_Append b e = e\<lparr>enc_input := fst (iov_append b (enc_input e))\<rparr>"

definition Encoder_Finish :: "'c Encoder \<Rightarrow> 'c Encoder option" where
  "Encoder_Finish e = do { CHECK (\<not> enc_finished e); Some (e\<lparr>enc_finished := True\<rparr>) }"

text \<open>Each \<open>Encode\<close> gets the block of its caller and answers the result, that block and the encoder.\<close>

definition NullEncoder_Encode :: "(nat \<Rightarrow> byte) \<Rightarrow> byte block \<Rightarrow> 'c Encoder \<Rightarrow> (EncodeResult \<times> byte block \<times> 'c Encoder) option" where
  "NullEncoder_Encode junk output e = do {
     b \<leftarrow> block_resize junk (enc_block_size e) (block_clear output);
     (out, available_out, v) \<leftarrow> null_copy (blk_size b) (enc_input e) [];
     b1 \<leftarrow> block_store out b;
     b2 \<leftarrow> block_resize junk (size_sub (blk_size b1) available_out) b1;
     let e1 = e\<lparr>enc_input := v\<rparr>;
     Some (if iov_empty v then (if enc_finished e then Encode_Done else Encode_NeedInput) else Encode_MoreOutput, b2, e1)
   }"

text \<open>\<open>store_at\<close>: what the library writes to \<open>data() + offset\<close>.\<close>

definition store_at :: "nat \<Rightarrow> bytes \<Rightarrow> byte block \<Rightarrow> byte block option" where
  "store_at off out b =
     (case blk_data b of
        None \<Rightarrow> if out = [] then Some b else None
      | Some d \<Rightarrow> do { d1 \<leftarrow> memcpy d off out 0 (length out); Some (b\<lparr>blk_data := Some d1\<rparr>) })"

partial_function (option) BrotliEncoder_Encode ::
    "'c codecs \<Rightarrow> (nat \<Rightarrow> byte) \<Rightarrow> byte block \<Rightarrow> 'c Encoder \<Rightarrow> (EncodeResult \<times> byte block \<times> 'c Encoder) option" where
  "BrotliEncoder_Encode lib junk output e = do {
     front \<leftarrow> iov_front (enc_input e);
     ctx \<leftarrow> enc_lib e;
     let (ok, used, out, ctx1) = BrotliEncoderCompressStream lib ctx (enc_finished e) front (enc_left e);
     blk \<leftarrow> store_at (size_sub (enc_block_size e) (enc_left e)) out (enc_block e);
     if \<not> ok then Some (Encode_Error, block_clear output, e\<lparr>enc_block := blk, enc_lib := Some ctx1\<rparr>)
     else do {
       v \<leftarrow> iov_drop_front used (enc_input e);
       let left = size_sub (enc_left e) (length out);
       let e1 = e\<lparr>enc_input := v, enc_lib := Some ctx1, enc_block := blk, enc_left := left\<rparr>;
       if BrotliEncoderIsFinished lib ctx1 then do {
         blk1 \<leftarrow> block_resize junk (size_sub (enc_block_size e) left) blk;
         let (output1, blk2) = block_move_assign (block_clear output) blk1;
         Some (Encode_Done, output1, e1\<lparr>enc_block := blk2\<rparr>)
       } else if left = 0 then do {
         let (output1, blk1) = block_move_assign (block_clear output) blk;
         blk2 \<leftarrow> block_resize junk (enc_block_size e) blk1;
         Some (Encode_MoreOutput, output1, e1\<lparr>enc_block := blk2, enc_left := enc_block_size e\<rparr>)
       } else if iov_empty v then Some (Encode_NeedInput, block_clear output, e1)
       else BrotliEncoder_Encode lib junk output e1
     }
   }"

definition OutputReady :: "'c Encoder \<Rightarrow> bool" where
  "OutputReady e \<longleftrightarrow> iov_size (enc_output e) \<ge> enc_block_size e \<or> enc_finalized e"

definition lz4_max_input_size :: nat where
  "lz4_max_input_size = 65536"

text \<open>The two halves of \<open>LZ4Encoder::Encode\<close> that fill the output queue; \<^const>\<open>None\<close> inside is an error exit.\<close>

definition lz4_update :: "'c codecs \<Rightarrow> (nat \<Rightarrow> byte) \<Rightarrow> 'c Encoder \<Rightarrow> ('c Encoder \<times> bool) option" where
  "lz4_update lib junk e = do {
     front \<leftarrow> iov_front (enc_input e);
     if length front \<noteq> 0 then
       if enc_finalized e then Some (e, False)
       else do {
         let input = take lz4_max_input_size front;
         let size = LZ4F_compressBound lib lz4_max_input_size;
         ctx \<leftarrow> enc_lib e;
         (case LZ4F_compressUpdate lib ctx size input of
            (None, ctx1) \<Rightarrow> Some (e\<lparr>enc_lib := Some ctx1\<rparr>, False)
          | (Some out, ctx1) \<Rightarrow> do {
              b \<leftarrow> block_of_size junk size;
              b1 \<leftarrow> block_store out b;
              v \<leftarrow> iov_drop_front (length input) (enc_input e);
              b2 \<leftarrow> block_resize junk (length out) b1;
              Some (e\<lparr>enc_lib := Some ctx1, enc_input := v, enc_output := fst (iov_append b2 (enc_output e))\<rparr>, True)
            })
       }
     else Some (e, True)
   }"

definition lz4_finalize :: "'c codecs \<Rightarrow> (nat \<Rightarrow> byte) \<Rightarrow> 'c Encoder \<Rightarrow> ('c Encoder \<times> bool) option" where
  "lz4_finalize lib junk e =
     (if enc_finished e \<and> \<not> enc_finalized e then do {
        let e1 = e\<lparr>enc_finalized := True\<rparr>;
        let size = LZ4F_compressBound lib lz4_max_input_size + 4;
        ctx \<leftarrow> enc_lib e;
        (case LZ4F_compressEnd lib ctx size of
           (None, ctx1) \<Rightarrow> Some (e1\<lparr>enc_lib := Some ctx1\<rparr>, False)
         | (Some out, ctx1) \<Rightarrow> do {
             b \<leftarrow> block_of_size junk size;
             b1 \<leftarrow> block_store out b;
             b2 \<leftarrow> block_resize junk (length out) b1;
             Some (e1\<lparr>enc_lib := Some ctx1, enc_output := fst (iov_append b2 (enc_output e1))\<rparr>, True)
           })
      } else Some (e, True))"

definition LZ4Encoder_Encode :: "'c codecs \<Rightarrow> (nat \<Rightarrow> byte) \<Rightarrow> byte block \<Rightarrow> 'c Encoder \<Rightarrow> (EncodeResult \<times> byte block \<times> 'c Encoder) option" where
  "LZ4Encoder_Encode lib junk output e = do {
     (e1, ok1) \<leftarrow> lz4_update lib junk e;
     if \<not> ok1 then Some (Encode_Error, output, e1)
     else do {
       (e2, ok2) \<leftarrow> lz4_finalize lib junk e1;
       if \<not> ok2 then Some (Encode_Error, output, e2)
       else do {
         (output1, e3) \<leftarrow>
           (if OutputReady e2 then do {
              (rest, res) \<leftarrow> iov_take_front junk (min (enc_block_size e2) (iov_size (enc_output e2))) (enc_output e2);
              (b, _) \<leftarrow> iov_coalesce_move junk res;
              Some (fst (block_move_assign output b), e2\<lparr>enc_output := rest\<rparr>)
            } else Some (block_clear output, e2));
         Some (if enc_finalized e3 \<and> iov_empty (enc_output e3) then Encode_Done
               else if OutputReady e3 then Encode_MoreOutput else Encode_NeedInput, output1, e3)
       }
     }
   }"

definition ZstdEncoder_Encode :: "'c codecs \<Rightarrow> (nat \<Rightarrow> byte) \<Rightarrow> byte block \<Rightarrow> 'c Encoder \<Rightarrow> (EncodeResult \<times> byte block \<times> 'c Encoder) option" where
  "ZstdEncoder_Encode lib junk output e = do {
     front \<leftarrow> iov_front (enc_input e);
     b \<leftarrow> block_resize junk (enc_block_size e) output;
     ctx \<leftarrow> enc_lib e;
     (case ZSTD_compressStream2 lib ctx (enc_finished e) front (blk_size b) of
        (None, _, out, ctx1) \<Rightarrow> do { b1 \<leftarrow> block_store out b; Some (Encode_Error, b1, e\<lparr>enc_lib := Some ctx1\<rparr>) }
      | (Some rc, used, out, ctx1) \<Rightarrow> do {
          b1 \<leftarrow> block_store out b;
          v \<leftarrow> iov_drop_front used (enc_input e);
          b2 \<leftarrow> block_resize junk (length out) b1;
          Some (if rc = 0 then
                  if enc_finished e then (if \<not> iov_empty v then Encode_Error else Encode_Done)
                  else if iov_empty v then Encode_NeedInput else Encode_MoreOutput
                else Encode_MoreOutput, b2, e\<lparr>enc_input := v, enc_lib := Some ctx1\<rparr>)
        })
   }"

definition Encode :: "'c codecs \<Rightarrow> (nat \<Rightarrow> byte) \<Rightarrow> byte block \<Rightarrow> 'c Encoder \<Rightarrow> (EncodeResult \<times> byte block \<times> 'c Encoder) option" where
  "Encode lib junk output e =
     (case enc_kind e of
        CompressNone \<Rightarrow> NullEncoder_Encode junk output e
      | Brotli \<Rightarrow> BrotliEncoder_Encode lib junk output e
      | LZ4 \<Rightarrow> LZ4Encoder_Encode lib junk output e
      | Zstd \<Rightarrow> ZstdEncoder_Encode lib junk output e
      | CompressAny \<Rightarrow> None)"

section \<open>The input queue\<close>

text \<open>A vector without live blocks has no blocks at all, so that \<open>front_size\<close> may be asked of it.\<close>

definition fifo_ok :: "byte iovector \<Rightarrow> bool" where
  "fifo_ok v \<longleftrightarrow> iov_wf v \<and> (iov_live v = [] \<longrightarrow> chain v = [])"

lemma fifo_ok_new [simp]: "fifo_ok iov_new"
  by (simp add: fifo_ok_def iov_new_def iov_wf_def iov_live_def)

lemma fifo_ok_wf: "fifo_ok v \<Longrightarrow> iov_wf v"
  by (simp add: fifo_ok_def)

lemma fifo_ok_bytes: "iov_wf v \<Longrightarrow> iov_bytes v \<noteq> [] \<Longrightarrow> fifo_ok v"
  using iov_live_empty_iff [of v] by (simp add: fifo_ok_def)

lemma iov_empty_bytes: "iov_wf v \<Longrightarrow> iov_empty v \<longleftrightarrow> iov_bytes v = []"
  by (simp add: iov_empty_def iov_size_bytes)

lemma iov_append_queue:
  assumes "fifo_ok v" and "block_wf b"
  shows "fifo_ok (fst (iov_append b v))" and "iov_bytes (fst (iov_append b v)) = iov_bytes v @ block_bytes b"
proof -
  have a: "iov_wf (fst (iov_append b v))" "iov_bytes (fst (iov_append b v)) = iov_bytes v @ block_bytes b"
    using iov_append_wf [of v b] assms by (simp_all add: fifo_ok_def)
  show "iov_bytes (fst (iov_append b v)) = iov_bytes v @ block_bytes b" by (rule a)
  show "fifo_ok (fst (iov_append b v))"
  proof (cases "blk_size b = 0")
    case True
    then show ?thesis using assms by (simp add: iov_append_def)
  next
    case False
    then have "block_bytes b \<noteq> []" using length_block_bytes [OF assms(2)] by auto
    then show ?thesis using a fifo_ok_bytes by simp
  qed
qed

lemma iov_drop_queue:
  assumes "fifo_ok v" and "n \<le> length (iov_bytes v)" and "n < 2 ^ 32"
  shows "\<exists>v'. iov_drop_front n v = Some v' \<and> fifo_ok v' \<and> iov_bytes v' = drop n (iov_bytes v)"
proof -
  obtain v' where v': "iov_drop_front n v = Some v'" "iov_wf v'" "iov_bytes v' = drop n (iov_bytes v)"
    using iov_drop_front_ok [of v n] assms fifo_ok_wf by auto
  consider "n = 0" | "n = iov_size v" "n \<noteq> 0" | "n < length (iov_bytes v)"
    using assms iov_size_bytes [OF fifo_ok_wf [OF assms(1)]] by linarith
  then have "fifo_ok v'"
  proof cases
    case 1
    then show ?thesis using v'(1) assms(1) by (simp add: iov_drop_front_def)
  next
    case 2
    then show ?thesis using v'(1) by (auto simp: iov_drop_front_def iov_clear_eq)
  next
    case 3
    then show ?thesis using v' fifo_ok_bytes by simp
  qed
  with v' show ?thesis by blast
qed

text \<open>The front is a non-empty prefix of the bytes that are there.\<close>

lemma iov_front_ok:
  assumes "fifo_ok v"
  shows "\<exists>n. iov_front v = Some (take n (iov_bytes v)) \<and> n \<le> length (iov_bytes v) \<and> (iov_bytes v \<noteq> [] \<longrightarrow> 0 < n)"
proof (cases "iov_live v")
  case Nil
  then have "chain v = []" "iov_bytes v = []" using assms by (simp_all add: fifo_ok_def iov_bytes_def)
  then show ?thesis by (intro exI [of _ 0]) (simp add: iov_front_def iov_front_size_def iov_front_data_def)
next
  case (Cons b bs)
  note wf = fifo_ok_wf [OF assms]
  note l = iov_liveE [OF wf Cons]
  obtain d where d: "blk_data b = Some d" "length d = blk_capacity b" using block_wf_data [OF l(4)] l(5) by auto
  have cap: "blk_size b \<le> blk_capacity b" using l(4) d by (simp add: block_wf_def)
  have "chain v \<noteq> []" using l(1) by auto
  then have "iov_front v = Some (take (blk_size b - begin_offset v) (drop (begin_offset v) d))"
    using l(1,2,5) d cap by (simp add: iov_front_def iov_front_size_def iov_front_data_def)
  also have "take (blk_size b - begin_offset v) (drop (begin_offset v) d) = drop (begin_offset v) (block_bytes b)"
    using d by (simp add: block_bytes_def drop_take)
  also have "\<dots> = take (blk_size b - begin_offset v) (iov_bytes v)"
    using l(4,5) by (simp add: iov_bytes_Cons [OF wf Cons])
  finally show ?thesis
    using l(4,5) by (intro exI [of _ "blk_size b - begin_offset v"]) (simp add: iov_bytes_Cons [OF wf Cons])
qed

section \<open>The uncompressed classes\<close>

lemma null_copy_ok:
  assumes "fifo_ok v" and "room < 2 ^ 32"
  shows "\<exists>v'. null_copy room v out = Some (out @ take room (iov_bytes v), room - length (iov_bytes v), v') \<and>
     fifo_ok v' \<and> iov_bytes v' = drop room (iov_bytes v)"
  using assms
proof (induction "length (iov_bytes v)" arbitrary: v room out rule: less_induct)
  case less
  show ?case
  proof (cases "room > 0 \<and> \<not> iov_empty v")
    case False
    then have "room = 0 \<or> iov_bytes v = []" using iov_empty_bytes [OF fifo_ok_wf [OF less.prems(1)]] by auto
    then show ?thesis using False less.prems(1) by (subst null_copy.simps) auto
  next
    case True
    then have ne: "iov_bytes v \<noteq> []" using iov_empty_bytes [OF fifo_ok_wf [OF less.prems(1)]] by auto
    obtain n where n: "iov_front v = Some (take n (iov_bytes v))" "n \<le> length (iov_bytes v)" "0 < n"
      using iov_front_ok [OF less.prems(1)] ne by auto
    define len where "len = min room n"
    have ll: "len \<le> length (iov_bytes v)" "len < 2 ^ 32" "room - len < 2 ^ 32" using n(2) less.prems(2) unfolding len_def by linarith+
    obtain v1 where v1: "iov_drop_front len v = Some v1" "fifo_ok v1" "iov_bytes v1 = drop len (iov_bytes v)"
      using iov_drop_queue [OF less.prems(1) ll(1,2)] by blast
    have sh: "length (iov_bytes v1) < length (iov_bytes v)" using v1(3) n ne True by (simp add: len_def)
    obtain v2 where v2: "null_copy (room - len) v1 (out @ take len (iov_bytes v)) =
        Some ((out @ take len (iov_bytes v)) @ take (room - len) (iov_bytes v1), room - len - length (iov_bytes v1), v2)"
      "fifo_ok v2" "iov_bytes v2 = drop (room - len) (iov_bytes v1)"
      using less.hyps [OF sh v1(2) ll(3)] by blast
    have ln: "min room (length (take n (iov_bytes v))) = len" "take len (take n (iov_bytes v)) = take len (iov_bytes v)" "len \<le> room" "len \<le> length (iov_bytes v)"
      using n(2) by (simp_all add: len_def min_def)
    have tk: "take len (iov_bytes v) @ take (room - len) (drop len (iov_bytes v)) = take room (iov_bytes v)"
      using ln(3) by (metis add_diff_inverse_nat linorder_not_le take_add)
    have "null_copy room v out = Some (out @ take room (iov_bytes v), room - length (iov_bytes v), v2)"
      using True n(1) v1(1,3) v2(1) ln tk by (subst null_copy.simps) simp
    moreover have "iov_bytes v2 = drop room (iov_bytes v)" using v2(3) v1(3) ln(3) by simp
    ultimately show ?thesis using v2(2) by blast
  qed
qed

definition decoder_ok :: "'c Decoder \<Rightarrow> bool" where
  "decoder_ok d \<longleftrightarrow> fifo_ok (dec_input d) \<and> dec_out_size d < 2 ^ 32 \<and> dec_kind d \<noteq> CompressAny \<and>
     (dec_kind d \<noteq> CompressNone \<longrightarrow> dec_lib d \<noteq> None)"

lemma NullDecoder_Decode_ok:
  assumes "fifo_ok (dec_input d)" and "dec_out_size d < 2 ^ 32"
  shows "\<exists>v. NullDecoder_Decode d = Some (if iov_bytes v = [] then (if dec_finished d then Decode_Done else Decode_NeedInput) else Decode_MoreOutput,
       take (dec_out_size d) (iov_bytes (dec_input d)), d\<lparr>dec_input := v\<rparr>) \<and>
     fifo_ok v \<and> iov_bytes v = drop (dec_out_size d) (iov_bytes (dec_input d))"
proof -
  obtain v where v: "null_copy (dec_out_size d) (dec_input d) [] =
      Some ([] @ take (dec_out_size d) (iov_bytes (dec_input d)), dec_out_size d - length (iov_bytes (dec_input d)), v)"
    "fifo_ok v" "iov_bytes v = drop (dec_out_size d) (iov_bytes (dec_input d))"
    using null_copy_ok [OF assms] by blast
  then show ?thesis
    using iov_empty_bytes [OF fifo_ok_wf [OF v(2)]] by (intro exI [of _ v]) (simp add: NullDecoder_Decode_def Let_def)
qed

lemma block_store_ok:
  assumes "blk_data b = Some d" and "length xs \<le> length d"
  shows "block_store xs b = Some (b\<lparr>blk_data := Some (xs @ drop (length xs) d)\<rparr>)"
  using assms by (simp add: block_store_def)

lemma NullEncoder_Encode_ok:
  assumes "fifo_ok (enc_input e)" and "0 < enc_block_size e" and "enc_block_size e < 2 ^ 32"
  shows "\<exists>v b. NullEncoder_Encode junk output e = Some (if iov_bytes v = [] then (if enc_finished e then Encode_Done else Encode_NeedInput) else Encode_MoreOutput,
       b, e\<lparr>enc_input := v\<rparr>) \<and> fifo_ok v \<and> iov_bytes v = drop (enc_block_size e) (iov_bytes (enc_input e)) \<and>
     block_wf b \<and> block_bytes b = take (enc_block_size e) (iov_bytes (enc_input e))"
proof -
  let ?n = "enc_block_size e" and ?in = "iov_bytes (enc_input e)"
  obtain v where v: "null_copy ?n (enc_input e) [] = Some ([] @ take ?n ?in, ?n - length ?in, v)" "fifo_ok v" "iov_bytes v = drop ?n ?in"
    using null_copy_ok [OF assms(1,3)] by blast
  define mem where "mem = map junk [0..<?n]"
  define b where "b = block_new\<lparr>blk_data := Some mem, blk_capacity := ?n, blk_size := ?n\<rparr>"
  have r: "block_resize junk ?n (block_clear output) = Some b"
    using assms(2) by (simp add: block_resize_def block_new_def block_allocate_def b_def mem_def)
  define d where "d = take ?n ?in @ drop (length (take ?n ?in)) mem"
  have st: "block_store (take ?n ?in) b = Some (b\<lparr>blk_data := Some d\<rparr>)"
    unfolding d_def by (rule block_store_ok) (simp_all add: b_def mem_def)
  define b2 where "b2 = b\<lparr>blk_data := Some d, blk_size := ?n - (?n - length ?in)\<rparr>"
  have sz: "blk_size (b\<lparr>blk_data := Some d\<rparr>) = ?n" "blk_size b = ?n" by (simp_all add: b_def)
  have rs: "block_resize junk (size_sub ?n (?n - length ?in)) (b\<lparr>blk_data := Some d\<rparr>) = Some b2"
    by (simp add: block_resize_def b_def b2_def)
  have ld: "length d = ?n" by (simp add: d_def mem_def)
  have "block_wf b2" using ld assms(2) by (simp add: b2_def b_def block_wf_def)
  moreover have "block_bytes b2 = take ?n ?in" by (cases "?n \<le> length ?in") (simp_all add: block_bytes_def b2_def b_def d_def)
  moreover have "NullEncoder_Encode junk output e = Some (if iov_bytes v = [] then (if enc_finished e then Encode_Done else Encode_NeedInput) else Encode_MoreOutput,
       b2, e\<lparr>enc_input := v\<rparr>)"
    using iov_empty_bytes [OF fifo_ok_wf [OF v(2)]]
    unfolding NullEncoder_Encode_def r Option.bind.simps sz v(1) append_Nil prod.case st rs Let_def by simp
  ultimately show ?thesis using v by blast
qed

section \<open>Decoders and their libraries\<close>

text \<open>
  What the decoders rely on: a call uses no more input than it is given and writes no more output than
  there is room.
\<close>

definition decoders_ok :: "'c codecs \<Rightarrow> bool" where
  "decoders_ok lib \<longleftrightarrow>
     (\<forall>ctx i n r used out ctx'. BrotliDecoderDecompressStream lib ctx i n = (r, used, out, ctx') \<longrightarrow> used \<le> length i \<and> length out \<le> n) \<and>
     (\<forall>ctx i n r used out ctx'. LZ4F_decompress lib ctx i n = (r, used, out, ctx') \<longrightarrow> used \<le> length i \<and> length out \<le> n) \<and>
     (\<forall>ctx i n r used out ctx'. ZSTD_decompressStream lib ctx i n = (r, used, out, ctx') \<longrightarrow> used \<le> length i \<and> length out \<le> n)"

definition decoded :: "'c Decoder \<Rightarrow> (DecodeResult \<times> bytes \<times> 'c Decoder) option \<Rightarrow> bool" where
  "decoded d r \<longleftrightarrow> (\<exists>res out d' n. r = Some (res, out, d') \<and> length out \<le> dec_out_size d \<and> decoder_ok d' \<and>
     iov_bytes (dec_input d') = drop n (iov_bytes (dec_input d)) \<and> dec_finished d' = dec_finished d \<and>
     dec_kind d' = dec_kind d \<and> dec_out_size d' = dec_out_size d \<and> (res = Decode_Done \<longrightarrow> dec_finished d))"

text \<open>A library call on the front of the queue can only use what fits the 32-bit counter of \<open>drop_front\<close>.\<close>

lemma stream_Decode_ok:
  assumes "decoder_ok d" and "dec_lib d \<noteq> None" and "length (iov_bytes (dec_input d)) < 2 ^ 32"
    and "\<And>ctx i n r used out ctx'. call ctx i n = (r, used, out, ctx') \<Longrightarrow> used \<le> length i \<and> length out \<le> n"
  shows "decoded d (stream_Decode call d)"
proof -
  have q: "fifo_ok (dec_input d)" using assms(1) by (simp add: decoder_ok_def)
  obtain n where n: "iov_front (dec_input d) = Some (take n (iov_bytes (dec_input d)))" "n \<le> length (iov_bytes (dec_input d))"
    using iov_front_ok [OF q] by blast
  obtain ctx where ctx: "dec_lib d = Some ctx" using assms(2) by blast
  obtain r used out ctx1 where c: "call ctx (take n (iov_bytes (dec_input d))) (dec_out_size d) = (r, used, out, ctx1)" by (metis prod_cases4)
  have u: "used \<le> n" "length out \<le> dec_out_size d" using assms(4) [OF c] n(2) by simp_all
  have "used \<le> length (iov_bytes (dec_input d))" "used < 2 ^ 32" using u(1) n(2) assms(3) by simp_all
  then obtain v where v: "iov_drop_front used (dec_input d) = Some v" "fifo_ok v" "iov_bytes v = drop used (iov_bytes (dec_input d))"
    using iov_drop_queue [OF q] by blast
  show ?thesis
  proof (cases r)
    case None
    then have "stream_Decode call d = Some (Decode_Error, [], d\<lparr>dec_lib := Some ctx1\<rparr>)"
      using n(1) ctx c by (simp add: stream_Decode_def)
    then show ?thesis using assms(1) by (auto simp: decoded_def decoder_ok_def intro: exI [of _ 0])
  next
    case (Some rc)
    have e: "stream_Decode call d =
       (let d1 = d\<lparr>dec_input := v, dec_lib := Some ctx1\<rparr>; d2 = (if rc = 0 then d1\<lparr>dec_stream_done := True\<rparr> else d1)
        in if rc = 0 \<and> \<not> iov_empty v then Some (Decode_Error, [], d1)
           else Some (if dec_finished d2 then (if iov_empty v \<and> dec_stream_done d2 then Decode_Done else Decode_MoreOutput) else Decode_NeedInput, out, d2))"
      unfolding stream_Decode_def n(1) ctx Option.bind.simps c Some prod.case option.case v(1) Let_def by simp
    show ?thesis unfolding e Let_def decoded_def
      using assms(1) u(2) v by (auto simp: decoder_ok_def intro!: exI [of _ used])
  qed
qed

lemma BrotliDecoder_Decode_ok:
  assumes "decoder_ok d" and "dec_lib d \<noteq> None" and "length (iov_bytes (dec_input d)) < 2 ^ 32" and "decoders_ok lib"
  shows "decoded d (BrotliDecoder_Decode lib d)"
proof -
  have q: "fifo_ok (dec_input d)" using assms(1) by (simp add: decoder_ok_def)
  obtain n where n: "iov_front (dec_input d) = Some (take n (iov_bytes (dec_input d)))" "n \<le> length (iov_bytes (dec_input d))"
    using iov_front_ok [OF q] by blast
  obtain ctx where ctx: "dec_lib d = Some ctx" using assms(2) by blast
  obtain r used out ctx1 where c: "BrotliDecoderDecompressStream lib ctx (take n (iov_bytes (dec_input d))) (dec_out_size d) = (r, used, out, ctx1)"
    by (metis prod_cases4)
  have "used \<le> length (take n (iov_bytes (dec_input d))) \<and> length out \<le> dec_out_size d" by (rule assms(4) [unfolded decoders_ok_def, THEN conjunct1, rule_format, OF c])
  then have u: "used \<le> n" "length out \<le> dec_out_size d" by simp_all
  have "used \<le> length (iov_bytes (dec_input d))" "used < 2 ^ 32" using u(1) n(2) assms(3) by simp_all
  then obtain v where v: "iov_drop_front used (dec_input d) = Some v" "fifo_ok v" "iov_bytes v = drop used (iov_bytes (dec_input d))"
    using iov_drop_queue [OF q] by blast
  show ?thesis
    unfolding BrotliDecoder_Decode_def n(1) ctx Option.bind.simps c Let_def prod.case v(1) decoded_def
    using assms(1) u(2) v by (cases r) (auto simp: decoder_ok_def intro!: exI [of _ used])
qed


text \<open>Libraries whose compressed form is the data itself.\<close>

definition copy_codecs :: "unit codecs" where
  "copy_codecs =
     \<lparr>brotli_decoder = (), BrotliDecoderDecompressStream = \<lambda>c i n. (BROTLI_NEEDS_MORE_INPUT, min n (length i), take n i, c),
      brotli_encoder = (), BrotliEncoderCompressStream = \<lambda>c last i n. (True, min n (length i), take n i, c), BrotliEncoderIsFinished = \<lambda>c. True,
      lz4_decoder = Some (), LZ4F_decompress = \<lambda>c i n. (Some 1, min n (length i), take n i, c), lz4_encoder = Some (),
      LZ4F_HEADER_SIZE_MAX = 19, lz4_header = Some [], LZ4F_compressBound = \<lambda>n. n, LZ4F_compressUpdate = \<lambda>c n i. (Some i, c), LZ4F_compressEnd = \<lambda>c n. (Some [], c),
      zstd_decoder = Some (), ZSTD_decompressStream = \<lambda>c i n. (Some 1, min n (length i), take n i, c),
      zstd_encoder = Some (), ZSTD_compressStream2 = \<lambda>c last i n. (Some 0, min n (length i), take n i, c)\<rparr>"

definition abc_block :: "byte block" where
  "abc_block = \<lparr>blk_data = Some ''abc'', blk_capacity = 3, blk_size = 3, blk_position = 0\<rparr>"


text \<open>
  After \<open>ID_DONE\<close>, a decoder whose stream is incomplete and whose library needs more input reports that
  there is more output, without output and without changing: the loop around it does not end.
\<close>

lemma stream_Decode_spins:
  assumes "dec_finished d" and "\<not> dec_stream_done d" and "chain (dec_input d) = []" and "dec_lib d = Some ctx"
    and "call ctx [] (dec_out_size d) = (Some (Suc k), 0, [], ctx)"
  shows "stream_Decode call d = Some (Decode_MoreOutput, [], d)"
  using assms by (simp add: stream_Decode_def iov_front_def iov_front_size_def iov_front_data_def iov_drop_front_def)

end
