(* ===== verification/Adb_Sync_Protocol.thy ===== *)
theory Adb_Sync_Protocol
  imports Adb_Utils Adb_Compression
begin

text \<open>
  The messages of the file synchronisation protocol (\<open>file_sync_protocol.h\<close>), the error numbers on the wire
  (\<open>sysdeps/errno.cpp\<close>), and what both ends of the protocol ask of the file system.

  A message is a packed struct: its bytes are the little-endian fields in order.  Each struct has a
  writer and a reader that are inverse to each other.
\<close>

unbundle bit_operations_syntax

section \<open>Message identifiers\<close>

definition MKID :: "char \<Rightarrow> char \<Rightarrow> char \<Rightarrow> char \<Rightarrow> u32" where
  "MKID a b c d = of_char a OR push_bit 8 (of_char b) OR push_bit 16 (of_char c) OR push_bit 24 (of_char d)"

definition ID_LSTAT_V1 :: u32 where "ID_LSTAT_V1 = MKID CHR ''S'' CHR ''T'' CHR ''A'' CHR ''T''"
definition ID_STAT_V2 :: u32 where "ID_STAT_V2 = MKID CHR ''S'' CHR ''T'' CHR ''A'' CHR ''2''"
definition ID_LSTAT_V2 :: u32 where "ID_LSTAT_V2 = MKID CHR ''L'' CHR ''S'' CHR ''T'' CHR ''2''"
definition ID_LIST_V1 :: u32 where "ID_LIST_V1 = MKID CHR ''L'' CHR ''I'' CHR ''S'' CHR ''T''"
definition ID_LIST_V2 :: u32 where "ID_LIST_V2 = MKID CHR ''L'' CHR ''I'' CHR ''S'' CHR ''2''"
definition ID_DENT_V1 :: u32 where "ID_DENT_V1 = MKID CHR ''D'' CHR ''E'' CHR ''N'' CHR ''T''"
definition ID_DENT_V2 :: u32 where "ID_DENT_V2 = MKID CHR ''D'' CHR ''N'' CHR ''T'' CHR ''2''"
definition ID_SEND_V1 :: u32 where "ID_SEND_V1 = MKID CHR ''S'' CHR ''E'' CHR ''N'' CHR ''D''"
definition ID_SEND_V2 :: u32 where "ID_SEND_V2 = MKID CHR ''S'' CHR ''N'' CHR ''D'' CHR ''2''"
definition ID_RECV_V1 :: u32 where "ID_RECV_V1 = MKID CHR ''R'' CHR ''E'' CHR ''C'' CHR ''V''"
definition ID_RECV_V2 :: u32 where "ID_RECV_V2 = MKID CHR ''R'' CHR ''C'' CHR ''V'' CHR ''2''"
definition ID_DONE :: u32 where "ID_DONE = MKID CHR ''D'' CHR ''O'' CHR ''N'' CHR ''E''"
definition ID_DATA :: u32 where "ID_DATA = MKID CHR ''D'' CHR ''A'' CHR ''T'' CHR ''A''"
definition ID_OKAY :: u32 where "ID_OKAY = MKID CHR ''O'' CHR ''K'' CHR ''A'' CHR ''Y''"
definition ID_FAIL :: u32 where "ID_FAIL = MKID CHR ''F'' CHR ''A'' CHR ''I'' CHR ''L''"
definition ID_QUIT :: u32 where "ID_QUIT = MKID CHR ''Q'' CHR ''U'' CHR ''I'' CHR ''T''"

definition SYNC_DATA_MAX :: nat where
  "SYNC_DATA_MAX = 64 * 1024"

text \<open>\<open>SyncFlag\<close>.\<close>

definition kSyncFlagBrotli :: u32 where "kSyncFlagBrotli = 1"
definition kSyncFlagLZ4 :: u32 where "kSyncFlagLZ4 = 2"
definition kSyncFlagZstd :: u32 where "kSyncFlagZstd = 4"
definition kSyncFlagDryRun :: u32 where "kSyncFlagDryRun = 0x80000000"

section \<open>Structs\<close>

text \<open>The attributes of a file, \<open>struct stat\<close>.\<close>

record stat =
  st_dev :: u64
  st_ino :: u64
  st_mode :: u32
  st_nlink :: u32
  st_uid :: u32
  st_gid :: u32
  st_size :: u64
  st_atime :: u64
  st_mtime :: u64
  st_ctime :: u64

definition no_stat :: stat where
  "no_stat = \<lparr>st_dev = 0, st_ino = 0, st_mode = 0, st_nlink = 0, st_uid = 0, st_gid = 0, st_size = 0, st_atime = 0, st_mtime = 0, st_ctime = 0\<rparr>"

text \<open>\<open>SyncRequest\<close>, \<open>sync_data\<close> and \<open>sync_status\<close> have the same shape: an id and a number.\<close>

definition sync_pair :: "u32 \<Rightarrow> u32 \<Rightarrow> bytes" where
  "sync_pair i n = le32 i @ le32 n"

definition get_pair :: "bytes \<Rightarrow> u32 \<times> u32" where
  "get_pair bs = (get_le32 bs, get_le32 (drop 4 bs))"

definition send_v2_setup :: "u32 \<Rightarrow> u32 \<Rightarrow> bytes" where
  "send_v2_setup mode flags = le32 ID_SEND_V2 @ le32 mode @ le32 flags"

definition recv_v2_setup :: "u32 \<Rightarrow> bytes" where
  "recv_v2_setup flags = le32 ID_RECV_V2 @ le32 flags"

record sync_stat_v1 =
  s1_id :: u32
  s1_mode :: u32
  s1_size :: u32
  s1_mtime :: u32

definition stat_v1_bytes :: "sync_stat_v1 \<Rightarrow> bytes" where
  "stat_v1_bytes m = le32 (s1_id m) @ le32 (s1_mode m) @ le32 (s1_size m) @ le32 (s1_mtime m)"

definition get_stat_v1 :: "bytes \<Rightarrow> sync_stat_v1" where
  "get_stat_v1 bs = \<lparr>s1_id = get_le32 bs, s1_mode = get_le32 (drop 4 bs), s1_size = get_le32 (drop 8 bs), s1_mtime = get_le32 (drop 12 bs)\<rparr>"

text \<open>\<open>sync_stat_v2\<close>: the id, the error and all the attributes.  \<open>sync_dent_v2\<close> starts in the same way.\<close>

record sync_stat_v2 =
  s2_id :: u32
  s2_error :: u32
  s2_stat :: stat

definition stat_v2_bytes :: "sync_stat_v2 \<Rightarrow> bytes" where
  "stat_v2_bytes m =
     (let st = s2_stat m
      in le32 (s2_id m) @ le32 (s2_error m) @ le64 (st_dev st) @ le64 (st_ino st) @ le32 (st_mode st) @ le32 (st_nlink st) @
         le32 (st_uid st) @ le32 (st_gid st) @ le64 (st_size st) @ le64 (st_atime st) @ le64 (st_mtime st) @ le64 (st_ctime st))"

definition get_stat_v2 :: "bytes \<Rightarrow> sync_stat_v2" where
  "get_stat_v2 bs =
     \<lparr>s2_id = get_le32 bs, s2_error = get_le32 (drop 4 bs),
      s2_stat = \<lparr>st_dev = get_le64 (drop 8 bs), st_ino = get_le64 (drop 16 bs), st_mode = get_le32 (drop 24 bs),
        st_nlink = get_le32 (drop 28 bs), st_uid = get_le32 (drop 32 bs), st_gid = get_le32 (drop 36 bs),
        st_size = get_le64 (drop 40 bs), st_atime = get_le64 (drop 48 bs), st_mtime = get_le64 (drop 56 bs), st_ctime = get_le64 (drop 64 bs)\<rparr>\<rparr>"

record sync_dent_v1 =
  d1_stat :: sync_stat_v1
  d1_namelen :: u32

definition dent_v1_bytes :: "sync_dent_v1 \<Rightarrow> bytes" where
  "dent_v1_bytes m = stat_v1_bytes (d1_stat m) @ le32 (d1_namelen m)"

definition get_dent_v1 :: "bytes \<Rightarrow> sync_dent_v1" where
  "get_dent_v1 bs = \<lparr>d1_stat = get_stat_v1 bs, d1_namelen = get_le32 (drop 16 bs)\<rparr>"

record sync_dent_v2 =
  d2_stat :: sync_stat_v2
  d2_namelen :: u32

definition dent_v2_bytes :: "sync_dent_v2 \<Rightarrow> bytes" where
  "dent_v2_bytes m = stat_v2_bytes (d2_stat m) @ le32 (d2_namelen m)"

definition get_dent_v2 :: "bytes \<Rightarrow> sync_dent_v2" where
  "get_dent_v2 bs = \<lparr>d2_stat = get_stat_v2 bs, d2_namelen = get_le32 (drop 72 bs)\<rparr>"

section \<open>File modes\<close>

definition S_IFMT :: u32 where "S_IFMT = 0xF000"
definition S_IFDIR :: u32 where "S_IFDIR = 0x4000"
definition S_IFREG :: u32 where "S_IFREG = 0x8000"
definition S_ISGID :: u32 where "S_ISGID = 0x400"

definition S_ISREG :: "u32 \<Rightarrow> bool" where "S_ISREG m \<longleftrightarrow> m AND S_IFMT = S_IFREG"
definition S_ISDIR :: "u32 \<Rightarrow> bool" where "S_ISDIR m \<longleftrightarrow> m AND S_IFMT = S_IFDIR"
definition S_ISLNK :: "u32 \<Rightarrow> bool" where "S_ISLNK m \<longleftrightarrow> m AND S_IFMT = 0xA000"
definition S_ISCHR :: "u32 \<Rightarrow> bool" where "S_ISCHR m \<longleftrightarrow> m AND S_IFMT = 0x2000"
definition S_ISBLK :: "u32 \<Rightarrow> bool" where "S_ISBLK m \<longleftrightarrow> m AND S_IFMT = 0x6000"

section \<open>Error numbers\<close>

text \<open>
  Errors are numbers; those of the operating system's header are the argument \<open>host\<close> where the code
  depends on them.  The constants are Linux's.
\<close>

abbreviation ENOENT :: errno where "ENOENT \<equiv> EOTHER 2"
abbreviation EEXIST :: errno where "EEXIST \<equiv> EOTHER 17"
abbreviation ENAMETOOLONG :: errno where "ENAMETOOLONG \<equiv> EOTHER 36"
abbreviation ENOPROTOOPT :: errno where "ENOPROTOOPT \<equiv> EOTHER 92"
abbreviation ENOTSUP :: errno where "ENOTSUP \<equiv> EOTHER 95"
abbreviation ECONNRESET :: errno where "ECONNRESET \<equiv> EOTHER 104"

fun errno_code :: "errno \<Rightarrow> nat" where
  "errno_code E0 = 0"
| "errno_code EAGAIN = 11"
| "errno_code EPIPE = 32"
| "errno_code EMSGSIZE = 90"
| "errno_code EINVAL = 22"
| "errno_code (EOTHER n) = n"

definition errno_of :: "nat \<Rightarrow> errno" where
  "errno_of n = (if n = 0 then E0 else if n = 11 then EAGAIN else if n = 32 then EPIPE
     else if n = 90 then EMSGSIZE else if n = 22 then EINVAL else EOTHER n)"

text \<open>\<open>ERRNO_VALUES\<close>: the names and their values on the wire.\<close>

definition ERRNO_VALUES :: "(string \<times> nat) list" where
  "ERRNO_VALUES =
     [(''EACCES'', 13), (''EEXIST'', 17), (''EFAULT'', 14), (''EFBIG'', 27), (''EINTR'', 4), (''EINVAL'', 22), (''EIO'', 5),
      (''EISDIR'', 21), (''ELOOP'', 40), (''EMFILE'', 24), (''ENAMETOOLONG'', 36), (''ENFILE'', 23), (''ENOENT'', 2),
      (''ENOMEM'', 12), (''ENOSPC'', 28), (''ENOTDIR'', 20), (''EOVERFLOW'', 75), (''EPERM'', 1), (''EROFS'', 30), (''ETXTBSY'', 26)]"

definition host_to_wire :: "(string \<Rightarrow> nat) \<Rightarrow> nat \<Rightarrow> nat option" where
  "host_to_wire host = map_of (map (\<lambda>(name, wire). (host name, wire)) ERRNO_VALUES)"

definition errno_to_wire :: "(string \<Rightarrow> nat) \<Rightarrow> nat \<Rightarrow> nat" where
  "errno_to_wire host e = (case host_to_wire host e of None \<Rightarrow> 5 | Some w \<Rightarrow> w)"

text \<open>\<open>errno_from_wire\<close> looks the number up in the same table, not in \<open>wire_to_host\<close>.\<close>

definition errno_from_wire :: "(string \<Rightarrow> nat) \<Rightarrow> nat \<Rightarrow> nat" where
  "errno_from_wire host e = (case host_to_wire host e of None \<Rightarrow> host ''EIO'' | Some w \<Rightarrow> w)"

definition linux_errno :: "string \<Rightarrow> nat" where
  "linux_errno name = (case map_of ERRNO_VALUES name of None \<Rightarrow> 0 | Some n \<Rightarrow> n)"

section \<open>The file system\<close>

text \<open>
  The calls of both ends, over a state of the type \<open>'fs\<close>.  A file opened for writing is its descriptor with the
  answers of the kernel to the coming writes; \<open>fs_put\<close> is the effect of the bytes they accept.  A file
  opened for reading is the script of its reads.  \<open>fs_list\<close> is \<open>opendir\<close> with the names \<open>readdir\<close> delivers.
  Calls whose result the code ignores only have an effect.
\<close>

datatype open_flags = O_CREAT_EXCL | O_EXISTING | O_CREAT_TRUNC

record 'fs files =
  fs_lstat :: "string \<Rightarrow> 'fs \<Rightarrow> errno + stat"
  fs_stat :: "string \<Rightarrow> 'fs \<Rightarrow> errno + stat"
  fs_list :: "string \<Rightarrow> 'fs \<Rightarrow> errno + string list"
  fs_mkdir :: "string \<Rightarrow> u32 \<Rightarrow> 'fs \<Rightarrow> errno option \<times> 'fs"
  fs_chown :: "string \<Rightarrow> u32 \<Rightarrow> u32 \<Rightarrow> 'fs \<Rightarrow> errno option \<times> 'fs"
  fs_open :: "string \<Rightarrow> open_flags \<Rightarrow> u32 \<Rightarrow> 'fs \<Rightarrow> (errno + nat \<times> out_event list) \<times> 'fs"
  fs_open_read :: "string \<Rightarrow> 'fs \<Rightarrow> errno + istream"
  fs_put :: "nat \<Rightarrow> bytes \<Rightarrow> 'fs \<Rightarrow> 'fs"
  fs_fchown :: "nat \<Rightarrow> u32 \<Rightarrow> u32 \<Rightarrow> 'fs \<Rightarrow> errno option \<times> 'fs"
  fs_fchmod :: "nat \<Rightarrow> u32 \<Rightarrow> 'fs \<Rightarrow> 'fs"
  fs_unlink :: "string \<Rightarrow> 'fs \<Rightarrow> 'fs"
  fs_symlink :: "string \<Rightarrow> string \<Rightarrow> 'fs \<Rightarrow> errno option \<times> 'fs"
  fs_readlink :: "string \<Rightarrow> 'fs \<Rightarrow> errno + string"
  fs_realpath :: "string \<Rightarrow> 'fs \<Rightarrow> errno + string"
  fs_lutimes :: "string \<Rightarrow> u32 \<Rightarrow> 'fs \<Rightarrow> 'fs"
  fs_setxattr :: "string \<Rightarrow> u32 list \<Rightarrow> 'fs \<Rightarrow> errno option \<times> 'fs"
  fs_removexattr :: "string \<Rightarrow> 'fs \<Rightarrow> 'fs"
  fs_restorecon :: "string \<Rightarrow> 'fs \<Rightarrow> 'fs"

type_synonym wfile = "nat \<times> out_event list"

text \<open>\<open>WriteFdExactly\<close> on a file.\<close>

definition write_file :: "'fs files \<Rightarrow> bytes \<Rightarrow> wfile \<Rightarrow> 'fs \<Rightarrow> errno option \<times> wfile \<times> 'fs" where
  "write_file F bs f fs =
     (let (r, os) = WriteFdExactly bs \<lparr>os_script = snd f, os_log = []\<rparr>
      in (r, (fst f, os_script os), fs_put F (fst f) (os_log os) fs))"

section \<open>Transfers\<close>

text \<open>How the loop around a decoder or an encoder ends: with a failure, out of input, or at the end.\<close>

datatype loop_end = Transfer_failed | Wants_input | Transfer_done

text \<open>\<open>Block input(SYNC_DATA_MAX)\<close>, filled by a read and cut to its length.\<close>

definition read_block :: "(nat \<Rightarrow> byte) \<Rightarrow> bytes \<Rightarrow> byte block option" where
  "read_block junk data = do {
     b \<leftarrow> block_of_size junk SYNC_DATA_MAX;
     b1 \<leftarrow> block_store data b;
     block_resize junk (length data) b1
   }"

section \<open>Messages are read as they were written\<close>

lemma sync_ids:
  "ID_LSTAT_V1 = 0x54415453" "ID_STAT_V2 = 0x32415453" "ID_LSTAT_V2 = 0x3254534C" "ID_LIST_V1 = 0x5453494C"
  "ID_LIST_V2 = 0x3253494C" "ID_DENT_V1 = 0x544E4544" "ID_DENT_V2 = 0x32544E44" "ID_SEND_V1 = 0x444E4553"
  "ID_SEND_V2 = 0x32444E53" "ID_RECV_V1 = 0x56434552" "ID_RECV_V2 = 0x32564352" "ID_DONE = 0x454E4F44"
  "ID_DATA = 0x41544144" "ID_OKAY = 0x59414B4F" "ID_FAIL = 0x4C494146" "ID_QUIT = 0x54495551"
  by code_simp+

lemma length_sync_pair [simp]: "length (sync_pair i n) = 8"
  by (simp add: sync_pair_def)

lemma get_pair_sync_pair [simp]: "get_pair (sync_pair i n) = (i, n)"
  using get_le32_le32 [of n "[]"] by (simp add: get_pair_def sync_pair_def)

lemma length_stat_v1_bytes [simp]: "length (stat_v1_bytes m) = 16"
  by (simp add: stat_v1_bytes_def)

lemma length_stat_v2_bytes [simp]: "length (stat_v2_bytes m) = 72"
  by (simp add: stat_v2_bytes_def Let_def)

lemma get_stat_v1_append: "get_stat_v1 (stat_v1_bytes m @ bs) = m"
  by (simp add: get_stat_v1_def stat_v1_bytes_def)

lemma get_stat_v2_append: "get_stat_v2 (stat_v2_bytes m @ bs) = m"
  by (simp add: get_stat_v2_def stat_v2_bytes_def Let_def)

lemma stat_roundtrip [simp]: "get_stat_v1 (stat_v1_bytes m) = m" "get_stat_v2 (stat_v2_bytes n) = n"
  using get_stat_v1_append [of m "[]"] get_stat_v2_append [of n "[]"] by simp_all

lemma length_dent_bytes [simp]: "length (dent_v1_bytes m) = 20" "length (dent_v2_bytes n) = 76"
  by (simp_all add: dent_v1_bytes_def dent_v2_bytes_def)

lemma dent_roundtrip [simp]: "get_dent_v1 (dent_v1_bytes m) = m" "get_dent_v2 (dent_v2_bytes n) = n"
  using get_le32_le32 [of "d1_namelen m" "[]"] get_le32_le32 [of "d2_namelen n" "[]"]
  by (simp_all add: get_dent_v1_def dent_v1_bytes_def get_stat_v1_append get_dent_v2_def dent_v2_bytes_def get_stat_v2_append)

lemma errno_code_of [simp]: "errno_code (errno_of n) = n"
  by (simp add: errno_of_def)

lemma write_file_ok:
  assumes "benign \<lparr>os_script = snd f, os_log = []\<rparr>"
  shows "\<exists>sc. write_file F bs f fs = (None, (fst f, sc), fs_put F (fst f) bs fs) \<and> benign \<lparr>os_script = sc, os_log = []\<rparr>"
proof -
  obtain os where w: "WriteFdExactly bs \<lparr>os_script = snd f, os_log = []\<rparr> = (None, os)" "set (os_script os) \<subseteq> set (snd f)"
    using WriteFdExactly_succeeds [of "\<lparr>os_script = snd f, os_log = []\<rparr>" bs] assms unfolding benign_def by auto
  then have "os_log os = bs" using WriteFdExactly_log [OF w(1)] by simp
  with w assms show ?thesis by (auto simp: write_file_def benign_def)
qed

section \<open>Streams\<close>

text \<open>A stream that delivers exactly these bytes before its first fault, and a socket that takes all that is written.\<close>

definition feeds :: "istream \<Rightarrow> bytes \<Rightarrow> bool" where
  "feeds es bs \<longleftrightarrow> chunks_ok es \<and> stream_bytes es = bs"

definition took :: "ostream \<Rightarrow> bytes \<Rightarrow> ostream \<Rightarrow> bool" where
  "took os bs os' \<longleftrightarrow> benign os' \<and> os_log os' = os_log os @ bs"

lemma ReadFdExactly_feeds:
  assumes "feeds es (xs @ ys)"
  shows "\<exists>es'. ReadFdExactly (length xs) es = (Inr xs, es') \<and> feeds es' ys"
  using ReadFdExactly_ok [of es "length xs"] assms by (auto simp: feeds_def)

lemma WriteFdExactly_took:
  assumes "benign os"
  shows "\<exists>os'. WriteFdExactly bs os = (None, os') \<and> took os bs os'"
proof -
  obtain os' where w: "WriteFdExactly bs os = (None, os')" "set (os_script os') \<subseteq> set (os_script os)"
    using WriteFdExactly_succeeds assms unfolding benign_def by meson
  then show ?thesis using WriteFdExactly_log [OF w(1)] assms by (auto simp: took_def benign_def)
qed

lemma took_trans: "took os bs os1 \<Longrightarrow> took os1 cs os2 \<Longrightarrow> took os (bs @ cs) os2"
  by (simp add: took_def)

lemma took_benign: "took os bs os' \<Longrightarrow> benign os'"
  by (simp add: took_def)

lemma took_Nil: "benign os \<Longrightarrow> took os [] os"
  by (simp add: took_def)

text \<open>The data messages of a transfer, one for each chunk.\<close>

definition data_msgs :: "bytes list \<Rightarrow> bytes" where
  "data_msgs chunks = concat (map (\<lambda>c. sync_pair ID_DATA (of_nat (length c)) @ c) chunks)"

lemma data_msgs_simps [simp]:
  "data_msgs [] = []" "data_msgs (c # cs) = sync_pair ID_DATA (of_nat (length c)) @ c @ data_msgs cs"
  "data_msgs (cs @ ds) = data_msgs cs @ data_msgs ds"
  by (simp_all add: data_msgs_def)

definition chunks_fit :: "bytes list \<Rightarrow> bool" where
  "chunks_fit cs \<longleftrightarrow> list_all (\<lambda>c. length c \<le> SYNC_DATA_MAX) cs"

lemma unat_length: "n \<le> SYNC_DATA_MAX \<Longrightarrow> unat (of_nat n :: u32) = n"
  by (simp add: SYNC_DATA_MAX_def unat_of_nat)

section \<open>Laws of the file system\<close>

text \<open>Two writes in a row are one write of both; writing nothing changes nothing.\<close>

definition files_ok :: "'fs files \<Rightarrow> bool" where
  "files_ok F \<longleftrightarrow> (\<forall>n a b fs. fs_put F n b (fs_put F n a fs) = fs_put F n (a @ b) fs) \<and> (\<forall>n fs. fs_put F n [] fs = fs)"

definition put_opt :: "'fs files \<Rightarrow> wfile option \<Rightarrow> bytes \<Rightarrow> 'fs \<Rightarrow> 'fs" where
  "put_opt F fd bs fs = (case fd of None \<Rightarrow> fs | Some f \<Rightarrow> fs_put F (fst f) bs fs)"

definition writable :: "wfile option \<Rightarrow> bool" where
  "writable fd \<longleftrightarrow> (case fd of None \<Rightarrow> True | Some f \<Rightarrow> benign \<lparr>os_script = snd f, os_log = []\<rparr>)"

lemma put_opt_put: "files_ok F \<Longrightarrow> put_opt F fd b (put_opt F fd a fs) = put_opt F fd (a @ b) fs"
  by (simp add: put_opt_def files_ok_def split: option.splits)

lemma put_opt_Nil: "files_ok F \<Longrightarrow> put_opt F fd [] fs = fs"
  by (simp add: put_opt_def files_ok_def split: option.splits)

lemma put_opt_fst: "put_opt F (Some (fst f, sc)) bs fs = put_opt F (Some f) bs fs"
  by (simp add: put_opt_def)

lemma read_block_ok:
  assumes "length data \<le> SYNC_DATA_MAX"
  shows "\<exists>b. read_block junk data = Some b \<and> block_wf b \<and> block_bytes b = data"
proof -
  define mem where "mem = map junk [0..<SYNC_DATA_MAX]"
  define b where "b = block_new\<lparr>blk_data := Some mem, blk_capacity := SYNC_DATA_MAX, blk_size := SYNC_DATA_MAX\<rparr>"
  have b: "block_of_size junk SYNC_DATA_MAX = Some b"
    by (simp add: block_of_size_def block_allocate_def block_new_def b_def mem_def SYNC_DATA_MAX_def)
  have st: "block_store data b = Some (b\<lparr>blk_data := Some (data @ drop (length data) mem)\<rparr>)"
    using assms by (intro block_store_ok) (simp_all add: b_def mem_def)
  define b2 where "b2 = b\<lparr>blk_data := Some (data @ drop (length data) mem), blk_size := length data\<rparr>"
  have "read_block junk data = Some b2"
    using assms unfolding read_block_def b Option.bind.simps st by (simp add: block_resize_def b_def b2_def)
  moreover have "block_wf b2" using assms by (simp add: b2_def b_def block_wf_def mem_def SYNC_DATA_MAX_def)
  moreover have "block_bytes b2 = data" by (simp add: b2_def block_bytes_def)
  ultimately show ?thesis by blast
qed

end
