(* ===== verification/Adb_Sync_Service.thy ===== *)
theory Adb_Sync_Service
  imports Adb_Sync_Protocol
begin

text \<open>
  The daemon's side of file synchronisation (\<open>daemon/file_sync_service.cpp\<close>): a loop that reads requests from
  its socket, answers what it knows about files, stores files that are sent and sends files that are
  asked for.

  The state is the socket's two directions, the buffer that all requests share, and the file system.
  A handler answers whether the connection goes on; \<^const>\<open>None\<close> is an abort of the daemon or a loop
  that does not end.  The advice and log calls (\<open>posix_fadvise\<close>, the security log, \<open>D\<close>) have no
  effect on this state.
\<close>

unbundle bit_operations_syntax

record 'fs service =
  sv_in :: istream
  sv_out :: ostream
  sv_buffer :: bytes
  sv_fs :: 'fs

text \<open>
  The surroundings of the service: libbase, the build and version of the system, the user, the table
  of file attributes (\<open>get_fs_config\<close>), the texts of errors and what \<open>errno\<close> holds when no call failed, the compression libraries, uninitialised
  memory, and the calls of the file system.
\<close>

record ('fs, 'c) sync_env =
  se_lib :: libbase
  se_android :: bool
  se_before_v :: bool
  se_root :: bool
  se_fs_config :: "string \<Rightarrow> bool \<Rightarrow> (u32 \<times> u32 \<times> u32 \<times> u64) option"
  se_strerror :: "errno \<Rightarrow> string"
  se_stale_errno :: errno
  se_host :: "string \<Rightarrow> nat"
  se_codecs :: "'c codecs"
  se_junk :: "nat \<Rightarrow> byte"
  se_files :: "'fs files"

section \<open>Attributes\<close>

definition should_use_fs_config :: "('fs, 'c) sync_env \<Rightarrow> string \<Rightarrow> bool" where
  "should_use_fs_config E path =
     (if se_android E \<and> se_before_v E then \<not> StartsWith (se_lib E) path ''/data/'' else True)"

text \<open>\<open>adbd_fs_config\<close>: overwrites the attributes where the table has an entry.\<close>

definition adbd_fs_config :: "('fs, 'c) sync_env \<Rightarrow> string \<Rightarrow> bool \<Rightarrow> u32 \<times> u32 \<times> u32 \<times> u64 \<Rightarrow> u32 \<times> u32 \<times> u32 \<times> u64" where
  "adbd_fs_config E path dir attrs =
     (if \<not> se_root E then attrs
      else case se_fs_config E path dir of None \<Rightarrow> attrs | Some conf \<Rightarrow> conf)"

definition cap_data :: "u64 \<Rightarrow> u32 list" where
  "cap_data capabilities = [0x02000000 OR 1, ucast (capabilities AND 0xffffffff), 0, ucast (drop_bit 32 capabilities), 0]"

definition update_capabilities :: "('fs, 'c) sync_env \<Rightarrow> string \<Rightarrow> u64 \<Rightarrow> 'fs \<Rightarrow> errno option \<times> 'fs" where
  "update_capabilities E path capabilities fs =
     (if se_android E then
        if capabilities = 0 then (None, fs_removexattr (se_files E) path fs)
        else fs_setxattr (se_files E) path (cap_data capabilities) fs
      else (None, fs))"

text \<open>
  \<open>secure_mkdirs\<close>: \<^const>\<open>None\<close> is success, otherwise the error number that the thread is left with
  (\<open>e0\<close> is the one before the call).
\<close>

fun mkdirs_loop :: "('fs, 'c) sync_env \<Rightarrow> string list \<Rightarrow> string \<Rightarrow> 'fs \<Rightarrow> errno option \<times> 'fs" where
  "mkdirs_loop E [] partial_path fs = (None, fs)"
| "mkdirs_loop E (path_component # rest) partial_path fs =
     (if path_component = [] then mkdirs_loop E rest partial_path fs
      else
        let p = (if partial_path = [] \<or> last partial_path \<noteq> CHR ''/'' then partial_path @ ''/'' else partial_path) @ path_component;
            (uid, gid, mode, capabilities) =
              (if should_use_fs_config E p then adbd_fs_config E p True (-1, -1, 0x1FD, 0) else (-1, -1, 0x1FD, 0))
        in case fs_mkdir (se_files E) p mode fs of
             (Some e, fs1) \<Rightarrow> if e \<noteq> EEXIST then (Some e, fs1) else mkdirs_loop E rest p fs1
           | (None, fs1) \<Rightarrow>
               (case fs_chown (se_files E) p uid gid fs1 of
                  (Some e, fs2) \<Rightarrow> (Some e, fs2)
                | (None, fs2) \<Rightarrow>
                    (case update_capabilities E p capabilities (if se_android E then fs_restorecon (se_files E) p fs2 else fs2) of
                       (Some e, fs3) \<Rightarrow> (Some e, fs3)
                     | (None, fs3) \<Rightarrow> mkdirs_loop E rest p fs3)))"

definition secure_mkdirs :: "('fs, 'c) sync_env \<Rightarrow> errno \<Rightarrow> string \<Rightarrow> 'fs \<Rightarrow> errno option \<times> 'fs" where
  "secure_mkdirs E e0 path fs =
     (if path = [] \<or> hd path \<noteq> CHR ''/'' then (Some e0, fs)
      else mkdirs_loop E (Split (se_lib E) path CHR ''/'') [] fs)"

section \<open>The socket\<close>

definition sv_read :: "nat \<Rightarrow> 'fs service \<Rightarrow> (errno + bytes) \<times> 'fs service" where
  "sv_read n sv = (let (r, es) = ReadFdExactly n (sv_in sv) in (r, sv\<lparr>sv_in := es\<rparr>))"

definition sv_write :: "bytes \<Rightarrow> 'fs service \<Rightarrow> bool \<times> 'fs service" where
  "sv_write bs sv = (let (r, os) = WriteFdExactly bs (sv_out sv) in (r = None, sv\<lparr>sv_out := os\<rparr>))"

text \<open>Two writes of which the second happens only when the first succeeds.\<close>

definition sv_write2 :: "bytes \<Rightarrow> bytes \<Rightarrow> 'fs service \<Rightarrow> bool \<times> 'fs service" where
  "sv_write2 bs cs sv = (let (ok, sv1) = sv_write bs sv in if ok then sv_write cs sv1 else (False, sv1))"

definition SendSyncFail :: "string \<Rightarrow> 'fs service \<Rightarrow> 'fs service" where
  "SendSyncFail reason sv = snd (sv_write2 (sync_pair ID_FAIL (of_nat (length reason))) reason sv)"

definition SendSyncFailErrno :: "('fs, 'c) sync_env \<Rightarrow> string \<Rightarrow> errno \<Rightarrow> 'fs service \<Rightarrow> 'fs service" where
  "SendSyncFailErrno E reason e sv = SendSyncFail (percent_s reason @ '': '' @ se_strerror E e) sv"

section \<open>Attributes and directories\<close>

definition do_lstat_v1 :: "('fs, 'c) sync_env \<Rightarrow> string \<Rightarrow> 'fs service \<Rightarrow> bool \<times> 'fs service" where
  "do_lstat_v1 E path sv =
     (let st = (case fs_lstat (se_files E) path (sv_fs sv) of Inl e \<Rightarrow> no_stat | Inr st \<Rightarrow> st)
      in sv_write (stat_v1_bytes \<lparr>s1_id = ID_LSTAT_V1, s1_mode = st_mode st, s1_size = ucast (st_size st), s1_mtime = ucast (st_mtime st)\<rparr>) sv)"

definition do_stat_v2 :: "('fs, 'c) sync_env \<Rightarrow> u32 \<Rightarrow> string \<Rightarrow> 'fs service \<Rightarrow> bool \<times> 'fs service" where
  "do_stat_v2 E i path sv =
     (let r = (if i = ID_STAT_V2 then fs_stat (se_files E) path (sv_fs sv) else fs_lstat (se_files E) path (sv_fs sv))
      in sv_write (stat_v2_bytes
           (case r of
              Inl e \<Rightarrow> \<lparr>s2_id = i, s2_error = of_nat (errno_to_wire (se_host E) (errno_code e)), s2_stat = no_stat\<rparr>
            | Inr st \<Rightarrow> \<lparr>s2_id = i, s2_error = 0, s2_stat = st\<rparr>)) sv)"

text \<open>One entry of a listing; \<^const>\<open>None\<close> is an entry that is left out.\<close>

definition dent_header :: "bool \<Rightarrow> errno + stat \<Rightarrow> nat \<Rightarrow> bytes option" where
  "dent_header v2 r n =
     (case r of
        Inr st \<Rightarrow> Some (if v2 then dent_v2_bytes \<lparr>d2_stat = \<lparr>s2_id = ID_DENT_V2, s2_error = 0, s2_stat = st\<rparr>, d2_namelen = of_nat n\<rparr>
                    else dent_v1_bytes \<lparr>d1_stat = \<lparr>s1_id = ID_DENT_V1, s1_mode = st_mode st, s1_size = ucast (st_size st), s1_mtime = ucast (st_mtime st)\<rparr>, d1_namelen = of_nat n\<rparr>)
      | Inl e \<Rightarrow>
          if v2 then Some (dent_v2_bytes \<lparr>d2_stat = \<lparr>s2_id = ID_DENT_V2, s2_error = of_nat (errno_code e), s2_stat = no_stat\<rparr>, d2_namelen = of_nat n\<rparr>)
          else None)"

definition dent_done :: "bool \<Rightarrow> bytes" where
  "dent_done v2 =
     (if v2 then dent_v2_bytes \<lparr>d2_stat = \<lparr>s2_id = ID_DONE, s2_error = 0, s2_stat = no_stat\<rparr>, d2_namelen = 0\<rparr>
      else dent_v1_bytes \<lparr>d1_stat = \<lparr>s1_id = ID_DONE, s1_mode = 0, s1_size = 0, s1_mtime = 0\<rparr>, d1_namelen = 0\<rparr>)"

fun list_loop :: "('fs, 'c) sync_env \<Rightarrow> bool \<Rightarrow> string \<Rightarrow> string list \<Rightarrow> 'fs service \<Rightarrow> bool \<times> 'fs service" where
  "list_loop E v2 path [] sv = sv_write (dent_done v2) sv"
| "list_loop E v2 path (d_name # names) sv =
     (case dent_header v2 (fs_lstat (se_files E) (path @ ''/'' @ d_name) (sv_fs sv)) (length d_name) of
        None \<Rightarrow> list_loop E v2 path names sv
      | Some msg \<Rightarrow>
          (let (ok, sv1) = sv_write2 msg d_name sv
           in if ok then list_loop E v2 path names sv1 else (False, sv1)))"

definition do_list :: "('fs, 'c) sync_env \<Rightarrow> bool \<Rightarrow> string \<Rightarrow> 'fs service \<Rightarrow> bool \<times> 'fs service" where
  "do_list E v2 path sv =
     (case fs_list (se_files E) path (sv_fs sv) of
        Inl e \<Rightarrow> sv_write (dent_done v2) sv
      | Inr names \<Rightarrow> list_loop E v2 path names sv)"

section \<open>Receiving a file\<close>

text \<open>The file is \<^const>\<open>None\<close> for a dry run.\<close>

definition write_output :: "'fs files \<Rightarrow> wfile option \<Rightarrow> bytes \<Rightarrow> 'fs \<Rightarrow> errno option \<times> wfile option \<times> 'fs" where
  "write_output F fd output fs =
     (case fd of
        None \<Rightarrow> (None, None, fs)
      | Some f \<Rightarrow> (let (r, f1, fs1) = write_file F output f fs in (r, Some f1, fs1)))"

text \<open>The inner loop of \<open>handle_send_file_data\<close>: everything the decoder has is written to the file.\<close>

partial_function (option) decode_loop ::
    "('fs, 'c) sync_env \<Rightarrow> wfile option \<Rightarrow> 'c Decoder \<Rightarrow> 'fs service \<Rightarrow> (loop_end \<times> wfile option \<times> 'c Decoder \<times> 'fs service) option" where
  "decode_loop E fd d sv = do {
     (result, output, d1) \<leftarrow> Decode (se_codecs E) d;
     if result = Decode_Error then Some (Transfer_failed, fd, d1, SendSyncFail ''decompress failed'' sv)
     else do {
       let (err, fd1, fs1) = write_output (se_files E) fd output (sv_fs sv);
       let sv1 = sv\<lparr>sv_fs := fs1\<rparr>;
       (case err of
          Some e \<Rightarrow> Some (Transfer_failed, fd1, d1, SendSyncFailErrno E ''write failed'' e sv1)
        | None \<Rightarrow>
            if result = Decode_NeedInput then Some (Wants_input, fd1, d1, sv1)
            else if result = Decode_MoreOutput then decode_loop E fd1 d1 sv1
            else Some (Transfer_done, fd1, d1, sv1))
     }
   }"

text \<open>The outer loop; on success the time stamp, which came with \<open>ID_DONE\<close>.\<close>

partial_function (option) file_data_loop ::
    "('fs, 'c) sync_env \<Rightarrow> wfile option \<Rightarrow> u32 \<Rightarrow> 'c Decoder \<Rightarrow> 'fs service \<Rightarrow> (u32 option \<times> 'fs service) option" where
  "file_data_loop E fd timestamp d sv =
     (case sv_read 8 sv of
        (Inl e, sv1) \<Rightarrow> Some (None, sv1)
      | (Inr hdr, sv1) \<Rightarrow>
          (let (i, size) = get_pair hdr in
           if i = ID_DONE then do {
             d1 \<leftarrow> Decoder_Finish d;
             (r, fd1, d2, sv2) \<leftarrow> decode_loop E fd d1 sv1;
             if r = Transfer_failed then Some (None, sv2)
             else if r = Transfer_done then Some (Some size, sv2)
             else file_data_loop E fd1 size d2 sv2
           } else if i = ID_DATA then
             (case sv_read (unat size) sv1 of
                (Inl e, sv2) \<Rightarrow> Some (None, sv2)
              | (Inr data, sv2) \<Rightarrow> do {
                  block \<leftarrow> block_of_range (se_junk E) data;
                  (r, fd1, d2, sv3) \<leftarrow> decode_loop E fd (Decoder_Append block d) sv2;
                  if r = Transfer_failed then Some (None, sv3)
                  else if r = Transfer_done then Some (Some timestamp, sv3)
                  else file_data_loop E fd1 timestamp d2 sv3
                })
           else Some (None, SendSyncFail ''invalid data message'' sv1)))"

definition handle_send_file_data ::
    "('fs, 'c) sync_env \<Rightarrow> wfile option \<Rightarrow> CompressionType \<Rightarrow> 'fs service \<Rightarrow> (u32 option \<times> 'fs service) option" where
  "handle_send_file_data E fd compression sv = do {
     d \<leftarrow> Decoder_new (se_codecs E) compression SYNC_DATA_MAX;
     file_data_loop E fd 0 d sv
   }"

text \<open>The loop at \<open>fail:\<close>, which reads and drops what the other side still sends.\<close>

partial_function (option) drain_data :: "'fs service \<Rightarrow> 'fs service option" where
  "drain_data sv =
     (case sv_read 8 sv of
        (Inl e, sv1) \<Rightarrow> Some sv1
      | (Inr hdr, sv1) \<Rightarrow>
          (let (i, size) = get_pair hdr in
           if i = ID_DONE then Some sv1
           else if i \<noteq> ID_DATA then Some sv1
           else if unat size > length (sv_buffer sv1) then Some sv1
           else (case sv_read (unat size) sv1 of
                   (Inl e, sv2) \<Rightarrow> Some sv2
                 | (Inr data, sv2) \<Rightarrow> drain_data (sv2\<lparr>sv_buffer := data @ drop (unat size) (sv_buffer sv2)\<rparr>))))"

text \<open>Opening the file: created anew, if need be after its directories, or opened as it is.\<close>

definition open_for_send :: "('fs, 'c) sync_env \<Rightarrow> string \<Rightarrow> u32 \<Rightarrow> 'fs service \<Rightarrow> wfile option \<times> 'fs service" where
  "open_for_send E path mode sv =
     (let F = se_files E;
          (r1, fs1) = fs_open F path O_CREAT_EXCL mode (sv_fs sv);
          (r2, fs2) =
            (if r1 = Inl ENOENT then
               (case secure_mkdirs E ENOENT (Dirname (se_lib E) path) fs1 of
                  (Some e, fs2) \<Rightarrow> (Inl (''secure_mkdirs() failed'', e), fs2)
                | (None, fs2) \<Rightarrow> (let (r, fs3) = fs_open F path O_CREAT_EXCL mode fs2 in (Inr r, fs3)))
             else (Inr r1, fs1))
      in case r2 of
           Inl (msg, e) \<Rightarrow> (None, SendSyncFailErrno E msg e (sv\<lparr>sv_fs := fs2\<rparr>))
         | Inr r \<Rightarrow>
             (let (r3, fs3) = (if r = Inl EEXIST then fs_open F path O_EXISTING mode fs2 else (r, fs2))
              in case r3 of
                   Inl e \<Rightarrow> (None, SendSyncFailErrno E ''couldn't create file'' e (sv\<lparr>sv_fs := fs3\<rparr>))
                 | Inr f \<Rightarrow> (Some f, sv\<lparr>sv_fs := fs3\<rparr>)))"

text \<open>
  The owner of the new file: \<^const>\<open>None\<close> when it could be set or the directory passes its group on,
  otherwise the error of the call that failed last.
\<close>

definition own_file :: "('fs, 'c) sync_env \<Rightarrow> string \<Rightarrow> u32 \<Rightarrow> u32 \<Rightarrow> wfile \<Rightarrow> 'fs \<Rightarrow> errno option \<times> 'fs" where
  "own_file E path uid gid f fs =
     (let F = se_files E in
      case fs_fchown F (fst f) uid gid fs of
        (None, fs1) \<Rightarrow> (None, fs1)
      | (Some e, fs1) \<Rightarrow>
          (case fs_realpath F path fs1 of
             Inl e1 \<Rightarrow> (Some e1, fs1)
           | Inr real_path \<Rightarrow>
               (case fs_lstat F (Dirname (se_lib E) real_path) fs1 of
                  Inl e2 \<Rightarrow> (Some e2, fs1)
                | Inr st \<Rightarrow> (if S_ISDIR (st_mode st) \<and> st_mode st AND S_ISGID = 0 then Some e else None, fs1))))"

text \<open>The part of \<open>handle_send_file\<close> before the data, for a transfer that is not a dry run.\<close>

definition prepare_file :: "('fs, 'c) sync_env \<Rightarrow> string \<Rightarrow> u32 \<Rightarrow> u32 \<Rightarrow> u32 \<Rightarrow> 'fs service \<Rightarrow> wfile option \<times> 'fs service" where
  "prepare_file E path uid gid mode sv =
     (case open_for_send E path mode sv of
        (None, sv1) \<Rightarrow> (None, sv1)
      | (Some f, sv1) \<Rightarrow>
          (case own_file E path uid gid f (sv_fs sv1) of
             (Some e, fs1) \<Rightarrow>
               (None, SendSyncFailErrno E (''fchown() failed uid: '' @ format_d (sint uid) @ '' gid: '' @ format_d (sint gid)) e (sv1\<lparr>sv_fs := fs1\<rparr>))
           | (None, fs1) \<Rightarrow>
               (let fs2 = (if se_android E then fs_restorecon (se_files E) path fs1 else fs1)
                in (Some f, sv1\<lparr>sv_fs := fs_fchmod (se_files E) (fst f) mode fs2\<rparr>))))"

definition send_file_failed :: "('fs, 'c) sync_env \<Rightarrow> string \<Rightarrow> bool \<Rightarrow> 'fs service \<Rightarrow> (u32 option \<times> 'fs service) option" where
  "send_file_failed E path do_unlink sv = do {
     sv1 \<leftarrow> drain_data sv;
     Some (None, if do_unlink then sv1\<lparr>sv_fs := fs_unlink (se_files E) path (sv_fs sv1)\<rparr> else sv1)
   }"

definition handle_send_file ::
    "('fs, 'c) sync_env \<Rightarrow> string \<Rightarrow> u32 \<Rightarrow> u32 \<Rightarrow> u64 \<Rightarrow> u32 \<Rightarrow> CompressionType \<Rightarrow> bool \<Rightarrow> bool \<Rightarrow> 'fs service \<Rightarrow> (u32 option \<times> 'fs service) option" where
  "handle_send_file E path uid gid capabilities mode compression dry_run do_unlink sv = do {
     let (ok, fd, sv1) =
       (if dry_run then (True, None, sv)
        else (case prepare_file E path uid gid mode sv of (None, sv1) \<Rightarrow> (False, None, sv1) | (Some f, sv1) \<Rightarrow> (True, Some f, sv1)));
     if \<not> ok then send_file_failed E path do_unlink sv1
     else do {
       (r, sv2) \<leftarrow> handle_send_file_data E fd compression sv1;
       (case r of
          None \<Rightarrow> send_file_failed E path do_unlink sv2
        | Some timestamp \<Rightarrow>
            (case update_capabilities E path capabilities (sv_fs sv2) of
               (Some e, fs1) \<Rightarrow> send_file_failed E path do_unlink (SendSyncFailErrno E ''update_capabilities failed'' e (sv2\<lparr>sv_fs := fs1\<rparr>))
             | (None, fs1) \<Rightarrow>
                 (let (ok1, sv3) = sv_write (sync_pair ID_OKAY 0) (sv2\<lparr>sv_fs := fs1\<rparr>)
                  in Some (if ok1 then Some timestamp else None, sv3))))
     }
   }"

section \<open>Receiving a link\<close>

text \<open>Creating the link: the message and the error number on failure.\<close>

definition make_link :: "('fs, 'c) sync_env \<Rightarrow> string \<Rightarrow> string \<Rightarrow> 'fs \<Rightarrow> (string \<times> errno) option \<times> 'fs" where
  "make_link E target path fs =
     (let F = se_files E in
      if fs_readlink F path fs = Inr target then (None, fs)
      else
        let fs1 = fs_unlink F path fs;
            (ret, fs2) = fs_symlink F target path fs1
        in case ret of
             None \<Rightarrow> (None, fs2)
           | Some e \<Rightarrow>
               if e = ENOENT then
                 (case secure_mkdirs E ENOENT (Dirname (se_lib E) path) fs2 of
                    (Some e1, fs3) \<Rightarrow> (Some (''secure_mkdirs failed'', e1), fs3)
                  | (None, fs3) \<Rightarrow>
                      (case fs_symlink F target path fs3 of
                         (None, fs4) \<Rightarrow> (None, fs4)
                       | (Some e2, fs4) \<Rightarrow> (Some (''symlink failed'', e2), fs4)))
               else (Some (''symlink failed'', e), fs2))"

definition finish_link :: "'fs service \<Rightarrow> u32 option \<times> 'fs service" where
  "finish_link sv =
     (case sv_read 8 sv of
        (Inl e, sv1) \<Rightarrow> (None, sv1)
      | (Inr hdr, sv1) \<Rightarrow>
          (let (i, size) = get_pair hdr in
           if i = ID_DONE then
             (let (ok, sv2) = sv_write (sync_pair ID_OKAY 0) sv1 in (if ok then Some size else None, sv2))
           else (None, SendSyncFail ''invalid data message: expected ID_DONE'' sv1)))"

text \<open>
  The target is the C string at the start of the shared buffer: the bytes that were sent, then, if these
  hold no NUL, what earlier requests left behind them.
\<close>

definition handle_send_link :: "('fs, 'c) sync_env \<Rightarrow> string \<Rightarrow> bool \<Rightarrow> 'fs service \<Rightarrow> (u32 option \<times> 'fs service) option" where
  "handle_send_link E path dry_run sv =
     (case sv_read 8 sv of
        (Inl e, sv1) \<Rightarrow> Some (None, sv1)
      | (Inr hdr, sv1) \<Rightarrow>
          (let (i, len) = get_pair hdr in
           if i \<noteq> ID_DATA then Some (None, SendSyncFail ''invalid data message: expected ID_DATA'' sv1)
           else if unat len > length (sv_buffer sv1) then Some (None, SendSyncFail ''oversize data message'' sv1)
           else (case sv_read (unat len) sv1 of
                   (Inl e, sv2) \<Rightarrow> Some (None, sv2)
                 | (Inr data, sv2) \<Rightarrow> do {
                     let sv3 = sv2\<lparr>sv_buffer := data @ drop (unat len) (sv_buffer sv2)\<rparr>;
                     if dry_run then Some (finish_link sv3)
                     else do {
                       target \<leftarrow> c_str (sv_buffer sv3);
                       (case make_link E target path (sv_fs sv3) of
                          (Some (msg, e), fs1) \<Rightarrow> Some (None, SendSyncFailErrno E msg e (sv3\<lparr>sv_fs := fs1\<rparr>))
                        | (None, fs1) \<Rightarrow> Some (finish_link (sv3\<lparr>sv_fs := fs1\<rparr>)))
                     }
                   })))"

section \<open>Send requests\<close>

definition file_mode :: "u32 \<Rightarrow> u32" where
  "file_mode mode =
     (let m1 = mode AND 0x1FF;
          m2 = m1 OR (drop_bit 3 m1 AND 0x38)
      in m2 OR (drop_bit 3 m2 AND 7))"

definition send_impl ::
    "('fs, 'c) sync_env \<Rightarrow> string \<Rightarrow> u32 \<Rightarrow> CompressionType \<Rightarrow> bool \<Rightarrow> 'fs service \<Rightarrow> (bool \<times> 'fs service) option" where
  "send_impl E path mode compression dry_run sv = do {
     let F = se_files E;
     let do_unlink = (\<not> dry_run \<and>
       (case fs_lstat F path (sv_fs sv) of
          Inl e \<Rightarrow> True
        | Inr st \<Rightarrow> S_ISREG (st_mode st) \<or> (S_ISLNK (st_mode st) \<and> \<not> S_ISLNK mode)));
     let sv1 = (if do_unlink then sv\<lparr>sv_fs := fs_unlink F path (sv_fs sv)\<rparr> else sv);
     (r, sv2) \<leftarrow>
       (if S_ISLNK mode then handle_send_link E path dry_run sv1
        else do {
          let (uid, gid, m, capabilities) =
            (if \<not> dry_run \<and> should_use_fs_config E path then adbd_fs_config E path False (-1, -1, file_mode mode, 0)
             else (-1, -1, file_mode mode, 0));
          handle_send_file E path uid gid capabilities m compression dry_run do_unlink sv1
        });
     Some (case r of
             None \<Rightarrow> (False, sv2)
           | Some timestamp \<Rightarrow> (True, sv2\<lparr>sv_fs := fs_lutimes F path timestamp (sv_fs sv2)\<rparr>))
   }"

text \<open>\<open>strtoul(s, nullptr, 0)\<close>: the base is that of the prefix; \<^const>\<open>None\<close> is a value out of range (\<open>ERANGE\<close>).\<close>

fun base_value :: "nat \<Rightarrow> nat \<Rightarrow> string \<Rightarrow> nat" where
  "base_value b acc [] = acc"
| "base_value b acc (c # cs) =
     (case hex_value c of None \<Rightarrow> acc | Some d \<Rightarrow> if d < b then base_value b (b * acc + d) cs else acc)"

definition strtoul0 :: "string \<Rightarrow> nat option" where
  "strtoul0 s =
     (let s1 = dropWhile is_space s;
          neg = (s1 \<noteq> [] \<and> hd s1 = CHR ''-'');
          s2 = (if s1 \<noteq> [] \<and> (hd s1 = CHR ''-'' \<or> hd s1 = CHR ''+'') then tl s1 else s1);
          hex = (length s2 > 2 \<and> s2 ! 0 = CHR ''0'' \<and> (s2 ! 1 = CHR ''x'' \<or> s2 ! 1 = CHR ''X'') \<and> hex_value (s2 ! 2) \<noteq> None);
          v = (if hex then base_value 16 0 (drop 2 s2)
               else if s2 \<noteq> [] \<and> hd s2 = CHR ''0'' then base_value 8 0 s2
               else base_value 10 0 s2)
      in if v \<ge> 2 ^ 64 then None
         else if neg \<and> v \<noteq> 0 then Some (2 ^ 64 - v) else Some v)"

definition find_last_of :: "char \<Rightarrow> string \<Rightarrow> nat option" where
  "find_last_of c s = map_option (\<lambda>n. length s - 1 - n) (find_char c (rev s))"

definition do_send_v1 :: "('fs, 'c) sync_env \<Rightarrow> string \<Rightarrow> 'fs service \<Rightarrow> (bool \<times> 'fs service) option" where
  "do_send_v1 E spec sv =
     (case find_last_of CHR '','' spec of
        None \<Rightarrow> Some (False, SendSyncFail ''missing , in ID_SEND_V1'' sv)
      | Some comma \<Rightarrow>
          (case strtoul0 (drop (comma + 1) spec) of
             None \<Rightarrow> Some (False, SendSyncFail ''bad mode'' sv)
           | Some mode \<Rightarrow> send_impl E (take comma spec) (of_nat mode) CompressNone False sv))"

text \<open>
  The compression flags of a set-up message: at most one of the three; \<open>Inl\<close> is the failure text.  The
  flags that are left are answered as well.
\<close>

definition compression_flags :: "u32 \<Rightarrow> string + CompressionType \<times> u32" where
  "compression_flags flags =
     (let multiple = ''multiple compression flags received: '' @ format_d (sint flags);
          b = flags AND kSyncFlagBrotli \<noteq> 0; l = flags AND kSyncFlagLZ4 \<noteq> 0; z = flags AND kSyncFlagZstd \<noteq> 0
      in if b \<and> l \<or> (b \<or> l) \<and> z then Inl multiple
         else Inr (if b then Brotli else if l then LZ4 else if z then Zstd else CompressNone,
                   flags AND NOT (kSyncFlagBrotli OR kSyncFlagLZ4 OR kSyncFlagZstd)))"

definition do_send_v2 :: "('fs, 'c) sync_env \<Rightarrow> string \<Rightarrow> 'fs service \<Rightarrow> (bool \<times> 'fs service) option" where
  "do_send_v2 E path sv =
     (case sv_read 12 sv of
        (Inl e, sv1) \<Rightarrow> Some (False, sv1)
      | (Inr setup, sv1) \<Rightarrow>
          (let mode = get_le32 (drop 4 setup); flags = get_le32 (drop 8 setup) in
           case compression_flags flags of
             Inl msg \<Rightarrow> Some (False, SendSyncFail msg sv1)
           | Inr (compression, rest) \<Rightarrow>
               (let dry_run = (rest AND kSyncFlagDryRun \<noteq> 0);
                    unknown = (if dry_run then rest AND NOT kSyncFlagDryRun else rest)
                in if unknown \<noteq> 0 then Some (False, SendSyncFail (''unknown flags: '' @ format_d (sint unknown)) sv1)
                   else send_impl E path mode compression dry_run sv1)))"

section \<open>Sending a file\<close>

partial_function (option) encode_loop ::
    "('fs, 'c) sync_env \<Rightarrow> 'c Encoder \<Rightarrow> 'fs service \<Rightarrow> (loop_end \<times> 'c Encoder \<times> 'fs service) option" where
  "encode_loop E e sv = do {
     (result, output, e1) \<leftarrow> Encode (se_codecs E) (se_junk E) block_new e;
     if result = Encode_Error then Some (Transfer_failed, e1, SendSyncFailErrno E ''compress failed'' (se_stale_errno E) sv)
     else do {
       let (ok, sv1) =
         (if \<not> block_empty output
          then sv_write2 (sync_pair ID_DATA (of_nat (blk_size output))) (block_bytes output) sv else (True, sv));
       if \<not> ok then Some (Transfer_failed, e1, sv1)
       else if result = Encode_Done then Some (Transfer_done, e1, sv1)
       else if result = Encode_NeedInput then Some (Wants_input, e1, sv1)
       else encode_loop E e1 sv1
     }
   }"

partial_function (option) recv_loop ::
    "('fs, 'c) sync_env \<Rightarrow> istream \<Rightarrow> 'c Encoder \<Rightarrow> 'fs service \<Rightarrow> (bool \<times> 'fs service) option" where
  "recv_loop E fd e sv =
     (case adb_read SYNC_DATA_MAX fd of
        (Inl err, fd1) \<Rightarrow> Some (False, SendSyncFailErrno E ''read failed'' err sv)
      | (Inr data, fd1) \<Rightarrow> do {
          e1 \<leftarrow> (if data = [] then Encoder_Finish e
                 else do { b \<leftarrow> read_block (se_junk E) data; Some (Encoder_Append b e) });
          (r, e2, sv1) \<leftarrow> encode_loop E e1 sv;
          if r = Transfer_failed then Some (False, sv1)
          else if r = Wants_input then recv_loop E fd1 e2 sv1
          else Some (sv_write (sync_pair ID_DONE 0) sv1)
        })"

definition recv_impl :: "('fs, 'c) sync_env \<Rightarrow> string \<Rightarrow> CompressionType \<Rightarrow> 'fs service \<Rightarrow> (bool \<times> 'fs service) option" where
  "recv_impl E path compression sv =
     (case fs_open_read (se_files E) path (sv_fs sv) of
        Inl e \<Rightarrow> Some (False, SendSyncFailErrno E ''open failed'' e sv)
      | Inr fd \<Rightarrow> do {
          e \<leftarrow> Encoder_new (se_codecs E) (se_junk E) compression SYNC_DATA_MAX;
          recv_loop E fd e sv
        })"

definition do_recv_v1 :: "('fs, 'c) sync_env \<Rightarrow> string \<Rightarrow> 'fs service \<Rightarrow> (bool \<times> 'fs service) option" where
  "do_recv_v1 E path sv = recv_impl E path CompressNone sv"

definition do_recv_v2 :: "('fs, 'c) sync_env \<Rightarrow> string \<Rightarrow> 'fs service \<Rightarrow> (bool \<times> 'fs service) option" where
  "do_recv_v2 E path sv =
     (case sv_read 8 sv of
        (Inl e, sv1) \<Rightarrow> Some (False, sv1)
      | (Inr setup, sv1) \<Rightarrow>
          (case compression_flags (get_le32 (drop 4 setup)) of
             Inl msg \<Rightarrow> Some (False, SendSyncFail msg sv1)
           | Inr (compression, unknown) \<Rightarrow>
               if unknown \<noteq> 0 then Some (False, SendSyncFail (''unknown flags: '' @ format_d (sint unknown)) sv1)
               else recv_impl E path compression sv1))"

section \<open>The service\<close>

definition run_command :: "('fs, 'c) sync_env \<Rightarrow> u32 \<Rightarrow> string \<Rightarrow> 'fs service \<Rightarrow> (bool \<times> 'fs service) option" where
  "run_command E i name sv =
     (if i = ID_LSTAT_V1 then Some (do_lstat_v1 E name sv)
      else if i = ID_LSTAT_V2 \<or> i = ID_STAT_V2 then Some (do_stat_v2 E i name sv)
      else if i = ID_LIST_V1 then Some (do_list E False name sv)
      else if i = ID_LIST_V2 then Some (do_list E True name sv)
      else if i = ID_SEND_V1 then do_send_v1 E name sv
      else if i = ID_SEND_V2 then do_send_v2 E name sv
      else if i = ID_RECV_V1 then do_recv_v1 E name sv
      else if i = ID_RECV_V2 then do_recv_v2 E name sv
      else if i = ID_QUIT then Some (False, sv)
      else Some (False, SendSyncFail (''unknown command '' @ pad0 8 (hex_digits (unat i))) sv))"

definition handle_sync_command :: "('fs, 'c) sync_env \<Rightarrow> 'fs service \<Rightarrow> (bool \<times> 'fs service) option" where
  "handle_sync_command E sv =
     (case sv_read 8 sv of
        (Inl e, sv1) \<Rightarrow> Some (False, SendSyncFail ''command read failure'' sv1)
      | (Inr request, sv1) \<Rightarrow>
          (let (i, path_length) = get_pair request in
           if unat path_length > 1024 then Some (False, SendSyncFail ''path too long'' sv1)
           else (case sv_read (unat path_length) sv1 of
                   (Inl e, sv2) \<Rightarrow> Some (False, SendSyncFail ''filename read failure'' sv2)
                 | (Inr name, sv2) \<Rightarrow> run_command E i (percent_s name) sv2)))"

partial_function (option) service_loop :: "('fs, 'c) sync_env \<Rightarrow> 'fs service \<Rightarrow> 'fs service option" where
  "service_loop E sv = do {
     (more, sv1) \<leftarrow> handle_sync_command E sv;
     if more then service_loop E sv1 else Some sv1
   }"

definition file_sync_service :: "('fs, 'c) sync_env \<Rightarrow> istream \<Rightarrow> ostream \<Rightarrow> 'fs \<Rightarrow> 'fs service option" where
  "file_sync_service E es os fs =
     service_loop E \<lparr>sv_in = es, sv_out = os, sv_buffer = replicate SYNC_DATA_MAX CHR 0x00, sv_fs = fs\<rparr>"

section \<open>Reads and writes of the service\<close>

lemma sv_read_feeds:
  assumes "feeds (sv_in sv) (xs @ ys)" and "n = length xs"
  shows "\<exists>es. sv_read n sv = (Inr xs, sv\<lparr>sv_in := es\<rparr>) \<and> feeds es ys"
  using ReadFdExactly_feeds [OF assms(1)] assms(2) by (auto simp: sv_read_def)

lemma sv_write_took:
  assumes "benign (sv_out sv)"
  shows "\<exists>os. sv_write bs sv = (True, sv\<lparr>sv_out := os\<rparr>) \<and> took (sv_out sv) bs os"
  using WriteFdExactly_took [OF assms, of bs] by (auto simp: sv_write_def)

lemma sv_write2_took:
  assumes "benign (sv_out sv)"
  shows "\<exists>os. sv_write2 bs cs sv = (True, sv\<lparr>sv_out := os\<rparr>) \<and> took (sv_out sv) (bs @ cs) os"
proof -
  obtain os where w: "sv_write bs sv = (True, sv\<lparr>sv_out := os\<rparr>)" "took (sv_out sv) bs os" using sv_write_took [OF assms] by blast
  obtain os2 where "sv_write cs (sv\<lparr>sv_out := os\<rparr>) = (True, sv\<lparr>sv_out := os2\<rparr>)" "took os cs os2"
    using sv_write_took [of "sv\<lparr>sv_out := os\<rparr>" cs] took_benign [OF w(2)] by auto
  then show ?thesis using w took_trans by (auto simp: sv_write2_def)
qed

section \<open>Storing a file\<close>

definition null_decoder :: "'c Decoder \<Rightarrow> bool" where
  "null_decoder d \<longleftrightarrow> dec_kind d = CompressNone \<and> fifo_ok (dec_input d) \<and> dec_out_size d = SYNC_DATA_MAX"

lemma null_decoder_input: "null_decoder d \<Longrightarrow> fifo_ok v \<Longrightarrow> null_decoder (d\<lparr>dec_input := v\<rparr>)"
  by (simp add: null_decoder_def)

lemma null_decoder_Decode:
  assumes "null_decoder d"
  shows "\<exists>v. Decode lib d = Some (if iov_bytes v = [] then (if dec_finished d then Decode_Done else Decode_NeedInput) else Decode_MoreOutput,
       take SYNC_DATA_MAX (iov_bytes (dec_input d)), d\<lparr>dec_input := v\<rparr>) \<and>
     fifo_ok v \<and> iov_bytes v = drop SYNC_DATA_MAX (iov_bytes (dec_input d))"
  using NullDecoder_Decode_ok [of d] assms by (simp add: null_decoder_def Decode_def SYNC_DATA_MAX_def)

text \<open>What one round of the loop writes.\<close>

lemma write_output_ok:
  assumes "writable fd"
  shows "\<exists>fd1. write_output F fd out fs = (None, fd1, put_opt F fd out fs) \<and>
     writable fd1 \<and> (\<forall>bs fs. put_opt F fd1 bs fs = put_opt F fd bs fs)"
proof (cases fd)
  case None
  then show ?thesis by (simp add: put_opt_def writable_def write_output_def)
next
  case (Some f)
  obtain sc where "write_file F out f fs = (None, (fst f, sc), fs_put F (fst f) out fs)" "benign \<lparr>os_script = sc, os_log = []\<rparr>"
    using write_file_ok [of f F out fs] assms Some by (auto simp: writable_def)
  then show ?thesis using Some by (simp add: put_opt_def writable_def write_output_def)
qed

lemma decode_loop_null:
  assumes "null_decoder d" and "writable fd" and "files_ok (se_files E)"
  shows "\<exists>fd1 v. decode_loop E fd d sv =
       Some (if dec_finished d then Transfer_done else Wants_input, fd1, d\<lparr>dec_input := v\<rparr>,
             sv\<lparr>sv_fs := put_opt (se_files E) fd (iov_bytes (dec_input d)) (sv_fs sv)\<rparr>) \<and>
     writable fd1 \<and> (\<forall>bs fs. put_opt (se_files E) fd1 bs fs = put_opt (se_files E) fd bs fs) \<and> fifo_ok v \<and> iov_bytes v = []"
  using assms(1,2)
proof (induction "length (iov_bytes (dec_input d))" arbitrary: d fd sv rule: less_induct)
  case less
  let ?F = "se_files E" and ?in = "iov_bytes (dec_input d)"
  obtain v where v: "Decode (se_codecs E) d = Some (if iov_bytes v = [] then (if dec_finished d then Decode_Done else Decode_NeedInput) else Decode_MoreOutput,
       take SYNC_DATA_MAX ?in, d\<lparr>dec_input := v\<rparr>)" "fifo_ok v" "iov_bytes v = drop SYNC_DATA_MAX ?in"
    using null_decoder_Decode [OF less.prems(1)] by blast
  obtain fd1 where w: "write_output ?F fd (take SYNC_DATA_MAX ?in) (sv_fs sv) = (None, fd1, put_opt ?F fd (take SYNC_DATA_MAX ?in) (sv_fs sv))"
    and fd1: "writable fd1" "\<forall>bs fs. put_opt ?F fd1 bs fs = put_opt ?F fd bs fs"
    using write_output_ok [OF less.prems(2), of ?F "take SYNC_DATA_MAX ?in" "sv_fs sv"] by auto
  define sv1 where "sv1 = sv\<lparr>sv_fs := put_opt ?F fd (take SYNC_DATA_MAX ?in) (sv_fs sv)\<rparr>"
  show ?case
  proof (cases "iov_bytes v = []")
    case True
    then have tk: "take SYNC_DATA_MAX ?in = ?in" using v(3) by simp
    have "decode_loop E fd d sv = Some (if dec_finished d then Transfer_done else Wants_input, fd1, d\<lparr>dec_input := v\<rparr>, sv\<lparr>sv_fs := put_opt ?F fd ?in (sv_fs sv)\<rparr>)"
      using True v(1) w unfolding tk by (subst decode_loop.simps) (simp add: Let_def)
    then show ?thesis using True v(2) fd1 by blast
  next
    case False
    then have l: "length (iov_bytes v) < length ?in" using v(3) by (simp add: SYNC_DATA_MAX_def)
    obtain fd2 v2 where r: "decode_loop E fd1 (d\<lparr>dec_input := v\<rparr>) sv1 =
        Some (if dec_finished d then Transfer_done else Wants_input, fd2, d\<lparr>dec_input := v2\<rparr>, sv1\<lparr>sv_fs := put_opt ?F fd1 (iov_bytes v) (sv_fs sv1)\<rparr>)"
      "writable fd2" "\<forall>bs fs. put_opt ?F fd2 bs fs = put_opt ?F fd1 bs fs" "fifo_ok v2" "iov_bytes v2 = []"
      using less.hyps [of "d\<lparr>dec_input := v\<rparr>" fd1 sv1] l null_decoder_input [OF less.prems(1) v(2)] fd1(1) by auto
    have eq: "sv1\<lparr>sv_fs := put_opt ?F fd1 (iov_bytes v) (sv_fs sv1)\<rparr> = sv\<lparr>sv_fs := put_opt ?F fd ?in (sv_fs sv)\<rparr>"
      using fd1(2) v(3) put_opt_put [OF assms(3)] by (simp add: sv1_def)
    have "decode_loop E fd d sv = decode_loop E fd1 (d\<lparr>dec_input := v\<rparr>) sv1"
      using False v(1) w by (subst decode_loop.simps) (simp add: Let_def sv1_def)
    then show ?thesis using r eq fd1(2) by auto
  qed
qed

lemma file_data_loop_null:
  assumes "feeds (sv_in sv) (data_msgs chunks @ sync_pair ID_DONE ts @ rest)" and "list_all (\<lambda>c. length c < 2 ^ 32) chunks"
    and "null_decoder d" and "iov_bytes (dec_input d) = []" and "\<not> dec_finished d" and "writable fd" and "files_ok (se_files E)"
  shows "\<exists>es. file_data_loop E fd t d sv = Some (Some ts, sv\<lparr>sv_in := es, sv_fs := put_opt (se_files E) fd (concat chunks) (sv_fs sv)\<rparr>) \<and> feeds es rest"
  using assms(1-6)
proof (induction chunks arbitrary: sv fd d)
  case Nil
  obtain es where r: "sv_read 8 sv = (Inr (sync_pair ID_DONE ts), sv\<lparr>sv_in := es\<rparr>)" "feeds es rest"
    using sv_read_feeds [of sv "sync_pair ID_DONE ts" rest 8] Nil.prems(1) by auto
  obtain fd1 v where l: "decode_loop E fd (d\<lparr>dec_finished := True\<rparr>) (sv\<lparr>sv_in := es\<rparr>) =
      Some (Transfer_done, fd1, d\<lparr>dec_finished := True, dec_input := v\<rparr>, sv\<lparr>sv_in := es, sv_fs := put_opt (se_files E) fd [] (sv_fs sv)\<rparr>)"
    using decode_loop_null [of "d\<lparr>dec_finished := True\<rparr>" fd E "sv\<lparr>sv_in := es\<rparr>"] Nil.prems(3-6) assms(7) by (auto simp: null_decoder_def)
  show ?case
    using r Nil.prems(5) l by (subst file_data_loop.simps) (auto simp: Decoder_Finish_def)
next
  case (Cons c cs)
  obtain es where r: "sv_read 8 sv = (Inr (sync_pair ID_DATA (of_nat (length c))), sv\<lparr>sv_in := es\<rparr>)" "feeds es (c @ data_msgs cs @ sync_pair ID_DONE ts @ rest)"
    using sv_read_feeds [of sv "sync_pair ID_DATA (of_nat (length c))" "c @ data_msgs cs @ sync_pair ID_DONE ts @ rest" 8] Cons.prems(1) by auto
  have un: "unat (of_nat (length c) :: u32) = length c" using Cons.prems(2) by (simp add: unat_of_nat)
  obtain es2 where r2: "sv_read (length c) (sv\<lparr>sv_in := es\<rparr>) = (Inr c, sv\<lparr>sv_in := es2\<rparr>)" "feeds es2 (data_msgs cs @ sync_pair ID_DONE ts @ rest)"
    using sv_read_feeds [of "sv\<lparr>sv_in := es\<rparr>" c "data_msgs cs @ sync_pair ID_DONE ts @ rest"] r(2) by auto
  obtain b where b: "block_of_range (se_junk E) c = Some b" "block_wf b" "block_bytes b = c"
    using block_of_range_wf block_of_range_Some by metis
  define d1 where "d1 = Decoder_Append b d"
  have q: "fifo_ok (dec_input d)" using Cons.prems(3) by (simp add: null_decoder_def)
  have d1: "null_decoder d1" "iov_bytes (dec_input d1) = c" "\<not> dec_finished d1"
    using iov_append_queue [OF q b(2)] Cons.prems(3-5) b(3) by (simp_all add: d1_def Decoder_Append_def null_decoder_def)
  obtain fd1 v where l: "decode_loop E fd d1 (sv\<lparr>sv_in := es2\<rparr>) =
      Some (Wants_input, fd1, d1\<lparr>dec_input := v\<rparr>, sv\<lparr>sv_in := es2, sv_fs := put_opt (se_files E) fd c (sv_fs sv)\<rparr>)"
    and fd1: "writable fd1" "\<forall>bs fs. put_opt (se_files E) fd1 bs fs = put_opt (se_files E) fd bs fs" and v: "fifo_ok v" "iov_bytes v = []"
    using decode_loop_null [OF d1(1) Cons.prems(6) assms(7), of "sv\<lparr>sv_in := es2\<rparr>"] d1(2,3) by auto
  have step: "file_data_loop E fd t d sv = file_data_loop E fd1 t (d1\<lparr>dec_input := v\<rparr>) (sv\<lparr>sv_in := es2, sv_fs := put_opt (se_files E) fd c (sv_fs sv)\<rparr>)"
    using r(1) r2(1) b(1) l un by (subst file_data_loop.simps) (simp add: sync_ids d1_def)
  have "\<exists>es'. file_data_loop E fd1 t (d1\<lparr>dec_input := v\<rparr>) (sv\<lparr>sv_in := es2, sv_fs := put_opt (se_files E) fd c (sv_fs sv)\<rparr>) =
      Some (Some ts, (sv\<lparr>sv_in := es2, sv_fs := put_opt (se_files E) fd c (sv_fs sv)\<rparr>)\<lparr>sv_in := es',
        sv_fs := put_opt (se_files E) fd1 (concat cs) (put_opt (se_files E) fd c (sv_fs sv))\<rparr>) \<and> feeds es' rest"
    using Cons.IH [of "sv\<lparr>sv_in := es2, sv_fs := put_opt (se_files E) fd c (sv_fs sv)\<rparr>" "d1\<lparr>dec_input := v\<rparr>" fd1]
      r2(2) Cons.prems(2) d1 v fd1(1) by (simp add: null_decoder_input)
  then show ?case using step fd1(2) put_opt_put [OF assms(7)] by auto
qed

lemma Decoder_new_null: "Decoder_new lib CompressNone SYNC_DATA_MAX = Some d \<Longrightarrow> null_decoder d \<and> iov_bytes (dec_input d) = [] \<and> \<not> dec_finished d"
  by (auto simp: Decoder_new_def null_decoder_def)

lemma handle_send_file_data_null:
  assumes "feeds (sv_in sv) (data_msgs chunks @ sync_pair ID_DONE ts @ rest)" and "list_all (\<lambda>c. length c < 2 ^ 32) chunks"
    and "writable fd" and "files_ok (se_files E)"
  shows "\<exists>es. handle_send_file_data E fd CompressNone sv = Some (Some ts, sv\<lparr>sv_in := es, sv_fs := put_opt (se_files E) fd (concat chunks) (sv_fs sv)\<rparr>) \<and> feeds es rest"
proof -
  obtain d where d: "Decoder_new (se_codecs E) CompressNone SYNC_DATA_MAX = Some d" by (simp add: Decoder_new_def)
  show ?thesis
    using file_data_loop_null [OF assms(1,2) _ _ _ assms(3,4)] Decoder_new_null [OF d] by (simp add: handle_send_file_data_def d)
qed

text \<open>The attributes a new file gets, and whether an old one is removed first.\<close>

definition file_attrs :: "('fs, 'c) sync_env \<Rightarrow> string \<Rightarrow> u32 \<Rightarrow> u32 \<times> u32 \<times> u32 \<times> u64" where
  "file_attrs E path mode =
     (if should_use_fs_config E path then adbd_fs_config E path False (-1, -1, file_mode mode, 0) else (-1, -1, file_mode mode, 0))"

definition cleared :: "('fs, 'c) sync_env \<Rightarrow> string \<Rightarrow> u32 \<Rightarrow> 'fs \<Rightarrow> 'fs" where
  "cleared E path mode fs =
     (if (case fs_lstat (se_files E) path fs of Inl e \<Rightarrow> True | Inr st \<Rightarrow> S_ISREG (st_mode st) \<or> (S_ISLNK (st_mode st) \<and> \<not> S_ISLNK mode))
      then fs_unlink (se_files E) path fs else fs)"

text \<open>
  The file system of the device after a file was stored: the file is opened, gets its owner, label and
  mode, then the data, then its capabilities and time.  \<^const>\<open>None\<close> is any failure of these calls.
\<close>

definition stored :: "('fs, 'c) sync_env \<Rightarrow> string \<Rightarrow> u32 \<Rightarrow> bytes \<Rightarrow> u32 \<Rightarrow> 'fs \<Rightarrow> 'fs option" where
  "stored E path mode data ts fs = do {
     let F = se_files E;
     let (uid, gid, m, cap) = file_attrs E path mode;
     (f, fs1) \<leftarrow> (case fs_open F path O_CREAT_EXCL m (cleared E path mode fs) of (Inr f, fs1) \<Rightarrow> Some (f, fs1) | (Inl e, _) \<Rightarrow> None);
     CHECK (writable (Some f));
     fs2 \<leftarrow> (case fs_fchown F (fst f) uid gid fs1 of (None, fs2) \<Rightarrow> Some fs2 | (Some e, _) \<Rightarrow> None);
     let fs3 = fs_put F (fst f) data (fs_fchmod F (fst f) m (if se_android E then fs_restorecon F path fs2 else fs2));
     fs4 \<leftarrow> (case update_capabilities E path cap fs3 of (None, fs4) \<Rightarrow> Some fs4 | (Some e, _) \<Rightarrow> None);
     Some (fs_lutimes F path ts fs4)
   }"

lemma storedE:
  assumes "stored E path mode data ts fs = Some fs'"
  obtains uid gid m cap f fs1 fs2 fs4 where "file_attrs E path mode = (uid, gid, m, cap)"
    and "fs_open (se_files E) path O_CREAT_EXCL m (cleared E path mode fs) = (Inr f, fs1)" and "writable (Some f)"
    and "fs_fchown (se_files E) (fst f) uid gid fs1 = (None, fs2)"
    and "update_capabilities E path cap (fs_put (se_files E) (fst f) data (fs_fchmod (se_files E) (fst f) m (if se_android E then fs_restorecon (se_files E) path fs2 else fs2))) = (None, fs4)"
    and "fs' = fs_lutimes (se_files E) path ts fs4"
proof -
  obtain uid gid m cap where a: "file_attrs E path mode = (uid, gid, m, cap)" by (metis prod_cases4)
  obtain r fs1 where o: "fs_open (se_files E) path O_CREAT_EXCL m (cleared E path mode fs) = (r, fs1)" by force
  obtain f where f: "r = Inr f" using assms a o by (cases r) (simp_all add: stored_def)
  obtain c fs2 where c: "fs_fchown (se_files E) (fst f) uid gid fs1 = (c, fs2)" by force
  have ck: "writable (Some f)" and cn: "c = None"
    using assms a o f c by (auto simp: stored_def Let_def split: bind_splits option.splits)
  obtain u fs4 where u: "update_capabilities E path cap (fs_put (se_files E) (fst f) data (fs_fchmod (se_files E) (fst f) m (if se_android E then fs_restorecon (se_files E) path fs2 else fs2))) = (u, fs4)"
    by force
  have "u = None" and "fs' = fs_lutimes (se_files E) path ts fs4"
    using assms ck unfolding stored_def a o f c cn Let_def prod.case sum.case Option.bind.simps option.case u by (auto split: option.splits)
  then show ?thesis using that [OF a] o f c cn u ck by blast
qed

lemma prepare_file_ok:
  assumes "fs_open (se_files E) path O_CREAT_EXCL m (sv_fs sv) = (Inr f, fs1)" and "fs_fchown (se_files E) (fst f) uid gid fs1 = (None, fs2)"
  shows "prepare_file E path uid gid m sv =
     (Some f, sv\<lparr>sv_fs := fs_fchmod (se_files E) (fst f) m (if se_android E then fs_restorecon (se_files E) path fs2 else fs2)\<rparr>)"
  using assms by (simp add: prepare_file_def open_for_send_def own_file_def Let_def)

lemma send_impl_stores:
  assumes "\<not> S_ISLNK mode" and "feeds (sv_in sv) (data_msgs chunks @ sync_pair ID_DONE ts @ rest)"
    and "list_all (\<lambda>c. length c < 2 ^ 32) chunks" and "benign (sv_out sv)" and "files_ok (se_files E)"
    and "stored E path mode (concat chunks) ts (sv_fs sv) = Some fs'"
  shows "\<exists>es os. send_impl E path mode CompressNone False sv = Some (True, sv\<lparr>sv_in := es, sv_out := os, sv_fs := fs'\<rparr>) \<and>
     feeds es rest \<and> took (sv_out sv) (sync_pair ID_OKAY 0) os"
proof -
  let ?F = "se_files E"
  obtain uid gid m cap f fs1 fs2 fs4 where a: "file_attrs E path mode = (uid, gid, m, cap)"
    and o: "fs_open ?F path O_CREAT_EXCL m (cleared E path mode (sv_fs sv)) = (Inr f, fs1)" and wr: "writable (Some f)"
    and c: "fs_fchown ?F (fst f) uid gid fs1 = (None, fs2)"
    and u: "update_capabilities E path cap (fs_put ?F (fst f) (concat chunks) (fs_fchmod ?F (fst f) m (if se_android E then fs_restorecon ?F path fs2 else fs2))) = (None, fs4)"
    and fs': "fs' = fs_lutimes ?F path ts fs4"
    using storedE [OF assms(6)] by blast
  define do_unlink where "do_unlink = (case fs_lstat ?F path (sv_fs sv) of Inl e \<Rightarrow> True | Inr st \<Rightarrow> S_ISREG (st_mode st) \<or> (S_ISLNK (st_mode st) \<and> \<not> S_ISLNK mode))"
  define sv1 where "sv1 = sv\<lparr>sv_fs := cleared E path mode (sv_fs sv)\<rparr>"
  define fs3 where "fs3 = fs_fchmod ?F (fst f) m (if se_android E then fs_restorecon ?F path fs2 else fs2)"
  have p: "prepare_file E path uid gid m sv1 = (Some f, sv\<lparr>sv_fs := fs3\<rparr>)"
    using prepare_file_ok [of E path m sv1 f fs1 uid gid fs2] o c by (simp add: sv1_def fs3_def)
  obtain es where d: "handle_send_file_data E (Some f) CompressNone (sv\<lparr>sv_fs := fs3\<rparr>) =
      Some (Some ts, sv\<lparr>sv_in := es, sv_fs := fs_put ?F (fst f) (concat chunks) fs3\<rparr>)" "feeds es rest"
    using handle_send_file_data_null [of "sv\<lparr>sv_fs := fs3\<rparr>", OF _ assms(3) wr assms(5)] assms(2) by (auto simp: put_opt_def)
  obtain os where w: "sv_write (sync_pair ID_OKAY 0) (sv\<lparr>sv_in := es, sv_fs := fs4\<rparr>) = (True, sv\<lparr>sv_in := es, sv_fs := fs4, sv_out := os\<rparr>)" "took (sv_out sv) (sync_pair ID_OKAY 0) os"
    using sv_write_took [of "sv\<lparr>sv_in := es, sv_fs := fs4\<rparr>" "sync_pair ID_OKAY 0"] assms(4) by auto
  have h: "handle_send_file E path uid gid cap m CompressNone False do_unlink sv1 = Some (Some ts, sv\<lparr>sv_in := es, sv_fs := fs4, sv_out := os\<rparr>)"
    using p d(1) u w(1) by (simp add: handle_send_file_def fs3_def)
  have cl: "(if do_unlink then sv\<lparr>sv_fs := fs_unlink ?F path (sv_fs sv)\<rparr> else sv) = sv1"
    by (simp add: sv1_def do_unlink_def cleared_def)
  have at: "(if \<not> False \<and> should_use_fs_config E path then adbd_fs_config E path False (-1, -1, file_mode mode, 0) else (-1, -1, file_mode mode, 0)) = (uid, gid, m, cap)"
    using a by (simp add: file_attrs_def)
  have "send_impl E path mode CompressNone False sv = Some (True, sv\<lparr>sv_in := es, sv_fs := fs', sv_out := os\<rparr>)"
    using assms(1) h unfolding send_impl_def Let_def not_False_eq_True simp_thms do_unlink_def [symmetric] cl at [simplified] by (simp add: fs')
  then show ?thesis using d(2) w(2) by (intro exI [of _ es] exI [of _ os]) simp
qed

section \<open>Requests\<close>

lemma handle_sync_command_reads:
  assumes "feeds (sv_in sv) (sync_pair i (of_nat (length path)) @ path @ rest)" and "length path \<le> 1024"
  shows "\<exists>es. handle_sync_command E sv = run_command E i (percent_s path) (sv\<lparr>sv_in := es\<rparr>) \<and> feeds es rest"
proof -
  obtain es where r: "sv_read 8 sv = (Inr (sync_pair i (of_nat (length path))), sv\<lparr>sv_in := es\<rparr>)" "feeds es (path @ rest)"
    using sv_read_feeds [OF assms(1), of 8] by auto
  obtain es2 where r2: "sv_read (length path) (sv\<lparr>sv_in := es\<rparr>) = (Inr path, sv\<lparr>sv_in := es2\<rparr>)" "feeds es2 rest"
    using sv_read_feeds [of "sv\<lparr>sv_in := es\<rparr>" path rest] r(2) by auto
  have un: "unat (of_nat (length path) :: u32) = length path" using assms(2) by (simp add: unat_of_nat)
  show ?thesis using r(1) r2 un assms(2) by (auto simp: handle_sync_command_def)
qed

end
