(* ===== verification/Adb_Sync_Client.thy ===== *)
theory Adb_Sync_Client
  imports Adb_Sync_Protocol Adb_Transport
begin

text \<open>
  The client's side of file synchronisation (\<open>client/file_sync_client.cpp\<close>): the connection with its
  deferred acknowledgements, the requests and their answers, and the commands push, pull, sync and ls
  built from them.

  The state is the connection object together with the local file system.  An operation answers what
  the method returns and the new state; \<^const>\<open>None\<close> is the end of the program (a fatal log
  message, \<open>_exit(1)\<close> in \<open>WriteOrDie\<close>) or a loop that does not end.  Lines for the terminal are collected;
  progress and transfer rates, which depend on the clock, are not modelled.  \<open>cl_mkdirs_errno\<close> is what \<open>errno\<close>
  holds after a failed \<open>mkdirs\<close>.
\<close>

unbundle bit_operations_syntax

section \<open>State\<close>

record TransferLedger =
  files_transferred :: u64
  files_skipped :: u64
  bytes_transferred :: u64
  bytes_expected :: u64
  expect_multiple_files :: bool

text \<open>\<open>Reset\<close> leaves \<open>expect_multiple_files\<close> as it is.\<close>

definition ledger_reset :: "TransferLedger \<Rightarrow> TransferLedger" where
  "ledger_reset l = l\<lparr>files_transferred := 0, files_skipped := 0, bytes_transferred := 0, bytes_expected := 0\<rparr>"

definition ledger_eq :: "TransferLedger \<Rightarrow> TransferLedger \<Rightarrow> bool" where
  "ledger_eq a b \<longleftrightarrow> files_transferred a = files_transferred b \<and> files_skipped a = files_skipped b \<and> bytes_transferred a = bytes_transferred b"

text \<open>
  \<open>SyncConnection\<close>: the socket, the features of the device, the files sent whose acknowledgement is
  outstanding with the bytes of the next one, the ledgers, the local files.  \<open>cn_polls\<close> are the coming answers
  of \<open>adb_poll\<close> (is there data, or an error), \<open>cn_lines\<close> what was printed, \<open>cn_shell\<close> the shell
  commands sent over other connections.
\<close>

record 'fs sync_conn =
  cn_in :: istream
  cn_out :: ostream
  cn_features :: "string list"
  cn_deferred :: "(string \<times> string) list"
  cn_ack :: bytes
  cn_current :: TransferLedger
  cn_global :: TransferLedger
  cn_polls :: "bool list"
  cn_lines :: "string list"
  cn_shell :: "string list"
  cn_fs :: 'fs

record ('fs, 'c) client_env =
  cl_lib :: libbase
  cl_Basename :: "string \<Rightarrow> string"
  cl_windows :: bool
  cl_burst :: bool
  cl_strerror :: "errno \<Rightarrow> string"
  cl_mkdirs_errno :: errno
  cl_host :: "string \<Rightarrow> nat"
  cl_codecs :: "'c codecs"
  cl_junk :: "nat \<Rightarrow> byte"
  cl_files :: "'fs files"
  cl_system :: "'fs host_system"
  cl_ReadFileToString :: "string \<Rightarrow> 'fs \<Rightarrow> errno + bytes"
  cl_utime :: "string \<Rightarrow> u64 \<Rightarrow> 'fs \<Rightarrow> bool \<times> 'fs"
  cl_chmod :: "string \<Rightarrow> u32 \<Rightarrow> 'fs \<Rightarrow> bool \<times> 'fs"
  cl_umask :: u32

definition cl_have :: "('fs, 'c) client_env \<Rightarrow> 'fs sync_conn \<Rightarrow> string \<Rightarrow> bool" where
  "cl_have E cn f = CanUseFeature True (cl_burst E) (cn_features cn) f"

definition Error :: "string \<Rightarrow> 'fs sync_conn \<Rightarrow> 'fs sync_conn" where
  "Error s cn = cn\<lparr>cn_lines := cn_lines cn @ [''adb: error: '' @ s]\<rparr>"

definition Warning :: "string \<Rightarrow> 'fs sync_conn \<Rightarrow> 'fs sync_conn" where
  "Warning s cn = cn\<lparr>cn_lines := cn_lines cn @ [''adb: warning: '' @ s]\<rparr>"

definition Println :: "string \<Rightarrow> 'fs sync_conn \<Rightarrow> 'fs sync_conn" where
  "Println s cn = cn\<lparr>cn_lines := cn_lines cn @ [s]\<rparr>"

definition quote :: "string \<Rightarrow> string" where
  "quote s = [CHR 0x27] @ percent_s s @ [CHR 0x27]"

definition RecordBytesTransferred :: "nat \<Rightarrow> 'fs sync_conn \<Rightarrow> 'fs sync_conn" where
  "RecordBytesTransferred n cn =
     cn\<lparr>cn_current := (cn_current cn)\<lparr>bytes_transferred := bytes_transferred (cn_current cn) + of_nat n\<rparr>,
        cn_global := (cn_global cn)\<lparr>bytes_transferred := bytes_transferred (cn_global cn) + of_nat n\<rparr>\<rparr>"

definition RecordFilesTransferred :: "nat \<Rightarrow> 'fs sync_conn \<Rightarrow> 'fs sync_conn" where
  "RecordFilesTransferred n cn =
     cn\<lparr>cn_current := (cn_current cn)\<lparr>files_transferred := files_transferred (cn_current cn) + of_nat n\<rparr>,
        cn_global := (cn_global cn)\<lparr>files_transferred := files_transferred (cn_global cn) + of_nat n\<rparr>\<rparr>"

definition RecordFilesSkipped :: "nat \<Rightarrow> 'fs sync_conn \<Rightarrow> 'fs sync_conn" where
  "RecordFilesSkipped n cn =
     cn\<lparr>cn_current := (cn_current cn)\<lparr>files_skipped := files_skipped (cn_current cn) + of_nat n\<rparr>,
        cn_global := (cn_global cn)\<lparr>files_skipped := files_skipped (cn_global cn) + of_nat n\<rparr>\<rparr>"

definition RecordFileSent :: "string \<Rightarrow> string \<Rightarrow> 'fs sync_conn \<Rightarrow> 'fs sync_conn" where
  "RecordFileSent src dst cn =
     (let cn1 = RecordFilesTransferred 1 cn in cn1\<lparr>cn_deferred := cn_deferred cn1 @ [(src, dst)]\<rparr>)"

definition NewTransfer :: "'fs sync_conn \<Rightarrow> 'fs sync_conn" where
  "NewTransfer cn = cn\<lparr>cn_current := ledger_reset (cn_current cn)\<rparr>"

definition SetExpectedTotalBytes :: "u64 \<Rightarrow> 'fs sync_conn \<Rightarrow> 'fs sync_conn" where
  "SetExpectedTotalBytes n cn = cn\<lparr>cn_current := (cn_current cn)\<lparr>bytes_expected := n, expect_multiple_files := False\<rparr>\<rparr>"

text \<open>\<open>ReportOverallTransferRate\<close>: only the case in which a line is printed, not its text.\<close>

definition overall_rate_shown :: "'fs sync_conn \<Rightarrow> bool" where
  "overall_rate_shown cn \<longleftrightarrow> \<not> ledger_eq (cn_current cn) (cn_global cn)"

definition ResolveCompressionType :: "('fs, 'c) client_env \<Rightarrow> 'fs sync_conn \<Rightarrow> CompressionType \<Rightarrow> CompressionType" where
  "ResolveCompressionType E cn compression =
     (if compression = CompressAny then
        if cl_have E cn ''sendrecv_v2_zstd'' then Zstd
        else if cl_have E cn ''sendrecv_v2_lz4'' then LZ4
        else if cl_have E cn ''sendrecv_v2_brotli'' then Brotli
        else CompressNone
      else compression)"

section \<open>Paths\<close>

definition adb_is_separator :: "('fs, 'c) client_env \<Rightarrow> char \<Rightarrow> bool" where
  "adb_is_separator E c \<longleftrightarrow> c = CHR ''/'' \<or> cl_windows E \<and> c = CHR 0x5C"

definition OS_PATH_SEPARATOR :: "('fs, 'c) client_env \<Rightarrow> char" where
  "OS_PATH_SEPARATOR E = (if cl_windows E then CHR 0x5C else CHR ''/'')"

text \<open>\<open>ensure_trailing_separators\<close>; \<open>back()\<close> of an empty string is undefined.\<close>

definition local_separator :: "('fs, 'c) client_env \<Rightarrow> string \<Rightarrow> string option" where
  "local_separator E path = do {
     CHECK (path \<noteq> []);
     Some (if adb_is_separator E (last path) then path else path @ [OS_PATH_SEPARATOR E])
   }"

definition remote_separator :: "string \<Rightarrow> string option" where
  "remote_separator path = do { CHECK (path \<noteq> []); Some (if last path = CHR ''/'' then path else path @ ''/'') }"

definition should_pull_file :: "u32 \<Rightarrow> bool" where
  "should_pull_file mode \<longleftrightarrow> S_ISREG mode \<or> S_ISBLK mode \<or> S_ISCHR mode"

definition should_push_file :: "u32 \<Rightarrow> bool" where
  "should_push_file mode \<longleftrightarrow> S_ISREG mode \<or> S_ISLNK mode"

record copyinfo =
  ci_lpath :: string
  ci_rpath :: string
  ci_time :: u64
  ci_mode :: u32
  ci_size :: u64
  ci_skip :: bool

definition copyinfo_new :: "('fs, 'c) client_env \<Rightarrow> string \<Rightarrow> string \<Rightarrow> string \<Rightarrow> u32 \<Rightarrow> copyinfo option" where
  "copyinfo_new E local_path remote_path name mode = do {
     l \<leftarrow> local_separator E local_path;
     r \<leftarrow> remote_separator remote_path;
     (l2, r2) \<leftarrow> (if S_ISDIR mode then do { l2 \<leftarrow> local_separator E (l @ name); r2 \<leftarrow> remote_separator (r @ name); Some (l2, r2) }
                   else Some (l @ name, r @ name));
     Some \<lparr>ci_lpath = l2, ci_rpath = r2, ci_time = 0, ci_mode = mode, ci_size = 0, ci_skip = False\<rparr>
   }"

definition IsDotOrDotDot :: "string \<Rightarrow> bool" where
  "IsDotOrDotDot name \<longleftrightarrow> name = ''.'' \<or> name = ''..''"

definition is_root_dir :: "string \<Rightarrow> bool" where
  "is_root_dir path \<longleftrightarrow> list_all (\<lambda>c. c = CHR ''/'') path"

definition ComputeExpectedTotalBytes :: "copyinfo list \<Rightarrow> 'fs sync_conn \<Rightarrow> 'fs sync_conn" where
  "ComputeExpectedTotalBytes file_list cn =
     cn\<lparr>cn_current := (cn_current cn)\<lparr>bytes_expected := sum_list (map ci_size (filter (\<lambda>ci. \<not> ci_skip ci) file_list)), expect_multiple_files := True\<rparr>\<rparr>"

section \<open>Requests\<close>

definition cn_read :: "nat \<Rightarrow> 'fs sync_conn \<Rightarrow> (errno + bytes) \<times> 'fs sync_conn" where
  "cn_read n cn = (let (r, es) = ReadFdExactly n (cn_in cn) in (r, cn\<lparr>cn_in := es\<rparr>))"

definition cn_write :: "bytes \<Rightarrow> 'fs sync_conn \<Rightarrow> errno option \<times> 'fs sync_conn" where
  "cn_write bs cn = (let (r, os) = WriteFdExactly bs (cn_out cn) in (r, cn\<lparr>cn_out := os\<rparr>))"

definition path_too_long :: "string \<Rightarrow> nat \<Rightarrow> 'fs sync_conn \<Rightarrow> errno option \<times> 'fs sync_conn" where
  "path_too_long what n cn = (Some ENAMETOOLONG, Error (what @ '' failed: path too long: '' @ dec_digits n) cn)"

definition SendRequest :: "u32 \<Rightarrow> string \<Rightarrow> 'fs sync_conn \<Rightarrow> errno option \<times> 'fs sync_conn" where
  "SendRequest i path cn =
     (if length path > 1024 then path_too_long ''SendRequest'' (length path) cn
      else cn_write (sync_pair i (of_nat (length path)) @ path) cn)"

definition compression_flag :: "CompressionType \<Rightarrow> u32 option" where
  "compression_flag compression =
     (case compression of
        CompressNone \<Rightarrow> Some 0 | Brotli \<Rightarrow> Some kSyncFlagBrotli | LZ4 \<Rightarrow> Some kSyncFlagLZ4 | Zstd \<Rightarrow> Some kSyncFlagZstd
      | CompressAny \<Rightarrow> None)"

definition SendSend2 :: "string \<Rightarrow> u32 \<Rightarrow> CompressionType \<Rightarrow> bool \<Rightarrow> 'fs sync_conn \<Rightarrow> (errno option \<times> 'fs sync_conn) option" where
  "SendSend2 path mode compression dry_run cn =
     (if length path > 1024 then Some (path_too_long ''SendRequest'' (length path) cn)
      else do {
        flags \<leftarrow> compression_flag compression;
        let flags1 = (if dry_run then flags OR kSyncFlagDryRun else flags);
        Some (cn_write (sync_pair ID_SEND_V2 (of_nat (length path)) @ path @ send_v2_setup mode flags1) cn)
      })"

definition SendRecv2 :: "string \<Rightarrow> CompressionType \<Rightarrow> 'fs sync_conn \<Rightarrow> (errno option \<times> 'fs sync_conn) option" where
  "SendRecv2 path compression cn =
     (if length path > 1024 then Some (path_too_long ''SendRequest'' (length path) cn)
      else do {
        flags \<leftarrow> compression_flag compression;
        Some (cn_write (sync_pair ID_RECV_V2 (of_nat (length path)) @ path @ recv_v2_setup flags) cn)
      })"

definition SendStat :: "('fs, 'c) client_env \<Rightarrow> string \<Rightarrow> 'fs sync_conn \<Rightarrow> errno option \<times> 'fs sync_conn" where
  "SendStat E path cn = (if \<not> cl_have E cn ''stat_v2'' then (Some ENOTSUP, cn) else SendRequest ID_STAT_V2 path cn)"

definition SendLstat :: "('fs, 'c) client_env \<Rightarrow> string \<Rightarrow> 'fs sync_conn \<Rightarrow> errno option \<times> 'fs sync_conn" where
  "SendLstat E path cn = SendRequest (if cl_have E cn ''stat_v2'' then ID_LSTAT_V2 else ID_LSTAT_V1) path cn"

text \<open>\<open>FinishStat\<close>: the attributes, or the error number; a fault of the protocol ends the program.\<close>

definition FinishStat :: "('fs, 'c) client_env \<Rightarrow> 'fs sync_conn \<Rightarrow> ((errno + stat) \<times> 'fs sync_conn) option" where
  "FinishStat E cn =
     (if cl_have E cn ''stat_v2'' then
        (case cn_read 72 cn of
           (Inl e, cn1) \<Rightarrow> None
         | (Inr bs, cn1) \<Rightarrow> do {
             let m = get_stat_v2 bs;
             CHECK (s2_id m = ID_LSTAT_V2 \<or> s2_id m = ID_STAT_V2);
             Some (if s2_error m \<noteq> 0 then Inl (errno_of (errno_from_wire (cl_host E) (unat (s2_error m)))) else Inr (s2_stat m), cn1)
           })
      else
        (case cn_read 16 cn of
           (Inl e, cn1) \<Rightarrow> None
         | (Inr bs, cn1) \<Rightarrow> do {
             let m = get_stat_v1 bs;
             CHECK (s1_id m = ID_LSTAT_V1);
             Some (if s1_mode m = 0 \<and> s1_size m = 0 \<and> s1_mtime m = 0 then Inl ENOPROTOOPT
                   else Inr (no_stat\<lparr>st_mode := s1_mode m, st_size := ucast (s1_size m), st_ctime := ucast (s1_mtime m), st_mtime := ucast (s1_mtime m)\<rparr>), cn1)
           }))"

definition SendLs :: "('fs, 'c) client_env \<Rightarrow> string \<Rightarrow> 'fs sync_conn \<Rightarrow> errno option \<times> 'fs sync_conn" where
  "SendLs E path cn = SendRequest (if cl_have E cn ''ls_v2'' then ID_LIST_V2 else ID_LIST_V1) path cn"

text \<open>
  \<open>FinishLsImpl\<close>: the calls of the callback in order (mode, size, time, name), and whether the listing was
  complete and sound.
\<close>

type_synonym ls_entry = "u32 \<times> u64 \<times> u64 \<times> string"

definition get_dent :: "bool \<Rightarrow> bytes \<Rightarrow> u32 \<times> u32 \<times> u64 \<times> u64 \<times> u32" where
  "get_dent v2 bs =
     (if v2 then (let d = get_dent_v2 bs; st = s2_stat (d2_stat d) in (s2_id (d2_stat d), st_mode st, st_size st, st_mtime st, d2_namelen d))
      else (let d = get_dent_v1 bs; m = d1_stat d in (s1_id m, s1_mode m, ucast (s1_size m), ucast (s1_mtime m), d1_namelen d)))"

partial_function (option) FinishLsImpl ::
    "('fs, 'c) client_env \<Rightarrow> bool \<Rightarrow> ls_entry list \<Rightarrow> 'fs sync_conn \<Rightarrow> (bool \<times> ls_entry list \<times> 'fs sync_conn) option" where
  "FinishLsImpl E v2 calls cn =
     (case cn_read (if v2 then 76 else 20) cn of
        (Inl e, cn1) \<Rightarrow> Some (False, calls, cn1)
      | (Inr bs, cn1) \<Rightarrow>
          (let (i, mode, size, mtime, namelen) = get_dent v2 bs in
           if i = ID_DONE then Some (True, calls, cn1)
           else if i \<noteq> (if v2 then ID_DENT_V2 else ID_DENT_V1) then Some (False, calls, cn1)
           else if unat namelen > 255 then Some (False, calls, cn1)
           else (case cn_read (unat namelen) cn1 of
                   (Inl e, cn2) \<Rightarrow> Some (False, calls, cn2)
                 | (Inr buf, cn2) \<Rightarrow>
                     (let name = percent_s buf in
                      if CHR ''/'' \<in> set name \<or> cl_windows E \<and> CHR 0x5C \<in> set name then Some (False, calls, cn2)
                      else FinishLsImpl E v2 (calls @ [(mode, size, mtime, name)]) cn2))))"

definition FinishLs :: "('fs, 'c) client_env \<Rightarrow> 'fs sync_conn \<Rightarrow> (bool \<times> ls_entry list \<times> 'fs sync_conn) option" where
  "FinishLs E cn = FinishLsImpl E (cl_have E cn ''ls_v2'') [] cn"

section \<open>Sending files\<close>

text \<open>\<open>WriteOrDie\<close>: on a failed write the program prints why and ends.\<close>

definition WriteOrDie :: "bytes \<Rightarrow> 'fs sync_conn \<Rightarrow> 'fs sync_conn option" where
  "WriteOrDie bs cn = (case cn_write bs cn of (None, cn1) \<Rightarrow> Some cn1 | (Some e, cn1) \<Rightarrow> None)"

text \<open>\<open>"%s,%d"\<close> of the path and the mode.\<close>

definition path_and_mode :: "string \<Rightarrow> u32 \<Rightarrow> string" where
  "path_and_mode path mode = percent_s path @ '','' @ format_d (sint mode)"

definition finish_send :: "string \<Rightarrow> string \<Rightarrow> u32 \<Rightarrow> 'fs sync_conn \<Rightarrow> (bool \<times> 'fs sync_conn) option" where
  "finish_send lpath rpath mtime cn = do {
     cn1 \<leftarrow> WriteOrDie (sync_pair ID_DONE mtime) (RecordFileSent lpath rpath cn);
     Some (True, cn1)
   }"

text \<open>The local file of a large transfer: its attributes are asked for, then it is opened.\<close>

definition open_source :: "('fs, 'c) client_env \<Rightarrow> string \<Rightarrow> 'fs sync_conn \<Rightarrow> istream option \<times> 'fs sync_conn" where
  "open_source E lpath cn =
     (case fs_stat (cl_files E) lpath (cn_fs cn) of
        Inl e \<Rightarrow> (None, Error (''cannot stat '' @ quote lpath @ '': '' @ cl_strerror E e) cn)
      | Inr st \<Rightarrow>
          (case fs_open_read (cl_files E) lpath (cn_fs cn) of
             Inl e \<Rightarrow> (None, Error (''opening '' @ quote lpath @ '' locally failed: '' @ cl_strerror E e) cn)
           | Inr fd \<Rightarrow> (Some fd, cn)))"

definition read_failed :: "('fs, 'c) client_env \<Rightarrow> string \<Rightarrow> errno \<Rightarrow> 'fs sync_conn \<Rightarrow> bool \<times> 'fs sync_conn" where
  "read_failed E lpath e cn = (False, Error (''reading '' @ quote lpath @ '' locally failed: '' @ cl_strerror E e) cn)"

partial_function (option) legacy_loop ::
    "('fs, 'c) client_env \<Rightarrow> string \<Rightarrow> string \<Rightarrow> u32 \<Rightarrow> istream \<Rightarrow> 'fs sync_conn \<Rightarrow> (bool \<times> 'fs sync_conn) option" where
  "legacy_loop E lpath rpath mtime fd cn =
     (case adb_read SYNC_DATA_MAX fd of
        (Inl e, fd1) \<Rightarrow> Some (read_failed E lpath e cn)
      | (Inr data, fd1) \<Rightarrow>
          if data = [] then finish_send lpath rpath mtime cn
          else do {
            cn1 \<leftarrow> WriteOrDie (sync_pair ID_DATA (of_nat (length data)) @ data) cn;
            legacy_loop E lpath rpath mtime fd1 (RecordBytesTransferred (length data) cn1)
          })"

definition SendLargeFileLegacy ::
    "('fs, 'c) client_env \<Rightarrow> string \<Rightarrow> u32 \<Rightarrow> string \<Rightarrow> string \<Rightarrow> u32 \<Rightarrow> 'fs sync_conn \<Rightarrow> (bool \<times> 'fs sync_conn) option" where
  "SendLargeFileLegacy E path mode lpath rpath mtime cn =
     (case SendRequest ID_SEND_V1 (path_and_mode path mode) cn of
        (Some e, cn1) \<Rightarrow> Some (False, Error (''failed to send ID_SEND_V1 message '' @ quote (path_and_mode path mode) @ '': '' @ cl_strerror E e) cn1)
      | (None, cn1) \<Rightarrow>
          (case open_source E lpath cn1 of
             (None, cn2) \<Rightarrow> Some (False, cn2)
           | (Some fd, cn2) \<Rightarrow> legacy_loop E lpath rpath mtime fd cn2))"

partial_function (option) client_encode_loop ::
    "('fs, 'c) client_env \<Rightarrow> string \<Rightarrow> 'c Encoder \<Rightarrow> 'fs sync_conn \<Rightarrow> (loop_end \<times> 'c Encoder \<times> 'fs sync_conn) option" where
  "client_encode_loop E lpath e cn = do {
     (result, output, e1) \<leftarrow> Encode (cl_codecs E) (cl_junk E) block_new e;
     if result = Encode_Error then Some (Transfer_failed, e1, Error (''compressing '' @ quote lpath @ '' locally failed'') cn)
     else do {
       cn1 \<leftarrow> (if \<not> block_empty output
               then do { CHECK (blk_size output \<le> SYNC_DATA_MAX); WriteOrDie (sync_pair ID_DATA (of_nat (blk_size output)) @ block_bytes output) cn }
               else Some cn);
       if result = Encode_Done then Some (Transfer_done, e1, cn1)
       else if result = Encode_NeedInput then Some (Wants_input, e1, cn1)
       else client_encode_loop E lpath e1 cn1
     }
   }"

partial_function (option) send_loop ::
    "('fs, 'c) client_env \<Rightarrow> string \<Rightarrow> string \<Rightarrow> u32 \<Rightarrow> istream \<Rightarrow> 'c Encoder \<Rightarrow> 'fs sync_conn \<Rightarrow> (bool \<times> 'fs sync_conn) option" where
  "send_loop E lpath rpath mtime fd e cn =
     (case adb_read SYNC_DATA_MAX fd of
        (Inl err, fd1) \<Rightarrow> Some (read_failed E lpath err cn)
      | (Inr data, fd1) \<Rightarrow> do {
          e1 \<leftarrow> (if data = [] then Encoder_Finish e
                 else do { b \<leftarrow> read_block (cl_junk E) data; Some (Encoder_Append b e) });
          let cn1 = (if data = [] then cn else RecordBytesTransferred (length data) cn);
          (r, e2, cn2) \<leftarrow> client_encode_loop E lpath e1 cn1;
          if r = Transfer_failed then Some (False, cn2)
          else if r = Wants_input then send_loop E lpath rpath mtime fd1 e2 cn2
          else finish_send lpath rpath mtime cn2
        })"

definition SendLargeFile ::
    "('fs, 'c) client_env \<Rightarrow> string \<Rightarrow> u32 \<Rightarrow> string \<Rightarrow> string \<Rightarrow> u32 \<Rightarrow> CompressionType \<Rightarrow> bool \<Rightarrow> 'fs sync_conn \<Rightarrow> (bool \<times> 'fs sync_conn) option" where
  "SendLargeFile E path mode lpath rpath mtime compression dry_run cn =
     (if dry_run \<and> \<not> cl_have E cn ''sendrecv_v2_dry_run_send'' then Some (False, Error ''dry-run not supported by the device'' cn)
      else if \<not> cl_have E cn ''sendrecv_v2'' then SendLargeFileLegacy E path mode lpath rpath mtime cn
      else do {
        let c = ResolveCompressionType E cn compression;
        (r, cn1) \<leftarrow> SendSend2 path mode c dry_run cn;
        (case r of
           Some e \<Rightarrow> Some (False, Error (''failed to send ID_SEND_V2 message '' @ quote path @ '': '' @ cl_strerror E e) cn1)
         | None \<Rightarrow>
             (case open_source E lpath cn1 of
                (None, cn2) \<Rightarrow> Some (False, cn2)
              | (Some fd, cn2) \<Rightarrow> do {
                  e \<leftarrow> Encoder_new (cl_codecs E) (cl_junk E) c SYNC_DATA_MAX;
                  send_loop E lpath rpath mtime fd e cn2
                }))
      })"

definition SendSmallFile ::
    "('fs, 'c) client_env \<Rightarrow> string \<Rightarrow> u32 \<Rightarrow> string \<Rightarrow> string \<Rightarrow> u32 \<Rightarrow> bytes \<Rightarrow> bool \<Rightarrow> 'fs sync_conn \<Rightarrow> (bool \<times> 'fs sync_conn) option" where
  "SendSmallFile E path mode lpath rpath mtime data dry_run cn =
     (if dry_run then SendLargeFile E path mode lpath rpath mtime CompressNone dry_run cn
      else let pm = path_and_mode path mode in
        if length pm > 1024 then Some (False, snd (path_too_long ''SendSmallFile'' (length pm) cn))
        else do {
          cn1 \<leftarrow> WriteOrDie (sync_pair ID_SEND_V1 (of_nat (length pm)) @ pm @ sync_pair ID_DATA (of_nat (length data)) @ data @ sync_pair ID_DONE mtime) cn;
          Some (True, RecordBytesTransferred (length data) (RecordFileSent lpath rpath cn1))
        })"

section \<open>Acknowledgements\<close>

text \<open>
  \<open>ReportCopyFailure\<close>: reads the reason, of which the C string is shown.  The buffer has \<open>msglen + 1\<close> bytes, a
  sum of 32 bits: for the largest length it is empty and the read leaves it.
\<close>

definition ReportCopyFailure :: "('fs, 'c) client_env \<Rightarrow> string \<Rightarrow> string \<Rightarrow> u32 \<Rightarrow> 'fs sync_conn \<Rightarrow> (bool \<times> 'fs sync_conn) option" where
  "ReportCopyFailure E src dst msglen cn = do {
     CHECK (unat msglen < unat (msglen + 1));
     (case cn_read (unat msglen) cn of
        (Inl e, cn1) \<Rightarrow> Some (False, Error (''failed to copy '' @ quote src @ '' to '' @ quote dst @ ''; failed to read reason (!): '' @ cl_strerror E e) cn1)
      | (Inr buf, cn1) \<Rightarrow> Some (False, Error (''failed to copy '' @ quote src @ '' to '' @ quote dst @ '': remote '' @ percent_s buf) cn1))
   }"

text \<open>\<open>pop_front\<close> and \<open>front\<close> of an empty deque are undefined.\<close>

definition CopyDone :: "'fs sync_conn \<Rightarrow> 'fs sync_conn option" where
  "CopyDone cn = do { CHECK (cn_deferred cn \<noteq> []); Some (cn\<lparr>cn_deferred := tl (cn_deferred cn)\<rparr>) }"

definition ReportDeferredCopyFailure :: "string \<Rightarrow> 'fs sync_conn \<Rightarrow> 'fs sync_conn option" where
  "ReportDeferredCopyFailure msg cn = do {
     CHECK (cn_deferred cn \<noteq> []);
     let (src, dst) = hd (cn_deferred cn);
     let cn1 = Error (''failed to copy '' @ quote src @ '' to '' @ quote dst @ '': remote '' @ percent_s msg) cn;
     Some (cn1\<lparr>cn_deferred := tl (cn_deferred cn1)\<rparr>)
   }"

datatype ReadStatus = ReadSuccess | ReadFailure | ReadTryLater

definition max_deferred_acks :: nat where
  "max_deferred_acks = 128"

text \<open>\<open>adb_poll\<close> with a timeout of zero: whether it reports data or an error.\<close>

definition cn_poll :: "'fs sync_conn \<Rightarrow> bool \<times> 'fs sync_conn" where
  "cn_poll cn = (case cn_polls cn of [] \<Rightarrow> (False, cn) | p # ps \<Rightarrow> (p, cn\<lparr>cn_polls := ps\<rparr>))"

text \<open>The closure \<open>read_until_amount\<close>.\<close>

function read_until_amount :: "('fs, 'c) client_env \<Rightarrow> bool \<Rightarrow> nat \<Rightarrow> 'fs sync_conn \<Rightarrow> ReadStatus \<times> 'fs sync_conn" where
  "read_until_amount E should_block amount cn =
     (if length (cn_ack cn) < amount then
        let (ready, cn1) = (if should_block then (True, cn) else cn_poll cn)
        in if \<not> ready then (ReadTryLater, cn1)
           else (case adb_read (amount - length (cn_ack cn)) (cn_in cn1) of
                   (Inl e, es) \<Rightarrow> (ReadFailure, Error (''failed to read copy response: '' @ cl_strerror E e) (cn1\<lparr>cn_in := es\<rparr>))
                 | (Inr bs, es) \<Rightarrow>
                     if bs = [] then (ReadFailure, Error ''failed to read copy response: EOF'' (cn1\<lparr>cn_in := es\<rparr>))
                     else (let cn2 = cn1\<lparr>cn_in := es, cn_ack := cn_ack cn @ bs\<rparr>
                           in if \<not> should_block \<and> length (cn_ack cn2) < amount then (ReadTryLater, cn2)
                              else read_until_amount E should_block amount cn2))
      else (ReadSuccess, cn))"
  by pat_completeness auto
termination
  by (relation "measure (\<lambda>(E, b, amount, cn). amount - length (cn_ack cn))") (auto intro!: diff_less_mono2)

declare read_until_amount.simps [simp del]

partial_function (option) ReadAcknowledgements :: "('fs, 'c) client_env \<Rightarrow> bool \<Rightarrow> 'fs sync_conn \<Rightarrow> (bool \<times> 'fs sync_conn) option" where
  "ReadAcknowledgements E read_all cn =
     (if cn_deferred cn = [] then Some (True, cn)
      else let should_block = (read_all \<or> length (cn_deferred cn) \<ge> max_deferred_acks) in
        case read_until_amount E should_block 8 cn of
          (ReadTryLater, cn1) \<Rightarrow> Some (True, cn1)
        | (ReadFailure, cn1) \<Rightarrow> Some (False, cn1)
        | (ReadSuccess, cn1) \<Rightarrow>
            (let (i, msglen) = get_pair (cn_ack cn1) in
             if i = ID_OKAY then
               let cn2 = cn1\<lparr>cn_ack := []\<rparr> in
               if msglen \<noteq> 0 then Some (False, Error (''received ID_OKAY with msg_len ('' @ dec_digits (unat msglen) @ '' != 0'') cn2)
               else do { cn3 \<leftarrow> CopyDone cn2; ReadAcknowledgements E read_all cn3 }
             else if i \<noteq> ID_FAIL then Some (False, Error (''unexpected response from daemon: id = 0x'' @ hex_digits (unat i)) cn1)
             else if unat msglen > SYNC_DATA_MAX then Some (False, Error (''too-long message length from daemon: msglen = '' @ dec_digits (unat msglen)) cn1)
             else (case read_until_amount E should_block (8 + unat msglen) cn1 of
                     (ReadTryLater, cn2) \<Rightarrow> Some (True, cn2)
                   | (ReadFailure, cn2) \<Rightarrow> Some (False, cn2)
                   | (ReadSuccess, cn2) \<Rightarrow> do {
                       cn3 \<leftarrow> ReportDeferredCopyFailure (drop 8 (cn_ack cn2)) cn2;
                       Some (False, cn3\<lparr>cn_ack := []\<rparr>)
                     })))"

section \<open>Queries\<close>

definition sync_ls :: "('fs, 'c) client_env \<Rightarrow> string \<Rightarrow> 'fs sync_conn \<Rightarrow> (bool \<times> ls_entry list \<times> 'fs sync_conn) option" where
  "sync_ls E path cn = (case SendLs E path cn of (Some e, cn1) \<Rightarrow> Some (False, [], cn1) | (None, cn1) \<Rightarrow> FinishLs E cn1)"

definition sync_stat :: "('fs, 'c) client_env \<Rightarrow> string \<Rightarrow> 'fs sync_conn \<Rightarrow> ((errno + stat) \<times> 'fs sync_conn) option" where
  "sync_stat E path cn = (case SendStat E path cn of (Some e, cn1) \<Rightarrow> Some (Inl e, cn1) | (None, cn1) \<Rightarrow> FinishStat E cn1)"

definition sync_lstat :: "('fs, 'c) client_env \<Rightarrow> string \<Rightarrow> 'fs sync_conn \<Rightarrow> ((errno + stat) \<times> 'fs sync_conn) option" where
  "sync_lstat E path cn = (case SendLstat E path cn of (Some e, cn1) \<Rightarrow> Some (Inl e, cn1) | (None, cn1) \<Rightarrow> FinishStat E cn1)"

definition sync_stat_fallback :: "('fs, 'c) client_env \<Rightarrow> string \<Rightarrow> 'fs sync_conn \<Rightarrow> ((errno + stat) \<times> 'fs sync_conn) option" where
  "sync_stat_fallback E path cn = do {
     (r, cn1) \<leftarrow> sync_stat E path cn;
     (case r of
        Inr st \<Rightarrow> Some (Inr st, cn1)
      | Inl e \<Rightarrow>
          if e \<noteq> ENOTSUP then Some (Inl e, cn1)
          else do {
            (r2, cn2) \<leftarrow> sync_lstat E path cn1;
            (case r2 of
               Inl e2 \<Rightarrow> Some (Inl e2, cn2)
             | Inr st \<Rightarrow>
                 if S_ISLNK (st_mode st) then do {
                   (r3, cn3) \<leftarrow> sync_lstat E (path @ ''/'') cn2;
                   let kind = (case r3 of Inr tmp_st \<Rightarrow> S_IFDIR | Inl e3 \<Rightarrow> S_IFREG);
                   Some (Inr (st\<lparr>st_size := 0, st_mode := (st_mode st AND NOT S_IFMT) OR kind\<rparr>), cn3)
                 } else Some (Inr st, cn2))
          })
   }"

section \<open>One file\<close>

definition PATH_MAX :: nat where
  "PATH_MAX = 4096"

definition sync_send ::
    "('fs, 'c) client_env \<Rightarrow> string \<Rightarrow> string \<Rightarrow> u32 \<Rightarrow> u32 \<Rightarrow> bool \<Rightarrow> CompressionType \<Rightarrow> bool \<Rightarrow> 'fs sync_conn \<Rightarrow> (bool \<times> 'fs sync_conn) option" where
  "sync_send E lpath rpath mtime mode sync compression dry_run cn = do {
     (same, cn1) \<leftarrow>
       (if sync then do {
          (r, cn1) \<leftarrow> sync_lstat E rpath cn;
          Some (case r of Inr st \<Rightarrow> st_mtime st = ucast mtime | Inl e \<Rightarrow> False, cn1)
        } else Some (False, cn));
     if same then Some (True, RecordFilesSkipped 1 cn1)
     else if S_ISLNK mode \<and> \<not> cl_windows E then
       (case fs_readlink (cl_files E) lpath (cn_fs cn1) of
          Inl e \<Rightarrow> Some (False, Error (''readlink '' @ quote lpath @ '' failed: '' @ cl_strerror E e) cn1)
        | Inr target \<Rightarrow> do {
            (ok, cn2) \<leftarrow> SendSmallFile E rpath mode lpath rpath mtime (take (PATH_MAX - 1) target @ [CHR 0x00]) dry_run cn1;
            if \<not> ok then Some (False, cn2) else ReadAcknowledgements E sync cn2
          })
     else
       (case fs_stat (cl_files E) lpath (cn_fs cn1) of
          Inl e \<Rightarrow> Some (False, Error (''failed to stat local file '' @ quote lpath @ '': '' @ cl_strerror E e) cn1)
        | Inr st \<Rightarrow>
            if sint (st_size st) < int SYNC_DATA_MAX then
              (case cl_ReadFileToString E lpath (cn_fs cn1) of
                 Inl e \<Rightarrow> Some (False, Error (''failed to read all of '' @ quote lpath @ '': '' @ cl_strerror E e) cn1)
               | Inr data \<Rightarrow> do {
                   (ok, cn2) \<leftarrow> SendSmallFile E rpath mode lpath rpath mtime data dry_run cn1;
                   if \<not> ok then Some (False, cn2) else ReadAcknowledgements E sync cn2
                 })
            else do {
              (ok, cn2) \<leftarrow> SendLargeFile E rpath mode lpath rpath mtime compression dry_run cn1;
              if \<not> ok then Some (False, cn2) else ReadAcknowledgements E sync cn2
            })
   }"

definition unlink_local :: "('fs, 'c) client_env \<Rightarrow> string \<Rightarrow> 'fs sync_conn \<Rightarrow> 'fs sync_conn" where
  "unlink_local E lpath cn = cn\<lparr>cn_fs := fs_unlink (cl_files E) lpath (cn_fs cn)\<rparr>"

text \<open>The destination of a pull: removed, then created.\<close>

definition create_local :: "('fs, 'c) client_env \<Rightarrow> string \<Rightarrow> 'fs sync_conn \<Rightarrow> wfile option \<times> 'fs sync_conn" where
  "create_local E lpath cn =
     (let cn1 = unlink_local E lpath cn in
      case fs_open (cl_files E) lpath O_CREAT_TRUNC 0x1A4 (cn_fs cn1) of
        (Inl e, fs1) \<Rightarrow> (None, Error (''cannot create '' @ quote lpath @ '': '' @ cl_strerror E e) (cn1\<lparr>cn_fs := fs1\<rparr>))
      | (Inr f, fs1) \<Rightarrow> (Some f, cn1\<lparr>cn_fs := fs1\<rparr>))"

definition too_large :: "u32 \<Rightarrow> 'fs sync_conn \<Rightarrow> 'fs sync_conn" where
  "too_large n cn = Error (''msg.data.size too large: '' @ dec_digits (unat n) @ '' (max '' @ dec_digits SYNC_DATA_MAX @ '')'') cn"

partial_function (option) recv_v1_loop ::
    "('fs, 'c) client_env \<Rightarrow> string \<Rightarrow> string \<Rightarrow> wfile \<Rightarrow> 'fs sync_conn \<Rightarrow> (bool \<times> 'fs sync_conn) option" where
  "recv_v1_loop E rpath lpath f cn =
     (case cn_read 8 cn of
        (Inl e, cn1) \<Rightarrow> Some (False, unlink_local E lpath cn1)
      | (Inr hdr, cn1) \<Rightarrow>
          (let (i, size) = get_pair hdr in
           if i = ID_DONE then Some (True, RecordFilesTransferred 1 cn1)
           else if i \<noteq> ID_DATA then ReportCopyFailure E rpath lpath size (unlink_local E lpath cn1)
           else if unat size > SYNC_DATA_MAX then Some (False, unlink_local E lpath (too_large size cn1))
           else (case cn_read (unat size) cn1 of
                   (Inl e, cn2) \<Rightarrow> Some (False, unlink_local E lpath cn2)
                 | (Inr data, cn2) \<Rightarrow>
                     (case write_file (cl_files E) data f (cn_fs cn2) of
                        (Some e, f1, fs1) \<Rightarrow> Some (False, unlink_local E lpath (Error (''cannot write '' @ quote lpath @ '': '' @ cl_strerror E e) (cn2\<lparr>cn_fs := fs1\<rparr>)))
                      | (None, f1, fs1) \<Rightarrow> recv_v1_loop E rpath lpath f1 (RecordBytesTransferred (unat size) (cn2\<lparr>cn_fs := fs1\<rparr>))))))"

definition sync_recv_v1 :: "('fs, 'c) client_env \<Rightarrow> string \<Rightarrow> string \<Rightarrow> 'fs sync_conn \<Rightarrow> (bool \<times> 'fs sync_conn) option" where
  "sync_recv_v1 E rpath lpath cn =
     (case SendRequest ID_RECV_V1 rpath cn of
        (Some e, cn1) \<Rightarrow> Some (False, cn1)
      | (None, cn1) \<Rightarrow>
          (case create_local E lpath cn1 of
             (None, cn2) \<Rightarrow> Some (False, cn2)
           | (Some f, cn2) \<Rightarrow> recv_v1_loop E rpath lpath f cn2))"

partial_function (option) client_decode_loop ::
    "('fs, 'c) client_env \<Rightarrow> string \<Rightarrow> wfile \<Rightarrow> 'c Decoder \<Rightarrow> 'fs sync_conn \<Rightarrow> (loop_end \<times> wfile \<times> 'c Decoder \<times> 'fs sync_conn) option" where
  "client_decode_loop E lpath f d cn = do {
     (result, output, d1) \<leftarrow> Decode (cl_codecs E) d;
     if result = Decode_Error then Some (Transfer_failed, f, d1, unlink_local E lpath (Error ''decompress failed'' cn))
     else do {
       let (err, f1, fs1) = (if output \<noteq> [] then write_file (cl_files E) output f (cn_fs cn) else (None, f, cn_fs cn));
       let cn1 = cn\<lparr>cn_fs := fs1\<rparr>;
       (case err of
          Some e \<Rightarrow> Some (Transfer_failed, f1, d1, unlink_local E lpath (Error (''cannot write '' @ quote lpath @ '': '' @ cl_strerror E e) cn1))
        | None \<Rightarrow>
            (let cn2 = RecordBytesTransferred (length output) cn1
             in if result = Decode_NeedInput then Some (Wants_input, f1, d1, cn2)
                else if result = Decode_MoreOutput then client_decode_loop E lpath f1 d1 cn2
                else Some (Transfer_done, f1, d1, RecordFilesTransferred 1 cn2)))
     }
   }"

partial_function (option) recv_v2_loop ::
    "('fs, 'c) client_env \<Rightarrow> string \<Rightarrow> string \<Rightarrow> wfile \<Rightarrow> 'c Decoder \<Rightarrow> 'fs sync_conn \<Rightarrow> (bool \<times> 'fs sync_conn) option" where
  "recv_v2_loop E rpath lpath f d cn =
     (case cn_read 8 cn of
        (Inl e, cn1) \<Rightarrow> Some (False, unlink_local E lpath cn1)
      | (Inr hdr, cn1) \<Rightarrow>
          (let (i, size) = get_pair hdr in
           if i = ID_DONE then do {
             d1 \<leftarrow> Decoder_Finish d;
             (r, f1, d2, cn2) \<leftarrow> client_decode_loop E lpath f d1 cn1;
             if r = Wants_input then recv_v2_loop E rpath lpath f1 d2 cn2 else Some (r = Transfer_done, cn2)
           }
           else if i \<noteq> ID_DATA then ReportCopyFailure E rpath lpath size (unlink_local E lpath cn1)
           else if unat size > SYNC_DATA_MAX then Some (False, unlink_local E lpath (too_large size cn1))
           else (case cn_read (unat size) cn1 of
                   (Inl e, cn2) \<Rightarrow> Some (False, unlink_local E lpath cn2)
                 | (Inr data, cn2) \<Rightarrow> do {
                     block \<leftarrow> block_of_range (cl_junk E) data;
                     (r, f1, d2, cn3) \<leftarrow> client_decode_loop E lpath f (Decoder_Append block d) cn2;
                     if r = Wants_input then recv_v2_loop E rpath lpath f1 d2 cn3 else Some (r = Transfer_done, cn3)
                   })))"

definition sync_recv_v2 :: "('fs, 'c) client_env \<Rightarrow> string \<Rightarrow> string \<Rightarrow> CompressionType \<Rightarrow> 'fs sync_conn \<Rightarrow> (bool \<times> 'fs sync_conn) option" where
  "sync_recv_v2 E rpath lpath compression cn = do {
     let c = ResolveCompressionType E cn compression;
     (r, cn1) \<leftarrow> SendRecv2 rpath c cn;
     (case r of
        Some e \<Rightarrow> Some (False, cn1)
      | None \<Rightarrow>
          (case create_local E lpath cn1 of
             (None, cn2) \<Rightarrow> Some (False, cn2)
           | (Some f, cn2) \<Rightarrow> do {
               d \<leftarrow> Decoder_new (cl_codecs E) c SYNC_DATA_MAX;
               recv_v2_loop E rpath lpath f d cn2
             }))
   }"

definition sync_recv :: "('fs, 'c) client_env \<Rightarrow> string \<Rightarrow> string \<Rightarrow> CompressionType \<Rightarrow> 'fs sync_conn \<Rightarrow> (bool \<times> 'fs sync_conn) option" where
  "sync_recv E rpath lpath compression cn =
     (if cl_have E cn ''sendrecv_v2'' then sync_recv_v2 E rpath lpath compression cn else sync_recv_v1 E rpath lpath cn)"

section \<open>Pushing directories\<close>

fun oct_digits :: "nat \<Rightarrow> string" where
  "oct_digits n = (if n < 8 then [hex_digit n] else oct_digits (n div 8) @ [hex_digit (n mod 8)])"

declare oct_digits.simps [simp del]

definition skip_special :: "string \<Rightarrow> u32 \<Rightarrow> 'fs sync_conn \<Rightarrow> 'fs sync_conn" where
  "skip_special path mode cn = Warning (''skipping special file '' @ quote path @ '' (mode = 0o'' @ oct_digits (unat mode) @ '')'') cn"

text \<open>The loop over the entries of one directory; the warning names the directory.\<close>

fun local_entries ::
    "('fs, 'c) client_env \<Rightarrow> string \<Rightarrow> string \<Rightarrow> string list \<Rightarrow> copyinfo list \<Rightarrow> copyinfo list \<Rightarrow> 'fs sync_conn \<Rightarrow> (copyinfo list \<times> copyinfo list \<times> 'fs sync_conn) option" where
  "local_entries E lpath rpath [] file_list dirlist cn = Some (file_list, dirlist, cn)"
| "local_entries E lpath rpath (d_name # names) file_list dirlist cn =
     (if IsDotOrDotDot d_name then local_entries E lpath rpath names file_list dirlist cn
      else case fs_lstat (cl_files E) (lpath @ d_name) (cn_fs cn) of
        Inl e \<Rightarrow> local_entries E lpath rpath names file_list dirlist (Error (''cannot lstat '' @ quote (lpath @ d_name) @ '': '' @ cl_strerror E e) cn)
      | Inr st \<Rightarrow> do {
          ci \<leftarrow> copyinfo_new E lpath rpath d_name (st_mode st);
          if S_ISDIR (st_mode st) then local_entries E lpath rpath names file_list (dirlist @ [ci]) cn
          else do {
            let skip = \<not> should_push_file (st_mode st);
            let cn1 = (if skip then skip_special lpath (st_mode st) cn else cn);
            local_entries E lpath rpath names (file_list @ [ci\<lparr>ci_skip := skip, ci_time := st_mtime st, ci_size := st_size st\<rparr>]) dirlist cn1
          }
        })"

definition local_list_dir ::
    "('fs, 'c) client_env \<Rightarrow> string \<Rightarrow> string \<Rightarrow> copyinfo list \<Rightarrow> 'fs sync_conn \<Rightarrow> (bool \<times> copyinfo list \<times> copyinfo list \<times> 'fs sync_conn) option" where
  "local_list_dir E lpath rpath file_list cn =
     (case fs_list (cl_files E) lpath (cn_fs cn) of
        Inl e \<Rightarrow> Some (False, file_list, [], Error (''cannot open '' @ quote lpath @ '': '' @ cl_strerror E e) cn)
      | Inr names \<Rightarrow> do {
          (files, dirs, cn1) \<leftarrow> local_entries E lpath rpath names file_list [] cn;
          Some (True, files, dirs, cn1)
        })"

text \<open>
  The recursion of \<open>local_build_list\<close>, with the directories that are still to be visited as a stack: those of
  the current directory come before its siblings.  Failures of the recursive calls are ignored.
\<close>

partial_function (option) local_visit ::
    "('fs, 'c) client_env \<Rightarrow> copyinfo list \<Rightarrow> copyinfo list \<Rightarrow> string list \<Rightarrow> 'fs sync_conn \<Rightarrow> (copyinfo list \<times> string list \<times> 'fs sync_conn) option" where
  "local_visit E pending file_list directory_list cn =
     (case pending of
        [] \<Rightarrow> Some (file_list, directory_list, cn)
      | ci # rest \<Rightarrow> do {
          (_, files, dirs, cn1) \<leftarrow> local_list_dir E (ci_lpath ci) (ci_rpath ci) file_list cn;
          local_visit E (dirs @ rest) files (directory_list @ [ci_rpath ci]) cn1
        })"

definition local_build_list ::
    "('fs, 'c) client_env \<Rightarrow> string list \<Rightarrow> string \<Rightarrow> string \<Rightarrow> 'fs sync_conn \<Rightarrow> (bool \<times> copyinfo list \<times> string list \<times> 'fs sync_conn) option" where
  "local_build_list E directory_list lpath rpath cn = do {
     (ok, files, dirs, cn1) \<leftarrow> local_list_dir E lpath rpath [] cn;
     if \<not> ok then Some (False, files, directory_list, cn1)
     else do {
       (files2, dirlist, cn2) \<leftarrow> local_visit E dirs files directory_list cn1;
       Some (True, files2, dirlist, cn2)
     }
   }"

text \<open>The directories on the way to the destination, outermost last; the caller reverses them.\<close>

partial_function (option) parent_dirs :: "libbase \<Rightarrow> string \<Rightarrow> string list \<Rightarrow> string list option" where
  "parent_dirs lb path acc = (if is_root_dir path then Some acc else parent_dirs lb (Dirname lb path) (acc @ [path]))"

text \<open>The work-around for devices that do not create directories: \<open>mkdir\<close> over the shell, in pieces.\<close>

fun mkdir_commands :: "string \<Rightarrow> string list \<Rightarrow> 'fs sync_conn \<Rightarrow> string option \<times> 'fs sync_conn" where
  "mkdir_commands cmd [] cn = (Some cmd, cn)"
| "mkdir_commands cmd (dir # dirs) cn =
     (let escaped_path = escape_arg dir in
      if length escaped_path > 16384 then (None, Error (''path too long: '' @ percent_s escaped_path) cn)
      else let (cmd1, cn1) =
             (if length cmd + length escaped_path > 32768 then (''mkdir'', cn\<lparr>cn_shell := cn_shell cn @ [cmd]\<rparr>) else (cmd, cn))
           in mkdir_commands (cmd1 @ '' '' @ escaped_path) dirs cn1)"

definition make_directories :: "('fs, 'c) client_env \<Rightarrow> string list \<Rightarrow> 'fs sync_conn \<Rightarrow> bool \<times> 'fs sync_conn" where
  "make_directories E directory_list cn =
     (if \<not> cl_have E cn ''fixed_push_mkdir'' \<and> cl_have E cn ''shell_v2'' then
        (case mkdir_commands ''mkdir'' directory_list cn of
           (None, cn1) \<Rightarrow> (False, cn1)
         | (Some cmd, cn1) \<Rightarrow> (True, if cmd \<noteq> ''mkdir'' then cn1\<lparr>cn_shell := cn_shell cn1 @ [cmd]\<rparr> else cn1))
      else (True, cn))"

text \<open>With time stamps: all questions are sent before the first answer is read.\<close>

fun send_lstats :: "('fs, 'c) client_env \<Rightarrow> copyinfo list \<Rightarrow> 'fs sync_conn \<Rightarrow> bool \<times> 'fs sync_conn" where
  "send_lstats E [] cn = (True, cn)"
| "send_lstats E (ci # cis) cn =
     (case SendLstat E (ci_rpath ci) cn of
        (Some e, cn1) \<Rightarrow> (False, Error ''failed to send lstat'' cn1)
      | (None, cn1) \<Rightarrow> send_lstats E cis cn1)"

fun finish_lstats :: "('fs, 'c) client_env \<Rightarrow> copyinfo list \<Rightarrow> 'fs sync_conn \<Rightarrow> (copyinfo list \<times> 'fs sync_conn) option" where
  "finish_lstats E [] cn = Some ([], cn)"
| "finish_lstats E (ci # cis) cn = do {
     (r, cn1) \<leftarrow> FinishStat E cn;
     let ci1 = (case r of Inr st \<Rightarrow> if st_size st = ci_size ci \<and> st_mtime st = ci_time ci then ci\<lparr>ci_skip := True\<rparr> else ci | Inl e \<Rightarrow> ci);
     (rest, cn2) \<leftarrow> finish_lstats E cis cn1;
     Some (ci1 # rest, cn2)
   }"

fun push_files ::
    "('fs, 'c) client_env \<Rightarrow> bool \<Rightarrow> CompressionType \<Rightarrow> bool \<Rightarrow> copyinfo list \<Rightarrow> nat \<Rightarrow> 'fs sync_conn \<Rightarrow> (nat option \<times> 'fs sync_conn) option" where
  "push_files E list_only compression dry_run [] skipped cn = Some (Some skipped, cn)"
| "push_files E list_only compression dry_run (ci # cis) skipped cn =
     (if ci_skip ci then push_files E list_only compression dry_run cis (skipped + 1) cn
      else if list_only then
        push_files E list_only compression dry_run cis skipped (Println (''would push: '' @ percent_s (ci_lpath ci) @ '' -> '' @ percent_s (ci_rpath ci)) cn)
      else do {
        (ok, cn1) \<leftarrow> sync_send E (ci_lpath ci) (ci_rpath ci) (ucast (ci_time ci)) (ci_mode ci) False compression dry_run cn;
        if \<not> ok then Some (None, cn1) else push_files E list_only compression dry_run cis skipped cn1
      })"

definition copy_local_dir_remote ::
    "('fs, 'c) client_env \<Rightarrow> string \<Rightarrow> string \<Rightarrow> bool \<Rightarrow> bool \<Rightarrow> CompressionType \<Rightarrow> bool \<Rightarrow> 'fs sync_conn \<Rightarrow> (bool \<times> 'fs sync_conn) option" where
  "copy_local_dir_remote E lpath0 rpath0 check_timestamps list_only compression dry_run cn0 = do {
     let cn = NewTransfer cn0;
     lpath \<leftarrow> local_separator E lpath0;
     rpath \<leftarrow> remote_separator rpath0;
     parents \<leftarrow> parent_dirs (cl_lib E) rpath [];
     (ok, file_list, directory_list, cn1) \<leftarrow> local_build_list E (rev parents) lpath rpath cn;
     if \<not> ok then Some (False, cn1)
     else do {
       let (made, cn2) = make_directories E directory_list cn1;
       if \<not> made then Some (False, cn2)
       else do {
         let (sent, cn3) = (if check_timestamps then send_lstats E file_list cn2 else (True, cn2));
         if \<not> sent then Some (False, cn3)
         else do {
           (files, cn4) \<leftarrow> (if check_timestamps then finish_lstats E file_list cn3 else Some (file_list, cn3));
           (r, cn5) \<leftarrow> push_files E list_only compression dry_run files 0 (ComputeExpectedTotalBytes files cn4);
           (case r of
              None \<Rightarrow> Some (False, cn5)
            | Some skipped \<Rightarrow> ReadAcknowledgements E True (RecordFilesSkipped skipped cn5))
         }
       }
     }
   }"

section \<open>The push command\<close>

text \<open>The checks of the destination: whether it exists, whether it is a directory; \<^const>\<open>None\<close> inside is a failure.\<close>

definition push_destination ::
    "('fs, 'c) client_env \<Rightarrow> nat \<Rightarrow> string \<Rightarrow> 'fs sync_conn \<Rightarrow> ((bool \<times> bool) option \<times> 'fs sync_conn) option" where
  "push_destination E srcs dst cn = do {
     (r, cn1) \<leftarrow> sync_stat_fallback E dst cn;
     (case r of
        Inl e \<Rightarrow>
          if e \<noteq> ENOENT \<and> e \<noteq> ENOPROTOOPT then
            Some (None, Error (''stat failed when trying to push to '' @ percent_s dst @ '': '' @ cl_strerror E e) cn1)
          else if srcs > 1 then Some (None, Error (''target '' @ quote dst @ '' is not a directory'') cn1)
          else do { CHECK (dst \<noteq> []); Some (Some (False, False), cn1) }
      | Inr st \<Rightarrow>
          if S_ISDIR (st_mode st) then Some (Some (True, True), cn1)
          else if srcs > 1 then Some (None, Error (''target '' @ quote dst @ '' is not a directory'') cn1)
          else do {
            CHECK (dst \<noteq> []);
            if last dst = CHR ''/'' then Some (None, Error (''failed to access '' @ quote dst @ '': Not a directory'') cn1)
            else Some (Some (True, False), cn1)
          })
   }"

definition slash :: "string \<Rightarrow> string option" where
  "slash path = do { CHECK (path \<noteq> []); Some (if last path \<noteq> CHR ''/'' then path @ ''/'' else path) }"

text \<open>The loop over the sources; \<^const>\<open>None\<close> inside is the early \<open>return false\<close>.\<close>

fun push_sources ::
    "('fs, 'c) client_env \<Rightarrow> string \<Rightarrow> bool \<Rightarrow> bool \<Rightarrow> bool \<Rightarrow> CompressionType \<Rightarrow> bool \<Rightarrow> string list \<Rightarrow> bool \<Rightarrow> 'fs sync_conn \<Rightarrow> (bool option \<times> 'fs sync_conn) option" where
  "push_sources E dst dst_exists dst_isdir sync compression dry_run [] success cn = Some (Some success, cn)"
| "push_sources E dst dst_exists dst_isdir sync compression dry_run (src_path # srcs) success cn =
     (case fs_stat (cl_files E) src_path (cn_fs cn) of
        Inl e \<Rightarrow>
          push_sources E dst dst_exists dst_isdir sync compression dry_run srcs False (Error (''cannot stat '' @ quote src_path @ '': '' @ cl_strerror E e) cn)
      | Inr st \<Rightarrow>
          if S_ISDIR (st_mode st) then
            if dst_exists \<and> \<not> dst_isdir then Some (None, Error (''target '' @ quote dst @ '' is not a directory'') cn)
            else do {
              dst_dir \<leftarrow> (if dst_exists then do { d \<leftarrow> slash dst; Some (d @ cl_Basename E src_path) } else Some dst);
              (ok, cn1) \<leftarrow> copy_local_dir_remote E src_path dst_dir sync False compression dry_run cn;
              push_sources E dst dst_exists dst_isdir sync compression dry_run srcs (success \<and> ok) cn1
            }
          else if \<not> should_push_file (st_mode st) then
            push_sources E dst dst_exists dst_isdir sync compression dry_run srcs success (skip_special src_path (st_mode st) cn)
          else do {
            dst_path \<leftarrow> (if dst_isdir then do { d \<leftarrow> slash dst; Some (d @ cl_Basename E src_path) } else Some dst);
            (ok, cn1) \<leftarrow> sync_send E src_path dst_path (ucast (st_mtime st)) (st_mode st) sync compression dry_run (SetExpectedTotalBytes (st_size st) (NewTransfer cn));
            push_sources E dst dst_exists dst_isdir sync compression dry_run srcs (success \<and> ok) cn1
          })"

definition do_sync_push ::
    "('fs, 'c) client_env \<Rightarrow> string list \<Rightarrow> string \<Rightarrow> bool \<Rightarrow> CompressionType \<Rightarrow> bool \<Rightarrow> 'fs sync_conn \<Rightarrow> (bool \<times> 'fs sync_conn) option" where
  "do_sync_push E srcs dst sync compression dry_run cn = do {
     (r, cn1) \<leftarrow> push_destination E (length srcs) dst cn;
     (case r of
        None \<Rightarrow> Some (False, cn1)
      | Some (dst_exists, dst_isdir) \<Rightarrow> do {
          (s, cn2) \<leftarrow> push_sources E dst dst_exists dst_isdir sync compression dry_run srcs True cn1;
          (case s of
             None \<Rightarrow> Some (False, cn2)
           | Some success \<Rightarrow> do {
               (acks, cn3) \<leftarrow> ReadAcknowledgements E True cn2;
               Some (success \<and> acks, cn3)
             })
        })
   }"

definition do_sync_sync :: "('fs, 'c) client_env \<Rightarrow> string \<Rightarrow> string \<Rightarrow> bool \<Rightarrow> CompressionType \<Rightarrow> bool \<Rightarrow> 'fs sync_conn \<Rightarrow> (bool \<times> 'fs sync_conn) option" where
  "do_sync_sync E lpath rpath list_only compression dry_run cn = copy_local_dir_remote E lpath rpath True list_only compression dry_run cn"

section \<open>Pulling\<close>

text \<open>The callback of \<open>remote_build_list\<close> over the entries of one listing: files, directories and links.\<close>

fun remote_entries ::
    "('fs, 'c) client_env \<Rightarrow> string \<Rightarrow> string \<Rightarrow> ls_entry list \<Rightarrow> copyinfo list \<times> copyinfo list \<times> copyinfo list \<Rightarrow> 'fs sync_conn \<Rightarrow> ((copyinfo list \<times> copyinfo list \<times> copyinfo list) \<times> 'fs sync_conn) option" where
  "remote_entries E rpath lpath [] acc cn = Some (acc, cn)"
| "remote_entries E rpath lpath ((mode, sz, time, name) # es) (file_list, dirlist, linklist) cn =
     (if IsDotOrDotDot name then remote_entries E rpath lpath es (file_list, dirlist, linklist) cn
      else do {
        ci \<leftarrow> copyinfo_new E lpath rpath name mode;
        if S_ISDIR mode then remote_entries E rpath lpath es (file_list, dirlist @ [ci], linklist) cn
        else if S_ISLNK mode then remote_entries E rpath lpath es (file_list, dirlist, linklist @ [ci]) cn
        else do {
          let skip = \<not> should_pull_file mode;
          let cn1 = (if skip then skip_special (ci_rpath ci) mode cn else cn);
          remote_entries E rpath lpath es (file_list @ [ci\<lparr>ci_skip := skip, ci_time := time, ci_size := sz\<rparr>], dirlist, linklist) cn1
        }
      })"

fun resolve_links ::
    "('fs, 'c) client_env \<Rightarrow> copyinfo list \<Rightarrow> copyinfo list \<Rightarrow> copyinfo list \<Rightarrow> 'fs sync_conn \<Rightarrow> (copyinfo list \<times> copyinfo list \<times> 'fs sync_conn) option" where
  "resolve_links E [] file_list dirlist cn = Some (file_list, dirlist, cn)"
| "resolve_links E (ci # cis) file_list dirlist cn = do {
     (r, cn1) \<leftarrow> sync_stat_fallback E (ci_rpath ci) cn;
     (case r of
        Inl e \<Rightarrow> resolve_links E cis file_list dirlist (Warning (''stat failed for path '' @ percent_s (ci_rpath ci) @ '': '' @ cl_strerror E e) cn1)
      | Inr st \<Rightarrow>
          if S_ISDIR (st_mode st) then resolve_links E cis file_list (dirlist @ [ci]) cn1
          else resolve_links E cis (file_list @ [ci]) dirlist cn1)
   }"

text \<open>One call of \<open>remote_build_list\<close> up to its recursion: the files found and the directories to visit.\<close>

definition remote_list_dir ::
    "('fs, 'c) client_env \<Rightarrow> string \<Rightarrow> string \<Rightarrow> copyinfo list \<Rightarrow> 'fs sync_conn \<Rightarrow> (bool \<times> copyinfo list \<times> copyinfo list \<times> 'fs sync_conn) option" where
  "remote_list_dir E rpath lpath file_list cn = do {
     here \<leftarrow> copyinfo_new E (Dirname (cl_lib E) lpath) (Dirname (cl_lib E) rpath) (cl_Basename E lpath) S_IFDIR;
     (ok, entries, cn1) \<leftarrow> sync_ls E rpath cn;
     ((files, dirs, links), cn2) \<leftarrow> remote_entries E rpath lpath entries (file_list @ [here], [], []) cn1;
     if \<not> ok then Some (False, files, dirs, cn2)
     else do {
       (files2, dirs2, cn3) \<leftarrow> resolve_links E links files dirs cn2;
       Some (True, files2, dirs2, cn3)
     }
   }"

text \<open>The recursion, from the last directory to the first, with a stack; a failure ends it.\<close>

partial_function (option) remote_visit ::
    "('fs, 'c) client_env \<Rightarrow> (string \<times> string) list \<Rightarrow> copyinfo list \<Rightarrow> 'fs sync_conn \<Rightarrow> (bool \<times> copyinfo list \<times> 'fs sync_conn) option" where
  "remote_visit E pending file_list cn =
     (case pending of
        [] \<Rightarrow> Some (True, file_list, cn)
      | (rpath, lpath) # rest \<Rightarrow> do {
          (ok, files, dirs, cn1) \<leftarrow> remote_list_dir E rpath lpath file_list cn;
          if \<not> ok then Some (False, files, cn1)
          else remote_visit E (map (\<lambda>ci. (ci_rpath ci, ci_lpath ci)) (rev dirs) @ rest) files cn1
        })"

definition remote_build_list :: "('fs, 'c) client_env \<Rightarrow> string \<Rightarrow> string \<Rightarrow> 'fs sync_conn \<Rightarrow> (bool \<times> copyinfo list \<times> 'fs sync_conn) option" where
  "remote_build_list E rpath lpath cn = remote_visit E [(rpath, lpath)] [] cn"

definition set_time_and_mode :: "('fs, 'c) client_env \<Rightarrow> string \<Rightarrow> u64 \<Rightarrow> u32 \<Rightarrow> 'fs sync_conn \<Rightarrow> bool \<times> 'fs sync_conn" where
  "set_time_and_mode E lpath time mode cn =
     (let (r1, fs1) = cl_utime E lpath time (cn_fs cn);
          (r2, fs2) = cl_chmod E lpath (mode AND NOT (cl_umask E)) fs1
      in (r1 \<and> r2, cn\<lparr>cn_fs := fs2\<rparr>))"

fun pull_files ::
    "('fs, 'c) client_env \<Rightarrow> bool \<Rightarrow> CompressionType \<Rightarrow> copyinfo list \<Rightarrow> nat \<Rightarrow> 'fs sync_conn \<Rightarrow> (nat option \<times> 'fs sync_conn) option" where
  "pull_files E copy_attrs compression [] skipped cn = Some (Some skipped, cn)"
| "pull_files E copy_attrs compression (ci # cis) skipped cn =
     (if ci_skip ci then pull_files E copy_attrs compression cis (skipped + 1) cn
      else if S_ISDIR (ci_mode ci) then do {
        (ok, fs1) \<leftarrow> mkdirs (cl_lib E) (cl_system E) (ci_lpath ci) (cn_fs cn);
        if \<not> ok then Some (None, Error (''failed to create directory '' @ quote (ci_lpath ci) @ '': '' @ cl_strerror E (cl_mkdirs_errno E)) (cn\<lparr>cn_fs := fs1\<rparr>))
        else pull_files E copy_attrs compression cis skipped (cn\<lparr>cn_fs := fs1\<rparr>)
      } else do {
        (ok, cn1) \<leftarrow> sync_recv E (ci_rpath ci) (ci_lpath ci) compression cn;
        if \<not> ok then Some (None, cn1)
        else do {
          let (set, cn2) = (if copy_attrs then set_time_and_mode E (ci_lpath ci) (ci_time ci) (ci_mode ci) cn1 else (True, cn1));
          if \<not> set then Some (None, cn2) else pull_files E copy_attrs compression cis skipped cn2
        }
      })"

definition copy_remote_dir_local ::
    "('fs, 'c) client_env \<Rightarrow> string \<Rightarrow> string \<Rightarrow> bool \<Rightarrow> CompressionType \<Rightarrow> 'fs sync_conn \<Rightarrow> (bool \<times> 'fs sync_conn) option" where
  "copy_remote_dir_local E rpath0 lpath0 copy_attrs compression cn0 = do {
     let cn = NewTransfer cn0;
     lpath \<leftarrow> local_separator E lpath0;
     rpath \<leftarrow> remote_separator rpath0;
     (ok, file_list, cn1) \<leftarrow> remote_build_list E rpath lpath (Println ''pull: building file list...'' cn);
     if \<not> ok then Some (False, cn1)
     else do {
       (r, cn2) \<leftarrow> pull_files E copy_attrs compression file_list 0 (ComputeExpectedTotalBytes file_list cn1);
       Some (case r of None \<Rightarrow> (False, cn2) | Some skipped \<Rightarrow> (True, RecordFilesSkipped skipped cn2))
     }
   }"

definition pull_destination :: "('fs, 'c) client_env \<Rightarrow> nat \<Rightarrow> string \<Rightarrow> 'fs sync_conn \<Rightarrow> ((bool \<times> bool) option \<times> 'fs sync_conn) option" where
  "pull_destination E srcs dst cn =
     (case fs_stat (cl_files E) dst (cn_fs cn) of
        Inl e \<Rightarrow>
          if srcs = 1 \<and> e = ENOENT then
            (case fs_stat (cl_files E) (Dirname (cl_lib E) dst) (cn_fs cn) of
               Inl e2 \<Rightarrow> Some (None, Error (''cannot create file/directory '' @ quote dst @ '': '' @ cl_strerror E e2) cn)
             | Inr st \<Rightarrow> do { CHECK (dst \<noteq> []); Some (Some (False, False), cn) })
          else Some (None, Error (''failed to access '' @ quote dst @ '': '' @ cl_strerror E e) cn)
      | Inr st \<Rightarrow>
          if S_ISDIR (st_mode st) then Some (Some (True, True), cn)
          else if srcs > 1 then Some (None, Error (''target '' @ quote dst @ '' is not a directory'') cn)
          else do {
            CHECK (dst \<noteq> []);
            if adb_is_separator E (last dst) then Some (None, Error (''failed to access '' @ quote dst @ '': Not a directory'') cn)
            else Some (Some (True, False), cn)
          })"

fun pull_sources ::
    "('fs, 'c) client_env \<Rightarrow> string \<Rightarrow> bool \<Rightarrow> bool \<Rightarrow> bool \<Rightarrow> CompressionType \<Rightarrow> string list \<Rightarrow> bool \<Rightarrow> 'fs sync_conn \<Rightarrow> (bool \<times> 'fs sync_conn) option" where
  "pull_sources E dst dst_exists dst_isdir copy_attrs compression [] success cn = Some (success, cn)"
| "pull_sources E dst dst_exists dst_isdir copy_attrs compression (src_path # srcs) success cn = do {
     (r, cn1) \<leftarrow> sync_stat_fallback E src_path cn;
     (case r of
        Inl e \<Rightarrow>
          pull_sources E dst dst_exists dst_isdir copy_attrs compression srcs False
            (Error (if e = ENOPROTOOPT then ''remote object '' @ quote src_path @ '' does not exist''
                    else ''failed to stat remote object '' @ quote src_path @ '': '' @ cl_strerror E e) cn1)
      | Inr src_st \<Rightarrow>
          if S_ISDIR (st_mode src_st) then
            if dst_exists \<and> \<not> dst_isdir then Some (False, Error (''target '' @ quote dst @ '' is not a directory'') cn1)
            else do {
              dst_dir \<leftarrow> (if dst_exists then do { d \<leftarrow> local_separator E dst; Some (d @ cl_Basename E src_path) } else Some dst);
              (ok, cn2) \<leftarrow> copy_remote_dir_local E src_path dst_dir copy_attrs compression cn1;
              pull_sources E dst dst_exists dst_isdir copy_attrs compression srcs (success \<and> ok) cn2
            }
          else if \<not> should_pull_file (st_mode src_st) then
            pull_sources E dst dst_exists dst_isdir copy_attrs compression srcs success (skip_special src_path (st_mode src_st) cn1)
          else do {
            let dst_path = (if dst_isdir then dst @ [OS_PATH_SEPARATOR E] @ cl_Basename E src_path else dst);
            (ok, cn2) \<leftarrow> sync_recv E src_path dst_path compression (SetExpectedTotalBytes (st_size src_st) (NewTransfer cn1));
            let (set, cn3) = (if ok \<and> copy_attrs then set_time_and_mode E dst_path (st_mtime src_st) (st_mode src_st) cn2 else (True, cn2));
            pull_sources E dst dst_exists dst_isdir copy_attrs compression srcs (success \<and> ok \<and> set) cn3
          })
   }"

definition do_sync_pull ::
    "('fs, 'c) client_env \<Rightarrow> string list \<Rightarrow> string \<Rightarrow> bool \<Rightarrow> CompressionType \<Rightarrow> 'fs sync_conn \<Rightarrow> (bool \<times> 'fs sync_conn) option" where
  "do_sync_pull E srcs dst copy_attrs compression cn = do {
     (r, cn1) \<leftarrow> pull_destination E (length srcs) dst cn;
     (case r of
        None \<Rightarrow> Some (False, cn1)
      | Some (dst_exists, dst_isdir) \<Rightarrow> pull_sources E dst dst_exists dst_isdir copy_attrs compression srcs True cn1)
   }"

text \<open>\<open>do_sync_ls\<close>: a line for every entry, in hexadecimal.\<close>

definition do_sync_ls :: "('fs, 'c) client_env \<Rightarrow> string \<Rightarrow> 'fs sync_conn \<Rightarrow> (bool \<times> 'fs sync_conn) option" where
  "do_sync_ls E path cn = do {
     (ok, entries, cn1) \<leftarrow> sync_ls E path cn;
     Some (ok, cn1\<lparr>cn_lines := cn_lines cn1 @ map (\<lambda>(mode, sz, time, name).
       pad0 8 (hex_digits (unat mode)) @ '' '' @ pad0 8 (hex_digits (unat sz)) @ '' '' @ pad0 8 (hex_digits (unat time)) @ '' '' @ name) entries\<rparr>)
   }"

section \<open>Reads and writes of the client\<close>

lemma cn_read_feeds:
  assumes "feeds (cn_in cn) (xs @ ys)" and "n = length xs"
  shows "\<exists>es. cn_read n cn = (Inr xs, cn\<lparr>cn_in := es\<rparr>) \<and> feeds es ys"
  using ReadFdExactly_feeds [OF assms(1)] assms(2) by (auto simp: cn_read_def)

lemma cn_write_took:
  assumes "benign (cn_out cn)"
  shows "\<exists>os. cn_write bs cn = (None, cn\<lparr>cn_out := os\<rparr>) \<and> took (cn_out cn) bs os"
  using WriteFdExactly_took [OF assms, of bs] by (auto simp: cn_write_def)

lemma WriteOrDie_took:
  assumes "benign (cn_out cn)"
  shows "\<exists>os. WriteOrDie bs cn = Some (cn\<lparr>cn_out := os\<rparr>) \<and> took (cn_out cn) bs os"
  using cn_write_took [OF assms, of bs] by (auto simp: WriteOrDie_def)

text \<open>A file that is read to its end without an error.\<close>

definition whole :: "istream \<Rightarrow> bytes \<Rightarrow> bool" where
  "whole es bs \<longleftrightarrow> feeds es bs \<and> list_all (\<lambda>e. case e of Got c \<Rightarrow> True | RFault r \<Rightarrow> False) es"

lemma adb_read_whole:
  assumes "whole es bs" and "0 < N"
  shows "\<exists>n es'. adb_read N es = (Inr (take n bs), es') \<and> whole es' (drop n bs) \<and> n \<le> N \<and> n \<le> length bs \<and> (bs \<noteq> [] \<longrightarrow> 0 < n)"
proof (cases es rule: stream_bytes.cases)
  case 1
  then show ?thesis using assms by (simp add: whole_def feeds_def)
next
  case (2 c es1)
  show ?thesis
  proof (cases "length c \<le> N")
    case True
    then show ?thesis using assms 2 by (intro exI [of _ "length c"] exI [of _ es1]) (auto simp: whole_def feeds_def)
  next
    case False
    then show ?thesis using assms 2 by (intro exI [of _ N] exI [of _ "Got (drop N c) # es1"]) (auto simp: whole_def feeds_def)
  qed
next
  case (3 e es1)
  then show ?thesis using assms by (simp add: whole_def)
qed

section \<open>Sending without compression\<close>

text \<open>What sending leaves of the connection: only the socket, the ledgers and the outstanding acknowledgements change.\<close>

definition sent :: "(string \<times> string) list \<Rightarrow> bytes \<Rightarrow> 'fs sync_conn \<Rightarrow> 'fs sync_conn \<Rightarrow> bool" where
  "sent acks bs cn cn' \<longleftrightarrow> took (cn_out cn) bs (cn_out cn') \<and> cn_deferred cn' = cn_deferred cn @ acks \<and>
     cn_in cn' = cn_in cn \<and> cn_features cn' = cn_features cn \<and> cn_ack cn' = cn_ack cn \<and> cn_polls cn' = cn_polls cn \<and>
     cn_lines cn' = cn_lines cn \<and> cn_shell cn' = cn_shell cn \<and> cn_fs cn' = cn_fs cn"

lemma sentI: "took (cn_out cn) bs os \<Longrightarrow> sent [] bs cn (cn\<lparr>cn_out := os\<rparr>)"
  by (simp add: sent_def)

lemma sent_trans: "sent a bs cn cn1 \<Longrightarrow> sent b cs cn1 cn2 \<Longrightarrow> sent (a @ b) (bs @ cs) cn cn2"
  unfolding sent_def by (auto intro: took_trans)

lemma sent_benign: "sent a bs cn cn1 \<Longrightarrow> benign (cn_out cn1)"
  by (auto simp: sent_def intro: took_benign)

lemma sent_sel:
  assumes "sent a bs cn cn1"
  shows "cn_in cn1 = cn_in cn" "cn_features cn1 = cn_features cn" "cn_deferred cn1 = cn_deferred cn @ a" "cn_ack cn1 = cn_ack cn"
    "cn_polls cn1 = cn_polls cn" "cn_lines cn1 = cn_lines cn" "cn_fs cn1 = cn_fs cn" "cl_have E cn1 f = cl_have E cn f"
  using assms by (auto simp: sent_def cl_have_def)

lemma sent_Record:
  "benign (cn_out cn) \<Longrightarrow> sent [] [] cn (RecordBytesTransferred n cn)"
  "benign (cn_out cn) \<Longrightarrow> sent [(a, b)] [] cn (RecordFileSent a b cn)"
  by (simp_all add: sent_def RecordBytesTransferred_def RecordFileSent_def RecordFilesTransferred_def took_Nil)

lemma sent_WriteOrDie:
  assumes "benign (cn_out cn)"
  shows "\<exists>cn'. WriteOrDie bs cn = Some cn' \<and> sent [] bs cn cn'"
  using WriteOrDie_took [OF assms, of bs] sentI by blast

definition null_encoder :: "'c Encoder \<Rightarrow> bool" where
  "null_encoder e \<longleftrightarrow> enc_kind e = CompressNone \<and> fifo_ok (enc_input e) \<and> enc_block_size e = SYNC_DATA_MAX"

lemma null_encoder_Encode:
  assumes "null_encoder e"
  shows "\<exists>v b. Encode lib junk output e = Some (if iov_bytes v = [] then (if enc_finished e then Encode_Done else Encode_NeedInput) else Encode_MoreOutput,
       b, e\<lparr>enc_input := v\<rparr>) \<and> fifo_ok v \<and> iov_bytes v = drop SYNC_DATA_MAX (iov_bytes (enc_input e)) \<and>
     block_wf b \<and> block_bytes b = take SYNC_DATA_MAX (iov_bytes (enc_input e))"
  using NullEncoder_Encode_ok [of e junk] assms by (simp add: null_encoder_def Encode_def SYNC_DATA_MAX_def)

lemma block_empty_bytes: "block_wf b \<Longrightarrow> block_empty b \<longleftrightarrow> block_bytes b = []"
  unfolding block_empty_def by (metis length_0_conv length_block_bytes)

text \<open>The chunks into which the bytes of the queue are cut.\<close>

lemma client_encode_loop_null:
  assumes "null_encoder e" and "benign (cn_out cn)"
  shows "\<exists>chunks v cn'. client_encode_loop E lpath e cn = Some (if enc_finished e then Transfer_done else Wants_input, e\<lparr>enc_input := v\<rparr>, cn') \<and>
     sent [] (data_msgs chunks) cn cn' \<and> concat chunks = iov_bytes (enc_input e) \<and> chunks_fit chunks \<and> fifo_ok v \<and> iov_bytes v = []"
  using assms
proof (induction "length (iov_bytes (enc_input e))" arbitrary: e cn rule: less_induct)
  case less
  let ?in = "iov_bytes (enc_input e)"
  obtain v b where v: "Encode (cl_codecs E) (cl_junk E) block_new e = Some (if iov_bytes v = [] then (if enc_finished e then Encode_Done else Encode_NeedInput) else Encode_MoreOutput,
       b, e\<lparr>enc_input := v\<rparr>)" "fifo_ok v" "iov_bytes v = drop SYNC_DATA_MAX ?in" and b: "block_wf b" "block_bytes b = take SYNC_DATA_MAX ?in"
    using null_encoder_Encode [OF less.prems(1)] by blast
  have sz: "blk_size b = length (take SYNC_DATA_MAX ?in)" using length_block_bytes [OF b(1)] b(2) by simp
  define c where "c = (if ?in = [] then [] else [take SYNC_DATA_MAX ?in])"
  have c: "concat c = take SYNC_DATA_MAX ?in" "chunks_fit c" by (simp_all add: c_def chunks_fit_def)
  obtain cn1 where w: "(if \<not> block_empty b
         then do { CHECK (blk_size b \<le> SYNC_DATA_MAX); WriteOrDie (sync_pair ID_DATA (of_nat (blk_size b)) @ block_bytes b) cn } else Some cn) = Some cn1"
    and s1: "sent [] (data_msgs c) cn cn1"
  proof (cases "?in = []")
    case True
    then show ?thesis using that [of cn] block_empty_bytes [OF b(1)] b(2) sentI [OF took_Nil [OF less.prems(2)]] by (simp add: c_def)
  next
    case False
    then have ne: "\<not> block_empty b" using block_empty_bytes [OF b(1)] b(2) by (simp add: SYNC_DATA_MAX_def)
    obtain cn1 where "WriteOrDie (sync_pair ID_DATA (of_nat (blk_size b)) @ block_bytes b) cn = Some cn1"
      "sent [] (sync_pair ID_DATA (of_nat (blk_size b)) @ block_bytes b) cn cn1"
      using sent_WriteOrDie [OF less.prems(2)] by blast
    then show ?thesis using that [of cn1] ne False sz b(2) by (simp add: c_def)
  qed
  show ?case
  proof (cases "iov_bytes v = []")
    case True
    then have "take SYNC_DATA_MAX ?in = ?in" using v(3) by simp
    moreover have "client_encode_loop E lpath e cn = Some (if enc_finished e then Transfer_done else Wants_input, e\<lparr>enc_input := v\<rparr>, cn1)"
      using True v(1) w by (subst client_encode_loop.simps) simp
    ultimately show ?thesis using True v(2) s1 c by (intro exI [of _ c] exI [of _ v] exI [of _ cn1]) simp
  next
    case False
    then have l: "length (iov_bytes v) < length ?in" using v(3) by (simp add: SYNC_DATA_MAX_def)
    have ne: "null_encoder (e\<lparr>enc_input := v\<rparr>)" using less.prems(1) v(2) by (simp add: null_encoder_def)
    obtain cs v2 cn2 where r: "client_encode_loop E lpath (e\<lparr>enc_input := v\<rparr>) cn1 =
        Some (if enc_finished e then Transfer_done else Wants_input, e\<lparr>enc_input := v2\<rparr>, cn2)"
      "sent [] (data_msgs cs) cn1 cn2" "concat cs = iov_bytes v" "chunks_fit cs" "fifo_ok v2" "iov_bytes v2 = []"
      using less.hyps [of "e\<lparr>enc_input := v\<rparr>" cn1] l ne sent_benign [OF s1] by auto
    have "client_encode_loop E lpath e cn = client_encode_loop E lpath (e\<lparr>enc_input := v\<rparr>) cn1"
      using False v(1) w by (subst client_encode_loop.simps) simp
    moreover have "sent [] (data_msgs (c @ cs)) cn cn2" using sent_trans [OF s1 r(2)] by simp
    moreover have "concat (c @ cs) = ?in" using c(1) r(3) v(3) by simp
    moreover have "chunks_fit (c @ cs)" using c(2) r(4) by (simp add: chunks_fit_def)
    ultimately show ?thesis using r(1,5,6) by metis
  qed
qed

lemma finish_send_sent:
  assumes "benign (cn_out cn)"
  shows "\<exists>cn'. finish_send lpath rpath mtime cn = Some (True, cn') \<and> sent [(lpath, rpath)] (sync_pair ID_DONE mtime) cn cn'"
proof -
  note r = sent_Record(2) [OF assms, of lpath rpath]
  obtain cn' where "WriteOrDie (sync_pair ID_DONE mtime) (RecordFileSent lpath rpath cn) = Some cn'"
    "sent [] (sync_pair ID_DONE mtime) (RecordFileSent lpath rpath cn) cn'"
    using sent_WriteOrDie [OF sent_benign [OF r]] by blast
  then show ?thesis using sent_trans [OF r] by (fastforce simp: finish_send_def)
qed

lemma legacy_loop_sent:
  assumes "whole fd data" and "benign (cn_out cn)"
  shows "\<exists>chunks cn'. legacy_loop E lpath rpath mtime fd cn = Some (True, cn') \<and>
     sent [(lpath, rpath)] (data_msgs chunks @ sync_pair ID_DONE mtime) cn cn' \<and> concat chunks = data \<and> chunks_fit chunks"
  using assms
proof (induction "length data" arbitrary: fd data cn rule: less_induct)
  case less
  obtain n fd1 where n: "adb_read SYNC_DATA_MAX fd = (Inr (take n data), fd1)" "whole fd1 (drop n data)" "n \<le> SYNC_DATA_MAX" "n \<le> length data" "data \<noteq> [] \<longrightarrow> 0 < n"
    using adb_read_whole [OF less.prems(1), of SYNC_DATA_MAX] by (auto simp: SYNC_DATA_MAX_def)
  show ?case
  proof (cases "data = []")
    case True
    then show ?thesis using n(1) finish_send_sent [OF less.prems(2), of lpath rpath mtime]
      by (subst legacy_loop.simps) (auto simp: chunks_fit_def intro: exI [of _ "[]"])
  next
    case False
    have ln: "length (take n data) = n" using n(4) by simp
    obtain cn1 where w: "WriteOrDie (sync_pair ID_DATA (of_nat n) @ take n data) cn = Some cn1" "sent [] (sync_pair ID_DATA (of_nat n) @ take n data) cn cn1"
      using sent_WriteOrDie [OF less.prems(2)] by blast
    note s2 = sent_trans [OF w(2) sent_Record(1) [OF sent_benign [OF w(2)], of n]]
    obtain cs cn' where r: "legacy_loop E lpath rpath mtime fd1 (RecordBytesTransferred n cn1) = Some (True, cn')"
      "sent [(lpath, rpath)] (data_msgs cs @ sync_pair ID_DONE mtime) (RecordBytesTransferred n cn1) cn'" "concat cs = drop n data" "chunks_fit cs"
      using less.hyps [OF _ n(2) sent_benign [OF s2]] n(4,5) False by auto
    have "legacy_loop E lpath rpath mtime fd cn = Some (True, cn')"
      using n(1,5) False ln w(1) r(1) by (subst legacy_loop.simps) simp
    moreover have "sent [(lpath, rpath)] (data_msgs (take n data # cs) @ sync_pair ID_DONE mtime) cn cn'"
      using sent_trans [OF s2 r(2)] ln by simp
    moreover have "concat (take n data # cs) = data" "chunks_fit (take n data # cs)" using r(3,4) n(3) ln by (simp_all add: chunks_fit_def)
    ultimately show ?thesis by blast
  qed
qed

lemma send_loop_sent:
  assumes "whole fd data" and "benign (cn_out cn)" and "null_encoder e" and "iov_bytes (enc_input e) = []" and "\<not> enc_finished e"
  shows "\<exists>chunks cn'. send_loop E lpath rpath mtime fd e cn = Some (True, cn') \<and>
     sent [(lpath, rpath)] (data_msgs chunks @ sync_pair ID_DONE mtime) cn cn' \<and> concat chunks = data \<and> chunks_fit chunks"
  using assms
proof (induction "length data" arbitrary: fd data cn e rule: less_induct)
  case less
  obtain n fd1 where n: "adb_read SYNC_DATA_MAX fd = (Inr (take n data), fd1)" "whole fd1 (drop n data)" "n \<le> SYNC_DATA_MAX" "n \<le> length data" "data \<noteq> [] \<longrightarrow> 0 < n"
    using adb_read_whole [OF less.prems(1), of SYNC_DATA_MAX] by (auto simp: SYNC_DATA_MAX_def)
  show ?case
  proof (cases "data = []")
    case True
    have ne: "null_encoder (e\<lparr>enc_finished := True\<rparr>)" using less.prems(3) by (simp add: null_encoder_def)
    obtain cs v cn1 where l: "client_encode_loop E lpath (e\<lparr>enc_finished := True\<rparr>) cn = Some (Transfer_done, e\<lparr>enc_finished := True, enc_input := v\<rparr>, cn1)"
      "sent [] (data_msgs cs) cn cn1" "concat cs = []" "chunks_fit cs"
      using client_encode_loop_null [OF ne less.prems(2), of E lpath] less.prems(4) by auto
    obtain cn2 where f: "finish_send lpath rpath mtime cn1 = Some (True, cn2)" "sent [(lpath, rpath)] (sync_pair ID_DONE mtime) cn1 cn2"
      using finish_send_sent [OF sent_benign [OF l(2)]] by blast
    have "send_loop E lpath rpath mtime fd e cn = Some (True, cn2)"
      using n(1) True l(1) f(1) less.prems(5) by (subst send_loop.simps) (simp add: Encoder_Finish_def)
    then show ?thesis using sent_trans [OF l(2) f(2)] l(3,4) True by auto
  next
    case False
    have ln: "length (take n data) = n" "take n data \<noteq> []" using n(4,5) False by auto
    obtain b where b: "read_block (cl_junk E) (take n data) = Some b" "block_wf b" "block_bytes b = take n data"
      using read_block_ok [of "take n data"] n(3) ln(1) by auto
    have q: "fifo_ok (enc_input e)" using less.prems(3) by (simp add: null_encoder_def)
    have e1: "null_encoder (Encoder_Append b e)" "iov_bytes (enc_input (Encoder_Append b e)) = take n data" "\<not> enc_finished (Encoder_Append b e)"
      using iov_append_queue [OF q b(2)] less.prems(3-5) b(3) by (simp_all add: Encoder_Append_def null_encoder_def)
    note s1 = sent_Record(1) [OF less.prems(2), of n]
    obtain cs v cn2 where l: "client_encode_loop E lpath (Encoder_Append b e) (RecordBytesTransferred n cn) = Some (Wants_input, (Encoder_Append b e)\<lparr>enc_input := v\<rparr>, cn2)"
      "sent [] (data_msgs cs) (RecordBytesTransferred n cn) cn2" "concat cs = take n data" "chunks_fit cs" "fifo_ok v" "iov_bytes v = []"
      using client_encode_loop_null [OF e1(1) sent_benign [OF s1], of E lpath] e1(2,3) by auto
    have e2: "null_encoder ((Encoder_Append b e)\<lparr>enc_input := v\<rparr>)" "\<not> enc_finished ((Encoder_Append b e)\<lparr>enc_input := v\<rparr>)"
      using e1 l(5) by (simp_all add: null_encoder_def)
    obtain cs' cn' where r: "send_loop E lpath rpath mtime fd1 ((Encoder_Append b e)\<lparr>enc_input := v\<rparr>) cn2 = Some (True, cn')"
      "sent [(lpath, rpath)] (data_msgs cs' @ sync_pair ID_DONE mtime) cn2 cn'" "concat cs' = drop n data" "chunks_fit cs'"
      using less.hyps [OF _ n(2) sent_benign [OF l(2)] e2(1) _ e2(2)] n(4,5) False l(6) by auto
    have "send_loop E lpath rpath mtime fd e cn = Some (True, cn')"
      using n(1) ln b(1) l(1) r(1) by (subst send_loop.simps) simp
    moreover have "sent [(lpath, rpath)] (data_msgs (cs @ cs') @ sync_pair ID_DONE mtime) cn cn'"
      using sent_trans [OF s1 sent_trans [OF l(2) r(2)]] by simp
    moreover have "concat (cs @ cs') = data" "chunks_fit (cs @ cs')" using r(3,4) l(3,4) by (simp_all add: chunks_fit_def)
    ultimately show ?thesis by blast
  qed
qed

section \<open>Requests to store a file\<close>

text \<open>The bytes of a request to store \<open>data\<close>: either version of the request, the data in chunks, the end.\<close>

definition store_request :: "string \<Rightarrow> u32 \<Rightarrow> u32 \<Rightarrow> bytes \<Rightarrow> bytes \<Rightarrow> bool" where
  "store_request path mode mtime data req \<longleftrightarrow>
     (\<exists>chunks. concat chunks = data \<and> list_all (\<lambda>c. length c < 2 ^ 32) chunks \<and>
        (req = sync_pair ID_SEND_V1 (of_nat (length (path_and_mode path mode))) @ path_and_mode path mode @ data_msgs chunks @ sync_pair ID_DONE mtime \<or>
         req = sync_pair ID_SEND_V2 (of_nat (length path)) @ path @ send_v2_setup mode 0 @ data_msgs chunks @ sync_pair ID_DONE mtime))"

definition paths_fit :: "string \<Rightarrow> u32 \<Rightarrow> bool" where
  "paths_fit path mode \<longleftrightarrow> length (path_and_mode path mode) \<le> 1024 \<and> CHR 0x00 \<notin> set path"

lemma paths_fit_path: "paths_fit path mode \<Longrightarrow> length path \<le> 1024 \<and> percent_s path = path"
  by (auto simp: paths_fit_def path_and_mode_def)

lemma chunks_fit_word: "chunks_fit cs \<Longrightarrow> list_all (\<lambda>c. length c < 2 ^ 32) cs"
  by (auto simp: chunks_fit_def list_all_iff SYNC_DATA_MAX_def)

lemma SendSmallFile_sent:
  assumes "paths_fit path mode" and "length data < 2 ^ 32" and "benign (cn_out cn)"
  shows "\<exists>req cn'. SendSmallFile E path mode lpath rpath mtime data False cn = Some (True, cn') \<and>
     sent [(lpath, rpath)] req cn cn' \<and> store_request path mode mtime data req"
proof -
  let ?pm = "path_and_mode path mode"
  define req where "req = sync_pair ID_SEND_V1 (of_nat (length ?pm)) @ ?pm @ data_msgs [data] @ sync_pair ID_DONE mtime"
  obtain cn1 where w: "WriteOrDie req cn = Some cn1" "sent [] req cn cn1" using sent_WriteOrDie [OF assms(3)] by blast
  note s1 = sent_trans [OF w(2) sent_Record(2) [OF sent_benign [OF w(2)], of lpath rpath]]
  note s2 = sent_trans [OF s1 sent_Record(1) [OF sent_benign [OF s1], of "length data"]]
  have "SendSmallFile E path mode lpath rpath mtime data False cn = Some (True, RecordBytesTransferred (length data) (RecordFileSent lpath rpath cn1))"
    using assms(1) w(1) by (simp add: SendSmallFile_def paths_fit_def req_def Let_def)
  moreover have "store_request path mode mtime data req" unfolding store_request_def req_def
    using assms(2) by (intro exI [of _ "[data]"]) simp
  ultimately show ?thesis using s2 by (intro exI [of _ req]) auto
qed

lemma SendLargeFile_sent:
  assumes "paths_fit path mode" and "fs_stat (cl_files E) lpath (cn_fs cn) = Inr st" and "fs_open_read (cl_files E) lpath (cn_fs cn) = Inr fd"
    and "whole fd data" and "benign (cn_out cn)"
  shows "\<exists>req cn'. SendLargeFile E path mode lpath rpath mtime CompressNone False cn = Some (True, cn') \<and>
     sent [(lpath, rpath)] req cn cn' \<and> store_request path mode mtime data req"
proof (cases "cl_have E cn ''sendrecv_v2''")
  case True
  let ?hdr = "sync_pair ID_SEND_V2 (of_nat (length path)) @ path @ send_v2_setup mode 0"
  obtain os where w: "cn_write ?hdr cn = (None, cn\<lparr>cn_out := os\<rparr>)" "took (cn_out cn) ?hdr os"
    using cn_write_took [OF assms(5)] by blast
  note s1 = sentI [OF w(2)]
  obtain e where e: "Encoder_new (cl_codecs E) (cl_junk E) CompressNone SYNC_DATA_MAX = Some e"
    and ne: "null_encoder e" "iov_bytes (enc_input e) = []" "\<not> enc_finished e"
    by (auto simp: Encoder_new_def null_encoder_def)
  obtain chunks cn' where l: "send_loop E lpath rpath mtime fd e (cn\<lparr>cn_out := os\<rparr>) = Some (True, cn')"
    "sent [(lpath, rpath)] (data_msgs chunks @ sync_pair ID_DONE mtime) (cn\<lparr>cn_out := os\<rparr>) cn'" "concat chunks = data" "chunks_fit chunks"
    using send_loop_sent [OF assms(4) sent_benign [OF s1] ne] by blast
  have "SendLargeFile E path mode lpath rpath mtime CompressNone False cn = Some (True, cn')"
    using True w(1) assms(2,3) e l(1) paths_fit_path [OF assms(1)]
    by (simp add: SendLargeFile_def ResolveCompressionType_def SendSend2_def compression_flag_def open_source_def)
  moreover have "sent [(lpath, rpath)] (?hdr @ data_msgs chunks @ sync_pair ID_DONE mtime) cn cn'" using sent_trans [OF s1 l(2)] by simp
  moreover have "store_request path mode mtime data (?hdr @ data_msgs chunks @ sync_pair ID_DONE mtime)"
    unfolding store_request_def using l(3) chunks_fit_word [OF l(4)] by (intro exI [of _ chunks]) simp
  ultimately show ?thesis by blast
next
  case False
  let ?pm = "path_and_mode path mode"
  let ?hdr = "sync_pair ID_SEND_V1 (of_nat (length ?pm)) @ ?pm"
  obtain os where w: "cn_write ?hdr cn = (None, cn\<lparr>cn_out := os\<rparr>)" "took (cn_out cn) ?hdr os"
    using cn_write_took [OF assms(5)] by blast
  note s1 = sentI [OF w(2)]
  obtain chunks cn' where l: "legacy_loop E lpath rpath mtime fd (cn\<lparr>cn_out := os\<rparr>) = Some (True, cn')"
    "sent [(lpath, rpath)] (data_msgs chunks @ sync_pair ID_DONE mtime) (cn\<lparr>cn_out := os\<rparr>) cn'" "concat chunks = data" "chunks_fit chunks"
    using legacy_loop_sent [OF assms(4) sent_benign [OF s1]] by blast
  have "SendLargeFile E path mode lpath rpath mtime CompressNone False cn = Some (True, cn')"
    using False w(1) assms(1-3) l(1) by (simp add: SendLargeFile_def SendLargeFileLegacy_def SendRequest_def paths_fit_def open_source_def)
  moreover have "sent [(lpath, rpath)] (?hdr @ data_msgs chunks @ sync_pair ID_DONE mtime) cn cn'" using sent_trans [OF s1 l(2)] by simp
  moreover have "store_request path mode mtime data (?hdr @ data_msgs chunks @ sync_pair ID_DONE mtime)"
    unfolding store_request_def using l(3) chunks_fit_word [OF l(4)] by (intro exI [of _ chunks]) simp
  ultimately show ?thesis by blast
qed

section \<open>Acknowledgements are read to the end\<close>

lemma read_until_amount_feeds:
  assumes "feeds (cn_in cn) (xs @ ys)" and "length (cn_ack cn) + length xs = amount"
  shows "\<exists>es. read_until_amount E True amount cn = (ReadSuccess, cn\<lparr>cn_in := es, cn_ack := cn_ack cn @ xs\<rparr>) \<and> feeds es ys"
  using assms
proof (induction "length xs" arbitrary: xs cn rule: less_induct)
  case less
  show ?case
  proof (cases "xs = []")
    case True
    then show ?thesis using less.prems by (subst read_until_amount.simps) (auto intro: exI [of _ "cn_in cn"])
  next
    case False
    obtain c es1 where es: "cn_in cn = Got c # es1" "c \<noteq> []" "chunks_ok es1" "c @ stream_bytes es1 = xs @ ys"
      using less.prems(1) False by (cases "cn_in cn" rule: stream_bytes.cases) (auto simp: feeds_def)
    define n where "n = min (length c) (length xs)"
    define es2 where "es2 = (if length c \<le> length xs then es1 else Got (drop (length xs) c) # es1)"
    have n: "0 < n" "n \<le> length xs" using es(2) False by (simp_all add: n_def)
    have tk: "take n xs = take n c" using arg_cong [OF es(4), of "take n"] by (simp add: n_def)
    have rd: "adb_read (amount - length (cn_ack cn)) (cn_in cn) = (Inr (take n xs), es2)"
      using es(1) less.prems(2) tk by (auto simp: es2_def n_def)
    have f2: "feeds es2 (drop n xs @ ys)"
    proof (cases "length c \<le> length xs")
      case True
      then show ?thesis using es(3,4) by (auto simp: es2_def n_def feeds_def append_eq_append_conv_if)
    next
      case False
      then show ?thesis using es(3,4) by (auto simp: es2_def n_def feeds_def append_eq_append_conv_if)
    qed
    define cn2 where "cn2 = cn\<lparr>cn_in := es2, cn_ack := cn_ack cn @ take n xs\<rparr>"
    have "length (drop n xs) < length xs" "feeds (cn_in cn2) (drop n xs @ ys)" "length (cn_ack cn2) + length (drop n xs) = amount"
      using n f2 less.prems(2) by (simp_all add: cn2_def)
    from less.hyps [OF this] obtain es3 where r: "read_until_amount E True amount cn2 = (ReadSuccess, cn2\<lparr>cn_in := es3, cn_ack := cn_ack cn2 @ drop n xs\<rparr>)" "feeds es3 ys"
      by blast
    have lt: "length (cn_ack cn) < amount" using False less.prems(2) by (cases xs) auto
    have ne: "take n xs \<noteq> []" using n False by simp
    have "read_until_amount E True amount cn = read_until_amount E True amount cn2"
      using rd lt ne by (subst read_until_amount.simps) (simp add: cn2_def)
    then show ?thesis using r by (auto simp: cn2_def)
  qed
qed

lemma ReadAcknowledgements_all:
  assumes "feeds (cn_in cn) (concat (replicate (length (cn_deferred cn)) (sync_pair ID_OKAY 0)) @ rest)" and "cn_ack cn = []"
  shows "\<exists>es. ReadAcknowledgements E True cn = Some (True, cn\<lparr>cn_in := es, cn_deferred := []\<rparr>) \<and> feeds es rest"
  using assms
proof (induction "cn_deferred cn" arbitrary: cn)
  case Nil
  have "cn\<lparr>cn_deferred := []\<rparr> = cn" using Nil.hyps by simp
  then show ?case using Nil by (subst ReadAcknowledgements.simps) (auto intro!: exI [of _ "cn_in cn"])
next
  case (Cons p ps)
  obtain es where r: "read_until_amount E True 8 cn = (ReadSuccess, cn\<lparr>cn_in := es, cn_ack := sync_pair ID_OKAY 0\<rparr>)"
    "feeds es (concat (replicate (length ps) (sync_pair ID_OKAY 0)) @ rest)"
    using read_until_amount_feeds [of cn "sync_pair ID_OKAY 0" "concat (replicate (length ps) (sync_pair ID_OKAY 0)) @ rest" 8 E] Cons.prems Cons.hyps(2) [symmetric] by auto
  define cn2 where "cn2 = cn\<lparr>cn_in := es, cn_ack := [], cn_deferred := ps\<rparr>"
  obtain es2 where r2: "ReadAcknowledgements E True cn2 = Some (True, cn2\<lparr>cn_in := es2, cn_deferred := []\<rparr>)" "feeds es2 rest"
    using Cons.hyps(1) [of cn2] r(2) by (auto simp: cn2_def)
  have "ReadAcknowledgements E True cn = ReadAcknowledgements E True cn2"
    using r(1) Cons.hyps(2) [symmetric] by (subst ReadAcknowledgements.simps) (simp add: CopyDone_def cn2_def)
  moreover have "cn2\<lparr>cn_in := es2, cn_deferred := []\<rparr> = cn\<lparr>cn_in := es2, cn_deferred := []\<rparr>"
    using Cons.prems(2) by (cases cn) (simp add: cn2_def)
  ultimately show ?case using r2 by auto
qed

lemma ReadAcknowledgements_later:
  assumes "cn_polls cn = []" and "length (cn_deferred cn) < max_deferred_acks" and "cn_ack cn = []"
  shows "ReadAcknowledgements E False cn = Some (True, cn)"
  using assms by (subst ReadAcknowledgements.simps) (simp add: read_until_amount.simps cn_poll_def)

end
