(* ===== verification/Adb_Sync.thy ===== *)
theory Adb_Sync
  imports Adb_Sync_Service Adb_Sync_Client Adb_Socket_Spec
begin

text \<open>
  File synchronisation as a whole: what the client of \<open>Adb_Sync_Client\<close> sends is what the service of
  \<open>Adb_Sync_Service\<close> expects, and the other way round.  The streams between them may cut the bytes anywhere.
\<close>

unbundle bit_operations_syntax

section \<open>The mode in the first version of the request\<close>

lemma isdigit_hex_value: "isdigit c \<Longrightarrow> hex_value c = Some (digit_value c) \<and> digit_value c < 10"
  by (auto simp: isdigit_def hex_value_def digit_value_def Let_def)

lemma base_value_digits: "\<forall>c \<in> set ds. isdigit c \<Longrightarrow> base_value 10 acc ds = foldl (\<lambda>n c. 10 * n + digit_value c) acc ds"
  by (induction ds arbitrary: acc) (simp_all add: isdigit_hex_value)

lemma isdigit_plain: "isdigit c \<Longrightarrow> \<not> is_space c \<and> c \<noteq> CHR ''-'' \<and> c \<noteq> CHR ''+'' \<and> c \<noteq> CHR ''x'' \<and> c \<noteq> CHR ''X'' \<and> c \<noteq> CHR '','' \<and> c \<noteq> CHR 0x00"
  by (auto simp: isdigit_def is_space_def)

lemma strtoul0_digits:
  assumes "n < 2 ^ 64"
  shows "strtoul0 (dec_digits n) = Some n" and "n \<noteq> 0 \<Longrightarrow> strtoul0 (CHR ''-'' # dec_digits n) = Some (2 ^ 64 - n)"
proof -
  define ds where "ds = dec_digits n"
  have d: "ds \<noteq> []" "\<forall>c \<in> set ds. isdigit c" "dec_value ds = n" "hd ds = CHR ''0'' \<longrightarrow> ds = ''0''"
    using dec_digits_props [of n] by (auto simp: ds_def dec_digits.simps [of 0])
  obtain c cs where cs: "ds = c # cs" using d(1) by (cases ds) auto
  have c: "\<not> is_space c" "c \<noteq> CHR ''-''" "c \<noteq> CHR ''+''" using isdigit_plain [of c] d(2) cs by auto
  have hex: "\<not> (length ds > 2 \<and> ds ! 0 = CHR ''0'' \<and> (ds ! 1 = CHR ''x'' \<or> ds ! 1 = CHR ''X'') \<and> hex_value (ds ! 2) \<noteq> None)"
    using d(4) cs by auto
  have v: "(if ds \<noteq> [] \<and> hd ds = CHR ''0'' then base_value 8 0 ds else base_value 10 0 ds) = n"
  proof (cases "hd ds = CHR ''0''")
    case True
    then have "ds = ''0''" using d(4) by simp
    then show ?thesis using d(3) by (simp add: hex_value_def dec_value_def digit_value_def)
  next
    case False
    then show ?thesis using base_value_digits [OF d(2), of 0] d(3) by (simp add: dec_value_def)
  qed
  have dw: "dropWhile is_space ds = ds" using c(1) cs by simp
  have sg: "(if ds \<noteq> [] \<and> (hd ds = CHR ''-'' \<or> hd ds = CHR ''+'') then tl ds else ds) = ds" "\<not> (ds \<noteq> [] \<and> hd ds = CHR ''-'')" using c cs by simp_all
  show "strtoul0 (dec_digits n) = Some n"
    unfolding ds_def [symmetric] strtoul0_def Let_def dw sg(1) if_not_P [OF hex] v using sg(2) assms by auto
  have tm: "(if CHR ''-'' # ds \<noteq> [] \<and> (CHR ''-'' = CHR ''-'' \<or> CHR ''-'' = CHR ''+'') then ds else CHR ''-'' # ds) = ds" by simp
  have dm: "dropWhile is_space (CHR ''-'' # ds) = CHR ''-'' # ds" by (simp add: is_space_def)
  show "strtoul0 (CHR ''-'' # dec_digits n) = Some (2 ^ 64 - n)" if "n \<noteq> 0"
    unfolding ds_def [symmetric] strtoul0_def Let_def dm list.sel tm if_not_P [OF hex] v using assms that by simp
qed

lemma strtoul0_mode: "\<exists>n. strtoul0 (format_d (sint (mode :: u32))) = Some n \<and> of_nat n = mode"
proof (cases "sint mode < 0")
  case False
  have "nat (sint mode) < 2 ^ 64" using sint_lt [of mode] by simp
  then have "strtoul0 (format_d (sint mode)) = Some (nat (sint mode))" using strtoul0_digits(1) False by (simp add: format_d_def)
  moreover have "of_nat (nat (sint mode)) = mode" using False by (simp add: of_nat_nat)
  ultimately show ?thesis by blast
next
  case True
  define n where "n = nat (- sint mode)"
  have n: "n < 2 ^ 64" "n \<noteq> 0" "n \<le> 2 ^ 64" using True sint_ge [of mode] by (simp_all add: n_def)
  have "strtoul0 (format_d (sint mode)) = Some (2 ^ 64 - n)" using strtoul0_digits(2) [OF n(1,2)] True by (simp add: format_d_def n_def)
  moreover have "of_nat (2 ^ 64 - n) = mode"
  proof -
    have "(of_nat (2 ^ 64 - n) :: u32) = of_nat (2 ^ 64) - of_nat n" using n(3) by (simp only: of_nat_diff)
    also have "(of_nat (2 ^ 64) :: u32) = 0" by simp
    also have "0 - of_nat n = - (of_int (- sint mode) :: u32)" using True by (simp add: n_def of_nat_nat)
    finally show ?thesis by simp
  qed
  ultimately show ?thesis by blast
qed

lemma format_d_plain: "CHR '','' \<notin> set (format_d n)" "CHR 0x00 \<notin> set (format_d n)"
proof -
  have "CHR '','' \<notin> set (dec_digits k) \<and> CHR 0x00 \<notin> set (dec_digits k)" for k
    using dec_digits_props [of k] isdigit_plain by blast
  then show "CHR '','' \<notin> set (format_d n)" "CHR 0x00 \<notin> set (format_d n)" by (simp_all add: format_d_def)
qed

lemma find_last_of_append: "c \<notin> set r \<Longrightarrow> find_last_of c (l @ c # r) = Some (length l)"
  using find_char_append [of c "rev r" "rev l"] by (simp add: find_last_of_def)

lemma percent_s_path_and_mode: "CHR 0x00 \<notin> set path \<Longrightarrow> percent_s (path_and_mode path mode) = path_and_mode path mode"
  using format_d_plain(2) by (simp add: path_and_mode_def)

lemma do_send_v1_path:
  assumes "CHR 0x00 \<notin> set path"
  shows "do_send_v1 D (path_and_mode path mode) sv = send_impl D path mode CompressNone False sv"
proof -
  obtain n where n: "strtoul0 (format_d (sint mode)) = Some n" "of_nat n = mode" using strtoul0_mode by blast
  have pm: "path_and_mode path mode = path @ CHR '','' # format_d (sint mode)" using assms by (simp add: path_and_mode_def)
  have "find_last_of CHR '','' (path_and_mode path mode) = Some (length path)"
    unfolding pm by (rule find_last_of_append [OF format_d_plain(1)])
  then show ?thesis using n by (simp add: do_send_v1_def) (simp add: pm)
qed

section \<open>The service stores what the client sends\<close>

lemma compression_flags_none: "compression_flags 0 = Inr (CompressNone, 0)"
  by (simp add: compression_flags_def)

lemma service_stores:
  assumes "store_request path mode ts data req" and "paths_fit path mode" and "\<not> S_ISLNK mode"
    and "feeds (sv_in sv) (req @ rest)" and "benign (sv_out sv)" and "files_ok (se_files D)" and "stored D path mode data ts (sv_fs sv) = Some fs'"
  shows "\<exists>es os. handle_sync_command D sv = Some (True, sv\<lparr>sv_in := es, sv_out := os, sv_fs := fs'\<rparr>) \<and>
     feeds es rest \<and> took (sv_out sv) (sync_pair ID_OKAY 0) os"
proof -
  obtain chunks where ch: "concat chunks = data" "list_all (\<lambda>c. length c < 2 ^ 32) chunks"
    and req: "req = sync_pair ID_SEND_V1 (of_nat (length (path_and_mode path mode))) @ path_and_mode path mode @ data_msgs chunks @ sync_pair ID_DONE ts \<or>
         req = sync_pair ID_SEND_V2 (of_nat (length path)) @ path @ send_v2_setup mode 0 @ data_msgs chunks @ sync_pair ID_DONE ts"
    using assms(1) by (auto simp: store_request_def)
  have nul: "CHR 0x00 \<notin> set path" using assms(2) by (simp add: paths_fit_def)
  have impl: "\<exists>es' os. send_impl D path mode CompressNone False (sv\<lparr>sv_in := es\<rparr>) = Some (True, sv\<lparr>sv_in := es', sv_out := os, sv_fs := fs'\<rparr>) \<and>
     feeds es' rest \<and> took (sv_out sv) (sync_pair ID_OKAY 0) os" if "feeds es (data_msgs chunks @ sync_pair ID_DONE ts @ rest)" for es
    using send_impl_stores [OF assms(3), of "sv\<lparr>sv_in := es\<rparr>"] that ch assms(5-7) by auto
  from req show ?thesis
  proof
    assume r: "req = sync_pair ID_SEND_V1 (of_nat (length (path_and_mode path mode))) @ path_and_mode path mode @ data_msgs chunks @ sync_pair ID_DONE ts"
    obtain es where c: "handle_sync_command D sv = run_command D ID_SEND_V1 (percent_s (path_and_mode path mode)) (sv\<lparr>sv_in := es\<rparr>)"
      and f: "feeds es (data_msgs chunks @ sync_pair ID_DONE ts @ rest)"
      using handle_sync_command_reads [of sv ID_SEND_V1 "path_and_mode path mode"] assms(2,4) r by (auto simp: paths_fit_def)
    have "handle_sync_command D sv = send_impl D path mode CompressNone False (sv\<lparr>sv_in := es\<rparr>)"
      unfolding c percent_s_path_and_mode [OF nul] by (simp add: run_command_def sync_ids do_send_v1_path [OF nul])
    then show ?thesis using impl [OF f] by simp
  next
    assume r: "req = sync_pair ID_SEND_V2 (of_nat (length path)) @ path @ send_v2_setup mode 0 @ data_msgs chunks @ sync_pair ID_DONE ts"
    obtain es where c: "handle_sync_command D sv = run_command D ID_SEND_V2 path (sv\<lparr>sv_in := es\<rparr>)"
      and f: "feeds es (send_v2_setup mode 0 @ data_msgs chunks @ sync_pair ID_DONE ts @ rest)"
      using handle_sync_command_reads [of sv ID_SEND_V2 path] assms(4) r paths_fit_path [OF assms(2)] by auto
    obtain es2 where r2: "sv_read 12 (sv\<lparr>sv_in := es\<rparr>) = (Inr (send_v2_setup mode 0), sv\<lparr>sv_in := es2\<rparr>)" "feeds es2 (data_msgs chunks @ sync_pair ID_DONE ts @ rest)"
      using sv_read_feeds [of "sv\<lparr>sv_in := es\<rparr>" "send_v2_setup mode 0" "data_msgs chunks @ sync_pair ID_DONE ts @ rest" 12] f by (auto simp: send_v2_setup_def)
    have g: "get_le32 (drop 4 (send_v2_setup mode 0)) = mode" "get_le32 (drop 8 (send_v2_setup mode 0)) = 0"
      using get_le32_le32 [of 0 "[]"] by (simp_all add: send_v2_setup_def)
    have "handle_sync_command D sv = send_impl D path mode CompressNone False (sv\<lparr>sv_in := es2\<rparr>)"
      unfolding c using r2(1) g by (simp add: run_command_def sync_ids do_send_v2_def compression_flags_none)
    then show ?thesis using impl [OF r2(2)] by simp
  qed
qed

section \<open>Pushing files\<close>

text \<open>A file of the list that can be pushed: an ordinary file with this content, whose path fits a request.\<close>

definition pushable :: "('fs, 'c) client_env \<Rightarrow> 'fs \<Rightarrow> copyinfo \<Rightarrow> bytes \<Rightarrow> bool" where
  "pushable E fs ci data \<longleftrightarrow> \<not> ci_skip ci \<and> \<not> S_ISLNK (ci_mode ci) \<and> paths_fit (ci_rpath ci) (ci_mode ci) \<and>
     (\<exists>st. fs_stat (cl_files E) (ci_lpath ci) fs = Inr st \<and>
        (if sint (st_size st) < int SYNC_DATA_MAX then cl_ReadFileToString E (ci_lpath ci) fs = Inr data \<and> length data < 2 ^ 32
         else (\<exists>fd. fs_open_read (cl_files E) (ci_lpath ci) fs = Inr fd \<and> whole fd data)))"

lemma sync_send_pushes:
  assumes "pushable E (cn_fs cn) ci data" and "benign (cn_out cn)" and "cn_polls cn = []" and "cn_ack cn = []" and "length (cn_deferred cn) + 1 < max_deferred_acks"
  shows "\<exists>req cn'. sync_send E (ci_lpath ci) (ci_rpath ci) mtime (ci_mode ci) False CompressNone False cn = Some (True, cn') \<and>
     sent [(ci_lpath ci, ci_rpath ci)] req cn cn' \<and> store_request (ci_rpath ci) (ci_mode ci) mtime data req"
proof -
  obtain st where st: "fs_stat (cl_files E) (ci_lpath ci) (cn_fs cn) = Inr st" and nl: "\<not> S_ISLNK (ci_mode ci)" and pf: "paths_fit (ci_rpath ci) (ci_mode ci)"
    and rd: "if sint (st_size st) < int SYNC_DATA_MAX then cl_ReadFileToString E (ci_lpath ci) (cn_fs cn) = Inr data \<and> length data < 2 ^ 32
         else (\<exists>fd. fs_open_read (cl_files E) (ci_lpath ci) (cn_fs cn) = Inr fd \<and> whole fd data)"
    using assms(1) by (auto simp: pushable_def)
  have later: "ReadAcknowledgements E False cn' = Some (True, cn')" if "sent [(ci_lpath ci, ci_rpath ci)] req cn cn'" for req cn'
    using ReadAcknowledgements_later [of cn'] sent_sel [OF that] assms(3-5) by simp
  show ?thesis
  proof (cases "sint (st_size st) < int SYNC_DATA_MAX")
    case True
    then obtain req cn' where s: "SendSmallFile E (ci_rpath ci) (ci_mode ci) (ci_lpath ci) (ci_rpath ci) mtime data False cn = Some (True, cn')"
      "sent [(ci_lpath ci, ci_rpath ci)] req cn cn'" "store_request (ci_rpath ci) (ci_mode ci) mtime data req"
      using SendSmallFile_sent [OF pf _ assms(2), of data] rd by auto blast
    have "sync_send E (ci_lpath ci) (ci_rpath ci) mtime (ci_mode ci) False CompressNone False cn = Some (True, cn')"
      using True rd st nl s(1) later [OF s(2)] by (simp add: sync_send_def)
    then show ?thesis using s by blast
  next
    case False
    then obtain fd where fd: "fs_open_read (cl_files E) (ci_lpath ci) (cn_fs cn) = Inr fd" "whole fd data" using rd by auto
    obtain req cn' where s: "SendLargeFile E (ci_rpath ci) (ci_mode ci) (ci_lpath ci) (ci_rpath ci) mtime CompressNone False cn = Some (True, cn')"
      "sent [(ci_lpath ci, ci_rpath ci)] req cn cn'" "store_request (ci_rpath ci) (ci_mode ci) mtime data req"
      using SendLargeFile_sent [OF pf st fd assms(2)] by blast
    have "sync_send E (ci_lpath ci) (ci_rpath ci) mtime (ci_mode ci) False CompressNone False cn = Some (True, cn')"
      using False st nl s(1) later [OF s(2)] by (simp add: sync_send_def)
    then show ?thesis using s by blast
  qed
qed

text \<open>The requests for a list of files, and their effect on the device.\<close>

fun requests :: "(copyinfo \<times> bytes) list \<Rightarrow> bytes list \<Rightarrow> bool" where
  "requests [] rs = (rs = [])"
| "requests ((ci, data) # cis) rs = (\<exists>r rs'. rs = r # rs' \<and> store_request (ci_rpath ci) (ci_mode ci) (ucast (ci_time ci)) data r \<and> requests cis rs')"

fun stored_all :: "('fs, 'c) sync_env \<Rightarrow> (copyinfo \<times> bytes) list \<Rightarrow> 'fs \<Rightarrow> 'fs option" where
  "stored_all D [] fs = Some fs"
| "stored_all D ((ci, data) # cis) fs = do {
     fs1 \<leftarrow> stored D (ci_rpath ci) (ci_mode ci) data (ucast (ci_time ci)) fs;
     stored_all D cis fs1
   }"

lemma push_files_sends:
  assumes "list_all (\<lambda>(ci, data). pushable E (cn_fs cn) ci data) files" and "benign (cn_out cn)" and "cn_polls cn = []" and "cn_ack cn = []"
    and "length (cn_deferred cn) + length files < max_deferred_acks"
  shows "\<exists>rs cn'. push_files E False CompressNone False (map fst files) n cn = Some (Some n, cn') \<and>
     sent (map (\<lambda>(ci, data). (ci_lpath ci, ci_rpath ci)) files) (concat rs) cn cn' \<and> requests files rs"
  using assms
proof (induction files arbitrary: cn)
  case Nil
  then show ?case using sentI [OF took_Nil [OF Nil.prems(2)]] by auto
next
  case (Cons f files)
  obtain ci data where f: "f = (ci, data)" by force
  obtain req cn1 where s: "sync_send E (ci_lpath ci) (ci_rpath ci) (ucast (ci_time ci)) (ci_mode ci) False CompressNone False cn = Some (True, cn1)"
    "sent [(ci_lpath ci, ci_rpath ci)] req cn cn1" "store_request (ci_rpath ci) (ci_mode ci) (ucast (ci_time ci)) data req"
    using sync_send_pushes [of E cn ci data "ucast (ci_time ci)"] Cons.prems f by auto
  note sel = sent_sel [OF s(2)]
  obtain rs cn' where r: "push_files E False CompressNone False (map fst files) n cn1 = Some (Some n, cn')"
    "sent (map (\<lambda>(ci, data). (ci_lpath ci, ci_rpath ci)) files) (concat rs) cn1 cn'" "requests files rs"
    using Cons.IH [of cn1] Cons.prems sel sent_benign [OF s(2)] f by auto
  have ns: "\<not> ci_skip ci" using Cons.prems(1) f by (simp add: pushable_def)
  have "push_files E False CompressNone False (map fst (f # files)) n cn = Some (Some n, cn')"
    using s(1) r(1) f ns by simp
  moreover have "sent (map (\<lambda>(ci, data). (ci_lpath ci, ci_rpath ci)) (f # files)) (concat (req # rs)) cn cn'"
    using sent_trans [OF s(2) r(2)] f by simp
  moreover have "requests (f # files) (req # rs)" using s(3) r(3) f by simp
  ultimately show ?case by blast
qed

lemma service_loop_stores:
  assumes "requests files rs" and "list_all (\<lambda>(ci, data). paths_fit (ci_rpath ci) (ci_mode ci) \<and> \<not> S_ISLNK (ci_mode ci)) files"
    and "feeds (sv_in sv) (concat rs @ sync_pair ID_QUIT 0)" and "benign (sv_out sv)" and "files_ok (se_files D)" and "stored_all D files (sv_fs sv) = Some fs'"
  shows "\<exists>sv'. service_loop D sv = Some sv' \<and> sv_fs sv' = fs' \<and> took (sv_out sv) (concat (replicate (length files) (sync_pair ID_OKAY 0))) (sv_out sv')"
  using assms(1-4,6)
proof (induction files arbitrary: rs sv)
  case Nil
  obtain es where "handle_sync_command D sv = run_command D ID_QUIT [] (sv\<lparr>sv_in := es\<rparr>)"
    using handle_sync_command_reads [of sv ID_QUIT "[]" "[]"] Nil.prems(1,3) by (auto simp: percent_s_def)
  then have "service_loop D sv = Some (sv\<lparr>sv_in := es\<rparr>)"
    by (subst service_loop.simps) (simp add: run_command_def sync_ids)
  then show ?case using Nil.prems took_Nil by auto
next
  case (Cons f files)
  obtain ci data where f: "f = (ci, data)" by force
  obtain r rs' where rs: "rs = r # rs'" "store_request (ci_rpath ci) (ci_mode ci) (ucast (ci_time ci)) data r" "requests files rs'"
    using Cons.prems(1) f by auto
  obtain fs1 where fs1: "stored D (ci_rpath ci) (ci_mode ci) data (ucast (ci_time ci)) (sv_fs sv) = Some fs1" "stored_all D files fs1 = Some fs'"
    using Cons.prems(5) f by (auto split: bind_splits)
  obtain es os where h: "handle_sync_command D sv = Some (True, sv\<lparr>sv_in := es, sv_out := os, sv_fs := fs1\<rparr>)"
    "feeds es (concat rs' @ sync_pair ID_QUIT 0)" "took (sv_out sv) (sync_pair ID_OKAY 0) os"
    using service_stores [OF rs(2), of sv "concat rs' @ sync_pair ID_QUIT 0" D fs1] Cons.prems f rs(1) assms(5) fs1(1) by auto
  obtain sv' where r: "service_loop D (sv\<lparr>sv_in := es, sv_out := os, sv_fs := fs1\<rparr>) = Some sv'" "sv_fs sv' = fs'"
    "took os (concat (replicate (length files) (sync_pair ID_OKAY 0))) (sv_out sv')"
    using Cons.IH [OF rs(3), of "sv\<lparr>sv_in := es, sv_out := os, sv_fs := fs1\<rparr>"] Cons.prems(2) f h(2) took_benign [OF h(3)] fs1(2) by auto
  have "service_loop D sv = Some sv'" using h(1) r(1) by (subst service_loop.simps) simp
  then show ?case using r(2) took_trans [OF h(3) r(3)] by auto
qed

section \<open>Pulling a file\<close>

lemma encode_loop_null:
  assumes "null_encoder e" and "benign (sv_out sv)"
  shows "\<exists>chunks v os. encode_loop D e sv = Some (if enc_finished e then Transfer_done else Wants_input, e\<lparr>enc_input := v\<rparr>, sv\<lparr>sv_out := os\<rparr>) \<and>
     took (sv_out sv) (data_msgs chunks) os \<and> concat chunks = iov_bytes (enc_input e) \<and> chunks_fit chunks \<and> fifo_ok v \<and> iov_bytes v = []"
  using assms
proof (induction "length (iov_bytes (enc_input e))" arbitrary: e sv rule: less_induct)
  case less
  let ?in = "iov_bytes (enc_input e)"
  obtain v b where v: "Encode (se_codecs D) (se_junk D) block_new e = Some (if iov_bytes v = [] then (if enc_finished e then Encode_Done else Encode_NeedInput) else Encode_MoreOutput,
       b, e\<lparr>enc_input := v\<rparr>)" "fifo_ok v" "iov_bytes v = drop SYNC_DATA_MAX ?in" and b: "block_wf b" "block_bytes b = take SYNC_DATA_MAX ?in"
    using null_encoder_Encode [OF less.prems(1)] by blast
  have sz: "blk_size b = length (take SYNC_DATA_MAX ?in)" using length_block_bytes [OF b(1)] b(2) by simp
  define c where "c = (if ?in = [] then [] else [take SYNC_DATA_MAX ?in])"
  have c: "concat c = take SYNC_DATA_MAX ?in" "chunks_fit c" by (simp_all add: c_def chunks_fit_def)
  obtain os where w: "(if \<not> block_empty b then sv_write2 (sync_pair ID_DATA (of_nat (blk_size b))) (block_bytes b) sv else (True, sv)) = (True, sv\<lparr>sv_out := os\<rparr>)"
    and s1: "took (sv_out sv) (data_msgs c) os"
  proof (cases "?in = []")
    case True
    then show ?thesis using that [of "sv_out sv"] block_empty_bytes [OF b(1)] b(2) took_Nil [OF less.prems(2)] by (simp add: c_def)
  next
    case False
    then have ne: "\<not> block_empty b" using block_empty_bytes [OF b(1)] b(2) by (simp add: SYNC_DATA_MAX_def)
    obtain os where "sv_write2 (sync_pair ID_DATA (of_nat (blk_size b))) (block_bytes b) sv = (True, sv\<lparr>sv_out := os\<rparr>)"
      "took (sv_out sv) (sync_pair ID_DATA (of_nat (blk_size b)) @ block_bytes b) os"
      using sv_write2_took [OF less.prems(2)] by blast
    then show ?thesis using that [of os] ne False sz b(2) by (simp add: c_def)
  qed
  show ?case
  proof (cases "iov_bytes v = []")
    case True
    then have "take SYNC_DATA_MAX ?in = ?in" using v(3) by simp
    moreover have "encode_loop D e sv = Some (if enc_finished e then Transfer_done else Wants_input, e\<lparr>enc_input := v\<rparr>, sv\<lparr>sv_out := os\<rparr>)"
      using True v(1) w by (subst encode_loop.simps) simp
    ultimately show ?thesis using True v(2) s1 c by (intro exI [of _ c] exI [of _ v] exI [of _ os]) simp
  next
    case False
    then have l: "length (iov_bytes v) < length ?in" using v(3) by (simp add: SYNC_DATA_MAX_def)
    have ne: "null_encoder (e\<lparr>enc_input := v\<rparr>)" using less.prems(1) v(2) by (simp add: null_encoder_def)
    obtain cs v2 os2 where r: "encode_loop D (e\<lparr>enc_input := v\<rparr>) (sv\<lparr>sv_out := os\<rparr>) =
        Some (if enc_finished e then Transfer_done else Wants_input, e\<lparr>enc_input := v2\<rparr>, sv\<lparr>sv_out := os2\<rparr>)"
      "took os (data_msgs cs) os2" "concat cs = iov_bytes v" "chunks_fit cs" "fifo_ok v2" "iov_bytes v2 = []"
      using less.hyps [of "e\<lparr>enc_input := v\<rparr>" "sv\<lparr>sv_out := os\<rparr>"] l ne took_benign [OF s1] by auto
    have "encode_loop D e sv = encode_loop D (e\<lparr>enc_input := v\<rparr>) (sv\<lparr>sv_out := os\<rparr>)"
      using False v(1) w by (subst encode_loop.simps) simp
    moreover have "took (sv_out sv) (data_msgs (c @ cs)) os2" using took_trans [OF s1 r(2)] by simp
    moreover have "concat (c @ cs) = ?in" using c(1) r(3) v(3) by simp
    moreover have "chunks_fit (c @ cs)" using c(2) r(4) by (simp add: chunks_fit_def)
    ultimately show ?thesis using r(1,5,6) by metis
  qed
qed

lemma recv_loop_sends:
  assumes "whole fd data" and "benign (sv_out sv)" and "null_encoder e" and "iov_bytes (enc_input e) = []" and "\<not> enc_finished e"
  shows "\<exists>chunks os. recv_loop D fd e sv = Some (True, sv\<lparr>sv_out := os\<rparr>) \<and>
     took (sv_out sv) (data_msgs chunks @ sync_pair ID_DONE 0) os \<and> concat chunks = data \<and> chunks_fit chunks"
  using assms
proof (induction "length data" arbitrary: fd data sv e rule: less_induct)
  case less
  obtain n fd1 where n: "adb_read SYNC_DATA_MAX fd = (Inr (take n data), fd1)" "whole fd1 (drop n data)" "n \<le> SYNC_DATA_MAX" "n \<le> length data" "data \<noteq> [] \<longrightarrow> 0 < n"
    using adb_read_whole [OF less.prems(1), of SYNC_DATA_MAX] by (auto simp: SYNC_DATA_MAX_def)
  show ?case
  proof (cases "data = []")
    case True
    have ne: "null_encoder (e\<lparr>enc_finished := True\<rparr>)" using less.prems(3) by (simp add: null_encoder_def)
    obtain cs v os where l: "encode_loop D (e\<lparr>enc_finished := True\<rparr>) sv = Some (Transfer_done, e\<lparr>enc_finished := True, enc_input := v\<rparr>, sv\<lparr>sv_out := os\<rparr>)"
      "took (sv_out sv) (data_msgs cs) os" "concat cs = []" "chunks_fit cs"
      using encode_loop_null [OF ne less.prems(2), of D] less.prems(4) by auto
    obtain os2 where f: "sv_write (sync_pair ID_DONE 0) (sv\<lparr>sv_out := os\<rparr>) = (True, sv\<lparr>sv_out := os2\<rparr>)" "took os (sync_pair ID_DONE 0) os2"
      using sv_write_took [of "sv\<lparr>sv_out := os\<rparr>" "sync_pair ID_DONE 0"] took_benign [OF l(2)] by auto
    have "recv_loop D fd e sv = Some (True, sv\<lparr>sv_out := os2\<rparr>)"
      using n(1) True l(1) f(1) less.prems(5) by (subst recv_loop.simps) (simp add: Encoder_Finish_def)
    then show ?thesis using took_trans [OF l(2) f(2)] l(3,4) True by auto
  next
    case False
    have ln: "length (take n data) = n" "take n data \<noteq> []" using n(4,5) False by auto
    obtain b where b: "read_block (se_junk D) (take n data) = Some b" "block_wf b" "block_bytes b = take n data"
      using read_block_ok [of "take n data"] n(3) ln(1) by auto
    have q: "fifo_ok (enc_input e)" using less.prems(3) by (simp add: null_encoder_def)
    have e1: "null_encoder (Encoder_Append b e)" "iov_bytes (enc_input (Encoder_Append b e)) = take n data" "\<not> enc_finished (Encoder_Append b e)"
      using iov_append_queue [OF q b(2)] less.prems(3-5) b(3) by (simp_all add: Encoder_Append_def null_encoder_def)
    obtain cs v os where l: "encode_loop D (Encoder_Append b e) sv = Some (Wants_input, (Encoder_Append b e)\<lparr>enc_input := v\<rparr>, sv\<lparr>sv_out := os\<rparr>)"
      "took (sv_out sv) (data_msgs cs) os" "concat cs = take n data" "chunks_fit cs" "fifo_ok v" "iov_bytes v = []"
      using encode_loop_null [OF e1(1) less.prems(2), of D] e1(2,3) by auto
    have e2: "null_encoder ((Encoder_Append b e)\<lparr>enc_input := v\<rparr>)" "\<not> enc_finished ((Encoder_Append b e)\<lparr>enc_input := v\<rparr>)"
      using e1 l(5) by (simp_all add: null_encoder_def)
    obtain cs' os' where r: "recv_loop D fd1 ((Encoder_Append b e)\<lparr>enc_input := v\<rparr>) (sv\<lparr>sv_out := os\<rparr>) = Some (True, sv\<lparr>sv_out := os'\<rparr>)"
      "took os (data_msgs cs' @ sync_pair ID_DONE 0) os'" "concat cs' = drop n data" "chunks_fit cs'"
      using less.hyps [OF _ n(2) _ e2(1) _ e2(2), of "sv\<lparr>sv_out := os\<rparr>"] n(4,5) False l(6) took_benign [OF l(2)] by auto
    have "recv_loop D fd e sv = Some (True, sv\<lparr>sv_out := os'\<rparr>)"
      using n(1) ln b(1) l(1) r(1) by (subst recv_loop.simps) simp
    moreover have "took (sv_out sv) (data_msgs (cs @ cs') @ sync_pair ID_DONE 0) os'"
      using took_trans [OF l(2) r(2)] by simp
    moreover have "concat (cs @ cs') = data" "chunks_fit (cs @ cs')" using r(3,4) l(3,4) by (simp_all add: chunks_fit_def)
    ultimately show ?thesis by blast
  qed
qed

lemma recv_impl_sends:
  assumes "fs_open_read (se_files D) path (sv_fs sv) = Inr fd" and "whole fd data" and "benign (sv_out sv)"
  shows "\<exists>chunks os. recv_impl D path CompressNone sv = Some (True, sv\<lparr>sv_out := os\<rparr>) \<and>
     took (sv_out sv) (data_msgs chunks @ sync_pair ID_DONE 0) os \<and> concat chunks = data \<and> chunks_fit chunks"
proof -
  obtain e where e: "Encoder_new (se_codecs D) (se_junk D) CompressNone SYNC_DATA_MAX = Some e"
    and ne: "null_encoder e" "iov_bytes (enc_input e) = []" "\<not> enc_finished e"
    by (auto simp: Encoder_new_def null_encoder_def)
  show ?thesis using recv_loop_sends [OF assms(2,3) ne, of D] assms(1) e by (simp add: recv_impl_def)
qed

text \<open>The request to read a file, in the version that the features allow.\<close>

definition read_request :: "bool \<Rightarrow> string \<Rightarrow> bytes" where
  "read_request v2 path =
     (if v2 then sync_pair ID_RECV_V2 (of_nat (length path)) @ path @ recv_v2_setup 0 else sync_pair ID_RECV_V1 (of_nat (length path)) @ path)"

lemma service_sends:
  assumes "feeds (sv_in sv) (read_request v2 path @ rest)" and "length path \<le> 1024" and "CHR 0x00 \<notin> set path"
    and "fs_open_read (se_files D) path (sv_fs sv) = Inr fd" and "whole fd data" and "benign (sv_out sv)"
  shows "\<exists>chunks es os. handle_sync_command D sv = Some (True, sv\<lparr>sv_in := es, sv_out := os\<rparr>) \<and> feeds es rest \<and>
     took (sv_out sv) (data_msgs chunks @ sync_pair ID_DONE 0) os \<and> concat chunks = data \<and> chunks_fit chunks"
proof (cases v2)
  case False
  obtain es where c: "handle_sync_command D sv = run_command D ID_RECV_V1 path (sv\<lparr>sv_in := es\<rparr>)" "feeds es rest"
    using handle_sync_command_reads [of sv ID_RECV_V1 path rest] assms(1-3) False by (auto simp: read_request_def)
  then show ?thesis using recv_impl_sends [of D path "sv\<lparr>sv_in := es\<rparr>" fd data] assms(4-6)
    by (auto simp: run_command_def sync_ids do_recv_v1_def)
next
  case True
  obtain es where c: "handle_sync_command D sv = run_command D ID_RECV_V2 path (sv\<lparr>sv_in := es\<rparr>)" "feeds es (recv_v2_setup 0 @ rest)"
    using handle_sync_command_reads [of sv ID_RECV_V2 path "recv_v2_setup 0 @ rest"] assms(1-3) True by (auto simp: read_request_def)
  obtain es2 where r: "sv_read 8 (sv\<lparr>sv_in := es\<rparr>) = (Inr (recv_v2_setup 0), sv\<lparr>sv_in := es2\<rparr>)" "feeds es2 rest"
    using sv_read_feeds [of "sv\<lparr>sv_in := es\<rparr>" "recv_v2_setup 0" rest 8] c(2) by (auto simp: recv_v2_setup_def)
  have "get_le32 (drop 4 (recv_v2_setup 0)) = 0" using get_le32_le32 [of 0 "[]"] by (simp add: recv_v2_setup_def)
  then have "handle_sync_command D sv = recv_impl D path CompressNone (sv\<lparr>sv_in := es2\<rparr>)"
    using c(1) r(1) by (simp add: run_command_def sync_ids do_recv_v2_def compression_flags_none)
  then show ?thesis using recv_impl_sends [of D path "sv\<lparr>sv_in := es2\<rparr>" fd data] assms(4-6) r(2) by auto
qed

text \<open>What receiving leaves of the connection: only its input, the ledgers and the local files change.\<close>

definition received :: "bytes \<Rightarrow> 'fs \<Rightarrow> 'fs sync_conn \<Rightarrow> 'fs sync_conn \<Rightarrow> bool" where
  "received rest fs cn cn' \<longleftrightarrow> feeds (cn_in cn') rest \<and> cn_fs cn' = fs \<and> cn_out cn' = cn_out cn \<and> cn_deferred cn' = cn_deferred cn \<and>
     cn_ack cn' = cn_ack cn \<and> cn_features cn' = cn_features cn \<and> cn_lines cn' = cn_lines cn"

lemma received_Record [simp]:
  "received rest fs cn (RecordBytesTransferred n cn') = received rest fs cn cn'"
  "received rest fs cn (RecordFilesTransferred n cn') = received rest fs cn cn'"
  "received rest fs (RecordBytesTransferred n cn) cn' = received rest fs cn cn'"
  by (simp_all add: received_def RecordBytesTransferred_def RecordFilesTransferred_def)

lemma Record_sel [simp]:
  "cn_in (RecordBytesTransferred n cn) = cn_in cn" "cn_fs (RecordBytesTransferred n cn) = cn_fs cn"
  by (simp_all add: RecordBytesTransferred_def)

lemma recv_v1_loop_stores:
  assumes "feeds (cn_in cn) (data_msgs chunks @ sync_pair ID_DONE 0 @ rest)" and "chunks_fit chunks" and "writable (Some f)" and "files_ok (cl_files E)"
  shows "\<exists>cn'. recv_v1_loop E rpath lpath f cn = Some (True, cn') \<and> received rest (fs_put (cl_files E) (fst f) (concat chunks) (cn_fs cn)) cn cn'"
  using assms(1-3)
proof (induction chunks arbitrary: cn f)
  case Nil
  obtain es where "cn_read 8 cn = (Inr (sync_pair ID_DONE 0), cn\<lparr>cn_in := es\<rparr>)" "feeds es rest"
    using cn_read_feeds [of cn "sync_pair ID_DONE 0" rest 8] Nil.prems(1) by auto
  then show ?case using assms(4) by (subst recv_v1_loop.simps) (simp, simp add: received_def files_ok_def)
next
  case (Cons c cs)
  obtain es where r: "cn_read 8 cn = (Inr (sync_pair ID_DATA (of_nat (length c))), cn\<lparr>cn_in := es\<rparr>)" "feeds es (c @ data_msgs cs @ sync_pair ID_DONE 0 @ rest)"
    using cn_read_feeds [of cn "sync_pair ID_DATA (of_nat (length c))" "c @ data_msgs cs @ sync_pair ID_DONE 0 @ rest" 8] Cons.prems(1) by auto
  have fit: "length c \<le> SYNC_DATA_MAX" "chunks_fit cs" using Cons.prems(2) by (simp_all add: chunks_fit_def)
  note un = unat_length [OF fit(1)]
  obtain es2 where r2: "cn_read (length c) (cn\<lparr>cn_in := es\<rparr>) = (Inr c, cn\<lparr>cn_in := es2\<rparr>)" "feeds es2 (data_msgs cs @ sync_pair ID_DONE 0 @ rest)"
    using cn_read_feeds [of "cn\<lparr>cn_in := es\<rparr>" c "data_msgs cs @ sync_pair ID_DONE 0 @ rest"] r(2) by auto
  obtain sc where w: "write_file (cl_files E) c f (cn_fs cn) = (None, (fst f, sc), fs_put (cl_files E) (fst f) c (cn_fs cn))" "benign \<lparr>os_script = sc, os_log = []\<rparr>"
    using write_file_ok [of f "cl_files E" c "cn_fs cn"] Cons.prems(3) by (auto simp: writable_def)
  define cn1 where "cn1 = cn\<lparr>cn_in := es2, cn_fs := fs_put (cl_files E) (fst f) c (cn_fs cn)\<rparr>"
  have step: "recv_v1_loop E rpath lpath f cn = recv_v1_loop E rpath lpath (fst f, sc) (RecordBytesTransferred (length c) cn1)"
    using r(1) r2(1) w(1) un fit(1) by (subst recv_v1_loop.simps) (simp add: sync_ids cn1_def)
  have "\<exists>cn'. recv_v1_loop E rpath lpath (fst f, sc) (RecordBytesTransferred (length c) cn1) = Some (True, cn') \<and>
      received rest (fs_put (cl_files E) (fst f) (concat cs) (cn_fs cn1)) cn1 cn'"
    using Cons.IH [of "RecordBytesTransferred (length c) cn1" "(fst f, sc)"] r2(2) fit(2) w(2) by (simp add: cn1_def writable_def)
  then show ?case using step assms(4) by (auto simp: received_def cn1_def files_ok_def)
qed

lemma client_decode_loop_null:
  assumes "null_decoder d" and "writable (Some f)" and "files_ok (cl_files E)" and "feeds (cn_in cn) rest"
  shows "\<exists>sc v cn'. client_decode_loop E lpath f d cn = Some (if dec_finished d then Transfer_done else Wants_input, (fst f, sc), d\<lparr>dec_input := v\<rparr>, cn') \<and>
     received rest (fs_put (cl_files E) (fst f) (iov_bytes (dec_input d)) (cn_fs cn)) cn cn' \<and> writable (Some (fst f, sc)) \<and> fifo_ok v \<and> iov_bytes v = []"
  using assms(1,2,4)
proof (induction "length (iov_bytes (dec_input d))" arbitrary: d f cn rule: less_induct)
  case less
  let ?F = "cl_files E" and ?in = "iov_bytes (dec_input d)"
  obtain v where v: "Decode (cl_codecs E) d = Some (if iov_bytes v = [] then (if dec_finished d then Decode_Done else Decode_NeedInput) else Decode_MoreOutput,
       take SYNC_DATA_MAX ?in, d\<lparr>dec_input := v\<rparr>)" "fifo_ok v" "iov_bytes v = drop SYNC_DATA_MAX ?in"
    using null_decoder_Decode [OF less.prems(1)] by blast
  let ?out = "take SYNC_DATA_MAX ?in"
  obtain sc where w: "(if ?out \<noteq> [] then write_file ?F ?out f (cn_fs cn) else (None, f, cn_fs cn)) = (None, (fst f, sc), fs_put ?F (fst f) ?out (cn_fs cn))"
    and wr: "writable (Some (fst f, sc))"
  proof (cases "?out = []")
    case True
    then show ?thesis using that [of "snd f"] less.prems(2) assms(3) unfolding True by (simp add: files_ok_def)
  next
    case False
    then show ?thesis using that write_file_ok [of f ?F ?out "cn_fs cn"] less.prems(2) by (auto simp: writable_def)
  qed
  define cn1 where "cn1 = RecordBytesTransferred (length ?out) (cn\<lparr>cn_fs := fs_put ?F (fst f) ?out (cn_fs cn)\<rparr>)"
  have c1: "received rest (fs_put ?F (fst f) ?out (cn_fs cn)) cn cn1" using less.prems(3) by (simp add: cn1_def) (simp add: received_def)
  show ?case
  proof (cases "iov_bytes v = []")
    case True
    then have tk: "?out = ?in" using v(3) by simp
    have "client_decode_loop E lpath f d cn = Some (if dec_finished d then Transfer_done else Wants_input, (fst f, sc), d\<lparr>dec_input := v\<rparr>,
        if dec_finished d then RecordFilesTransferred 1 cn1 else cn1)"
      using True v(1) w unfolding tk by (subst client_decode_loop.simps) (simp add: Let_def cn1_def tk)
    then show ?thesis using True v(2) wr c1 tk by auto
  next
    case False
    then have l: "length (iov_bytes v) < length ?in" using v(3) by (simp add: SYNC_DATA_MAX_def)
    have f1: "feeds (cn_in cn1) rest" using c1 by (simp add: received_def)
    obtain sc2 v2 cn2 where r: "client_decode_loop E lpath (fst f, sc) (d\<lparr>dec_input := v\<rparr>) cn1 =
        Some (if dec_finished d then Transfer_done else Wants_input, (fst f, sc2), d\<lparr>dec_input := v2\<rparr>, cn2)"
      "received rest (fs_put ?F (fst f) (iov_bytes v) (cn_fs cn1)) cn1 cn2" "writable (Some (fst f, sc2))" "fifo_ok v2" "iov_bytes v2 = []"
      using less.hyps [of "d\<lparr>dec_input := v\<rparr>" "(fst f, sc)" cn1] l null_decoder_input [OF less.prems(1) v(2)] wr f1 by auto
    have "client_decode_loop E lpath f d cn = client_decode_loop E lpath (fst f, sc) (d\<lparr>dec_input := v\<rparr>) cn1"
      using False v(1) w by (subst client_decode_loop.simps) (simp add: Let_def cn1_def)
    moreover have "received rest (fs_put ?F (fst f) ?in (cn_fs cn)) cn cn2"
      using r(2) c1 assms(3) v(3) by (simp add: received_def files_ok_def)
    ultimately show ?thesis using r by auto
  qed
qed

lemma recv_v2_loop_stores:
  assumes "feeds (cn_in cn) (data_msgs chunks @ sync_pair ID_DONE 0 @ rest)" and "chunks_fit chunks" and "writable (Some f)" and "files_ok (cl_files E)"
    and "null_decoder d" and "iov_bytes (dec_input d) = []" and "\<not> dec_finished d"
  shows "\<exists>cn'. recv_v2_loop E rpath lpath f d cn = Some (True, cn') \<and> received rest (fs_put (cl_files E) (fst f) (concat chunks) (cn_fs cn)) cn cn'"
  using assms(1-3,5-7)
proof (induction chunks arbitrary: cn f d)
  case Nil
  obtain es where r: "cn_read 8 cn = (Inr (sync_pair ID_DONE 0), cn\<lparr>cn_in := es\<rparr>)" "feeds es rest"
    using cn_read_feeds [of cn "sync_pair ID_DONE 0" rest 8] Nil.prems(1) by auto
  have nd: "null_decoder (d\<lparr>dec_finished := True\<rparr>)" using Nil.prems(4) by (simp add: null_decoder_def)
  obtain f1 v cn' where l: "client_decode_loop E lpath f (d\<lparr>dec_finished := True\<rparr>) (cn\<lparr>cn_in := es\<rparr>) = Some (Transfer_done, f1, d\<lparr>dec_finished := True, dec_input := v\<rparr>, cn')"
    "received rest (fs_put (cl_files E) (fst f) [] (cn_fs cn)) (cn\<lparr>cn_in := es\<rparr>) cn'"
    using client_decode_loop_null [OF nd Nil.prems(3) assms(4), of "cn\<lparr>cn_in := es\<rparr>" rest lpath] r(2) Nil.prems(5) by auto
  then show ?case using r(1) Nil.prems(6) by (subst recv_v2_loop.simps) (simp add: Decoder_Finish_def received_def)
next
  case (Cons c cs)
  obtain es where r: "cn_read 8 cn = (Inr (sync_pair ID_DATA (of_nat (length c))), cn\<lparr>cn_in := es\<rparr>)" "feeds es (c @ data_msgs cs @ sync_pair ID_DONE 0 @ rest)"
    using cn_read_feeds [of cn "sync_pair ID_DATA (of_nat (length c))" "c @ data_msgs cs @ sync_pair ID_DONE 0 @ rest" 8] Cons.prems(1) by auto
  have fit: "length c \<le> SYNC_DATA_MAX" "chunks_fit cs" using Cons.prems(2) by (simp_all add: chunks_fit_def)
  note un = unat_length [OF fit(1)]
  obtain es2 where r2: "cn_read (length c) (cn\<lparr>cn_in := es\<rparr>) = (Inr c, cn\<lparr>cn_in := es2\<rparr>)" "feeds es2 (data_msgs cs @ sync_pair ID_DONE 0 @ rest)"
    using cn_read_feeds [of "cn\<lparr>cn_in := es\<rparr>" c "data_msgs cs @ sync_pair ID_DONE 0 @ rest"] r(2) by auto
  obtain b where b: "block_of_range (cl_junk E) c = Some b" "block_wf b" "block_bytes b = c"
    using block_of_range_wf block_of_range_Some by metis
  have q: "fifo_ok (dec_input d)" using Cons.prems(4) by (simp add: null_decoder_def)
  define d1 where "d1 = Decoder_Append b d"
  have d1: "null_decoder d1" "iov_bytes (dec_input d1) = c" "\<not> dec_finished d1"
    using iov_append_queue [OF q b(2)] Cons.prems(4-6) b(3) by (simp_all add: d1_def Decoder_Append_def null_decoder_def)
  obtain sc v cn1 where l: "client_decode_loop E lpath f d1 (cn\<lparr>cn_in := es2\<rparr>) = Some (Wants_input, (fst f, sc), d1\<lparr>dec_input := v\<rparr>, cn1)"
    "received (data_msgs cs @ sync_pair ID_DONE 0 @ rest) (fs_put (cl_files E) (fst f) c (cn_fs cn)) (cn\<lparr>cn_in := es2\<rparr>) cn1"
    "writable (Some (fst f, sc))" "fifo_ok v" "iov_bytes v = []"
    using client_decode_loop_null [OF d1(1) Cons.prems(3) assms(4), of "cn\<lparr>cn_in := es2\<rparr>" _ lpath] r2(2) d1(2,3) by fastforce
  have step: "recv_v2_loop E rpath lpath f d cn = recv_v2_loop E rpath lpath (fst f, sc) (d1\<lparr>dec_input := v\<rparr>) cn1"
    using r(1) r2(1) b(1) l(1) un fit(1) by (subst recv_v2_loop.simps) (simp add: sync_ids d1_def)
  have "\<exists>cn'. recv_v2_loop E rpath lpath (fst f, sc) (d1\<lparr>dec_input := v\<rparr>) cn1 = Some (True, cn') \<and>
      received rest (fs_put (cl_files E) (fst f) (concat cs) (cn_fs cn1)) cn1 cn'"
    using Cons.IH [of cn1 "(fst f, sc)" "d1\<lparr>dec_input := v\<rparr>"] l(2-5) fit(2) d1 by (simp add: null_decoder_input received_def)
  then show ?case using step l(2) assms(4) by (auto simp: received_def files_ok_def)
qed

lemma sync_recv_stores:
  assumes "length rpath \<le> 1024" and "benign (cn_out cn)" and "feeds (cn_in cn) (data_msgs chunks @ sync_pair ID_DONE 0 @ rest)" and "chunks_fit chunks"
    and "fs_open (cl_files E) lpath O_CREAT_TRUNC 0x1A4 (fs_unlink (cl_files E) lpath (cn_fs cn)) = (Inr f, fs1)" and "writable (Some f)" and "files_ok (cl_files E)"
  shows "\<exists>cn'. sync_recv E rpath lpath CompressNone cn = Some (True, cn') \<and>
     took (cn_out cn) (read_request (cl_have E cn ''sendrecv_v2'') rpath) (cn_out cn') \<and>
     feeds (cn_in cn') rest \<and> cn_fs cn' = fs_put (cl_files E) (fst f) (concat chunks) fs1 \<and> cn_lines cn' = cn_lines cn"
proof -
  let ?req = "read_request (cl_have E cn ''sendrecv_v2'') rpath"
  obtain os where w: "cn_write ?req cn = (None, cn\<lparr>cn_out := os\<rparr>)" "took (cn_out cn) ?req os" using cn_write_took [OF assms(2)] by blast
  define cn1 where "cn1 = cn\<lparr>cn_out := os, cn_fs := fs1\<rparr>"
  have cr: "create_local E lpath (cn\<lparr>cn_out := os\<rparr>) = (Some f, cn1)" using assms(5) by (simp add: create_local_def unlink_local_def cn1_def Let_def)
  have f1: "feeds (cn_in cn1) (data_msgs chunks @ sync_pair ID_DONE 0 @ rest)" using assms(3) by (simp add: cn1_def)
  have "\<exists>cn'. sync_recv E rpath lpath CompressNone cn = Some (True, cn') \<and> received rest (fs_put (cl_files E) (fst f) (concat chunks) fs1) cn1 cn'"
  proof (cases "cl_have E cn ''sendrecv_v2''")
    case True
    obtain d where d: "Decoder_new (cl_codecs E) CompressNone SYNC_DATA_MAX = Some d" by (simp add: Decoder_new_def)
    obtain cn' where "recv_v2_loop E rpath lpath f d cn1 = Some (True, cn')" "received rest (fs_put (cl_files E) (fst f) (concat chunks) fs1) cn1 cn'"
      using recv_v2_loop_stores [OF f1 assms(4,6,7), of d rpath lpath] Decoder_new_null [OF d] by (auto simp: cn1_def)
    then show ?thesis using True w(1) cr d assms(1)
      by (simp add: sync_recv_def sync_recv_v2_def ResolveCompressionType_def SendRecv2_def compression_flag_def read_request_def)
  next
    case False
    obtain cn' where "recv_v1_loop E rpath lpath f cn1 = Some (True, cn')" "received rest (fs_put (cl_files E) (fst f) (concat chunks) fs1) cn1 cn'"
      using recv_v1_loop_stores [OF f1 assms(4,6,7), of rpath lpath] by (auto simp: cn1_def)
    then show ?thesis using False w(1) cr assms(1) by (simp add: sync_recv_def sync_recv_v1_def SendRequest_def read_request_def)
  qed
  then show ?thesis using w(2) by (auto simp: received_def cn1_def)
qed

section \<open>A file system in memory\<close>

text \<open>
  An instance of the laws: files are a function from paths to contents, one descriptor refers to the
  file that was opened last.  Every path names an ordinary file.
\<close>

type_synonym memory = "(string \<Rightarrow> bytes) \<times> string"

definition memory_stat :: "memory \<Rightarrow> string \<Rightarrow> stat" where
  "memory_stat m path = no_stat\<lparr>st_mode := 0x81A4, st_size := of_nat (length (fst m path))\<rparr>"

definition memory_files :: "memory files" where
  "memory_files =
     \<lparr>fs_lstat = \<lambda>p m. Inr (memory_stat m p), fs_stat = \<lambda>p m. Inr (memory_stat m p), fs_list = \<lambda>p m. Inr [''a''],
      fs_mkdir = \<lambda>p mode m. (None, m), fs_chown = \<lambda>p u g m. (None, m),
      fs_open = \<lambda>p fl mode m. (Inr (0, [Accept 1, WFault EAGAIN]), ((fst m)(p := []), p)),
      fs_open_read = \<lambda>p m. Inr (map (\<lambda>c. Got [c]) (fst m p)),
      fs_put = \<lambda>n bs m. ((fst m)(snd m := fst m (snd m) @ bs), snd m),
      fs_fchown = \<lambda>n u g m. (None, m), fs_fchmod = \<lambda>n mode m. m, fs_unlink = \<lambda>p m. ((fst m)(p := []), snd m),
      fs_symlink = \<lambda>t p m. (None, m), fs_readlink = \<lambda>p m. Inl EINVAL, fs_realpath = \<lambda>p m. Inr p,
      fs_lutimes = \<lambda>p t m. m, fs_setxattr = \<lambda>p d m. (None, m), fs_removexattr = \<lambda>p m. m, fs_restorecon = \<lambda>p m. m\<rparr>"

definition memory_device :: "(memory, unit) sync_env" where
  "memory_device =
     \<lparr>se_lib = ref_libbase, se_android = True, se_before_v = False, se_root = False, se_fs_config = \<lambda>p d. None, se_strerror = \<lambda>e. ''error'',
      se_stale_errno = E0, se_host = linux_errno, se_codecs = undefined, se_junk = \<lambda>n. CHR 0x00, se_files = memory_files\<rparr>"

definition memory_client :: "(memory, unit) client_env" where
  "memory_client =
     \<lparr>cl_lib = ref_libbase, cl_Basename = \<lambda>p. p, cl_windows = False, cl_burst = False, cl_strerror = \<lambda>e. ''error'', cl_mkdirs_errno = E0,
      cl_host = linux_errno, cl_codecs = undefined, cl_junk = \<lambda>n. CHR 0x00, cl_files = memory_files, cl_system = undefined,
      cl_ReadFileToString = \<lambda>p m. Inr (fst m p), cl_utime = \<lambda>p t m. (True, m), cl_chmod = \<lambda>p mode m. (True, m), cl_umask = 0\<rparr>"

definition memory_conn :: "memory \<Rightarrow> memory sync_conn" where
  "memory_conn m =
     \<lparr>cn_in = [], cn_out = \<lparr>os_script = [], os_log = []\<rparr>, cn_features = [''sendrecv_v2''], cn_deferred = [], cn_ack = [],
      cn_current = \<lparr>files_transferred = 0, files_skipped = 0, bytes_transferred = 0, bytes_expected = 0, expect_multiple_files = False\<rparr>,
      cn_global = \<lparr>files_transferred = 0, files_skipped = 0, bytes_transferred = 0, bytes_expected = 0, expect_multiple_files = False\<rparr>,
      cn_polls = [], cn_lines = [], cn_shell = [], cn_fs = m\<rparr>"

definition hello :: memory where
  "hello = ((\<lambda>p. if p = ''a'' then ''hello'' else []), [])"

definition empty_memory :: memory where
  "empty_memory = ((\<lambda>p. []), [])"

lemma memory_files_ok: "files_ok memory_files"
  by (auto simp: files_ok_def memory_files_def fun_eq_iff)

lemma memory_whole: "whole (map (\<lambda>c. Got [c]) bs) bs"
proof -
  have "chunks_ok (map (\<lambda>c. Got [c]) bs) \<and> stream_bytes (map (\<lambda>c. Got [c]) bs) = bs" by (induction bs) auto
  then show ?thesis by (simp add: whole_def feeds_def list_all_iff)
qed

definition hello_copy :: copyinfo where
  "hello_copy = \<lparr>ci_lpath = ''a'', ci_rpath = ''/data/b'', ci_time = 7, ci_mode = 0x81A4, ci_size = 5, ci_skip = False\<rparr>"

lemma hello_pushable: "pushable memory_client hello hello_copy ''hello''"
proof -
  have "\<not> S_ISLNK 0x81A4" by code_simp
  moreover have "paths_fit ''/data/b'' 0x81A4"
    by (simp add: paths_fit_def path_and_mode_def percent_s_def format_d_def dec_digits.simps)
  ultimately show ?thesis
    by (simp add: pushable_def hello_copy_def memory_client_def memory_files_def memory_stat_def hello_def SYNC_DATA_MAX_def)
qed

lemma hello_stored: "stored_all memory_device [(hello_copy, ''hello'')] empty_memory = Some ((\<lambda>p. if p = ''/data/b'' then ''hello'' else []), ''/data/b'')"
proof -
  have "S_ISREG 0x81A4" by code_simp
  moreover have "writable (Some (0, [Accept 1, WFault EAGAIN]))" by (simp add: writable_def benign_def)
  ultimately show ?thesis
    by (simp add: stored_def hello_copy_def memory_device_def memory_files_def file_attrs_def should_use_fs_config_def adbd_fs_config_def
        cleared_def memory_stat_def empty_memory_def update_capabilities_def fun_eq_iff Let_def)
qed

section \<open>Properties\<close>

text \<open>
  C4: files that the client pushes without compression arrive.  The client sends its requests and defers
  the acknowledgements; the service that reads these bytes, however the connection cuts them, ends with
  exactly the files stored: opened, owned, with the client's data, mode and time, one after the other.
  It answers one OKAY for each, and with these answers the client reads all its acknowledgements.
\<close>

theorem push_roundtrip:
  assumes "list_all (\<lambda>(ci, data). pushable E (cn_fs cn) ci data) files" and "length files < max_deferred_acks"
    and "benign (cn_out cn)" and "cn_polls cn = []" and "cn_ack cn = []" and "cn_deferred cn = []"
    and "files_ok (se_files D)" and "stored_all D files fs = Some fs'" and "benign os"
  shows "\<exists>bytes answers cn1. push_files E False CompressNone False (map fst files) 0 cn = Some (Some 0, cn1) \<and> took (cn_out cn) bytes (cn_out cn1) \<and>
    (\<forall>es. feeds es (bytes @ sync_pair ID_QUIT 0) \<longrightarrow>
       (\<exists>sv. file_sync_service D es os fs = Some sv \<and> sv_fs sv = fs' \<and> took os answers (sv_out sv))) \<and>
    (\<forall>es. feeds es answers \<longrightarrow>
       (\<exists>es'. ReadAcknowledgements E True (cn1\<lparr>cn_in := es\<rparr>) = Some (True, cn1\<lparr>cn_in := es', cn_deferred := []\<rparr>)))"
proof -
  let ?answers = "concat (replicate (length files) (sync_pair ID_OKAY 0))"
  obtain rs cn1 where p: "push_files E False CompressNone False (map fst files) 0 cn = Some (Some 0, cn1)"
    "sent (map (\<lambda>(ci, data). (ci_lpath ci, ci_rpath ci)) files) (concat rs) cn cn1" "requests files rs"
    using push_files_sends [OF assms(1,3,4,5), of 0] assms(2,6) by auto
  have fit: "list_all (\<lambda>(ci, data). paths_fit (ci_rpath ci) (ci_mode ci) \<and> \<not> S_ISLNK (ci_mode ci)) files"
    using assms(1) by (auto simp: list_all_iff pushable_def)
  have srv: "\<exists>sv. file_sync_service D es os fs = Some sv \<and> sv_fs sv = fs' \<and> took os ?answers (sv_out sv)"
    if "feeds es (concat rs @ sync_pair ID_QUIT 0)" for es
    using service_loop_stores [OF p(3) fit, of "\<lparr>sv_in = es, sv_out = os, sv_buffer = replicate SYNC_DATA_MAX CHR 0x00, sv_fs = fs\<rparr>" D fs'] that assms(7-9)
    by (simp add: file_sync_service_def)
  have ack: "\<exists>es'. ReadAcknowledgements E True (cn1\<lparr>cn_in := es\<rparr>) = Some (True, cn1\<lparr>cn_in := es', cn_deferred := []\<rparr>)" if "feeds es ?answers" for es
    using ReadAcknowledgements_all [of "cn1\<lparr>cn_in := es\<rparr>" "[]" E] that sent_sel [OF p(2)] assms(5,6) by auto
  have "took (cn_out cn) (concat rs) (cn_out cn1)" using p(2) by (simp add: sent_def)
  then show ?thesis using p(1) srv ack by blast
qed

theorem push_roundtrip_witness:
  "list_all (\<lambda>(ci, data). pushable memory_client hello ci data) [(hello_copy, ''hello'')] \<and> files_ok (se_files memory_device) \<and>
   (\<exists>bytes answers cn1. push_files memory_client False CompressNone False [hello_copy] 0 (memory_conn hello) = Some (Some 0, cn1) \<and>
     took \<lparr>os_script = [], os_log = []\<rparr> bytes (cn_out cn1) \<and>
     (\<exists>sv. file_sync_service memory_device [Got (bytes @ sync_pair ID_QUIT 0)] \<lparr>os_script = [Accept 3], os_log = []\<rparr> empty_memory = Some sv \<and>
        fst (sv_fs sv) ''/data/b'' = ''hello''))"
proof -
  have c: "list_all (\<lambda>(ci, data). pushable memory_client (cn_fs (memory_conn hello)) ci data) [(hello_copy, ''hello'')]" "length [(hello_copy, ''hello'')] < max_deferred_acks"
    "benign (cn_out (memory_conn hello))" "cn_polls (memory_conn hello) = []" "cn_ack (memory_conn hello) = []" "cn_deferred (memory_conn hello) = []"
    using hello_pushable by (simp_all add: memory_conn_def max_deferred_acks_def benign_def)
  have d: "files_ok (se_files memory_device)" "benign \<lparr>os_script = [Accept 3], os_log = []\<rparr>"
    using memory_files_ok by (simp_all add: memory_device_def benign_def)
  obtain bytes cn1 where p: "push_files memory_client False CompressNone False (map fst [(hello_copy, ''hello'')]) 0 (memory_conn hello) = Some (Some 0, cn1)"
    "took (cn_out (memory_conn hello)) bytes (cn_out cn1)"
    and s: "\<forall>es. feeds es (bytes @ sync_pair ID_QUIT 0) \<longrightarrow> (\<exists>sv. file_sync_service memory_device es \<lparr>os_script = [Accept 3], os_log = []\<rparr> empty_memory = Some sv \<and>
        sv_fs sv = ((\<lambda>p. if p = ''/data/b'' then ''hello'' else []), ''/data/b''))"
    using push_roundtrip [OF c d(1) hello_stored d(2)] by blast
  have "bytes @ sync_pair ID_QUIT 0 \<noteq> []" using length_sync_pair [of ID_QUIT 0] by (metis append_is_Nil_conv list.size(3) zero_neq_numeral)
  then have "feeds [Got (bytes @ sync_pair ID_QUIT 0)] (bytes @ sync_pair ID_QUIT 0)" by (simp add: feeds_def)
  with s obtain sv where "file_sync_service memory_device [Got (bytes @ sync_pair ID_QUIT 0)] \<lparr>os_script = [Accept 3], os_log = []\<rparr> empty_memory = Some sv"
    "fst (sv_fs sv) ''/data/b'' = ''hello''" by fastforce
  then show ?thesis using p c(1) d(1) by (auto simp: memory_conn_def)
qed

text \<open>
  C12: a file that the client pulls without compression arrives, with either version of the request: on a
  device where it can be read to its end, the service answers its bytes in chunks of at most 64 KiB,
  and with that answer the client ends with the local file created and holding exactly these bytes.
\<close>

theorem pull_roundtrip:
  assumes "length rpath \<le> 1024" and "CHR 0x00 \<notin> set rpath" and "fs_open_read (se_files D) rpath (sv_fs sv) = Inr fd" and "whole fd data" and "benign (sv_out sv)"
    and "benign (cn_out cn)" and "files_ok (cl_files E)"
    and "fs_open (cl_files E) lpath O_CREAT_TRUNC 0x1A4 (fs_unlink (cl_files E) lpath (cn_fs cn)) = (Inr f, fs1)" and "writable (Some f)"
    and "feeds (sv_in sv) (read_request (cl_have E cn ''sendrecv_v2'') rpath @ rest)"
  shows "\<exists>answer es os. handle_sync_command D sv = Some (True, sv\<lparr>sv_in := es, sv_out := os\<rparr>) \<and> feeds es rest \<and> took (sv_out sv) answer os \<and>
    (\<forall>es2. feeds es2 answer \<longrightarrow>
      (\<exists>cn'. sync_recv E rpath lpath CompressNone (cn\<lparr>cn_in := es2\<rparr>) = Some (True, cn') \<and>
         took (cn_out cn) (read_request (cl_have E cn ''sendrecv_v2'') rpath) (cn_out cn') \<and> cn_fs cn' = fs_put (cl_files E) (fst f) data fs1))"
proof -
  obtain chunks es os where s: "handle_sync_command D sv = Some (True, sv\<lparr>sv_in := es, sv_out := os\<rparr>)" "feeds es rest"
    "took (sv_out sv) (data_msgs chunks @ sync_pair ID_DONE 0) os" "concat chunks = data" "chunks_fit chunks"
    using service_sends [OF assms(10,1,2,3,4,5)] by blast
  have "\<exists>cn'. sync_recv E rpath lpath CompressNone (cn\<lparr>cn_in := es2\<rparr>) = Some (True, cn') \<and> took (cn_out cn) (read_request (cl_have E cn ''sendrecv_v2'') rpath) (cn_out cn') \<and>
      cn_fs cn' = fs_put (cl_files E) (fst f) data fs1" if "feeds es2 (data_msgs chunks @ sync_pair ID_DONE 0)" for es2
    using sync_recv_stores [of rpath "cn\<lparr>cn_in := es2\<rparr>" chunks "[]" E lpath f fs1] assms that s(4,5) by (auto simp: cl_have_def)
  then show ?thesis using s(1-3) by blast
qed

definition hello_service :: "memory service" where
  "hello_service = \<lparr>sv_in = [Got (read_request True ''a'')], sv_out = \<lparr>os_script = [], os_log = []\<rparr>, sv_buffer = replicate SYNC_DATA_MAX CHR 0x00, sv_fs = hello\<rparr>"

theorem pull_roundtrip_witness:
  "fs_open_read memory_files ''a'' hello = Inr (map (\<lambda>c. Got [c]) ''hello'') \<and> whole (map (\<lambda>c. Got [c]) ''hello'') ''hello'' \<and>
   (\<exists>answer es os cn'. handle_sync_command memory_device hello_service = Some (True, hello_service\<lparr>sv_in := es, sv_out := os\<rparr>) \<and>
     took (sv_out hello_service) answer os \<and>
     sync_recv memory_client ''a'' ''c'' CompressNone ((memory_conn empty_memory)\<lparr>cn_in := map (\<lambda>c. Got [c]) answer\<rparr>) = Some (True, cn') \<and> fst (cn_fs cn') ''c'' = ''hello'')"
proof -
  let ?cn = "memory_conn empty_memory"
  have w: "whole (map (\<lambda>c. Got [c]) ''hello'') ''hello''" by (rule memory_whole)
  have a: "length ''a'' \<le> 1024" "CHR 0x00 \<notin> set ''a''" by simp_all
  have o: "fs_open_read (se_files memory_device) ''a'' (sv_fs hello_service) = Inr (map (\<lambda>c. Got [c]) ''hello'')"
    by (simp add: memory_device_def memory_files_def hello_service_def hello_def)
  have b: "benign (sv_out hello_service)" "benign (cn_out ?cn)" "files_ok (cl_files memory_client)" "writable (Some (0, [Accept 1, WFault EAGAIN]))"
    using memory_files_ok by (simp_all add: hello_service_def memory_conn_def benign_def memory_client_def writable_def)
  have f: "fs_open (cl_files memory_client) ''c'' O_CREAT_TRUNC 0x1A4 (fs_unlink (cl_files memory_client) ''c'' (cn_fs ?cn)) = (Inr (0, [Accept 1, WFault EAGAIN]), ((\<lambda>p. []), ''c''))"
    by (simp add: memory_client_def memory_files_def memory_conn_def empty_memory_def fun_eq_iff)
  have "cl_have memory_client ?cn ''sendrecv_v2''"
    by (simp add: cl_have_def CanUseFeature_def memory_conn_def supported_features_def base_features_def)
  moreover have "read_request True ''a'' \<noteq> []" by (simp add: read_request_def)
  ultimately have i: "feeds (sv_in hello_service) (read_request (cl_have memory_client ?cn ''sendrecv_v2'') ''a'' @ [])"
    by (simp add: hello_service_def feeds_def)
  obtain answer es os where h: "handle_sync_command memory_device hello_service = Some (True, hello_service\<lparr>sv_in := es, sv_out := os\<rparr>)" "took (sv_out hello_service) answer os"
    and c: "\<forall>es2. feeds es2 answer \<longrightarrow> (\<exists>cn'. sync_recv memory_client ''a'' ''c'' CompressNone (?cn\<lparr>cn_in := es2\<rparr>) = Some (True, cn') \<and>
         cn_fs cn' = fs_put (cl_files memory_client) 0 ''hello'' ((\<lambda>p. []), ''c''))"
    using pull_roundtrip [OF a o w b(1-3) f b(4) i] unfolding fst_conv by blast
  have "feeds (map (\<lambda>c. Got [c]) answer) answer" using memory_whole by (simp add: whole_def)
  with c obtain cn' where "sync_recv memory_client ''a'' ''c'' CompressNone (?cn\<lparr>cn_in := map (\<lambda>c. Got [c]) answer\<rparr>) = Some (True, cn')"
    "cn_fs cn' = fs_put (cl_files memory_client) 0 ''hello'' ((\<lambda>p. []), ''c'')" by blast
  moreover have "fst (fs_put (cl_files memory_client) 0 ''hello'' ((\<lambda>p. []), ''c'')) ''c'' = ''hello''"
    by (simp add: memory_client_def memory_files_def)
  moreover have "fs_open_read memory_files ''a'' hello = Inr (map (\<lambda>c. Got [c]) ''hello'')" by (simp add: memory_files_def hello_def)
  ultimately show ?thesis using h w by metis
qed

end
