(* ===== verification/Adb_Sync_Queries.thy ===== *)
theory Adb_Sync_Queries
  imports Adb_Sync
begin

text \<open>
  Questions about files and listings of directories between the client and the service, and what the
  client makes of the names that a device sends: whatever these are, a pull only writes below its destination.
\<close>

unbundle bit_operations_syntax

section \<open>Attributes\<close>

text \<open>What the client sees of an answer: everything with the second version, three fields with the first.\<close>

definition seen_stat :: "bool \<Rightarrow> errno + stat \<Rightarrow> errno + stat" where
  "seen_stat v2 r =
     (if v2 then
        (case r of Inr st \<Rightarrow> Inr st
         | Inl e \<Rightarrow> Inl (if errno_code e \<in> snd ` set ERRNO_VALUES then errno_of (errno_code e) else EOTHER 5))
      else
        (let st = (case r of Inr st \<Rightarrow> st | Inl e \<Rightarrow> no_stat); sz = ucast (st_size st) :: u32; t = ucast (st_mtime st) :: u32
         in if st_mode st = 0 \<and> sz = 0 \<and> t = 0 then Inl ENOPROTOOPT
            else Inr (no_stat\<lparr>st_mode := st_mode st, st_size := ucast sz, st_ctime := ucast t, st_mtime := ucast t\<rparr>)))"

definition lstat_request :: "bool \<Rightarrow> string \<Rightarrow> bytes" where
  "lstat_request v2 path = sync_pair (if v2 then ID_LSTAT_V2 else ID_LSTAT_V1) (of_nat (length path)) @ path"

definition lstat_answer :: "('fs, 'c) sync_env \<Rightarrow> bool \<Rightarrow> string \<Rightarrow> 'fs \<Rightarrow> bytes" where
  "lstat_answer D v2 path fs =
     (if v2 then
        stat_v2_bytes (case fs_lstat (se_files D) path fs of
           Inl e \<Rightarrow> \<lparr>s2_id = ID_LSTAT_V2, s2_error = of_nat (errno_to_wire (se_host D) (errno_code e)), s2_stat = no_stat\<rparr>
         | Inr st \<Rightarrow> \<lparr>s2_id = ID_LSTAT_V2, s2_error = 0, s2_stat = st\<rparr>)
      else
        (let st = (case fs_lstat (se_files D) path fs of Inl e \<Rightarrow> no_stat | Inr st \<Rightarrow> st)
         in stat_v1_bytes \<lparr>s1_id = ID_LSTAT_V1, s1_mode = st_mode st, s1_size = ucast (st_size st), s1_mtime = ucast (st_mtime st)\<rparr>))"

lemma service_lstat:
  assumes "feeds (sv_in sv) (lstat_request v2 path @ rest)" and "length path \<le> 1024" and "CHR 0x00 \<notin> set path" and "benign (sv_out sv)"
  shows "\<exists>es os. handle_sync_command D sv = Some (True, sv\<lparr>sv_in := es, sv_out := os\<rparr>) \<and> feeds es rest \<and> took (sv_out sv) (lstat_answer D v2 path (sv_fs sv)) os"
proof -
  obtain es where c: "handle_sync_command D sv = run_command D (if v2 then ID_LSTAT_V2 else ID_LSTAT_V1) path (sv\<lparr>sv_in := es\<rparr>)" "feeds es rest"
    using handle_sync_command_reads [of sv "if v2 then ID_LSTAT_V2 else ID_LSTAT_V1" path rest D] assms(1-3) by (auto simp: lstat_request_def)
  obtain os where w: "sv_write (lstat_answer D v2 path (sv_fs sv)) (sv\<lparr>sv_in := es\<rparr>) = (True, sv\<lparr>sv_in := es, sv_out := os\<rparr>)" "took (sv_out sv) (lstat_answer D v2 path (sv_fs sv)) os"
    using sv_write_took [of "sv\<lparr>sv_in := es\<rparr>"] assms(4) by fastforce
  have "run_command D (if v2 then ID_LSTAT_V2 else ID_LSTAT_V1) path (sv\<lparr>sv_in := es\<rparr>) = Some (sv_write (lstat_answer D v2 path (sv_fs sv)) (sv\<lparr>sv_in := es\<rparr>))"
    by (simp add: run_command_def sync_ids do_stat_v2_def do_lstat_v1_def lstat_answer_def Let_def)
  then show ?thesis using c w by auto
qed

lemma linux_wire: "errno_to_wire linux_errno n = (if n \<in> snd ` set ERRNO_VALUES then n else 5)"
  "errno_from_wire linux_errno n = (if n \<in> snd ` set ERRNO_VALUES then n else 5)"
proof -
  have "map (\<lambda>(name, wire). (linux_errno name, wire)) ERRNO_VALUES = map (\<lambda>(name, wire). (wire, wire)) ERRNO_VALUES"
    by (simp add: linux_errno_def ERRNO_VALUES_def)
  then have h: "host_to_wire linux_errno n = (if n \<in> snd ` set ERRNO_VALUES then Some n else None)"
    by (simp add: host_to_wire_def ERRNO_VALUES_def)
  have "linux_errno ''EIO'' = 5" by (simp add: linux_errno_def ERRNO_VALUES_def)
  then show "errno_to_wire linux_errno n = (if n \<in> snd ` set ERRNO_VALUES then n else 5)"
    "errno_from_wire linux_errno n = (if n \<in> snd ` set ERRNO_VALUES then n else 5)"
    using h by (simp_all add: errno_to_wire_def errno_from_wire_def)
qed

lemma wire_range: "n \<in> snd ` set ERRNO_VALUES \<Longrightarrow> 0 < n \<and> n < 256"
  by (auto simp: ERRNO_VALUES_def)

lemma client_lstat:
  assumes "cl_host E = linux_errno" and "se_host D = linux_errno" and "length path \<le> 1024" and "benign (cn_out cn)"
    and "feeds (cn_in cn) (lstat_answer D (cl_have E cn ''stat_v2'') path fs @ rest)"
  shows "\<exists>es os. sync_lstat E path cn = Some (seen_stat (cl_have E cn ''stat_v2'') (fs_lstat (se_files D) path fs), cn\<lparr>cn_in := es, cn_out := os\<rparr>) \<and>
     feeds es rest \<and> took (cn_out cn) (lstat_request (cl_have E cn ''stat_v2'') path) os"
proof -
  let ?v = "cl_have E cn ''stat_v2''"
  obtain os where w: "cn_write (lstat_request ?v path) cn = (None, cn\<lparr>cn_out := os\<rparr>)" "took (cn_out cn) (lstat_request ?v path) os"
    using cn_write_took [OF assms(4)] by blast
  have sl: "SendLstat E path cn = (None, cn\<lparr>cn_out := os\<rparr>)"
    using w(1) assms(3) by (simp add: SendLstat_def SendRequest_def lstat_request_def)
  have v1: "cl_have E (cn\<lparr>cn_out := os\<rparr>) ''stat_v2'' = ?v" by (simp add: cl_have_def)
  have len: "length (lstat_answer D ?v path fs) = (if ?v then 72 else 16)" by (simp add: lstat_answer_def Let_def)
  obtain es where r: "cn_read (if ?v then 72 else 16) (cn\<lparr>cn_out := os\<rparr>) = (Inr (lstat_answer D ?v path fs), cn\<lparr>cn_out := os, cn_in := es\<rparr>)" "feeds es rest"
    using cn_read_feeds [of "cn\<lparr>cn_out := os\<rparr>" "lstat_answer D ?v path fs" rest] assms(5) len by auto
  have "FinishStat E (cn\<lparr>cn_out := os\<rparr>) = Some (seen_stat ?v (fs_lstat (se_files D) path fs), cn\<lparr>cn_out := os, cn_in := es\<rparr>)"
  proof (cases ?v)
    case True
    show ?thesis
    proof (cases "fs_lstat (se_files D) path fs")
      case (Inr st)
      then show ?thesis using True r(1) v1 by (simp add: FinishStat_def lstat_answer_def seen_stat_def)
    next
      case (Inl e)
      define n where "n = (if errno_code e \<in> snd ` set ERRNO_VALUES then errno_code e else 5)"
      have n5: "5 \<in> snd ` set ERRNO_VALUES" by (simp add: ERRNO_VALUES_def)
      then have n: "n \<in> snd ` set ERRNO_VALUES" "0 < n" "n < 256" using wire_range [of n] by (auto simp: n_def)
      have tw: "errno_to_wire (se_host D) (errno_code e) = n" using linux_wire(1) assms(2) by (simp add: n_def)
      have un: "unat (of_nat n :: u32) = n" using n(3) by (simp add: unat_of_nat)
      have nz: "(of_nat n :: u32) \<noteq> 0" using un n(2) by (metis less_irrefl unat_0)
      have fw: "errno_from_wire (cl_host E) n = n" using linux_wire(2) [of n] assms(1) n(1) by simp
      have "seen_stat True (Inl e) = Inl (errno_of n)" by (simp add: seen_stat_def n_def errno_of_def)
      then show ?thesis using True Inl r(1) v1 nz by (simp add: FinishStat_def lstat_answer_def tw un fw)
    qed
  next
    case False
    then show ?thesis using r(1) v1 by (simp add: FinishStat_def lstat_answer_def seen_stat_def Let_def)
  qed
  then show ?thesis using sl r(2) w(2) by (intro exI [of _ es] exI [of _ os]) (simp add: sync_lstat_def)
qed

section \<open>Listings\<close>

definition listing_bytes :: "('fs, 'c) sync_env \<Rightarrow> bool \<Rightarrow> string \<Rightarrow> 'fs \<Rightarrow> string list \<Rightarrow> bytes" where
  "listing_bytes D v2 path fs names =
     concat (map (\<lambda>n. case dent_header v2 (fs_lstat (se_files D) (path @ ''/'' @ n) fs) (length n) of None \<Rightarrow> [] | Some h \<Rightarrow> h @ n) names) @ dent_done v2"

text \<open>The entries a client sees: with the first version, files without attributes are missing and numbers are cut to 32 bits.\<close>

definition seen_entry :: "('fs, 'c) sync_env \<Rightarrow> bool \<Rightarrow> string \<Rightarrow> 'fs \<Rightarrow> string \<Rightarrow> ls_entry list" where
  "seen_entry D v2 path fs n =
     (case fs_lstat (se_files D) (path @ ''/'' @ n) fs of
        Inr st \<Rightarrow> [if v2 then (st_mode st, st_size st, st_mtime st, n)
                  else (st_mode st, ucast (ucast (st_size st) :: u32), ucast (ucast (st_mtime st) :: u32), n)]
      | Inl e \<Rightarrow> if v2 then [(0, 0, 0, n)] else [])"

definition name_fits :: "('fs, 'c) client_env \<Rightarrow> string \<Rightarrow> bool" where
  "name_fits E n \<longleftrightarrow> length n \<le> 255 \<and> CHR 0x00 \<notin> set n \<and> CHR ''/'' \<notin> set n \<and> \<not> (cl_windows E \<and> CHR 0x5C \<in> set n)"

lemma list_loop_took:
  assumes "benign (sv_out sv)"
  shows "\<exists>os. list_loop D v2 path names sv = (True, sv\<lparr>sv_out := os\<rparr>) \<and> took (sv_out sv) (listing_bytes D v2 path (sv_fs sv) names) os"
  using assms
proof (induction names arbitrary: sv)
  case Nil
  then show ?case using sv_write_took by (simp add: listing_bytes_def)
next
  case (Cons n names)
  show ?case
  proof (cases "dent_header v2 (fs_lstat (se_files D) (path @ ''/'' @ n) (sv_fs sv)) (length n)")
    case None
    then show ?thesis using Cons.IH [OF Cons.prems] by (simp add: listing_bytes_def)
  next
    case (Some h)
    obtain os where w: "sv_write2 h n sv = (True, sv\<lparr>sv_out := os\<rparr>)" "took (sv_out sv) (h @ n) os" using sv_write2_took [OF Cons.prems] by blast
    obtain os2 where "list_loop D v2 path names (sv\<lparr>sv_out := os\<rparr>) = (True, sv\<lparr>sv_out := os2\<rparr>)" "took os (listing_bytes D v2 path (sv_fs sv) names) os2"
      using Cons.IH [of "sv\<lparr>sv_out := os\<rparr>"] took_benign [OF w(2)] by auto
    then show ?thesis using Some w took_trans [OF w(2)] by (fastforce simp: listing_bytes_def)
  qed
qed

lemma get_dent_header:
  assumes "dent_header v2 r n = Some h"
  shows "length h = (if v2 then 76 else 20)"
    and "get_dent v2 h = (if v2 then ID_DENT_V2 else ID_DENT_V1,
       case r of Inr st \<Rightarrow> (if v2 then (st_mode st, st_size st, st_mtime st, of_nat n)
            else (st_mode st, ucast (ucast (st_size st) :: u32), ucast (ucast (st_mtime st) :: u32), of_nat n))
       | Inl e \<Rightarrow> (0, 0, 0, of_nat n))"
  using assms by (auto simp: dent_header_def get_dent_def no_stat_def Let_def split: sum.splits if_splits)

lemma FinishLsImpl_sees:
  assumes "feeds (cn_in cn) (listing_bytes D v2 path fs names @ rest)" and "list_all (name_fits E) names"
  shows "\<exists>es. FinishLsImpl E v2 calls cn = Some (True, calls @ concat (map (seen_entry D v2 path fs) names), cn\<lparr>cn_in := es\<rparr>) \<and> feeds es rest"
  using assms
proof (induction names arbitrary: cn calls)
  case Nil
  have "length (dent_done v2) = (if v2 then 76 else 20)" by (simp add: dent_done_def)
  then obtain es where r: "cn_read (if v2 then 76 else 20) cn = (Inr (dent_done v2), cn\<lparr>cn_in := es\<rparr>)" "feeds es rest"
    using cn_read_feeds [of cn "dent_done v2" rest] Nil.prems(1) by (auto simp: listing_bytes_def)
  obtain m sz t k where "get_dent v2 (dent_done v2) = (ID_DONE, m, sz, t, k)" by (cases v2) (simp_all add: get_dent_def dent_done_def Let_def)
  then have "FinishLsImpl E v2 calls cn = Some (True, calls, cn\<lparr>cn_in := es\<rparr>)" using r(1) by (subst FinishLsImpl.simps) simp
  then show ?case using r(2) by auto
next
  case (Cons n names)
  let ?r = "fs_lstat (se_files D) (path @ ''/'' @ n) fs"
  show ?case
  proof (cases "dent_header v2 ?r (length n)")
    case None
    then have e: "\<exists>e. ?r = Inl e" "\<not> v2" by (auto simp: dent_header_def split: sum.splits if_splits)
    then have "seen_entry D v2 path fs n = []" by (auto simp: seen_entry_def)
    then show ?thesis using Cons.IH [of cn calls] Cons.prems None by (simp add: listing_bytes_def)
  next
    case (Some h)
    note g = get_dent_header [OF Some]
    have fit: "length n \<le> 255" "CHR ''/'' \<notin> set n" "\<not> (cl_windows E \<and> CHR 0x5C \<in> set n)" "percent_s n = n"
      using Cons.prems(2) by (auto simp: name_fits_def)
    have un: "unat (of_nat (length n) :: u32) = length n" using fit(1) by (simp add: unat_of_nat)
    obtain es where r: "cn_read (if v2 then 76 else 20) cn = (Inr h, cn\<lparr>cn_in := es\<rparr>)" "feeds es (n @ listing_bytes D v2 path fs names @ rest)"
      using cn_read_feeds [of cn h "n @ listing_bytes D v2 path fs names @ rest"] Cons.prems(1) Some g(1) by (auto simp: listing_bytes_def)
    obtain es2 where r2: "cn_read (length n) (cn\<lparr>cn_in := es\<rparr>) = (Inr n, cn\<lparr>cn_in := es2\<rparr>)" "feeds es2 (listing_bytes D v2 path fs names @ rest)"
      using cn_read_feeds [of "cn\<lparr>cn_in := es\<rparr>" n "listing_bytes D v2 path fs names @ rest"] r(2) by auto
    obtain m s t where e: "seen_entry D v2 path fs n = [(m, s, t, n)]" "get_dent v2 h = (if v2 then ID_DENT_V2 else ID_DENT_V1, m, s, t, of_nat (length n))"
      using g(2) Some by (auto simp: seen_entry_def dent_header_def split: sum.splits if_splits)
    have "FinishLsImpl E v2 calls cn = FinishLsImpl E v2 (calls @ [(m, s, t, n)]) (cn\<lparr>cn_in := es2\<rparr>)"
      using r(1) r2(1) e(2) fit un by (cases v2; subst FinishLsImpl.simps; auto simp: sync_ids)
    moreover have "\<exists>es'. FinishLsImpl E v2 (calls @ [(m, s, t, n)]) (cn\<lparr>cn_in := es2\<rparr>) =
        Some (True, (calls @ [(m, s, t, n)]) @ concat (map (seen_entry D v2 path fs) names), cn\<lparr>cn_in := es2, cn_in := es'\<rparr>) \<and> feeds es' rest"
      using Cons.IH [of "cn\<lparr>cn_in := es2\<rparr>" "calls @ [(m, s, t, n)]"] r2(2) Cons.prems(2) by simp
    ultimately show ?thesis using e(1) by auto
  qed
qed

definition list_request :: "bool \<Rightarrow> string \<Rightarrow> bytes" where
  "list_request v2 path = sync_pair (if v2 then ID_LIST_V2 else ID_LIST_V1) (of_nat (length path)) @ path"

lemma service_list:
  assumes "feeds (sv_in sv) (list_request v2 path @ rest)" and "length path \<le> 1024" and "CHR 0x00 \<notin> set path" and "benign (sv_out sv)"
    and "fs_list (se_files D) path (sv_fs sv) = Inr names"
  shows "\<exists>es os. handle_sync_command D sv = Some (True, sv\<lparr>sv_in := es, sv_out := os\<rparr>) \<and> feeds es rest \<and> took (sv_out sv) (listing_bytes D v2 path (sv_fs sv) names) os"
proof -
  obtain es where c: "handle_sync_command D sv = run_command D (if v2 then ID_LIST_V2 else ID_LIST_V1) path (sv\<lparr>sv_in := es\<rparr>)" "feeds es rest"
    using handle_sync_command_reads [of sv "if v2 then ID_LIST_V2 else ID_LIST_V1" path rest D] assms(1-3) by (auto simp: list_request_def)
  obtain os where w: "list_loop D v2 path names (sv\<lparr>sv_in := es\<rparr>) = (True, sv\<lparr>sv_in := es, sv_out := os\<rparr>)" "took (sv_out sv) (listing_bytes D v2 path (sv_fs sv) names) os"
    using list_loop_took [of "sv\<lparr>sv_in := es\<rparr>" D v2 path names] assms(4) by auto
  have "run_command D (if v2 then ID_LIST_V2 else ID_LIST_V1) path (sv\<lparr>sv_in := es\<rparr>) = Some (list_loop D v2 path names (sv\<lparr>sv_in := es\<rparr>))"
    using assms(5) by (simp add: run_command_def sync_ids do_list_def)
  then show ?thesis using c w by auto
qed

lemma client_list:
  assumes "length path \<le> 1024" and "benign (cn_out cn)" and "list_all (name_fits E) names"
    and "feeds (cn_in cn) (listing_bytes D (cl_have E cn ''ls_v2'') path fs names @ rest)"
  shows "\<exists>es os. sync_ls E path cn = Some (True, concat (map (seen_entry D (cl_have E cn ''ls_v2'') path fs) names), cn\<lparr>cn_in := es, cn_out := os\<rparr>) \<and>
     feeds es rest \<and> took (cn_out cn) (list_request (cl_have E cn ''ls_v2'') path) os"
proof -
  let ?v = "cl_have E cn ''ls_v2''"
  obtain os where w: "cn_write (list_request ?v path) cn = (None, cn\<lparr>cn_out := os\<rparr>)" "took (cn_out cn) (list_request ?v path) os"
    using cn_write_took [OF assms(2)] by blast
  have sl: "SendLs E path cn = (None, cn\<lparr>cn_out := os\<rparr>)" using w(1) assms(1) by (simp add: SendLs_def SendRequest_def list_request_def)
  have v1: "cl_have E (cn\<lparr>cn_out := os\<rparr>) ''ls_v2'' = ?v" by (simp add: cl_have_def)
  obtain es where "FinishLsImpl E ?v [] (cn\<lparr>cn_out := os\<rparr>) = Some (True, concat (map (seen_entry D ?v path fs) names), cn\<lparr>cn_out := os, cn_in := es\<rparr>)" "feeds es rest"
    using FinishLsImpl_sees [of "cn\<lparr>cn_out := os\<rparr>" D ?v path fs names rest E "[]"] assms(3,4) by auto
  then show ?thesis using sl v1 w(2) by (intro exI [of _ es] exI [of _ os]) (simp add: sync_ls_def FinishLs_def)
qed

section \<open>Names that a device sends\<close>

text \<open>A name that stays in its directory, and the path that a list of such names leads to.\<close>

definition plain_name :: "('fs, 'c) client_env \<Rightarrow> string \<Rightarrow> bool" where
  "plain_name E n \<longleftrightarrow> CHR ''/'' \<notin> set n \<and> \<not> (cl_windows E \<and> CHR 0x5C \<in> set n) \<and> n \<noteq> ''.'' \<and> n \<noteq> ''..''"

definition with_sep :: "('fs, 'c) client_env \<Rightarrow> string \<Rightarrow> string" where
  "with_sep E p = (if p \<noteq> [] \<and> adb_is_separator E (last p) then p else p @ [OS_PATH_SEPARATOR E])"

definition join_path :: "('fs, 'c) client_env \<Rightarrow> string \<Rightarrow> string list \<Rightarrow> string" where
  "join_path E base names = foldl (\<lambda>p n. with_sep E p @ n) base names"

definition inside :: "('fs, 'c) client_env \<Rightarrow> string \<Rightarrow> string \<Rightarrow> bool" where
  "inside E base p \<longleftrightarrow> (\<exists>names. list_all (plain_name E) names \<and> (p = join_path E base names \<or> p = with_sep E (join_path E base names)))"

text \<open>The entry of a visited directory is composed from its \<open>Dirname\<close> and \<open>Basename\<close>.\<close>

definition entry_ok :: "('fs, 'c) client_env \<Rightarrow> string \<Rightarrow> copyinfo \<Rightarrow> bool" where
  "entry_ok E base ci \<longleftrightarrow> inside E base (ci_lpath ci) \<or>
     (\<exists>p. inside E base p \<and> S_ISDIR (ci_mode ci) \<and> ci_lpath ci = with_sep E (with_sep E (Dirname (cl_lib E) p) @ cl_Basename E p))"

lemma with_sep_idem [simp]: "with_sep E (with_sep E p) = with_sep E p"
  by (simp add: with_sep_def adb_is_separator_def OS_PATH_SEPARATOR_def)

lemma local_separator_Some: "local_separator E p = Some q \<longleftrightarrow> p \<noteq> [] \<and> q = with_sep E p"
  by (auto simp: local_separator_def with_sep_def CHECK_def)

lemma inside_base: "inside E base base"
  by (auto simp: inside_def join_path_def intro: exI [of _ "[]"])

lemma inside_child:
  assumes "inside E base p" and "plain_name E n"
  shows "inside E base (with_sep E p @ n)" and "inside E base (with_sep E (with_sep E p @ n))"
proof -
  obtain names where n: "list_all (plain_name E) names" "with_sep E p = with_sep E (join_path E base names)"
    using assms(1) by (auto simp: inside_def)
  have "join_path E base (names @ [n]) = with_sep E p @ n" using n(2) by (simp add: join_path_def)
  moreover have "list_all (plain_name E) (names @ [n])" using n(1) assms(2) by simp
  ultimately show "inside E base (with_sep E p @ n)" "inside E base (with_sep E (with_sep E p @ n))" unfolding inside_def by metis+
qed

lemma copyinfo_new_lpath:
  assumes "copyinfo_new E l r n mode = Some ci"
  shows "ci_mode ci = mode" and "ci_lpath ci = (if S_ISDIR mode then with_sep E (with_sep E l @ n) else with_sep E l @ n)"
  using assms by (auto simp: copyinfo_new_def local_separator_Some split: bind_splits if_splits)

lemma copyinfo_new_inside:
  "copyinfo_new E l r n mode = Some ci \<Longrightarrow> inside E base l \<Longrightarrow> plain_name E n \<Longrightarrow> inside E base (ci_lpath ci)"
  using copyinfo_new_lpath(2) inside_child by (metis (full_types))

definition sound_name :: "('fs, 'c) client_env \<Rightarrow> ls_entry \<Rightarrow> bool" where
  "sound_name E e \<longleftrightarrow> (case e of (m, s, t, n) \<Rightarrow> CHR ''/'' \<notin> set n \<and> \<not> (cl_windows E \<and> CHR 0x5C \<in> set n))"

text \<open>Whatever the device answers, only names without separators reach the callback.\<close>

lemma FinishLsImpl_sound:
  assumes "FinishLsImpl E v2 calls cn = Some (ok, entries, cn')" and "list_all (sound_name E) calls"
  shows "list_all (sound_name E) entries"
proof -
  have "list_all (sound_name E) calls \<longrightarrow> list_all (sound_name E) (fst (snd (ok, entries, cn')))"
  proof (rule FinishLsImpl.raw_induct [where P = "\<lambda>E v2 calls cn y. list_all (sound_name E) calls \<longrightarrow> list_all (sound_name E) (fst (snd y))", OF _ assms(1)])
    fix f :: "('a, 'b) client_env \<Rightarrow> bool \<Rightarrow> ls_entry list \<Rightarrow> 'a sync_conn \<Rightarrow> (bool \<times> ls_entry list \<times> 'a sync_conn) option" and E v2 calls cn y
    assume f: "\<And>E v2 calls cn y. f E v2 calls cn = Some y \<Longrightarrow> list_all (sound_name E) calls \<longrightarrow> list_all (sound_name E) (fst (snd y))"
      and y: "(case cn_read (if v2 then 76 else 20) cn of
        (Inl e, cn1) \<Rightarrow> Some (False, calls, cn1)
      | (Inr bs, cn1) \<Rightarrow>
          (let (i, mode, size, mtime, namelen) = get_dent v2 bs in
           if i = ID_DONE then Some (True, calls, cn1)
           else if i \<noteq> (if v2 then ID_DENT_V2 else ID_DENT_V1) then Some (False, calls, cn1)
           else if unat namelen > 255 then Some (False, calls, cn1)
           else (case cn_read (unat namelen) cn1 of
                   (Inl e, cn2) \<Rightarrow> Some (False, calls, cn2)
                 | (Inr buf, cn2) \<Rightarrow>
                     (let name = percent_s buf in
                      if CHR ''/'' \<in> set name \<or> cl_windows E \<and> CHR 0x5C \<in> set name then Some (False, calls, cn2)
                      else f E v2 (calls @ [(mode, size, mtime, name)]) cn2)))) = Some y"
    show "list_all (sound_name E) calls \<longrightarrow> list_all (sound_name E) (fst (snd y))"
    proof
      assume c: "list_all (sound_name E) calls"
      show "list_all (sound_name E) (fst (snd y))"
        using y c f [of E v2 _ _ y] by (auto simp: Let_def sound_name_def split: prod.splits sum.splits if_splits)
    qed
  qed
  then show ?thesis using assms(2) by simp
qed

lemma sync_ls_sound: "sync_ls E path cn = Some (ok, entries, cn') \<Longrightarrow> list_all (sound_name E) entries"
  using FinishLsImpl_sound [of E _ "[]"] by (auto simp: sync_ls_def FinishLs_def split: prod.splits option.splits)

lemma remote_entries_inside:
  assumes "remote_entries E rpath lpath entries (files, dirs, links) cn = Some ((files', dirs', links'), cn')"
    and "list_all (sound_name E) entries" and "inside E base lpath"
    and "list_all (entry_ok E base) files" and "list_all (\<lambda>ci. inside E base (ci_lpath ci)) (dirs @ links)"
  shows "list_all (entry_ok E base) files' \<and> list_all (\<lambda>ci. inside E base (ci_lpath ci)) (dirs' @ links')"
  using assms(1,2,4,5)
proof (induction entries arbitrary: files dirs links cn)
  case Nil
  then show ?case by simp
next
  case (Cons e es)
  obtain mode sz time name where e: "e = (mode, sz, time, name)" by (metis prod_cases4)
  show ?case
  proof (cases "IsDotOrDotDot name")
    case True
    then show ?thesis using Cons e by simp
  next
    case False
    obtain ci where ci: "copyinfo_new E lpath rpath name mode = Some ci" using Cons.prems(1) e False by (auto split: bind_splits)
    have "plain_name E name" using Cons.prems(2) e False by (simp add: sound_name_def plain_name_def IsDotOrDotDot_def)
    then have i: "inside E base (ci_lpath ci)" using copyinfo_new_inside [OF ci assms(3)] by blast
    have o: "entry_ok E base (ci\<lparr>ci_skip := sk, ci_time := ti, ci_size := si\<rparr>)" for sk ti si using i by (simp add: entry_ok_def)
    have "remote_entries E rpath lpath es (files, dirs @ [ci], links) cn = Some ((files', dirs', links'), cn') \<or>
        remote_entries E rpath lpath es (files, dirs, links @ [ci]) cn = Some ((files', dirs', links'), cn') \<or>
        (\<exists>sk ti si cn1. remote_entries E rpath lpath es (files @ [ci\<lparr>ci_skip := sk, ci_time := ti, ci_size := si\<rparr>], dirs, links) cn1 = Some ((files', dirs', links'), cn'))"
      using Cons.prems(1) e False ci by (auto simp: Let_def split: if_splits)
    moreover have "list_all (sound_name E) es" using Cons.prems(2) by simp
    ultimately show ?thesis
      using Cons.IH [of files "dirs @ [ci]" links cn] Cons.IH [of files dirs "links @ [ci]" cn]
        Cons.IH [of "files @ [ci\<lparr>ci_skip := _, ci_time := _, ci_size := _\<rparr>]" dirs links] Cons.prems(3,4) i o by auto
  qed
qed

lemma resolve_links_inside:
  assumes "resolve_links E links files dirs cn = Some (files', dirs', cn')"
    and "list_all (\<lambda>ci. inside E base (ci_lpath ci)) (dirs @ links)" and "list_all (entry_ok E base) files"
  shows "list_all (entry_ok E base) files' \<and> list_all (\<lambda>ci. inside E base (ci_lpath ci)) dirs'"
  using assms
proof (induction links arbitrary: files dirs cn)
  case Nil
  then show ?case by simp
next
  case (Cons l ls)
  have l: "entry_ok E base l" using Cons.prems(2) by (simp add: entry_ok_def)
  have "\<exists>cn1. resolve_links E ls files dirs cn1 = Some (files', dirs', cn') \<or> resolve_links E ls files (dirs @ [l]) cn1 = Some (files', dirs', cn') \<or>
      resolve_links E ls (files @ [l]) dirs cn1 = Some (files', dirs', cn')"
    using Cons.prems(1) by (auto split: bind_splits sum.splits if_splits)
  then obtain cn1 where "resolve_links E ls files dirs cn1 = Some (files', dirs', cn') \<or> resolve_links E ls files (dirs @ [l]) cn1 = Some (files', dirs', cn') \<or>
      resolve_links E ls (files @ [l]) dirs cn1 = Some (files', dirs', cn')" by blast
  then show ?case using Cons.IH [of files dirs cn1] Cons.IH [of files "dirs @ [l]" cn1] Cons.IH [of "files @ [l]" dirs cn1] Cons.prems(2,3) l by auto
qed

lemma remote_list_dir_inside:
  assumes "remote_list_dir E rpath lpath files cn = Some (ok, files', dirs, cn')" and "inside E base lpath" and "list_all (entry_ok E base) files"
  shows "list_all (entry_ok E base) files' \<and> list_all (\<lambda>ci. inside E base (ci_lpath ci)) dirs"
proof -
  obtain here ok1 entries cn1 fs ds ls cn2 where h: "copyinfo_new E (Dirname (cl_lib E) lpath) (Dirname (cl_lib E) rpath) (cl_Basename E lpath) S_IFDIR = Some here"
    and ls: "sync_ls E rpath cn = Some (ok1, entries, cn1)" and re: "remote_entries E rpath lpath entries (files @ [here], [], []) cn1 = Some ((fs, ds, ls), cn2)"
    and rest: "(if \<not> ok1 then Some (False, fs, ds, cn2) else do { (files2, dirs2, cn3) \<leftarrow> resolve_links E ls fs ds cn2; Some (True, files2, dirs2, cn3) }) = Some (ok, files', dirs, cn')"
    using assms(1) unfolding remote_list_dir_def by (auto split: bind_splits prod.splits)
  have "S_ISDIR S_IFDIR" by code_simp
  then have "entry_ok E base here" using copyinfo_new_lpath [OF h] assms(2) by (auto simp: entry_ok_def)
  then have a: "list_all (entry_ok E base) fs \<and> list_all (\<lambda>ci. inside E base (ci_lpath ci)) (ds @ ls)"
    using remote_entries_inside [OF re sync_ls_sound [OF ls] assms(2)] assms(3) by simp
  then show ?thesis using rest resolve_links_inside [of E ls fs ds cn2] by (auto split: if_splits bind_splits)
qed

lemma remote_visit_inside:
  assumes "remote_visit E pending files cn = Some (ok, files', cn')" and "list_all (\<lambda>(r, l). inside E base l) pending" and "list_all (entry_ok E base) files"
  shows "list_all (entry_ok E base) files'"
proof -
  have "list_all (\<lambda>(r, l). inside E base l) pending \<longrightarrow> list_all (entry_ok E base) files \<longrightarrow> list_all (entry_ok E base) (fst (snd (ok, files', cn')))"
  proof (rule remote_visit.raw_induct [where P = "\<lambda>E pending files cn y. list_all (\<lambda>(r, l). inside E base l) pending \<longrightarrow> list_all (entry_ok E base) files \<longrightarrow> list_all (entry_ok E base) (fst (snd y))", OF _ assms(1)])
    fix f :: "('a, 'b) client_env \<Rightarrow> (string \<times> string) list \<Rightarrow> copyinfo list \<Rightarrow> 'a sync_conn \<Rightarrow> (bool \<times> copyinfo list \<times> 'a sync_conn) option" and E pending files cn y
    assume f: "\<And>E pending files cn y. f E pending files cn = Some y \<Longrightarrow> list_all (\<lambda>(r, l). inside E base l) pending \<longrightarrow> list_all (entry_ok E base) files \<longrightarrow> list_all (entry_ok E base) (fst (snd y))"
      and y: "(case pending of
        [] \<Rightarrow> Some (True, files, cn)
      | (rpath, lpath) # rest \<Rightarrow> do {
          (ok, fs, dirs, cn1) \<leftarrow> remote_list_dir E rpath lpath files cn;
          if \<not> ok then Some (False, fs, cn1)
          else f E (map (\<lambda>ci. (ci_rpath ci, ci_lpath ci)) (rev dirs) @ rest) fs cn1
        }) = Some y"
    show "list_all (\<lambda>(r, l). inside E base l) pending \<longrightarrow> list_all (entry_ok E base) files \<longrightarrow> list_all (entry_ok E base) (fst (snd y))"
    proof (intro impI)
      assume a: "list_all (\<lambda>(r, l). inside E base l) pending" "list_all (entry_ok E base) files"
      show "list_all (entry_ok E base) (fst (snd y))"
      proof (cases pending)
        case Nil
        then show ?thesis using y a by auto
      next
        case (Cons p rest)
        obtain r l where p: "p = (r, l)" by force
        obtain ok1 fs ds cn1 where d: "remote_list_dir E r l files cn = Some (ok1, fs, ds, cn1)"
          and z: "(if \<not> ok1 then Some (False, fs, cn1) else f E (map (\<lambda>ci. (ci_rpath ci, ci_lpath ci)) (rev ds) @ rest) fs cn1) = Some y"
          using y Cons p by (auto split: bind_splits)
        have b: "list_all (entry_ok E base) fs" "list_all (\<lambda>ci. inside E base (ci_lpath ci)) ds"
          using remote_list_dir_inside [OF d] a Cons p by auto
        have "list_all (\<lambda>(r, l). inside E base l) (map (\<lambda>ci. (ci_rpath ci, ci_lpath ci)) (rev ds) @ rest)"
          using b(2) a(1) Cons by (auto simp: list_all_iff)
        then show ?thesis using z b(1) f [of E _ fs cn1 y] by (cases ok1) auto
      qed
    qed
  qed
  then show ?thesis using assms(2,3) by simp
qed

section \<open>Properties\<close>


definition asking :: "bytes \<Rightarrow> memory service" where
  "asking request = \<lparr>sv_in = [Got request], sv_out = \<lparr>os_script = [], os_log = []\<rparr>, sv_buffer = replicate SYNC_DATA_MAX CHR 0x00, sv_fs = hello\<rparr>"

lemma memory_features: "cl_have memory_client (memory_conn m) ''stat_v2'' = False" "cl_have memory_client (memory_conn m) ''ls_v2'' = False"
  by (simp_all add: cl_have_def CanUseFeature_def memory_conn_def)




text \<open>
  C5: a pull writes only below its destination, whatever the device sends.  Every file that the client collects
  for a pull of a directory lies at the destination itself or below it, through names without a
  separator that are neither \<open>.\<close> nor \<open>..\<close>, or is the entry of such a directory, composed of its \<open>Dirname\<close> and \<open>Basename\<close>.
\<close>

theorem pull_stays_inside:
  assumes "remote_build_list E rpath lpath cn = Some (ok, files, cn')"
  shows "list_all (entry_ok E lpath) files"
  using remote_visit_inside [of E "[(rpath, lpath)]" "[]" cn ok files cn' lpath] assms inside_base [of E lpath] by (simp add: remote_build_list_def)

lemma memory_client_paths: "cl_lib memory_client = ref_libbase" "cl_Basename memory_client p = p" "cl_windows memory_client = False"
  by (simp_all add: memory_client_def)

theorem pull_stays_inside_witness:
  "\<exists>es files cn'. remote_build_list memory_client ''/r'' ''out'' ((memory_conn hello)\<lparr>cn_in := es\<rparr>) = Some (True, files, cn') \<and>
     map ci_lpath files = [''./out/'', ''out/a''] \<and> list_all (entry_ok memory_client ''out'') files"
proof -
  let ?es = "map (\<lambda>c. Got [c]) (listing_bytes memory_device False ''/r'' hello [''a''])"
  define cn where "cn = (memory_conn hello)\<lparr>cn_in := ?es\<rparr>"
  have c: "benign (cn_out cn)" "cl_have memory_client cn ''ls_v2'' = False" "cn_in cn = ?es"
    using memory_features(2) [of hello] by (simp_all add: cn_def memory_conn_def benign_def cl_have_def)
  have n: "list_all (name_fits memory_client) [''a'']" "length ''/r'' \<le> 1024" by (simp_all add: name_fits_def memory_client_paths)
  have f: "feeds (cn_in cn) (listing_bytes memory_device (cl_have memory_client cn ''ls_v2'') ''/r'' hello [''a''] @ [])"
    unfolding c using memory_whole by (simp add: whole_def)
  have "concat (map (seen_entry memory_device False ''/r'' hello) [''a'']) = [(0x81A4, 0, 0, ''a'')]"
    by (simp add: seen_entry_def memory_device_def memory_files_def memory_stat_def hello_def no_stat_def)
  then obtain cn1 where l: "sync_ls memory_client ''/r'' cn = Some (True, [(0x81A4, 0, 0, ''a'')], cn1)"
    using client_list [OF n(2) c(1) n(1) f] c(2) by auto
  have k: "S_ISDIR S_IFDIR" "\<not> S_ISDIR 0x81A4" "\<not> S_ISLNK 0x81A4" "should_pull_file 0x81A4" by code_simp+
  have "\<exists>files cn'. remote_build_list memory_client ''/r'' ''out'' cn = Some (True, files, cn') \<and> map ci_lpath files = [''./out/'', ''out/a'']"
    by (simp add: remote_build_list_def remote_visit.simps remote_list_dir_def copyinfo_new_def local_separator_def remote_separator_def CHECK_def memory_client_paths
        ref_libbase_def ref_Dirname_def adb_is_separator_def OS_PATH_SEPARATOR_def IsDotOrDotDot_def k l)
  then show ?thesis using pull_stays_inside unfolding cn_def by metis
qed

section \<open>Errors on other hosts\<close>

text \<open>A host that numbers one error differently: the way back does not find it.\<close>

definition darwin_errno :: "string \<Rightarrow> nat" where
  "darwin_errno name = (if name = ''ELOOP'' then 62 else linux_errno name)"

lemma errno_from_wire_darwin:
  "errno_to_wire darwin_errno (darwin_errno ''ELOOP'') = 40 \<and> errno_from_wire darwin_errno 40 \<noteq> darwin_errno ''ELOOP''"
  by (simp add: errno_to_wire_def errno_from_wire_def host_to_wire_def ERRNO_VALUES_def darwin_errno_def linux_errno_def)

end
