(* ===== verification/Spec2Isabelle.thy ===== *)
theory Spec2Isabelle
  imports Adb_IOVector Adb_Packet_Reader Adb_Host_Service Adb_Shell_Protocol Adb_Server Adb_Adapter Adb_Fdevent Adb_Sync_Queries
begin

text \<open>
  A verification of adb, the Android Debug Bridge: the program of the directory \<open>src/original\<close>.  An adb server on a
  host speaks with the daemon adbd on devices over transports, carries many streams (sockets) over each
  of them, answers the requests of clients, and moves files.  The same sources build both ends, and
  the model has both: the flag \<open>e_host\<close> of the record \<open>env\<close> says which one a definition runs in.

  \<^bold>\<open>How the model relates to the code.\<close>
  A byte is a \<^typ>\<open>char\<close> and a memory block a list; integers of a fixed width are words, sizes
  are natural numbers with the wrap-around written where the code subtracts or counts in
  32 bits.  A failing \<open>CHECK\<close>, a fatal log, an access out of bounds, a use of a freed object and the end of the
  program are \<^const>\<open>None\<close>; errors that the code returns are values.  Loops whose end depends on what is read are
  \<open>partial_function (option)\<close>, where \<^const>\<open>None\<close> also means that the loop does not end, and the
  theorems about them state that a result exists.  There is no fuel.  File descriptors are scripts:
  \<open>istream\<close> is the chunks and errors that reads will meet, \<open>ostream\<close> how much each write takes and what was
  written.  Objects with pointers to each other (sockets, transports, listeners) live in the record
  \<open>world\<close>, with maps from references to objects.  Code outside the repository is a record of functions:
  \<open>libbase\<close>, the network, the file system, the compression libraries, cryptography and the
  framework.  What is assumed of it are named predicates, each satisfied by an instance that a witness uses.

  \<^bold>\<open>Buffers and packets.\<close>
  \<open>Adb_Prelude\<close> and \<open>Adb_Strings\<close> hold the vocabulary, \<open>Adb_Block\<close> and \<open>Adb_IOVector\<close> model \<open>types.h\<close> and \<open>types.cpp\<close>:
  the vector of blocks is a queue of bytes, shown through the locale \<open>byte_queue\<close>, and its ways of joining
  blocks agree.  \<open>Adb_Io\<close> (\<open>adb_io.cpp\<close>) has exact reads and writes and protocol strings, with their round
  trip.  \<open>Adb_Packet\<close> and \<open>Adb_Packet_Reader\<close> (\<open>types.h\<close>, \<open>FdConnection\<close> of \<open>transport.cpp\<close>, \<open>apacket_reader.cpp\<close>)
  show that packets arrive as they were sent, from any chunks.

  \<^bold>\<open>Transports.\<close>
  \<open>Adb_Transport\<close> (\<open>transport.h\<close>, \<open>transport.cpp\<close>): features, the choice of a transport, the list of devices, reverse
  forwards.  \<open>Adb_Registry\<close>: their life from registration through errors and reconnection to deletion; nothing that is
  alive refers to a deleted transport, reconnection gives up, serial numbers are unique.
  \<open>Adb_Adapter\<close>: the threads of \<open>BlockingConnectionAdapter\<close> as inductive step relations, with an invariant of all
  reachable states and the possibility for \<open>Stop\<close> to finish.

  \<^bold>\<open>Sockets and protocol.\<close>
  \<open>Adb_Sockets\<close> (\<open>sockets.cpp\<close>, \<open>socket.h\<close>) with the invariant \<open>sock_inv\<close> in \<open>Adb_Sockets_Inv\<close>, its preservation by data, creation
  and closing in \<open>Adb_Sockets_Data\<close>, \<open>Adb_Sockets_Create\<close> and \<open>Adb_Sockets_Frame\<close>, and the properties in \<open>Adb_Sockets_Flow\<close>: order
  and completeness of data, closing, events, transports that go offline.  \<open>Adb_Listeners\<close> (\<open>adb_listeners.cpp\<close>)
  refines a table of forwards through the locale \<open>simulation\<close>.  \<open>Adb_Connection\<close>, \<open>Adb_Auth\<close> and \<open>Adb_Protocol\<close> (\<open>adb.cpp\<close>,
  \<open>client/auth.cpp\<close>, \<open>daemon/auth.cpp\<close>) are the banner, authorization and \<open>handle_packet\<close>; \<open>Adb_Dispatch\<close> shows that every packet is handled
  safely and that only a verified signature opens a daemon that requires authorization.

  \<^bold>\<open>The server.\<close>
  \<open>Adb_Host_Service\<close>, \<open>Adb_Socket_Spec\<close>, \<open>Adb_Host_Request\<close> and \<open>Adb_Smart_Socket\<close> (\<open>sockets.cpp\<close>, \<open>socket_spec.cpp\<close>, \<open>adb.cpp\<close>,
  \<open>services.cpp\<close>) are request strings, addresses, host requests and the smart socket; \<open>Adb_Server\<close> shows that what a client
  sends, in whatever pieces, is handled safely and with the effect of the whole request.
  \<open>Adb_Utils\<close> has the helpers of \<open>adb_utils.cpp\<close>.  \<open>Adb_Fdevent\<close> (\<open>fdevent/\<close>) is the event loop: the \<open>poll\<close>
  and the \<open>epoll\<close> pass find the same events, and the kernel's set always matches the installed descriptors.
  The sockets take events as inputs; the two theories are not composed.

  \<^bold>\<open>Services.\<close>
  \<open>Adb_Shell_Protocol\<close> (\<open>shell_protocol.h\<close>) is the framing of the shell service.  \<open>Adb_Compression\<close>, \<open>Adb_Sync_Protocol\<close>, \<open>Adb_Sync_Service\<close>
  and \<open>Adb_Sync_Client\<close> (\<open>compression_utils.h\<close>, \<open>file_sync_protocol.h\<close>, \<open>daemon/file_sync_service.cpp\<close>, \<open>client/file_sync_client.cpp\<close>) are file
  synchronisation; \<open>Adb_Sync\<close> and \<open>Adb_Sync_Queries\<close> compose both ends: pushed and pulled files, attributes and listings
  arrive, and a pull stays below its destination whatever the device sends.

  \<^bold>\<open>Limits of the theorems.\<close>
  The round trips of files are for transfers without compression, since what the libraries compress is not known here;
  of the compressed ones it is shown that decoders keep to their buffers.  Answers to \<open>lstat\<close> are for hosts that number
  errors as Linux does; \<open>errno_from_wire_darwin\<close> shows what happens on another.  A pull is bounded by names: what
  links in the local file system point to is outside the model.  Locks appear only where a theory says so; elsewhere an
  operation on the looper's thread is one step.

  \<^bold>\<open>Not modelled.\<close>
  The command line client, installation and fast deploy: argument parsing, terminals, archives and generated code.  USB, TCP
  and emulator transports, mDNS: driver calls and library callbacks, whose results are arguments here.  Keys,
  certificates, TLS and pairing: calls into BoringSSL.  The daemon's other services and the platform layer: processes,
  Android properties and wrappers of system calls.  \<open>NonblockingFdConnection\<close>, which only a benchmark creates.  The Rust
  crates, which port parts of this code.  Log output and progress lines have no place in the state.
\<close>

end
